(* ===== verification/Prelude.thy ===== *)
theory Prelude
  imports Main "HOL-Library.Word"
begin

text \<open>
  Shared vocabulary of the development: result values (the error branch of a Python
  \<open>raise\<close> is \<open>Inl\<close>), the Python string helpers the code uses, and keyed
  tables (a table of rows in insertion order, as the repositories see one SQL table)
  with their lookup and update laws.
\<close>

unbundle bit_operations_syntax

named_theorems table_simps \<open>lookup and update laws of keyed tables\<close>
named_theorems err_simps \<open>unfolding rules of the error monad\<close>

subsection \<open>Results\<close>

definition rbind :: "('e + 'a) \<Rightarrow> ('a \<Rightarrow> 'e + 'b) \<Rightarrow> 'e + 'b" where
  "rbind r f = (case r of Inl e \<Rightarrow> Inl e | Inr a \<Rightarrow> f a)"

definition guard_err :: "bool \<Rightarrow> 'e \<Rightarrow> 'e + unit" where
  "guard_err ok e = (if ok then Inr () else Inl e)"

lemma rbind_simps [simp, err_simps]:
  "rbind (Inl e) f = Inl e"
  "rbind (Inr a) f = f a"
  by (simp_all add: rbind_def)

lemma rbind_Inr_iff:
  "rbind r f = Inr b \<longleftrightarrow> (\<exists>a. r = Inr a \<and> f a = Inr b)"
  by (cases r) auto

lemma guard_err_Inr [simp, err_simps]: "guard_err ok e = Inr u \<longleftrightarrow> ok"
  by (simp add: guard_err_def)

lemma guard_err_Inl [simp, err_simps]: "guard_err ok e = Inl d \<longleftrightarrow> \<not> ok \<and> d = e"
  by (auto simp: guard_err_def)

lemma case_None_Inr [err_simps]:
  "(case x of None \<Rightarrow> Inl e | Some a \<Rightarrow> f a) = Inr b \<longleftrightarrow> (\<exists>a. x = Some a \<and> f a = Inr b)"
  by (cases x) auto

lemma if_Inl_Inr [err_simps]: "(if c then Inl e else r) = Inr b \<longleftrightarrow> \<not> c \<and> r = Inr b"
  by simp

lemmas err_Inr_iffs = rbind_Inr_iff case_None_Inr if_Inl_Inr

definition is_ok :: "'e + 'a \<Rightarrow> bool" where
  "is_ok r = (case r of Inl _ \<Rightarrow> False | Inr _ \<Rightarrow> True)"

lemma is_ok_simps [simp]: "is_ok (Inl e) = False" "is_ok (Inr a) = True"
  by (simp_all add: is_ok_def)

lemma is_ok_iff: "is_ok r \<longleftrightarrow> (\<exists>a. r = Inr a)"
  by (cases r) auto

subsection \<open>Python strings (Latin-1 code points)\<close>

definition py_is_space :: "char \<Rightarrow> bool" where
  "py_is_space c = (let n = (of_char c :: nat) in
     (9 \<le> n \<and> n \<le> 13) \<or> (28 \<le> n \<and> n \<le> 32) \<or> n = 133 \<or> n = 160)"

definition py_lower_char :: "char \<Rightarrow> char" where
  "py_lower_char c = (let n = (of_char c :: nat) in
     if (65 \<le> n \<and> n \<le> 90) \<or> (192 \<le> n \<and> n \<le> 222 \<and> n \<noteq> 215)
     then char_of (n + 32) else c)"

definition py_lower :: "string \<Rightarrow> string" where
  "py_lower s = map py_lower_char s"

text \<open>\<open>x or ""\<close> of an optional string, and its truth value.\<close>

definition or_empty :: "string option \<Rightarrow> string" where
  "or_empty x = (case x of None \<Rightarrow> [] | Some s \<Rightarrow> s)"

definition truthy :: "string option \<Rightarrow> bool" where
  "truthy x \<longleftrightarrow> or_empty x \<noteq> []"

lemma or_empty_simps [simp]: "or_empty None = []" "or_empty (Some s) = s"
  by (simp_all add: or_empty_def)

definition py_strip :: "string \<Rightarrow> string" where
  "py_strip s = rev (dropWhile py_is_space (rev (dropWhile py_is_space s)))"

fun starts_with :: "'a list \<Rightarrow> 'a list \<Rightarrow> bool" where
  "starts_with [] ys = True"
| "starts_with (x # xs) [] = False"
| "starts_with (x # xs) (y # ys) = (x = y \<and> starts_with xs ys)"

fun py_contains :: "'a list \<Rightarrow> 'a list \<Rightarrow> bool" where
  "py_contains p [] = (p = [])"
| "py_contains p (y # ys) = (starts_with p (y # ys) \<or> py_contains p ys)"

lemma starts_with_iff: "starts_with p xs \<longleftrightarrow> (\<exists>zs. xs = p @ zs)"
  by (induction p xs rule: starts_with.induct) auto

lemma py_contains_iff: "py_contains p xs \<longleftrightarrow> (\<exists>as bs. xs = as @ p @ bs)"
proof (induction xs)
  case Nil
  then show ?case by auto
next
  case (Cons y ys)
  show ?case
  proof
    assume "py_contains p (y # ys)"
    then consider "starts_with p (y # ys)" | "py_contains p ys" by auto
    then show "\<exists>as bs. y # ys = as @ p @ bs"
    proof cases
      case 1
      then show ?thesis by (metis append_Nil starts_with_iff)
    next
      case 2
      with Cons.IH obtain as bs where "ys = as @ p @ bs" by auto
      then have "y # ys = (y # as) @ p @ bs" by simp
      then show ?thesis by blast
    qed
  next
    assume "\<exists>as bs. y # ys = as @ p @ bs"
    then obtain as bs where e: "y # ys = as @ p @ bs" by auto
    show "py_contains p (y # ys)"
    proof (cases as)
      case Nil
      with e have "y # ys = p @ bs" by simp
      then have "starts_with p (y # ys)" unfolding starts_with_iff by blast
      then show ?thesis by simp
    next
      case (Cons a as')
      with e have "ys = as' @ p @ bs" by simp
      with Cons.IH show ?thesis by auto
    qed
  qed
qed

subsection \<open>Keyed tables\<close>

text \<open>A table is the list of its rows in insertion order; \<open>key\<close> is the primary key.\<close>

fun tbl_get :: "('r \<Rightarrow> 'k) \<Rightarrow> 'r list \<Rightarrow> 'k \<Rightarrow> 'r option" where
  "tbl_get key [] k = None"
| "tbl_get key (r # rs) k = (if key r = k then Some r else tbl_get key rs k)"

fun tbl_upd :: "('r \<Rightarrow> 'k) \<Rightarrow> 'k \<Rightarrow> ('r \<Rightarrow> 'r) \<Rightarrow> 'r list \<Rightarrow> 'r list" where
  "tbl_upd key k f [] = []"
| "tbl_upd key k f (r # rs) = (if key r = k then f r # rs else r # tbl_upd key k f rs)"

lemma tbl_get_Some: "tbl_get key rs k = Some r \<Longrightarrow> r \<in> set rs \<and> key r = k"
  by (induction rs) (auto split: if_splits)

lemma tbl_get_None: "tbl_get key rs k = None \<longleftrightarrow> k \<notin> key ` set rs"
  by (induction rs) auto

lemma tbl_get_append [table_simps]:
  "tbl_get key (rs @ ss) k = (case tbl_get key rs k of None \<Rightarrow> tbl_get key ss k | Some r \<Rightarrow> Some r)"
  by (induction rs) auto

lemma tbl_get_in: "distinct (map key rs) \<Longrightarrow> r \<in> set rs \<Longrightarrow> tbl_get key rs (key r) = Some r"
  by (induction rs) (auto simp: rev_image_eqI)

lemma tbl_upd_keys [table_simps]:
  "(\<And>r. key (f r) = key r) \<Longrightarrow> map key (tbl_upd key k f rs) = map key rs"
  by (induction rs) auto

lemma tbl_get_upd [table_simps]:
  assumes "\<And>r. key (f r) = key r"
  shows "tbl_get key (tbl_upd key k f rs) j =
    (if j = k then map_option f (tbl_get key rs j) else tbl_get key rs j)"
  using assms by (induction rs) auto

lemma tbl_upd_missing [table_simps]: "k \<notin> key ` set rs \<Longrightarrow> tbl_upd key k f rs = rs"
  by (induction rs) auto

lemma set_tbl_upd:
  "x \<in> set (tbl_upd key k f rs) \<Longrightarrow> x \<in> set rs \<or> (\<exists>r. tbl_get key rs k = Some r \<and> x = f r)"
  by (induction rs) (auto split: if_splits)

lemma tbl_upd_id: "(\<And>r. tbl_get key rs k = Some r \<Longrightarrow> f r = r) \<Longrightarrow> tbl_upd key k f rs = rs"
  by (induction rs) (auto split: if_splits)

text \<open>The contract every repository of the code relies on, as an interface.\<close>

locale keyed_store =
  fixes get :: "'s \<Rightarrow> 'k \<Rightarrow> 'r option"
    and upd :: "'k \<Rightarrow> ('r \<Rightarrow> 'r) \<Rightarrow> 's \<Rightarrow> 's"
    and stable :: "('r \<Rightarrow> 'r) \<Rightarrow> bool"
  assumes get_upd: "stable f \<Longrightarrow>
    get (upd k f s) j = (if j = k then map_option f (get s j) else get s j)"
begin

lemma get_upd_same: "stable f \<Longrightarrow> get s k = Some r \<Longrightarrow> get (upd k f s) k = Some (f r)"
  by (simp add: get_upd)

lemma get_upd_other: "stable f \<Longrightarrow> j \<noteq> k \<Longrightarrow> get (upd k f s) j = get s j"
  by (simp add: get_upd)

lemma get_upd_missing: "stable f \<Longrightarrow> get s k = None \<Longrightarrow> get (upd k f s) k = None"
  by (simp add: get_upd)

lemma get_upd_upd: "stable f \<Longrightarrow> stable g \<Longrightarrow>
  get (upd k g (upd k f s)) k = map_option (g \<circ> f) (get s k)"
  by (simp add: get_upd option.map_comp)

lemma upd_preserves:
  "stable f \<Longrightarrow> (\<And>r. get s j = Some r \<Longrightarrow> P r) \<Longrightarrow> (\<And>r. P r \<Longrightarrow> P (f r)) \<Longrightarrow>
   get (upd k f s) j = Some r' \<Longrightarrow> P r'"
  by (auto simp: get_upd split: if_splits)

end

end
