(* ===== verification/PyFloat.thy ===== *)
theory PyFloat
  imports Prelude Complex_Main
begin

text \<open>
  Python floats as the gate code uses them: compared, and bounded by \<open>min\<close> and
  \<open>max\<close>, never computed with. A finite double is a rational number and Python compares
  it exactly, so a float is a rational, an infinity or NaN. Every comparison with NaN is
  false, and \<open>min\<close>/\<open>max\<close> keep their first argument unless a comparison says otherwise.
\<close>

datatype pyfloat = Fin rat | PInf | NInf | NaN

instantiation pyfloat :: ord
begin

fun less_pyfloat :: "pyfloat \<Rightarrow> pyfloat \<Rightarrow> bool" where
  "less_pyfloat (Fin a) (Fin b) = (a < b)"
| "less_pyfloat (Fin a) PInf = True"
| "less_pyfloat NInf (Fin b) = True"
| "less_pyfloat NInf PInf = True"
| "less_pyfloat _ _ = False"

fun less_eq_pyfloat :: "pyfloat \<Rightarrow> pyfloat \<Rightarrow> bool" where
  "less_eq_pyfloat (Fin a) (Fin b) = (a \<le> b)"
| "less_eq_pyfloat NaN _ = False"
| "less_eq_pyfloat _ NaN = False"
| "less_eq_pyfloat NInf _ = True"
| "less_eq_pyfloat _ PInf = True"
| "less_eq_pyfloat _ _ = False"

instance ..

end

definition float_of_int :: "int \<Rightarrow> pyfloat" where
  "float_of_int n = Fin (of_int n)"

text \<open>Python's \<open>==\<close> on floats: NaN is different from itself.\<close>

definition feq :: "pyfloat \<Rightarrow> pyfloat \<Rightarrow> bool" where
  "feq a b \<longleftrightarrow> a = b \<and> a \<noteq> NaN"

definition fmin :: "pyfloat \<Rightarrow> pyfloat \<Rightarrow> pyfloat" where
  "fmin a b = (if b < a then b else a)"

definition fmax :: "pyfloat \<Rightarrow> pyfloat \<Rightarrow> pyfloat" where
  "fmax a b = (if a < b then b else a)"

lemma not_less_NaN [simp]: "\<not> x < NaN" "\<not> NaN < x" "\<not> x \<le> NaN" "\<not> NaN \<le> x"
  by (cases x; simp)+

lemma fle_refl [simp]: "x \<le> x \<longleftrightarrow> x \<noteq> NaN" for x :: pyfloat
  by (cases x) auto

lemma fle_trans: "x \<le> y \<Longrightarrow> y \<le> z \<Longrightarrow> x \<le> z" for x :: pyfloat
  by (cases x; cases y; cases z) auto

lemma fle_antisym: "x \<le> y \<Longrightarrow> y \<le> x \<Longrightarrow> x = y" for x :: pyfloat
  by (cases x; cases y) auto

lemma fnot_less: "x \<noteq> NaN \<Longrightarrow> y \<noteq> NaN \<Longrightarrow> \<not> y < x \<longleftrightarrow> x \<le> y" for x :: pyfloat
  by (cases x; cases y) auto

lemma fless_le: "x < y \<Longrightarrow> x \<le> y" for x :: pyfloat
  by (cases x; cases y) auto

lemma fle_not_NaN: "x \<le> y \<Longrightarrow> x \<noteq> NaN \<and> y \<noteq> NaN" for x :: pyfloat
  by (cases x; cases y) auto

lemma fless_le_trans: "x < y \<Longrightarrow> y \<le> z \<Longrightarrow> x < z" for x :: pyfloat
  by (cases x; cases y; cases z) auto

lemma fmin_le: "a \<noteq> NaN \<Longrightarrow> b \<noteq> NaN \<Longrightarrow> fmin a b \<le> a \<and> fmin a b \<le> b"
  by (auto simp: fmin_def fnot_less dest: fless_le)

lemma fmax_ge: "a \<noteq> NaN \<Longrightarrow> b \<noteq> NaN \<Longrightarrow> a \<le> fmax a b \<and> b \<le> fmax a b"
  by (auto simp: fmax_def fnot_less dest: fless_le)

lemma fmin_cases: "fmin a b = a \<or> fmin a b = b" and fmax_cases: "fmax a b = a \<or> fmax a b = b"
  by (auto simp: fmin_def fmax_def)

lemma float_of_int_le [simp]: "float_of_int a \<le> float_of_int b \<longleftrightarrow> a \<le> b"
  and float_of_int_less [simp]: "float_of_int a < float_of_int b \<longleftrightarrow> a < b"
  and float_of_int_not_NaN [simp]: "float_of_int a \<noteq> NaN"
  by (simp_all add: float_of_int_def)

text \<open>Clamping \<open>min(max(x, lo), hi)\<close>, the idiom of the receive gate.\<close>

lemma clamp_in_range:
  assumes "lo \<le> hi" "x \<noteq> NaN"
  shows "lo \<le> fmin (fmax x lo) hi \<and> fmin (fmax x lo) hi \<le> hi"
  using assms fle_not_NaN [OF assms(1)]
  by (cases x; cases lo; cases hi) (auto simp: fmin_def fmax_def)

lemma clamp_id:
  "lo \<le> x \<Longrightarrow> x \<le> hi \<Longrightarrow> fmin (fmax x lo) hi = x"
  by (cases x; cases lo; cases hi) (auto simp: fmin_def fmax_def)

text \<open>
  \<open>timedelta(seconds=x)\<close> in whole microseconds, rounded half to even; a span of more than
  999999999 days, an infinity or NaN raises. And \<open>x or default\<close> of an optional float.
\<close>

definition round_half_even :: "rat \<Rightarrow> int" where
  "round_half_even q = (let f = \<lfloor>q\<rfloor>; d = q - of_int f in
     if d < 1 / 2 then f else if 1 / 2 < d then f + 1 else if even f then f else f + 1)"

definition max_timedelta_us :: int where
  "max_timedelta_us = 999999999 * 86400 * 1000000"

fun timedelta_us :: "pyfloat \<Rightarrow> int option" where
  "timedelta_us (Fin q) = (let us = round_half_even (q * 1000000) in
     if - max_timedelta_us \<le> us \<and> us < max_timedelta_us + 86400 * 1000000 then Some us else None)"
| "timedelta_us _ = None"

definition float_or :: "pyfloat option \<Rightarrow> pyfloat \<Rightarrow> pyfloat" where
  "float_or x dflt = (case x of None \<Rightarrow> dflt | Some v \<Rightarrow> if v = Fin 0 then dflt else v)"

lemma round_half_even_mono:
  assumes "a \<le> b"
  shows "round_half_even a \<le> round_half_even b"
proof (cases "\<lfloor>a\<rfloor> = \<lfloor>b\<rfloor>")
  case True
  then show ?thesis using assms by (auto simp: round_half_even_def Let_def)
next
  case False
  then have fl: "\<lfloor>a\<rfloor> + 1 \<le> \<lfloor>b\<rfloor>" using floor_mono [OF assms] by linarith
  have "round_half_even a \<le> \<lfloor>a\<rfloor> + 1" by (auto simp: round_half_even_def Let_def)
  moreover have "\<lfloor>b\<rfloor> \<le> round_half_even b" by (auto simp: round_half_even_def Let_def)
  ultimately show ?thesis using fl by linarith
qed

lemma timedelta_us_mono:
  "timedelta_us x = Some a \<Longrightarrow> timedelta_us y = Some b \<Longrightarrow> x \<le> y \<Longrightarrow> a \<le> b"
  by (cases x; cases y)
     (auto simp: Let_def split: if_splits intro!: round_half_even_mono)

end
