(* ===== verification/Bytes.thy ===== *)
theory Bytes
  imports Prelude
begin

text \<open>
  Byte strings and the parts of Python's \<open>struct\<close>, \<open>int.to_bytes\<close> and
  \<open>int.from_bytes\<close> (big endian) that the framing code uses, with their round trips.
\<close>

type_synonym byte = "8 word"
type_synonym bytes = "byte list"

fun to_be :: "nat \<Rightarrow> nat \<Rightarrow> bytes" where
  "to_be 0 n = []"
| "to_be (Suc k) n = to_be k (n div 256) @ [word_of_nat n]"

definition from_be :: "bytes \<Rightarrow> nat" where
  "from_be bs = foldl (\<lambda>a b. a * 256 + unat b) 0 bs"

lemma length_to_be [simp]: "length (to_be k n) = k"
  by (induction k arbitrary: n) auto

lemma from_be_Nil [simp]: "from_be [] = 0"
  by (simp add: from_be_def)

lemma from_be_single [simp]: "from_be [b] = unat b"
  by (simp add: from_be_def)

lemma from_be_snoc [simp]: "from_be (bs @ [b]) = from_be bs * 256 + unat b"
  by (simp add: from_be_def)

lemma unat_byte: "unat (word_of_nat n :: byte) = n mod 256"
  by (simp add: unat_of_nat)

lemma unat_byte_less [simp]: "unat (b :: byte) < 256"
  using unsigned_less [of b] by simp

lemma from_to_be: "from_be (to_be k n) = n mod 256 ^ k"
proof (induction k arbitrary: n)
  case 0
  then show ?case by simp
next
  case (Suc k)
  have "n mod 256 ^ Suc k = (n div 256) mod 256 ^ k * 256 + n mod 256"
    by (simp add: mod_mult2_eq mult.commute)
  with Suc show ?case by (simp add: unat_byte)
qed

lemma from_to_be_id [simp]: "n < 256 ^ k \<Longrightarrow> from_be (to_be k n) = n"
  by (simp add: from_to_be)

lemma to_from_be: "to_be (length bs) (from_be bs) = bs"
proof (induction bs rule: rev_induct)
  case Nil
  then show ?case by simp
next
  case (snoc b bs)
  have "(from_be bs * 256 + unat b) div 256 = from_be bs"
    using unat_byte_less [of b] by simp
  moreover have "(word_of_nat (from_be bs * 256 + unat b) :: byte) = b"
  proof -
    have "unat (word_of_nat (from_be bs * 256 + unat b) :: byte) = unat b"
      unfolding unat_byte using unat_byte_less [of b] by simp
    then show ?thesis by (simp only: word_unat_eq_iff)
  qed
  ultimately show ?case using snoc by simp
qed

lemma from_be_less: "from_be bs < 256 ^ length bs"
proof (induction bs rule: rev_induct)
  case Nil
  then show ?case by simp
next
  case (snoc b bs)
  have "from_be bs * 256 + unat b < (from_be bs + 1) * 256" by simp
  also have "\<dots> \<le> 256 ^ length bs * 256"
    using snoc by (intro mult_le_mono1) simp
  finally show ?case by simp
qed

lemma from_be_inj: "length xs = length ys \<Longrightarrow> from_be xs = from_be ys \<Longrightarrow> xs = ys"
  by (metis to_from_be)

lemma to_be_inj: "a < 256 ^ k \<Longrightarrow> b < 256 ^ k \<Longrightarrow> to_be k a = to_be k b \<Longrightarrow> a = b"
  by (metis from_to_be_id)

text \<open>Masking a Python integer with a power of two minus one.\<close>

lemma mask_int: "(x :: int) AND (2 ^ n - 1) = x mod 2 ^ n"
  by (metis mask_eq_exp_minus_1 take_bit_eq_mask take_bit_eq_mod)

lemma mask16 [simp]: "(x :: int) AND 65535 = x mod 65536"
  using mask_int [of x 16] by simp

lemma mask32 [simp]: "(x :: int) AND 4294967295 = x mod 4294967296"
  using mask_int [of x 32] by simp

lemma mask64 [simp]: "(x :: int) AND 18446744073709551615 = x mod 18446744073709551616"
  using mask_int [of x 64] by simp

text \<open>Python slices \<open>bs[i:j]\<close> for \<open>0 \<le> i\<close>.\<close>

definition bslice :: "nat \<Rightarrow> nat \<Rightarrow> 'a list \<Rightarrow> 'a list" where
  "bslice i j xs = take (j - i) (drop i xs)"

lemma length_bslice [simp]: "length (bslice i j xs) = min (j - i) (length xs - i)"
  by (simp add: bslice_def)

lemma bslice_skip [simp]: "bslice (length a + i) (length a + j) (a @ b) = bslice i j b"
  by (simp add: bslice_def)

lemma bslice_append_left:
  "j \<le> length a \<Longrightarrow> bslice i j (a @ b) = bslice i j a"
  by (simp add: bslice_def)

lemma bslice_append_right:
  "length a \<le> i \<Longrightarrow> bslice i j (a @ b) = bslice (i - length a) (j - length a) b"
  by (auto simp: bslice_def)

lemma bslice_all: "j = length xs \<Longrightarrow> bslice 0 j xs = xs"
  by (simp add: bslice_def)

lemma bslice_update_outside:
  "i < a \<or> b \<le> i \<Longrightarrow> bslice a b (xs[i := x]) = bslice a b xs"
  by (cases "a \<le> i") (auto simp: bslice_def drop_update_swap drop_update_cancel take_update_cancel)

lemma bslice_update_inside:
  "a \<le> i \<Longrightarrow> bslice a b (xs[i := x]) = (bslice a b xs)[i - a := x]"
  by (simp add: bslice_def drop_update_swap take_update_swap)

lemma bslice_join:
  assumes "i \<le> j" and "j \<le> k"
  shows "bslice i j xs @ bslice j k xs = bslice i k xs"
proof -
  have "drop j xs = drop (j - i) (drop i xs)" using assms by simp
  moreover have "k - i = (j - i) + (k - j)" using assms by simp
  ultimately show ?thesis by (simp only: bslice_def take_add)
qed

text \<open>The blocks \<open>[xs[i:i+m] for i in range(0, len(xs), m)]\<close>.\<close>

function chunks :: "nat \<Rightarrow> 'a list \<Rightarrow> 'a list list" where
  "chunks m xs = (if xs = [] \<or> m = 0 then [] else take m xs # chunks m (drop m xs))"
  by pat_completeness auto
termination
  by (relation "measure (\<lambda>(m, xs). length xs)") auto

declare chunks.simps [simp del]

lemma chunks_Nil [simp]: "chunks m [] = []"
  by (simp add: chunks.simps)

lemma chunks_step: "0 < m \<Longrightarrow> xs \<noteq> [] \<Longrightarrow> chunks m xs = take m xs # chunks m (drop m xs)"
  by (simp add: chunks.simps [of m xs])

lemma concat_chunks: "0 < m \<Longrightarrow> concat (chunks m xs) = xs"
proof (induction m xs rule: chunks.induct)
  case (1 m xs)
  then show ?case by (cases "xs = []") (simp_all add: chunks_step)
qed

lemma chunks_small: "c \<in> set (chunks m xs) \<Longrightarrow> 0 < length c \<and> length c \<le> m"
proof (induction m xs rule: chunks.induct)
  case (1 m xs)
  then show ?case by (auto simp: chunks.simps [of m xs] split: if_splits)
qed

lemma length_chunks: "length (chunks m xs) \<le> length xs"
proof (induction m xs rule: chunks.induct)
  case (1 m xs)
  show ?case
  proof (cases "xs = [] \<or> m = 0")
    case False
    with 1 have "length (chunks m (drop m xs)) \<le> length xs - m" by simp
    moreover have "length xs - m + 1 \<le> length xs" using False by (cases xs) auto
    ultimately show ?thesis using False by (simp add: chunks_step)
  qed (auto simp: chunks.simps)
qed

lemma chunks_append: "0 < m \<Longrightarrow> length b = m \<Longrightarrow> chunks m (b @ xs) = b # chunks m xs"
  by (subst chunks_step) auto

end
