(* ===== verification/Json.thy ===== *)
theory Json
  imports PyFloat Sha256 "HOL-Library.List_Lexorder" "HOL-Library.Char_ord"
begin

text \<open>
  \<open>json.dumps(obj, sort_keys=True, separators=(",", ":"))\<close> of the standard library, the
  canonical form every digest and every associated-data string of the code is computed over.
  Strings are Latin-1 and escaped as with \<open>ensure_ascii\<close>. \<open>fr\<close> is Python's
  \<open>float.__repr__\<close> (the shortest decimal that reads back as the same double), which is
  a parameter.
\<close>

datatype json =
    JNull
  | JBool bool
  | JInt int
  | JFloat pyfloat
  | JStr string
  | JList "json list"
  | JObj "(string \<times> json) list"

fun dec_digits :: "nat \<Rightarrow> string" where
  "dec_digits n = (if n < 10 then [char_of (48 + n)] else dec_digits (n div 10) @ [char_of (48 + n mod 10)])"

declare dec_digits.simps [simp del]

definition int_repr :: "int \<Rightarrow> string" where
  "int_repr i = (if i < 0 then ''-'' @ dec_digits (nat (- i)) else dec_digits (nat i))"

definition json_escape :: "char \<Rightarrow> string" where
  "json_escape c = (let n = (of_char c :: nat); bs = CHR 0x5C in
     if n = 34 then [bs, c] else if n = 92 then [bs, c]
     else if n = 10 then [bs, CHR ''n''] else if n = 13 then [bs, CHR ''r'']
     else if n = 9 then [bs, CHR ''t''] else if n = 12 then [bs, CHR ''f'']
     else if n = 8 then [bs, CHR ''b'']
     else if 32 \<le> n \<and> n \<le> 126 then [c]
     else [bs, CHR ''u'', CHR ''0'', CHR ''0'', hex_digit (n div 16), hex_digit (n mod 16)])"

definition json_str :: "string \<Rightarrow> string" where
  "json_str s = CHR 0x22 # concat (map json_escape s) @ [CHR 0x22]"

fun join_with :: "'a list \<Rightarrow> 'a list list \<Rightarrow> 'a list" where
  "join_with sep [] = []"
| "join_with sep [x] = x"
| "join_with sep (x # y # ys) = x @ sep @ join_with sep (y # ys)"

fun json_float :: "(pyfloat \<Rightarrow> string) \<Rightarrow> pyfloat \<Rightarrow> string" where
  "json_float fr NaN = ''NaN''"
| "json_float fr PInf = ''Infinity''"
| "json_float fr NInf = ''-Infinity''"
| "json_float fr (Fin q) = fr (Fin q)"

fun dumps :: "(pyfloat \<Rightarrow> string) \<Rightarrow> json \<Rightarrow> string" where
  "dumps fr JNull = ''null''"
| "dumps fr (JBool b) = (if b then ''true'' else ''false'')"
| "dumps fr (JInt i) = int_repr i"
| "dumps fr (JFloat x) = json_float fr x"
| "dumps fr (JStr s) = json_str s"
| "dumps fr (JList xs) = ''['' @ join_with '','' (map (dumps fr) xs) @ '']''"
| "dumps fr (JObj kvs) =
     ''{'' @ join_with '',''
       (map (\<lambda>(k, v). json_str k @ '':'' @ v) (sort_key fst (map (\<lambda>(k, j). (k, dumps fr j)) kvs)))
     @ ''}''"

definition json_opt_str :: "string option \<Rightarrow> json" where
  "json_opt_str s = (case s of None \<Rightarrow> JNull | Some t \<Rightarrow> JStr t)"

section \<open>Unique decoding of strings and integers\<close>

text \<open>Reading one escaped character back; \<open>None\<close> at the closing quote.\<close>

definition hex_val :: "char \<Rightarrow> nat" where
  "hex_val c = (let n = (of_char c :: nat) in if n \<le> 57 then n - 48 else n - 87)"

lemma hex_val_digit [simp]: "d < 16 \<Longrightarrow> hex_val (hex_digit d) = d"
  by (simp add: hex_val_def hex_digit_def Let_def take_bit_nat_def)

fun json_read1 :: "string \<Rightarrow> (char \<times> string) option" where
  "json_read1 [] = None"
| "json_read1 (c # r) =
     (if (of_char c :: nat) = 34 then None
      else if (of_char c :: nat) = 92 then
        (case r of
           e # r' \<Rightarrow>
             if e = CHR ''n'' then Some (CHR 0x0A, r')
             else if e = CHR ''r'' then Some (CHR 0x0D, r')
             else if e = CHR ''t'' then Some (CHR 0x09, r')
             else if e = CHR ''f'' then Some (CHR 0x0C, r')
             else if e = CHR ''b'' then Some (CHR 0x08, r')
             else if e = CHR ''u'' then
               (case r' of _ # _ # h # l # q \<Rightarrow> Some (char_of (16 * hex_val h + hex_val l), q) | _ \<Rightarrow> None)
             else Some (e, r')
         | [] \<Rightarrow> None)
      else Some (c, r))"

lemma char_eq_of: "(of_char c :: nat) = n \<Longrightarrow> char_of n = c"
  by auto

lemma char_quote: "char_of (34 :: nat) = CHR 0x22" and char_backslash: "char_of (92 :: nat) = CHR 0x5C"
  by code_simp+

lemma char_byte_lt: "(of_char c :: nat) < 256"
  by (metis of_char_mod_256 mod_less_divisor zero_less_numeral)

lemma json_escape_cases:
  "json_escape (CHR 0x22) = [CHR 0x5C, CHR 0x22]" "json_escape (CHR 0x5C) = [CHR 0x5C, CHR 0x5C]"
  "json_escape (CHR 0x0A) = [CHR 0x5C, CHR ''n'']" "json_escape (CHR 0x0D) = [CHR 0x5C, CHR ''r'']"
  "json_escape (CHR 0x09) = [CHR 0x5C, CHR ''t'']" "json_escape (CHR 0x0C) = [CHR 0x5C, CHR ''f'']"
  "json_escape (CHR 0x08) = [CHR 0x5C, CHR ''b'']"
  by code_simp+

lemma json_escape_plain:
  "32 \<le> (of_char c :: nat) \<Longrightarrow> (of_char c :: nat) \<le> 126 \<Longrightarrow> (of_char c :: nat) \<notin> {34, 92} \<Longrightarrow>
   json_escape c = [c]"
  by (simp add: json_escape_def Let_def)

lemma json_escape_hex:
  "\<not> (32 \<le> (of_char c :: nat) \<and> (of_char c :: nat) \<le> 126) \<Longrightarrow>
   (of_char c :: nat) \<notin> {8, 9, 10, 12, 13} \<Longrightarrow>
   json_escape c = [CHR 0x5C, CHR ''u'', CHR ''0'', CHR ''0'',
     hex_digit (of_char c div 16), hex_digit (of_char c mod 16)]"
  by (auto simp: json_escape_def Let_def)

lemma json_read1_hex:
  "h < 16 \<Longrightarrow> l < 16 \<Longrightarrow>
   json_read1 (CHR 0x5C # CHR ''u'' # CHR ''0'' # CHR ''0'' # hex_digit h # hex_digit l # r)
     = Some (char_of (16 * h + l), r)"
  by simp

lemma char_of_consts:
  "char_of (8 :: nat) = CHR 0x08" "char_of (9 :: nat) = CHR 0x09" "char_of (10 :: nat) = CHR 0x0A"
  "char_of (12 :: nat) = CHR 0x0C" "char_of (13 :: nat) = CHR 0x0D"
  by code_simp+

lemma json_read1_escape: "json_read1 (json_escape c @ r) = Some (c, r)"
proof -
  let ?n = "of_char c :: nat"
  have d: "?n div 16 < 16" "?n mod 16 < 16" using char_byte_lt [of c] by linarith+
  consider "?n \<in> {34, 92, 8, 9, 10, 12, 13}"
    | "?n \<notin> {34, 92}" "32 \<le> ?n" "?n \<le> 126"
    | "?n \<notin> {8, 9, 10, 12, 13}" "\<not> (32 \<le> ?n \<and> ?n \<le> 126)" by blast
  then show ?thesis
  proof cases
    case 1
    then have "char_of ?n \<in> char_of ` {34, 92, 8, 9, 10, 12, 13 :: nat}" by (rule imageI)
    then have "c = CHR 0x22 \<or> c = CHR 0x5C \<or> c = CHR 0x08 \<or> c = CHR 0x09 \<or> c = CHR 0x0A
        \<or> c = CHR 0x0C \<or> c = CHR 0x0D"
      by (simp only: char_of_char image_insert image_empty insert_iff empty_iff simp_thms
          char_quote char_backslash char_of_consts)
    then show ?thesis
      by (elim disjE) (simp_all add: json_escape_cases)
  next
    case 2
    then show ?thesis by (simp add: json_escape_plain)
  next
    case 3
    have "json_read1 (json_escape c @ r) = Some (char_of (16 * (?n div 16) + ?n mod 16), r)"
      unfolding json_escape_hex [OF 3(2) 3(1)] append_Cons append_Nil by (rule json_read1_hex [OF d])
    then show ?thesis by simp
  qed
qed

lemma escapes_unique:
  assumes read1: "\<And>c r. json_read1 (esc c @ r) = Some (c, r)"
    and "concat (map esc s) @ CHR 0x22 # r
         = concat (map esc t) @ CHR 0x22 # q"
  shows "s = t \<and> r = q"
  using assms(2)
proof (induction s arbitrary: t)
  case Nil
  show ?case
  proof (cases t)
    case Nil
    then show ?thesis using \<open>concat (map esc []) @ _ = _\<close> by simp
  next
    case (Cons d ds)
    then have "json_read1 (CHR 0x22 # r) =
        json_read1 (esc d @ concat (map esc ds) @ CHR 0x22 # q)"
      using Nil by simp
    then show ?thesis by (simp add: read1)
  qed
next
  case (Cons c cs)
  have lhs: "json_read1 (concat (map esc (c # cs)) @ CHR 0x22 # r)
      = Some (c, concat (map esc cs) @ CHR 0x22 # r)"
    using read1 [of c] by simp
  show ?case
  proof (cases t)
    case Nil
    with Cons.prems have "json_read1 (CHR 0x22 # q)
        = Some (c, concat (map esc cs) @ CHR 0x22 # r)"
      using lhs by simp
    then show ?thesis by simp
  next
    case t: (Cons d ds)
    have "json_read1 (concat (map esc t) @ CHR 0x22 # q)
      = Some (d, concat (map esc ds) @ CHR 0x22 # q)"
      using read1 [of d] by (simp add: t)
    with lhs Cons.prems have "c = d" and "concat (map esc cs) @ CHR 0x22 # r
        = concat (map esc ds) @ CHR 0x22 # q" by simp_all
    with Cons.IH [of ds] t show ?thesis by simp
  qed
qed

lemmas json_escapes_unique = escapes_unique [OF json_read1_escape]

lemma json_str_unique: "json_str s @ r = json_str t @ q \<Longrightarrow> s = t \<and> r = q"
  using json_escapes_unique [of s r t q] by (simp add: json_str_def)

definition is_digit :: "char \<Rightarrow> bool" where
  "is_digit c \<longleftrightarrow> (let n = (of_char c :: nat) in 48 \<le> n \<and> n \<le> 57)"

lemma dec_digits_digits: "list_all is_digit (dec_digits n) \<and> dec_digits n \<noteq> []"
proof (induction n rule: dec_digits.induct)
  case (1 n)
  show ?case
  proof (cases "n < 10")
    case True
    then show ?thesis by (subst (1 2) dec_digits.simps) (simp add: is_digit_def take_bit_nat_def)
  next
    case False
    with 1 have "list_all is_digit (dec_digits (n div 10))" by simp
    moreover have "n mod 10 < 10" by simp
    ultimately show ?thesis using False
      by (subst (1 2) dec_digits.simps) (auto simp: is_digit_def take_bit_nat_def)
  qed
qed

definition dec_value :: "string \<Rightarrow> nat" where
  "dec_value s = foldl (\<lambda>a c. a * 10 + (of_char c - 48)) 0 s"

lemma dec_value_digits: "dec_value (dec_digits n) = n"
proof (induction n rule: dec_digits.induct)
  case (1 n)
  show ?case
  proof (cases "n < 10")
    case True
    then show ?thesis by (subst dec_digits.simps) (simp add: dec_value_def take_bit_nat_def)
  next
    case False
    with 1 have "dec_value (dec_digits (n div 10)) = n div 10" by simp
    moreover have "n mod 10 < 10" by simp
    ultimately show ?thesis using False
      by (subst dec_digits.simps) (simp add: dec_value_def take_bit_nat_def)
  qed
qed

lemma digit_prefix_unique:
  assumes "list_all is_digit a" "list_all is_digit b"
    and "a @ r = b @ q" "r = [] \<or> \<not> is_digit (hd r)" "q = [] \<or> \<not> is_digit (hd q)"
  shows "a = b \<and> r = q"
proof -
  have stop: "takeWhile is_digit (x @ y) = x"
    if "list_all is_digit x" "y = [] \<or> \<not> is_digit (hd y)" for x y
    using that by (induction x) (cases y, auto)
  from stop [of a r] stop [of b q] assms show ?thesis by auto
qed

lemma int_repr_unique:
  assumes eq: "int_repr i @ r = int_repr j @ q"
    and "r = [] \<or> \<not> is_digit (hd r)" "q = [] \<or> \<not> is_digit (hd q)"
  shows "i = j \<and> r = q"
proof -
  have minus: "\<not> is_digit (CHR ''-'')" by (simp add: is_digit_def)
  have nodash: "dec_digits n = CHR ''-'' # x \<Longrightarrow> False" for n x
    using dec_digits_digits [of n] minus by simp
  have nodash': "dec_digits n @ y = CHR ''-'' # x \<Longrightarrow> False" for n x y
    using dec_digits_digits [of n] minus by (cases "dec_digits n") auto
  have sg: "(i < 0) = (j < 0)"
    using eq nodash' [of "nat i" r] nodash' [of "nat j" q]
    by (auto simp: int_repr_def split: if_splits dest: sym)
  have "dec_digits (nat \<bar>i\<bar>) @ r = dec_digits (nat \<bar>j\<bar>) @ q"
    using eq sg by (auto simp: int_repr_def split: if_splits)
  then have "dec_digits (nat \<bar>i\<bar>) = dec_digits (nat \<bar>j\<bar>) \<and> r = q"
    using dec_digits_digits assms(2,3) by (intro digit_prefix_unique) auto
  then have "nat \<bar>i\<bar> = nat \<bar>j\<bar> \<and> r = q" by (metis dec_value_digits)
  with sg show ?thesis by auto
qed

lemma utf8_char_ascii: "(of_char c :: nat) < 128 \<Longrightarrow> utf8_char c = [word_of_nat (of_char c)]"
  by (simp add: utf8_char_def)

end
