(* ===== verification/Profiles.thy ===== *)
theory Profiles
  imports Json
begin

text \<open>
  \<open>transport/ota/profiles.py\<close>: the modem profile, its structural validation, its digest
  and the profile registry with its descriptive qualification states.
\<close>

section \<open>Profiles and their validation\<close>

record rf_profile =
  profile_id :: string
  modulation :: string
  symbol_rate :: int
  sample_rate :: int
  occupied_bandwidth_hz :: int
  samples_per_symbol :: int
  preamble :: bytes
  sync_word :: bytes
  fec_scheme :: string
  fec_rate :: string
  crc_scheme :: string
  interleaver :: "string option"
  max_frame_payload_bytes :: int
  max_message_bytes :: int
  ack_mode :: string
  duplex_mode :: string
  timeout_seconds :: pyfloat
  max_retries :: int

definition profile_json :: "rf_profile \<Rightarrow> json" where
  "profile_json p = JObj [
     (''profile_id'', JStr (profile_id p)), (''modulation'', JStr (modulation p)),
     (''symbol_rate'', JInt (symbol_rate p)), (''sample_rate'', JInt (sample_rate p)),
     (''occupied_bandwidth_hz'', JInt (occupied_bandwidth_hz p)),
     (''samples_per_symbol'', JInt (samples_per_symbol p)),
     (''preamble'', JStr (to_hex (preamble p))), (''sync_word'', JStr (to_hex (sync_word p))),
     (''fec_scheme'', JStr (fec_scheme p)), (''fec_rate'', JStr (fec_rate p)),
     (''crc_scheme'', JStr (crc_scheme p)), (''interleaver'', json_opt_str (interleaver p)),
     (''max_frame_payload_bytes'', JInt (max_frame_payload_bytes p)),
     (''max_message_bytes'', JInt (max_message_bytes p)), (''ack_mode'', JStr (ack_mode p)),
     (''duplex_mode'', JStr (duplex_mode p)), (''timeout_seconds'', JFloat (timeout_seconds p)),
     (''max_retries'', JInt (max_retries p))]"

definition profile_digest :: "(pyfloat \<Rightarrow> string) \<Rightarrow> rf_profile \<Rightarrow> string" where
  "profile_digest fr p = sha256_text (utf8 (dumps fr (profile_json p)))"

datatype profile_error =
    BadProfileId
  | UnsupportedModulation string
  | UnsupportedFec string
  | UnsupportedCrc string
  | NotPositive string
  | SampleRateMismatch
  | FramePayloadExceedsMessage
  | MissingPreambleOrSync
  | NegativeRetries
  | BadTimeout

text \<open>The loop over the five sizes raises for the first one that is not positive.\<close>

fun first_nonpositive :: "(string \<times> int) list \<Rightarrow> string option" where
  "first_nonpositive [] = None"
| "first_nonpositive ((name, val) # r) = (if val \<le> 0 then Some name else first_nonpositive r)"

definition validate_profile :: "rf_profile \<Rightarrow> profile_error + unit" where
  "validate_profile p =
     (if profile_id p = [] \<or> CHR '' '' \<in> set (profile_id p) then Inl BadProfileId
      else if modulation p \<notin> {''bpsk'', ''qpsk''} then Inl (UnsupportedModulation (modulation p))
      else if fec_scheme p \<notin> {''none'', ''repetition3'', ''hamming74''} then Inl (UnsupportedFec (fec_scheme p))
      else if crc_scheme p \<notin> {''crc16'', ''crc32''} then Inl (UnsupportedCrc (crc_scheme p))
      else (case first_nonpositive [(''symbol_rate'', symbol_rate p), (''sample_rate'', sample_rate p),
                (''samples_per_symbol'', samples_per_symbol p),
                (''max_frame_payload_bytes'', max_frame_payload_bytes p),
                (''max_message_bytes'', max_message_bytes p)] of
              Some name \<Rightarrow> Inl (NotPositive name)
            | None \<Rightarrow>
                if sample_rate p \<noteq> symbol_rate p * samples_per_symbol p then Inl SampleRateMismatch
                else if max_frame_payload_bytes p > max_message_bytes p then Inl FramePayloadExceedsMessage
                else if preamble p = [] \<or> sync_word p = [] then Inl MissingPreambleOrSync
                else if max_retries p < 0 then Inl NegativeRetries
                else if timeout_seconds p \<le> Fin 0 then Inl BadTimeout
                else Inr ()))"

definition reference_bpsk :: rf_profile where
  "reference_bpsk = \<lparr>
     profile_id = ''ref-bpsk-1k'', modulation = ''bpsk'', symbol_rate = 1000, sample_rate = 8000,
     occupied_bandwidth_hz = 1200, samples_per_symbol = 8,
     preamble = [0xAA, 0xAA, 0xAA, 0xAA], sync_word = [0x2D, 0xD4],
     fec_scheme = ''repetition3'', fec_rate = ''1/3'', crc_scheme = ''crc16'', interleaver = None,
     max_frame_payload_bytes = 128, max_message_bytes = 65536, ack_mode = ''stop_and_wait'',
     duplex_mode = ''half'', timeout_seconds = Fin 2, max_retries = 4\<rparr>"

definition reference_qpsk :: rf_profile where
  "reference_qpsk = \<lparr>
     profile_id = ''ref-qpsk-2k'', modulation = ''qpsk'', symbol_rate = 2000, sample_rate = 8000,
     occupied_bandwidth_hz = 2400, samples_per_symbol = 4,
     preamble = [0xAA, 0xAA, 0xAA, 0xAA], sync_word = [0x2D, 0xD4],
     fec_scheme = ''repetition3'', fec_rate = ''1/3'', crc_scheme = ''crc16'', interleaver = None,
     max_frame_payload_bytes = 128, max_message_bytes = 65536, ack_mode = ''stop_and_wait'',
     duplex_mode = ''half'', timeout_seconds = Fin 2, max_retries = 4\<rparr>"

section \<open>The registry\<close>

definition QUAL_EXPERIMENTAL :: string where "QUAL_EXPERIMENTAL = ''experimental''"
definition QUAL_SOFTWARE_VALIDATED :: string where "QUAL_SOFTWARE_VALIDATED = ''software_validated''"
definition QUAL_OPERATOR_CUSTOM :: string where "QUAL_OPERATOR_CUSTOM = ''operator_custom''"
definition QUAL_HARDWARE_TESTED :: string where "QUAL_HARDWARE_TESTED = ''hardware_tested''"

definition qualification_states :: "string list" where
  "qualification_states =
     [QUAL_EXPERIMENTAL, QUAL_SOFTWARE_VALIDATED, QUAL_OPERATOR_CUSTOM, QUAL_HARDWARE_TESTED]"

lemmas qual_defs = QUAL_EXPERIMENTAL_def QUAL_SOFTWARE_VALIDATED_def QUAL_OPERATOR_CUSTOM_def
  QUAL_HARDWARE_TESTED_def

record profile_registry =
  reg_profiles :: "string \<rightharpoonup> rf_profile"
  reg_state :: "string \<rightharpoonup> string"

datatype registry_error = ProfileInvalid profile_error | ProfileKeyError string

definition store_profile :: "rf_profile \<Rightarrow> string \<Rightarrow> profile_registry \<Rightarrow> profile_registry" where
  "store_profile p q r = r\<lparr>reg_profiles := (reg_profiles r)(profile_id p \<mapsto> p),
                           reg_state := (reg_state r)(profile_id p \<mapsto> q)\<rparr>"

definition register_as :: "string \<Rightarrow> (pyfloat \<Rightarrow> string) \<Rightarrow> rf_profile \<Rightarrow> profile_registry
    \<Rightarrow> registry_error + (string \<times> profile_registry)" where
  "register_as q fr p r =
     (case validate_profile p of
        Inl e \<Rightarrow> Inl (ProfileInvalid e)
      | Inr _ \<Rightarrow> Inr (profile_digest fr p, store_profile p q r))"

definition registry_init :: profile_registry where
  "registry_init =
     store_profile reference_qpsk QUAL_SOFTWARE_VALIDATED
       (store_profile reference_bpsk QUAL_SOFTWARE_VALIDATED
         \<lparr>reg_profiles = Map.empty, reg_state = Map.empty\<rparr>)"

definition register_candidate where
  "register_candidate fr p r = register_as QUAL_EXPERIMENTAL fr p r"

definition register_operator_custom where
  "register_operator_custom fr p r = register_as QUAL_OPERATOR_CUSTOM fr p r"

definition mark_as :: "string \<Rightarrow> string \<Rightarrow> profile_registry \<Rightarrow> registry_error + profile_registry" where
  "mark_as q pid r =
     (if reg_profiles r pid = None then Inl (ProfileKeyError pid)
      else Inr (r\<lparr>reg_state := (reg_state r)(pid \<mapsto> q)\<rparr>))"

definition promote_to_simulation where
  "promote_to_simulation pid r = mark_as QUAL_SOFTWARE_VALIDATED pid r"

definition mark_operator_custom where
  "mark_operator_custom pid r = mark_as QUAL_OPERATOR_CUSTOM pid r"

definition mark_hardware_tested where
  "mark_hardware_tested pid r = mark_as QUAL_HARDWARE_TESTED pid r"

definition registry_state :: "string \<Rightarrow> profile_registry \<Rightarrow> string" where
  "registry_state pid r = (case reg_state r pid of None \<Rightarrow> QUAL_EXPERIMENTAL | Some q \<Rightarrow> q)"

definition registry_get :: "string \<Rightarrow> profile_registry \<Rightarrow> registry_error + rf_profile" where
  "registry_get pid r = (case reg_profiles r pid of None \<Rightarrow> Inl (ProfileKeyError pid) | Some p \<Rightarrow> Inr p)"

definition approved_for_simulation :: "string \<Rightarrow> profile_registry \<Rightarrow> bool" where
  "approved_for_simulation pid r \<longleftrightarrow>
     reg_state r pid \<in> {Some QUAL_SOFTWARE_VALIDATED, Some QUAL_HARDWARE_TESTED, Some QUAL_OPERATOR_CUSTOM}"

definition usable_physically :: "string \<Rightarrow> bool \<Rightarrow> profile_registry \<Rightarrow> bool" where
  "usable_physically pid operator_confirmed r \<longleftrightarrow> reg_profiles r pid \<noteq> None \<and> operator_confirmed"

section \<open>Registry operations as one step relation, and its invariant\<close>

inductive registry_step :: "profile_registry \<Rightarrow> profile_registry \<Rightarrow> bool" where
  candidate: "register_candidate fr p r = Inr (d, r') \<Longrightarrow> registry_step r r'"
| custom: "register_operator_custom fr p r = Inr (d, r') \<Longrightarrow> registry_step r r'"
| promote: "promote_to_simulation pid r = Inr r' \<Longrightarrow> registry_step r r'"
| mark_custom: "mark_operator_custom pid r = Inr r' \<Longrightarrow> registry_step r r'"
| mark_tested: "mark_hardware_tested pid r = Inr r' \<Longrightarrow> registry_step r r'"

inductive registry_reachable :: "profile_registry \<Rightarrow> bool" where
  init: "registry_reachable registry_init"
| step: "registry_reachable r \<Longrightarrow> registry_step r r' \<Longrightarrow> registry_reachable r'"

text \<open>Every stored profile is valid, stored under its own id and has a known qualification.\<close>

definition registry_inv :: "profile_registry \<Rightarrow> bool" where
  "registry_inv r \<longleftrightarrow> (\<forall>pid. reg_profiles r pid = None \<longleftrightarrow> reg_state r pid = None) \<and>
     (\<forall>pid p. reg_profiles r pid = Some p \<longrightarrow> profile_id p = pid \<and> validate_profile p = Inr ()) \<and>
     (\<forall>pid q. reg_state r pid = Some q \<longrightarrow> q \<in> set qualification_states)"

lemma reference_profiles_valid:
  "validate_profile reference_bpsk = Inr ()" "validate_profile reference_qpsk = Inr ()"
  by (simp_all add: validate_profile_def reference_bpsk_def reference_qpsk_def)

lemma store_profile_inv:
  "registry_inv r \<Longrightarrow> validate_profile p = Inr () \<Longrightarrow> q \<in> set qualification_states \<Longrightarrow>
   registry_inv (store_profile p q r)"
  by (auto simp: registry_inv_def store_profile_def split: if_splits)

lemma registry_init_inv: "registry_inv registry_init"
  unfolding registry_init_def
  by (intro store_profile_inv reference_profiles_valid)
    (simp_all add: registry_inv_def qualification_states_def)

lemma register_as_inv:
  "register_as q fr p r = Inr (d, r') \<Longrightarrow> registry_inv r \<Longrightarrow> q \<in> set qualification_states \<Longrightarrow>
   registry_inv r'"
  by (auto simp: register_as_def intro!: store_profile_inv split: sum.splits)

lemma mark_as_inv:
  "mark_as q pid r = Inr r' \<Longrightarrow> registry_inv r \<Longrightarrow> q \<in> set qualification_states \<Longrightarrow> registry_inv r'"
proof -
  assume m: "mark_as q pid r = Inr r'" and inv: "registry_inv r" and q: "q \<in> set qualification_states"
  have r': "r' = r\<lparr>reg_state := (reg_state r)(pid \<mapsto> q)\<rparr>" 
    and some: "reg_profiles r pid \<noteq> None"
    using m by (simp_all add: mark_as_def split: if_splits)
  have "reg_state r pid \<noteq> None" using some inv by (metis registry_inv_def)
  then show ?thesis using inv q some by (auto simp: registry_inv_def r')
qed

lemma registry_step_inv: "registry_step r r' \<Longrightarrow> registry_inv r \<Longrightarrow> registry_inv r'"
  by (induction rule: registry_step.induct)
    (auto simp: register_candidate_def register_operator_custom_def promote_to_simulation_def
      mark_operator_custom_def mark_hardware_tested_def qualification_states_def
      intro: register_as_inv mark_as_inv)

lemma registry_reachable_inv: "registry_reachable r \<Longrightarrow> registry_inv r"
  by (induction rule: registry_reachable.induct) (auto intro: registry_init_inv registry_step_inv)

lemma first_nonpositive_None: "first_nonpositive xs = None \<longleftrightarrow> list_all (\<lambda>(n, v). 0 < v) xs"
  by (induction xs rule: first_nonpositive.induct) auto

lemma validate_profile_ok:
  "validate_profile p = Inr u \<Longrightarrow>
     0 < max_frame_payload_bytes p \<and> max_frame_payload_bytes p \<le> max_message_bytes p
     \<and> 0 < symbol_rate p \<and> 0 < samples_per_symbol p
     \<and> sample_rate p = symbol_rate p * samples_per_symbol p \<and> 0 \<le> max_retries p
     \<and> crc_scheme p \<in> {''crc16'', ''crc32''} \<and> fec_scheme p \<in> {''none'', ''repetition3'', ''hamming74''}
     \<and> profile_id p \<noteq> [] \<and> \<not> timeout_seconds p \<le> Fin 0"
  by (auto simp: validate_profile_def first_nonpositive_None split: if_splits option.splits
      simp del: first_nonpositive.simps)

text \<open>
  C5: nothing becomes usable over the radio without passing validation. In every state the
  registry can reach, a profile that \<open>usable_physically\<close> or \<open>approved_for_simulation\<close> admits
  is one the registry returns, structurally valid and stored under its own id.
\<close>

theorem registry_only_valid_profiles:
  assumes "registry_reachable r"
    and "usable_physically pid True r \<or> approved_for_simulation pid r"
  shows "\<exists>p. registry_get pid r = Inr p \<and> profile_id p = pid \<and> validate_profile p = Inr ()"
proof -
  have inv: "registry_inv r" using assms(1) by (rule registry_reachable_inv)
  then have "reg_profiles r pid \<noteq> None"
    using assms(2) unfolding usable_physically_def approved_for_simulation_def registry_inv_def
    by (metis insert_iff empty_iff option.distinct(1))
  then show ?thesis using inv by (auto simp: registry_get_def registry_inv_def)
qed

theorem registry_only_valid_profiles_witness:
  "\<exists>p. registry_get ''ref-bpsk-1k'' registry_init = Inr p \<and> profile_id p = ''ref-bpsk-1k''
     \<and> validate_profile p = Inr ()"
  by (rule registry_only_valid_profiles [OF registry_reachable.init])
    (simp add: usable_physically_def registry_init_def store_profile_def reference_bpsk_def reference_qpsk_def)

end
