(* ===== verification/Flowgraph.thy ===== *)
theory Flowgraph
  imports Profiles
begin

text \<open>
  \<open>transport/ota/flowgraph.py\<close>: the text of the generated GNU Radio flowgraphs, their digest and
  the structural validation of flowgraph source (the banned constructs and the bounded block set).
\<close>

section \<open>Generation\<close>

definition mod_constellation :: "string \<Rightarrow> string option" where
  "mod_constellation m =
     (if m = ''bpsk'' then Some ''digital.constellation_bpsk()''
      else if m = ''qpsk'' then Some ''digital.constellation_qpsk()'' else None)"

definition text_lines :: "string list \<Rightarrow> string" where
  "text_lines ls = concat (map (\<lambda>l. l @ [CHR 0x0A]) ls)"

definition tx_template :: "rf_profile \<Rightarrow> string \<Rightarrow> string \<Rightarrow> string" where
  \<open>tx_template p const src = text_lines
     [''# GENERATED Aithernet OTA TX flowgraph for profile '' @ profile_id p @ '' (digest '' @ ''{digest}'' @ '').'',
      ''# Generated deterministically from an approved RFLinkProfile. Runs under managed RF-MCP only,'',
      ''# behind the TX-authorization gates. Default source is synthetic IQ (no hardware).'',
      ''from gnuradio import gr, blocks, digital'',
      [],
      ''class OtaTx(gr.top_block):'',
      ''    def __init__(self, frame_bytes=(), frame_path=""):'',
      ''        gr.top_block.__init__(self, "aithernet_ota_tx_'' @ profile_id p @ ''")'',
      ''        sps = '' @ int_repr (samples_per_symbol p),
      ''        self.src = '' @ src,
      ''        self.mod = digital.constellation_modulator('' @ const @ '', differential=False,'',
      ''                                                   samples_per_symbol=sps)'',
      ''        self.sink = blocks.vector_sink_c()'',
      ''        self.connect(self.src, self.mod, self.sink)'']\<close>

definition rx_template :: "rf_profile \<Rightarrow> string \<Rightarrow> string \<Rightarrow> string" where
  \<open>rx_template p const snk = text_lines
     [''# GENERATED Aithernet OTA RX flowgraph for profile '' @ profile_id p @ ''.'',
      ''# Default sink is synthetic; preamble correlation + clock sync recover frames in simulation.'',
      ''from gnuradio import gr, blocks, digital'',
      [],
      ''class OtaRx(gr.top_block):'',
      ''    def __init__(self, iq_samples=(), out_path=""):'',
      ''        gr.top_block.__init__(self, "aithernet_ota_rx_'' @ profile_id p @ ''")'',
      ''        sps = '' @ int_repr (samples_per_symbol p),
      ''        self.src = blocks.vector_source_c(iq_samples, False)'',
      ''        self.demod = digital.constellation_decoder_cb('' @ const @ '')'',
      ''        self.sink = '' @ snk,
      ''        self.connect(self.src, self.demod, self.sink)'']\<close>

datatype flowgraph_error = NoTemplate string

definition generate_tx_flowgraph :: "rf_profile \<Rightarrow> string \<Rightarrow> flowgraph_error + string" where
  "generate_tx_flowgraph p source =
     (case mod_constellation (modulation p) of
        None \<Rightarrow> Inl (NoTemplate (modulation p))
      | Some const \<Rightarrow> Inr (tx_template p const
          (if source = ''synthetic'' then ''blocks.vector_source_b(frame_bytes, False)''
           else ''blocks.file_source(gr.sizeof_char, frame_path, False)'')))"

definition generate_rx_flowgraph :: "rf_profile \<Rightarrow> string \<Rightarrow> flowgraph_error + string" where
  "generate_rx_flowgraph p sink =
     (case mod_constellation (modulation p) of
        None \<Rightarrow> Inl (NoTemplate (modulation p))
      | Some const \<Rightarrow> Inr (rx_template p const
          (if sink = ''synthetic'' then ''blocks.vector_sink_c()''
           else ''blocks.file_sink(gr.sizeof_char, out_path)'')))"

definition flowgraph_digest :: "string \<Rightarrow> string \<Rightarrow> string" where
  "flowgraph_digest tx_src rx_src = sha256_text (utf8 tx_src @ [0] @ utf8 rx_src)"

section \<open>Structural validation\<close>

definition allowed_blocks :: "string list" where
  "allowed_blocks =
     [''blocks.vector_source_b'', ''blocks.vector_source_c'', ''blocks.vector_sink_c'',
      ''blocks.vector_sink_b'', ''blocks.file_source'', ''blocks.file_sink'',
      ''digital.constellation_modulator'', ''digital.constellation_decoder_cb'',
      ''digital.corr_est_cc'', ''channels.channel_model'', ''blocks.throttle'', ''analog.agc_cc'',
      ''digital.pfb_clock_sync_ccf'', ''blocks.repeat'', ''blocks.multiply_const_cc'']"

definition banned_constructs :: "string list" where
  "banned_constructs =
     [''os.system'', ''subprocess'', ''eval('', ''exec('', ''__import__'', ''socket'', ''shutil.rmtree'',
      ''os.remove'', ''pickle.loads'', ''open('' @ [CHR 0x27, CHR ''/'', CHR 0x27], ''requests.'']"

definition ascii_word :: "char \<Rightarrow> bool" where
  "ascii_word c \<longleftrightarrow> (let n = (of_char c :: nat) in (48 \<le> n \<and> n \<le> 57) \<or> (65 \<le> n \<and> n \<le> 90)
     \<or> (97 \<le> n \<and> n \<le> 122) \<or> n = 95)"

text \<open>\<open>word characters\<close> of the regular expressions on Latin-1: the ASCII word characters and the letters and digits above 127.\<close>

definition word_char :: "char \<Rightarrow> bool" where
  "word_char c \<longleftrightarrow> ascii_word c \<or> (let n = (of_char c :: nat) in n \<in> {170, 178, 179, 181, 185, 186, 188, 189, 190}
     \<or> (192 \<le> n \<and> n \<noteq> 215 \<and> n \<noteq> 247))"

definition block_modules :: "string list" where
  "block_modules = [''blocks'', ''digital'', ''channels'', ''analog'']"

text \<open>One match of the block-reference pattern at the start of the text.\<close>

definition match_block :: "string \<Rightarrow> string option" where
  "match_block s =
     (case find (\<lambda>m. starts_with (m @ ''.'') s) block_modules of
        None \<Rightarrow> None
      | Some m \<Rightarrow> (let rest = takeWhile ascii_word (drop (length m + 1) s)
                   in if rest = [] then None else Some (m @ ''.'' @ rest)))"

text \<open>
  \<open>re.finditer\<close>: the matches from left to right without overlap, each at a word boundary; the
  flag says whether the character before is a word character, \<open>skip\<close> counts the characters of
  the current match still to be passed.
\<close>

fun find_blocks :: "bool \<Rightarrow> nat \<Rightarrow> string \<Rightarrow> string list" where
  "find_blocks prev skip [] = []"
| "find_blocks prev (Suc n) (c # s) = find_blocks (word_char c) n s"
| "find_blocks prev 0 (c # s) =
     (case (if prev then None else match_block (c # s)) of
        None \<Rightarrow> find_blocks (word_char c) 0 s
      | Some token \<Rightarrow> token # find_blocks (word_char c) (length token - 1) s)"

datatype source_problem = BannedConstruct string | BlockNotAllowed string

definition source_problems :: "string \<Rightarrow> source_problem list" where
  "source_problems src =
     map BannedConstruct (filter (\<lambda>b. py_contains b src) banned_constructs) @
     map BlockNotAllowed (filter (\<lambda>t. t \<notin> set allowed_blocks
          \<and> t \<notin> {''digital.constellation_bpsk'', ''digital.constellation_qpsk''}) (find_blocks False 0 src))"

definition validate_flowgraph_source :: "string \<Rightarrow> bool \<times> source_problem set" where
  "validate_flowgraph_source src = (source_problems src = [], set (source_problems src))"

text \<open>
  The profile id is pasted into the generated source, and profile validation only refuses blanks
  in it: a valid profile can carry lines of Python of its own through the source validation.
\<close>

definition line_id_profile :: rf_profile where
  "line_id_profile = reference_bpsk\<lparr>profile_id :=
     ''x'' @ [CHR 0x0A] @ ''import'' @ [CHR 0x09] @ ''os;os.popen(cmd)'' @ [CHR 0x0A] @ ''#''\<rparr>"

lemma line_id_valid: "validate_profile line_id_profile = Inr ()"
  by (simp add: line_id_profile_def reference_bpsk_def validate_profile_def)

lemma line_id_passes: "source_problems (profile_id line_id_profile) = []"
  by code_simp

lemma profile_id_carries_code:
  "\<exists>tx. generate_tx_flowgraph line_id_profile ''synthetic'' = Inr tx
     \<and> py_contains ([CHR 0x0A] @ ''import'' @ [CHR 0x09] @ ''os;os.popen(cmd)'' @ [CHR 0x0A]) tx"
proof -
  have "modulation line_id_profile = ''bpsk''" by (simp add: line_id_profile_def reference_bpsk_def)
  then show ?thesis
    by (simp add: generate_tx_flowgraph_def mod_constellation_def)
      (simp add: py_contains_iff tx_template_def text_lines_def line_id_profile_def,
       rule exI [of _ "''# GENERATED Aithernet OTA TX flowgraph for profile x''"], simp)
qed

end
