(* ===== verification/Fec.thy ===== *)
theory Fec
  imports Bytes
begin

text \<open>
  \<open>transport/ota/fec.py\<close>: bit/byte conversion and the two forward error correction
  schemes, triple repetition with majority vote and Hamming(7,4). Bits are Python ints, as
  in the code; \<open>is_bit\<close> says when one really is a bit. Every \<open>raise ValueError\<close> and the
  index error of the Hamming correction are branches of the model.
\<close>

section \<open>Bits and bytes\<close>

datatype fec_error =
    BitCountNotMultipleOf8
  | Rep3Length
  | Ham74Length
  | FecIndexError
  | UnknownFecScheme string

definition is_bit :: "int \<Rightarrow> bool" where
  "is_bit b \<longleftrightarrow> b = 0 \<or> b = 1"

definition byte_bits :: "byte \<Rightarrow> int list" where
  "byte_bits b = map (\<lambda>i. (drop_bit (7 - i) (uint b)) AND 1) [0..<8]"

definition bytes_to_bits :: "bytes \<Rightarrow> int list" where
  "bytes_to_bits data = concat (map byte_bits data)"

definition bits_byte :: "int list \<Rightarrow> byte" where
  "bits_byte bs = word_of_int (foldl (\<lambda>byte b. push_bit 1 byte OR (b AND 1)) 0 bs)"

definition bits_to_bytes :: "int list \<Rightarrow> fec_error + bytes" where
  "bits_to_bytes bits =
     (if length bits mod 8 \<noteq> 0 then Inl BitCountNotMultipleOf8
      else Inr (map bits_byte (chunks 8 bits)))"

section \<open>Repetition-3\<close>

fun rep3_encode :: "int list \<Rightarrow> int list" where
  "rep3_encode [] = []"
| "rep3_encode (b # bs) = b # b # b # rep3_encode bs"

fun rep3_votes :: "int list \<Rightarrow> int list" where
  "rep3_votes (a # b # c # r) = (if a + b + c \<ge> 2 then 1 else 0) # rep3_votes r"
| "rep3_votes _ = []"

definition rep3_decode :: "int list \<Rightarrow> fec_error + int list" where
  "rep3_decode bits = (if length bits mod 3 \<noteq> 0 then Inl Rep3Length else Inr (rep3_votes bits))"

section \<open>Hamming(7,4)\<close>

definition ham74_block :: "int \<Rightarrow> int \<Rightarrow> int \<Rightarrow> int \<Rightarrow> int list" where
  "ham74_block d1 d2 d3 d4 =
     (let p1 = d1 XOR d2 XOR d4; p2 = d1 XOR d3 XOR d4; p3 = d2 XOR d3 XOR d4
      in [p1, p2, d1, p3, d2, d3, d4])"

fun ham74_blocks :: "int list \<Rightarrow> int list" where
  "ham74_blocks (d1 # d2 # d3 # d4 # r) = ham74_block d1 d2 d3 d4 @ ham74_blocks r"
| "ham74_blocks _ = []"

definition ham74_pad :: "int list \<Rightarrow> nat" where
  "ham74_pad bits = nat ((- int (length bits)) mod 4)"

definition ham74_encode :: "int list \<Rightarrow> int list" where
  "ham74_encode bits = ham74_blocks (bits @ replicate (ham74_pad bits) 0)"

text \<open>
  One received block: the syndrome names the bit to flip (1-based). Python's index rule is
  written out: a negative index counts from the end, one out of range raises.
\<close>

definition ham74_correct :: "int list \<Rightarrow> fec_error + int list" where
  "ham74_correct b =
     (let p1 = b ! 0; p2 = b ! 1; d1 = b ! 2; p3 = b ! 3; d2 = b ! 4; d3 = b ! 5; d4 = b ! 6;
          s1 = p1 XOR d1 XOR d2 XOR d4;
          s2 = p2 XOR d1 XOR d3 XOR d4;
          s3 = p3 XOR d2 XOR d3 XOR d4;
          syndrome = push_bit 2 s3 OR push_bit 1 s2 OR s1
      in if syndrome = 0 then Inr [b ! 2, b ! 4, b ! 5, b ! 6]
         else (let i = syndrome - 1; j = (if i < 0 then i + 7 else i)
               in if j < 0 \<or> 7 \<le> j then Inl FecIndexError
                  else (let c = b[nat j := (b ! nat j) XOR 1] in Inr [c ! 2, c ! 4, c ! 5, c ! 6])))"

fun ham74_decode_blocks :: "int list list \<Rightarrow> fec_error + int list" where
  "ham74_decode_blocks [] = Inr []"
| "ham74_decode_blocks (b # bs) =
     rbind (ham74_correct b) (\<lambda>ds. rbind (ham74_decode_blocks bs) (\<lambda>rest. Inr (ds @ rest)))"

definition ham74_decode :: "int list \<Rightarrow> fec_error + int list" where
  "ham74_decode bits =
     (if length bits mod 7 \<noteq> 0 then Inl Ham74Length else ham74_decode_blocks (chunks 7 bits))"

section \<open>Scheme dispatch\<close>

definition fec_encode :: "string \<Rightarrow> int list \<Rightarrow> fec_error + int list" where
  "fec_encode scheme bits =
     (if scheme = ''none'' then Inr bits
      else if scheme = ''repetition3'' then Inr (rep3_encode bits)
      else if scheme = ''hamming74'' then Inr (ham74_encode bits)
      else Inl (UnknownFecScheme scheme))"

definition fec_decode :: "string \<Rightarrow> int list \<Rightarrow> fec_error + int list" where
  "fec_decode scheme bits =
     (if scheme = ''none'' then Inr bits
      else if scheme = ''repetition3'' then rep3_decode bits
      else if scheme = ''hamming74'' then ham74_decode bits
      else Inl (UnknownFecScheme scheme))"

section \<open>Round trips of the bit view\<close>

lemma byte_bits_are_bits: "list_all is_bit (byte_bits b)"
  by (auto simp: byte_bits_def list_all_iff is_bit_def and_one_eq)

lemma length_byte_bits [simp]: "length (byte_bits b) = 8"
  by (simp add: byte_bits_def)

lemma bit_lists: "list_all is_bit xs \<and> length xs = n \<longleftrightarrow> xs \<in> set (List.n_lists n [0, 1])"
  by (auto simp: set_n_lists list_all_iff is_bit_def)

lemma bits_byte_table: "list_all (\<lambda>bs. byte_bits (bits_byte bs) = bs) (List.n_lists 8 [0, 1])"
  by code_simp

lemma byte_bits_byte [simp]: "list_all is_bit bs \<Longrightarrow> length bs = 8 \<Longrightarrow> byte_bits (bits_byte bs) = bs"
  using bits_byte_table bit_lists [of bs 8] by (simp add: list_all_iff)

text \<open>The 256 bit blocks map injectively to bytes, so every byte is the image of one.\<close>

lemma bits_byte_bits [simp]: "bits_byte (byte_bits b) = b"
proof -
  let ?B = "set (List.n_lists 8 [0, 1]) :: int list set"
  have inj: "inj_on bits_byte ?B"
    by (rule inj_on_inverseI [where g = byte_bits]) (use bits_byte_table in \<open>simp add: list_all_iff\<close>)
  have two: "length ([0, 1] :: int list) = 2" by simp
  have "card ?B = 2 ^ 8"
    by (subst distinct_card) (simp_all only: two length_n_lists, intro distinct_n_lists, simp)
  then have "card ?B = 256" by simp
  then have "card (bits_byte ` ?B) = 256" using card_image [OF inj] by simp
  then have "bits_byte ` ?B = (UNIV :: byte set)"
    by (intro card_subset_eq) (simp_all add: card_word)
  then obtain bs where "bs \<in> ?B" "b = bits_byte bs" by (metis UNIV_I imageE)
  then show ?thesis using bits_byte_table by (simp add: list_all_iff)
qed

lemma length_bytes_to_bits [simp]: "length (bytes_to_bits data) = 8 * length data"
  by (induction data) (auto simp: bytes_to_bits_def)

lemma bytes_to_bits_are_bits: "list_all is_bit (bytes_to_bits data)"
  using byte_bits_are_bits by (induction data) (auto simp: bytes_to_bits_def)

lemma chunks_bytes_to_bits: "chunks 8 (bytes_to_bits data) = map byte_bits data"
  by (induction data) (simp_all add: bytes_to_bits_def chunks_append)

lemma bits_to_bytes_of_bytes: "bits_to_bytes (bytes_to_bits data) = Inr data"
  by (simp add: bits_to_bytes_def chunks_bytes_to_bits comp_def)

section \<open>What the codes correct\<close>

text \<open>A received block with at most one wrong bit.\<close>

definition one_flip :: "int list \<Rightarrow> int list \<Rightarrow> bool" where
  "one_flip sent got \<longleftrightarrow> length got = length sent \<and>
     (got = sent \<or> (\<exists>i < length sent. got = sent[i := 1 - sent ! i]))"

text \<open>A received stream in which every block of \<open>n\<close> bits has at most one wrong bit.\<close>

definition flips_bounded :: "nat \<Rightarrow> int list \<Rightarrow> int list \<Rightarrow> bool" where
  "flips_bounded n sent got \<longleftrightarrow> length got = length sent \<and>
     list_all2 one_flip (chunks n sent) (chunks n got)"

lemma one_flip_cases:
  "one_flip sent got \<Longrightarrow>
   (got = sent \<Longrightarrow> P) \<Longrightarrow> (\<And>i. i < length sent \<Longrightarrow> got = sent[i := 1 - sent ! i] \<Longrightarrow> P) \<Longrightarrow> P"
  by (auto simp: one_flip_def)

lemma ham74_correct_table:
  "list_all (\<lambda>ds. ham74_correct (ham74_block (ds ! 0) (ds ! 1) (ds ! 2) (ds ! 3)) = Inr ds \<and>
     list_all (\<lambda>i. let e = ham74_block (ds ! 0) (ds ! 1) (ds ! 2) (ds ! 3)
                   in ham74_correct (e[i := 1 - e ! i]) = Inr ds) [0..<7])
   (List.n_lists 4 [0, 1])"
  by code_simp

lemma length_ham74_block [simp]: "length (ham74_block a b c d) = 7"
  by (simp add: ham74_block_def Let_def)

lemma ham74_correct_block:
  assumes "is_bit a" "is_bit b" "is_bit c" "is_bit d"
    and flip: "one_flip (ham74_block a b c d) got"
  shows "ham74_correct got = Inr [a, b, c, d]"
proof -
  have "[a, b, c, d] \<in> set (List.n_lists 4 [0, 1])"
    using assms(1-4) bit_lists [of "[a, b, c, d]" 4] by simp
  with ham74_correct_table have ok: "ham74_correct (ham74_block a b c d) = Inr [a, b, c, d]"
    and fl: "\<forall>i < 7. ham74_correct ((ham74_block a b c d)[i := 1 - ham74_block a b c d ! i]) = Inr [a, b, c, d]"
    by (auto simp: list_all_iff Let_def simp del: upt_rec_numeral)
  from flip show ?thesis
    by (rule one_flip_cases) (use ok fl in auto)
qed

lemma rep3_vote_block:
  assumes "is_bit b" and "one_flip [b, b, b] got"
  shows "rep3_votes (got @ r) = b # rep3_votes r"
  using assms by (auto simp: one_flip_def is_bit_def less_Suc_eq numeral_3_eq_3)

lemma chunks_one_block:
  assumes "0 < n" "length sent = n" "flips_bounded n (sent @ rest) got"
  obtains g gs where "got = g @ gs" "one_flip sent g" "flips_bounded n rest gs" "length g = n"
proof -
  let ?g = "take n got" and ?gs = "drop n got"
  from assms have len: "length got = n + length rest"
    and all: "list_all2 one_flip (sent # chunks n rest) (chunks n got)"
    by (auto simp: flips_bounded_def chunks_append)
  have "chunks n got = ?g # chunks n ?gs"
    using assms(1) len by (intro chunks_step) auto
  with all len have "one_flip sent ?g" "flips_bounded n rest ?gs"
    by (auto simp: flips_bounded_def)
  moreover have "length ?g = n" using len by simp
  ultimately show ?thesis using that [of ?g ?gs] by simp
qed

lemma rep3_votes_corrects:
  "list_all is_bit bits \<Longrightarrow> flips_bounded 3 (rep3_encode bits) got \<Longrightarrow> rep3_votes got = bits"
proof (induction bits arbitrary: got)
  case Nil
  then show ?case by (simp add: flips_bounded_def)
next
  case (Cons b bs)
  have "rep3_encode (b # bs) = [b, b, b] @ rep3_encode bs" by simp
  with Cons.prems(2) obtain g gs where g: "got = g @ gs" "one_flip [b, b, b] g"
    "flips_bounded 3 (rep3_encode bs) gs"
    by (metis chunks_one_block length_Cons list.size(3) numeral_3_eq_3 zero_less_numeral)
  with Cons show ?case using rep3_vote_block [of b g gs] by auto
qed

lemma length_rep3_encode [simp]: "length (rep3_encode bits) = 3 * length bits"
  by (induction bits) auto

lemma ham74_decode_corrects:
  "list_all is_bit bits \<Longrightarrow> length bits mod 4 = 0 \<Longrightarrow> flips_bounded 7 (ham74_blocks bits) got \<Longrightarrow>
   ham74_decode_blocks (chunks 7 got) = Inr bits"
proof (induction bits arbitrary: got rule: ham74_blocks.induct)
  case (1 a b c d r)
  from 1(4) obtain g gs where g: "got = g @ gs" "one_flip (ham74_block a b c d) g"
    "flips_bounded 7 (ham74_blocks r) gs" "length g = 7"
    by (simp, elim chunks_one_block [rotated 2]) auto
  have "ham74_correct g = Inr [a, b, c, d]"
    using 1(2) g(2) by (intro ham74_correct_block) auto
  moreover have "ham74_decode_blocks (chunks 7 gs) = Inr r"
    using 1 g(3) by (intro 1(1)) auto
  ultimately show ?case using g(1,4) by (simp add: chunks_append)
qed (auto simp: flips_bounded_def)

lemma length_ham74_blocks: "length bits mod 4 = 0 \<Longrightarrow> length (ham74_blocks bits) mod 7 = 0"
  by (induction bits rule: ham74_blocks.induct) auto

lemma ham74_padded: "(length bits + ham74_pad bits) mod 4 = 0"
proof -
  have "(int (length bits) + (- int (length bits)) mod 4) mod 4 = 0" by presburger
  moreover have "int (ham74_pad bits) = (- int (length bits)) mod 4" by (simp add: ham74_pad_def)
  ultimately have "int ((length bits + ham74_pad bits) mod 4) = 0" by (simp add: zmod_int)
  then show ?thesis by simp
qed

lemma fec_encode_length:
  "fec_encode ''repetition3'' bits = Inr (rep3_encode bits)"
  "fec_encode ''hamming74'' bits = Inr (ham74_encode bits)"
  "fec_encode ''none'' bits = Inr bits"
  by (simp_all add: fec_encode_def)

lemma rep3_decode_corrects:
  "list_all is_bit bits \<Longrightarrow> flips_bounded 3 (rep3_encode bits) got \<Longrightarrow> rep3_decode got = Inr bits"
  using rep3_votes_corrects by (simp add: rep3_decode_def flips_bounded_def)

lemma ham74_decode_encoded:
  assumes "list_all is_bit bits" and "flips_bounded 7 (ham74_encode bits) got"
  shows "ham74_decode got = Inr (bits @ replicate (ham74_pad bits) 0)"
proof -
  let ?padded = "bits @ replicate (ham74_pad bits) 0"
  have m: "length ?padded mod 4 = 0" using ham74_padded [of bits] by simp
  have "list_all is_bit ?padded" using assms(1) by (auto simp: list_all_iff is_bit_def)
  moreover have "flips_bounded 7 (ham74_blocks ?padded) got" using assms(2) by (simp add: ham74_encode_def)
  ultimately have "ham74_decode_blocks (chunks 7 got) = Inr ?padded"
    using m by (intro ham74_decode_corrects)
  moreover have "length got mod 7 = 0"
    using assms(2) length_ham74_blocks [OF m] by (simp add: flips_bounded_def ham74_encode_def)
  ultimately show ?thesis by (simp add: ham74_decode_def)
qed

lemma ham74_pad_bytes: "ham74_pad (bytes_to_bits data) = 0"
proof -
  have "(- int (8 * length data)) mod 4 = 0" by presburger
  then show ?thesis by (simp add: ham74_pad_def)
qed

text \<open>The block size within which a scheme tolerates one wrong bit (\<open>none\<close> tolerates none).\<close>

definition fec_block_size :: "string \<Rightarrow> nat option" where
  "fec_block_size scheme =
     (if scheme = ''repetition3'' then Some 3 else if scheme = ''hamming74'' then Some 7 else None)"

text \<open>
  C4: both codes correct one wrong bit in every block. If the received stream differs from the
  encoded bits of a byte string in at most one bit of every block of the scheme (3 bits for
  repetition, 7 for Hamming), decoding and packing gives back exactly the bytes sent.
\<close>

theorem fec_corrects_one_bit_per_block:
  assumes enc: "fec_encode scheme (bytes_to_bits data) = Inr sent"
    and blk: "fec_block_size scheme = Some n"
    and errs: "flips_bounded n sent got"
  shows "rbind (fec_decode scheme got) bits_to_bytes = Inr data"
proof -
  note bits = bytes_to_bits_are_bits [of data]
  from blk consider "scheme = ''repetition3''" "n = 3" | "scheme = ''hamming74''" "n = 7"
    by (auto simp: fec_block_size_def split: if_splits)
  then show ?thesis
  proof cases
    case 1
    with enc errs have "flips_bounded 3 (rep3_encode (bytes_to_bits data)) got"
      by (simp add: fec_encode_def)
    with 1 show ?thesis
      by (simp add: fec_decode_def rep3_decode_corrects [OF bits] bits_to_bytes_of_bytes)
  next
    case 2
    with enc errs have "flips_bounded 7 (ham74_encode (bytes_to_bits data)) got"
      by (simp add: fec_encode_def)
    with 2 show ?thesis
      by (simp add: fec_decode_def ham74_decode_encoded [OF bits] ham74_pad_bytes bits_to_bytes_of_bytes)
  qed
qed

theorem fec_corrects_one_bit_per_block_witness:
  "rbind (fec_decode ''repetition3'' ((rep3_encode (bytes_to_bits [5]))[4 := 1])) bits_to_bytes = Inr [5]"
proof (rule fec_corrects_one_bit_per_block)
  show "fec_encode ''repetition3'' (bytes_to_bits [5]) = Inr (rep3_encode (bytes_to_bits [5]))"
    by (simp add: fec_encode_def)
  show "fec_block_size ''repetition3'' = Some 3" by (simp add: fec_block_size_def)
  have b: "bytes_to_bits [5] = [0, 0, 0, 0, 0, 1, 0, 1]" by code_simp
  show "flips_bounded 3 (rep3_encode (bytes_to_bits [5])) ((rep3_encode (bytes_to_bits [5]))[4 := 1])"
    by (simp add: b flips_bounded_def chunks_step one_flip_def) (rule exI [of _ 1], simp)
qed

end
