(* ===== verification/Frame.thy ===== *)
theory Frame
  imports Bytes "HOL-Library.Multiset"
begin

text \<open>
  \<open>transport/ota/frame.py\<close>: the byte-level OTA frame
  \<open>HEADER || PAYLOAD || CRC\<close>, its CRCs, fragmentation of a message into DATA frames
  and reassembly. Every \<open>raise FrameError\<close> of the code is a constructor of
  \<open>frame_error\<close>.
\<close>

section \<open>Frame types and check sums\<close>

datatype frame_type = DATA | ACK | NAK | BEACON | RTS | CTS | BLOCK_ACK | NACK | CANCEL | FIN
  | DELIVERY_RECEIPT

fun ft_code :: "frame_type \<Rightarrow> nat" where
  "ft_code DATA = 0"
| "ft_code ACK = 1"
| "ft_code NAK = 2"
| "ft_code BEACON = 3"
| "ft_code RTS = 4"
| "ft_code CTS = 5"
| "ft_code BLOCK_ACK = 6"
| "ft_code NACK = 7"
| "ft_code CANCEL = 8"
| "ft_code FIN = 9"
| "ft_code DELIVERY_RECEIPT = 10"

definition all_frame_types :: "frame_type list" where
  "all_frame_types = [DATA, ACK, NAK, BEACON, RTS, CTS, BLOCK_ACK, NACK, CANCEL, FIN, DELIVERY_RECEIPT]"

text \<open>The enum call \<open>FrameType(n)\<close>: the member with value \<open>n\<close>, or ValueError.\<close>

definition ft_of :: "nat \<Rightarrow> frame_type option" where
  "ft_of n = find (\<lambda>t. ft_code t = n) all_frame_types"

lemma ft_of_code [simp]: "ft_of (ft_code t) = Some t"
  by (cases t) (simp_all add: ft_of_def all_frame_types_def)

lemma ft_of_SomeD: "ft_of n = Some t \<Longrightarrow> n = ft_code t"
  by (auto simp: ft_of_def find_Some_iff)

lemma ft_code_bound: "ft_code t < 256"
  by (cases t) simp_all

lemma ft_of_None: "n > 10 \<Longrightarrow> ft_of n = None"
  by (simp add: ft_of_def all_frame_types_def)

definition crc16_bit :: "16 word \<Rightarrow> 16 word" where
  "crc16_bit crc = (if crc AND 0x8000 \<noteq> 0 then push_bit 1 crc XOR 0x1021 else push_bit 1 crc)"

definition crc16_byte :: "16 word \<Rightarrow> byte \<Rightarrow> 16 word" where
  "crc16_byte crc b = (crc16_bit ^^ 8) (crc XOR push_bit 8 (ucast b))"

definition crc16_ccitt :: "bytes \<Rightarrow> nat" where
  "crc16_ccitt data = unat (foldl crc16_byte 0xFFFF data)"

text \<open>\<open>zlib.crc32\<close>: the reflected CRC-32 with pre- and post-inversion.\<close>

definition crc32_bit :: "32 word \<Rightarrow> 32 word" where
  "crc32_bit crc = (if crc AND 1 \<noteq> 0 then drop_bit 1 crc XOR 0xEDB88320 else drop_bit 1 crc)"

definition crc32_byte :: "32 word \<Rightarrow> byte \<Rightarrow> 32 word" where
  "crc32_byte crc b = (crc32_bit ^^ 8) (crc XOR ucast b)"

definition crc32 :: "bytes \<Rightarrow> nat" where
  "crc32 data = unat (NOT (foldl crc32_byte 0xFFFFFFFF data))"

definition crc_table :: "string \<Rightarrow> ((bytes \<Rightarrow> nat) \<times> nat) option" where
  "crc_table s = (if s = ''crc16'' then Some (crc16_ccitt, 2)
     else if s = ''crc32'' then Some (crc32, 4) else None)"

section \<open>What a byte-wise CRC register guarantees\<close>

text \<open>
  A register whose byte step is injective in the register and in the byte detects every
  change of a single byte of the message.
\<close>

locale crc_register =
  fixes byte_step :: "'c \<Rightarrow> byte \<Rightarrow> 'c"
    and start :: 'c
    and out :: "'c \<Rightarrow> nat"
    and width :: nat
  assumes step_inj_state: "byte_step c b = byte_step d b \<Longrightarrow> c = d"
    and step_inj_byte: "byte_step c b = byte_step c b' \<Longrightarrow> b = b'"
    and out_inj: "out c = out d \<Longrightarrow> c = d"
    and out_bound: "out c < 256 ^ width"
begin

lemma run_inj: "foldl byte_step c s = foldl byte_step d s \<Longrightarrow> c = d"
  by (induction s arbitrary: c d) (auto dest: step_inj_state)

lemma run_differs:
  assumes "x \<noteq> y"
  shows "out (foldl byte_step start (p @ x # s)) \<noteq> out (foldl byte_step start (p @ y # s))"
proof
  assume "out (foldl byte_step start (p @ x # s)) = out (foldl byte_step start (p @ y # s))"
  then have "foldl byte_step start (p @ x # s) = foldl byte_step start (p @ y # s)"
    by (rule out_inj)
  then have "byte_step (foldl byte_step start p) x = byte_step (foldl byte_step start p) y"
    by (auto dest: run_inj)
  with assms show False by (auto dest: step_inj_byte)
qed

lemma run_bound: "out (foldl byte_step start m) < 256 ^ width"
  by (rule out_bound)

end

lemma xor_cancel: "(c :: 'a::len word) XOR a = c XOR b \<Longrightarrow> a = b"
  by (metis xor.assoc xor_self_eq xor.left_neutral)

lemma xor_cancel_right: "(a :: 'a::len word) XOR c = b XOR c \<Longrightarrow> a = b"
  by (metis xor.assoc xor_self_eq xor.right_neutral)

lemma crc16_top: "(c :: 16 word) AND 0x8000 \<noteq> 0 \<longleftrightarrow> bit c 15"
proof -
  have m: "(0x8000 :: 16 word) = push_bit 15 1" by simp
  show ?thesis
    unfolding m using bit_iff_and_push_bit_not_eq_0 [of c 15] by blast
qed

lemma crc16_bit_cases:
  "crc16_bit c = (if bit c 15 then push_bit 1 c XOR 0x1021 else push_bit 1 c)"
  unfolding crc16_bit_def crc16_top ..

lemma crc16_bit_low: "bit (crc16_bit c) 0 \<longleftrightarrow> bit c 15"
proof -
  have "\<not> bit (push_bit 1 c) 0" by (simp only: bit_push_bit_iff) simp
  moreover have "bit (0x1021 :: 16 word) 0" by simp
  ultimately show ?thesis
    by (simp only: crc16_bit_cases bit_xor_iff split: if_split) blast
qed

lemma crc16_bit_inj: "crc16_bit c = crc16_bit d \<Longrightarrow> c = d"
proof -
  assume eq: "crc16_bit c = crc16_bit d"
  then have top: "bit c 15 \<longleftrightarrow> bit d 15"
    using crc16_bit_low [of c] crc16_bit_low [of d] by simp
  with eq have sh: "push_bit 1 c = push_bit 1 d"
    unfolding crc16_bit_cases by (auto simp only: split: if_splits dest: xor_cancel_right)
  show "c = d"
  proof (rule bit_word_eqI)
    fix n assume n: "n < LENGTH(16)"
    show "bit c n \<longleftrightarrow> bit d n"
    proof (cases "n = 15")
      case True
      with top show ?thesis by simp
    next
      case False
      with n have "Suc n < 16" by simp
      moreover have "bit (push_bit 1 c) (Suc n) \<longleftrightarrow> bit (push_bit 1 d) (Suc n)"
        using sh by simp
      ultimately show ?thesis by (simp only: bit_push_bit_iff) simp
    qed
  qed
qed

lemma crc32_low: "(c :: 32 word) AND 1 \<noteq> 0 \<longleftrightarrow> bit c 0"
  by (simp add: and_one_eq odd_iff_mod_2_eq_one bit_0)

lemma crc32_bit_top: "bit (crc32_bit c) 31 \<longleftrightarrow> bit c 0"
  using bit_imp_le_length [of c 32] by (auto simp: crc32_bit_def crc32_low bit_simps)

lemma crc32_bit_inj: "crc32_bit c = crc32_bit d \<Longrightarrow> c = d"
proof -
  assume eq: "crc32_bit c = crc32_bit d"
  then have low: "bit c 0 \<longleftrightarrow> bit d 0"
    using crc32_bit_top [of c] crc32_bit_top [of d] by simp
  with eq have sh: "drop_bit 1 c = drop_bit 1 d"
    unfolding crc32_bit_def crc32_low by (auto simp only: split: if_splits dest: xor_cancel_right)
  show "c = d"
  proof (rule bit_word_eqI)
    fix n assume n: "n < LENGTH(32)"
    show "bit c n \<longleftrightarrow> bit d n"
    proof (cases n)
      case 0
      with low show ?thesis by simp
    next
      case (Suc m)
      have "bit (drop_bit 1 c) m \<longleftrightarrow> bit (drop_bit 1 d) m" using sh by simp
      with Suc show ?thesis by (simp add: bit_simps)
    qed
  qed
qed

lemma funpow_inj:
  fixes f :: "'a \<Rightarrow> 'a"
  assumes inj: "\<And>c d. f c = f d \<Longrightarrow> c = d" and eq: "(f ^^ n) c = (f ^^ n) d"
  shows "c = d"
  using eq
proof (induction n)
  case 0
  then show ?case by simp
next
  case (Suc n)
  then have "f ((f ^^ n) c) = f ((f ^^ n) d)" by simp
  then have "(f ^^ n) c = (f ^^ n) d" by (rule inj)
  then show ?case by (rule Suc.IH)
qed

lemma byte_shift_inj: "push_bit 8 (ucast (b :: byte) :: 16 word) = push_bit 8 (ucast d) \<Longrightarrow> b = d"
proof (rule bit_word_eqI)
  fix n assume eq: "push_bit 8 (ucast b :: 16 word) = push_bit 8 (ucast d)" and n: "n < LENGTH(8)"
  from eq have "bit (push_bit 8 (ucast b :: 16 word)) (n + 8) = bit (push_bit 8 (ucast d :: 16 word)) (n + 8)"
    by simp
  with n show "bit b n \<longleftrightarrow> bit d n" by (simp add: bit_simps)
qed

lemma byte_ucast_inj: "(ucast (b :: byte) :: 32 word) = ucast d \<Longrightarrow> b = d"
proof (rule bit_word_eqI)
  fix n assume eq: "(ucast b :: 32 word) = ucast d" and n: "n < LENGTH(8)"
  from eq have "bit (ucast b :: 32 word) n = bit (ucast d :: 32 word) n" by simp
  with n show "bit b n \<longleftrightarrow> bit d n" by (simp add: bit_simps)
qed

interpretation crc16r: crc_register crc16_byte "0xFFFF" unat 2
proof unfold_locales
  show "crc16_byte c b = crc16_byte d b \<Longrightarrow> c = d" for c b d
    unfolding crc16_byte_def by (blast dest: funpow_inj [rotated] crc16_bit_inj xor_cancel_right)
  show "crc16_byte c b = crc16_byte c b' \<Longrightarrow> b = b'" for c b b'
    unfolding crc16_byte_def
    by (blast dest: funpow_inj [rotated] crc16_bit_inj xor_cancel byte_shift_inj)
  show "unat c = unat d \<Longrightarrow> c = d" for c d :: "16 word" by (simp add: word_unat_eq_iff)
  show "unat c < 256 ^ 2" for c :: "16 word" using unsigned_less [of c] by simp
qed

interpretation crc32r: crc_register crc32_byte "0xFFFFFFFF" "\<lambda>c. unat (NOT c)" 4
proof unfold_locales
  show "crc32_byte c b = crc32_byte d b \<Longrightarrow> c = d" for c b d
    unfolding crc32_byte_def by (blast dest: funpow_inj [rotated] crc32_bit_inj xor_cancel_right)
  show "crc32_byte c b = crc32_byte c b' \<Longrightarrow> b = b'" for c b b'
    unfolding crc32_byte_def
    by (blast dest: funpow_inj [rotated] crc32_bit_inj xor_cancel byte_ucast_inj)
  show "unat (NOT c) = unat (NOT d) \<Longrightarrow> c = d" for c d :: "32 word"
    by (metis bit.double_compl word_unat_eq_iff)
  show "unat (NOT c) < 256 ^ 4" for c :: "32 word" using unsigned_less [of "NOT c"] by simp
qed

section \<open>Encoding and decoding a frame\<close>

record frame =
  fr_type :: frame_type
  fr_msg_id :: int
  fr_seq :: int
  fr_total :: int
  fr_payload :: bytes

datatype frame_error =
    UnknownCrcScheme string
  | PayloadTooLarge
  | FrameTooShort
  | UnsupportedVersion nat
  | PayloadExceedsAvailable
  | CrcMismatch
  | UnknownFrameType nat
  | BadMaxFramePayload
  | NoDataFrames
  | InconsistentTotals
  | DuplicateFragment int
  | MissingFragments int "int list"

definition frame_version :: nat where
  "frame_version = 1"

definition header_len :: nat where
  "header_len = 16"

text \<open>\<open>_HEADER.pack\<close> with format \<open>>BBQHHH\<close>, its fields masked as \<open>encode\<close> masks them.\<close>

definition pack_header :: "frame \<Rightarrow> bytes" where
  "pack_header f =
     to_be 1 frame_version @ to_be 1 (ft_code (fr_type f))
     @ to_be 8 (nat (fr_msg_id f AND 0xFFFFFFFFFFFFFFFF))
     @ to_be 2 (nat (fr_seq f AND 0xFFFF)) @ to_be 2 (nat (fr_total f AND 0xFFFF))
     @ to_be 2 (length (fr_payload f))"

definition frame_encode :: "string \<Rightarrow> frame \<Rightarrow> frame_error + bytes" where
  "frame_encode scheme f =
     (case crc_table scheme of
        None \<Rightarrow> Inl (UnknownCrcScheme scheme)
      | Some (crc_fn, crc_len) \<Rightarrow>
          if length (fr_payload f) > 0xFFFF then Inl PayloadTooLarge
          else (let body = pack_header f @ fr_payload f
                in Inr (body @ to_be crc_len (crc_fn body))))"

definition frame_decode :: "string \<Rightarrow> bytes \<Rightarrow> frame_error + frame" where
  "frame_decode scheme raw =
     (case crc_table scheme of
        None \<Rightarrow> Inl (UnknownCrcScheme scheme)
      | Some (crc_fn, crc_len) \<Rightarrow>
          if length raw < header_len + crc_len then Inl FrameTooShort
          else (let version = from_be (bslice 0 1 raw); ftype = from_be (bslice 1 2 raw);
                    msg_id = from_be (bslice 2 10 raw); seq = from_be (bslice 10 12 raw);
                    total = from_be (bslice 12 14 raw); plen = from_be (bslice 14 16 raw);
                    frame_len = header_len + plen + crc_len
                in if version \<noteq> frame_version then Inl (UnsupportedVersion version)
                   else if length raw < frame_len then Inl PayloadExceedsAvailable
                   else (let body = bslice 0 (header_len + plen) raw;
                             crc_bytes = bslice (header_len + plen) frame_len raw
                         in if crc_fn body \<noteq> from_be crc_bytes then Inl CrcMismatch
                            else (case ft_of ftype of
                                    None \<Rightarrow> Inl (UnknownFrameType ftype)
                                  | Some ft \<Rightarrow>
                                      Inr \<lparr>fr_type = ft, fr_msg_id = int msg_id, fr_seq = int seq,
                                           fr_total = int total,
                                           fr_payload = drop header_len body\<rparr>))))"

text \<open>What travels on the wire: the frame with its integer fields reduced to their widths.\<close>

definition wire_frame :: "frame \<Rightarrow> frame" where
  "wire_frame f = f\<lparr>fr_msg_id := fr_msg_id f mod 2 ^ 64, fr_seq := fr_seq f mod 2 ^ 16,
                    fr_total := fr_total f mod 2 ^ 16\<rparr>"

lemma length_pack_header [simp]: "length (pack_header f) = header_len"
  by (simp add: pack_header_def header_len_def)

lemma crc_table_bound:
  assumes "crc_table scheme = Some (crc_fn, crc_len)"
  shows "crc_fn m < 256 ^ crc_len"
  using assms crc16r.run_bound [of m] crc32r.run_bound [of m]
  by (auto simp: crc_table_def crc16_ccitt_def crc32_def split: if_splits)

lemma crc_table_detects:
  assumes "crc_table scheme = Some (crc_fn, crc_len)" and "x \<noteq> y"
  shows "crc_fn (p @ x # s) \<noteq> crc_fn (p @ y # s)"
  using assms crc16r.run_differs [OF assms(2), of p s] crc32r.run_differs [OF assms(2), of p s]
  by (auto simp: crc_table_def crc16_ccitt_def crc32_def split: if_splits)

lemma header_fields:
  "from_be (bslice 0 1 (pack_header f @ r)) = frame_version"
  "from_be (bslice 1 2 (pack_header f @ r)) = ft_code (fr_type f)"
  "from_be (bslice 2 10 (pack_header f @ r)) = nat (fr_msg_id f mod 2 ^ 64)"
  "from_be (bslice 10 12 (pack_header f @ r)) = nat (fr_seq f mod 2 ^ 16)"
  "from_be (bslice 12 14 (pack_header f @ r)) = nat (fr_total f mod 2 ^ 16)"
  "length (fr_payload f) \<le> 0xFFFF \<Longrightarrow>
     from_be (bslice 14 16 (pack_header f @ r)) = length (fr_payload f)"
  using ft_code_bound [of "fr_type f"]
  by (simp_all add: pack_header_def bslice_def frame_version_def from_to_be unat_byte
      nat_mod_distrib [symmetric] nat_less_iff)

lemma frame_encode_Inr:
  "frame_encode scheme f = Inr enc \<longleftrightarrow>
     (\<exists>crc_fn crc_len. crc_table scheme = Some (crc_fn, crc_len) \<and> length (fr_payload f) \<le> 0xFFFF
        \<and> enc = pack_header f @ fr_payload f @ to_be crc_len (crc_fn (pack_header f @ fr_payload f)))"
  by (auto simp: frame_encode_def Let_def split: option.splits prod.splits)

lemma frame_decode_encoded:
  assumes enc: "frame_encode scheme f = Inr enc"
  shows "frame_decode scheme (enc @ tail) = Inr (wire_frame f)"
proof -
  from enc obtain crc_fn crc_len where t: "crc_table scheme = Some (crc_fn, crc_len)"
    and n: "length (fr_payload f) \<le> 0xFFFF"
    and e: "enc = pack_header f @ fr_payload f @ to_be crc_len (crc_fn (pack_header f @ fr_payload f))"
    by (auto simp: frame_encode_Inr)
  let ?body = "pack_header f @ fr_payload f"
  have body: "bslice 0 (header_len + length (fr_payload f)) (enc @ tail) = ?body"
    by (simp add: e bslice_def)
  have crc: "bslice (header_len + length (fr_payload f)) (header_len + length (fr_payload f) + crc_len) (enc @ tail)
      = to_be crc_len (crc_fn ?body)"
    by (simp add: e bslice_def)
  have hdr: "enc @ tail = pack_header f @ (fr_payload f @ to_be crc_len (crc_fn ?body) @ tail)"
    by (simp add: e)
  have len: "length (enc @ tail) \<ge> header_len + length (fr_payload f) + crc_len" by (simp add: e)
  have chk: "from_be (to_be crc_len (crc_fn ?body)) = crc_fn ?body"
    using crc_table_bound [OF t] by simp
  have hf: "from_be (bslice 0 1 (enc @ tail)) = frame_version"
    "from_be (bslice 1 2 (enc @ tail)) = ft_code (fr_type f)"
    "from_be (bslice 2 10 (enc @ tail)) = nat (fr_msg_id f mod 2 ^ 64)"
    "from_be (bslice 10 12 (enc @ tail)) = nat (fr_seq f mod 2 ^ 16)"
    "from_be (bslice 12 14 (enc @ tail)) = nat (fr_total f mod 2 ^ 16)"
    "from_be (bslice 14 16 (enc @ tail)) = length (fr_payload f)"
    unfolding hdr using n by (simp_all only: header_fields)
  have "\<not> length (enc @ tail) < header_len + crc_len"
    "\<not> length (enc @ tail) < header_len + length (fr_payload f) + crc_len"
    using len by linarith+
  then show ?thesis
    unfolding frame_decode_def t
    by (simp only: option.case prod.case Let_def hf if_False if_True not_True_eq_False simp_thms
        body crc chk ft_of_code) (simp add: wire_frame_def)
qed

text \<open>What a successful decode has established about its input.\<close>

lemma frame_decode_Inr:
  assumes "frame_decode scheme raw = Inr f"
  obtains crc_fn crc_len plen where
    "crc_table scheme = Some (crc_fn, crc_len)"
    "plen = from_be (bslice 14 16 raw)"
    "header_len + plen + crc_len \<le> length raw"
    "from_be (bslice 0 1 raw) = frame_version"
    "from_be (bslice 1 2 raw) = ft_code (fr_type f)"
    "crc_fn (bslice 0 (header_len + plen) raw)
       = from_be (bslice (header_len + plen) (header_len + plen + crc_len) raw)"
    "fr_msg_id f = int (from_be (bslice 2 10 raw))"
    "fr_seq f = int (from_be (bslice 10 12 raw))"
    "fr_total f = int (from_be (bslice 12 14 raw))"
    "fr_payload f = bslice header_len (header_len + plen) raw"
  using assms that
  by (auto simp: frame_decode_def Let_def bslice_def drop_take dest: ft_of_SomeD
      split: option.splits prod.splits if_splits)

lemma frame_decode_unknown_scheme:
  "crc_table scheme = None \<Longrightarrow> frame_decode scheme raw = Inl (UnknownCrcScheme scheme)"
  by (simp add: frame_decode_def)

lemma crc_table_detects_update:
  assumes t: "crc_table scheme = Some (crc_fn, crc_len)" and "i < length m" and "m ! i \<noteq> x"
  shows "crc_fn (m[i := x]) \<noteq> crc_fn m"
proof -
  have "m[i := x] = take i m @ x # drop (Suc i) m"
    using assms(2) by (simp add: upd_conv_take_nth_drop)
  moreover have "m = take i m @ m ! i # drop (Suc i) m"
    using assms(2) by (simp add: id_take_nth_drop)
  ultimately show ?thesis
    using crc_table_detects [OF t, of x "m ! i" "take i m" "drop (Suc i) m"] assms(3) by metis
qed

text \<open>
  C1: the frame codec round-trips. A frame that encodes decodes again from the start of any
  buffer that carries its encoding, whatever bytes follow (the modem's recovered tail), to the
  same frame with its integer fields reduced to the header's widths.
\<close>

theorem frame_roundtrip:
  assumes "frame_encode scheme f = Inr enc"
  shows "frame_decode scheme (enc @ tail) = Inr (wire_frame f)"
  using assms by (rule frame_decode_encoded)

theorem frame_roundtrip_witness:
  "frame_decode ''crc16'' ((case frame_encode ''crc16''
      \<lparr>fr_type = ACK, fr_msg_id = 7, fr_seq = 65537, fr_total = 2, fr_payload = [1, 2]\<rparr> of Inr e \<Rightarrow> e) @ [9])
   = Inr \<lparr>fr_type = ACK, fr_msg_id = 7, fr_seq = 1, fr_total = 2, fr_payload = [1, 2]\<rparr>"
proof -
  let ?f = "\<lparr>fr_type = ACK, fr_msg_id = 7, fr_seq = 65537, fr_total = 2, fr_payload = [1, 2]\<rparr> :: frame"
  obtain e where e: "frame_encode ''crc16'' ?f = Inr e"
    by (auto simp: frame_encode_Inr crc_table_def)
  show ?thesis
    using frame_roundtrip [OF e, of "[9]"] by (simp add: e wire_frame_def)
qed

text \<open>
  C2: a frame whose bytes were damaged in one place is never accepted. Changing any single
  byte of an encoded frame, except the two bytes of the length field, makes \<open>decode\<close> raise,
  under both check sums and whatever bytes follow.
\<close>

theorem frame_single_byte_detected:
  assumes enc: "frame_encode scheme f = Inr enc"
    and i: "i < length enc" "i \<noteq> 14" "i \<noteq> 15" and x: "x \<noteq> enc ! i"
  shows "\<not> is_ok (frame_decode scheme (enc[i := x] @ tail))"
proof
  assume "is_ok (frame_decode scheme (enc[i := x] @ tail))"
  then obtain g where "frame_decode scheme (enc[i := x] @ tail) = Inr g" by (auto simp: is_ok_iff)
  then obtain crc_fn crc_len plen where t: "crc_table scheme = Some (crc_fn, crc_len)"
    and plen: "plen = from_be (bslice 14 16 (enc[i := x] @ tail))"
    and chk: "crc_fn (bslice 0 (header_len + plen) (enc[i := x] @ tail))
       = from_be (bslice (header_len + plen) (header_len + plen + crc_len) (enc[i := x] @ tail))"
    by (elim frame_decode_Inr)
  let ?body = "pack_header f @ fr_payload f" and ?n = "header_len + length (fr_payload f)"
  from enc t have n: "length (fr_payload f) \<le> 0xFFFF"
    and e: "enc = ?body @ to_be crc_len (crc_fn ?body)"
    by (auto simp: frame_encode_Inr)
  have len: "length enc = ?n + crc_len" by (simp add: e)
  have "i < 14 \<or> 16 \<le> i" using i by linarith
  then have "bslice 14 16 (enc[i := x] @ tail) = bslice 14 16 enc"
    by (simp add: bslice_append_left len header_len_def bslice_update_outside)
  with n have pl: "plen = length (fr_payload f)"
    using header_fields(6) [of f "fr_payload f @ to_be crc_len (crc_fn ?body)"]
    by (simp add: plen e)
  have b0: "bslice 0 ?n enc = ?body" and c0: "bslice ?n (?n + crc_len) enc = to_be crc_len (crc_fn ?body)"
    by (simp_all add: e bslice_def)
  have chk': "crc_fn (bslice 0 ?n (enc[i := x])) = from_be (bslice ?n (?n + crc_len) (enc[i := x]))"
    using chk by (simp add: pl bslice_append_left len)
  have val: "from_be (to_be crc_len (crc_fn ?body)) = crc_fn ?body"
    using crc_table_bound [OF t] by simp
  show False
  proof (cases "i < ?n")
    case True
    with chk' b0 c0 val have "crc_fn (?body[i := x]) = crc_fn ?body"
      by (simp add: bslice_update_outside bslice_update_inside)
    moreover have il: "i < length ?body" using True by simp
    moreover have "enc ! i = ?body ! i"
      unfolding e by (simp only: nth_append [of ?body] il if_True)
    then have "?body ! i \<noteq> x" using x by simp
    ultimately show False using crc_table_detects_update [OF t] by blast
  next
    case False
    then have "from_be (to_be crc_len (crc_fn ?body))
        = from_be ((to_be crc_len (crc_fn ?body))[i - ?n := x])"
      using chk' b0 c0 val by (simp add: bslice_update_outside bslice_update_inside)
    then have "to_be crc_len (crc_fn ?body) = (to_be crc_len (crc_fn ?body))[i - ?n := x]"
      by (rule from_be_inj [rotated]) simp
    then have "to_be crc_len (crc_fn ?body) ! (i - ?n) = x"
      using i(1) False by (metis nth_list_update_eq len length_to_be add_diff_inverse_nat nat_add_left_cancel_less)
    moreover have "enc ! i = to_be crc_len (crc_fn ?body) ! (i - ?n)"
      unfolding e using False by (simp only: nth_append [of ?body] length_append length_pack_header if_False)
    ultimately show False using x by simp
  qed
qed

theorem frame_single_byte_detected_witness:
  "\<not> is_ok (frame_decode ''crc32'' ((case frame_encode ''crc32''
      \<lparr>fr_type = DATA, fr_msg_id = 7, fr_seq = 0, fr_total = 1, fr_payload = [1, 2]\<rparr> of Inr e \<Rightarrow> e)[16 := 3] @ []))"
proof -
  let ?f = "\<lparr>fr_type = DATA, fr_msg_id = 7, fr_seq = 0, fr_total = 1, fr_payload = [1, 2]\<rparr> :: frame"
  obtain e where e: "frame_encode ''crc32'' ?f = Inr e"
    by (auto simp: frame_encode_Inr crc_table_def)
  then have "e ! 16 = 1" "16 < length e"
    by (auto simp: frame_encode_Inr crc_table_def nth_append header_len_def split: if_splits)
  then show ?thesis
    using frame_single_byte_detected [OF e, of 16 3 "[]"] by (simp add: e)
qed

lemma to_be_slice: "i \<le> j \<Longrightarrow> j \<le> length raw \<Longrightarrow> to_be (j - i) (from_be (bslice i j raw)) = bslice i j raw"
  using to_from_be [of "bslice i j raw"] by simp

text \<open>
  Decoding is canonical. Whatever bytes \<open>decode\<close> accepts start with exactly the encoding
  of the frame it returns, so no two different byte strings of one length stand for one frame.
\<close>

theorem frame_decode_canonical:
  assumes "frame_decode scheme raw = Inr f"
  shows "\<exists>enc. frame_encode scheme f = Inr enc \<and> enc = take (length enc) raw"
proof -
  from assms obtain crc_fn crc_len plen where t: "crc_table scheme = Some (crc_fn, crc_len)"
    and plen: "plen = from_be (bslice 14 16 raw)"
    and len: "header_len + plen + crc_len \<le> length raw"
    and ver: "from_be (bslice 0 1 raw) = frame_version"
    and ty: "from_be (bslice 1 2 raw) = ft_code (fr_type f)"
    and chk: "crc_fn (bslice 0 (header_len + plen) raw)
       = from_be (bslice (header_len + plen) (header_len + plen + crc_len) raw)"
    and id: "fr_msg_id f = int (from_be (bslice 2 10 raw))"
    and sq: "fr_seq f = int (from_be (bslice 10 12 raw))"
    and tt: "fr_total f = int (from_be (bslice 12 14 raw))"
    and pay: "fr_payload f = bslice header_len (header_len + plen) raw"
    by (elim frame_decode_Inr)
  have L: "16 + plen + crc_len \<le> length raw" using len by (simp add: header_len_def)
  have lp: "length (fr_payload f) = plen" using L by (simp add: pay header_len_def)
  have "plen < 256 ^ 2" unfolding plen using from_be_less [of "bslice 14 16 raw"] L by simp
  then have small: "plen \<le> 0xFFFF" by simp
  have bound: "int (from_be (bslice i j raw)) mod 2 ^ (8 * (j - i)) = int (from_be (bslice i j raw))"
    if "i \<le> j" "j \<le> 16" for i j
    using that L from_be_less [of "bslice i j raw"]
    by (simp add: power_mult zmod_int [symmetric, of _ "256 ^ (j - i)", simplified])
  have hdr: "pack_header f = bslice 0 16 raw"
  proof -
    have "to_be 1 frame_version = bslice 0 1 raw" "to_be 1 (ft_code (fr_type f)) = bslice 1 2 raw"
      using to_be_slice [of 0 1 raw] to_be_slice [of 1 2 raw] L
      by (simp_all only: ver ty) simp_all
    moreover have "to_be 8 (nat (fr_msg_id f mod 18446744073709551616)) = bslice 2 10 raw"
      using to_be_slice [of 2 10 raw] bound [of 2 10] L by (simp add: id)
    moreover have "to_be 2 (nat (fr_seq f mod 65536)) = bslice 10 12 raw"
      "to_be 2 (nat (fr_total f mod 65536)) = bslice 12 14 raw"
      using to_be_slice [of 10 12 raw] bound [of 10 12] to_be_slice [of 12 14 raw] bound [of 12 14] L
      by (simp_all add: sq tt)
    moreover have "to_be 2 (length (fr_payload f)) = bslice 14 16 raw"
      using to_be_slice [of 14 16 raw] L by (simp add: lp plen)
    ultimately show ?thesis
      by (simp add: pack_header_def bslice_join del: to_be.simps)
  qed
  have body: "pack_header f @ fr_payload f = bslice 0 (16 + plen) raw"
    by (simp add: hdr pay header_len_def bslice_join)
  have crc: "to_be crc_len (crc_fn (bslice 0 (16 + plen) raw)) = bslice (16 + plen) (16 + plen + crc_len) raw"
    using to_be_slice [of "16 + plen" "16 + plen + crc_len" raw] L chk by (simp add: header_len_def)
  have "frame_encode scheme f = Inr (take (16 + plen + crc_len) raw)"
    using t small by (simp add: frame_encode_Inr lp body crc bslice_join append_assoc [symmetric]
        del: append_assoc) (simp add: bslice_def)
  then show ?thesis using L by auto
qed

theorem frame_decode_canonical_witness:
  "\<exists>raw f. frame_decode ''crc16'' raw = Inr f \<and> fr_payload f = [5]
     \<and> (\<exists>enc. frame_encode ''crc16'' f = Inr enc \<and> enc = take (length enc) raw)"
proof -
  let ?f = "\<lparr>fr_type = NAK, fr_msg_id = 1, fr_seq = 0, fr_total = 1, fr_payload = [5]\<rparr> :: frame"
  obtain e where e: "frame_encode ''crc16'' ?f = Inr e"
    by (auto simp: frame_encode_Inr crc_table_def)
  have d: "frame_decode ''crc16'' (e @ []) = Inr ?f"
    using frame_decode_encoded [OF e, of "[]"] by (simp add: wire_frame_def)
  show ?thesis using d frame_decode_canonical [OF d] by (intro exI [of _ "e @ []"] exI [of _ ?f]) simp
qed

section \<open>Fragmentation and reassembly\<close>

definition fragment :: "bytes \<Rightarrow> int \<Rightarrow> int \<Rightarrow> frame_error + frame list" where
  "fragment payload msg_id max_frame_payload =
     (if max_frame_payload \<le> 0 then Inl BadMaxFramePayload
      else (let cs = chunks (nat max_frame_payload) payload;
                chks = (if cs = [] then [[]] else cs);
                total = int (length chks)
            in Inr (map (\<lambda>(i, c). \<lparr>fr_type = DATA, fr_msg_id = msg_id, fr_seq = int i,
                                    fr_total = total, fr_payload = c\<rparr>)
                     (enumerate 0 chks))))"

text \<open>The loop that fills \<open>by_seq\<close>; the dict keeps insertion order.\<close>

fun collect_fragments :: "frame list \<Rightarrow> (int \<times> bytes) list \<Rightarrow> frame_error + (int \<times> bytes) list" where
  "collect_fragments [] by_seq = Inr by_seq"
| "collect_fragments (f # fs) by_seq =
     (if fr_seq f \<in> set (map fst by_seq) then Inl (DuplicateFragment (fr_seq f))
      else collect_fragments fs (by_seq @ [(fr_seq f, fr_payload f)]))"

definition py_range :: "int \<Rightarrow> int list" where
  "py_range n = map int [0..<nat n]"

definition reassemble :: "frame list \<Rightarrow> frame_error + bytes" where
  "reassemble frames =
     (let data = filter (\<lambda>f. fr_type f = DATA) frames
      in case data of
           [] \<Rightarrow> Inl NoDataFrames
         | f0 # _ \<Rightarrow>
             (let total = fr_total f0
              in if \<exists>f \<in> set data. fr_total f \<noteq> total then Inl InconsistentTotals
                 else rbind (collect_fragments data []) (\<lambda>by_seq.
                   if set (map fst by_seq) \<noteq> set (py_range total)
                   then Inl (MissingFragments total (sort (map fst by_seq)))
                   else Inr (concat (map (\<lambda>i. the (map_of by_seq i)) (py_range total))))))"

lemma collect_fragments_ok:
  "distinct (map fr_seq fs) \<Longrightarrow> set (map fr_seq fs) \<inter> set (map fst acc) = {} \<Longrightarrow>
   collect_fragments fs acc = Inr (acc @ map (\<lambda>f. (fr_seq f, fr_payload f)) fs)"
  by (induction fs arbitrary: acc) auto

lemma collect_fragments_clash:
  "fr_seq ` set fs \<inter> fst ` set acc \<noteq> {} \<Longrightarrow> \<exists>k. collect_fragments fs acc = Inl (DuplicateFragment k)"
proof (induction fs arbitrary: acc)
  case Nil
  then show ?case by simp
next
  case (Cons f fs)
  then show ?case
    using Cons.IH [of "acc @ [(fr_seq f, fr_payload f)]"] by (cases "fr_seq f \<in> fst ` set acc") auto
qed

lemma collect_fragments_dup:
  "\<not> distinct (map fr_seq fs) \<Longrightarrow> \<exists>k. collect_fragments fs acc = Inl (DuplicateFragment k)"
proof (induction fs arbitrary: acc)
  case Nil
  then show ?case by simp
next
  case (Cons f fs)
  consider "fr_seq f \<in> set (map fst acc)" | "\<not> distinct (map fr_seq fs)"
    | "fr_seq f \<notin> set (map fst acc)" "fr_seq f \<in> fr_seq ` set fs"
    using Cons.prems by auto
  then show ?case
  proof cases
    case 3
    then have "fr_seq ` set fs \<inter> fst ` set (acc @ [(fr_seq f, fr_payload f)]) \<noteq> {}" by auto
    then show ?thesis using 3(1) collect_fragments_clash by simp
  qed (use Cons.IH in auto)
qed

lemma collect_fragments_Inr:
  "collect_fragments fs [] = Inr al \<longleftrightarrow>
     distinct (map fr_seq fs) \<and> al = map (\<lambda>f. (fr_seq f, fr_payload f)) fs"
proof (cases "distinct (map fr_seq fs)")
  case True
  then show ?thesis using collect_fragments_ok [of fs "[]"] by auto
next
  case False
  then show ?thesis using collect_fragments_dup [of fs "[]"] by auto
qed

lemma map_of_seq:
  "distinct (map fr_seq fs) \<Longrightarrow> f \<in> set fs \<Longrightarrow>
   map_of (map (\<lambda>f. (fr_seq f, fr_payload f)) fs) (fr_seq f) = Some (fr_payload f)"
  by (induction fs) (auto simp: rev_image_eqI)

lemma set_py_range [simp]: "set (py_range n) = {0..<n}"
proof -
  have "int ` {0..<nat n} = {0..<n}"
    by (auto simp: image_def Bex_def intro: exI [of _ "nat _"])
  then show ?thesis by (simp add: py_range_def)
qed

lemma sorted_py_range [simp]: "sorted (py_range n)" "distinct (py_range n)" "length (py_range n) = nat n"
  by (simp_all add: py_range_def sorted_map distinct_map sorted_wrt_upt)

text \<open>The fragments in index order carry exactly the joined payload.\<close>

lemma join_in_order:
  assumes "distinct (map fr_seq data)" and "mset ordered = mset data"
    and "map fr_seq ordered = py_range n"
  shows "concat (map (\<lambda>i. the (map_of (map (\<lambda>f. (fr_seq f, fr_payload f)) data) i)) (py_range n))
    = concat (map fr_payload ordered)"
proof -
  have "set ordered = set data" using assms(2) by (metis mset_eq_setD)
  then have "\<forall>f \<in> set ordered.
      the (map_of (map (\<lambda>f. (fr_seq f, fr_payload f)) data) (fr_seq f)) = fr_payload f"
    using map_of_seq [OF assms(1)] by simp
  then have "map (\<lambda>i. the (map_of (map (\<lambda>f. (fr_seq f, fr_payload f)) data) i)) (map fr_seq ordered)
    = map fr_payload ordered" by simp
  then show ?thesis by (simp only: assms(3))
qed

lemma fragment_Inr:
  assumes "fragment payload mid m = Inr frames"
  shows "0 < m" "frames \<noteq> []" "\<forall>f \<in> set frames. fr_type f = DATA \<and> fr_msg_id f = mid"
    and "\<forall>f \<in> set frames. fr_total f = int (length frames) \<and> int (length (fr_payload f)) \<le> m"
    and "map fr_seq frames = py_range (int (length frames))"
    and "concat (map fr_payload frames) = payload"
proof -
  let ?cs = "chunks (nat m) payload"
  let ?chks = "if ?cs = [] then [[]] else ?cs"
  from assms have m: "0 < m" and fr: "frames = map (\<lambda>(i, c). \<lparr>fr_type = DATA, fr_msg_id = mid,
      fr_seq = int i, fr_total = int (length ?chks), fr_payload = c\<rparr>) (enumerate 0 ?chks)"
    by (auto simp: fragment_def Let_def split: if_splits)
  have len: "length frames = length ?chks" by (simp add: fr)
  show "0 < m" by (fact m)
  show "frames \<noteq> []" by (simp add: fr enumerate_eq_zip)
  show "\<forall>f \<in> set frames. fr_type f = DATA \<and> fr_msg_id f = mid" by (auto simp: fr)
  have cs: "c \<in> set ?chks \<Longrightarrow> length c \<le> nat m" for c
    using chunks_small [of c "nat m" payload] by (auto split: if_splits)
  then have "f \<in> set frames \<Longrightarrow> length (fr_payload f) \<le> nat m" for f
    by (auto simp: fr enumerate_eq_zip dest!: set_zip_rightD)
  then have "f \<in> set frames \<Longrightarrow> int (length (fr_payload f)) \<le> m" for f
    using m by fastforce
  moreover have "f \<in> set frames \<Longrightarrow> fr_total f = int (length frames)" for f
    unfolding len by (auto simp: fr)
  ultimately show "\<forall>f \<in> set frames. fr_total f = int (length frames) \<and> int (length (fr_payload f)) \<le> m"
    by blast
  have "map fr_seq frames = map (int \<circ> fst) (enumerate 0 ?chks)"
    by (simp add: fr case_prod_beta comp_def)
  also have "\<dots> = map int [0..<length ?chks]"
    by (simp add: map_map [symmetric] del: map_map)
  finally show "map fr_seq frames = py_range (int (length frames))" by (simp only: py_range_def len nat_int)
  have "map fr_payload frames = map snd (enumerate 0 ?chks)"
    by (simp add: fr case_prod_beta comp_def)
  then have "map fr_payload frames = ?chks" by simp
  moreover have "concat ?chks = payload"
    using concat_chunks [of "nat m" payload] m by (auto split: if_splits)
  ultimately show "concat (map fr_payload frames) = payload" by simp
qed

definition data_frames :: "frame list \<Rightarrow> frame list" where
  "data_frames frames = filter (\<lambda>f. fr_type f = DATA) frames"

text \<open>A complete, consistent set of fragments, listed in index order.\<close>

definition complete_message :: "frame list \<Rightarrow> bool" where
  "complete_message ordered \<longleftrightarrow> ordered \<noteq> [] \<and>
     list_all (\<lambda>f. fr_total f = int (length ordered)) ordered \<and>
     map fr_seq ordered = py_range (int (length ordered))"

lemma reassemble_complete:
  assumes cm: "complete_message ordered" and perm: "mset ordered = mset (data_frames frames)"
  shows "reassemble frames = Inr (concat (map fr_payload ordered))"
proof -
  let ?data = "data_frames frames" and ?n = "int (length ordered)"
  have sets: "set ?data = set ordered" using perm by (metis set_mset_mset)
  have seqs: "mset (map fr_seq ?data) = mset (py_range ?n)"
    using perm cm by (metis complete_message_def mset_map)
  have dist: "distinct (map fr_seq ?data)"
    using seqs sorted_py_range(2) by (metis mset_eq_imp_distinct_iff)
  have keys: "set (map fr_seq ?data) = {0..<?n}"
    using seqs set_py_range by (metis set_mset_mset)
  obtain f0 fs where d: "?data = f0 # fs"
    using sets cm by (cases ?data) (auto simp: complete_message_def)
  have tot: "\<forall>f \<in> set ?data. fr_total f = ?n"
    using cm by (auto simp: sets complete_message_def list_all_iff)
  then have t0: "fr_total f0 = ?n" by (simp add: d)
  have nobad: "\<not> (\<exists>f \<in> set ?data. fr_total f \<noteq> fr_total f0)" using tot t0 by auto
  have coll: "collect_fragments ?data [] = Inr (map (\<lambda>f. (fr_seq f, fr_payload f)) ?data)"
    using dist by (simp add: collect_fragments_Inr)
  have join: "concat (map (\<lambda>i. the (map_of (map (\<lambda>f. (fr_seq f, fr_payload f)) ?data) i))
      (py_range ?n)) = concat (map fr_payload ordered)"
    using join_in_order [OF dist perm] cm by (simp add: complete_message_def)
  have fsteq: "map fst (map (\<lambda>f. (fr_seq f, fr_payload f)) ?data) = map fr_seq ?data" by simp
  show ?thesis
    unfolding reassemble_def Let_def data_frames_def [symmetric]
    using nobad coll join keys
    by (simp only: d list.case t0 if_False rbind_simps fsteq [unfolded d] set_py_range) (simp add: d)
qed

lemma reassemble_sound:
  assumes "reassemble frames = Inr p"
  shows "\<exists>ordered. complete_message ordered \<and> mset ordered = mset (data_frames frames)
    \<and> p = concat (map fr_payload ordered)"
proof -
  let ?data = "data_frames frames"
  from assms obtain f0 fs where d: "?data = f0 # fs"
    by (auto simp: reassemble_def data_frames_def Let_def split: list.splits)
  let ?n = "fr_total f0"
  from assms have tot: "\<forall>f \<in> set ?data. fr_total f = ?n"
    by (auto simp: reassemble_def data_frames_def [symmetric] d Let_def split: if_splits)
  from assms have rb: "rbind (collect_fragments ?data []) (\<lambda>by_seq.
       if set (map fst by_seq) \<noteq> set (py_range ?n)
       then Inl (MissingFragments ?n (sort (map fst by_seq)))
       else Inr (concat (map (\<lambda>i. the (map_of by_seq i)) (py_range ?n)))) = Inr p"
    by (simp add: reassemble_def data_frames_def [symmetric] d Let_def
        del: set_map collect_fragments.simps set_py_range split: if_splits)
  then obtain al where al: "collect_fragments ?data [] = Inr al"
    and keys: "set (map fst al) = {0..<?n}"
    and p: "p = concat (map (\<lambda>i. the (map_of al i)) (py_range ?n))"
    by (auto simp: rbind_Inr_iff simp del: set_map split: if_splits)
  from al have dist: "distinct (map fr_seq ?data)"
    and al': "al = map (\<lambda>f. (fr_seq f, fr_payload f)) ?data"
    by (auto simp: collect_fragments_Inr)
  let ?ord = "sort_key fr_seq ?data"
  have seqs: "map fr_seq ?ord = py_range ?n"
  proof (rule sorted_distinct_set_unique)
    show "distinct (map fr_seq ?ord)"
      using dist by (metis mset_eq_imp_distinct_iff mset_map mset_sort)
    show "set (map fr_seq ?ord) = set (py_range ?n)" using keys by (simp add: al' image_image)
  qed simp_all
  have "length ?ord = nat ?n" using arg_cong [OF seqs, of length] by simp
  moreover have "?ord \<noteq> []" by (metis d list.discI mset_sort mset_zero_iff)
  ultimately have n: "int (length ?ord) = ?n" by (metis d int_nat_eq length_greater_0_conv nat_0_iff
      not_less_iff_gr_or_eq length_0_conv nle_le)
  have "p = concat (map fr_payload ?ord)"
    using join_in_order [OF dist mset_sort seqs] by (simp add: p al')
  moreover have "complete_message ?ord"
    using tot n seqs \<open>?ord \<noteq> []\<close> by (auto simp: complete_message_def list_all_iff)
  ultimately show ?thesis by (metis mset_sort)
qed

lemma fragment_complete:
  "fragment payload mid m = Inr frames \<Longrightarrow> complete_message frames"
  using fragment_Inr [of payload mid m frames] by (auto simp: complete_message_def list_all_iff)

text \<open>
  C3: reassembly inverts fragmentation in any arrival order. Whatever order the DATA frames of
  a fragmented message arrive in, and whatever other frames are interleaved with them,
  \<open>reassemble\<close> returns the message.
\<close>

theorem fragment_reassemble:
  assumes "fragment payload mid m = Inr frames"
    and "mset (data_frames arrived) = mset frames"
  shows "reassemble arrived = Inr payload"
  using reassemble_complete [OF fragment_complete [OF assms(1)] assms(2) [symmetric]]
    fragment_Inr(6) [OF assms(1)] by simp

theorem fragment_reassemble_witness:
  "reassemble
     [\<lparr>fr_type = DATA, fr_msg_id = 9, fr_seq = 1, fr_total = 2, fr_payload = [3]\<rparr>,
      \<lparr>fr_type = ACK, fr_msg_id = 9, fr_seq = 1, fr_total = 2, fr_payload = []\<rparr>,
      \<lparr>fr_type = DATA, fr_msg_id = 9, fr_seq = 0, fr_total = 2, fr_payload = [1, 2]\<rparr>] = Inr [1, 2, 3]"
proof -
  have fr: "fragment [1, 2, 3] 9 2 = Inr
     [\<lparr>fr_type = DATA, fr_msg_id = 9, fr_seq = 0, fr_total = 2, fr_payload = [1, 2]\<rparr>,
      \<lparr>fr_type = DATA, fr_msg_id = 9, fr_seq = 1, fr_total = 2, fr_payload = [3]\<rparr>]"
    by (simp add: fragment_def chunks_step)
  show ?thesis by (rule fragment_reassemble [OF fr]) (simp add: data_frames_def)
qed

text \<open>
  Exact specification of reassembly. \<open>reassemble\<close> returns a payload precisely when the
  DATA frames, put in index order, are one complete consistent message: no fragment missing,
  duplicated or contradicting the fragment count; and the payload is the fragments' payloads
  joined in that order. In every other case it raises.
\<close>

theorem reassemble_spec:
  "reassemble frames = Inr p \<longleftrightarrow>
     (\<exists>ordered. complete_message ordered \<and> mset ordered = mset (data_frames frames)
        \<and> p = concat (map fr_payload ordered))"
  using reassemble_sound reassemble_complete by blast

end
