(* ===== verification/Arq.thy ===== *)
theory Arq
  imports Frame Profiles
begin

text \<open>
  \<open>transport/ota/reliability.py\<close>: the stop-and-wait sender (\<open>send_message\<close>) and the receiver
  that acknowledges, suppresses duplicates and reassembles (\<open>Receiver.on_frame\<close>). The injected
  \<open>FrameChannel\<close> is a state-passing function. The locale \<open>frame_channel\<close> states what the sender
  relies on; it is interpreted on the simulated radio link in \<open>SimLink\<close>.
\<close>

section \<open>The sender\<close>

record send_stats =
  delivered :: bool
  frames_sent :: nat
  frames_acked :: nat
  retries :: nat

definition acks :: "frame \<Rightarrow> frame \<Rightarrow> bool" where
  "acks ack f \<longleftrightarrow> fr_type ack = ACK \<and> fr_msg_id ack = fr_msg_id f \<and> fr_seq ack = fr_seq f"

text \<open>The loop over the attempts of one frame; the last component says whether it was acknowledged.\<close>

fun send_attempts :: "string \<Rightarrow> ('s \<Rightarrow> bytes \<Rightarrow> 's \<times> bytes option) \<Rightarrow> frame \<Rightarrow> bytes \<Rightarrow> nat list
    \<Rightarrow> send_stats \<Rightarrow> 's \<Rightarrow> send_stats \<times> 's \<times> bool" where
  "send_attempts scheme channel f encoded [] stats s = (stats, s, False)"
| "send_attempts scheme channel f encoded (attempt # rest) stats s =
     (let stats = stats\<lparr>frames_sent := frames_sent stats + 1\<rparr>;
          stats = (if attempt \<noteq> 0 then stats\<lparr>retries := retries stats + 1\<rparr> else stats)
      in case channel s encoded of
           (s', None) \<Rightarrow> send_attempts scheme channel f encoded rest stats s'
         | (s', Some resp) \<Rightarrow>
             (case frame_decode scheme resp of
                Inl _ \<Rightarrow> send_attempts scheme channel f encoded rest stats s'
              | Inr ack \<Rightarrow>
                  if acks ack f then (stats\<lparr>frames_acked := frames_acked stats + 1\<rparr>, s', True)
                  else send_attempts scheme channel f encoded rest stats s'))"

fun send_frames :: "rf_profile \<Rightarrow> ('s \<Rightarrow> bytes \<Rightarrow> 's \<times> bytes option) \<Rightarrow> frame list
    \<Rightarrow> send_stats \<Rightarrow> 's \<Rightarrow> (frame_error + send_stats) \<times> 's" where
  "send_frames p channel [] stats s = (Inr (stats\<lparr>delivered := True\<rparr>), s)"
| "send_frames p channel (f # fs) stats s =
     (case frame_encode (crc_scheme p) f of
        Inl e \<Rightarrow> (Inl e, s)
      | Inr encoded \<Rightarrow>
          (case send_attempts (crc_scheme p) channel f encoded [0..<nat (max_retries p + 1)] stats s of
             (stats', s', acked) \<Rightarrow>
               if \<not> acked then (Inr stats', s') else send_frames p channel fs stats' s'))"

definition send_message :: "bytes \<Rightarrow> int \<Rightarrow> rf_profile \<Rightarrow> ('s \<Rightarrow> bytes \<Rightarrow> 's \<times> bytes option)
    \<Rightarrow> 's \<Rightarrow> (frame_error + send_stats) \<times> 's" where
  "send_message payload msg_id p channel s =
     (case fragment payload msg_id (max_frame_payload_bytes p) of
        Inl e \<Rightarrow> (Inl e, s)
      | Inr frames \<Rightarrow> send_frames p channel frames
          \<lparr>delivered = False, frames_sent = 0, frames_acked = 0, retries = 0\<rparr> s)"

section \<open>The receiver\<close>

record reassembly_state =
  ra_total :: int
  by_seq :: "(int \<times> frame) list"

definition reassembly_add :: "frame \<Rightarrow> reassembly_state \<Rightarrow> bool \<times> reassembly_state" where
  "reassembly_add f st =
     (if fr_seq f \<in> fst ` set (by_seq st) then (False, st)
      else (True, st\<lparr>by_seq := by_seq st @ [(fr_seq f, f)]\<rparr>))"

definition reassembly_full :: "reassembly_state \<Rightarrow> bool" where
  "reassembly_full st \<longleftrightarrow> int (length (by_seq st)) = ra_total st"

record receiver =
  rcv_profile :: rf_profile
  messages :: "int \<rightharpoonup> reassembly_state"
  completed :: "int \<rightharpoonup> bytes"

definition new_receiver :: "rf_profile \<Rightarrow> receiver" where
  "new_receiver p = \<lparr>rcv_profile = p, messages = Map.empty, completed = Map.empty\<rparr>"

text \<open>
  \<open>Receiver.on_frame\<close>: the new state and either the raised error or the pair
  \<open>(ack_bytes, completed_message)\<close>. The fragment is stored before a reassembly can raise.
\<close>

definition on_frame :: "receiver \<Rightarrow> bytes \<Rightarrow> receiver \<times> (frame_error + bytes option \<times> bytes option)" where
  "on_frame r raw =
     (case frame_decode (crc_scheme (rcv_profile r)) raw of
        Inl e \<Rightarrow> (r, Inl e)
      | Inr f \<Rightarrow>
          if fr_type f \<noteq> DATA then (r, Inr (None, None))
          else
            (let mid = fr_msg_id f;
                 st0 = (case messages r mid of None \<Rightarrow> \<lparr>ra_total = fr_total f, by_seq = []\<rparr> | Some st \<Rightarrow> st);
                 st = snd (reassembly_add f st0);
                 r1 = r\<lparr>messages := (messages r)(mid \<mapsto> st)\<rparr>
             in case frame_encode (crc_scheme (rcv_profile r))
                       \<lparr>fr_type = ACK, fr_msg_id = mid, fr_seq = fr_seq f, fr_total = fr_total f, fr_payload = []\<rparr> of
                  Inl e \<Rightarrow> (r1, Inl e)
                | Inr ack \<Rightarrow>
                    if completed r mid \<noteq> None then (r1, Inr (Some ack, None))
                    else if reassembly_full st then
                      (case reassemble (map snd (by_seq st)) of
                         Inl e \<Rightarrow> (r1, Inl e)
                       | Inr message \<Rightarrow>
                           (r1\<lparr>completed := (completed r)(mid \<mapsto> message)\<rparr>, Inr (Some ack, Some message)))
                    else (r1, Inr (Some ack, None))))"

section \<open>The sender is bounded and accounts for every frame\<close>

lemmas send_attempts_splits = prod.splits option.splits sum.splits if_splits

lemma send_attempts_stats:
  "send_attempts scheme ch f enc as st s = (st', s', ok) \<Longrightarrow>
     frames_sent st' \<le> frames_sent st + length as
     \<and> frames_acked st' = frames_acked st + of_bool ok \<and> delivered st' = delivered st"
proof (induction as arbitrary: st s)
  case Nil
  then show ?case by auto
next
  case (Cons a as)
  show ?case using Cons.prems by (auto simp: Let_def split: send_attempts_splits dest!: Cons.IH)
qed

lemma send_attempts_retries_pos:
  "send_attempts scheme ch f enc as st s = (st', s', ok) \<Longrightarrow> 0 \<notin> set as \<Longrightarrow>
   frames_sent st' + retries st = frames_sent st + retries st'"
proof (induction as arbitrary: st s)
  case Nil
  then show ?case by auto
next
  case (Cons a as)
  show ?case using Cons.prems by (auto simp: Let_def split: send_attempts_splits dest!: Cons.IH)
qed

lemma send_attempts_retries:
  assumes "send_attempts scheme ch f enc (0 # as) st s = (st', s', ok)" and "0 \<notin> set as"
  shows "frames_sent st' + retries st = frames_sent st + retries st' + 1"
  using assms by (auto simp: Let_def split: send_attempts_splits dest!: send_attempts_retries_pos)

lemma attempts_list: "0 \<le> m \<Longrightarrow> [0..<nat (m + 1)] = 0 # [1..<nat (m + 1)]"
  by (simp add: upt_conv_Cons)

lemma send_frames_Cons:
  assumes "send_frames p ch (f # fs) st s = (Inr st', s')"
  obtains st1 s1 ok enc where "frame_encode (crc_scheme p) f = Inr enc"
    and "send_attempts (crc_scheme p) ch f enc [0..<nat (max_retries p + 1)] st s = (st1, s1, ok)"
    and "if ok then send_frames p ch fs st1 s1 = (Inr st', s') else st' = st1 \<and> s' = s1"
  using assms by (auto split: sum.splits prod.splits if_splits)

lemma send_frames_stats:
  assumes "0 \<le> max_retries p"
  shows "send_frames p ch fs st s = (Inr st', s') \<Longrightarrow>
     (delivered st' \<longleftrightarrow> delivered st \<or> frames_acked st' = frames_acked st + length fs)
     \<and> frames_acked st' \<le> frames_acked st + length fs
     \<and> frames_sent st' \<le> frames_sent st + length fs * nat (max_retries p + 1)
     \<and> frames_sent st' + retries st + frames_acked st
         = frames_sent st + retries st' + frames_acked st'
           + of_bool (frames_acked st' \<noteq> frames_acked st + length fs)"
proof (induction fs arbitrary: st s)
  case Nil
  then show ?case by auto
next
  case (Cons f fs)
  obtain st1 s1 ok enc where
      a: "send_attempts (crc_scheme p) ch f enc [0..<nat (max_retries p + 1)] st s = (st1, s1, ok)"
    and rest: "if ok then send_frames p ch fs st1 s1 = (Inr st', s') else st' = st1 \<and> s' = s1"
    using send_frames_Cons [OF Cons.prems] by metis
  note b = send_attempts_stats [OF a]
  have c: "frames_sent st1 + retries st = frames_sent st + retries st1 + 1"
    using send_attempts_retries [OF a [unfolded attempts_list [OF assms]]] by simp
  show ?case
  proof (cases ok)
    case True
    with rest have "send_frames p ch fs st1 s1 = (Inr st', s')" by simp
    from Cons.IH [OF this] b c True show ?thesis by auto
  next
    case False
    with rest b c show ?thesis by auto
  qed
qed

section \<open>What the sender relies on\<close>

text \<open>
  The contract of a frame channel with a receiver behind it, for a family of channels \<open>'p\<close>:
  an invariant that every frame of the message being sent preserves, fragments that stay
  stored, and acknowledgements that are only produced for a stored fragment. Under it a
  delivered report means that the far side holds every fragment.
\<close>

locale frame_channel =
  fixes scheme :: "'p \<Rightarrow> string"
    and chan :: "'p \<Rightarrow> 's \<Rightarrow> bytes \<Rightarrow> 's \<times> bytes option"
    and inv :: "'p \<Rightarrow> frame list \<Rightarrow> 's \<Rightarrow> bool"
    and stored :: "'s \<Rightarrow> frame \<Rightarrow> bool"
  assumes chan_inv: "inv p fs s \<Longrightarrow> f \<in> set fs \<Longrightarrow> frame_encode (scheme p) f = Inr enc \<Longrightarrow>
      chan p s enc = (s', r) \<Longrightarrow> inv p fs s'"
    and chan_keeps: "inv p fs s \<Longrightarrow> f \<in> set fs \<Longrightarrow> frame_encode (scheme p) f = Inr enc \<Longrightarrow>
      chan p s enc = (s', r) \<Longrightarrow> stored s g \<Longrightarrow> stored s' g"
    and ack_stored: "inv p fs s \<Longrightarrow> f \<in> set fs \<Longrightarrow> frame_encode (scheme p) f = Inr enc \<Longrightarrow>
      chan p s enc = (s', Some resp) \<Longrightarrow> frame_decode (scheme p) resp = Inr ack \<Longrightarrow> acks ack f \<Longrightarrow>
      stored s' f"
begin

lemma attempts_stored:
  "send_attempts (scheme p) (chan p) f enc as st s = (st', s', ok) \<Longrightarrow> inv p fs s \<Longrightarrow> f \<in> set fs \<Longrightarrow>
   frame_encode (scheme p) f = Inr enc \<Longrightarrow>
   inv p fs s' \<and> (\<forall>g. stored s g \<longrightarrow> stored s' g) \<and> (ok \<longrightarrow> stored s' f)"
proof (induction as arbitrary: st s)
  case Nil
  then show ?case by simp
next
  case (Cons a as)
  obtain s1 r where c: "chan p s enc = (s1, r)" by fastforce
  note one = chan_inv [OF Cons.prems(2-4) c] chan_keeps [OF Cons.prems(2-4) c]
  have again: "send_attempts (scheme p) (chan p) f enc as st1 s1 = (st', s', ok) \<Longrightarrow> ?case" for st1
    using Cons.IH [OF _ one(1) Cons.prems(3,4)] one(2) by blast
  show ?case
  proof (cases "\<exists>resp ack. r = Some resp \<and> frame_decode (scheme p) resp = Inr ack \<and> acks ack f")
    case True
    then obtain resp ack where r: "r = Some resp" "frame_decode (scheme p) resp = Inr ack" "acks ack f" by blast
    then have "s' = s1" using Cons.prems(1) by (simp add: c Let_def)
    with one ack_stored [OF Cons.prems(2-4) c [unfolded r(1)] r(2,3)] show ?thesis by blast
  next
    case False
    then show ?thesis using Cons.prems(1) again
      by (auto simp: c Let_def split: option.splits sum.splits if_splits)
  qed
qed

lemma frames_stored:
  "send_frames prof (chan p) gs st s = (Inr st', s') \<Longrightarrow> inv p fs s \<Longrightarrow> set gs \<subseteq> set fs \<Longrightarrow>
   crc_scheme prof = scheme p \<Longrightarrow> \<not> delivered st \<Longrightarrow>
   inv p fs s' \<and> (\<forall>g. stored s g \<longrightarrow> stored s' g) \<and> (delivered st' \<longrightarrow> (\<forall>f \<in> set gs. stored s' f))"
proof (induction gs arbitrary: st s)
  case Nil
  then show ?case by auto
next
  case (Cons f gs)
  obtain st1 s1 ok enc where e: "frame_encode (crc_scheme prof) f = Inr enc"
    and a: "send_attempts (crc_scheme prof) (chan p) f enc [0..<nat (max_retries prof + 1)] st s = (st1, s1, ok)"
    and rest: "if ok then send_frames prof (chan p) gs st1 s1 = (Inr st', s') else st' = st1 \<and> s' = s1"
    using send_frames_Cons [OF Cons.prems(1)] by metis
  have one: "inv p fs s1 \<and> (\<forall>g. stored s g \<longrightarrow> stored s1 g) \<and> (ok \<longrightarrow> stored s1 f)"
    using attempts_stored [OF a [unfolded Cons.prems(4)] Cons.prems(2)] Cons.prems(3,4) e by auto
  have d: "\<not> delivered st1" using send_attempts_stats [OF a] Cons.prems(5) by simp
  show ?case
  proof (cases ok)
    case True
    with rest have "send_frames prof (chan p) gs st1 s1 = (Inr st', s')" by simp
    from Cons.IH [OF this _ _ Cons.prems(4) d] one Cons.prems(3) True show ?thesis by auto
  next
    case False
    with rest one d show ?thesis by auto
  qed
qed

lemma message_stored:
  assumes "send_message payload mid prof (chan p) s = (Inr st, s')"
    and "fragment payload mid (max_frame_payload_bytes prof) = Inr fs"
    and "inv p fs s" and "crc_scheme prof = scheme p"
  shows "inv p fs s' \<and> (delivered st \<longrightarrow> (\<forall>f \<in> set fs. stored s' f))"
  using frames_stored [of prof p fs _ s st s' fs] assms by (auto simp: send_message_def)

end

section \<open>The receiver is idempotent\<close>

text \<open>
  Processing the same bytes a second time changes nothing and answers alike, except that a
  completed message is reported only once.
\<close>

lemma on_frame_again:
  assumes "on_frame r raw = (r1, res)"
  shows "\<exists>res'. on_frame r1 raw = (r1, res') \<and> map_sum id fst res' = map_sum id fst res"
proof (cases "frame_decode (crc_scheme (rcv_profile r)) raw")
  case (Inl e)
  with assms show ?thesis by (auto simp: on_frame_def)
next
  case (Inr f)
  show ?thesis
  proof (cases "fr_type f = DATA")
    case False
    with Inr assms show ?thesis by (auto simp: on_frame_def)
  next
    case True
    let ?mid = "fr_msg_id f"
    let ?st0 = "case messages r ?mid of None \<Rightarrow> \<lparr>ra_total = fr_total f, by_seq = []\<rparr> | Some st \<Rightarrow> st"
    let ?st = "snd (reassembly_add f ?st0)"
    let ?r1 = "r\<lparr>messages := (messages r)(?mid \<mapsto> ?st)\<rparr>"
    have dup: "snd (reassembly_add f ?st) = ?st" by (auto simp: reassembly_add_def)
    have same: "?r1\<lparr>messages := (messages ?r1)(?mid \<mapsto> ?st)\<rparr> = ?r1"
      and same': "x\<lparr>messages := (messages r)(?mid \<mapsto> ?st)\<rparr> = x" if "messages x = (messages r)(?mid \<mapsto> ?st)" for x :: receiver
      using that by simp_all
    have r1: "messages r1 = (messages r)(?mid \<mapsto> ?st)" "rcv_profile r1 = rcv_profile r"
      using assms True by (auto simp: on_frame_def Inr Let_def split: sum.splits if_splits)
    show ?thesis
      using assms True dup same'
      by (auto simp: on_frame_def Inr Let_def r1 split: sum.splits if_splits)
  qed
qed

section \<open>Attempts per frame\<close>

text \<open>A channel that also keeps the list of the byte strings it was given.\<close>

definition logged :: "('s \<Rightarrow> bytes \<Rightarrow> 's \<times> bytes option) \<Rightarrow> 's \<times> bytes list \<Rightarrow> bytes
    \<Rightarrow> ('s \<times> bytes list) \<times> bytes option" where
  "logged channel t encoded =
     (case channel (fst t) encoded of (s', r) \<Rightarrow> ((s', snd t @ [encoded]), r))"

lemma send_attempts_log:
  "send_attempts scheme ch f enc as st s = (st', s', ok) \<Longrightarrow>
   \<exists>n. send_attempts scheme (logged ch) f enc as st (s, l) = (st', (s', l @ replicate n enc), ok)
     \<and> n \<le> length as \<and> (as \<noteq> [] \<longrightarrow> 1 \<le> n) \<and> frames_sent st' = frames_sent st + n"
proof (induction as arbitrary: st s l)
  case Nil
  then show ?case by (auto intro: exI [of _ 0])
next
  case (Cons a as)
  let ?st = "let st = st\<lparr>frames_sent := frames_sent st + 1\<rparr>
             in if a \<noteq> 0 then st\<lparr>retries := retries st + 1\<rparr> else st"
  obtain s1 r where ch: "ch s enc = (s1, r)" by fastforce
  have lch: "logged ch (s, l) enc = ((s1, l @ [enc]), r)" by (simp add: logged_def ch)
  have fs: "frames_sent ?st = frames_sent st + 1" by (simp add: Let_def)
  show ?case
  proof (cases "\<exists>resp ack. r = Some resp \<and> frame_decode scheme resp = Inr ack \<and> acks ack f")
    case True
    then have "st' = ?st\<lparr>frames_acked := frames_acked ?st + 1\<rparr>" "s' = s1" "ok"
      using Cons.prems by (auto simp: ch Let_def)
    with True fs show ?thesis by (intro exI [of _ 1]) (auto simp: lch Let_def)
  next
    case False
    then have step: "send_attempts scheme ch f enc (a # as) st s = send_attempts scheme ch f enc as ?st s1"
      "send_attempts scheme (logged ch) f enc (a # as) st (s, l)
         = send_attempts scheme (logged ch) f enc as ?st (s1, l @ [enc])"
      by (auto simp: ch lch Let_def split: option.splits sum.splits)
    from Cons.IH [OF Cons.prems [unfolded step], of "l @ [enc]"] obtain n where
      n: "send_attempts scheme (logged ch) f enc as ?st (s1, l @ [enc])
            = (st', (s', (l @ [enc]) @ replicate n enc), ok)"
        "n \<le> length as" "frames_sent st' = frames_sent ?st + n" by blast
    show ?thesis
      by (intro exI [of _ "Suc n"]) (use n fs in \<open>simp add: step del: send_attempts.simps\<close>)
  qed
qed

lemma send_frames_log:
  "send_frames p ch fs st s = (Inr st', s') \<Longrightarrow> 0 \<le> max_retries p \<Longrightarrow>
   \<exists>ns encs. send_frames p (logged ch) fs st (s, l) = (Inr st', (s', l @ concat (map2 replicate ns encs)))
     \<and> length ns = length encs \<and> length encs \<le> length fs
     \<and> map Inr encs = map (frame_encode (crc_scheme p)) (take (length encs) fs)
     \<and> (\<forall>n \<in> set ns. 1 \<le> n \<and> n \<le> nat (max_retries p + 1))
     \<and> frames_sent st' = frames_sent st + sum_list ns"
proof (induction fs arbitrary: st s l)
  case Nil
  then show ?case by (intro exI [of _ "[]"]) auto
next
  case (Cons f fs)
  let ?as = "[0..<nat (max_retries p + 1)]"
  obtain st1 s1 ok enc where e: "frame_encode (crc_scheme p) f = Inr enc"
    and a: "send_attempts (crc_scheme p) ch f enc ?as st s = (st1, s1, ok)"
    and rest: "if ok then send_frames p ch fs st1 s1 = (Inr st', s') else st' = st1 \<and> s' = s1"
    using send_frames_Cons [OF Cons.prems(1)] by metis
  obtain n where n: "send_attempts (crc_scheme p) (logged ch) f enc ?as st (s, l)
        = (st1, (s1, l @ replicate n enc), ok)"
      "n \<le> length ?as" "?as \<noteq> [] \<longrightarrow> 1 \<le> n" "frames_sent st1 = frames_sent st + n"
    using send_attempts_log [OF a, of l] by blast
  have bounds: "1 \<le> n" "n \<le> nat (max_retries p + 1)" using n(2,3) Cons.prems(2) by simp_all
  show ?case
  proof (cases ok)
    case True
    with rest have "send_frames p ch fs st1 s1 = (Inr st', s')" by simp
    from Cons.IH [OF this Cons.prems(2), of "l @ replicate n enc"] obtain ns encs where
      r: "send_frames p (logged ch) fs st1 (s1, l @ replicate n enc)
            = (Inr st', (s', (l @ replicate n enc) @ concat (map2 replicate ns encs)))"
         "length ns = length encs" "length encs \<le> length fs"
         "map Inr encs = map (frame_encode (crc_scheme p)) (take (length encs) fs)"
         "\<forall>n \<in> set ns. 1 \<le> n \<and> n \<le> nat (max_retries p + 1)"
         "frames_sent st' = frames_sent st1 + sum_list ns" by blast
    show ?thesis
      by (rule exI [of _ "n # ns"], rule exI [of _ "enc # encs"])
        (use r n(1,4) e True bounds in \<open>simp add: del: upt.simps\<close>)
  next
    case False
    show ?thesis
      by (rule exI [of _ "[n]"], rule exI [of _ "[enc]"])
        (use False rest n(1,4) e bounds in \<open>simp add: del: upt.simps\<close>)
  qed
qed

text \<open>
  C6: the retransmission loop is bounded frame by frame and its counters are exact. What
  \<open>send_message\<close> puts on the channel is an initial part of the message's encoded frames, in order,
  each repeated at least once and at most \<open>max_retries + 1\<close> times before the next; \<open>frames_sent\<close> is the number of
  these transmissions, delivery is reported exactly when every frame of the message was
  acknowledged, and every transmission is a retry, an acknowledged first attempt or the attempt at
  the frame it gave up on.
\<close>

theorem send_message_bounded:
  assumes "send_message payload mid p channel s = (Inr st, s')" and "0 \<le> max_retries p"
    and "fragment payload mid (max_frame_payload_bytes p) = Inr frames"
  shows "\<exists>ns encs. send_message payload mid p (logged channel) (s, [])
         = (Inr st, (s', concat (map2 replicate ns encs)))
     \<and> length ns = length encs \<and> length encs \<le> length frames
     \<and> map Inr encs = map (frame_encode (crc_scheme p)) (take (length encs) frames)
     \<and> (\<forall>n \<in> set ns. 1 \<le> n \<and> n \<le> nat (max_retries p + 1))
     \<and> frames_sent st = sum_list ns
     \<and> (delivered st \<longleftrightarrow> frames_acked st = length frames)
     \<and> frames_sent st = retries st + frames_acked st + (if delivered st then 0 else 1)"
proof -
  let ?st = "\<lparr>delivered = False, frames_sent = 0, frames_acked = 0, retries = 0\<rparr>"
  from assms(1) have run: "send_frames p channel frames ?st s = (Inr st, s')"
    by (simp add: send_message_def assms(3))
  obtain ns encs where "send_frames p (logged channel) frames ?st (s, [])
        = (Inr st, (s', [] @ concat (map2 replicate ns encs)))"
    "length ns = length encs" "length encs \<le> length frames"
    "map Inr encs = map (frame_encode (crc_scheme p)) (take (length encs) frames)"
    "\<forall>n \<in> set ns. 1 \<le> n \<and> n \<le> nat (max_retries p + 1)"
    "frames_sent st = frames_sent ?st + sum_list ns"
    using send_frames_log [OF run assms(2), of "[]"] by blast
  moreover have "(delivered st \<longleftrightarrow> frames_acked st = length frames)
     \<and> frames_sent st = retries st + frames_acked st + (if delivered st then 0 else 1)"
    using send_frames_stats [OF assms(2) run] by auto
  ultimately show ?thesis by (auto simp: send_message_def assms(3))
qed

theorem send_message_bounded_witness:
  "\<exists>st s' enc. send_message [7] 5 reference_bpsk (\<lambda>s enc. (s + 1 :: nat, None)) 0 = (Inr st, s')
     \<and> (\<exists>n. send_message [7] 5 reference_bpsk (logged (\<lambda>s enc. (s + 1, None))) (0, [])
              = (Inr st, (s', replicate n enc)) \<and> 1 \<le> n \<and> n \<le> 5)
     \<and> \<not> delivered st \<and> frames_sent st = retries st + 1"
proof -
  let ?r = "send_message [7] 5 reference_bpsk (\<lambda>s enc. (s + 1 :: nat, None)) 0"
  have fr: "fragment [7] 5 (max_frame_payload_bytes reference_bpsk)
      = Inr [\<lparr>fr_type = DATA, fr_msg_id = 5, fr_seq = 0, fr_total = 1, fr_payload = [7]\<rparr>]"
    by (simp add: fragment_def reference_bpsk_def chunks.simps Let_def)
  have run: "?r = (Inr \<lparr>delivered = False, frames_sent = 5, frames_acked = 0, retries = 4\<rparr>, 5)"
    unfolding send_message_def fr
    by (simp add: frame_encode_def crc_table_def reference_bpsk_def Let_def upt_rec)
  have mr: "0 \<le> max_retries reference_bpsk" "nat (max_retries reference_bpsk + 1) = 5"
    by (simp_all add: reference_bpsk_def)
  obtain ns encs where w: "send_message [7] 5 reference_bpsk (logged (\<lambda>s enc. (s + 1 :: nat, None))) (0, [])
        = (Inr \<lparr>delivered = False, frames_sent = 5, frames_acked = 0, retries = 4\<rparr>,
           (5, concat (map2 replicate ns encs)))"
      "length ns = length encs" "length encs \<le> Suc 0" "\<forall>n \<in> set ns. 1 \<le> n \<and> n \<le> 5"
      "5 = sum_list ns"
    using send_message_bounded [OF run mr(1) fr] unfolding mr(2) by auto
  obtain n enc where one: "ns = [n]" "encs = [enc]"
    using w(2,3,5) by (cases ns; cases encs; cases "tl ns") auto
  from w(1,4) run show ?thesis by (auto simp: one)
qed

end
