(* ===== verification/Envelope.thy ===== *)
theory Envelope
  imports Json
begin

text \<open>
  \<open>transport/envelope.py\<close> and \<open>transport/canonical.py\<close>: the canonical signed message envelope,
  its canonical bytes, signing and verification, and the recipient check. Ed25519 is a
  third-party package: \<open>sign\<close> and \<open>verify\<close> are parameters. \<open>fr\<close> is the float \<open>repr\<close> of the
  standard library.
\<close>

record message_envelope =
  env_protocol :: string
  env_protocol_version :: string
  env_message_id :: string
  env_conversation_id :: "string option"
  env_correlation_id :: "string option"
  env_causation_id :: "string option"
  env_reply_to_message_id :: "string option"
  env_sender_node_id :: string
  env_sender_fingerprint :: string
  env_recipient_node_id :: "string option"
  env_recipient_agent_id :: "string option"
  env_mesh_id :: "string option"
  env_authority_id :: "string option"
  env_kind :: string
  env_created_at :: string
  env_expires_at :: "string option"
  env_nonce :: string
  env_mission_id :: "string option"
  env_mission_run_id :: "string option"
  env_mission_step_id :: "string option"
  env_content_type :: string
  env_payload :: "(string \<times> json) list"
  env_signature :: "string option"

text \<open>\<open>model_dump(mode="json")\<close>.\<close>

definition model_dump :: "message_envelope \<Rightarrow> (string \<times> json) list" where
  "model_dump e =
     [(''protocol'', JStr (env_protocol e)), (''protocol_version'', JStr (env_protocol_version e)),
      (''message_id'', JStr (env_message_id e)),
      (''conversation_id'', json_opt_str (env_conversation_id e)),
      (''correlation_id'', json_opt_str (env_correlation_id e)),
      (''causation_id'', json_opt_str (env_causation_id e)),
      (''reply_to_message_id'', json_opt_str (env_reply_to_message_id e)),
      (''sender'', JObj [(''node_id'', JStr (env_sender_node_id e)),
                         (''fingerprint'', JStr (env_sender_fingerprint e))]),
      (''recipient'', JObj [(''node_id'', json_opt_str (env_recipient_node_id e)),
                            (''agent_id'', json_opt_str (env_recipient_agent_id e))]),
      (''mesh_id'', json_opt_str (env_mesh_id e)), (''authority_id'', json_opt_str (env_authority_id e)),
      (''kind'', JStr (env_kind e)), (''created_at'', JStr (env_created_at e)),
      (''expires_at'', json_opt_str (env_expires_at e)), (''nonce'', JStr (env_nonce e)),
      (''mission_id'', json_opt_str (env_mission_id e)),
      (''mission_run_id'', json_opt_str (env_mission_run_id e)),
      (''mission_step_id'', json_opt_str (env_mission_step_id e)),
      (''content_type'', JStr (env_content_type e)), (''payload'', JObj (env_payload e)),
      (''signature'', json_opt_str (env_signature e))]"

section \<open>Canonical bytes\<close>

text \<open>
  \<open>ensure_ascii=False\<close>: only the quote, the backslash and the control characters below 32
  are escaped; \<open>allow_nan=False\<close>: a float that is not finite raises.
\<close>

definition raw_escape :: "char \<Rightarrow> string" where
  "raw_escape c = (let n = (of_char c :: nat) in if n \<ge> 127 then [c] else json_escape c)"

definition raw_str :: "string \<Rightarrow> string" where
  "raw_str s = CHR 0x22 # concat (map raw_escape s) @ [CHR 0x22]"

fun canonical_dumps :: "(pyfloat \<Rightarrow> string) \<Rightarrow> json \<Rightarrow> string" where
  "canonical_dumps fr (JStr s) = raw_str s"
| "canonical_dumps fr (JList xs) = ''['' @ join_with '','' (map (canonical_dumps fr) xs) @ '']''"
| "canonical_dumps fr (JObj kvs) =
     ''{'' @ join_with '',''
       (map (\<lambda>(k, v). raw_str k @ '':'' @ v) (sort_key fst (map (\<lambda>(k, j). (k, canonical_dumps fr j)) kvs)))
     @ ''}''"
| "canonical_dumps fr j = dumps fr j"

fun all_finite :: "json \<Rightarrow> bool" where
  "all_finite (JFloat x) = (case x of Fin _ \<Rightarrow> True | _ \<Rightarrow> False)"
| "all_finite (JList xs) = list_all all_finite xs"
| "all_finite (JObj kvs) = list_all (\<lambda>(k, j). all_finite j) kvs"
| "all_finite _ = True"

definition canonical_bytes :: "(pyfloat \<Rightarrow> string) \<Rightarrow> (string \<times> json) list \<Rightarrow> bytes option" where
  "canonical_bytes fr obj =
     (let authenticated = filter (\<lambda>(k, v). k \<noteq> ''signature'') obj
      in if all_finite (JObj authenticated)
         then Some (utf8 (canonical_dumps fr (JObj authenticated))) else None)"

definition canonical_hash :: "(pyfloat \<Rightarrow> string) \<Rightarrow> (string \<times> json) list \<Rightarrow> string option" where
  "canonical_hash fr obj = map_option sha256_text (canonical_bytes fr obj)"

definition sign_envelope :: "(pyfloat \<Rightarrow> string) \<Rightarrow> (bytes \<Rightarrow> string) \<Rightarrow> message_envelope \<Rightarrow> message_envelope option" where
  "sign_envelope fr sign e =
     map_option (\<lambda>body. e\<lparr>env_signature := Some (sign body)\<rparr>) (canonical_bytes fr (model_dump e))"

definition verify_signature_with :: "(pyfloat \<Rightarrow> string) \<Rightarrow> (string \<Rightarrow> bytes \<Rightarrow> string \<Rightarrow> bool)
    \<Rightarrow> string \<Rightarrow> message_envelope \<Rightarrow> bool option" where
  "verify_signature_with fr verify public_key e =
     (case env_signature e of
        None \<Rightarrow> Some False
      | Some sig \<Rightarrow> if sig = [] then Some False
                    else map_option (\<lambda>body. verify public_key body sig) (canonical_bytes fr (model_dump e)))"

definition validate_recipient :: "message_envelope \<Rightarrow> string \<Rightarrow> bool" where
  "validate_recipient e local_node_id \<longleftrightarrow>
     (case env_recipient_node_id e of None \<Rightarrow> True | Some n \<Rightarrow> n = local_node_id)"

text \<open>
  The signing input does not depend on the signature already present, so what the signer
  hashed is what the verifier hashes.
\<close>

lemma canonical_bytes_signature:
  "canonical_bytes fr (model_dump (e\<lparr>env_signature := s\<rparr>)) = canonical_bytes fr (model_dump e)"
  by (simp add: canonical_bytes_def model_dump_def)

lemma sign_verify:
  assumes "sign_envelope fr sign e = Some e'" and "\<And>m. verify pk m (sign m)" and "\<And>m. sign m \<noteq> []"
  shows "verify_signature_with fr verify pk e' = Some True"
  using assms by (auto simp: sign_envelope_def verify_signature_with_def canonical_bytes_signature)


section \<open>Building an envelope\<close>

text \<open>
  A node's identity with its private key's signing operation; what \<open>build_envelope\<close> is given
  beyond it; and the values it draws from \<open>uuid4\<close> and the clock (the text of the
  expiry \<open>utcnow() + timedelta(seconds=s)\<close>, or None where that raises).
\<close>

record node_identity =
  ni_node_id :: string
  ni_node_name :: string
  ni_public_key :: string
  ni_fingerprint :: string
  ni_sign :: "bytes \<Rightarrow> string"

record envelope_request =
  er_recipient_node_id :: "string option"
  er_recipient_agent_id :: "string option"
  er_kind :: string
  er_payload :: "(string \<times> json) list"
  er_conversation_id :: "string option"
  er_correlation_id :: "string option"
  er_causation_id :: "string option"
  er_reply_to_message_id :: "string option"
  er_mission_id :: "string option"
  er_mission_run_id :: "string option"
  er_mission_step_id :: "string option"
  er_content_type :: string
  er_expires_in_seconds :: "pyfloat option"
  er_message_id :: "string option"
  er_mesh_id :: "string option"
  er_authority_id :: "string option"

record fresh_values =
  fv_uuid :: string
  fv_nonce :: string
  fv_created_at :: string
  fv_expiry :: "pyfloat \<Rightarrow> string option"

definition protocol_name :: string where "protocol_name = ''aithernet-agent''"
definition protocol_version_text :: string where "protocol_version_text = ''1''"

definition build_envelope :: "(pyfloat \<Rightarrow> string) \<Rightarrow> node_identity \<Rightarrow> fresh_values \<Rightarrow> envelope_request \<Rightarrow> message_envelope option" where
  "build_envelope fr ident fv rq =
     (case (case er_expires_in_seconds rq of None \<Rightarrow> Some None | Some s \<Rightarrow> map_option Some (fv_expiry fv s)) of
        None \<Rightarrow> None
      | Some expires \<Rightarrow>
          sign_envelope fr (ni_sign ident)
            \<lparr>env_protocol = protocol_name, env_protocol_version = protocol_version_text,
             env_message_id = (if truthy (er_message_id rq) then or_empty (er_message_id rq) else fv_uuid fv),
             env_conversation_id = er_conversation_id rq, env_correlation_id = er_correlation_id rq,
             env_causation_id = er_causation_id rq, env_reply_to_message_id = er_reply_to_message_id rq,
             env_sender_node_id = ni_node_id ident, env_sender_fingerprint = ni_fingerprint ident,
             env_recipient_node_id = er_recipient_node_id rq, env_recipient_agent_id = er_recipient_agent_id rq,
             env_mesh_id = er_mesh_id rq, env_authority_id = er_authority_id rq, env_kind = er_kind rq,
             env_created_at = fv_created_at fv, env_expires_at = expires, env_nonce = fv_nonce fv,
             env_mission_id = er_mission_id rq, env_mission_run_id = er_mission_run_id rq,
             env_mission_step_id = er_mission_step_id rq, env_content_type = er_content_type rq,
             env_payload = er_payload rq, env_signature = None\<rparr>)"

section \<open>Accepting an envelope\<close>

datatype envelope_error =
    NotAnObject | UnsupportedProtocol | UnsupportedVersion | MalformedEnvelope | MissingSignature
  | PayloadNotFinite | PayloadTooLarge | InvalidTimestamp | MissingCreatedAt | InvalidSkew
  | CreatedInFuture | EnvelopeExpired

definition json_get :: "string \<Rightarrow> (string \<times> json) list \<Rightarrow> json" where
  "json_get k kvs = (case map_of kvs k of None \<Rightarrow> JNull | Some j \<Rightarrow> j)"

text \<open>
  \<open>str(raw.get("protocol_version"))\<close> is \<open>"1"\<close> for the string and for the integer only.
  \<open>validate\<close> is pydantic's \<open>model_validate\<close>.
\<close>

definition supported_version :: "json \<Rightarrow> bool" where
  "supported_version j \<longleftrightarrow> j = JStr protocol_version_text \<or> j = JInt 1"

definition parse_envelope :: "(pyfloat \<Rightarrow> string) \<Rightarrow> ((string \<times> json) list \<Rightarrow> message_envelope option) \<Rightarrow> nat \<Rightarrow> json
    \<Rightarrow> envelope_error + message_envelope" where
  "parse_envelope fr validate max_payload raw =
     (case raw of
        JObj kvs \<Rightarrow>
          (if json_get ''protocol'' kvs \<noteq> JStr protocol_name then Inl UnsupportedProtocol
           else if \<not> supported_version (json_get ''protocol_version'' kvs) then Inl UnsupportedVersion
           else case validate kvs of
                  None \<Rightarrow> Inl MalformedEnvelope
                | Some e \<Rightarrow>
                    (if \<not> truthy (env_signature e) then Inl MissingSignature
                     else case canonical_bytes fr [(''payload'', JObj (env_payload e))] of
                            None \<Rightarrow> Inl PayloadNotFinite
                          | Some b \<Rightarrow> if max_payload < length b then Inl PayloadTooLarge else Inr e))
      | _ \<Rightarrow> Inl NotAnObject)"

text \<open>
  Timestamps in microseconds; \<open>fromiso\<close> is \<open>datetime.fromisoformat\<close> with a naive time read as UTC,
  None where it raises.
\<close>

definition parse_dt :: "(string \<Rightarrow> int option) \<Rightarrow> string option \<Rightarrow> envelope_error + int option" where
  "parse_dt fromiso v =
     (if truthy v then (case fromiso (or_empty v) of None \<Rightarrow> Inl InvalidTimestamp | Some t \<Rightarrow> Inr (Some t)) else Inr None)"

definition validate_timing :: "(string \<Rightarrow> int option) \<Rightarrow> message_envelope \<Rightarrow> pyfloat \<Rightarrow> int \<Rightarrow> envelope_error + unit" where
  "validate_timing fromiso e skew_seconds now =
     (case timedelta_us skew_seconds of
        None \<Rightarrow> Inl InvalidSkew
      | Some skew \<Rightarrow>
          rbind (parse_dt fromiso (Some (env_created_at e))) (\<lambda>created.
            case created of
              None \<Rightarrow> Inl MissingCreatedAt
            | Some c \<Rightarrow>
                (if now + skew < c then Inl CreatedInFuture
                 else rbind (parse_dt fromiso (env_expires_at e)) (\<lambda>expires.
                        case expires of
                          None \<Rightarrow> Inr ()
                        | Some x \<Rightarrow> if x + skew < now then Inl EnvelopeExpired else Inr ()))))"

definition is_expired :: "(string \<Rightarrow> int option) \<Rightarrow> string option \<Rightarrow> int \<Rightarrow> envelope_error + bool" where
  "is_expired fromiso expires_at now =
     rbind (parse_dt fromiso expires_at) (\<lambda>x. Inr (case x of None \<Rightarrow> False | Some t \<Rightarrow> t < now))"

lemma build_envelope_fields:
  assumes "build_envelope fr ident fv rq = Some e"
  shows "env_payload e = er_payload rq \<and> env_sender_node_id e = ni_node_id ident \<and>
    env_recipient_node_id e = er_recipient_node_id rq \<and> truthy (env_signature e) = (\<exists>m. env_signature e = Some (ni_sign ident m) \<and> ni_sign ident m \<noteq> [])"
  using assms by (auto simp: build_envelope_def sign_envelope_def truthy_def split: option.splits)

lemma sign_envelope_canonical:
  "sign_envelope fr sign e = Some e' \<Longrightarrow> canonical_bytes fr (model_dump e') \<noteq> None"
  by (auto simp: sign_envelope_def canonical_bytes_signature)

lemma build_envelope_canonical:
  "build_envelope fr ident fv rq = Some e \<Longrightarrow> canonical_bytes fr (model_dump e) \<noteq> None"
  using sign_envelope_canonical by (auto simp: build_envelope_def split: option.splits)

lemma build_envelope_verifies:
  assumes "build_envelope fr ident fv rq = Some e"
    and "\<And>m. verify (ni_public_key ident) m (ni_sign ident m)" "\<And>m. ni_sign ident m \<noteq> []"
  shows "verify_signature_with fr verify (ni_public_key ident) e = Some True"
  using assms sign_verify [of fr "ni_sign ident" _ e verify "ni_public_key ident"]
  by (auto simp: build_envelope_def split: option.splits)

text \<open>Once an envelope is refused as expired it stays refused, and an expired one is not sent.\<close>

lemma expired_stays_expired:
  assumes "validate_timing fromiso e skew now = Inl EnvelopeExpired" "now \<le> later"
  shows "validate_timing fromiso e skew later = Inl EnvelopeExpired"
  using assms by (auto simp: validate_timing_def parse_dt_def split: option.splits if_splits)

end
