(* ===== verification/OtaSecurity.thy ===== *)
theory OtaSecurity
  imports Envelope
begin

text \<open>
  \<open>transport/ota/security.py\<close>: the authenticated header, sealing and opening of an envelope, and
  the replay guard. ChaCha20-Poly1305 is a third-party package: \<open>encrypt key nonce plaintext aad\<close>
  and \<open>decrypt key nonce ciphertext aad\<close> (\<open>None\<close> when it raises) are parameters, as are the
  random nonce and the clock. \<open>parse\<close> is pydantic's validation of the decoded JSON.
\<close>

section \<open>The header and its associated data\<close>

record ota_header =
  protocol_version :: int
  sender_node_id :: string
  receiver_node_id :: string
  peer_key_id :: string
  message_id :: string
  correlation_id :: "string option"
  seq_no :: int
  timestamp :: int
  expiry :: int
  nonce_hex :: string
  payload_type :: string
  payload_length :: int
  payload_digest :: string
  transport_profile_id :: string

definition header_json :: "ota_header \<Rightarrow> json" where
  "header_json h = JObj [
     (''protocol_version'', JInt (protocol_version h)), (''sender_node_id'', JStr (sender_node_id h)),
     (''receiver_node_id'', JStr (receiver_node_id h)), (''peer_key_id'', JStr (peer_key_id h)),
     (''message_id'', JStr (message_id h)), (''correlation_id'', json_opt_str (correlation_id h)),
     (''sequence'', JInt (seq_no h)), (''timestamp'', JInt (timestamp h)), (''expiry'', JInt (expiry h)),
     (''nonce_hex'', JStr (nonce_hex h)), (''payload_type'', JStr (payload_type h)),
     (''payload_length'', JInt (payload_length h)), (''payload_digest'', JStr (payload_digest h)),
     (''transport_profile_id'', JStr (transport_profile_id h))]"

text \<open>No float occurs in a header, so the float \<open>repr\<close> is irrelevant.\<close>

definition no_floats :: "pyfloat \<Rightarrow> string" where
  "no_floats x = []"

definition aad :: "ota_header \<Rightarrow> bytes" where
  "aad h = utf8 (dumps no_floats (header_json h))"

datatype ota_error =
    KeyLength | BadExpiry | ReceiverMismatch | MessageExpired | PayloadLengthMismatch
  | ReplayedNonce | OutsideWindow | BadNonceHex | AuthenticationFailed | DigestMismatch | BadEnvelope

section \<open>The replay guard\<close>

record replay_guard =
  seen_nonce :: "string set"
  max_seq :: "string \<rightharpoonup> int"
  window :: int

definition new_guard :: "int \<Rightarrow> replay_guard" where
  "new_guard w = \<lparr>seen_nonce = {}, max_seq = Map.empty, window = w\<rparr>"

definition guard_check :: "replay_guard \<Rightarrow> ota_header \<Rightarrow> ota_error + unit" where
  "guard_check g h =
     (if nonce_hex h \<in> seen_nonce g then Inl ReplayedNonce
      else case max_seq g (sender_node_id h) of
             Some hi \<Rightarrow> if seq_no h \<le> hi - window g then Inl OutsideWindow else Inr ()
           | None \<Rightarrow> Inr ())"

definition guard_commit :: "replay_guard \<Rightarrow> ota_header \<Rightarrow> replay_guard" where
  "guard_commit g h =
     (let sender = sender_node_id h;
          hi = (case max_seq g sender of None \<Rightarrow> - 1 | Some m \<Rightarrow> m)
      in g\<lparr>seen_nonce := insert (nonce_hex h) (seen_nonce g),
           max_seq := (max_seq g)(sender \<mapsto> max hi (seq_no h))\<rparr>)"

section \<open>Sealing and opening\<close>

definition serialize_envelope :: "(pyfloat \<Rightarrow> string) \<Rightarrow> message_envelope \<Rightarrow> bytes" where
  "serialize_envelope fr e = utf8 (dumps fr (JObj (model_dump e)))"

text \<open>\<open>int(x)\<close> truncates; it raises for NaN and the infinities.\<close>

definition py_int :: "pyfloat \<Rightarrow> int option" where
  "py_int x = (case x of Fin q \<Rightarrow> Some (if 0 \<le> q then \<lfloor>q\<rfloor> else \<lceil>q\<rceil>) | _ \<Rightarrow> None)"

definition seal :: "(bytes \<Rightarrow> bytes \<Rightarrow> bytes \<Rightarrow> bytes \<Rightarrow> bytes) \<Rightarrow> (pyfloat \<Rightarrow> string) \<Rightarrow> message_envelope
    \<Rightarrow> bytes \<Rightarrow> string \<Rightarrow> string \<Rightarrow> string \<Rightarrow> int \<Rightarrow> string \<Rightarrow> pyfloat \<Rightarrow> int \<Rightarrow> bytes
    \<Rightarrow> ota_error + ota_header \<times> bytes" where
  "seal encrypt fr env key sender receiver peer_key sequence profile_id expiry_seconds ts nonce =
     (if length key \<noteq> 32 then Inl KeyLength
      else (let plaintext = serialize_envelope fr env; digest = sha256_text plaintext
            in case py_int expiry_seconds of
                 None \<Rightarrow> Inl BadExpiry
               | Some ttl \<Rightarrow>
                   (let header = \<lparr>protocol_version = 1, sender_node_id = sender, receiver_node_id = receiver,
                        peer_key_id = peer_key, message_id = env_message_id env,
                        correlation_id = env_correlation_id env, seq_no = sequence, timestamp = ts,
                        expiry = ts + ttl, nonce_hex = to_hex nonce, payload_type = ''peer_envelope'',
                        payload_length = 0, payload_digest = digest, transport_profile_id = profile_id\<rparr>;
                        ct = encrypt key nonce plaintext (aad header);
                        header = header\<lparr>payload_length := int (length ct)\<rparr>
                    in Inr (header, encrypt key nonce plaintext (aad header)))))"

text \<open>\<open>bytes.fromhex\<close>: white space between the bytes is skipped, upper and lower case digits are read.\<close>

definition hex_digit_val :: "char \<Rightarrow> nat option" where
  "hex_digit_val c = (let n = (of_char c :: nat) in
     if 48 \<le> n \<and> n \<le> 57 then Some (n - 48)
     else if 97 \<le> n \<and> n \<le> 102 then Some (n - 87)
     else if 65 \<le> n \<and> n \<le> 70 then Some (n - 55) else None)"

definition ascii_space :: "char \<Rightarrow> bool" where
  "ascii_space c \<longleftrightarrow> (let n = (of_char c :: nat) in n = 32 \<or> (9 \<le> n \<and> n \<le> 13))"

fun from_hex :: "string \<Rightarrow> bytes option" where
  "from_hex [] = Some []"
| "from_hex [c] = (if ascii_space c then Some [] else None)"
| "from_hex (c # d # r) =
     (if ascii_space c then from_hex (d # r)
      else case (hex_digit_val c, hex_digit_val d) of
             (Some h, Some l) \<Rightarrow> map_option ((#) (word_of_nat (16 * h + l))) (from_hex r)
           | _ \<Rightarrow> None)"

definition ct_eq :: "bytes \<Rightarrow> bytes \<Rightarrow> bool" where
  "ct_eq a b \<longleftrightarrow> sha256 a = sha256 b"

text \<open>
  The guard is optional; the new guard is returned beside the result, since it is committed
  before the decoded JSON is validated.
\<close>

definition open_sealed :: "(bytes \<Rightarrow> bytes \<Rightarrow> bytes \<Rightarrow> bytes \<Rightarrow> bytes option) \<Rightarrow> (bytes \<Rightarrow> message_envelope option)
    \<Rightarrow> ota_header \<Rightarrow> bytes \<Rightarrow> bytes \<Rightarrow> string \<Rightarrow> int \<Rightarrow> replay_guard option
    \<Rightarrow> replay_guard option \<times> (ota_error + message_envelope)" where
  "open_sealed decrypt parse header ciphertext key expected_receiver ts guard =
     (if length key \<noteq> 32 then (guard, Inl KeyLength)
      else if \<not> ct_eq (utf8 (receiver_node_id header)) (utf8 expected_receiver) then (guard, Inl ReceiverMismatch)
      else if ts > expiry header then (guard, Inl MessageExpired)
      else if payload_length header \<noteq> int (length ciphertext) then (guard, Inl PayloadLengthMismatch)
      else case (case guard of None \<Rightarrow> Inr () | Some g \<Rightarrow> guard_check g header) of
             Inl e \<Rightarrow> (guard, Inl e)
           | Inr _ \<Rightarrow>
               (case from_hex (nonce_hex header) of
                  None \<Rightarrow> (guard, Inl BadNonceHex)
                | Some nonce \<Rightarrow>
                    (case decrypt key nonce ciphertext (aad header) of
                       None \<Rightarrow> (guard, Inl AuthenticationFailed)
                     | Some plaintext \<Rightarrow>
                         if sha256_text plaintext \<noteq> payload_digest header then (guard, Inl DigestMismatch)
                         else (map_option (\<lambda>g. guard_commit g header) guard,
                               case parse plaintext of None \<Rightarrow> Inl BadEnvelope | Some env \<Rightarrow> Inr env))))"

section \<open>The associated data determines the header\<close>

lemma utf8_char_unique: "utf8_char c @ r = utf8_char d @ q \<Longrightarrow> c = d \<and> r = q"
proof -
  assume eq: "utf8_char c @ r = utf8_char d @ q"
  let ?n = "of_char c :: nat" and ?m = "of_char d :: nat"
  have b: "?n < 256" "?m < 256" by (simp_all add: char_byte_lt)
  have w: "(word_of_nat x :: byte) = word_of_nat y \<longleftrightarrow> x = y" if "x < 256" "y < 256" for x y
    using that by (simp add: word_of_nat_eq_iff take_bit_nat_def)
  have m: "?n div 64 < 4" "?m div 64 < 4" "?n mod 64 < 64" "?m mod 64 < 64" using b by linarith+
  have split64: "?n = ?m" if "?n div 64 = ?m div 64" "?n mod 64 = ?m mod 64"
    using that by (metis div_mult_mod_eq)
  have "?n = ?m \<and> r = q"
    using eq m b split64
    by (cases "?n < 128"; cases "?m < 128") (auto simp: utf8_char_def Let_def w simp del: of_nat_add)
  then show ?thesis by (metis char_of_char)
qed

lemma utf8_inj: "utf8 s = utf8 t \<Longrightarrow> s = t"
proof (induction s arbitrary: t)
  case Nil
  then show ?case by (cases t) (auto simp: utf8_def utf8_char_def Let_def split: if_splits)
next
  case (Cons c s)
  show ?case
  proof (cases t)
    case Nil
    with Cons.prems show ?thesis by (auto simp: utf8_def utf8_char_def Let_def split: if_splits)
  next
    case (Cons d t')
    with Cons.prems have "c = d \<and> utf8 s = utf8 t'" by (simp add: utf8_def utf8_char_unique)
    with Cons.IH Cons show ?thesis by simp
  qed
qed

lemma aad_text:
  "dumps no_floats (header_json h) =
     ''{'' @ join_with '','' [
       json_str ''correlation_id'' @ '':'' @ dumps no_floats (json_opt_str (correlation_id h)),
       json_str ''expiry'' @ '':'' @ int_repr (expiry h),
       json_str ''message_id'' @ '':'' @ json_str (message_id h),
       json_str ''nonce_hex'' @ '':'' @ json_str (nonce_hex h),
       json_str ''payload_digest'' @ '':'' @ json_str (payload_digest h),
       json_str ''payload_length'' @ '':'' @ int_repr (payload_length h),
       json_str ''payload_type'' @ '':'' @ json_str (payload_type h),
       json_str ''peer_key_id'' @ '':'' @ json_str (peer_key_id h),
       json_str ''protocol_version'' @ '':'' @ int_repr (protocol_version h),
       json_str ''receiver_node_id'' @ '':'' @ json_str (receiver_node_id h),
       json_str ''sender_node_id'' @ '':'' @ json_str (sender_node_id h),
       json_str ''sequence'' @ '':'' @ int_repr (seq_no h),
       json_str ''timestamp'' @ '':'' @ int_repr (timestamp h),
       json_str ''transport_profile_id'' @ '':'' @ json_str (transport_profile_id h)] @ ''}''"
  by (simp add: header_json_def)

lemma json_str_inj: "json_str s = json_str t \<Longrightarrow> s = t"
  using json_str_unique [of s "[]" t "[]"] by simp

lemma json_opt_unique:
  "dumps no_floats (json_opt_str a) @ r = dumps no_floats (json_opt_str b) @ q \<Longrightarrow> a = b \<and> r = q"
  by (cases a; cases b) (auto simp: json_opt_str_def dest: json_str_unique, simp_all add: json_str_def)

lemma int_repr_unique_comma:
  "int_repr i @ CHR '','' # r = int_repr j @ CHR '','' # q \<Longrightarrow> i = j \<and> r = q"
  using int_repr_unique [of i "CHR '','' # r" j "CHR '','' # q"] by (simp add: is_digit_def)

lemma aad_inj: "aad h = aad h' \<Longrightarrow> h = h'"
proof -
  assume "aad h = aad h'"
  then have "dumps no_floats (header_json h) = dumps no_floats (header_json h')"
    unfolding aad_def by (rule utf8_inj)
  then show ?thesis
    unfolding aad_text join_with.simps append_assoc append_Cons append_Nil
    by (auto dest!: json_opt_unique json_str_unique int_repr_unique_comma json_str_inj intro!: ota_header.equality)
qed

section \<open>Opening\<close>

lemmas open_sealed_splits = if_splits option.splits sum.splits

lemma open_sealed_Inr:
  assumes "open_sealed decrypt parse h ct key recv ts g = (g', Inr env)"
  obtains nonce plaintext where "length key = 32" "ct_eq (utf8 (receiver_node_id h)) (utf8 recv)"
    "ts \<le> expiry h" "payload_length h = int (length ct)" "from_hex (nonce_hex h) = Some nonce"
    "decrypt key nonce ct (aad h) = Some plaintext" "sha256_text plaintext = payload_digest h"
    "parse plaintext = Some env" "g' = map_option (\<lambda>g. guard_commit g h) g"
    "\<And>g0. g = Some g0 \<Longrightarrow> guard_check g0 h = Inr ()"
  using assms by (cases g) (auto simp: open_sealed_def split: open_sealed_splits)

lemma open_sealed_guard:
  "fst (open_sealed decrypt parse h ct key recv ts (Some g)) \<in> {Some g, Some (guard_commit g h)}"
  by (auto simp: open_sealed_def split: option.splits sum.splits)

lemma guard_check_ok:
  "guard_check g h = Inr () \<longleftrightarrow> nonce_hex h \<notin> seen_nonce g
     \<and> (\<forall>hi. max_seq g (sender_node_id h) = Some hi \<longrightarrow> hi - window g < seq_no h)"
  by (auto simp: guard_check_def split: option.splits)

lemma guard_commit_simps [simp]:
  "seen_nonce (guard_commit g h) = insert (nonce_hex h) (seen_nonce g)"
  "window (guard_commit g h) = window g"
  "max_seq (guard_commit g h) s =
     (if s = sender_node_id h
      then Some (max (case max_seq g s of None \<Rightarrow> - 1 | Some m \<Rightarrow> m) (seq_no h)) else max_seq g s)"
  by (auto simp: guard_commit_def Let_def)

text \<open>
  A receiver's whole history: it opens a sequence of arriving messages with one guard and
  keeps the headers of those it accepted.
\<close>

fun receive_all :: "(bytes \<Rightarrow> bytes \<Rightarrow> bytes \<Rightarrow> bytes \<Rightarrow> bytes option) \<Rightarrow> (bytes \<Rightarrow> message_envelope option)
    \<Rightarrow> bytes \<Rightarrow> string \<Rightarrow> replay_guard \<Rightarrow> (int \<times> ota_header \<times> bytes) list \<Rightarrow> ota_header list" where
  "receive_all decrypt parse key recv g [] = []"
| "receive_all decrypt parse key recv g ((ts, h, ct) # msgs) =
     (case open_sealed decrypt parse h ct key recv ts (Some g) of
        (g', r) \<Rightarrow> (if is_ok r then [h] else [])
          @ receive_all decrypt parse key recv (case g' of None \<Rightarrow> g | Some x \<Rightarrow> x) msgs)"

text \<open>The second header is fresh after the first: another nonce, and not below the sender's window.\<close>

definition fresh_after :: "int \<Rightarrow> ota_header \<Rightarrow> ota_header \<Rightarrow> bool" where
  "fresh_after w a b \<longleftrightarrow> nonce_hex b \<noteq> nonce_hex a
     \<and> (sender_node_id b = sender_node_id a \<longrightarrow> seq_no a - w < seq_no b)"

lemma receive_all_fresh:
  "(\<forall>h \<in> set (receive_all decrypt parse key recv g msgs). guard_check g h = Inr ())
   \<and> sorted_wrt (fresh_after (window g)) (receive_all decrypt parse key recv g msgs)"
proof (induction msgs arbitrary: g)
  case Nil
  then show ?case by simp
next
  case (Cons m msgs)
  obtain ts h ct where m: "m = (ts, h, ct)" by (cases m)
  obtain g' r where o: "open_sealed decrypt parse h ct key recv ts (Some g) = (g', r)" by fastforce
  have cases: "g' = Some g \<or> g' = Some (guard_commit g h)"
    using open_sealed_guard [of decrypt parse h ct key recv ts g] by (simp add: o)
  have earlier: "guard_check g x = Inr () \<and> fresh_after (window g) h x"
    if "guard_check (guard_commit g h) x = Inr ()" for x
    using that by (auto simp: guard_check_ok fresh_after_def split: option.splits if_splits)
  show ?case
  proof (cases "is_ok r")
    case True
    then obtain env where "r = Inr env" by (auto simp: is_ok_iff)
    with o have "open_sealed decrypt parse h ct key recv ts (Some g) = (g', Inr env)" by simp
    then have "g' = Some (guard_commit g h) \<and> guard_check g h = Inr ()"
      by (elim open_sealed_Inr) auto
    with True Cons.IH [of "guard_commit g h"] earlier show ?thesis by (auto simp: m o)
  next
    case False
    with cases Cons.IH [of g] Cons.IH [of "guard_commit g h"] earlier show ?thesis by (auto simp: m o)
  qed
qed

text \<open>
  C8: no replay is ever accepted. Whatever sequence of messages reaches a receiver, and whatever
  the cipher does, two accepted messages never carry the same nonce, and a message is never
  accepted when its sequence number is a full window behind one accepted before from its sender.
\<close>

theorem no_replay_accepted:
  "sorted_wrt (fresh_after w) (receive_all decrypt parse key recv (new_guard w) msgs)"
  using receive_all_fresh [of decrypt parse key recv "new_guard w"] by (simp add: new_guard_def)

section \<open>Sealing then opening\<close>

lemma from_hex_byte: "from_hex (to_hex (b # bs)) = map_option ((#) b) (from_hex (to_hex bs))"
proof -
  have d: "hex_digit_val (hex_digit n) = Some n \<and> \<not> ascii_space (hex_digit n)" if "n < 16" for n
    using that by (auto simp: hex_digit_def hex_digit_val_def ascii_space_def take_bit_nat_def)
  have "unat b < 256" using unsigned_less [of b] by simp
  then have "unat b div 16 < 16" "unat b mod 16 < 16" by linarith+
  note d [OF this(1)] d [OF this(2)]
  then show ?thesis by (simp add: to_hex_def)
qed

lemma from_hex_to_hex [simp]: "from_hex (to_hex bs) = Some bs"
  by (induction bs) (simp add: to_hex_def, simp add: from_hex_byte)

lemma seal_Inr:
  assumes "seal encrypt fr env key sender receiver peer seq profile ttl ts nonce = Inr (h, ct)"
  obtains ex where "length key = 32" "py_int ttl = Some ex" "nonce_hex h = to_hex nonce"
    "receiver_node_id h = receiver" "sender_node_id h = sender" "seq_no h = seq" "expiry h = ts + ex"
    "payload_digest h = sha256_text (serialize_envelope fr env)"
    "ct = encrypt key nonce (serialize_envelope fr env) (aad h)"
    "payload_length h = int (length (encrypt key nonce (serialize_envelope fr env) (aad (h\<lparr>payload_length := 0\<rparr>))))"
  using assms by (auto simp: seal_def Let_def split: if_splits option.splits)

text \<open>
  C9: what is sealed opens. For a cipher whose decryption inverts its encryption and whose
  ciphertext length does not depend on the associated data, a sealed envelope is accepted by
  its addressee before it expires, gives back the envelope, and uses up its nonce.
\<close>

theorem seal_open_roundtrip:
  assumes "seal encrypt fr env key sender receiver peer seq profile ttl ts nonce = Inr (h, ct)"
    and "\<And>p a. decrypt key nonce (encrypt key nonce p a) a = Some p"
    and "\<And>p a b. length (encrypt key nonce p a) = length (encrypt key nonce p b)"
    and "parse (serialize_envelope fr env) = Some env"
    and "now \<le> expiry h" and "guard_check g h = Inr ()"
  shows "open_sealed decrypt parse h ct key receiver now (Some g) = (Some (guard_commit g h), Inr env)"
proof -
  from assms(1) obtain ex where s: "length key = 32" "nonce_hex h = to_hex nonce"
    "receiver_node_id h = receiver" "payload_digest h = sha256_text (serialize_envelope fr env)"
    "ct = encrypt key nonce (serialize_envelope fr env) (aad h)"
    "payload_length h = int (length (encrypt key nonce (serialize_envelope fr env) (aad (h\<lparr>payload_length := 0\<rparr>))))"
    by (rule seal_Inr)
  have "payload_length h = int (length ct)" using s(5,6) assms(3) by metis
  then show ?thesis using s assms(2,4,5,6) by (simp add: open_sealed_def ct_eq_def)
qed

text \<open>An example envelope, and a toy cipher that appends a keyed tag over nonce, data and text.\<close>

definition demo_envelope :: message_envelope where
  "demo_envelope = \<lparr>env_protocol = ''aithernet-agent'', env_protocol_version = ''1'', env_message_id = ''m1'',
     env_conversation_id = None, env_correlation_id = Some ''c1'', env_causation_id = None,
     env_reply_to_message_id = None, env_sender_node_id = ''a'', env_sender_fingerprint = ''f'',
     env_recipient_node_id = Some ''b'', env_recipient_agent_id = None, env_mesh_id = None,
     env_authority_id = None, env_kind = ''ping'', env_created_at = ''2026-01-01T00:00:00+00:00'',
     env_expires_at = None, env_nonce = ''n1'', env_mission_id = None, env_mission_run_id = None,
     env_mission_step_id = None, env_content_type = ''application/json'', env_payload = [],
     env_signature = Some ''sig''\<rparr>"

definition demo_encrypt :: "bytes \<Rightarrow> bytes \<Rightarrow> bytes \<Rightarrow> bytes \<Rightarrow> bytes" where
  "demo_encrypt k n p a = p @ take 16 (hmac_sha256 k (n @ a @ p))"

definition demo_decrypt :: "bytes \<Rightarrow> bytes \<Rightarrow> bytes \<Rightarrow> bytes \<Rightarrow> bytes option" where
  "demo_decrypt k n c a = (let p = take (length c - 16) c in if c = demo_encrypt k n p a then Some p else None)"

lemma demo_cipher_laws:
  "demo_decrypt k n (demo_encrypt k n p a) a = Some p"
  "length (demo_encrypt k n p a) = length (demo_encrypt k n p b)"
  by (simp_all add: demo_decrypt_def demo_encrypt_def Let_def)

lemma demo_seal:
  "\<exists>h ct. seal encrypt fr demo_envelope (replicate 32 0) ''a'' ''b'' ''k'' 1 ''ref-bpsk-1k'' (Fin 30) 1000
     (replicate 12 0) = Inr (h, ct) \<and> expiry h = 1030 \<and> sender_node_id h = ''a'' \<and> timestamp h = 1000"
  by (simp add: seal_def Let_def py_int_def)

theorem seal_open_roundtrip_witness:
  "\<exists>h ct g. seal demo_encrypt no_floats demo_envelope (replicate 32 0) ''a'' ''b'' ''k'' 1 ''ref-bpsk-1k''
       (Fin 30) 1000 (replicate 12 0) = Inr (h, ct)
     \<and> open_sealed demo_decrypt (\<lambda>_. Some demo_envelope) h ct (replicate 32 0) ''b'' 1010 (Some (new_guard 256))
         = (Some g, Inr demo_envelope)"
proof -
  obtain h ct where s: "seal demo_encrypt no_floats demo_envelope (replicate 32 0) ''a'' ''b'' ''k'' 1
      ''ref-bpsk-1k'' (Fin 30) 1000 (replicate 12 0) = Inr (h, ct)" and e: "expiry h = 1030"
    using demo_seal by metis
  have "open_sealed demo_decrypt (\<lambda>_. Some demo_envelope) h ct (replicate 32 0) ''b'' 1010 (Some (new_guard 256))
      = (Some (guard_commit (new_guard 256) h), Inr demo_envelope)"
    by (rule seal_open_roundtrip [OF s])
      (rule demo_cipher_laws, rule demo_cipher_laws, simp_all add: e new_guard_def guard_check_def)
  with s show ?thesis by blast
qed

text \<open>
  Every header field is bound. When \<open>open_sealed\<close> accepts a header and ciphertext other than one
  sealed pair, the cipher itself has accepted associated data and a ciphertext other than what sealing gave it.
\<close>

theorem tampering_is_forgery:
  assumes "seal encrypt fr env key sender receiver peer seq profile ttl ts nonce = Inr (h, ct)"
    and "open_sealed decrypt parse h' ct' key recv now g = (g', Inr env')"
    and "(h', ct') \<noteq> (h, ct)"
  shows "\<exists>n plaintext. decrypt key n ct' (aad h') = Some plaintext
     \<and> (aad h', ct') \<noteq> (aad h, encrypt key nonce (serialize_envelope fr env) (aad h))"
proof -
  from assms(1) have ct: "ct = encrypt key nonce (serialize_envelope fr env) (aad h)"
    by (rule seal_Inr)
  from assms(2) obtain n plaintext where "decrypt key n ct' (aad h') = Some plaintext"
    by (rule open_sealed_Inr)
  with assms(3) ct aad_inj [of h' h] show ?thesis by blast
qed

theorem tampering_is_forgery_witness:
  "\<exists>h ct. seal (\<lambda>k n p a. p) no_floats demo_envelope (replicate 32 0) ''a'' ''b'' ''k'' 1 ''ref-bpsk-1k''
       (Fin 30) 1000 (replicate 12 0) = Inr (h, ct)
     \<and> (aad (h\<lparr>timestamp := 7\<rparr>), ct) \<noteq> (aad h, serialize_envelope no_floats demo_envelope)"
proof -
  obtain h ct where s: "seal (\<lambda>k n p a. p) no_floats demo_envelope (replicate 32 0) ''a'' ''b'' ''k'' 1
      ''ref-bpsk-1k'' (Fin 30) 1000 (replicate 12 0) = Inr (h, ct)" and e: "expiry h = 1030" "timestamp h = 1000"
    using demo_seal by metis
  let ?h = "h\<lparr>timestamp := 7\<rparr>"
  have "open_sealed (\<lambda>k n c a. Some c) (\<lambda>_. Some demo_envelope) ?h ct (replicate 32 0) ''b'' 1010 None
      = (None, Inr demo_envelope)"
    using s by (rule seal_Inr) (simp add: open_sealed_def ct_eq_def e)
  moreover have "timestamp ?h \<noteq> timestamp h" by (simp add: e)
  then have "(?h, ct) \<noteq> (h, ct)" by (metis prod.inject)
  ultimately have "(aad ?h, ct) \<noteq> (aad h, serialize_envelope no_floats demo_envelope)"
    using tampering_is_forgery [OF s] by blast
  with s show ?thesis by blast
qed

end
