(* ===== verification/SimLink.thy ===== *)
theory SimLink
  imports Arq OtaSecurity
begin

text \<open>
  \<open>transport/ota/simulated_rf.py\<close> (and the receipt of \<open>interface.py\<close>): two paired endpoints
  that exchange sealed envelopes over the simulated radio. \<open>radio\<close> stands for
  \<open>demodulate(apply_channel(modulate(x)))\<close>, the floating-point signal chain.
  \<open>load_header\<close> is \<open>OTASecurityHeader(**json.loads(x))\<close>.
\<close>

section \<open>The frame channel of one transmission\<close>

record link_state =
  lk_receiver :: receiver
  lk_received :: "bytes list"

definition sim_channel :: "(bytes \<Rightarrow> bytes) \<Rightarrow> link_state \<Rightarrow> bytes \<Rightarrow> link_state \<times> bytes option" where
  "sim_channel radio ls encoded =
     (case on_frame (lk_receiver ls) (radio encoded) of
        (rx, Inl _) \<Rightarrow> (ls\<lparr>lk_receiver := rx\<rparr>, None)
      | (rx, Inr (ack, msg)) \<Rightarrow>
          (\<lparr>lk_receiver = rx,
            lk_received = (case msg of None \<Rightarrow> lk_received ls | Some m \<Rightarrow> lk_received ls @ [m])\<rparr>, ack))"

definition new_link :: "rf_profile \<Rightarrow> link_state" where
  "new_link p = \<lparr>lk_receiver = new_receiver p, lk_received = []\<rparr>"

text \<open>A radio whose errors the frame CRC catches: what decodes is what was sent.\<close>

definition crc_catches :: "string \<Rightarrow> (bytes \<Rightarrow> bytes) \<Rightarrow> bool" where
  "crc_catches scheme radio \<longleftrightarrow> (\<forall>f enc g. frame_encode scheme f = Inr enc \<longrightarrow>
     frame_decode scheme (radio enc) = Inr g \<longrightarrow> g = wire_frame f)"

section \<open>The receiver holds what it acknowledged\<close>

definition stored_frame :: "link_state \<Rightarrow> frame \<Rightarrow> bool" where
  "stored_frame ls f \<longleftrightarrow>
     (\<exists>st. messages (lk_receiver ls) (fr_msg_id f) = Some st \<and> (fr_seq f, f) \<in> set (by_seq st))"

text \<open>The fragments of one message as they appear on the wire.\<close>

definition message_frames :: "frame list \<Rightarrow> bool" where
  "message_frames fs \<longleftrightarrow> complete_message fs \<and>
     (\<forall>f \<in> set fs. fr_type f = DATA \<and> fr_msg_id f = fr_msg_id (hd fs) \<and> wire_frame f = f)"

definition holds_part :: "frame list \<Rightarrow> frame list \<Rightarrow> link_state \<Rightarrow> bool" where
  "holds_part fs gs ls \<longleftrightarrow> distinct gs \<and> set gs \<subseteq> set fs \<and>
     (case messages (lk_receiver ls) (fr_msg_id (hd fs)) of
        None \<Rightarrow> gs = []
      | Some st \<Rightarrow> ra_total st = int (length fs) \<and> by_seq st = map (\<lambda>f. (fr_seq f, f)) gs) \<and>
     completed (lk_receiver ls) (fr_msg_id (hd fs)) =
       (if length gs = length fs then Some (concat (map fr_payload fs)) else None) \<and>
     lk_received ls = (if length gs = length fs then [concat (map fr_payload fs)] else [])"

definition link_inv :: "rf_profile \<times> (bytes \<Rightarrow> bytes) \<Rightarrow> frame list \<Rightarrow> link_state \<Rightarrow> bool" where
  "link_inv pr fs ls \<longleftrightarrow> crc_catches (crc_scheme (fst pr)) (snd pr) \<and> rcv_profile (lk_receiver ls) = fst pr \<and>
     message_frames fs \<and> (\<exists>gs. holds_part fs gs ls)"

lemma complete_message_seqs:
  assumes "complete_message fs"
  shows "distinct (map fr_seq fs)" and "distinct fs" and "inj_on fr_seq (set fs)" and "fs \<noteq> []"
    and "\<And>f. f \<in> set fs \<Longrightarrow> fr_total f = int (length fs)"
proof -
  show d: "distinct (map fr_seq fs)" using assms by (simp add: complete_message_def)
  then show "distinct fs" "inj_on fr_seq (set fs)" by (simp_all add: distinct_map)
qed (use assms in \<open>auto simp: complete_message_def list_all_iff\<close>)

lemma ack_encodes:
  assumes "frame_decode scheme raw = Inr f" and "fr_payload a = []"
  shows "\<exists>enc. frame_encode scheme a = Inr enc"
proof (cases "crc_table scheme")
  case None
  with assms show ?thesis by (simp add: frame_decode_def)
next
  case (Some c)
  with assms(2) show ?thesis by (cases c) (simp add: frame_encode_def Let_def)
qed

text \<open>One fragment of the message arriving intact.\<close>

lemma on_frame_fragment:
  assumes mf: "message_frames fs" and part: "holds_part fs gs ls" and f: "f \<in> set fs"
    and dec: "frame_decode (crc_scheme (rcv_profile (lk_receiver ls))) (radio enc) = Inr f"
    and run: "sim_channel radio ls enc = (ls', r)"
  shows "holds_part fs (if f \<in> set gs then gs else gs @ [f]) ls'
     \<and> rcv_profile (lk_receiver ls') = rcv_profile (lk_receiver ls)
     \<and> (\<exists>resp a. r = Some resp \<and> frame_decode (crc_scheme (rcv_profile (lk_receiver ls))) resp = Inr a \<and> acks a f)"
proof -
  let ?r = "lk_receiver ls" and ?mid = "fr_msg_id (hd fs)" and ?n = "length fs"
  let ?gs = "if f \<in> set gs then gs else gs @ [f]"
  have cm: "complete_message fs" and dat: "fr_type f = DATA" and mid: "fr_msg_id f = ?mid"
    using mf f by (auto simp: message_frames_def)
  note seqs = complete_message_seqs [OF cm]
  have gs: "distinct gs" "set gs \<subseteq> set fs" using part by (auto simp: holds_part_def)
  have key: "fr_seq f \<in> fr_seq ` set gs \<longleftrightarrow> f \<in> set gs"
    using seqs(3) gs(2) f by (auto simp: inj_on_def)
  define st0 where "st0 = (case messages ?r ?mid of None \<Rightarrow> \<lparr>ra_total = fr_total f, by_seq = []\<rparr> | Some st \<Rightarrow> st)"
  have st0: "ra_total st0 = int ?n" "by_seq st0 = map (\<lambda>f. (fr_seq f, f)) gs"
    using part seqs(5) [OF f] by (auto simp: holds_part_def st0_def split: option.splits)
  define st where "st = snd (reassembly_add f st0)"
  have st: "ra_total st = int ?n" "by_seq st = map (\<lambda>f. (fr_seq f, f)) ?gs"
    using st0 key by (auto simp: st_def reassembly_add_def image_image)
  have gs': "distinct ?gs" "set ?gs \<subseteq> set fs" using gs f by auto
  have len: "length ?gs \<le> ?n"
    using gs' seqs(2) by (metis distinct_card card_mono List.finite_set)
  have full: "reassemble (map snd (by_seq st)) = Inr (concat (map fr_payload fs))" if "length ?gs = ?n"
  proof -
    have "set ?gs = set fs"
      using gs' seqs(2) that by (metis List.finite_set card_subset_eq distinct_card)
    then have "mset fs = mset ?gs" using gs'(1) seqs(2) by (metis set_eq_iff_mset_eq_distinct)
    moreover have "data_frames ?gs = ?gs"
      using gs'(2) mf unfolding data_frames_def message_frames_def by (intro filter_True) blast
    ultimately have "mset fs = mset (data_frames ?gs)" by simp
    then have "reassemble ?gs = Inr (concat (map fr_payload fs))"
      using reassemble_complete [OF cm, of ?gs] by simp
    then show ?thesis by (simp add: st(2) comp_def)
  qed
  obtain ack where ack: "frame_encode (crc_scheme (rcv_profile ?r)) \<lparr>fr_type = ACK, fr_msg_id = ?mid,
      fr_seq = fr_seq f, fr_total = fr_total f, fr_payload = []\<rparr> = Inr ack"
    using ack_encodes [OF dec, of "\<lparr>fr_type = ACK, fr_msg_id = ?mid, fr_seq = fr_seq f,
        fr_total = fr_total f, fr_payload = []\<rparr>"] by auto
  have "wire_frame f = f" using mf f by (auto simp: message_frames_def)
  then have keep: "fr_msg_id f mod 2 ^ 64 = fr_msg_id f" "fr_seq f mod 2 ^ 16 = fr_seq f"
    by (metis wire_frame_def frame.select_convs(2,3) frame.update_convs(2-4) frame.surjective)+
  have "\<exists>a. frame_decode (crc_scheme (rcv_profile ?r)) ack = Inr a \<and> acks a f"
    using frame_decode_encoded [OF ack, of "[]"] keep mid by (simp add: wire_frame_def acks_def)
  note acked = this
  have on: "on_frame ?r (radio enc) =
     (let r1 = ?r\<lparr>messages := (messages ?r)(?mid \<mapsto> st)\<rparr>
      in if completed ?r ?mid \<noteq> None then (r1, Inr (Some ack, None))
         else if length ?gs = ?n then
           (r1\<lparr>completed := (completed ?r)(?mid \<mapsto> concat (map fr_payload fs))\<rparr>,
            Inr (Some ack, Some (concat (map fr_payload fs))))
         else (r1, Inr (Some ack, None)))"
    using full st
    by (simp add: on_frame_def dec dat mid Let_def ack st0_def [symmetric] st_def [symmetric]
        reassembly_full_def)
  have fin: "completed ?r ?mid = (if length gs = ?n then Some (concat (map fr_payload fs)) else None)"
    "lk_received ls = (if length gs = ?n then [concat (map fr_payload fs)] else [])"
    using part by (auto simp: holds_part_def)
  have was_full: "?gs = gs" if "length gs = ?n" using that len by (auto split: if_splits)
  show ?thesis
    using run gs' st fin was_full acked
    by (auto simp: sim_channel_def on holds_part_def Let_def split: if_splits)
qed

lemma sim_channel_inv:
  assumes inv: "link_inv pr fs ls" and f: "f \<in> set fs"
    and enc: "frame_encode (crc_scheme (fst pr)) f = Inr enc" and run: "sim_channel (snd pr) ls enc = (ls', r)"
  shows "link_inv pr fs ls' \<and> (\<forall>g. stored_frame ls g \<longrightarrow> stored_frame ls' g)
     \<and> (r \<noteq> None \<longrightarrow> stored_frame ls' f)"
proof -
  obtain gs where part: "holds_part fs gs ls" and mf: "message_frames fs"
    and prof: "rcv_profile (lk_receiver ls) = fst pr"
    and cc: "crc_catches (crc_scheme (fst pr)) (snd pr)"
    using inv by (auto simp: link_inv_def)
  show ?thesis
  proof (cases "frame_decode (crc_scheme (fst pr)) (snd pr enc)")
    case (Inl e)
    then have "ls' = ls \<and> r = None" using run by (auto simp: sim_channel_def on_frame_def prof)
    with inv show ?thesis by simp
  next
    case (Inr g)
    have "g = f" using cc enc Inr mf f by (metis crc_catches_def message_frames_def)
    with Inr have dec: "frame_decode (crc_scheme (rcv_profile (lk_receiver ls))) (snd pr enc) = Inr f"
      by (simp add: prof)
    let ?gs = "if f \<in> set gs then gs else gs @ [f]"
    have part': "holds_part fs ?gs ls'" and prof': "rcv_profile (lk_receiver ls') = fst pr"
      using on_frame_fragment [OF mf part f dec run] prof by auto
    have mid: "fr_msg_id f = fr_msg_id (hd fs)" using mf f by (auto simp: message_frames_def)
    have "f \<in> set ?gs" by simp
    then have "stored_frame ls' f" using part' mid
      by (auto simp: holds_part_def stored_frame_def split: option.splits)
    moreover have "stored_frame ls' g" if "stored_frame ls g" for g
    proof (cases "fr_msg_id g = fr_msg_id (hd fs)")
      case True
      with that part have "g \<in> set gs"
        by (auto simp: holds_part_def stored_frame_def split: option.splits)
      with part' True show ?thesis
        by (auto simp: holds_part_def stored_frame_def split: option.splits if_splits)
    next
      case False
      have "messages (lk_receiver ls') (fr_msg_id g) = messages (lk_receiver ls) (fr_msg_id g)"
        using run False mid dec
        by (auto simp: sim_channel_def on_frame_def Let_def split: sum.splits prod.splits if_splits)
      with that show ?thesis by (simp add: stored_frame_def)
    qed
    ultimately show ?thesis using part' prof' mf cc by (auto simp: link_inv_def)
  qed
qed

interpretation simlink: frame_channel "\<lambda>pr. crc_scheme (fst pr)" "\<lambda>pr. sim_channel (snd pr)" link_inv stored_frame
  by unfold_locales (blast dest: sim_channel_inv)+

lemma fragments_on_wire:
  assumes "fragment payload mid m = Inr fs" and "0 \<le> mid" "mid < 2 ^ 64" and "length fs < 2 ^ 16"
  shows "message_frames fs" and "fr_msg_id (hd fs) = mid" and "concat (map fr_payload fs) = payload"
proof -
  note fi = fragment_Inr [OF assms(1)]
  show mid: "fr_msg_id (hd fs) = mid" using fi by simp
  show "concat (map fr_payload fs) = payload" by (rule fi)
  have "fr_seq f \<in> set (py_range (int (length fs)))" if "f \<in> set fs" for f
    using that fi(5) by (metis image_eqI set_map)
  then have seqs: "0 \<le> fr_seq f \<and> fr_seq f < 2 ^ 16" if "f \<in> set fs" for f
    using that assms(4) by fastforce
  have "wire_frame f = f" if "f \<in> set fs" for f
    using that seqs [OF that] fi(3,4) assms by (auto simp: wire_frame_def)
  then show "message_frames fs"
    using fi(3) mid fragment_complete [OF assms(1)] by (auto simp: message_frames_def)
qed

lemma all_stored:
  assumes "link_inv pr fs ls" and "\<forall>f \<in> set fs. stored_frame ls f"
  shows "lk_received ls = [concat (map fr_payload fs)]
     \<and> completed (lk_receiver ls) (fr_msg_id (hd fs)) = Some (concat (map fr_payload fs))"
proof -
  from assms(1) obtain gs where gs: "holds_part fs gs ls" and mf: "message_frames fs" by (auto simp: link_inv_def)
  have "fr_msg_id f = fr_msg_id (hd fs)" if "f \<in> set fs" for f
    using that mf by (auto simp: message_frames_def)
  with assms(2) gs have "set fs \<subseteq> set gs"
    by (fastforce simp: stored_frame_def holds_part_def split: option.splits)
  then have "length gs = length fs"
    using gs complete_message_seqs(2) mf
    by (metis distinct_card holds_part_def message_frames_def subset_antisym)
  with gs show ?thesis by (simp add: holds_part_def)
qed

lemma delivered_received:
  assumes "send_message payload mid p (sim_channel radio) (new_link p) = (Inr st, ls)" and "delivered st"
    and "crc_catches (crc_scheme p) radio" and "fragment payload mid (max_frame_payload_bytes p) = Inr fs"
    and "0 \<le> mid" "mid < 2 ^ 64" "length fs < 2 ^ 16"
  shows "lk_received ls = [payload] \<and> completed (lk_receiver ls) mid = Some payload"
proof -
  note w = fragments_on_wire [OF assms(4-7)]
  have "fs \<noteq> []" using fragment_Inr [OF assms(4)] by simp
  then have "holds_part fs [] (new_link p)" by (simp add: holds_part_def new_link_def new_receiver_def)
  then have "link_inv (p, radio) fs (new_link p)"
    using assms(3) w(1) by (auto simp: link_inv_def new_link_def new_receiver_def)
  from simlink.message_stored [of payload mid p "(p, radio)", OF _ assms(4) this] assms(1,2)
  have "link_inv (p, radio) fs ls" and "\<forall>f \<in> set fs. stored_frame ls f" by simp_all
  from all_stored [OF this] w show ?thesis by simp
qed

text \<open>
  C7: an acknowledged message has arrived. If every corruption the radio causes is caught by the
  frame CRC, then a send that reports delivery has made the receiver reassemble exactly the
  payload, and hand it over exactly once.
\<close>

theorem delivered_is_received:
  assumes "send_message payload mid p (sim_channel radio) (new_link p) = (Inr st, ls)" and "delivered st"
    and "crc_catches (crc_scheme p) radio" and "fragment payload mid (max_frame_payload_bytes p) = Inr fs"
    and "0 \<le> mid" "mid < 2 ^ 64" "length fs < 2 ^ 16"
  shows "lk_received ls = [payload] \<and> completed (lk_receiver ls) mid = Some payload"
  using assms by (rule delivered_received)

lemma perfect_radio: "crc_catches scheme (\<lambda>x. x)"
  using frame_decode_encoded [of scheme _ _ "[]"] by (simp add: crc_catches_def)

lemma demo_fragment:
  "fragment [7, 8] 5 (max_frame_payload_bytes reference_bpsk)
     = Inr [\<lparr>fr_type = DATA, fr_msg_id = 5, fr_seq = 0, fr_total = 1, fr_payload = [7, 8]\<rparr>]"
  by (simp add: fragment_def reference_bpsk_def chunks.simps Let_def)

lemma demo_send:
  "fst (send_message [7, 8] 5 reference_bpsk (sim_channel (\<lambda>x. x)) (new_link reference_bpsk))
     = Inr \<lparr>delivered = True, frames_sent = 1, frames_acked = 1, retries = 0\<rparr>"
proof -
  let ?f = "\<lparr>fr_type = DATA, fr_msg_id = 5, fr_seq = 0, fr_total = 1, fr_payload = [7, 8]\<rparr>"
  let ?a = "\<lparr>fr_type = ACK, fr_msg_id = 5, fr_seq = 0, fr_total = 1, fr_payload = []\<rparr>"
  have scheme: "crc_scheme reference_bpsk = ''crc16''" "max_retries reference_bpsk = 4"
    by (simp_all add: reference_bpsk_def)
  obtain enc where enc: "frame_encode ''crc16'' ?f = Inr enc"
    by (simp add: frame_encode_def crc_table_def Let_def)
  obtain ack where ack: "frame_encode ''crc16'' ?a = Inr ack"
    by (simp add: frame_encode_def crc_table_def Let_def)
  have dec: "frame_decode ''crc16'' enc = Inr ?f" "frame_decode ''crc16'' ack = Inr ?a"
    using frame_decode_encoded [OF enc, of "[]"] frame_decode_encoded [OF ack, of "[]"]
    by (simp_all add: wire_frame_def)
  have re: "reassemble [?f] = Inr [7, 8]"
    by (simp add: reassemble_def py_range_def Let_def)
  have on: "on_frame (new_receiver reference_bpsk) enc =
      (\<lparr>rcv_profile = reference_bpsk, messages = [5 \<mapsto> \<lparr>ra_total = 1, by_seq = [(0, ?f)]\<rparr>],
        completed = [5 \<mapsto> [7, 8]]\<rparr>, Inr (Some ack, Some [7, 8]))"
    by (simp add: on_frame_def new_receiver_def scheme dec(1) ack re reassembly_add_def reassembly_full_def)
  show ?thesis
    unfolding send_message_def demo_fragment
    by (simp add: scheme enc on dec(2) sim_channel_def new_link_def acks_def upt_rec)
qed

theorem delivered_is_received_witness:
  "\<exists>st ls. send_message [7, 8] 5 reference_bpsk (sim_channel (\<lambda>x. x)) (new_link reference_bpsk) = (Inr st, ls)
     \<and> delivered st \<and> lk_received ls = [[7, 8]]"
proof -
  obtain r ls where s: "send_message [7, 8] 5 reference_bpsk (sim_channel (\<lambda>x. x)) (new_link reference_bpsk) = (r, ls)"
    by fastforce
  with demo_send have r: "r = Inr \<lparr>delivered = True, frames_sent = 1, frames_acked = 1, retries = 0\<rparr>" by simp
  have "lk_received ls = [[7, 8]] \<and> completed (lk_receiver ls) 5 = Some [7, 8]"
    by (rule delivered_is_received [OF s [unfolded r] _ perfect_radio demo_fragment]) simp_all
  with s r show ?thesis by auto
qed

section \<open>A radio without errors\<close>

definition lossless :: "string \<Rightarrow> (bytes \<Rightarrow> bytes) \<Rightarrow> bool" where
  "lossless scheme radio \<longleftrightarrow> (\<forall>f enc. frame_encode scheme f = Inr enc \<longrightarrow>
     frame_decode scheme (radio enc) = Inr (wire_frame f))"

lemma lossless_catches: "lossless scheme radio \<Longrightarrow> crc_catches scheme radio"
  by (auto simp: lossless_def crc_catches_def)

lemma perfect_lossless: "lossless scheme (\<lambda>x. x)"
  using frame_decode_encoded [of scheme _ _ "[]"] by (simp add: lossless_def)

lemma lossless_frames:
  assumes "lossless (crc_scheme p) radio" and "0 \<le> max_retries p" and "crc_table (crc_scheme p) \<noteq> None"
    and "\<forall>f \<in> set fs. length (fr_payload f) \<le> 0xFFFF"
  shows "set gs \<subseteq> set fs \<Longrightarrow> link_inv (p, radio) fs ls \<Longrightarrow>
    \<exists>st' ls'. send_frames p (sim_channel radio) gs st ls = (Inr st', ls') \<and> delivered st'
      \<and> retries st' = retries st"
proof (induction gs arbitrary: st ls)
  case Nil
  then show ?case by auto
next
  case (Cons f gs)
  have f: "f \<in> set fs" using Cons.prems(1) by simp
  then obtain enc where enc: "frame_encode (crc_scheme p) f = Inr enc"
    using assms(3,4) by (auto simp: frame_encode_Inr)
  obtain ls1 r where c: "sim_channel radio ls enc = (ls1, r)" by fastforce
  obtain hs where part: "holds_part fs hs ls" and mf: "message_frames fs" and prof: "rcv_profile (lk_receiver ls) = p"
    using Cons.prems(2) by (auto simp: link_inv_def)
  have "frame_decode (crc_scheme (rcv_profile (lk_receiver ls))) (radio enc) = Inr f"
    using assms(1) enc mf f unfolding prof lossless_def message_frames_def by metis
  from on_frame_fragment [OF mf part f this c]
  obtain resp a where r: "r = Some resp" "frame_decode (crc_scheme p) resp = Inr a" "acks a f"
    by (auto simp: prof)
  have inv1: "link_inv (p, radio) fs ls1" using sim_channel_inv [OF Cons.prems(2) f] enc c by auto
  let ?st = "st\<lparr>frames_sent := frames_sent st + 1, frames_acked := frames_acked st + 1\<rparr>"
  have "send_attempts (crc_scheme p) (sim_channel radio) f enc [0..<nat (max_retries p + 1)] st ls = (?st, ls1, True)"
    unfolding attempts_list [OF assms(2)] by (simp add: c r)
  with Cons.IH [OF _ inv1, of ?st] Cons.prems(1) show ?case by (auto simp: enc)
qed

lemma lossless_send:
  assumes "lossless (crc_scheme p) radio" and "validate_profile p = Inr ()"
    and "max_frame_payload_bytes p \<le> 0xFFFF" and "0 \<le> mid" "mid < 2 ^ 64"
    and "fragment payload mid (max_frame_payload_bytes p) = Inr fs" "length fs < 2 ^ 16"
  shows "\<exists>st ls. send_message payload mid p (sim_channel radio) (new_link p) = (Inr st, ls)
     \<and> delivered st \<and> retries st = 0 \<and> lk_received ls = [payload]"
proof -
  note v = validate_profile_ok [OF assms(2)]
  note fi = fragment_Inr [OF assms(6)]
  have tab: "crc_table (crc_scheme p) \<noteq> None" using v by (auto simp: crc_table_def)
  have pay: "\<forall>f \<in> set fs. length (fr_payload f) \<le> 0xFFFF" using fi(4) assms(3) by fastforce
  have "holds_part fs [] (new_link p)"
    using fi(2) by (simp add: holds_part_def new_link_def new_receiver_def)
  then have inv: "link_inv (p, radio) fs (new_link p)"
    using lossless_catches [OF assms(1)] fragments_on_wire(1) [OF assms(6,4,5,7)]
    by (auto simp: link_inv_def new_link_def new_receiver_def)
  let ?st0 = "\<lparr>delivered = False, frames_sent = 0, frames_acked = 0, retries = 0\<rparr>"
  obtain st ls where s: "send_frames p (sim_channel radio) fs ?st0 (new_link p) = (Inr st, ls)"
    and d: "delivered st" "retries st = 0"
    using lossless_frames [OF assms(1) _ tab pay order.refl inv, of ?st0] v by auto
  then have run: "send_message payload mid p (sim_channel radio) (new_link p) = (Inr st, ls)"
    by (simp add: send_message_def assms(6))
  from simlink.message_stored [of payload mid p "(p, radio)", OF _ assms(6) inv] run d
  have "link_inv (p, radio) fs ls" and "\<forall>f \<in> set fs. stored_frame ls f" by simp_all
  then have "lk_received ls = [concat (map fr_payload fs)]" using all_stored by blast
  then show ?thesis using run d fi(6) by auto
qed

text \<open>
  On an error-free radio every message gets through on the first attempt. For a known CRC
  scheme and a frame payload that fits the length field, \<open>send_message\<close> returns, reports
  delivery, never retries, and the receiver has exactly the payload.
\<close>

theorem lossless_link_delivers:
  assumes "lossless (crc_scheme p) radio" and "validate_profile p = Inr ()"
    and "max_frame_payload_bytes p \<le> 0xFFFF" and "0 \<le> mid" "mid < 2 ^ 64"
    and "fragment payload mid (max_frame_payload_bytes p) = Inr fs" "length fs < 2 ^ 16"
  shows "\<exists>st ls. send_message payload mid p (sim_channel radio) (new_link p) = (Inr st, ls)
     \<and> delivered st \<and> retries st = 0 \<and> lk_received ls = [payload]"
  using assms by (rule lossless_send)

theorem lossless_link_delivers_witness:
  "\<exists>st ls. send_message [7, 8] 5 reference_bpsk (sim_channel (\<lambda>x. x)) (new_link reference_bpsk) = (Inr st, ls)
     \<and> delivered st \<and> retries st = 0 \<and> lk_received ls = [[7, 8]]"
  by (rule lossless_link_delivers [OF perfect_lossless reference_profiles_valid(1) _ _ _ demo_fragment])
    (simp_all add: reference_bpsk_def)

section \<open>Retrying on a radio without memory\<close>

text \<open>What the channel answers once it answers for the same bytes for ever.\<close>

lemma sim_channel_again:
  assumes "sim_channel radio ls enc = (ls1, r)"
  shows "\<exists>ls2. sim_channel radio ls1 enc = (ls2, r) \<and> lk_receiver ls2 = lk_receiver ls1"
proof -
  obtain rx res where o1: "on_frame (lk_receiver ls) (radio enc) = (rx, res)" by fastforce
  from on_frame_again [OF o1] obtain res' where o2: "on_frame rx (radio enc) = (rx, res')"
    and same: "map_sum id fst res' = map_sum id fst res" by blast
  show ?thesis
    using assms o2 same by (cases res; cases res') (auto simp: sim_channel_def o1)
qed

lemma sim_channel_rx:
  "lk_receiver a = lk_receiver b \<Longrightarrow> snd (sim_channel radio a enc) = snd (sim_channel radio b enc)
     \<and> lk_receiver (fst (sim_channel radio a enc)) = lk_receiver (fst (sim_channel radio b enc))"
  by (auto simp: sim_channel_def split: prod.splits sum.splits)

lemma repeated_attempts:
  assumes "sim_channel radio ls0 enc = (ls1, r)" and "lk_receiver ls = lk_receiver ls1"
    and "\<not> (\<exists>resp ack. r = Some resp \<and> frame_decode scheme resp = Inr ack \<and> acks ack f)"
  shows "send_attempts scheme (sim_channel radio) f enc as st ls = (st', s', ok) \<Longrightarrow> \<not> ok"
  using assms(2)
proof (induction as arbitrary: st ls)
  case Nil
  then show ?case by simp
next
  case (Cons a as)
  obtain ls2 where again: "sim_channel radio ls1 enc = (ls2, r)" "lk_receiver ls2 = lk_receiver ls1"
    using sim_channel_again [OF assms(1)] by blast
  obtain ls3 where c: "sim_channel radio ls enc = (ls3, r)" and rx: "lk_receiver ls3 = lk_receiver ls1"
    using sim_channel_rx [OF Cons.prems(2), of radio enc] again by (cases "sim_channel radio ls enc") auto
  have IH: "send_attempts scheme (sim_channel radio) f enc as st1 ls3 = (st', s', ok) \<Longrightarrow> \<not> ok" for st1
    using Cons.IH rx by blast
  show ?case
    using Cons.prems(1) assms(3) IH by (auto simp: c Let_def split: option.splits sum.splits if_splits)
qed

lemma attempts_first_or_never:
  assumes "send_attempts scheme (sim_channel radio) f enc (0 # as) st ls = (st', s', ok)"
    and "ok" shows "retries st' = retries st"
proof -
  obtain ls1 r where c: "sim_channel radio ls enc = (ls1, r)" by fastforce
  show ?thesis
  proof (cases "\<exists>resp ack. r = Some resp \<and> frame_decode scheme resp = Inr ack \<and> acks ack f")
    case True
    then show ?thesis using assms(1) by (auto simp: c Let_def)
  next
    case False
    have "send_attempts scheme (sim_channel radio) f enc as (st\<lparr>frames_sent := frames_sent st + 1\<rparr>) ls1 = (st', s', ok)"
      using assms(1) False by (auto simp: c Let_def split: option.splits sum.splits if_splits)
    from repeated_attempts [OF c refl False this] assms(2) show ?thesis by simp
  qed
qed

lemma frames_delivered_no_retry:
  "send_frames p (sim_channel radio) fs st ls = (Inr st', s') \<Longrightarrow> 0 \<le> max_retries p \<Longrightarrow>
   \<not> delivered st \<Longrightarrow> delivered st' \<Longrightarrow> retries st' = retries st"
proof (induction fs arbitrary: st ls)
  case Nil
  then show ?case by auto
next
  case (Cons f fs)
  obtain st1 s1 ok enc where
      a: "send_attempts (crc_scheme p) (sim_channel radio) f enc [0..<nat (max_retries p + 1)] st ls = (st1, s1, ok)"
    and rest: "if ok then send_frames p (sim_channel radio) fs st1 s1 = (Inr st', s') else st' = st1 \<and> s' = s1"
    using send_frames_Cons [OF Cons.prems(1)] by metis
  have d: "\<not> delivered st1" using send_attempts_stats [OF a] Cons.prems(3) by simp
  then have ok using rest Cons.prems(4) by (auto split: if_splits)
  with rest Cons.IH [OF _ Cons.prems(2) d Cons.prems(4)] have "retries st' = retries st1" by simp
  with attempts_first_or_never [OF a [unfolded attempts_list [OF Cons.prems(2)]] \<open>ok\<close>] show ?case by simp
qed

text \<open>
  Over the simulated link a retransmission never succeeds. The impairment is a function of
  the frame bytes alone (the channel generator is seeded anew for every frame), so a message that
  is delivered was delivered without a single retry: the retries only cost time.
\<close>

theorem simulated_retry_is_futile:
  assumes "send_message payload mid p (sim_channel radio) ls = (Inr st, ls')" and "0 \<le> max_retries p"
    and "delivered st"
  shows "retries st = 0"
  using frames_delivered_no_retry [OF _ assms(2) _ assms(3), of radio _ _ ls ls'] assms(1)
  by (fastforce simp: send_message_def split: sum.splits)

theorem simulated_retry_is_futile_witness:
  "\<exists>st ls. send_message [7, 8] 5 reference_bpsk (sim_channel (\<lambda>x. x)) (new_link reference_bpsk) = (Inr st, ls)
     \<and> delivered st \<and> retries st = 0"
proof -
  obtain r ls where s: "send_message [7, 8] 5 reference_bpsk (sim_channel (\<lambda>x. x)) (new_link reference_bpsk) = (r, ls)"
    by fastforce
  with demo_send have r: "r = Inr \<lparr>delivered = True, frames_sent = 1, frames_acked = 1, retries = 0\<rparr>" by simp
  have "0 \<le> max_retries reference_bpsk" by (simp add: reference_bpsk_def)
  from simulated_retry_is_futile [OF s [unfolded r] this] s r show ?thesis by auto
qed

end
