(* ===== verification/SimExchange.thy ===== *)
theory SimExchange
  imports SimLink
begin

text \<open>
  \<open>SimulatedRFLink.transmit\<close> of \<open>transport/ota/simulated_rf.py\<close>: seal, pack, send over the
  frame channel, unpack, open, and the receipt and exchange record it returns. Latencies are
  left out of the records (they are read from a monotonic clock and only reported).
\<close>

section \<open>Link keys and packing\<close>

definition derive_link_key :: "string \<Rightarrow> string \<Rightarrow> bytes \<Rightarrow> bytes" where
  "derive_link_key a b secret =
     (let lo = (if b < a then b else a); hi = (if b < a then a else b)
      in hmac_sha256 secret (utf8 (''aithernet-ota-link:'' @ lo @ '':'' @ hi)))"

definition pack_ota :: "ota_header \<Rightarrow> bytes \<Rightarrow> bytes option" where
  "pack_ota h ct = (let hjson = aad h in
     if length hjson < 2 ^ 16 then Some (to_be 2 (length hjson) @ hjson @ ct) else None)"

definition unpack_ota :: "(bytes \<Rightarrow> ota_header option) \<Rightarrow> bytes \<Rightarrow> (ota_header \<times> bytes) option" where
  "unpack_ota load_header raw =
     (let hlen = from_be (bslice 0 2 raw)
      in map_option (\<lambda>h. (h, drop (2 + hlen) raw)) (load_header (bslice 2 (2 + hlen) raw)))"

lemma unpack_pack:
  assumes "pack_ota h ct = Some raw" and "load_header (aad h) = Some h"
  shows "unpack_ota load_header raw = Some (h, ct)"
proof -
  from assms(1) have r: "raw = to_be 2 (length (aad h)) @ aad h @ ct" and n: "length (aad h) < 256 ^ 2"
    by (auto simp: pack_ota_def Let_def split: if_splits)
  have "bslice 0 2 raw = to_be 2 (length (aad h))"
    and "bslice 2 (2 + length (aad h)) raw = aad h" by (simp_all add: r bslice_def del: to_be.simps)
  with n assms(2) show ?thesis by (simp add: unpack_ota_def Let_def r del: to_be.simps)
qed

section \<open>Endpoints and one exchange\<close>

record ota_endpoint =
  ep_node_id :: string
  ep_peer_id :: string
  ep_peer_public_key :: string
  ep_link_key :: bytes
  ep_sequence :: int
  ep_replay_guard :: replay_guard

record sim_rf_link =
  sl_profile :: rf_profile
  sl_endpoints :: "string \<rightharpoonup> ota_endpoint"
  sl_failures :: nat

definition add_endpoint :: "string \<Rightarrow> string \<Rightarrow> string \<Rightarrow> bytes \<Rightarrow> sim_rf_link \<Rightarrow> sim_rf_link" where
  "add_endpoint node peer public_key secret l =
     l\<lparr>sl_endpoints := (sl_endpoints l)(node \<mapsto> \<lparr>ep_node_id = node, ep_peer_id = peer,
        ep_peer_public_key = public_key, ep_link_key = derive_link_key node peer secret,
        ep_sequence = 0, ep_replay_guard = new_guard 256\<rparr>)\<rparr>"

definition link_healthy :: "sim_rf_link \<Rightarrow> bool" where
  "link_healthy l \<longleftrightarrow> sl_failures l < 3"

datatype delivery_status = DELIVERED | SENT | FAILED | REJECTED | EXPIRED

record delivery_receipt =
  rc_transport_id :: string
  rc_message_id :: string
  rc_status :: delivery_status
  rc_correlation_id :: "string option"
  rc_profile_id :: "string option"
  rc_frames_sent :: nat
  rc_frames_acked :: nat
  rc_retries :: nat
  rc_rejection :: "ota_error option"
  rc_simulated :: bool

datatype decode_outcome = OutcomePending | OutcomeUndelivered | OutcomeDecoded | OutcomeRejected ota_error

record exchange_record =
  xr_message_id :: string
  xr_sender :: string
  xr_receiver :: string
  xr_payload_digest :: string
  xr_serialized_size :: nat
  xr_encrypted_size :: nat
  xr_frame_count :: nat
  xr_retries :: nat
  xr_acks :: nat
  xr_outcome :: decode_outcome
  xr_received_digest :: "string option"
  xr_signature_verified :: "bool option"
  xr_replay_accepted :: "bool option"

text \<open>What leaves \<open>transmit\<close> as an exception: not one of the receipt statuses.\<close>

datatype exchange_error =
    UnknownEndpoint | SealFailed ota_error | HeaderTooLong | FramingFailed frame_error
  | UnpackFailed | EnvelopeInvalid | SignatureRaised

record radio_env =
  re_encrypt :: "bytes \<Rightarrow> bytes \<Rightarrow> bytes \<Rightarrow> bytes \<Rightarrow> bytes"
  re_decrypt :: "bytes \<Rightarrow> bytes \<Rightarrow> bytes \<Rightarrow> bytes \<Rightarrow> bytes option"
  re_float_repr :: "pyfloat \<Rightarrow> string"
  re_load_header :: "bytes \<Rightarrow> ota_header option"
  re_parse :: "bytes \<Rightarrow> message_envelope option"
  re_verify :: "string \<Rightarrow> bytes \<Rightarrow> string \<Rightarrow> bool"
  re_radio :: "bytes \<Rightarrow> bytes"

definition message_number :: "message_envelope \<Rightarrow> int" where
  "message_number e = int (from_be (take 8 (sha256 (utf8 (env_message_id e)))))"

definition base_record :: "(pyfloat \<Rightarrow> string) \<Rightarrow> message_envelope \<Rightarrow> string \<Rightarrow> string \<Rightarrow> bytes
    \<Rightarrow> send_stats \<Rightarrow> exchange_record" where
  "base_record fr e sender receiver ct stats =
     \<lparr>xr_message_id = env_message_id e, xr_sender = sender, xr_receiver = receiver,
      xr_payload_digest = sha256_text (serialize_envelope fr e),
      xr_serialized_size = length (serialize_envelope fr e), xr_encrypted_size = length ct,
      xr_frame_count = frames_sent stats, xr_retries = retries stats, xr_acks = frames_acked stats,
      xr_outcome = OutcomePending, xr_received_digest = None, xr_signature_verified = None,
      xr_replay_accepted = None\<rparr>"

definition sim_receipt :: "rf_profile \<Rightarrow> message_envelope \<Rightarrow> delivery_status \<Rightarrow> send_stats \<Rightarrow> delivery_receipt" where
  "sim_receipt p e status stats =
     \<lparr>rc_transport_id = ''simulated_rf'', rc_message_id = env_message_id e, rc_status = status,
      rc_correlation_id = env_correlation_id e, rc_profile_id = Some (profile_id p),
      rc_frames_sent = frames_sent stats, rc_frames_acked = frames_acked stats,
      rc_retries = retries stats, rc_rejection = None, rc_simulated = True\<rparr>"

definition seal_step :: "radio_env \<Rightarrow> ota_endpoint \<Rightarrow> string \<Rightarrow> string \<Rightarrow> message_envelope \<Rightarrow> int \<Rightarrow> bytes
    \<Rightarrow> rf_profile \<Rightarrow> ota_error + ota_header \<times> bytes" where
  "seal_step re s_ep sender receiver e seal_time nonce p =
     seal (re_encrypt re) (re_float_repr re) e (ep_link_key s_ep) sender receiver (ep_peer_id s_ep)
       (ep_sequence s_ep + 1) (profile_id p) (Fin 30) seal_time nonce"

text \<open>The receiving side: unpack, open with the receiver's guard, check the signature.\<close>

definition receive_sealed :: "radio_env \<Rightarrow> ota_endpoint \<Rightarrow> string \<Rightarrow> int \<Rightarrow> bytes
    \<Rightarrow> replay_guard \<times> (exchange_error + ota_error + ota_header \<times> message_envelope \<times> bool)" where
  "receive_sealed re ep receiver now raw =
     (let g = ep_replay_guard ep in
      case unpack_ota (re_load_header re) raw of
        None \<Rightarrow> (g, Inl UnpackFailed)
      | Some (rh, rct) \<Rightarrow>
          (case open_sealed (re_decrypt re) (re_parse re) rh rct (ep_link_key ep) receiver now (Some g) of
             (g', Inl BadEnvelope) \<Rightarrow> (the g', Inl EnvelopeInvalid)
           | (g', Inl BadNonceHex) \<Rightarrow> (the g', Inl UnpackFailed)
           | (g', Inl e) \<Rightarrow> (the g', Inr (Inl e))
           | (g', Inr opened) \<Rightarrow>
               (the g', if env_signature opened = None then Inr (Inr (rh, opened, True))
                        else case verify_signature_with (re_float_repr re) (re_verify re)
                                    (ep_peer_public_key ep) opened of
                               None \<Rightarrow> Inl SignatureRaised
                             | Some ok \<Rightarrow> Inr (Inr (rh, opened, ok)))))"

definition transmit :: "radio_env \<Rightarrow> string \<Rightarrow> string \<Rightarrow> message_envelope \<Rightarrow> int \<Rightarrow> int \<Rightarrow> bytes \<Rightarrow> sim_rf_link
    \<Rightarrow> sim_rf_link \<times> (exchange_error + delivery_receipt \<times> message_envelope option \<times> exchange_record)" where
  "transmit re sender receiver e seal_time open_time nonce l =
     (case (sl_endpoints l sender, sl_endpoints l receiver) of
        (Some s_ep, Some _) \<Rightarrow>
          (let l1 = l\<lparr>sl_endpoints := (sl_endpoints l)(sender \<mapsto> s_ep\<lparr>ep_sequence := ep_sequence s_ep + 1\<rparr>)\<rparr>;
               p = sl_profile l
           in case seal_step re s_ep sender receiver e seal_time nonce p of
                Inl err \<Rightarrow> (l1, Inl (SealFailed err))
              | Inr (h, ct) \<Rightarrow>
                  (case pack_ota h ct of
                     None \<Rightarrow> (l1, Inl HeaderTooLong)
                   | Some payload \<Rightarrow>
                       (case send_message payload (message_number e) p (sim_channel (re_radio re)) (new_link p) of
                          (Inl err, _) \<Rightarrow> (l1, Inl (FramingFailed err))
                        | (Inr stats, ls) \<Rightarrow>
                            (let rec = base_record (re_float_repr re) e sender receiver ct stats
                             in if \<not> delivered stats \<or> lk_received ls = []
                                then (l1\<lparr>sl_failures := sl_failures l + 1\<rparr>,
                                      Inr (sim_receipt p e FAILED stats, None, rec\<lparr>xr_outcome := OutcomeUndelivered\<rparr>))
                                else (let l2 = l1\<lparr>sl_failures := 0\<rparr>; r_ep = the (sl_endpoints l1 receiver)
                                      in case receive_sealed re r_ep receiver open_time (hd (lk_received ls)) of
                                           (g, res) \<Rightarrow>
                                             (let l3 = l2\<lparr>sl_endpoints := (sl_endpoints l2)(receiver \<mapsto> r_ep\<lparr>ep_replay_guard := g\<rparr>)\<rparr>
                                              in case res of
                                                   Inl err \<Rightarrow> (l3, Inl err)
                                                 | Inr (Inl err) \<Rightarrow>
                                                     (l3, Inr ((sim_receipt p e REJECTED stats)
                                                            \<lparr>rc_frames_sent := 0, rc_frames_acked := 0, rc_rejection := Some err\<rparr>, None,
                                                          rec\<lparr>xr_outcome := OutcomeRejected err, xr_replay_accepted := Some False\<rparr>))
                                                 | Inr (Inr (rh, opened, ok)) \<Rightarrow>
                                                     (l3, Inr (sim_receipt p e DELIVERED stats, Some opened,
                                                          rec\<lparr>xr_outcome := OutcomeDecoded,
                                                              xr_received_digest := Some (payload_digest rh),
                                                              xr_signature_verified := Some ok,
                                                              xr_replay_accepted := Some True\<rparr>))))))))
      | _ \<Rightarrow> (l, Inl UnknownEndpoint))"

lemma message_number_bounds: "0 \<le> message_number e" "message_number e < 2 ^ 64"
proof -
  show "0 \<le> message_number e" by (simp add: message_number_def)
  have "from_be (take 8 (sha256 m)) < 256 ^ 8" for m
    using from_be_less [of "take 8 (sha256 m)"] by simp
  then show "message_number e < 2 ^ 64" unfolding message_number_def by (simp add: order.strict_trans2)
qed

lemma transmit_delivered:
  assumes "transmit re s r e t1 t2 nonce l = (l', Inr (rc, opened, xr))" and "rc_status rc = DELIVERED"
  obtains s_ep r_ep h ct payload stats ls g rh env ok where
    "sl_endpoints l s = Some s_ep" "seal_step re s_ep s r e t1 nonce (sl_profile l) = Inr (h, ct)"
    "pack_ota h ct = Some payload" "delivered stats" "lk_received ls \<noteq> []"
    "send_message payload (message_number e) (sl_profile l) (sim_channel (re_radio re)) (new_link (sl_profile l))
       = (Inr stats, ls)"
    "receive_sealed re r_ep r t2 (hd (lk_received ls)) = (g, Inr (Inr (rh, env, ok)))"
    "opened = Some env" "xr_received_digest xr = Some (payload_digest rh)"
    "xr_payload_digest xr = sha256_text (serialize_envelope (re_float_repr re) e)"
    "rc_frames_acked rc = frames_acked stats" "rc_simulated rc"
    "r_ep = the (((sl_endpoints l)(s \<mapsto> s_ep\<lparr>ep_sequence := ep_sequence s_ep + 1\<rparr>)) r)"
    "sl_endpoints l r \<noteq> None"
  using assms
  by (auto simp: transmit_def Let_def sim_receipt_def base_record_def
      split: option.splits sum.splits prod.splits if_splits)

lemma receive_sealed_Inr:
  assumes "receive_sealed re ep receiver now raw = (g, Inr (Inr (rh, env, ok)))"
  obtains rct where "unpack_ota (re_load_header re) raw = Some (rh, rct)"
    "open_sealed (re_decrypt re) (re_parse re) rh rct (ep_link_key ep) receiver now (Some (ep_replay_guard ep))
       = (Some g, Inr env)"
proof -
  obtain rh' rct where u: "unpack_ota (re_load_header re) raw = Some (rh', rct)"
    using assms by (auto simp: receive_sealed_def Let_def split: option.splits)
  obtain g' res where o: "open_sealed (re_decrypt re) (re_parse re) rh' rct (ep_link_key ep) receiver now
      (Some (ep_replay_guard ep)) = (g', res)" by fastforce
  have g': "g' \<noteq> None"
    using open_sealed_guard [of "re_decrypt re" "re_parse re" rh' rct "ep_link_key ep" receiver now "ep_replay_guard ep"]
    by (auto simp: o)
  have "res = Inr env \<and> rh' = rh \<and> g = the g'"
    using assms by (auto simp: receive_sealed_def Let_def u o split: sum.splits ota_error.splits option.splits if_splits)
  with u o g' that show ?thesis by auto
qed

lemma delivered_acks:
  assumes "send_message payload mid p ch s = (Inr st, s')" and "delivered st"
    and "fragment payload mid (max_frame_payload_bytes p) = Inr fs" and "0 \<le> max_retries p"
  shows "frames_acked st = length fs"
proof -
  from assms(1,3) have "send_frames p ch fs
      \<lparr>delivered = False, frames_sent = 0, frames_acked = 0, retries = 0\<rparr> s = (Inr st, s')"
    by (simp add: send_message_def)
  from send_frames_stats [OF assms(4) this] assms(2) show ?thesis by simp
qed

lemma exchange_faithful:
  assumes "transmit re s r e t1 t2 nonce l = (l', Inr (rc, opened, xr))" and "rc_status rc = DELIVERED"
    and "rc_frames_acked rc < 2 ^ 16" and "0 \<le> max_retries (sl_profile l)"
    and "crc_catches (crc_scheme (sl_profile l)) (re_radio re)"
    and "sl_endpoints l s = Some a" "sl_endpoints l r = Some b" "ep_link_key a = ep_link_key b"
    and "\<And>n p x. re_decrypt re (ep_link_key a) n (re_encrypt re (ep_link_key a) n p x) x = Some p"
    and "\<And>h ct. seal_step re a s r e t1 nonce (sl_profile l) = Inr (h, ct) \<Longrightarrow> re_load_header re (aad h) = Some h"
    and "re_parse re (serialize_envelope (re_float_repr re) e) = Some e"
  shows "opened = Some e \<and> xr_received_digest xr = Some (xr_payload_digest xr) \<and> rc_simulated rc"
proof -
  let ?p = "sl_profile l"
  from assms(1,2) obtain s_ep r_ep h ct payload stats ls g rh env ok where
    s_ep: "sl_endpoints l s = Some s_ep" and seal: "seal_step re s_ep s r e t1 nonce ?p = Inr (h, ct)"
    and pk: "pack_ota h ct = Some payload" and d: "delivered stats"
    and run: "send_message payload (message_number e) ?p (sim_channel (re_radio re)) (new_link ?p) = (Inr stats, ls)"
    and rcv: "receive_sealed re r_ep r t2 (hd (lk_received ls)) = (g, Inr (Inr (rh, env, ok)))"
    and res: "opened = Some env" "xr_received_digest xr = Some (payload_digest rh)"
      "xr_payload_digest xr = sha256_text (serialize_envelope (re_float_repr re) e)"
      "rc_frames_acked rc = frames_acked stats" "rc_simulated rc"
    and r_ep: "r_ep = the (((sl_endpoints l)(s \<mapsto> s_ep\<lparr>ep_sequence := ep_sequence s_ep + 1\<rparr>)) r)"
    by (rule transmit_delivered)
  have ep: "s_ep = a" and key: "ep_link_key r_ep = ep_link_key a"
    using s_ep r_ep assms(6-8) by auto
  obtain fs where fr: "fragment payload (message_number e) (max_frame_payload_bytes ?p) = Inr fs"
    using run by (auto simp: send_message_def split: sum.splits)
  then have "length fs < 2 ^ 16" using delivered_acks [OF run d fr assms(4)] assms(3) res(4) by simp
  then have "hd (lk_received ls) = payload"
    using delivered_received [OF run d assms(5) fr message_number_bounds] by simp
  with rcv obtain rct where u: "unpack_ota (re_load_header re) payload = Some (rh, rct)"
    and o: "open_sealed (re_decrypt re) (re_parse re) rh rct (ep_link_key a) r t2 (Some (ep_replay_guard r_ep))
      = (Some g, Inr env)" using receive_sealed_Inr key by metis
  from unpack_pack [OF pk] assms(10) seal u ep have rh: "rh = h" "rct = ct" by auto
  from seal have "ct = re_encrypt re (ep_link_key a) nonce (serialize_envelope (re_float_repr re) e) (aad h)"
    "nonce_hex h = to_hex nonce" "payload_digest h = sha256_text (serialize_envelope (re_float_repr re) e)"
    unfolding seal_step_def ep by (auto elim: seal_Inr)
  with o assms(9,11) show ?thesis by (auto simp: rh res elim!: open_sealed_Inr)
qed

text \<open>
  C10: what the simulated exchange reports as delivered is what was sent. If the cipher decrypts
  what it encrypted, the CRC catches the radio's errors, both ends hold the same link key and the
  header and envelope serialisations read back, then a receipt with status DELIVERED comes with
  exactly the envelope that was handed in, and the two payload digests of the record agree.
\<close>

theorem exchange_is_faithful:
  assumes "transmit re s r e t1 t2 nonce l = (l', Inr (rc, opened, xr))" and "rc_status rc = DELIVERED"
    and "rc_frames_acked rc < 2 ^ 16" and "0 \<le> max_retries (sl_profile l)"
    and "crc_catches (crc_scheme (sl_profile l)) (re_radio re)"
    and "sl_endpoints l s = Some a" "sl_endpoints l r = Some b" "ep_link_key a = ep_link_key b"
    and "\<And>n p x. re_decrypt re (ep_link_key a) n (re_encrypt re (ep_link_key a) n p x) x = Some p"
    and "\<And>h ct. seal_step re a s r e t1 nonce (sl_profile l) = Inr (h, ct) \<Longrightarrow> re_load_header re (aad h) = Some h"
    and "re_parse re (serialize_envelope (re_float_repr re) e) = Some e"
  shows "opened = Some e \<and> xr_received_digest xr = Some (xr_payload_digest xr) \<and> rc_simulated rc"
  using assms by (rule exchange_faithful)

section \<open>An exchange that is delivered\<close>

definition demo_link :: sim_rf_link where
  "demo_link = add_endpoint ''b'' ''a'' ''pk-a'' [1, 2, 3] (add_endpoint ''a'' ''b'' ''pk-b'' [1, 2, 3]
     \<lparr>sl_profile = reference_bpsk, sl_endpoints = Map.empty, sl_failures = 0\<rparr>)"

definition demo_nonce :: bytes where
  "demo_nonce = replicate 12 0"

text \<open>
  A cipher that changes nothing and a header reader that knows the one header of the example,
  an envelope \<open>e\<close> from a to b over the link \<open>l\<close>.
\<close>

definition plain_env :: "message_envelope \<Rightarrow> radio_env" where
  "plain_env e = \<lparr>re_encrypt = (\<lambda>k n p a. p), re_decrypt = (\<lambda>k n c a. Some c), re_float_repr = no_floats,
     re_load_header = (\<lambda>b. None), re_parse = (\<lambda>b. Some e), re_verify = (\<lambda>pk m sg. True),
     re_radio = (\<lambda>x. x)\<rparr>"

definition demo_env :: "message_envelope \<Rightarrow> sim_rf_link \<Rightarrow> radio_env" where
  "demo_env e l = (plain_env e)\<lparr>re_load_header := (\<lambda>b.
     case seal_step (plain_env e) (the (sl_endpoints l ''a'')) ''a'' ''b'' e 1000 demo_nonce reference_bpsk of
       Inl _ \<Rightarrow> None | Inr (h, ct) \<Rightarrow> Some h)\<rparr>"

text \<open>What the example needs of the envelope and the link.\<close>

definition small_envelope :: "message_envelope \<Rightarrow> bool" where
  "small_envelope e \<longleftrightarrow> env_message_id e = ''m1'' \<and>
     (env_correlation_id e = None \<or> env_correlation_id e = Some ''c1'') \<and> truthy (env_signature e) \<and>
     length (serialize_envelope no_floats e) \<le> 1000 \<and> canonical_bytes no_floats (model_dump e) \<noteq> None"

definition fresh_pair :: "sim_rf_link \<Rightarrow> bool" where
  "fresh_pair l \<longleftrightarrow> sl_profile l = reference_bpsk \<and>
     (case (sl_endpoints l ''a'', sl_endpoints l ''b'') of
        (Some a, Some b) \<Rightarrow> ep_sequence a = 0 \<and> ep_peer_id a = ''b'' \<and> length (ep_link_key a) = 32 \<and>
          ep_link_key b = ep_link_key a \<and> ep_replay_guard b = new_guard 256
      | _ \<Rightarrow> False)"

lemma fresh_pairE:
  assumes "fresh_pair l"
  obtains a b where "sl_endpoints l ''a'' = Some a" "sl_endpoints l ''b'' = Some b" "sl_profile l = reference_bpsk"
    "ep_sequence a = 0" "ep_peer_id a = ''b''" "length (ep_link_key a) = 32"
    "ep_link_key b = ep_link_key a" "ep_replay_guard b = new_guard 256"
  using assms by (auto simp: fresh_pair_def split: option.splits)

lemma demo_env_simps [simp]:
  "re_radio (demo_env e l) = (\<lambda>x. x)" "re_decrypt (demo_env e l) = (\<lambda>k n c a. Some c)"
  "re_parse (demo_env e l) = (\<lambda>b. Some e)" "re_encrypt (demo_env e l) = (\<lambda>k n p a. p)"
  "re_verify (demo_env e l) = (\<lambda>pk m sg. True)" "re_float_repr (demo_env e l) = no_floats"
  by (simp_all add: demo_env_def plain_env_def)

lemma length_json_str: "length (json_str s) \<le> 6 * length s + 2"
proof -
  have "length (json_escape c) \<le> 6" for c by (simp add: json_escape_def Let_def)
  then have "sum_list (map (length \<circ> json_escape) s) \<le> sum_list (map (\<lambda>_. 6) s)"
    by (intro sum_list_mono) simp
  then have "length (concat (map json_escape s)) \<le> 6 * length s"
    by (simp add: length_concat sum_list_triv mult.commute)
  then show ?thesis by (simp add: json_str_def)
qed

lemma length_utf8: "length (utf8 s) \<le> 2 * length s"
  by (induction s) (auto simp: utf8_def utf8_char_def Let_def)

lemma length_to_hex [simp]: "length (to_hex bs) = 2 * length bs"
  by (induction bs) (simp_all add: to_hex_def)

lemma length_dec_digits: "length (dec_digits n) \<le> n + 1"
proof (induction n rule: dec_digits.induct)
  case (1 n)
  then show ?case by (cases "n < 10") (auto simp: dec_digits.simps [of n])
qed

lemma length_int_repr: "0 \<le> i \<Longrightarrow> length (int_repr i) \<le> nat i + 1"
  using length_dec_digits [of "nat i"] by (simp add: int_repr_def)

lemma length_opt_str:
  "x = None \<or> x = Some ''c1'' \<Longrightarrow> length (dumps fr (json_opt_str x)) \<le> 14"
  using length_json_str [of "''c1''"] by (auto simp: json_opt_str_def)

lemma demo_sealed:
  assumes e: "small_envelope e" and l: "fresh_pair l"
  obtains h ct payload fs where
    "seal_step (demo_env e l) (the (sl_endpoints l ''a'')) ''a'' ''b'' e 1000 demo_nonce reference_bpsk = Inr (h, ct)"
    "re_load_header (demo_env e l) (aad h) = Some h" "nonce_hex h = to_hex demo_nonce" "sender_node_id h = ''a''"
    "receiver_node_id h = ''b''" "expiry h = 1030" "payload_length h = int (length ct)"
    "payload_digest h = sha256_text ct"
    "pack_ota h ct = Some payload"
    "fragment payload (message_number e) 128 = Inr fs" "length fs < 2 ^ 16"
proof -
  let ?ep = "the (sl_endpoints l ''a'')"
  have same: "seal_step (demo_env e l) = seal_step (plain_env e)"
    by (intro ext) (simp add: seal_step_def demo_env_def plain_env_def)
  have key: "length (ep_link_key ?ep) = 32" and peer: "ep_peer_id ?ep = ''b''" and sq: "ep_sequence ?ep = 0"
    using l by (auto elim: fresh_pairE)
  have id: "env_message_id e = ''m1''" using e by (simp add: small_envelope_def)
  let ?ct = "serialize_envelope no_floats e"
  let ?h = "\<lparr>protocol_version = 1, sender_node_id = ''a'', receiver_node_id = ''b'', peer_key_id = ''b'',
    message_id = ''m1'', correlation_id = env_correlation_id e, seq_no = 1, timestamp = 1000, expiry = 1030,
    nonce_hex = to_hex demo_nonce, payload_type = ''peer_envelope'', payload_length = int (length ?ct),
    payload_digest = sha256_text ?ct, transport_profile_id = ''ref-bpsk-1k''\<rparr>"
  have s: "seal_step (plain_env e) ?ep ''a'' ''b'' e 1000 demo_nonce reference_bpsk = Inr (?h, ?ct)"
    using key by (simp add: seal_step_def seal_def Let_def py_int_def plain_env_def peer sq id reference_bpsk_def)
  have load: "re_load_header (demo_env e l) (aad ?h) = Some ?h"
    by (simp add: demo_env_def s)
  have n: "length ?ct \<le> 1000" using e by (simp add: small_envelope_def)
  have lens: "length (int_repr (int (length ?ct))) \<le> 1001" "length (int_repr 1000) \<le> 1001"
    "length (int_repr 1030) \<le> 1031" "length (int_repr 1) \<le> 2"
    using n length_int_repr [of "int (length ?ct)"] length_int_repr [of 1000] length_int_repr [of 1030]
      length_int_repr [of 1] by simp_all
  have cor: "length (dumps no_floats (json_opt_str (env_correlation_id e))) \<le> 14"
    using e by (intro length_opt_str) (simp add: small_envelope_def)
  have "length (dumps no_floats (header_json ?h)) \<le> 9000"
    using lens cor length_json_str [of "to_hex demo_nonce"] length_json_str [of "sha256_text ?ct"]
      length_json_str [of "''correlation_id''"] length_json_str [of "''expiry''"]
      length_json_str [of "''message_id''"] length_json_str [of "''m1''"] length_json_str [of "''nonce_hex''"]
      length_json_str [of "''payload_digest''"] length_json_str [of "''payload_length''"]
      length_json_str [of "''payload_type''"] length_json_str [of "''peer_envelope''"]
      length_json_str [of "''peer_key_id''"] length_json_str [of "''a''"] length_json_str [of "''b''"]
      length_json_str [of "''protocol_version''"] length_json_str [of "''receiver_node_id''"]
      length_json_str [of "''sender_node_id''"] length_json_str [of "''sequence''"]
      length_json_str [of "''timestamp''"] length_json_str [of "''transport_profile_id''"]
      length_json_str [of "''ref-bpsk-1k''"]
    unfolding aad_text by (simp add: sha256_text_def demo_nonce_def)
  then have a: "length (aad ?h) \<le> 18000" using length_utf8 [of "dumps no_floats (header_json ?h)"]
    by (simp add: aad_def)
  then have pk: "pack_ota ?h ?ct = Some (to_be 2 (length (aad ?h)) @ aad ?h @ ?ct)" (is "_ = Some ?payload")
    by (simp add: pack_ota_def Let_def)
  obtain fs where fr: "fragment ?payload (message_number e) 128 = Inr fs"
    by (simp add: fragment_def Let_def)
  have "length fs \<le> length (chunks 128 ?payload) + 1"
    using fr by (auto simp: fragment_def Let_def)
  then have "length fs < 2 ^ 16" using length_chunks [of 128 ?payload] a n by simp
  then show thesis using that [OF s [folded same] load _ _ _ _ _ _ pk fr] by simp
qed

text \<open>A small envelope over a clean radio is delivered, whole and verified.\<close>

lemma small_exchange:
  assumes e: "small_envelope e" and l: "fresh_pair l"
  shows "\<exists>l' rc xr. transmit (demo_env e l) ''a'' ''b'' e 1000 1010 demo_nonce l = (l', Inr (rc, Some e, xr)) \<and>
     rc_status rc = DELIVERED \<and> rc_frames_acked rc < 2 ^ 16 \<and>
     (\<forall>ep h ct. sl_endpoints l ''a'' = Some ep \<longrightarrow>
        seal_step (demo_env e l) ep ''a'' ''b'' e 1000 demo_nonce (sl_profile l) = Inr (h, ct) \<longrightarrow>
        re_load_header (demo_env e l) (aad h) = Some h)"
proof -
  let ?re = "demo_env e l"
  obtain a b where ab: "sl_endpoints l ''a'' = Some a" "sl_endpoints l ''b'' = Some b" "sl_profile l = reference_bpsk"
    and keys: "length (ep_link_key a) = 32" "ep_link_key b = ep_link_key a" "ep_replay_guard b = new_guard 256"
    using l by (elim fresh_pairE)
  obtain h ct payload fs where h: "seal_step ?re a ''a'' ''b'' e 1000 demo_nonce reference_bpsk = Inr (h, ct)"
    "re_load_header ?re (aad h) = Some h" "nonce_hex h = to_hex demo_nonce" "sender_node_id h = ''a''"
    "receiver_node_id h = ''b''" "expiry h = 1030" "payload_length h = int (length ct)"
    "payload_digest h = sha256_text ct" and pk: "pack_ota h ct = Some payload"
    and fr: "fragment payload (message_number e) 128 = Inr fs" "length fs < 2 ^ 16"
    by (rule demo_sealed [OF e l, unfolded ab(1) option.sel])
  have bp: "max_frame_payload_bytes reference_bpsk = 128" "max_retries reference_bpsk = 4"
    "crc_scheme reference_bpsk = ''crc16''" by (simp_all add: reference_bpsk_def)
  obtain st ls where run: "send_message payload (message_number e) reference_bpsk (sim_channel (\<lambda>x. x))
      (new_link reference_bpsk) = (Inr st, ls)" "delivered st" "lk_received ls = [payload]"
    using lossless_send [OF perfect_lossless reference_profiles_valid(1) _ message_number_bounds [of e],
        where payload = payload and fs = fs] fr bp by auto
  have sgn: "verify_signature_with no_floats (\<lambda>pk m sg. True) pk e = Some True" "env_signature e \<noteq> None" for pk
    using e by (cases "env_signature e"; auto simp: small_envelope_def verify_signature_with_def truthy_def)+
  have "open_sealed (re_decrypt ?re) (re_parse ?re) h ct (ep_link_key b) ''b'' 1010 (Some (new_guard 256))
      = (Some (guard_commit (new_guard 256) h), Inr e)"
    by (simp add: open_sealed_def keys h ct_eq_def guard_check_def new_guard_def)
  then have "receive_sealed ?re b ''b'' 1010 payload = (guard_commit (new_guard 256) h, Inr (Inr (h, e, True)))"
    by (simp add: receive_sealed_def Let_def unpack_pack [OF pk, of "re_load_header ?re", OF h(2)] keys sgn)
  then have "\<exists>l' rc xr. transmit ?re ''a'' ''b'' e 1000 1010 demo_nonce l
       = (l', Inr (rc, Some e, xr)) \<and> rc_status rc = DELIVERED \<and> rc_frames_acked rc = frames_acked st"
    using ab h(1) pk run by (auto simp: transmit_def Let_def sim_receipt_def)
  then obtain l' rc xr where t: "transmit ?re ''a'' ''b'' e 1000 1010 demo_nonce l = (l', Inr (rc, Some e, xr))"
    "rc_status rc = DELIVERED" "rc_frames_acked rc = frames_acked st" by blast
  have "frames_acked st = length fs"
    by (rule delivered_acks [OF run(1,2)]) (simp_all add: bp fr)
  with t fr(2) h(1,2) ab show ?thesis by auto
qed

lemma demo_small: "small_envelope demo_envelope" and demo_fresh: "fresh_pair demo_link"
proof -
  have "length (serialize_envelope no_floats demo_envelope) \<le> 1000" by code_simp
  moreover have "canonical_bytes no_floats (model_dump demo_envelope) \<noteq> None"
    by (simp add: canonical_bytes_def model_dump_def demo_envelope_def Let_def json_opt_str_def
        del: canonical_dumps.simps)
  ultimately show "small_envelope demo_envelope" by (simp add: small_envelope_def demo_envelope_def truthy_def)
  show "fresh_pair demo_link"
    by (simp add: fresh_pair_def demo_link_def add_endpoint_def derive_link_key_def Let_def)
qed

theorem exchange_is_faithful_witness:
  "\<exists>l' rc xr. transmit (demo_env demo_envelope demo_link) ''a'' ''b'' demo_envelope 1000 1010 demo_nonce demo_link
       = (l', Inr (rc, Some demo_envelope, xr)) \<and> rc_status rc = DELIVERED
     \<and> xr_received_digest xr = Some (xr_payload_digest xr)"
proof -
  obtain l' rc xr where t: "transmit (demo_env demo_envelope demo_link) ''a'' ''b'' demo_envelope 1000 1010 demo_nonce demo_link
       = (l', Inr (rc, Some demo_envelope, xr))" "rc_status rc = DELIVERED" "rc_frames_acked rc < 2 ^ 16"
    and load: "\<And>ep h ct. sl_endpoints demo_link ''a'' = Some ep \<Longrightarrow>
        seal_step (demo_env demo_envelope demo_link) ep ''a'' ''b'' demo_envelope 1000 demo_nonce (sl_profile demo_link) = Inr (h, ct) \<Longrightarrow>
        re_load_header (demo_env demo_envelope demo_link) (aad h) = Some h"
    using small_exchange [OF demo_small demo_fresh] by blast
  obtain a b where ab: "sl_endpoints demo_link ''a'' = Some a" "sl_endpoints demo_link ''b'' = Some b"
    "sl_profile demo_link = reference_bpsk" "ep_link_key b = ep_link_key a" using demo_fresh by (elim fresh_pairE)
  have "Some demo_envelope = Some demo_envelope \<and> xr_received_digest xr = Some (xr_payload_digest xr) \<and> rc_simulated rc"
    by (rule exchange_is_faithful [OF t _ _ ab(1,2)])
       (use load ab in \<open>simp_all add: perfect_radio reference_bpsk_def\<close>)
  with t show ?thesis by blast
qed

end
