(* ===== verification/TxPolicy.thy ===== *)
theory TxPolicy
  imports OtaSecurity Flowgraph
begin

text \<open>
  \<open>transport/ota/authorization.py\<close>, \<open>tx_control.py\<close> and \<open>executor.py\<close>: the transmit plan and its
  digest, the two gate evaluations (node policy with an approval bound to the plan, and the
  operator's local configuration), and the executor that only reaches a radiating backend through
  the operator gates. \<open>fr\<close> is the float \<open>repr\<close> of the standard library.
\<close>

section \<open>Plans, policies and approvals\<close>

record tx_capability =
  adapter_supports_tx :: bool
  device_reports_tx :: bool
  min_freq_hz :: int
  max_freq_hz :: int
  cap_max_sample_rate :: int
  cap_max_gain :: pyfloat
  cap_channels :: "int list"

record tx_policy =
  tx_allowed :: bool
  allowed_freq_ranges_hz :: "(int \<times> int) list"
  pol_max_sample_rate :: int
  max_occupied_bandwidth_hz :: int
  pol_max_gain :: pyfloat
  max_duration_seconds :: pyfloat
  max_messages :: int
  max_frames :: int
  approved_profiles :: "string list"

definition default_tx_policy :: tx_policy where
  "default_tx_policy = \<lparr>tx_allowed = False, allowed_freq_ranges_hz = [], pol_max_sample_rate = 0,
     max_occupied_bandwidth_hz = 0, pol_max_gain = Fin 0, max_duration_seconds = Fin 0,
     max_messages = 0, max_frames = 0, approved_profiles = []\<rparr>"

record tx_plan =
  plan_device_id :: string
  uri :: string
  plan_profile_id :: string
  plan_profile_digest :: string
  plan_flowgraph_digest :: string
  implementation_digest :: string
  frame_artifact_digest :: string
  center_frequency_hz :: int
  plan_sample_rate :: int
  plan_occupied_bandwidth_hz :: int
  gain :: pyfloat
  tx_channel :: int
  duration_seconds :: pyfloat
  message_count :: int
  frame_count :: int

definition plan_json :: "tx_plan \<Rightarrow> json" where
  "plan_json p = JObj [
     (''device_id'', JStr (plan_device_id p)), (''uri'', JStr (uri p)),
     (''profile_id'', JStr (plan_profile_id p)), (''profile_digest'', JStr (plan_profile_digest p)),
     (''flowgraph_digest'', JStr (plan_flowgraph_digest p)),
     (''implementation_digest'', JStr (implementation_digest p)),
     (''frame_artifact_digest'', JStr (frame_artifact_digest p)),
     (''center_frequency_hz'', JInt (center_frequency_hz p)), (''sample_rate'', JInt (plan_sample_rate p)),
     (''occupied_bandwidth_hz'', JInt (plan_occupied_bandwidth_hz p)), (''gain'', JFloat (gain p)),
     (''channel'', JInt (tx_channel p)), (''duration_seconds'', JFloat (duration_seconds p)),
     (''message_count'', JInt (message_count p)), (''frame_count'', JInt (frame_count p))]"

definition plan_text :: "(pyfloat \<Rightarrow> string) \<Rightarrow> tx_plan \<Rightarrow> bytes" where
  "plan_text fr p = utf8 (dumps fr (plan_json p))"

definition plan_digest_of :: "(pyfloat \<Rightarrow> string) \<Rightarrow> tx_plan \<Rightarrow> string" where
  "plan_digest_of fr p = sha256_text (plan_text fr p)"

record tx_lease =
  txl_lease_id :: string
  txl_device_id :: string
  txl_expires_at :: int
  txl_active :: bool

record tx_authorization =
  authorization_id :: string
  auth_plan_digest :: string
  auth_operator :: string
  auth_approved :: bool
  auth_expires_at :: int

section \<open>The node policy gates\<close>

datatype tx_reason =
    AdapterNoTx | DeviceNoTx | TxNotEnabled | ProfileNotApproved | FrequencyNotAuthorized
  | FrequencyOutsideDevice | SampleRateNotAuthorized | BandwidthNotAuthorized | GainNotAuthorized
  | DurationNotAuthorized | CountNotAuthorized | ChannelNotAuthorized | ValidationFailed
  | ConflictingTx | NoValidLease | NoAuthorization | AuthorizationOtherPlan
  | DeviceAbsent | PeerNotAuthenticated | SampleRateOutsideDevice | GainOutsideDevice
  | ChannelUnsupported | DurationOverCeiling | GainOverCeiling | FramesOverCeiling | NotConfirmed

definition freq_authorized :: "int \<Rightarrow> int \<Rightarrow> (int \<times> int) list \<Rightarrow> bool" where
  "freq_authorized center bw ranges =
     (let lo = center - bw div 2; hi = center + bw div 2
      in list_ex (\<lambda>(r_lo, r_hi). r_lo \<le> lo \<and> hi \<le> r_hi) ranges)"

text \<open>The failed gates in order; the transmission is allowed when there is none.\<close>

definition failed :: "(bool \<times> tx_reason) list \<Rightarrow> tx_reason list" where
  "failed checks = map snd (filter fst checks)"

definition lease_invalid :: "tx_lease option \<Rightarrow> tx_plan \<Rightarrow> int \<Rightarrow> bool" where
  "lease_invalid l p now = (case l of None \<Rightarrow> True
     | Some l \<Rightarrow> \<not> txl_active l \<or> txl_expires_at l \<le> now \<or> txl_device_id l \<noteq> plan_device_id p)"

definition authorization_reasons :: "(pyfloat \<Rightarrow> string) \<Rightarrow> tx_authorization option \<Rightarrow> tx_plan \<Rightarrow> int \<Rightarrow> tx_reason list" where
  "authorization_reasons fr a p now = (case a of None \<Rightarrow> [NoAuthorization]
     | Some a \<Rightarrow> if \<not> auth_approved a \<or> auth_expires_at a \<le> now then [NoAuthorization]
                 else if auth_plan_digest a \<noteq> plan_digest_of fr p then [AuthorizationOtherPlan] else [])"

definition evaluate_tx_gates :: "(pyfloat \<Rightarrow> string) \<Rightarrow> tx_plan \<Rightarrow> tx_policy \<Rightarrow> tx_capability \<Rightarrow> tx_lease option
    \<Rightarrow> tx_authorization option \<Rightarrow> bool \<Rightarrow> bool \<Rightarrow> int \<Rightarrow> bool \<times> tx_reason list" where
  "evaluate_tx_gates fr p pol cap lease auth validation_passed conflicting now =
     (let reasons = failed
        [(\<not> adapter_supports_tx cap, AdapterNoTx),
         (\<not> device_reports_tx cap, DeviceNoTx),
         (\<not> tx_allowed pol, TxNotEnabled),
         (plan_profile_id p \<notin> set (approved_profiles pol), ProfileNotApproved),
         (\<not> freq_authorized (center_frequency_hz p) (plan_occupied_bandwidth_hz p) (allowed_freq_ranges_hz pol),
          FrequencyNotAuthorized),
         (\<not> (min_freq_hz cap \<le> center_frequency_hz p \<and> center_frequency_hz p \<le> max_freq_hz cap),
          FrequencyOutsideDevice),
         (plan_sample_rate p > pol_max_sample_rate pol \<or> plan_sample_rate p > cap_max_sample_rate cap,
          SampleRateNotAuthorized),
         (plan_occupied_bandwidth_hz p > max_occupied_bandwidth_hz pol, BandwidthNotAuthorized),
         (gain p > pol_max_gain pol \<or> gain p > cap_max_gain cap, GainNotAuthorized),
         (duration_seconds p > max_duration_seconds pol, DurationNotAuthorized),
         (message_count p > max_messages pol \<or> frame_count p > max_frames pol, CountNotAuthorized),
         (tx_channel p \<notin> set (cap_channels cap), ChannelNotAuthorized),
         (\<not> validation_passed, ValidationFailed),
         (conflicting, ConflictingTx),
         (lease_invalid lease p now, NoValidLease)]
        @ authorization_reasons fr auth p now
      in (reasons = [], reasons))"

section \<open>The operator's local gates\<close>

record operator_tx_config =
  op_enabled :: bool
  op_device_id :: "string option"
  op_uri :: "string option"
  op_tx_channel :: int
  op_antenna :: "string option"
  op_preferred_profiles :: "string list"
  op_region_label :: string
  op_max_duration_seconds :: pyfloat
  op_max_message_bytes :: int
  op_max_frame_count :: int
  op_gain_ceiling :: pyfloat
  op_allow_ip_fallback :: bool
  op_require_interactive :: bool
  op_allow_preauthorized :: bool

definition default_operator_config :: operator_tx_config where
  "default_operator_config = \<lparr>op_enabled = False, op_device_id = None, op_uri = None, op_tx_channel = 0,
     op_antenna = None, op_preferred_profiles = [], op_region_label = [], op_max_duration_seconds = Fin 5,
     op_max_message_bytes = 65536, op_max_frame_count = 1000, op_gain_ceiling = Fin 0,
     op_allow_ip_fallback = False, op_require_interactive = True, op_allow_preauthorized = False\<rparr>"

record preauth_envelope =
  pe_envelope_id :: string
  pe_device_id :: string
  pe_freq_min_hz :: int
  pe_freq_max_hz :: int
  pe_max_occupied_bandwidth_hz :: int
  pe_gain_ceiling :: pyfloat
  pe_max_duration_seconds :: pyfloat
  pe_allowed_profiles :: "string list"
  pe_max_payload_bytes :: int
  pe_max_retries :: int
  pe_valid_until :: int

definition plan_within_envelope :: "tx_plan \<Rightarrow> preauth_envelope \<Rightarrow> int \<Rightarrow> bool" where
  "plan_within_envelope p env now =
     (if pe_valid_until env \<le> now \<or> plan_device_id p \<noteq> pe_device_id env then False
      else let lo = center_frequency_hz p - plan_occupied_bandwidth_hz p div 2;
               hi = center_frequency_hz p + plan_occupied_bandwidth_hz p div 2
           in pe_freq_min_hz env \<le> lo \<and> hi \<le> pe_freq_max_hz env
              \<and> plan_occupied_bandwidth_hz p \<le> pe_max_occupied_bandwidth_hz env
              \<and> gain p \<le> pe_gain_ceiling env
              \<and> duration_seconds p \<le> pe_max_duration_seconds env
              \<and> plan_profile_id p \<in> set (pe_allowed_profiles env))"

definition operator_confirmed :: "tx_plan \<Rightarrow> operator_tx_config \<Rightarrow> bool \<Rightarrow> preauth_envelope option \<Rightarrow> int \<Rightarrow> bool" where
  "operator_confirmed p cfg interactive envelope now \<longleftrightarrow> interactive \<or>
     (op_allow_preauthorized cfg \<and> (case envelope of None \<Rightarrow> False | Some e \<Rightarrow> plan_within_envelope p e now))"

definition evaluate_operator_tx :: "tx_plan \<Rightarrow> operator_tx_config \<Rightarrow> tx_capability \<Rightarrow> bool \<Rightarrow> bool \<Rightarrow> bool
    \<Rightarrow> preauth_envelope option \<Rightarrow> bool \<Rightarrow> int \<Rightarrow> bool \<times> tx_reason list" where
  "evaluate_operator_tx p cfg cap device_present peer_authenticated interactive envelope conflicting now =
     (let reasons = failed
        [(\<not> op_enabled cfg, TxNotEnabled),
         (\<not> adapter_supports_tx cap, AdapterNoTx),
         (\<not> device_reports_tx cap, DeviceNoTx),
         (\<not> device_present, DeviceAbsent),
         (\<not> peer_authenticated, PeerNotAuthenticated),
         (\<not> (min_freq_hz cap \<le> center_frequency_hz p \<and> center_frequency_hz p \<le> max_freq_hz cap),
          FrequencyOutsideDevice),
         (plan_sample_rate p > cap_max_sample_rate cap, SampleRateOutsideDevice),
         (gain p > cap_max_gain cap, GainOutsideDevice),
         (cap_channels cap \<noteq> [] \<and> tx_channel p \<notin> set (cap_channels cap), ChannelUnsupported),
         (duration_seconds p > op_max_duration_seconds cfg, DurationOverCeiling),
         (op_gain_ceiling cfg > Fin 0 \<and> gain p > op_gain_ceiling cfg, GainOverCeiling),
         (frame_count p > op_max_frame_count cfg, FramesOverCeiling),
         (conflicting, ConflictingTx),
         (\<not> operator_confirmed p cfg interactive envelope now, NotConfirmed)]
      in (reasons = [], reasons))"

section \<open>The executor\<close>

text \<open>A backend acts on the world \<open>'w\<close> and returns its metadata; only \<open>radiated\<close> is read back.\<close>

record 'w tx_backend =
  be_id :: string
  be_radiates :: bool
  be_transmit :: "'w \<Rightarrow> tx_plan \<Rightarrow> pyfloat \<Rightarrow> 'w \<times> bool option"

record tx_record =
  txr_allowed :: bool
  txr_plan_digest :: string
  txr_flowgraph_digest :: string
  txr_backend :: string
  txr_radiated :: bool
  txr_reasons :: "tx_reason list"
  txr_device_id :: string
  txr_profile_id :: string

datatype tx_error = ProfileDigestMismatch | FlowgraphFailed flowgraph_error
  | FlowgraphInvalid "source_problem list" | FlowgraphDigestMismatch

definition execute_peer_tx :: "(pyfloat \<Rightarrow> string) \<Rightarrow> 'w tx_backend \<Rightarrow> tx_plan \<Rightarrow> rf_profile
    \<Rightarrow> operator_tx_config \<Rightarrow> tx_capability \<Rightarrow> bool \<Rightarrow> bool \<Rightarrow> bool \<Rightarrow> preauth_envelope option \<Rightarrow> int
    \<Rightarrow> 'w \<Rightarrow> 'w \<times> (tx_error + tx_record)" where
  "execute_peer_tx fr be p profile cfg cap device_present peer_authenticated interactive envelope ts w =
     (if plan_profile_digest p \<noteq> [] \<and> plan_profile_digest p \<noteq> profile_digest fr profile
      then (w, Inl ProfileDigestMismatch)
      else case (generate_tx_flowgraph profile ''synthetic'', generate_rx_flowgraph profile ''synthetic'') of
        (Inl e, _) \<Rightarrow> (w, Inl (FlowgraphFailed e))
      | (_, Inl e) \<Rightarrow> (w, Inl (FlowgraphFailed e))
      | (Inr tx_src, Inr rx_src) \<Rightarrow>
          (let fg_digest = flowgraph_digest tx_src rx_src;
               rec = \<lparr>txr_allowed = False, txr_plan_digest = plan_digest_of fr p, txr_flowgraph_digest = fg_digest,
                      txr_backend = be_id be, txr_radiated = False, txr_reasons = [],
                      txr_device_id = plan_device_id p, txr_profile_id = plan_profile_id p\<rparr>;
               gate = (if be_radiates be
                       then evaluate_operator_tx p cfg cap device_present peer_authenticated interactive envelope False ts
                       else (True, []))
           in if source_problems tx_src \<noteq> [] then (w, Inl (FlowgraphInvalid (source_problems tx_src)))
              else if plan_flowgraph_digest p \<noteq> [] \<and> plan_flowgraph_digest p \<notin> {''fg'', fg_digest}
              then (w, Inl FlowgraphDigestMismatch)
              else if \<not> fst gate then (w, Inr (rec\<lparr>txr_reasons := snd gate\<rparr>))
              else (case be_transmit be w p (duration_seconds p) of
                      (w', radiated) \<Rightarrow> (w', Inr (rec\<lparr>txr_allowed := True, txr_radiated := (radiated = Some True)\<rparr>)))))"

section \<open>An approval binds one plan\<close>

text \<open>What the digest relies on in \<open>float.__repr__\<close>: distinct finite floats print differently, and no comma.\<close>

definition float_repr_ok :: "(pyfloat \<Rightarrow> string) \<Rightarrow> bool" where
  "float_repr_ok fr \<longleftrightarrow> (\<forall>a b. fr (Fin a) = fr (Fin b) \<longrightarrow> a = b) \<and>
     (\<forall>a. CHR '','' \<notin> set (fr (Fin a)) \<and> fr (Fin a) \<notin> {''NaN'', ''Infinity'', ''-Infinity''})"

lemma json_float_inj: "float_repr_ok fr \<Longrightarrow> json_float fr x = json_float fr y \<Longrightarrow> x = y"
  by (cases x; cases y) (auto simp: float_repr_ok_def)

lemma json_float_no_comma: "float_repr_ok fr \<Longrightarrow> CHR '','' \<notin> set (json_float fr x)"
  by (cases x) (auto simp: float_repr_ok_def)

lemma json_float_unique:
  assumes "float_repr_ok fr" and "json_float fr x @ CHR '','' # r = json_float fr y @ CHR '','' # q"
  shows "x = y \<and> r = q"
proof -
  have split: "takeWhile (\<lambda>c. c \<noteq> CHR '','') (s @ CHR '','' # u) = s
      \<and> dropWhile (\<lambda>c. c \<noteq> CHR '','') (s @ CHR '','' # u) = CHR '','' # u"
    if "CHR '','' \<notin> set s" for s u
    using that by (induction s) auto
  note l = split [OF json_float_no_comma [OF assms(1)], of x r]
    and rr = split [OF json_float_no_comma [OF assms(1)], of y q]
  have "json_float fr x = json_float fr y"
    using l rr unfolding assms(2) by (metis (no_types))
  moreover have "CHR '','' # r = CHR '','' # q"
    using l rr unfolding assms(2) by (metis (no_types))
  ultimately have "json_float fr x = json_float fr y \<and> r = q" by simp
  with json_float_inj [OF assms(1)] show ?thesis by blast
qed

lemma plan_json_text:
  "dumps fr (plan_json p) =
     ''{'' @ join_with '','' [
       json_str ''center_frequency_hz'' @ '':'' @ int_repr (center_frequency_hz p),
       json_str ''channel'' @ '':'' @ int_repr (tx_channel p),
       json_str ''device_id'' @ '':'' @ json_str (plan_device_id p),
       json_str ''duration_seconds'' @ '':'' @ json_float fr (duration_seconds p),
       json_str ''flowgraph_digest'' @ '':'' @ json_str (plan_flowgraph_digest p),
       json_str ''frame_artifact_digest'' @ '':'' @ json_str (frame_artifact_digest p),
       json_str ''frame_count'' @ '':'' @ int_repr (frame_count p),
       json_str ''gain'' @ '':'' @ json_float fr (gain p),
       json_str ''implementation_digest'' @ '':'' @ json_str (implementation_digest p),
       json_str ''message_count'' @ '':'' @ int_repr (message_count p),
       json_str ''occupied_bandwidth_hz'' @ '':'' @ int_repr (plan_occupied_bandwidth_hz p),
       json_str ''profile_digest'' @ '':'' @ json_str (plan_profile_digest p),
       json_str ''profile_id'' @ '':'' @ json_str (plan_profile_id p),
       json_str ''sample_rate'' @ '':'' @ int_repr (plan_sample_rate p),
       json_str ''uri'' @ '':'' @ json_str (uri p)] @ ''}''"
  by (simp add: plan_json_def)

lemma plan_text_inj:
  assumes "float_repr_ok fr" and "plan_text fr a = plan_text fr b"
  shows "a = b"
proof -
  note fl = json_float_unique [OF assms(1)]
  from assms(2) have "dumps fr (plan_json a) = dumps fr (plan_json b)"
    unfolding plan_text_def by (rule utf8_inj)
  then show ?thesis
    unfolding plan_json_text join_with.simps append_assoc append_Cons append_Nil
    by (auto dest!: json_str_unique int_repr_unique_comma fl json_str_inj intro!: tx_plan.equality)
qed

lemma to_hex_inj: "to_hex a = to_hex b \<Longrightarrow> a = b"
  by (metis from_hex_to_hex option.inject)

lemma failed_Nil: "failed checks = [] \<longleftrightarrow> list_all (\<lambda>c. \<not> fst c) checks"
  by (induction checks) (auto simp: failed_def)

lemma gates_authorization:
  "fst (evaluate_tx_gates fr p pol cap lease (Some a) v c now) \<Longrightarrow>
     auth_plan_digest a = plan_digest_of fr p \<and> auth_approved a \<and> now < auth_expires_at a"
  by (auto simp: evaluate_tx_gates_def authorization_reasons_def Let_def split: if_splits)

text \<open>
  C11: one approval, one plan. If the same operator authorization opens the gates for two plans,
  whatever the policies, devices, leases and times, then the plans are equal in every field, or
  their canonical texts are two different inputs with the same SHA-256.
\<close>

theorem approval_binds_plan:
  assumes "float_repr_ok fr"
    and "fst (evaluate_tx_gates fr p pol cap lease (Some auth) v c now)"
    and "fst (evaluate_tx_gates fr p' pol' cap' lease' (Some auth) v' c' now')"
  shows "p = p' \<or> (plan_text fr p \<noteq> plan_text fr p' \<and> sha256 (plan_text fr p) = sha256 (plan_text fr p'))"
proof -
  have "plan_digest_of fr p = plan_digest_of fr p'"
    using gates_authorization [OF assms(2)] gates_authorization [OF assms(3)] by simp
  then have "sha256 (plan_text fr p) = sha256 (plan_text fr p')"
    by (auto simp: plan_digest_of_def sha256_text_def dest: to_hex_inj)
  with plan_text_inj [OF assms(1), of p p'] show ?thesis by blast
qed

text \<open>A float printer of the required kind, and a plan that the gates admit.\<close>

definition demo_float_repr :: "pyfloat \<Rightarrow> string" where
  "demo_float_repr x = (case x of Fin q \<Rightarrow>
     (case quotient_of q of (n, d) \<Rightarrow> int_repr n @ ''/'' @ int_repr d) | _ \<Rightarrow> [])"

lemma int_repr_char: "c \<in> set (int_repr i) \<Longrightarrow> is_digit c \<or> c = CHR ''-''"
  using dec_digits_digits by (auto simp: int_repr_def list_all_iff split: if_splits)

lemma demo_float_repr_ok: "float_repr_ok demo_float_repr"
proof -
  have eq: "a = b" if e: "demo_float_repr (Fin a) = demo_float_repr (Fin b)" for a b
  proof -
    obtain n d where a: "quotient_of a = (n, d)" by fastforce
    obtain m e where b: "quotient_of b = (m, e)" by fastforce
    have "int_repr n @ CHR ''/'' # int_repr d = int_repr m @ CHR ''/'' # int_repr e"
      using e by (simp add: demo_float_repr_def a b)
    then have "n = m \<and> CHR ''/'' # int_repr d = CHR ''/'' # int_repr e"
      by (rule int_repr_unique) (simp_all add: is_digit_def)
    then have "n = m \<and> d = e" using int_repr_unique [of d "[]" e "[]"] by simp
    then have "quotient_of a = quotient_of b" by (simp add: a b)
    then show ?thesis by (rule quotient_of_inject)
  qed
  have slash: "CHR ''/'' \<in> set (demo_float_repr (Fin a))" for a
    by (cases "quotient_of a") (simp add: demo_float_repr_def)
  have "CHR '','' \<notin> set (demo_float_repr (Fin a))" for a
    by (auto simp: demo_float_repr_def is_digit_def split: prod.splits dest!: int_repr_char)
  moreover have "demo_float_repr (Fin a) \<notin> {''NaN'', ''Infinity'', ''-Infinity''}" for a
    using slash [of a] by auto
  ultimately show ?thesis using eq by (auto simp: float_repr_ok_def)
qed

definition demo_plan :: tx_plan where
  "demo_plan = \<lparr>plan_device_id = ''d'', uri = ''ip:pluto'', plan_profile_id = ''ref-bpsk-1k'',
     plan_profile_digest = [], plan_flowgraph_digest = ''fg'', implementation_digest = ''i'',
     frame_artifact_digest = ''f'', center_frequency_hz = 433920000, plan_sample_rate = 8000,
     plan_occupied_bandwidth_hz = 1200, gain = Fin 5, tx_channel = 0, duration_seconds = Fin 2,
     message_count = 1, frame_count = 10\<rparr>"

definition demo_policy :: tx_policy where
  "demo_policy = \<lparr>tx_allowed = True, allowed_freq_ranges_hz = [(433050000, 434790000)],
     pol_max_sample_rate = 10000, max_occupied_bandwidth_hz = 2000, pol_max_gain = Fin 10,
     max_duration_seconds = Fin 5, max_messages = 5, max_frames = 100, approved_profiles = [''ref-bpsk-1k'']\<rparr>"

definition demo_capability :: tx_capability where
  "demo_capability = \<lparr>adapter_supports_tx = True, device_reports_tx = True, min_freq_hz = 325000000,
     max_freq_hz = 3800000000, cap_max_sample_rate = 61440000, cap_max_gain = Fin 89, cap_channels = [0]\<rparr>"

definition demo_lease :: tx_lease where
  "demo_lease = \<lparr>txl_lease_id = ''l'', txl_device_id = ''d'', txl_expires_at = 2000, txl_active = True\<rparr>"

definition demo_auth :: tx_authorization where
  "demo_auth = \<lparr>authorization_id = ''a'', auth_plan_digest = plan_digest_of demo_float_repr demo_plan,
     auth_operator = ''op'', auth_approved = True, auth_expires_at = 2000\<rparr>"

lemma demo_gates_open:
  "fst (evaluate_tx_gates demo_float_repr demo_plan demo_policy demo_capability (Some demo_lease)
     (Some demo_auth) True False 1000)"
  by (simp add: evaluate_tx_gates_def authorization_reasons_def lease_invalid_def failed_def Let_def
      freq_authorized_def demo_auth_def demo_lease_def)
    (simp add: demo_plan_def demo_policy_def demo_capability_def)

text \<open>
  The approval of the plan above, presented with a plan that differs in its gain alone: the gates
  open exactly if the two texts are a SHA-256 collision.
\<close>

lemma demo_louder_gates:
  "sha256 (plan_text demo_float_repr demo_plan) = sha256 (plan_text demo_float_repr (demo_plan\<lparr>gain := Fin 6\<rparr>))
   \<Longrightarrow> fst (evaluate_tx_gates demo_float_repr (demo_plan\<lparr>gain := Fin 6\<rparr>) demo_policy demo_capability
     (Some demo_lease) (Some demo_auth) True False 1000)"
  by (simp add: evaluate_tx_gates_def authorization_reasons_def lease_invalid_def failed_def Let_def
      freq_authorized_def demo_auth_def demo_lease_def plan_digest_of_def sha256_text_def)
    (simp add: demo_plan_def demo_policy_def demo_capability_def)

theorem approval_binds_plan_witness:
  "fst (evaluate_tx_gates demo_float_repr demo_plan demo_policy demo_capability (Some demo_lease)
     (Some demo_auth) True False 1000)
   \<and> fst (evaluate_tx_gates demo_float_repr (demo_plan\<lparr>gain := Fin 6\<rparr>) demo_policy demo_capability
       (Some demo_lease) (Some demo_auth) True False 1000)
     = (plan_text demo_float_repr demo_plan \<noteq> plan_text demo_float_repr (demo_plan\<lparr>gain := Fin 6\<rparr>)
        \<and> sha256 (plan_text demo_float_repr demo_plan)
            = sha256 (plan_text demo_float_repr (demo_plan\<lparr>gain := Fin 6\<rparr>)))"
proof -
  have "demo_plan \<noteq> demo_plan\<lparr>gain := Fin 6\<rparr>" by (simp add: demo_plan_def)
  then show ?thesis
    using demo_gates_open demo_louder_gates approval_binds_plan [OF demo_float_repr_ok demo_gates_open]
    by blast
qed

section \<open>What an open gate guarantees\<close>

lemma freq_authorized_iff:
  "freq_authorized c bw ranges \<longleftrightarrow> (\<exists>(lo, hi) \<in> set ranges. lo \<le> c - bw div 2 \<and> c + bw div 2 \<le> hi)"
  by (auto simp: freq_authorized_def list_ex_iff Let_def)

text \<open>The plan stays inside what both the policy and the device allow, float bounds included.\<close>

definition within_bounds :: "tx_plan \<Rightarrow> tx_policy \<Rightarrow> tx_capability \<Rightarrow> bool" where
  "within_bounds p pol cap \<longleftrightarrow>
     (\<exists>(lo, hi) \<in> set (allowed_freq_ranges_hz pol).
        lo \<le> center_frequency_hz p - plan_occupied_bandwidth_hz p div 2
        \<and> center_frequency_hz p + plan_occupied_bandwidth_hz p div 2 \<le> hi)
     \<and> min_freq_hz cap \<le> center_frequency_hz p \<and> center_frequency_hz p \<le> max_freq_hz cap
     \<and> plan_sample_rate p \<le> min (pol_max_sample_rate pol) (cap_max_sample_rate cap)
     \<and> gain p \<le> pol_max_gain pol \<and> gain p \<le> cap_max_gain cap
     \<and> duration_seconds p \<le> max_duration_seconds pol
     \<and> message_count p \<le> max_messages pol \<and> frame_count p \<le> max_frames pol
     \<and> tx_channel p \<in> set (cap_channels cap)"

definition real_floats :: "pyfloat list \<Rightarrow> bool" where
  "real_floats xs \<longleftrightarrow> list_all (\<lambda>x. x \<noteq> NaN) xs"

text \<open>
  The policy gates are closed by default and exact. For plans, policies and devices whose
  float fields are numbers, the gates open exactly when the plan is within every bound, transmitting
  is enabled, the profile is approved, the implementation validated, nothing conflicts, the lease
  covers the device and time, and an unexpired approval names this plan's digest.
\<close>

theorem tx_gates_exact:
  assumes "real_floats [gain p, duration_seconds p, pol_max_gain pol, cap_max_gain cap, max_duration_seconds pol]"
  shows "fst (evaluate_tx_gates fr p pol cap lease auth v conflicting now) \<longleftrightarrow>
     within_bounds p pol cap \<and> plan_occupied_bandwidth_hz p \<le> max_occupied_bandwidth_hz pol
     \<and> adapter_supports_tx cap \<and> device_reports_tx cap \<and> tx_allowed pol
     \<and> plan_profile_id p \<in> set (approved_profiles pol) \<and> v \<and> \<not> conflicting
     \<and> (\<exists>l. lease = Some l \<and> txl_active l \<and> now < txl_expires_at l \<and> txl_device_id l = plan_device_id p)
     \<and> (\<exists>a. auth = Some a \<and> auth_approved a \<and> now < auth_expires_at a
            \<and> auth_plan_digest a = plan_digest_of fr p)"
proof -
  have nn: "\<not> gain p > pol_max_gain pol \<longleftrightarrow> gain p \<le> pol_max_gain pol"
    "\<not> gain p > cap_max_gain cap \<longleftrightarrow> gain p \<le> cap_max_gain cap"
    "\<not> duration_seconds p > max_duration_seconds pol \<longleftrightarrow> duration_seconds p \<le> max_duration_seconds pol"
    using assms by (simp_all add: real_floats_def fnot_less)
  have lease: "\<not> lease_invalid lease p now \<longleftrightarrow>
      (\<exists>l. lease = Some l \<and> txl_active l \<and> now < txl_expires_at l \<and> txl_device_id l = plan_device_id p)"
    by (cases lease) (auto simp: lease_invalid_def)
  have auth: "authorization_reasons fr auth p now = [] \<longleftrightarrow>
      (\<exists>a. auth = Some a \<and> auth_approved a \<and> now < auth_expires_at a \<and> auth_plan_digest a = plan_digest_of fr p)"
    by (cases auth) (auto simp: authorization_reasons_def)
  have "fst (evaluate_tx_gates fr p pol cap lease auth v conflicting now) \<longleftrightarrow>
      within_bounds p pol cap \<and> plan_occupied_bandwidth_hz p \<le> max_occupied_bandwidth_hz pol
      \<and> adapter_supports_tx cap \<and> device_reports_tx cap \<and> tx_allowed pol
      \<and> plan_profile_id p \<in> set (approved_profiles pol) \<and> v \<and> \<not> conflicting
      \<and> \<not> lease_invalid lease p now \<and> authorization_reasons fr auth p now = []"
    by (simp add: evaluate_tx_gates_def Let_def failed_Nil within_bounds_def freq_authorized_iff
        not_less nn) blast
  then show ?thesis unfolding lease auth .
qed

theorem tx_gates_exact_witness:
  "fst (evaluate_tx_gates demo_float_repr demo_plan demo_policy demo_capability (Some demo_lease)
     (Some demo_auth) True False 1000) \<and> within_bounds demo_plan demo_policy demo_capability"
proof -
  have "real_floats [gain demo_plan, duration_seconds demo_plan, pol_max_gain demo_policy,
      cap_max_gain demo_capability, max_duration_seconds demo_policy]"
    by (simp add: real_floats_def demo_plan_def demo_policy_def demo_capability_def)
  from tx_gates_exact [OF this] demo_gates_open show ?thesis by blast
qed

section \<open>The executor reaches a radiating backend only through the operator gates\<close>

lemma execute_peer_tx_acts:
  assumes "execute_peer_tx fr be p profile cfg cap present peer interactive env ts w = (w', r)"
    and "w' \<noteq> w \<or> (\<exists>rec. r = Inr rec \<and> txr_radiated rec)"
  shows "be_radiates be \<longrightarrow> fst (evaluate_operator_tx p cfg cap present peer interactive env False ts)"
    and "plan_profile_digest p \<in> {[], profile_digest fr profile}"
    and "\<exists>rec. r = Inr rec \<and> txr_allowed rec \<and> txr_plan_digest rec = plan_digest_of fr p"
proof -
  have pd: "plan_profile_digest p \<in> {[], profile_digest fr profile}"
  proof (rule ccontr)
    assume "plan_profile_digest p \<notin> {[], profile_digest fr profile}"
    then have "(w', r) = (w, Inl ProfileDigestMismatch)"
      using assms(1) by (simp add: execute_peer_tx_def)
    with assms(2) show False by simp
  qed
  then have nd: "\<not> (plan_profile_digest p \<noteq> [] \<and> plan_profile_digest p \<noteq> profile_digest fr profile)" by blast
  note run = assms(1) [unfolded execute_peer_tx_def if_not_P [OF nd]]
  obtain tx rx where g: "generate_tx_flowgraph profile ''synthetic'' = Inr tx"
    "generate_rx_flowgraph profile ''synthetic'' = Inr rx"
    using run assms(2)
    by (cases "generate_tx_flowgraph profile ''synthetic''"; cases "generate_rx_flowgraph profile ''synthetic''") auto
  let ?gate = "if be_radiates be then evaluate_operator_tx p cfg cap present peer interactive env False ts
      else (True, [])"
  have gate: "fst ?gate \<and> (\<exists>rec. r = Inr rec \<and> txr_allowed rec \<and> txr_plan_digest rec = plan_digest_of fr p)"
    using run assms(2) by (simp add: g Let_def split: if_split_asm prod.split_asm) fastforce+
  then show "be_radiates be \<longrightarrow> fst (evaluate_operator_tx p cfg cap present peer interactive env False ts)"
    by (cases "be_radiates be") simp_all
  show "plan_profile_digest p \<in> {[], profile_digest fr profile}" by (rule pd)
  show "\<exists>rec. r = Inr rec \<and> txr_allowed rec \<and> txr_plan_digest rec = plan_digest_of fr p"
    using gate by blast
qed

text \<open>
  What the operator's local configuration permits: enabled, device present and capable, peer
  authenticated, plan inside the device's bounds (frequency, sample rate, gain, channel) and the
  operator's (duration, frame count, gain ceiling when one is set), and confirmed interactively or by
  a pre-authorization whose band, bandwidth, gain, duration, profile, device and validity cover the
  plan.
\<close>

definition operator_permits :: "tx_plan \<Rightarrow> operator_tx_config \<Rightarrow> tx_capability \<Rightarrow> bool \<Rightarrow> bool \<Rightarrow> bool
    \<Rightarrow> preauth_envelope option \<Rightarrow> int \<Rightarrow> bool" where
  "operator_permits p cfg cap present peer interactive env now \<longleftrightarrow>
     op_enabled cfg \<and> present \<and> peer \<and> adapter_supports_tx cap \<and> device_reports_tx cap
     \<and> min_freq_hz cap \<le> center_frequency_hz p \<and> center_frequency_hz p \<le> max_freq_hz cap
     \<and> plan_sample_rate p \<le> cap_max_sample_rate cap \<and> frame_count p \<le> op_max_frame_count cfg
     \<and> gain p \<le> cap_max_gain cap \<and> (cap_channels cap = [] \<or> tx_channel p \<in> set (cap_channels cap))
     \<and> duration_seconds p \<le> op_max_duration_seconds cfg
     \<and> (op_gain_ceiling cfg \<le> Fin 0 \<or> gain p \<le> op_gain_ceiling cfg)
     \<and> (interactive \<or> (\<exists>e. env = Some e \<and> op_allow_preauthorized cfg \<and> now < pe_valid_until e
          \<and> plan_device_id p = pe_device_id e \<and> plan_profile_id p \<in> set (pe_allowed_profiles e)
          \<and> pe_freq_min_hz e \<le> center_frequency_hz p - plan_occupied_bandwidth_hz p div 2
          \<and> center_frequency_hz p + plan_occupied_bandwidth_hz p div 2 \<le> pe_freq_max_hz e
          \<and> plan_occupied_bandwidth_hz p \<le> pe_max_occupied_bandwidth_hz e
          \<and> gain p \<le> pe_gain_ceiling e \<and> duration_seconds p \<le> pe_max_duration_seconds e))"

text \<open>
  The operator gates are exact: on a plan and bounds that are numbers they open when nothing
  conflicts and the operator permits the plan, and only then.
\<close>

lemma operator_gates_exact:
  assumes "real_floats [gain p, duration_seconds p, cap_max_gain cap, op_max_duration_seconds cfg, op_gain_ceiling cfg]"
  shows "fst (evaluate_operator_tx p cfg cap present peer interactive env conflicting now)
    \<longleftrightarrow> operator_permits p cfg cap present peer interactive env now \<and> \<not> conflicting"
proof -
  have nn: "\<not> gain p > cap_max_gain cap \<longleftrightarrow> gain p \<le> cap_max_gain cap"
    "\<not> duration_seconds p > op_max_duration_seconds cfg \<longleftrightarrow> duration_seconds p \<le> op_max_duration_seconds cfg"
    "\<not> op_gain_ceiling cfg > Fin 0 \<longleftrightarrow> op_gain_ceiling cfg \<le> Fin 0"
    "\<not> gain p > op_gain_ceiling cfg \<longleftrightarrow> gain p \<le> op_gain_ceiling cfg"
    using assms by (simp_all add: real_floats_def fnot_less)
  have env: "operator_confirmed p cfg interactive env now \<longleftrightarrow> interactive
      \<or> (\<exists>e. env = Some e \<and> op_allow_preauthorized cfg \<and> plan_within_envelope p e now)"
    by (cases env) (auto simp: operator_confirmed_def)
  have within: "plan_within_envelope p e now \<longleftrightarrow> now < pe_valid_until e
      \<and> plan_device_id p = pe_device_id e \<and> plan_profile_id p \<in> set (pe_allowed_profiles e)
      \<and> pe_freq_min_hz e \<le> center_frequency_hz p - plan_occupied_bandwidth_hz p div 2
      \<and> center_frequency_hz p + plan_occupied_bandwidth_hz p div 2 \<le> pe_freq_max_hz e
      \<and> plan_occupied_bandwidth_hz p \<le> pe_max_occupied_bandwidth_hz e
      \<and> gain p \<le> pe_gain_ceiling e \<and> duration_seconds p \<le> pe_max_duration_seconds e" for e
    by (auto simp: plan_within_envelope_def Let_def)
  show ?thesis
    unfolding operator_permits_def env [symmetric] within [symmetric]
    by (simp add: evaluate_operator_tx_def Let_def failed_Nil not_less nn) blast
qed

text \<open>
  C12: nothing is radiated behind the operator's back. When the operator's configuration does not
  permit the plan, or the plan names another profile, \<open>execute_peer_tx\<close> on a radiating backend
  leaves the outside world as it was and reports no radiated transmission. The gains, durations and
  ceilings compared must be numbers: every bound is a test for \<open>>\<close>, which NaN passes.
\<close>

theorem no_radiation_without_operator:
  assumes "execute_peer_tx fr be p profile cfg cap present peer interactive env ts w = (w', r)"
    and "be_radiates be"
    and "real_floats [gain p, duration_seconds p, cap_max_gain cap, op_max_duration_seconds cfg, op_gain_ceiling cfg]"
    and "\<not> operator_permits p cfg cap present peer interactive env ts
         \<or> plan_profile_digest p \<notin> {[], profile_digest fr profile}"
  shows "w' = w \<and> (case r of Inl _ \<Rightarrow> True | Inr rec \<Rightarrow> \<not> txr_radiated rec)"
proof (rule ccontr)
  assume "\<not> ?thesis"
  then have "w' \<noteq> w \<or> (\<exists>rec. r = Inr rec \<and> txr_radiated rec)" by (auto split: sum.splits)
  note act = execute_peer_tx_acts [OF assms(1) this]
  from operator_gates_exact [OF assms(3)] act(1) assms(2) have
    "operator_permits p cfg cap present peer interactive env ts" by blast
  with act(2) assms(4) show False by blast
qed

definition demo_config :: operator_tx_config where
  "demo_config = default_operator_config\<lparr>op_enabled := True\<rparr>"

text \<open>A backend that counts its transmissions.\<close>

definition demo_backend :: "nat tx_backend" where
  "demo_backend = \<lparr>be_id = ''hw'', be_radiates = True, be_transmit = (\<lambda>n p d. (n + 1, Some True))\<rparr>"

lemma demo_operator_open:
  "fst (evaluate_operator_tx (demo_plan\<lparr>gain := g, duration_seconds := d\<rparr>) demo_config demo_capability
     True True True None False 1000)" if "\<not> g > Fin 89" "\<not> d > Fin 5"
  using that
  by (simp add: evaluate_operator_tx_def Let_def failed_Nil demo_config_def default_operator_config_def
      demo_capability_def demo_plan_def operator_confirmed_def)

text \<open>Everything is permitted but the gain, 5, which is over the operator's ceiling of 3.\<close>

theorem no_radiation_without_operator_witness:
  "\<exists>w' r. execute_peer_tx demo_float_repr demo_backend demo_plan reference_bpsk
      (demo_config\<lparr>op_gain_ceiling := Fin 3\<rparr>) demo_capability True True True None 1000 0 = (w', r) \<and> w' = 0
      \<and> (case r of Inl _ \<Rightarrow> True | Inr rec \<Rightarrow> \<not> txr_radiated rec)
    \<and> operator_permits demo_plan demo_config demo_capability True True True None 1000"
proof -
  obtain w' r where run: "execute_peer_tx demo_float_repr demo_backend demo_plan reference_bpsk
      (demo_config\<lparr>op_gain_ceiling := Fin 3\<rparr>) demo_capability True True True None 1000 0 = (w', r)" by fastforce
  have "w' = 0 \<and> (case r of Inl _ \<Rightarrow> True | Inr rec \<Rightarrow> \<not> txr_radiated rec)"
    by (rule no_radiation_without_operator [OF run])
      (simp_all add: demo_backend_def real_floats_def demo_plan_def demo_capability_def demo_config_def
        default_operator_config_def operator_permits_def)
  moreover have "operator_permits demo_plan demo_config demo_capability True True True None 1000"
    by (simp add: operator_permits_def demo_config_def default_operator_config_def demo_plan_def
        demo_capability_def)
  ultimately show ?thesis using run by blast
qed

text \<open>
  Every bound is a test for \<open>>\<close>, which NaN passes: a plan whose gain and duration are NaN is
  admitted by the operator gates whatever finite ceilings are configured.
\<close>

lemma nan_passes_operator_gates:
  "fst (evaluate_operator_tx (demo_plan\<lparr>gain := NaN, duration_seconds := NaN\<rparr>) demo_config demo_capability
     True True True None False 1000)"
  by (rule demo_operator_open) simp_all

text \<open>The pre-authorization's payload and retry limits are never consulted.\<close>

lemma preauth_limits_unchecked:
  "plan_within_envelope p (e\<lparr>pe_max_payload_bytes := a, pe_max_retries := b\<rparr>) now = plan_within_envelope p e now"
  by (simp add: plan_within_envelope_def)

end
