(* ===== verification/Selection.thy ===== *)
theory Selection
  imports Prelude
begin

text \<open>
  \<open>transport/ota/selection.py\<close>: the deterministic choice of a peer transport. \<open>available\<close> is the
  dict of transports and their health, in insertion order.
\<close>

definition valid_requests :: "string list" where
  "valid_requests = [''auto'', ''ip'', ''rf_ota'', ''simulated_rf'']"

definition auto_order :: "string list" where
  "auto_order = [''ip'', ''simulated_rf'', ''rf_ota'']"

datatype selection_reason = AutoFirstHealthy | ExplicitSatisfied | ExplicitFallback

record selection_result =
  sel_requested :: string
  selected :: string
  sel_reason :: selection_reason
  sel_fallback_allowed :: bool
  fallback_occurred :: bool
  sel_profile_id :: "string option"
  candidates :: "string list"

datatype selection_error = UnknownTransport string | NoHealthyAuto
  | RequestedUnavailable string | NoHealthyFallback

definition select_transport :: "string \<Rightarrow> (string \<times> bool) list \<Rightarrow> bool \<Rightarrow> string option
    \<Rightarrow> selection_error + selection_result" where
  "select_transport requested available fallback profile_id =
     (if requested \<notin> set valid_requests then Inl (UnknownTransport requested)
      else (let healthy = map fst (filter snd available);
                pick = find (\<lambda>t. t \<in> set healthy) auto_order;
                result = (\<lambda>t why fell. \<lparr>sel_requested = requested, selected = t, sel_reason = why,
                  sel_fallback_allowed = fallback, fallback_occurred = fell, sel_profile_id = profile_id,
                  candidates = healthy\<rparr>)
            in if requested = ''auto''
               then (case pick of Some t \<Rightarrow> Inr (result t AutoFirstHealthy False) | None \<Rightarrow> Inl NoHealthyAuto)
               else if map_of available requested = Some True then Inr (result requested ExplicitSatisfied False)
               else if \<not> fallback then Inl (RequestedUnavailable requested)
               else (case pick of Some t \<Rightarrow> Inr (result t ExplicitFallback True)
                                | None \<Rightarrow> Inl NoHealthyFallback)))"

lemma healthy_iff:
  "distinct (map fst available) \<Longrightarrow> t \<in> set (map fst (filter snd available)) \<longleftrightarrow> map_of available t = Some True"
  by (force simp: map_of_eq_Some_iff)

text \<open>
  The selection is safe and complete. Over a dict of transports the choice, when there is one,
  is healthy; it differs from an explicit request only when fallback is allowed, the request is
  unhealthy and the result says so (radio is never silently downgraded); an automatic choice is
  the first healthy one in the fixed order; and it raises exactly for an unknown request or when
  no transport the request allows is healthy.
\<close>

theorem selection_never_downgrades:
  assumes "distinct (map fst available)"
  shows "case select_transport requested available fallback pid of
      Inr r \<Rightarrow> requested \<in> set valid_requests \<and> map_of available (selected r) = Some True
        \<and> (requested \<noteq> ''auto'' \<and> selected r \<noteq> requested \<longrightarrow>
             fallback \<and> fallback_occurred r \<and> map_of available requested \<noteq> Some True)
        \<and> (selected r \<noteq> requested \<longrightarrow>
             (\<exists>before after. auto_order = before @ selected r # after
                \<and> list_all (\<lambda>t. map_of available t \<noteq> Some True) before))
    | Inl e \<Rightarrow> requested \<notin> set valid_requests
        \<or> (requested \<noteq> ''auto'' \<and> map_of available requested \<noteq> Some True \<and> \<not> fallback)
        \<or> list_all (\<lambda>t. map_of available t \<noteq> Some True) auto_order"
proof -
  let ?ok = "\<lambda>t. map_of available t = Some True"
  have pick: "find (\<lambda>t. t \<in> set (map fst (filter snd available))) auto_order = find ?ok auto_order"
    using healthy_iff [OF assms] by simp
  have some: "\<exists>before after. auto_order = before @ t # after \<and> list_all (\<lambda>t. \<not> ?ok t) before"
    if f: "find ?ok auto_order = Some t" for t
  proof -
    from f obtain i where "i < length auto_order" "?ok (auto_order ! i)" "t = auto_order ! i"
      "\<forall>j < i. \<not> ?ok (auto_order ! j)" by (auto simp: find_Some_iff)
    then have "auto_order = take i auto_order @ t # drop (Suc i) auto_order"
      and "list_all (\<lambda>t. \<not> ?ok t) (take i auto_order)"
      by (simp_all add: id_take_nth_drop list_all_length)
    then show ?thesis by blast
  qed
  have sok: "?ok t" if "find ?ok auto_order = Some t" for t using that by (auto simp: find_Some_iff)
  have none: "list_all (\<lambda>t. \<not> ?ok t) auto_order" if "find ?ok auto_order = None"
    using that by (simp add: find_None_iff list_all_iff)
  show ?thesis
    unfolding select_transport_def Let_def pick using some sok none
    by (cases "find ?ok auto_order") auto
qed

theorem selection_never_downgrades_witness:
  "map_of [(''ip'', True), (''rf_ota'', False)] ''ip'' = Some True
   \<and> select_transport ''rf_ota'' [(''ip'', True), (''rf_ota'', False)] False None = Inl (RequestedUnavailable ''rf_ota'')"
proof -
  have "distinct (map fst [(''ip'', True), (''rf_ota'', False)])" by simp
  from selection_never_downgrades [OF this, of "''rf_ota''" True None] show ?thesis
    by (simp add: select_transport_def valid_requests_def auto_order_def)
qed

end
