(* ===== verification/MacFrame.thy ===== *)
theory MacFrame
  imports Frame Sha256
begin

text \<open>
  \<open>transport/ota/mac.py\<close>, first part: the MAC frame with its packed header, CRC-32 and truncated
  HMAC tag, and the short addresses. The header really is 36 bytes long.
\<close>

section \<open>Addresses\<close>

definition short_address :: "string \<Rightarrow> int" where
  "short_address identifier = int (from_be (take 2 (sha256 (utf8 identifier))))"

definition mesh_discriminator :: "string option \<Rightarrow> int" where
  "mesh_discriminator mesh_id = (case mesh_id of None \<Rightarrow> 0
     | Some m \<Rightarrow> if m = [] then 0 else int (from_be (take 2 (sha256 (utf8 m)))))"

section \<open>The frame\<close>

record mac_frame =
  mf_type :: frame_type
  mf_mesh_disc :: int
  mf_src_addr :: int
  mf_dst_addr :: int
  mf_session_id :: int
  mf_msg_id :: int
  mf_frag :: int
  mf_total :: int
  mf_seq :: int
  mf_ack_window :: int
  mf_reservation_us :: int
  mf_payload :: bytes

datatype mac_error = MacTooShort | MacVersion nat | MacPayloadExceeds | MacCrcMismatch | MacTagMismatch
  | MacUnknownType nat | MacStructError | MacFrameCount nat

definition mac_version :: nat where "mac_version = 1"
definition mac_header_len :: nat where "mac_header_len = 36"
definition auth_len :: nat where "auth_len = 8"

text \<open>A masked integer as an unsigned field of \<open>k\<close> bytes.\<close>

definition field :: "nat \<Rightarrow> int \<Rightarrow> bytes" where
  "field k x = to_be k (nat (x mod 2 ^ (8 * k)))"

definition mac_header :: "mac_frame \<Rightarrow> bytes" where
  "mac_header f = to_be 1 mac_version @ to_be 1 (ft_code (mf_type f)) @ field 2 (mf_mesh_disc f)
     @ field 2 (mf_src_addr f) @ field 2 (mf_dst_addr f) @ field 4 (mf_session_id f) @ field 8 (mf_msg_id f)
     @ field 2 (mf_frag f) @ field 2 (mf_total f) @ field 4 (mf_seq f) @ field 2 (mf_ack_window f)
     @ field 4 (mf_reservation_us f) @ to_be 2 (length (mf_payload f))"

text \<open>The payload length is not masked: \<open>struct.pack\<close> raises when it does not fit.\<close>

definition header_payload :: "mac_frame \<Rightarrow> mac_error + bytes" where
  "header_payload f = (if length (mf_payload f) < 2 ^ 16 then Inr (mac_header f @ mf_payload f) else Inl MacStructError)"

definition mac_trailer :: "bytes \<Rightarrow> bytes \<Rightarrow> bytes" where
  "mac_trailer key body = (let crc = to_be 4 (crc32 body) in crc @ take auth_len (hmac_sha256 key (body @ crc)))"

definition mac_encode :: "bytes \<Rightarrow> mac_frame \<Rightarrow> mac_error + bytes" where
  "mac_encode key f = rbind (header_payload f) (\<lambda>body. Inr (body @ mac_trailer key body))"

definition mac_decode :: "bytes \<Rightarrow> bytes \<Rightarrow> mac_error + mac_frame" where
  "mac_decode key raw =
     (if length raw < mac_header_len + 4 + auth_len then Inl MacTooShort
      else (let int_at = (\<lambda>i j. from_be (bslice i j raw));
                version = int_at 0 1; ftype = int_at 1 2; plen = int_at 34 36;
                fin = mac_header_len + plen
            in if version \<noteq> mac_version then Inl (MacVersion version)
               else if length raw < fin + 4 + auth_len then Inl MacPayloadExceeds
               else (let payload = bslice mac_header_len fin raw; crc_bytes = bslice fin (fin + 4) raw;
                         tag = bslice (fin + 4) (fin + 4 + auth_len) raw; body = bslice 0 fin raw
                     in if crc32 body \<noteq> from_be crc_bytes then Inl MacCrcMismatch
                        else if take auth_len (hmac_sha256 key (body @ crc_bytes)) \<noteq> tag then Inl MacTagMismatch
                        else case ft_of ftype of
                               None \<Rightarrow> Inl (MacUnknownType ftype)
                             | Some ft \<Rightarrow> Inr \<lparr>mf_type = ft, mf_mesh_disc = int (int_at 2 4),
                                 mf_src_addr = int (int_at 4 6), mf_dst_addr = int (int_at 6 8),
                                 mf_session_id = int (int_at 8 12), mf_msg_id = int (int_at 12 20),
                                 mf_frag = int (int_at 20 22), mf_total = int (int_at 22 24),
                                 mf_seq = int (int_at 24 28), mf_ack_window = int (int_at 28 30),
                                 mf_reservation_us = int (int_at 30 34), mf_payload = payload\<rparr>)))"

section \<open>Round trips\<close>

definition mac_wire :: "mac_frame \<Rightarrow> mac_frame" where
  "mac_wire f = f\<lparr>mf_mesh_disc := mf_mesh_disc f mod 2 ^ 16, mf_src_addr := mf_src_addr f mod 2 ^ 16,
     mf_dst_addr := mf_dst_addr f mod 2 ^ 16, mf_session_id := mf_session_id f mod 2 ^ 32,
     mf_msg_id := mf_msg_id f mod 2 ^ 64, mf_frag := mf_frag f mod 2 ^ 16, mf_total := mf_total f mod 2 ^ 16,
     mf_seq := mf_seq f mod 2 ^ 32, mf_ack_window := mf_ack_window f mod 2 ^ 16,
     mf_reservation_us := mf_reservation_us f mod 2 ^ 32\<rparr>"

lemma length_field [simp]: "length (field k x) = k"
  by (simp add: field_def)

lemma from_field [simp]: "int (from_be (field k x)) = x mod 2 ^ (8 * k)"
proof -
  have "nat (x mod 2 ^ (8 * k)) < 256 ^ k"
    by (simp add: nat_less_iff power_mult)
  then show ?thesis by (simp add: field_def)
qed

lemma length_mac_header [simp]: "length (mac_header f) = mac_header_len"
  by (simp add: mac_header_def mac_header_len_def)

lemma length_mac_trailer [simp]: "length (mac_trailer key body) = 4 + auth_len"
  by (simp add: mac_trailer_def Let_def auth_len_def)

text \<open>Reading the fields of a header out of any longer byte string.\<close>

lemma slice_parts:
  "bslice (length a) (length a + length b) (a @ b @ c) = b"
  by (simp add: bslice_def)

lemma mac_header_fields:
  fixes f :: mac_frame and r :: bytes
  defines "raw \<equiv> mac_header f @ r"
  shows "bslice 0 1 raw = to_be 1 mac_version" "bslice 1 2 raw = to_be 1 (ft_code (mf_type f))"
    "bslice 2 4 raw = field 2 (mf_mesh_disc f)" "bslice 4 6 raw = field 2 (mf_src_addr f)"
    "bslice 6 8 raw = field 2 (mf_dst_addr f)" "bslice 8 12 raw = field 4 (mf_session_id f)"
    "bslice 12 20 raw = field 8 (mf_msg_id f)" "bslice 20 22 raw = field 2 (mf_frag f)"
    "bslice 22 24 raw = field 2 (mf_total f)" "bslice 24 28 raw = field 4 (mf_seq f)"
    "bslice 28 30 raw = field 2 (mf_ack_window f)" "bslice 30 34 raw = field 4 (mf_reservation_us f)"
    "bslice 34 36 raw = to_be 2 (length (mf_payload f))"
  by (simp_all add: raw_def mac_header_def bslice_def del: to_be.simps)

lemma mac_decode_encoded:
  assumes "mac_encode key f = Inr enc"
  shows "mac_decode key (enc @ tail) = Inr (mac_wire f)"
proof -
  let ?body = "mac_header f @ mf_payload f"
  from assms have n: "length (mf_payload f) < 2 ^ 16" and enc: "enc = ?body @ mac_trailer key ?body"
    by (auto simp: mac_encode_def header_payload_def split: if_splits)
  have raw: "enc @ tail = mac_header f @ (mf_payload f @ mac_trailer key ?body @ tail)" by (simp add: enc)
  note flds = mac_header_fields [of f "mf_payload f @ mac_trailer key ?body @ tail", folded raw]
  let ?m = "mac_header_len + length (mf_payload f)"
  have body: "bslice 0 ?m (enc @ tail) = ?body" by (simp add: enc bslice_def)
  have pay: "bslice mac_header_len ?m (enc @ tail) = mf_payload f" by (simp add: raw bslice_def)
  have crc: "bslice ?m (?m + 4) (enc @ tail) = to_be 4 (crc32 ?body)"
    by (simp add: enc bslice_def mac_trailer_def Let_def del: to_be.simps)
  have tag: "bslice (?m + 4) (?m + 4 + auth_len) (enc @ tail) = take auth_len (hmac_sha256 key (?body @ to_be 4 (crc32 ?body)))"
    by (simp add: enc bslice_def mac_trailer_def Let_def auth_len_def del: to_be.simps)
  have cb: "crc32 ?body < 256 ^ 4" using crc32r.run_bound [of ?body] by (simp add: crc32_def)
  have n': "length (mf_payload f) < 256 ^ 2" using n by simp
  have v: "mac_version < 256 ^ 1" "ft_code (mf_type f) < 256 ^ 1"
    using ft_code_bound by (simp_all add: mac_version_def)
  have len: "\<not> length (enc @ tail) < ?m + 4 + auth_len" "\<not> length (enc @ tail) < mac_header_len + 4 + auth_len"
    by (simp_all add: enc)
  show ?thesis
    unfolding mac_decode_def Let_def flds from_to_be_id [OF n'] from_to_be_id [OF v(1)] from_to_be_id [OF v(2)]
      body pay crc tag from_to_be_id [OF cb] if_not_P [OF len(1)] if_not_P [OF len(2)]
    by (simp add: mac_wire_def)
qed

text \<open>
  MAC frames round-trip under their key. An encoded frame followed by any bytes decodes, with
  the same link key, to the frame with its fields reduced to their header widths.
\<close>

theorem mac_frame_roundtrip:
  assumes "mac_encode key f = Inr enc"
  shows "mac_decode key (enc @ tail) = Inr (mac_wire f)"
  using assms by (rule mac_decode_encoded)

definition demo_mac_frame :: mac_frame where
  "demo_mac_frame = \<lparr>mf_type = RTS, mf_mesh_disc = 3, mf_src_addr = 70000, mf_dst_addr = 5, mf_session_id = 9,
     mf_msg_id = 9, mf_frag = 0, mf_total = 2, mf_seq = 0, mf_ack_window = 2, mf_reservation_us = 2100,
     mf_payload = [1, 2]\<rparr>"

lemma demo_mac_encodes: "\<exists>enc. mac_encode key demo_mac_frame = Inr enc"
  by (simp add: mac_encode_def header_payload_def demo_mac_frame_def)

theorem mac_frame_roundtrip_witness:
  "\<exists>enc. mac_encode [1] demo_mac_frame = Inr enc
     \<and> mac_decode [1] (enc @ [0xFF]) = Inr (demo_mac_frame\<lparr>mf_src_addr := 4464\<rparr>)"
proof -
  obtain enc where e: "mac_encode [1] demo_mac_frame = Inr enc" using demo_mac_encodes by blast
  show ?thesis using e mac_frame_roundtrip [OF e, of "[0xFF]"]
    by (simp add: mac_wire_def demo_mac_frame_def)
qed

lemma field_slice:
  "i \<le> j \<Longrightarrow> j \<le> length raw \<Longrightarrow> field (j - i) (int (from_be (bslice i j raw))) = bslice i j raw"
proof -
  assume ij: "i \<le> j" "j \<le> length raw"
  have "from_be (bslice i j raw) < 256 ^ (j - i)" using from_be_less [of "bslice i j raw"] ij by simp
  then have "int (from_be (bslice i j raw)) < int (256 ^ (j - i))" by (simp only: of_nat_less_iff)
  then have "int (from_be (bslice i j raw)) < 2 ^ (8 * (j - i))" by (simp add: power_mult)
  then have "int (from_be (bslice i j raw)) mod 2 ^ (8 * (j - i)) = int (from_be (bslice i j raw))"
    by (rule mod_pos_pos_trivial [OF of_nat_0_le_iff])
  then show ?thesis using to_be_slice [OF ij] by (simp add: field_def)
qed

lemma if_not_taken: "(if c then a else b) = r \<Longrightarrow> a \<noteq> r \<Longrightarrow> \<not> c"
  by auto

lemma mac_decode_Inr:
  assumes "mac_decode key raw = Inr f"
  obtains plen where "plen = from_be (bslice 34 36 raw)" "36 + plen + 12 \<le> length raw"
    "from_be (bslice 0 1 raw) = 1" "from_be (bslice 1 2 raw) = ft_code (mf_type f)"
    "crc32 (bslice 0 (36 + plen) raw) = from_be (bslice (36 + plen) (40 + plen) raw)"
    "take auth_len (hmac_sha256 key (bslice 0 (36 + plen) raw @ bslice (36 + plen) (40 + plen) raw))
       = bslice (40 + plen) (48 + plen) raw"
    "mf_payload f = bslice 36 (36 + plen) raw"
    "mf_mesh_disc f = int (from_be (bslice 2 4 raw))" "mf_src_addr f = int (from_be (bslice 4 6 raw))"
    "mf_dst_addr f = int (from_be (bslice 6 8 raw))" "mf_session_id f = int (from_be (bslice 8 12 raw))"
    "mf_msg_id f = int (from_be (bslice 12 20 raw))" "mf_frag f = int (from_be (bslice 20 22 raw))"
    "mf_total f = int (from_be (bslice 22 24 raw))" "mf_seq f = int (from_be (bslice 24 28 raw))"
    "mf_ack_window f = int (from_be (bslice 28 30 raw))" "mf_reservation_us f = int (from_be (bslice 30 34 raw))"
proof -
  let ?plen = "from_be (bslice 34 36 raw)"
  have 1: "\<not> length raw < mac_header_len + 4 + auth_len"
    using assms [unfolded mac_decode_def] by (rule if_not_taken) simp
  note s1 = assms [unfolded mac_decode_def if_not_P [OF 1] Let_def]
  have 2: "\<not> from_be (bslice 0 1 raw) \<noteq> mac_version" using s1 by (rule if_not_taken) simp
  note s2 = s1 [unfolded if_not_P [OF 2]]
  have 3: "\<not> length raw < mac_header_len + ?plen + 4 + auth_len" using s2 by (rule if_not_taken) simp
  note s3 = s2 [unfolded if_not_P [OF 3]]
  have 4: "\<not> crc32 (bslice 0 (mac_header_len + ?plen) raw)
      \<noteq> from_be (bslice (mac_header_len + ?plen) (mac_header_len + ?plen + 4) raw)"
    using s3 by (rule if_not_taken) simp
  note s4 = s3 [unfolded if_not_P [OF 4]]
  have 5: "\<not> take auth_len (hmac_sha256 key (bslice 0 (mac_header_len + ?plen) raw
        @ bslice (mac_header_len + ?plen) (mac_header_len + ?plen + 4) raw))
      \<noteq> bslice (mac_header_len + ?plen + 4) (mac_header_len + ?plen + 4 + auth_len) raw"
    using s4 by (rule if_not_taken) simp
  note s5 = s4 [unfolded if_not_P [OF 5]]
  obtain ft where ft: "ft_of (from_be (bslice 1 2 raw)) = Some ft" using s5 by (simp split: option.splits)
  note s6 = s5 [unfolded ft option.case, THEN sum.inject(2) [THEN iffD1], symmetric]
  have lens: "mac_header_len + ?plen = 36 + ?plen" "36 + ?plen + 4 = 40 + ?plen"
    "40 + ?plen + auth_len = 48 + ?plen" "mac_header_len = 36"
    by (simp_all add: mac_header_len_def auth_len_def)
  show thesis
    by (rule that [OF refl])
      (use 2 3 4 5 ft_of_SomeD [OF ft] in \<open>simp_all add: s6 lens mac_version_def auth_len_def\<close>)
qed

text \<open>
  C13: only authentic bytes decode. Whatever \<open>mac_decode\<close> accepts under a link key begins with
  exactly what the holder of that key would have sent for the returned frame, CRC and HMAC tag
  included: no header or payload bit can differ from the tagged frame.
\<close>

theorem mac_decode_authentic:
  assumes "mac_decode key raw = Inr f"
  shows "\<exists>tail. mac_encode key f = Inr (take (length raw - length tail) raw) \<and>
     raw = take (length raw - length tail) raw @ tail"
proof -
  from assms obtain plen where p: "plen = from_be (bslice 34 36 raw)" and L: "36 + plen + 12 \<le> length raw"
    and ver: "from_be (bslice 0 1 raw) = 1" and ty: "from_be (bslice 1 2 raw) = ft_code (mf_type f)"
    and crc: "crc32 (bslice 0 (36 + plen) raw) = from_be (bslice (36 + plen) (40 + plen) raw)"
    and tag: "take auth_len (hmac_sha256 key (bslice 0 (36 + plen) raw @ bslice (36 + plen) (40 + plen) raw))
       = bslice (40 + plen) (48 + plen) raw"
    and pay: "mf_payload f = bslice 36 (36 + plen) raw"
    and flds: "mf_mesh_disc f = int (from_be (bslice 2 4 raw))" "mf_src_addr f = int (from_be (bslice 4 6 raw))"
    "mf_dst_addr f = int (from_be (bslice 6 8 raw))" "mf_session_id f = int (from_be (bslice 8 12 raw))"
    "mf_msg_id f = int (from_be (bslice 12 20 raw))" "mf_frag f = int (from_be (bslice 20 22 raw))"
    "mf_total f = int (from_be (bslice 22 24 raw))" "mf_seq f = int (from_be (bslice 24 28 raw))"
    "mf_ack_window f = int (from_be (bslice 28 30 raw))" "mf_reservation_us f = int (from_be (bslice 30 34 raw))"
    by (rule mac_decode_Inr)
  have lp: "length (mf_payload f) = plen" using L by (simp add: pay)
  have "plen < 256 ^ 2" unfolding p using from_be_less [of "bslice 34 36 raw"] L by simp
  then have small: "length (mf_payload f) < 2 ^ 16" by (simp add: lp)
  have le: "36 \<le> length raw" using L by simp
  have head: "to_be 1 mac_version = bslice 0 1 raw" "to_be 1 (ft_code (mf_type f)) = bslice 1 2 raw"
    using to_be_slice [of 0 1 raw] to_be_slice [of 1 2 raw] le by (simp_all only: ver ty mac_version_def) simp_all
  have hdr: "mac_header f = bslice 0 36 raw"
    using to_be_slice [of 34 36 raw] le
      field_slice [of 2 4 raw] field_slice [of 4 6 raw] field_slice [of 6 8 raw] field_slice [of 8 12 raw]
      field_slice [of 12 20 raw] field_slice [of 20 22 raw] field_slice [of 22 24 raw] field_slice [of 24 28 raw]
      field_slice [of 28 30 raw] field_slice [of 30 34 raw]
    by (simp add: mac_header_def flds lp p head bslice_join del: to_be.simps One_nat_def)
  have body: "mac_header f @ mf_payload f = bslice 0 (36 + plen) raw"
    by (simp add: hdr pay bslice_join)
  have crc': "to_be 4 (crc32 (bslice 0 (36 + plen) raw)) = bslice (36 + plen) (40 + plen) raw"
    using to_be_slice [of "36 + plen" "40 + plen" raw] L by (simp add: crc del: to_be.simps)
  have "mac_encode key f = Inr (bslice 0 (36 + plen) raw @ bslice (36 + plen) (40 + plen) raw
      @ bslice (40 + plen) (48 + plen) raw)"
    using small by (simp add: mac_encode_def header_payload_def body mac_trailer_def Let_def crc' tag del: to_be.simps)
  then have "mac_encode key f = Inr (take (48 + plen) raw)"
    by (simp add: bslice_join) (simp add: bslice_def)
  with L show ?thesis by (intro exI [of _ "drop (48 + plen) raw"]) simp
qed

theorem mac_decode_authentic_witness:
  "\<exists>raw. (\<exists>tail. mac_encode [1] (mac_wire demo_mac_frame) = Inr (take (length raw - length tail) raw)
     \<and> raw = take (length raw - length tail) raw @ tail) \<and> mac_decode [1] raw = Inr (mac_wire demo_mac_frame)"
proof -
  obtain enc where e: "mac_encode [1] demo_mac_frame = Inr enc" using demo_mac_encodes by blast
  have "mac_decode [1] (enc @ []) = Inr (mac_wire demo_mac_frame)" using e by (rule mac_decode_encoded)
  from mac_decode_authentic [OF this] this show ?thesis by blast
qed

end
