(* ===== verification/MacLink.thy ===== *)
theory MacLink
  imports MacFrame Json
begin

text \<open>
  \<open>transport/ota/mac.py\<close>, second part: the virtual medium, the loss plan and the transfer driver
  \<open>run_mac_transfer\<close>, split into its handshake, its data rounds and its conclusion. Of a frame the
  medium reads only the source address and the type. \<open>randint rng lo hi\<close> is \<open>random.Random.randint\<close>,
  with the generator state passed along.
\<close>

section \<open>Configuration, loss plan and medium\<close>

datatype mac_mode = PointToPointTdd | RtsCtsSharedChannel

datatype mac_state = LS_IDLE | LS_CARRIER_SENSE | LS_RTS_SENT | LS_WAIT_CTS | LS_CTS_GRANTED | LS_DATA_BURST
  | LS_WAIT_BLOCK_ACK | LS_RETRANSMIT | LS_FIN | LS_WAIT_DELIVERY_RECEIPT | LS_COMPLETE | LS_FAILED | LS_CANCELLED

record mac_config =
  mode :: mac_mode
  frame_airtime_us :: int
  rts_airtime_us :: int
  cts_turnaround_us :: int
  max_data_frames :: nat
  backoff_slot_us :: int
  backoff_min_slots :: int
  backoff_max_slots :: int
  max_handshake_attempts :: int
  max_retransmit_rounds :: int
  max_consecutive_claims :: int
  session_expiry_us :: int
  cts_max_accept_frames :: nat

definition default_mac_config :: mac_config where
  "default_mac_config = \<lparr>mode = RtsCtsSharedChannel, frame_airtime_us = 1000, rts_airtime_us = 200,
     cts_turnaround_us = 100, max_data_frames = 64, backoff_slot_us = 200, backoff_min_slots = 1,
     backoff_max_slots = 16, max_handshake_attempts = 5, max_retransmit_rounds = 4,
     max_consecutive_claims = 3, session_expiry_us = 5000000, cts_max_accept_frames = 64\<rparr>"

datatype tx_outcome = Pass | Drop | Corrupt | Collision

record loss_plan =
  lp_drop :: "(int \<times> frame_type \<times> nat) set"
  lp_corrupt :: "(int \<times> frame_type \<times> nat) set"
  lp_counts :: "int \<times> frame_type \<Rightarrow> nat"

definition classify :: "int \<Rightarrow> frame_type \<Rightarrow> loss_plan \<Rightarrow> loss_plan \<times> tx_outcome" where
  "classify src ft lp =
     (let nth = lp_counts lp (src, ft) + 1
      in (lp\<lparr>lp_counts := (lp_counts lp)((src, ft) := nth)\<rparr>,
          if (src, ft, nth) \<in> lp_drop lp then Drop
          else if (src, ft, nth) \<in> lp_corrupt lp then Corrupt else Pass))"

record mac_tx =
  start_us :: int
  end_us :: int
  tx_src :: int
  tx_type :: frame_type

record medium =
  now_us :: int
  loss :: loss_plan
  inflight :: "mac_tx list"
  nav_until_us :: int
  nav_owner :: "int option"
  tx_history :: "mac_tx list"

definition medium_advance :: "int \<Rightarrow> medium \<Rightarrow> medium" where
  "medium_advance us m = m\<lparr>now_us := now_us m + max 0 us\<rparr>"

definition medium_busy :: "medium \<Rightarrow> bool" where
  "medium_busy m \<longleftrightarrow> list_ex (\<lambda>t. end_us t > now_us m) (inflight m)"

definition reserved_for_other :: "int \<Rightarrow> medium \<Rightarrow> bool" where
  "reserved_for_other src m \<longleftrightarrow> nav_until_us m > now_us m \<and> nav_owner m \<notin> {None, Some src}"

definition medium_reserve :: "int \<Rightarrow> int \<Rightarrow> medium \<Rightarrow> medium" where
  "medium_reserve owner duration m = m\<lparr>nav_until_us := now_us m + max 0 duration, nav_owner := Some owner\<rparr>"

definition medium_transmit :: "int \<Rightarrow> frame_type \<Rightarrow> int \<Rightarrow> medium \<Rightarrow> medium \<times> tx_outcome" where
  "medium_transmit src ft airtime m =
     (let tx = \<lparr>start_us = now_us m, end_us = now_us m + airtime, tx_src = src, tx_type = ft\<rparr>;
          live = filter (\<lambda>t. end_us t > now_us m) (inflight m);
          collided = list_ex (\<lambda>t. tx_src t \<noteq> src) live;
          m1 = medium_advance airtime (m\<lparr>inflight := live @ [tx], tx_history := tx_history m @ [tx]\<rparr>)
      in if collided then (m1, Collision)
         else (case classify src ft (loss m1) of (lp, out) \<Rightarrow> (m1\<lparr>loss := lp\<rparr>, out)))"

section \<open>The transfer's result and state\<close>

record mac_result =
  r_delivered :: bool
  r_mode :: mac_mode
  r_final_state :: mac_state
  r_session_id :: int
  r_states :: "mac_state list"
  r_handshake_attempts :: nat
  r_rts_sent :: nat
  r_cts_received :: nat
  r_cts_rejected :: nat
  r_reservation_us :: int
  r_turnaround_us :: int
  r_data_frames_sent :: nat
  r_retransmissions :: nat
  r_retransmit_rounds :: nat
  r_block_acks :: nat
  r_nacks :: nat
  r_duplicates :: nat
  r_backoff_events :: nat
  r_backoff_total_us :: int
  r_collisions :: nat
  r_deferrals :: nat
  r_cancelled :: bool
  r_link_acknowledged :: bool
  r_delivery_receipt :: bool
  r_total_airtime_us :: int
  r_detail :: string

definition record_state :: "mac_state \<Rightarrow> mac_result \<Rightarrow> mac_result" where
  "record_state s r = r\<lparr>r_states := r_states r @ [s]\<rparr>"

definition new_result :: "mac_mode \<Rightarrow> int \<Rightarrow> mac_result" where
  "new_result md sid = \<lparr>r_delivered = False, r_mode = md, r_final_state = LS_IDLE, r_session_id = sid,
     r_states = [], r_handshake_attempts = 0, r_rts_sent = 0, r_cts_received = 0, r_cts_rejected = 0,
     r_reservation_us = 0, r_turnaround_us = 0, r_data_frames_sent = 0, r_retransmissions = 0,
     r_retransmit_rounds = 0, r_block_acks = 0, r_nacks = 0, r_duplicates = 0, r_backoff_events = 0,
     r_backoff_total_us = 0, r_collisions = 0, r_deferrals = 0, r_cancelled = False,
     r_link_acknowledged = False, r_delivery_receipt = False, r_total_airtime_us = 0, r_detail = []\<rparr>"

definition finish :: "mac_state \<Rightarrow> string \<Rightarrow> mac_result \<Rightarrow> mac_result" where
  "finish s why r = record_state s (r\<lparr>r_final_state := s, r_detail := why\<rparr>)"

record mac_endpoint =
  me_node_id :: string
  me_addr :: int
  me_mesh_disc :: int
  consecutive_claims :: int

definition new_endpoint :: "string \<Rightarrow> string option \<Rightarrow> mac_endpoint" where
  "new_endpoint node mesh = \<lparr>me_node_id = node, me_addr = short_address node,
     me_mesh_disc = mesh_discriminator mesh, consecutive_claims = 0\<rparr>"

definition mac_session_id :: "string \<Rightarrow> string \<Rightarrow> int \<Rightarrow> int" where
  "mac_session_id tx_node rx_node seed =
     ((push_bit 8 (short_address (tx_node @ '':'' @ rx_node @ '':'' @ int_repr seed)) OR (seed AND 0xFF)) AND 0xFFFFFFFF)"

text \<open>The driver's running state: medium, random generator, result so far.\<close>

record 'r mac_run =
  run_medium :: medium
  run_rng :: 'r
  run_res :: mac_result

definition on_res :: "(mac_result \<Rightarrow> mac_result) \<Rightarrow> 'r mac_run \<Rightarrow> 'r mac_run" where
  "on_res f r = r\<lparr>run_res := f (run_res r)\<rparr>"

definition on_medium :: "(medium \<Rightarrow> medium) \<Rightarrow> 'r mac_run \<Rightarrow> 'r mac_run" where
  "on_medium f r = r\<lparr>run_medium := f (run_medium r)\<rparr>"

text \<open>One transmission, its airtime accounted.\<close>

definition send_tx :: "int \<Rightarrow> frame_type \<Rightarrow> int \<Rightarrow> 'r mac_run \<Rightarrow> 'r mac_run \<times> tx_outcome" where
  "send_tx src ft airtime r =
     (case medium_transmit src ft airtime (run_medium r) of
        (m, out) \<Rightarrow> (on_res (\<lambda>x. x\<lparr>r_total_airtime_us := r_total_airtime_us x + airtime,
                                    r_collisions := r_collisions x + (if out = Collision then 1 else 0)\<rparr>)
                      (r\<lparr>run_medium := m\<rparr>), out))"

section \<open>Handshake\<close>

definition backoff_wait :: "('r \<Rightarrow> int \<Rightarrow> int \<Rightarrow> int \<times> 'r) \<Rightarrow> mac_config \<Rightarrow> nat \<Rightarrow> 'r mac_run \<Rightarrow> 'r mac_run" where
  "backoff_wait randint cfg attempt r =
     (let ceiling = min (backoff_max_slots cfg) (backoff_min_slots cfg * 2 ^ attempt)
      in case randint (run_rng r) (backoff_min_slots cfg) (max (backoff_min_slots cfg) ceiling) of
           (slots, rng) \<Rightarrow>
             on_medium (medium_advance (slots * backoff_slot_us cfg))
               (on_res (\<lambda>x. x\<lparr>r_backoff_events := r_backoff_events x + 1,
                              r_backoff_total_us := r_backoff_total_us x + slots * backoff_slot_us cfg\<rparr>)
                 (r\<lparr>run_rng := rng\<rparr>)))"

datatype handshake_status = HsRetry | HsRejected | HsGranted

definition handshake_attempt :: "('r \<Rightarrow> int \<Rightarrow> int \<Rightarrow> int \<times> 'r) \<Rightarrow> mac_config \<Rightarrow> int \<Rightarrow> int \<Rightarrow> nat \<Rightarrow> int \<Rightarrow> nat
    \<Rightarrow> 'r mac_run \<Rightarrow> 'r mac_run \<times> handshake_status" where
  "handshake_attempt randint cfg tx rx tot reservation attempt r0 =
     (let r = on_res (\<lambda>x. record_state LS_CARRIER_SENSE (x\<lparr>r_handshake_attempts := attempt + 1\<rparr>)) r0
      in if medium_busy (run_medium r) \<or> reserved_for_other tx (run_medium r)
         then (backoff_wait randint cfg attempt (on_res (\<lambda>x. x\<lparr>r_deferrals := r_deferrals x + 1\<rparr>) r), HsRetry)
         else
           (case send_tx tx RTS (rts_airtime_us cfg)
                   (on_res (\<lambda>x. record_state LS_RTS_SENT (x\<lparr>r_rts_sent := r_rts_sent x + 1\<rparr>)) r) of
              (r1, out) \<Rightarrow>
                (let r1 = on_res (record_state LS_WAIT_CTS) r1
                 in if out \<noteq> Pass then (backoff_wait randint cfg attempt r1, HsRetry)
                    else
                      (case send_tx rx CTS (rts_airtime_us cfg) (on_medium (medium_advance (cts_turnaround_us cfg)) r1) of
                         (r2, out2) \<Rightarrow>
                           (let r2 = on_res (\<lambda>x. x\<lparr>r_turnaround_us := cts_turnaround_us cfg\<rparr>) r2
                            in if out2 \<noteq> Pass then (backoff_wait randint cfg attempt r2, HsRetry)
                               else if \<not> tot \<le> cts_max_accept_frames cfg
                               then (on_res (\<lambda>x. finish LS_FAILED ''CTS rejected the reservation''
                                               (x\<lparr>r_cts_rejected := r_cts_rejected x + 1\<rparr>)) r2, HsRejected)
                               else (on_res (record_state LS_CTS_GRANTED)
                                       (on_medium (medium_reserve tx reservation)
                                         (on_res (\<lambda>x. x\<lparr>r_cts_received := r_cts_received x + 1,
                                                        r_reservation_us := reservation\<rparr>) r2)), HsGranted))))))"

fun handshake :: "('r \<Rightarrow> int \<Rightarrow> int \<Rightarrow> int \<times> 'r) \<Rightarrow> mac_config \<Rightarrow> int \<Rightarrow> int \<Rightarrow> nat \<Rightarrow> int \<Rightarrow> nat list
    \<Rightarrow> 'r mac_run \<Rightarrow> 'r mac_run \<times> handshake_status" where
  "handshake randint cfg tx rx tot reservation [] r =
     (on_res (finish LS_FAILED ''RTS/CTS handshake failed within attempt budget'') r, HsRetry)"
| "handshake randint cfg tx rx tot reservation (attempt # rest) r =
     (case handshake_attempt randint cfg tx rx tot reservation attempt r of
        (r', HsRetry) \<Rightarrow> handshake randint cfg tx rx tot reservation rest r'
      | (r', done) \<Rightarrow> (r', done))"

section \<open>Data rounds\<close>

text \<open>One burst: every fragment of the round goes out; \<open>received\<close> is the receiver's ground truth.\<close>

fun data_burst :: "mac_config \<Rightarrow> int \<Rightarrow> bytes list \<Rightarrow> bool \<Rightarrow> nat list \<Rightarrow> 'r mac_run \<Rightarrow> (nat \<rightharpoonup> bytes)
    \<Rightarrow> 'r mac_run \<times> (nat \<rightharpoonup> bytes)" where
  "data_burst cfg tx fragments again [] r received = (r, received)"
| "data_burst cfg tx fragments again (i # rest) r received =
     (case send_tx tx DATA (frame_airtime_us cfg)
             (on_res (\<lambda>x. x\<lparr>r_data_frames_sent := r_data_frames_sent x + 1,
                            r_retransmissions := r_retransmissions x + (if again then 1 else 0)\<rparr>) r) of
        (r', out) \<Rightarrow>
          if out \<noteq> Pass then data_burst cfg tx fragments again rest r' received
          else if received i \<noteq> None
          then data_burst cfg tx fragments again rest
                 (on_res (\<lambda>x. x\<lparr>r_duplicates := r_duplicates x + 1\<rparr>) r') received
          else data_burst cfg tx fragments again rest r' (received(i \<mapsto> fragments ! i)))"

definition missing :: "nat \<Rightarrow> (nat \<rightharpoonup> bytes) \<Rightarrow> nat list" where
  "missing tot received = filter (\<lambda>i. received i = None) [0..<tot]"

text \<open>The receiver's BLOCK_ACK; the sender learns the bitmap only when it arrives.\<close>

definition block_ack :: "mac_config \<Rightarrow> int \<Rightarrow> nat \<Rightarrow> (nat \<rightharpoonup> bytes) \<Rightarrow> nat set \<Rightarrow> 'r mac_run \<Rightarrow> 'r mac_run \<times> nat set" where
  "block_ack cfg rx tot received acked r =
     (case send_tx rx BLOCK_ACK (rts_airtime_us cfg) (on_res (record_state LS_WAIT_BLOCK_ACK) r) of
        (r1, out) \<Rightarrow>
          (let r2 = on_res (\<lambda>x. x\<lparr>r_nacks := r_nacks x + (if missing tot received \<noteq> [] then 1 else 0)\<rparr>) r1
           in if out \<noteq> Pass then (r2, acked)
              else (on_res (\<lambda>x. x\<lparr>r_block_acks := r_block_acks x + 1\<rparr>) r2, dom received)))"

definition data_round :: "mac_config \<Rightarrow> int \<Rightarrow> int \<Rightarrow> bytes list \<Rightarrow> nat \<Rightarrow> nat list \<Rightarrow> 'r mac_run \<Rightarrow> (nat \<rightharpoonup> bytes)
    \<Rightarrow> nat set \<Rightarrow> 'r mac_run \<times> (nat \<rightharpoonup> bytes) \<times> nat set" where
  "data_round cfg tx rx fragments round_idx to_send r received acked =
     (let r = (if round_idx > 0
               then on_res (\<lambda>x. record_state LS_RETRANSMIT (x\<lparr>r_retransmit_rounds := r_retransmit_rounds x + 1\<rparr>)) r
               else on_res (record_state LS_DATA_BURST) r)
      in case data_burst cfg tx fragments (round_idx > 0) to_send r received of
           (r1, received1) \<Rightarrow>
             (case block_ack cfg rx (length fragments) received1 acked r1 of
                (r2, acked2) \<Rightarrow> (r2, received1, acked2)))"

fun data_rounds :: "mac_config \<Rightarrow> int \<Rightarrow> int \<Rightarrow> bytes list \<Rightarrow> nat list \<Rightarrow> 'r mac_run \<Rightarrow> (nat \<rightharpoonup> bytes) \<Rightarrow> nat set
    \<Rightarrow> 'r mac_run \<times> (nat \<rightharpoonup> bytes) \<times> nat set" where
  "data_rounds cfg tx rx fragments [] r received acked = (r, received, acked)"
| "data_rounds cfg tx rx fragments (round_idx # rest) r received acked =
     (let to_send = filter (\<lambda>i. i \<notin> acked) [0..<length fragments]
      in if to_send = [] then (r, received, acked)
         else (case data_round cfg tx rx fragments round_idx to_send r received acked of
                 (r', received', acked') \<Rightarrow> data_rounds cfg tx rx fragments rest r' received' acked'))"

section \<open>The transfer\<close>

text \<open>Delivery receipt or FIN, then the informational expiry note.\<close>

definition conclude :: "mac_config \<Rightarrow> int \<Rightarrow> int \<Rightarrow> nat \<Rightarrow> 'r mac_run \<Rightarrow> (nat \<rightharpoonup> bytes) \<Rightarrow> nat set \<Rightarrow> int
    \<Rightarrow> 'r mac_run \<times> int" where
  "conclude cfg tx rx tot r received acked claims =
     (let lost = missing tot received;
          r = (if acked = {0..<tot} \<and> lost = [] then on_res (\<lambda>x. x\<lparr>r_link_acknowledged := True\<rparr>) r else r)
      in if lost = []
         then (on_res (\<lambda>x. record_state LS_COMPLETE (x\<lparr>r_delivery_receipt := True, r_delivered := True,
                              r_final_state := LS_COMPLETE\<rparr>))
                 (on_res (\<lambda>x. x\<lparr>r_total_airtime_us := r_total_airtime_us x + rts_airtime_us cfg\<rparr>)
                   (on_medium (\<lambda>m. fst (medium_transmit rx DELIVERY_RECEIPT (rts_airtime_us cfg) m))
                     (on_res (record_state LS_WAIT_DELIVERY_RECEIPT) r))), claims + 1)
         else (on_res (\<lambda>x. record_state LS_FAILED (record_state LS_FIN (x\<lparr>r_final_state := LS_FAILED,
                              r_detail := int_repr (int (length lost))
                                @ '' frame(s) unrecovered after retransmit budget''\<rparr>)))
                 (on_medium (\<lambda>m. fst (medium_transmit tx FIN (rts_airtime_us cfg) m)) r), 0))"

definition expiry_note :: "mac_config \<Rightarrow> mac_result \<Rightarrow> mac_result" where
  "expiry_note cfg x =
     (if r_total_airtime_us x + r_backoff_total_us x > session_expiry_us cfg
      then x\<lparr>r_detail := (if r_detail x \<noteq> [] then r_detail x @ ''; '' else []) @ ''session exceeded expiry''\<rparr>
      else x)"

text \<open>The result carries, beside what the code returns, the receiver's fragments at the end.\<close>

definition run_mac_transfer :: "('r \<Rightarrow> int \<Rightarrow> int \<Rightarrow> int \<times> 'r) \<Rightarrow> 'r \<Rightarrow> mac_config \<Rightarrow> mac_endpoint \<Rightarrow> mac_endpoint
    \<Rightarrow> bytes list \<Rightarrow> medium \<Rightarrow> int \<Rightarrow> bool \<Rightarrow> mac_error + medium \<times> mac_endpoint \<times> mac_result \<times> (nat \<rightharpoonup> bytes)" where
  "run_mac_transfer randint rng cfg tx rx fragments m seed cancel_before_data =
     (let tot = length fragments; a = me_addr tx; b = me_addr rx
      in if tot = 0 \<or> tot > max_data_frames cfg then Inl (MacFrameCount tot)
         else
           (let r0 = on_res (record_state LS_IDLE)
                  \<lparr>run_medium = m, run_rng = rng,
                   run_res = new_result (mode cfg) (mac_session_id (me_node_id tx) (me_node_id rx) seed)\<rparr>;
                reservation = cts_turnaround_us cfg + int tot * frame_airtime_us cfg + frame_airtime_us cfg
            in if consecutive_claims tx \<ge> max_consecutive_claims cfg
               then (let r = on_res (finish LS_FAILED ''fairness bound reached; yielding the channel'') r0
                     in Inr (run_medium r, tx\<lparr>consecutive_claims := 0\<rparr>, run_res r, Map.empty))
               else
                 (case (case mode cfg of
                          RtsCtsSharedChannel \<Rightarrow>
                            handshake randint cfg a b tot reservation [0..<nat (max_handshake_attempts cfg)] r0
                        | PointToPointTdd \<Rightarrow>
                            (on_res (record_state LS_CTS_GRANTED)
                               (on_medium (medium_reserve a reservation)
                                 (on_res (\<lambda>x. x\<lparr>r_reservation_us := reservation\<rparr>) r0)), HsGranted)) of
                    (r, HsRetry) \<Rightarrow> Inr (run_medium r, tx\<lparr>consecutive_claims := 0\<rparr>, run_res r, Map.empty)
                  | (r, HsRejected) \<Rightarrow> Inr (run_medium r, tx, run_res r, Map.empty)
                  | (r, HsGranted) \<Rightarrow>
                      if cancel_before_data
                      then Inr (fst (medium_transmit a CANCEL (rts_airtime_us cfg) (run_medium r)), tx,
                                finish LS_CANCELLED ''transfer cancelled before data burst''
                                  ((run_res r)\<lparr>r_cancelled := True\<rparr>), Map.empty)
                      else
                        (case data_rounds cfg a b fragments [0..<nat (max_retransmit_rounds cfg + 1)] r Map.empty {} of
                           (r1, received, acked) \<Rightarrow>
                             (case conclude cfg a b tot r1 received acked (consecutive_claims tx) of
                                (r2, claims) \<Rightarrow>
                                  Inr (run_medium r2, tx\<lparr>consecutive_claims := claims\<rparr>,
                                       expiry_note cfg (run_res r2), received))))))"

section \<open>The link state machine\<close>

text \<open>The transitions the protocol description allows.\<close>

fun mac_edge :: "mac_state \<Rightarrow> mac_state \<Rightarrow> bool" where
  "mac_edge LS_IDLE s = (s \<in> {LS_CARRIER_SENSE, LS_CTS_GRANTED, LS_FAILED})"
| "mac_edge LS_CARRIER_SENSE s = (s \<in> {LS_CARRIER_SENSE, LS_RTS_SENT, LS_FAILED})"
| "mac_edge LS_RTS_SENT s = (s = LS_WAIT_CTS)"
| "mac_edge LS_WAIT_CTS s = (s \<in> {LS_CARRIER_SENSE, LS_CTS_GRANTED, LS_FAILED})"
| "mac_edge LS_CTS_GRANTED s = (s \<in> {LS_DATA_BURST, LS_CANCELLED})"
| "mac_edge LS_DATA_BURST s = (s = LS_WAIT_BLOCK_ACK)"
| "mac_edge LS_WAIT_BLOCK_ACK s = (s \<in> {LS_RETRANSMIT, LS_WAIT_DELIVERY_RECEIPT, LS_FIN})"
| "mac_edge LS_RETRANSMIT s = (s = LS_WAIT_BLOCK_ACK)"
| "mac_edge LS_WAIT_DELIVERY_RECEIPT s = (s = LS_COMPLETE)"
| "mac_edge LS_FIN s = (s = LS_FAILED)"
| "mac_edge _ s = False"

definition good_trace :: "mac_state list \<Rightarrow> bool" where
  "good_trace xs \<longleftrightarrow> xs \<noteq> [] \<and> hd xs = LS_IDLE \<and> successively mac_edge xs"

lemma good_trace_snoc:
  "good_trace (xs @ [s]) \<longleftrightarrow> (xs = [] \<and> s = LS_IDLE) \<or> (good_trace xs \<and> mac_edge (last xs) s)"
  by (cases "xs = []") (auto simp: good_trace_def successively_append_iff hd_append)

lemma good_trace_more:
  "good_trace (xs @ a # b # ys) \<longleftrightarrow> good_trace (xs @ [a]) \<and> successively mac_edge (a # b # ys)"
  by (cases "xs = []") (auto simp: good_trace_def successively_append_iff hd_append)

text \<open>What the helpers leave alone.\<close>

lemma on_res_simps [simp]:
  "run_res (on_res f r) = f (run_res r)" "run_medium (on_res f r) = run_medium r"
  "run_res (on_medium g r) = run_res r" "run_medium (on_medium g r) = g (run_medium r)"
  "run_res (r\<lparr>run_medium := m\<rparr>) = run_res r"
  by (simp_all add: on_res_def on_medium_def)

lemma record_state_simps [simp]:
  "r_states (record_state s x) = r_states x @ [s]"
  "r_delivered (record_state s x) = r_delivered x"
  "r_final_state (record_state s x) = r_final_state x"
  "r_rts_sent (record_state s x) = r_rts_sent x"
  "r_handshake_attempts (record_state s x) = r_handshake_attempts x"
  "r_data_frames_sent (record_state s x) = r_data_frames_sent x"
  "r_retransmissions (record_state s x) = r_retransmissions x"
  "r_retransmit_rounds (record_state s x) = r_retransmit_rounds x"
  "r_block_acks (record_state s x) = r_block_acks x"
  "r_link_acknowledged (record_state s x) = r_link_acknowledged x"
  "r_delivery_receipt (record_state s x) = r_delivery_receipt x"
  by (simp_all add: record_state_def)

text \<open>A run step that changes none of the counters and flags the theorems are about.\<close>

definition same_core :: "'r mac_run \<Rightarrow> 'r mac_run \<Rightarrow> bool" where
  "same_core r r' \<longleftrightarrow> (let x = run_res r; y = run_res r' in
     r_states y = r_states x \<and> r_delivered y = r_delivered x \<and> r_final_state y = r_final_state x
     \<and> r_rts_sent y = r_rts_sent x \<and> r_data_frames_sent y = r_data_frames_sent x
     \<and> r_handshake_attempts y = r_handshake_attempts x
     \<and> r_retransmissions y = r_retransmissions x \<and> r_retransmit_rounds y = r_retransmit_rounds x
     \<and> r_block_acks y = r_block_acks x \<and> r_link_acknowledged y = r_link_acknowledged x
     \<and> r_delivery_receipt y = r_delivery_receipt x)"

lemmas core = same_core_def Let_def

lemma send_tx_core: "send_tx src ft airtime r = (r', out) \<Longrightarrow> same_core r r'"
  by (auto simp: send_tx_def core split: prod.splits)

lemma backoff_core: "same_core r (backoff_wait randint cfg attempt r)"
  by (auto simp: backoff_wait_def core split: prod.splits)

lemma finish_simps [simp]:
  "r_states (finish s why x) = r_states x @ [s]" "r_final_state (finish s why x) = s"
  "r_delivered (finish s why x) = r_delivered x" "r_rts_sent (finish s why x) = r_rts_sent x"
  "r_handshake_attempts (finish s why x) = r_handshake_attempts x"
  "r_data_frames_sent (finish s why x) = r_data_frames_sent x"
  "r_retransmissions (finish s why x) = r_retransmissions x"
  "r_retransmit_rounds (finish s why x) = r_retransmit_rounds x"
  "r_block_acks (finish s why x) = r_block_acks x"
  "r_link_acknowledged (finish s why x) = r_link_acknowledged x"
  "r_delivery_receipt (finish s why x) = r_delivery_receipt x"
  by (simp_all add: finish_def)

text \<open>The part of the result that only the data phase touches.\<close>

definition same_data :: "mac_result \<Rightarrow> mac_result \<Rightarrow> bool" where
  "same_data x y \<longleftrightarrow> r_delivered y = r_delivered x \<and> r_data_frames_sent y = r_data_frames_sent x
     \<and> r_retransmissions y = r_retransmissions x \<and> r_retransmit_rounds y = r_retransmit_rounds x
     \<and> r_block_acks y = r_block_acks x \<and> r_link_acknowledged y = r_link_acknowledged x
     \<and> r_delivery_receipt y = r_delivery_receipt x"

lemma handshake_attempt_effect:
  assumes "handshake_attempt randint cfg tx rx tot reservation attempt r = (r', st)"
    and "good_trace (r_states (run_res r))"
    and "last (r_states (run_res r)) \<in> {LS_IDLE, LS_CARRIER_SENSE, LS_WAIT_CTS}"
  shows "good_trace (r_states (run_res r')) \<and> same_data (run_res r) (run_res r')
     \<and> r_rts_sent (run_res r') \<le> r_rts_sent (run_res r) + 1
     \<and> r_handshake_attempts (run_res r') = attempt + 1
     \<and> (case st of HsRetry \<Rightarrow> last (r_states (run_res r')) \<in> {LS_CARRIER_SENSE, LS_WAIT_CTS}
          | HsGranted \<Rightarrow> last (r_states (run_res r')) = LS_CTS_GRANTED
          | HsRejected \<Rightarrow> r_final_state (run_res r') = LS_FAILED \<and> last (r_states (run_res r')) = LS_FAILED)"
proof -
  let ?r = "on_res (\<lambda>x. record_state LS_CARRIER_SENSE (x\<lparr>r_handshake_attempts := attempt + 1\<rparr>)) r"
  have tr: "good_trace (r_states (run_res ?r))" using assms(2,3) by (auto simp: good_trace_snoc)
  show ?thesis
  proof (cases "medium_busy (run_medium ?r) \<or> reserved_for_other tx (run_medium ?r)")
    case True
    let ?d = "on_res (\<lambda>x. x\<lparr>r_deferrals := r_deferrals x + 1\<rparr>) ?r"
    have "r' = backoff_wait randint cfg attempt ?d" "st = HsRetry"
      using assms(1) True by (simp_all add: handshake_attempt_def Let_def)
    with backoff_core [of ?d randint cfg attempt] tr show ?thesis by (simp add: core same_data_def)
  next
    case False
    let ?s = "on_res (\<lambda>x. record_state LS_RTS_SENT (x\<lparr>r_rts_sent := r_rts_sent x + 1\<rparr>)) ?r"
    obtain r1 out where s1: "send_tx tx RTS (rts_airtime_us cfg) ?s = (r1, out)" by fastforce
    let ?r1 = "on_res (record_state LS_WAIT_CTS) r1"
    have c1: "good_trace (r_states (run_res ?r1)) \<and> last (r_states (run_res ?r1)) = LS_WAIT_CTS
        \<and> same_data (run_res r) (run_res ?r1) \<and> r_rts_sent (run_res ?r1) = r_rts_sent (run_res r) + 1
        \<and> r_handshake_attempts (run_res ?r1) = attempt + 1"
      using send_tx_core [OF s1] tr by (simp add: core same_data_def good_trace_snoc good_trace_more)
    show ?thesis
    proof (cases "out = Pass")
      case no: False
      then have "r' = backoff_wait randint cfg attempt ?r1" "st = HsRetry"
        using assms(1) False s1 by (simp_all add: handshake_attempt_def Let_def)
      with backoff_core [of ?r1 randint cfg attempt] c1 show ?thesis by (simp add: core same_data_def)
    next
      case yes: True
      let ?q = "on_medium (medium_advance (cts_turnaround_us cfg)) ?r1"
      obtain r2 out2 where s2: "send_tx rx CTS (rts_airtime_us cfg) ?q = (r2, out2)" by fastforce
      let ?r2 = "on_res (\<lambda>x. x\<lparr>r_turnaround_us := cts_turnaround_us cfg\<rparr>) r2"
      have c2: "good_trace (r_states (run_res ?r2)) \<and> last (r_states (run_res ?r2)) = LS_WAIT_CTS
          \<and> same_data (run_res r) (run_res ?r2) \<and> r_rts_sent (run_res ?r2) = r_rts_sent (run_res r) + 1
          \<and> r_handshake_attempts (run_res ?r2) = attempt + 1"
        using send_tx_core [OF s2] c1 by (simp add: core same_data_def)
      have run: "(r', st) =
         (if out2 \<noteq> Pass then (backoff_wait randint cfg attempt ?r2, HsRetry)
          else if \<not> tot \<le> cts_max_accept_frames cfg
          then (on_res (\<lambda>x. finish LS_FAILED ''CTS rejected the reservation''
                   (x\<lparr>r_cts_rejected := r_cts_rejected x + 1\<rparr>)) ?r2, HsRejected)
          else (on_res (record_state LS_CTS_GRANTED) (on_medium (medium_reserve tx reservation)
                  (on_res (\<lambda>x. x\<lparr>r_cts_received := r_cts_received x + 1, r_reservation_us := reservation\<rparr>) ?r2)),
                HsGranted))"
        using assms(1) False s1 s2 yes by (simp add: handshake_attempt_def Let_def)
      show ?thesis
        using run backoff_core [of ?r2 randint cfg attempt] c2
        by (auto simp: core same_data_def good_trace_snoc good_trace_more split: if_splits)
    qed
  qed
qed

lemma handshake_effect:
  assumes "good_trace (r_states (run_res r))"
    and "last (r_states (run_res r)) \<in> {LS_IDLE, LS_CARRIER_SENSE, LS_WAIT_CTS}"
  shows "handshake randint cfg tx rx tot reservation attempts r = (r', st) \<Longrightarrow>
     good_trace (r_states (run_res r')) \<and> same_data (run_res r) (run_res r')
     \<and> r_rts_sent (run_res r') \<le> r_rts_sent (run_res r) + length attempts
     \<and> (if st = HsGranted then last (r_states (run_res r')) = LS_CTS_GRANTED
        else r_final_state (run_res r') = LS_FAILED \<and> last (r_states (run_res r')) = LS_FAILED)"
  using assms
proof (induction attempts arbitrary: r)
  case Nil
  then show ?case by (auto simp: same_data_def good_trace_snoc)
next
  case (Cons a as)
  obtain r1 st1 where h: "handshake_attempt randint cfg tx rx tot reservation a r = (r1, st1)" by fastforce
  note e = handshake_attempt_effect [OF h Cons.prems(2,3)]
  show ?case
  proof (cases st1)
    case HsRetry
    with Cons.prems(1) h have "handshake randint cfg tx rx tot reservation as r1 = (r', st)" by simp
    from Cons.IH [OF this] e HsRetry show ?thesis by (auto simp: same_data_def split: if_splits)
  qed (use Cons.prems(1) h e in auto)
qed

text \<open>The data rounds.\<close>

lemma data_burst_step:
  obtains r1 received1 where
    "data_burst cfg tx fragments again (i # idx) r received = data_burst cfg tx fragments again idx r1 received1"
    "received1 = received \<or> received1 = received(i \<mapsto> fragments ! i)"
    "r_states (run_res r1) = r_states (run_res r)" "r_delivered (run_res r1) = r_delivered (run_res r)"
    "r_data_frames_sent (run_res r1) = r_data_frames_sent (run_res r) + 1"
    "r_retransmissions (run_res r1) = r_retransmissions (run_res r) + (if again then 1 else 0)"
    "r_retransmit_rounds (run_res r1) = r_retransmit_rounds (run_res r)"
    "r_block_acks (run_res r1) = r_block_acks (run_res r)" "r_rts_sent (run_res r1) = r_rts_sent (run_res r)"
    "r_link_acknowledged (run_res r1) = r_link_acknowledged (run_res r)"
    "r_delivery_receipt (run_res r1) = r_delivery_receipt (run_res r)"
proof -
  define r0 where "r0 = on_res (\<lambda>x. x\<lparr>r_data_frames_sent := r_data_frames_sent x + 1,
                            r_retransmissions := r_retransmissions x + (if again then 1 else 0)\<rparr>) r"
  obtain r1 out where s: "send_tx tx DATA (frame_airtime_us cfg) r0 = (r1, out)" by fastforce
  have step: "data_burst cfg tx fragments again (i # idx) r received =
     (if out \<noteq> Pass then data_burst cfg tx fragments again idx r1 received
      else if received i \<noteq> None
      then data_burst cfg tx fragments again idx (on_res (\<lambda>x. x\<lparr>r_duplicates := r_duplicates x + 1\<rparr>) r1) received
      else data_burst cfg tx fragments again idx r1 (received(i \<mapsto> fragments ! i)))"
    unfolding data_burst.simps r0_def [symmetric] s by simp
  have c: "same_core r0 r1" using s by (rule send_tx_core)
  show thesis
  proof (cases "out = Pass \<and> received i \<noteq> None")
    case True
    show ?thesis
      by (rule that [of "on_res (\<lambda>x. x\<lparr>r_duplicates := r_duplicates x + 1\<rparr>) r1" received])
        (use step True c in \<open>simp_all add: core r0_def\<close>)
  next
    case False
    show ?thesis
      by (rule that [of r1 "if out = Pass then received(i \<mapsto> fragments ! i) else received"])
        (use step False c in \<open>simp_all add: core r0_def\<close>)
  qed
qed

lemma data_burst_effect:
  "data_burst cfg tx fragments again idx r received = (r', received') \<Longrightarrow>
     r_states (run_res r') = r_states (run_res r) \<and> r_delivered (run_res r') = r_delivered (run_res r)
     \<and> r_data_frames_sent (run_res r') = r_data_frames_sent (run_res r) + length idx
     \<and> r_retransmissions (run_res r') = r_retransmissions (run_res r) + (if again then length idx else 0)
     \<and> r_retransmit_rounds (run_res r') = r_retransmit_rounds (run_res r)
     \<and> r_block_acks (run_res r') = r_block_acks (run_res r)
     \<and> r_rts_sent (run_res r') = r_rts_sent (run_res r)
     \<and> r_link_acknowledged (run_res r') = r_link_acknowledged (run_res r)
     \<and> r_delivery_receipt (run_res r') = r_delivery_receipt (run_res r)"
proof (induction idx arbitrary: r received)
  case Nil
  then show ?case by auto
next
  case (Cons i idx)
  obtain r1 rc1 where s: "data_burst cfg tx fragments again (i # idx) r received = data_burst cfg tx fragments again idx r1 rc1"
    "r_states (run_res r1) = r_states (run_res r)" "r_delivered (run_res r1) = r_delivered (run_res r)"
    "r_data_frames_sent (run_res r1) = r_data_frames_sent (run_res r) + 1"
    "r_retransmissions (run_res r1) = r_retransmissions (run_res r) + (if again then 1 else 0)"
    "r_retransmit_rounds (run_res r1) = r_retransmit_rounds (run_res r)"
    "r_block_acks (run_res r1) = r_block_acks (run_res r)" "r_rts_sent (run_res r1) = r_rts_sent (run_res r)"
    "r_link_acknowledged (run_res r1) = r_link_acknowledged (run_res r)"
    "r_delivery_receipt (run_res r1) = r_delivery_receipt (run_res r)"
    by (rule data_burst_step)
  from Cons.IH [OF Cons.prems [unfolded s(1)]] show ?case by (simp add: s(2-))
qed

text \<open>The receiver only ever holds fragments of the message, at their own index.\<close>

definition holds_fragments :: "bytes list \<Rightarrow> (nat \<rightharpoonup> bytes) \<Rightarrow> bool" where
  "holds_fragments fragments received \<longleftrightarrow> (\<forall>i b. received i = Some b \<longrightarrow> i < length fragments \<and> b = fragments ! i)"

lemma data_burst_received:
  "data_burst cfg tx fragments again idx r received = (r', received') \<Longrightarrow> holds_fragments fragments received \<Longrightarrow>
     set idx \<subseteq> {0..<length fragments} \<Longrightarrow>
     holds_fragments fragments received' \<and> dom received \<subseteq> dom received'"
proof (induction idx arbitrary: r received)
  case Nil
  then show ?case by auto
next
  case (Cons i idx)
  obtain r1 rc1 where s: "data_burst cfg tx fragments again (i # idx) r received = data_burst cfg tx fragments again idx r1 rc1"
    and rc1: "rc1 = received \<or> rc1 = received(i \<mapsto> fragments ! i)"
    by (rule data_burst_step)
  have "holds_fragments fragments rc1" and sub: "dom received \<subseteq> dom rc1"
    using rc1 Cons.prems(2,3) by (auto simp: holds_fragments_def split: if_splits)
  with Cons.IH [OF Cons.prems(1) [unfolded s]] Cons.prems(3) show ?case by auto
qed

lemma block_ack_effect:
  assumes "block_ack cfg rx tot received acked r = (r', acked')"
  shows "r_states (run_res r') = r_states (run_res r) @ [LS_WAIT_BLOCK_ACK]
     \<and> r_delivered (run_res r') = r_delivered (run_res r)
     \<and> r_data_frames_sent (run_res r') = r_data_frames_sent (run_res r)
     \<and> r_retransmissions (run_res r') = r_retransmissions (run_res r)
     \<and> r_retransmit_rounds (run_res r') = r_retransmit_rounds (run_res r)
     \<and> r_block_acks (run_res r') \<le> r_block_acks (run_res r) + 1
     \<and> r_rts_sent (run_res r') = r_rts_sent (run_res r)
     \<and> r_link_acknowledged (run_res r') = r_link_acknowledged (run_res r)
     \<and> r_delivery_receipt (run_res r') = r_delivery_receipt (run_res r)
     \<and> (acked' = acked \<or> acked' = dom received)"
proof -
  obtain r1 out where s: "send_tx rx BLOCK_ACK (rts_airtime_us cfg) (on_res (record_state LS_WAIT_BLOCK_ACK) r) = (r1, out)"
    by fastforce
  show ?thesis using assms send_tx_core [OF s]
    by (auto simp: block_ack_def s core split: if_splits)
qed

definition data_delta :: "nat \<Rightarrow> nat \<Rightarrow> nat \<Rightarrow> nat \<Rightarrow> mac_result \<Rightarrow> mac_result \<Rightarrow> bool" where
  "data_delta frames again retr rounds x y \<longleftrightarrow> r_delivered y = r_delivered x \<and> r_rts_sent y = r_rts_sent x
     \<and> r_link_acknowledged y = r_link_acknowledged x \<and> r_delivery_receipt y = r_delivery_receipt x
     \<and> r_data_frames_sent y = r_data_frames_sent x + frames
     \<and> r_retransmissions y = r_retransmissions x + again
     \<and> r_retransmit_rounds y = r_retransmit_rounds x + retr
     \<and> r_block_acks y \<le> r_block_acks x + rounds"

lemma data_round_effect:
  assumes "data_round cfg tx rx fragments k to_send r received acked = (r', received', acked')"
    and "good_trace (r_states (run_res r))" and "holds_fragments fragments received"
    and "acked \<subseteq> dom received" and "set to_send \<subseteq> {0..<length fragments}" and "to_send \<noteq> []"
    and "last (r_states (run_res r)) = (if k = 0 then LS_CTS_GRANTED else LS_WAIT_BLOCK_ACK)"
  shows "good_trace (r_states (run_res r')) \<and> last (r_states (run_res r')) = LS_WAIT_BLOCK_ACK
     \<and> holds_fragments fragments received' \<and> acked' \<subseteq> dom received' \<and> dom received \<subseteq> dom received'
     \<and> data_delta (length to_send) (if k = 0 then 0 else length to_send) (if k = 0 then 0 else 1) 1 (run_res r) (run_res r')"
proof -
  define r0 where "r0 = (if k > 0
      then on_res (\<lambda>x. record_state LS_RETRANSMIT (x\<lparr>r_retransmit_rounds := r_retransmit_rounds x + 1\<rparr>)) r
      else on_res (record_state LS_DATA_BURST) r)"
  obtain r1 rc1 where b: "data_burst cfg tx fragments (k > 0) to_send r0 received = (r1, rc1)" by fastforce
  obtain r2 acked2 where ba: "block_ack cfg rx (length fragments) rc1 acked r1 = (r2, acked2)" by fastforce
  have res: "r' = r2" "received' = rc1" "acked' = acked2"
    using assms(1) unfolding data_round_def Let_def r0_def [symmetric] b by (simp_all add: ba)
  have t0: "good_trace (r_states (run_res r0))"
    "last (r_states (run_res r0)) = (if k = 0 then LS_DATA_BURST else LS_RETRANSMIT)"
    using assms(2,7) by (auto simp: r0_def good_trace_snoc)
  have t2: "good_trace (r_states (run_res r2)) \<and> last (r_states (run_res r2)) = LS_WAIT_BLOCK_ACK"
    using t0 block_ack_effect [OF ba] data_burst_effect [OF b] by (auto simp: good_trace_snoc)
  have d: "data_delta (length to_send) (if k = 0 then 0 else length to_send) (if k = 0 then 0 else 1) 1 (run_res r) (run_res r2)"
    using block_ack_effect [OF ba] data_burst_effect [OF b] assms(6)
    by (auto simp: data_delta_def r0_def)
  have "holds_fragments fragments rc1 \<and> dom received \<subseteq> dom rc1"
    using data_burst_received [OF b assms(3,5)] .
  with block_ack_effect [OF ba] assms(4) t2 d show ?thesis by (auto simp: res)
qed

lemma later_rounds_effect:
  assumes "0 \<notin> set rs"
  shows "data_rounds cfg tx rx fragments rs r received acked = (r', received', acked') \<Longrightarrow>
     good_trace (r_states (run_res r)) \<Longrightarrow> last (r_states (run_res r)) = LS_WAIT_BLOCK_ACK \<Longrightarrow>
     holds_fragments fragments received \<Longrightarrow> acked \<subseteq> dom received \<Longrightarrow>
     good_trace (r_states (run_res r')) \<and> last (r_states (run_res r')) = LS_WAIT_BLOCK_ACK
     \<and> holds_fragments fragments received' \<and> acked' \<subseteq> dom received'
     \<and> (\<exists>n k. n \<le> length rs * length fragments \<and> k \<le> length rs \<and> data_delta n n k k (run_res r) (run_res r'))"
  using assms
proof (induction rs arbitrary: r received acked)
  case Nil
  then show ?case by (auto simp: data_delta_def)
next
  case (Cons k rs)
  let ?ts = "filter (\<lambda>i. i \<notin> acked) [0..<length fragments]"
  show ?case
  proof (cases "?ts = []")
    case True
    then have "(r', received', acked') = (r, received, acked)" using Cons.prems(1) by simp
    with Cons.prems show ?thesis by (auto simp: data_delta_def)
  next
    case False
    obtain r1 rc1 ak1 where one: "data_round cfg tx rx fragments k ?ts r received acked = (r1, rc1, ak1)"
      by (metis prod_cases3)
    have rest: "data_rounds cfg tx rx fragments rs r1 rc1 ak1 = (r', received', acked')"
      using Cons.prems(1) False one by (simp add: Let_def)
    have k: "k \<noteq> 0" using Cons.prems(6) by auto
    have sub: "set ?ts \<subseteq> {0..<length fragments}" by auto
    note e = data_round_effect [OF one Cons.prems(2,4,5) sub False]
    with k Cons.prems(3) have e1: "good_trace (r_states (run_res r1))" "last (r_states (run_res r1)) = LS_WAIT_BLOCK_ACK"
      "holds_fragments fragments rc1" "ak1 \<subseteq> dom rc1"
      and d1: "data_delta (length ?ts) (length ?ts) 1 1 (run_res r) (run_res r1)" by auto
    from Cons.IH [OF rest e1] Cons.prems(6) obtain n m where ih: "good_trace (r_states (run_res r'))"
      "last (r_states (run_res r')) = LS_WAIT_BLOCK_ACK" "holds_fragments fragments received'"
      "acked' \<subseteq> dom received'" "n \<le> length rs * length fragments" "m \<le> length rs"
      "data_delta n n m m (run_res r1) (run_res r')" by auto
    have "length ?ts \<le> length fragments" by (metis length_filter_le length_upt minus_nat.diff_0)
    then have "length ?ts + n \<le> length (k # rs) * length fragments" using ih(5) by simp
    moreover have "data_delta (length ?ts + n) (length ?ts + n) (1 + m) (1 + m) (run_res r) (run_res r')"
      using d1 ih(7) by (auto simp: data_delta_def)
    ultimately show ?thesis using ih(1-4,6) by (metis Suc_eq_plus1_left Suc_le_mono length_Cons)
  qed
qed

lemma data_rounds_effect:
  assumes "data_rounds cfg tx rx fragments [0..<nat (max_retransmit_rounds cfg + 1)] r Map.empty {} = (r', received', acked')"
    and "good_trace (r_states (run_res r))" "last (r_states (run_res r)) = LS_CTS_GRANTED"
    and "fragments \<noteq> []" "0 \<le> max_retransmit_rounds cfg"
  shows "good_trace (r_states (run_res r')) \<and> last (r_states (run_res r')) = LS_WAIT_BLOCK_ACK
     \<and> holds_fragments fragments received' \<and> acked' \<subseteq> dom received'
     \<and> (\<exists>n k. n \<le> nat (max_retransmit_rounds cfg) * length fragments \<and> k \<le> nat (max_retransmit_rounds cfg)
          \<and> data_delta (length fragments + n) n k (k + 1) (run_res r) (run_res r'))"
proof -
  let ?R = "nat (max_retransmit_rounds cfg)" and ?n = "length fragments"
  have rs: "[0..<nat (max_retransmit_rounds cfg + 1)] = 0 # [1..<?R + 1]"
    using assms(5) by (simp add: upt_conv_Cons nat_add_distrib)
  obtain r1 rc1 ak1 where one: "data_round cfg tx rx fragments 0 [0..<?n] r Map.empty {} = (r1, rc1, ak1)"
    by (metis prod_cases3)
  have rest: "data_rounds cfg tx rx fragments [1..<?R + 1] r1 rc1 ak1 = (r', received', acked')"
    using assms(1,4) unfolding rs by (simp add: Let_def one del: upt_Suc)
  have e: "good_trace (r_states (run_res r1))" "last (r_states (run_res r1)) = LS_WAIT_BLOCK_ACK"
      "holds_fragments fragments rc1" "ak1 \<subseteq> dom rc1" "data_delta ?n 0 0 1 (run_res r) (run_res r1)"
    using data_round_effect [OF one assms(2)] assms(3,4) by (auto simp: holds_fragments_def)
  have pos: "0 \<notin> set [1..<?R + 1]" and len: "length [1..<?R + 1] = ?R" by (simp_all del: upt_Suc)
  from later_rounds_effect [OF pos rest e(1-4), unfolded len] obtain n k where l: "good_trace (r_states (run_res r'))"
    "last (r_states (run_res r')) = LS_WAIT_BLOCK_ACK" "holds_fragments fragments received'" "acked' \<subseteq> dom received'"
    "n \<le> ?R * ?n" "k \<le> ?R" "data_delta n n k k (run_res r1) (run_res r')" by blast
  have "data_delta (?n + n) n k (k + 1) (run_res r) (run_res r')"
    using e(5) l(7) assms(4) by (auto simp: data_delta_def)
  with l show ?thesis by blast
qed

section \<open>What a transfer guarantees\<close>

text \<open>The outcome of a transfer, in one predicate over the result and the receiver's fragments.\<close>

definition transfer_ok :: "mac_config \<Rightarrow> bytes list \<Rightarrow> mac_result \<Rightarrow> (nat \<rightharpoonup> bytes) \<Rightarrow> bool" where
  "transfer_ok cfg fragments x received \<longleftrightarrow>
     good_trace (r_states x) \<and> last (r_states x) = r_final_state x
     \<and> r_final_state x \<in> {LS_COMPLETE, LS_FAILED, LS_CANCELLED}
     \<and> (r_delivered x \<longleftrightarrow> r_final_state x = LS_COMPLETE) \<and> (r_delivery_receipt x \<longleftrightarrow> r_delivered x)
     \<and> (r_delivered x \<longleftrightarrow> map received [0..<length fragments] = map Some fragments)
     \<and> (r_link_acknowledged x \<longrightarrow> r_delivered x)
     \<and> r_rts_sent x \<le> nat (max_handshake_attempts cfg)
     \<and> r_data_frames_sent x \<le> length fragments * nat (max_retransmit_rounds cfg + 1)
     \<and> r_retransmit_rounds x \<le> nat (max_retransmit_rounds cfg)
     \<and> r_block_acks x \<le> nat (max_retransmit_rounds cfg + 1)
     \<and> r_data_frames_sent x = r_retransmissions x + (if r_data_frames_sent x = 0 then 0 else length fragments)"

definition fresh_result :: "mac_result \<Rightarrow> bool" where
  "fresh_result x \<longleftrightarrow> \<not> r_delivered x \<and> \<not> r_link_acknowledged x \<and> \<not> r_delivery_receipt x
     \<and> r_data_frames_sent x = 0 \<and> r_retransmissions x = 0 \<and> r_retransmit_rounds x = 0 \<and> r_block_acks x = 0"

lemma all_received:
  "holds_fragments fragments received \<Longrightarrow>
     missing (length fragments) received = [] \<longleftrightarrow> map received [0..<length fragments] = map Some fragments"
proof -
  assume h: "holds_fragments fragments received"
  have "map received [0..<length fragments] = map Some fragments \<longleftrightarrow>
      (\<forall>i < length fragments. received i = Some (fragments ! i))"
    by (subst list_eq_iff_nth_eq) simp
  moreover have "missing (length fragments) received = [] \<longleftrightarrow> (\<forall>i < length fragments. received i \<noteq> None)"
    by (auto simp: missing_def filter_empty_conv)
  moreover have "received i \<noteq> None \<longleftrightarrow> received i = Some (fragments ! i)" for i
    using h by (auto simp: holds_fragments_def)
  ultimately show ?thesis by simp
qed

lemma none_received: "fragments \<noteq> [] \<Longrightarrow> map Map.empty [0..<length fragments] \<noteq> map Some fragments"
  by (cases fragments) (simp_all add: upt_conv_Cons del: upt_Suc)

lemma no_data_outcome:
  assumes "fresh_result x" and "good_trace (r_states x)" "last (r_states x) = r_final_state x"
    and "r_final_state x \<in> {LS_FAILED, LS_CANCELLED}" and "r_rts_sent x \<le> nat (max_handshake_attempts cfg)"
    and "fragments \<noteq> []"
  shows "transfer_ok cfg fragments x Map.empty"
  using assms none_received [OF assms(6)] by (auto simp: transfer_ok_def fresh_result_def)

lemma conclude_outcome:
  assumes "conclude cfg a b (length fragments) r received acked claims = (r', claims')"
    and "good_trace (r_states (run_res r))" "last (r_states (run_res r)) = LS_WAIT_BLOCK_ACK"
    and "holds_fragments fragments received" "acked \<subseteq> dom received" "fresh_result x"
    and "data_delta (length fragments + n) n k (k + 1) x (run_res r)"
    and "n \<le> nat (max_retransmit_rounds cfg) * length fragments" "k \<le> nat (max_retransmit_rounds cfg)"
    and "r_rts_sent x \<le> nat (max_handshake_attempts cfg)" "fragments \<noteq> []" "0 \<le> max_retransmit_rounds cfg"
  shows "transfer_ok cfg fragments (run_res r') received"
proof -
  note recv = all_received [OF assms(4)]
  have R: "nat (max_retransmit_rounds cfg + 1) = nat (max_retransmit_rounds cfg) + 1"
    using assms(12) by (simp add: nat_add_distrib)
  have frames: "length fragments + n \<le> length fragments * nat (max_retransmit_rounds cfg + 1)"
    using assms(8) by (simp add: R mult.commute)
  note x = assms(6) [unfolded fresh_result_def] and d = assms(7) [unfolded data_delta_def]
  define q where "q = (if acked = {0..<length fragments} \<and> missing (length fragments) received = []
      then on_res (\<lambda>x. x\<lparr>r_link_acknowledged := True\<rparr>) r else r)"
  have q: "r_states (run_res q) = r_states (run_res r)" "\<not> r_delivered (run_res q)"
    "\<not> r_delivery_receipt (run_res q)" "r_rts_sent (run_res q) \<le> nat (max_handshake_attempts cfg)"
    "r_data_frames_sent (run_res q) = length fragments + n" "r_retransmissions (run_res q) = n"
    "r_retransmit_rounds (run_res q) = k" "r_block_acks (run_res q) \<le> k + 1"
    "r_link_acknowledged (run_res q) \<Longrightarrow> missing (length fragments) received = []"
    using x d assms(10) by (auto simp: q_def split: if_splits)
  have ne: "length fragments + n \<noteq> 0" using assms(11) by simp
  note c = assms(1) [unfolded conclude_def Let_def, folded q_def]
  show ?thesis
  proof (cases "missing (length fragments) received = []")
    case True
    then have r': "run_res r' = record_state LS_COMPLETE ((record_state LS_WAIT_DELIVERY_RECEIPT (run_res q))
        \<lparr>r_total_airtime_us := r_total_airtime_us (run_res q) + rts_airtime_us cfg, r_delivery_receipt := True,
         r_delivered := True, r_final_state := LS_COMPLETE\<rparr>)"
      using c by (auto simp: record_state_def)
    show ?thesis
      using assms(2,3,9) frames q recv True ne
      by (simp add: r' transfer_ok_def good_trace_snoc good_trace_more R)
  next
    case False
    then have r': "\<exists>y. run_res r' = record_state LS_FAILED (record_state LS_FIN ((run_res q)
        \<lparr>r_final_state := LS_FAILED, r_detail := y\<rparr>))"
      using c by auto
    then obtain y where r': "run_res r' = record_state LS_FAILED (record_state LS_FIN ((run_res q)
        \<lparr>r_final_state := LS_FAILED, r_detail := y\<rparr>))" by blast
    show ?thesis
      using assms(2,3,9) frames q recv False ne
      by (auto simp: r' transfer_ok_def good_trace_snoc good_trace_more R)
  qed
qed

lemma expiry_note_ok: "transfer_ok cfg fragments (expiry_note cfg x) received \<longleftrightarrow> transfer_ok cfg fragments x received"
  by (simp add: transfer_ok_def expiry_note_def)

lemma finish_fresh: "fresh_result (finish s why x) \<longleftrightarrow> fresh_result x"
  by (simp add: fresh_result_def)



end
