(* ===== verification/MacLive.thy ===== *)
theory MacLive
  imports MacLink
begin

text \<open>
  Progress of the MAC transfer: on a clear medium with an empty loss plan the handshake is granted
  at once and every fragment is delivered and acknowledged in one round.
\<close>

section \<open>A clear medium\<close>

definition clear_medium :: "medium \<Rightarrow> bool" where
  "clear_medium m \<longleftrightarrow> lp_drop (loss m) = {} \<and> lp_corrupt (loss m) = {} \<and> list_all (\<lambda>t. end_us t \<le> now_us m) (inflight m)"

lemma clear_not_busy: "clear_medium m \<Longrightarrow> \<not> medium_busy m"
  by (auto simp: clear_medium_def medium_busy_def list_all_iff list_ex_iff)

lemma clear_advance: "clear_medium m \<Longrightarrow> clear_medium (medium_advance us m)"
  by (auto simp: clear_medium_def medium_advance_def list_all_iff)

lemma clear_reserve: "clear_medium (medium_reserve owner d m) = clear_medium m"
  by (simp add: clear_medium_def medium_reserve_def)

lemma clear_transmit:
  assumes "clear_medium m" and "0 \<le> airtime"
  shows "\<exists>m'. medium_transmit src ft airtime m = (m', Pass) \<and> clear_medium m'"
proof -
  have "filter (\<lambda>t. end_us t > now_us m) (inflight m) = []"
    using assms(1) by (auto simp: clear_medium_def filter_empty_conv list_all_iff)
  then show ?thesis using assms
    by (simp add: medium_transmit_def Let_def classify_def clear_medium_def medium_advance_def)
qed

lemma send_tx_clear:
  assumes "clear_medium (run_medium r)" and "0 \<le> airtime"
  obtains r' where "send_tx src ft airtime r = (r', Pass)" "clear_medium (run_medium r')" "same_core r r'"
proof -
  obtain m' where m: "medium_transmit src ft airtime (run_medium r) = (m', Pass)" "clear_medium m'"
    using clear_transmit [OF assms] by blast
  then have "send_tx src ft airtime r = (on_res (\<lambda>x. x\<lparr>r_total_airtime_us := r_total_airtime_us x + airtime,
      r_collisions := r_collisions x + (if Pass = Collision then 1 else 0)\<rparr>) (r\<lparr>run_medium := m'\<rparr>), Pass)"
    by (simp add: send_tx_def)
  from that [OF this] m(2) send_tx_core [OF this] show thesis by simp
qed

section \<open>The phases on a clear medium\<close>

lemma handshake_clear:
  assumes "clear_medium (run_medium r)" and "\<not> reserved_for_other tx (run_medium r)"
    and "0 \<le> rts_airtime_us cfg" and "tot \<le> cts_max_accept_frames cfg"
  shows "\<exists>r'. handshake_attempt randint cfg tx rx tot reservation attempt r = (r', HsGranted)
     \<and> clear_medium (run_medium r')"
proof -
  define r1 where "r1 = on_res (\<lambda>x. record_state LS_CARRIER_SENSE (x\<lparr>r_handshake_attempts := attempt + 1\<rparr>)) r"
  define r2 where "r2 = on_res (\<lambda>x. record_state LS_RTS_SENT (x\<lparr>r_rts_sent := r_rts_sent x + 1\<rparr>)) r1"
  have c: "clear_medium (run_medium r1)" "clear_medium (run_medium r2)" using assms(1) by (simp_all add: r1_def r2_def)
  obtain r3 where s: "send_tx tx RTS (rts_airtime_us cfg) r2 = (r3, Pass)" "clear_medium (run_medium r3)"
    using send_tx_clear [OF c(2) assms(3)] by blast
  define r4 where "r4 = on_medium (medium_advance (cts_turnaround_us cfg)) (on_res (record_state LS_WAIT_CTS) r3)"
  have "clear_medium (run_medium r4)" using s(2) by (simp add: r4_def clear_advance)
  then obtain r5 where s2: "send_tx rx CTS (rts_airtime_us cfg) r4 = (r5, Pass)" "clear_medium (run_medium r5)"
    using send_tx_clear [OF _ assms(3)] by blast
  have nb: "\<not> (medium_busy (run_medium r1) \<or> reserved_for_other tx (run_medium r1))"
    using assms(2) clear_not_busy [OF c(1)] by (simp add: r1_def)
  show ?thesis
    unfolding handshake_attempt_def Let_def r1_def [symmetric] if_not_P [OF nb] r2_def [symmetric] s(1)
      prod.case r4_def [symmetric] s2(1)
    using assms(4) s2(2) by (simp add: clear_reserve)
qed

lemma data_burst_clear:
  assumes "0 \<le> frame_airtime_us cfg"
  shows "clear_medium (run_medium r) \<Longrightarrow>
     \<exists>r' received'. data_burst cfg tx fragments again idx r received = (r', received')
       \<and> clear_medium (run_medium r') \<and> dom received' = dom received \<union> set idx"
proof (induction idx arbitrary: r received)
  case Nil
  then show ?case by auto
next
  case (Cons i idx)
  define r0 where "r0 = on_res (\<lambda>x. x\<lparr>r_data_frames_sent := r_data_frames_sent x + 1,
                            r_retransmissions := r_retransmissions x + (if again then 1 else 0)\<rparr>) r"
  have "clear_medium (run_medium r0)" using Cons.prems by (simp add: r0_def)
  then obtain r1 where s: "send_tx tx DATA (frame_airtime_us cfg) r0 = (r1, Pass)" and c: "clear_medium (run_medium r1)"
    using send_tx_clear [OF _ assms] by blast
  have step: "data_burst cfg tx fragments again (i # idx) r received =
     (if received i \<noteq> None
      then data_burst cfg tx fragments again idx (on_res (\<lambda>x. x\<lparr>r_duplicates := r_duplicates x + 1\<rparr>) r1) received
      else data_burst cfg tx fragments again idx r1 (received(i \<mapsto> fragments ! i)))"
    unfolding data_burst.simps r0_def [symmetric] s by simp
  show ?case
  proof (cases "received i = None")
    case True
    obtain r' rc where "data_burst cfg tx fragments again idx r1 (received(i \<mapsto> fragments ! i)) = (r', rc)"
      "clear_medium (run_medium r')" "dom rc = dom (received(i \<mapsto> fragments ! i)) \<union> set idx"
      using Cons.IH [OF c] by blast
    with True show ?thesis unfolding step by (intro exI [of _ r'] exI [of _ rc]) simp
  next
    case False
    have "clear_medium (run_medium (on_res (\<lambda>x. x\<lparr>r_duplicates := r_duplicates x + 1\<rparr>) r1))" using c by simp
    from Cons.IH [OF this, of received] False show ?thesis unfolding step by auto
  qed
qed

lemma data_rounds_clear:
  assumes "clear_medium (run_medium r)" and "0 \<le> frame_airtime_us cfg" "0 \<le> rts_airtime_us cfg"
    and "fragments \<noteq> []" "0 \<le> max_retransmit_rounds cfg"
  shows "\<exists>r' received. data_rounds cfg tx rx fragments [0..<nat (max_retransmit_rounds cfg + 1)] r Map.empty {}
       = (r', received, {0..<length fragments}) \<and> dom received = {0..<length fragments}
     \<and> r_data_frames_sent (run_res r') = r_data_frames_sent (run_res r) + length fragments"
proof -
  let ?n = "length fragments"
  define r0 where "r0 = on_res (record_state LS_DATA_BURST) r"
  have "clear_medium (run_medium r0)" using assms(1) by (simp add: r0_def)
  from data_burst_clear [OF assms(2) this, of tx fragments False "[0..<?n]" Map.empty] obtain r1 rc where
    b: "data_burst cfg tx fragments False [0..<?n] r0 Map.empty = (r1, rc)" "clear_medium (run_medium r1)"
    "dom rc = {0..<?n}" by auto
  define r2 where "r2 = on_res (record_state LS_WAIT_BLOCK_ACK) r1"
  have "clear_medium (run_medium r2)" using b(2) by (simp add: r2_def)
  then obtain r3 where s: "send_tx rx BLOCK_ACK (rts_airtime_us cfg) r2 = (r3, Pass)"
    using send_tx_clear [OF _ assms(3)] by blast
  obtain r4 ak where ba: "block_ack cfg rx ?n rc {} r1 = (r4, ak)" by fastforce
  then have ak: "ak = {0..<?n}" using s b(3) by (auto simp: block_ack_def r2_def Let_def)
  have rs: "[0..<nat (max_retransmit_rounds cfg + 1)] = 0 # [1..<nat (max_retransmit_rounds cfg + 1)]"
    using assms(5) by (simp add: upt_conv_Cons nat_add_distrib)
  have one: "data_round cfg tx rx fragments 0 [0..<?n] r Map.empty {} = (r4, rc, ak)"
    unfolding data_round_def by (simp add: r0_def [symmetric] b(1) ba)
  have stop: "data_rounds cfg tx rx fragments ks r4 rc {0..<?n} = (r4, rc, {0..<?n})" for ks
    by (cases ks) (simp_all add: filter_empty_conv)
  have "r_data_frames_sent (run_res r4) = r_data_frames_sent (run_res r) + ?n"
    using block_ack_effect [OF ba] data_burst_effect [OF b(1)] by (simp add: r0_def)
  then show ?thesis using one stop assms(4) b(3) unfolding rs by (simp add: ak Let_def del: upt_Suc)
qed

text \<open>
  C15: on a clear medium a transfer succeeds in one round. When no loss is planned, nothing is in
  flight, the channel is not reserved for another node, the receiver accepts the size and the
  fairness bound is not reached, \<open>run_mac_transfer\<close> delivers every fragment, is acknowledged, and
  sends each data frame exactly once.
\<close>

theorem clear_medium_delivers:
  assumes "clear_medium m" "\<not> reserved_for_other (me_addr tx) m"
    and "fragments \<noteq> []" "length fragments \<le> min (max_data_frames cfg) (cts_max_accept_frames cfg)"
    and "0 \<le> frame_airtime_us cfg" "0 \<le> rts_airtime_us cfg" "0 \<le> max_retransmit_rounds cfg"
    and "0 < max_handshake_attempts cfg" "consecutive_claims tx < max_consecutive_claims cfg"
  shows "\<exists>m' x received. run_mac_transfer randint rng cfg tx rx fragments m seed False
       = Inr (m', tx\<lparr>consecutive_claims := consecutive_claims tx + 1\<rparr>, x, received)
     \<and> r_delivered x \<and> r_link_acknowledged x \<and> r_data_frames_sent x = length fragments"
proof -
  let ?n = "length fragments" and ?a = "me_addr tx" and ?b = "me_addr rx"
  let ?res = "cts_turnaround_us cfg + int ?n * frame_airtime_us cfg + frame_airtime_us cfg"
  define r0 where "r0 = on_res (record_state LS_IDLE)
      \<lparr>run_medium = m, run_rng = rng,
       run_res = new_result (mode cfg) (mac_session_id (me_node_id tx) (me_node_id rx) seed)\<rparr>"
  define hs where "hs = (case mode cfg of
       RtsCtsSharedChannel \<Rightarrow> handshake randint cfg ?a ?b ?n ?res [0..<nat (max_handshake_attempts cfg)] r0
     | PointToPointTdd \<Rightarrow> (on_res (record_state LS_CTS_GRANTED) (on_medium (medium_reserve ?a ?res)
                 (on_res (\<lambda>x. x\<lparr>r_reservation_us := ?res\<rparr>) r0)), HsGranted))"
  have c0: "clear_medium (run_medium r0)" "\<not> reserved_for_other ?a (run_medium r0)"
    and g0: "good_trace (r_states (run_res r0))" "last (r_states (run_res r0)) = LS_IDLE"
    and d0: "r_data_frames_sent (run_res r0) = 0"
    using assms(1,2) by (simp_all add: r0_def new_result_def good_trace_def)
  have "\<exists>r. hs = (r, HsGranted) \<and> clear_medium (run_medium r) \<and> r_data_frames_sent (run_res r) = 0"
  proof (cases "mode cfg")
    case PointToPointTdd
    then show ?thesis using c0 d0 by (simp add: hs_def clear_reserve)
  next
    case RtsCtsSharedChannel
    have "[0..<nat (max_handshake_attempts cfg)] = 0 # [1..<nat (max_handshake_attempts cfg)]"
      using assms(8) by (simp add: upt_conv_Cons)
    moreover obtain r where a: "handshake_attempt randint cfg ?a ?b ?n ?res 0 r0 = (r, HsGranted)"
      and c: "clear_medium (run_medium r)"
      using handshake_clear [OF c0 assms(6), of ?n randint ?b ?res 0] assms(4) by auto
    ultimately have "hs = (r, HsGranted)" by (simp add: hs_def RtsCtsSharedChannel)
    moreover have "r_data_frames_sent (run_res r) = 0"
      using handshake_attempt_effect [OF a g0(1)] g0(2) d0 by (simp add: same_data_def)
    ultimately show ?thesis using c by blast
  qed
  then obtain r where h: "hs = (r, HsGranted)" "clear_medium (run_medium r)" "r_data_frames_sent (run_res r) = 0" by blast
  obtain r1 rc where dr: "data_rounds cfg ?a ?b fragments [0..<nat (max_retransmit_rounds cfg + 1)] r Map.empty {}
      = (r1, rc, {0..<?n})" and rc: "dom rc = {0..<?n}" and df: "r_data_frames_sent (run_res r1) = ?n"
    using data_rounds_clear [OF h(2) assms(5,6,3,7), of ?a ?b] h(3) by auto
  have "missing ?n rc = []" using rc by (auto simp: missing_def filter_empty_conv)
  then obtain r2 where co: "conclude cfg ?a ?b ?n r1 rc {0..<?n} (consecutive_claims tx) = (r2, consecutive_claims tx + 1)"
    and r2: "r_delivered (run_res r2)" "r_link_acknowledged (run_res r2)" "r_data_frames_sent (run_res r2) = ?n"
    using df by (simp add: conclude_def Let_def)
  have fits: "\<not> (?n = 0 \<or> ?n > max_data_frames cfg)" and fair: "\<not> consecutive_claims tx \<ge> max_consecutive_claims cfg"
    using assms(3,4,9) by auto
  have "run_mac_transfer randint rng cfg tx rx fragments m seed False
      = Inr (run_medium r2, tx\<lparr>consecutive_claims := consecutive_claims tx + 1\<rparr>, expiry_note cfg (run_res r2), rc)"
    unfolding run_mac_transfer_def Let_def r0_def [symmetric] hs_def [symmetric] if_not_P [OF fits] if_not_P [OF fair]
    by (simp add: h(1) dr co)
  moreover have "r_delivered (expiry_note cfg (run_res r2))" "r_link_acknowledged (expiry_note cfg (run_res r2))"
    "r_data_frames_sent (expiry_note cfg (run_res r2)) = ?n"
    using r2 by (simp_all add: expiry_note_def)
  ultimately show ?thesis by blast
qed

definition empty_loss :: loss_plan where
  "empty_loss = \<lparr>lp_drop = {}, lp_corrupt = {}, lp_counts = (\<lambda>_. 0)\<rparr>"

definition new_medium :: "loss_plan \<Rightarrow> medium" where
  "new_medium lp = \<lparr>now_us = 0, loss = lp, inflight = [], nav_until_us = 0, nav_owner = None, tx_history = []\<rparr>"

theorem clear_medium_delivers_witness:
  "\<exists>m' x received. run_mac_transfer (\<lambda>g lo hi. (lo, g)) () default_mac_config (new_endpoint ''a'' None)
       (new_endpoint ''b'' None) [[1], [2], [3]] (new_medium empty_loss) 0 False
       = Inr (m', (new_endpoint ''a'' None)\<lparr>consecutive_claims := 1\<rparr>, x, received)
     \<and> r_delivered x \<and> r_data_frames_sent x = 3"
proof -
  let ?m = "new_medium empty_loss" and ?a = "new_endpoint ''a'' None" and ?cfg = default_mac_config
  have "clear_medium ?m" "\<not> reserved_for_other (me_addr ?a) ?m"
    by (simp_all add: clear_medium_def new_medium_def empty_loss_def reserved_for_other_def)
  moreover have "([[1], [2], [3]] :: bytes list) \<noteq> []"
    "length ([[1], [2], [3]] :: bytes list) \<le> min (max_data_frames ?cfg) (cts_max_accept_frames ?cfg)"
    "0 \<le> frame_airtime_us ?cfg" "0 \<le> rts_airtime_us ?cfg" "0 \<le> max_retransmit_rounds ?cfg"
    "0 < max_handshake_attempts ?cfg" "consecutive_claims ?a < max_consecutive_claims ?cfg"
    by (simp_all add: default_mac_config_def new_endpoint_def)
  ultimately obtain m' x received where "run_mac_transfer (\<lambda>g lo hi. (lo, g)) () ?cfg ?a
      (new_endpoint ''b'' None) [[1], [2], [3]] ?m 0 False
      = Inr (m', ?a\<lparr>consecutive_claims := consecutive_claims ?a + 1\<rparr>, x, received)"
    and "r_delivered x" "r_data_frames_sent x = length ([[1], [2], [3]] :: bytes list)"
    using clear_medium_delivers [where m = ?m and tx = ?a and fragments = "[[1], [2], [3]]" and cfg = ?cfg
        and randint = "\<lambda>g lo hi. (lo, g)" and rng = "()" and rx = "new_endpoint ''b'' None" and seed = 0] by blast
  moreover have "consecutive_claims ?a = 0" by (simp add: new_endpoint_def)
  ultimately show ?thesis by auto
qed

end
