(* ===== verification/HwDevice.thy ===== *)
theory HwDevice
  imports Json "HOL-Library.AList"
begin

text \<open>
  The managed-hardware data model (\<open>hardware/contracts.py\<close>, the device, capability and
  binding rows of \<open>state/repositories.py\<close>) and what a lease request is checked against
  before anything is granted: \<open>LeaseService._check_compatibility\<close> and
  \<open>LeaseService.derive_binding\<close> of \<open>hardware/leases.py\<close>, with
  \<open>sanitize_device_args\<close> of \<open>hardware/discovery.py\<close>. Instants are whole
  microseconds. Two things of the Python runtime are arguments: \<open>fr\<close>, the decimal text
  of a float, and \<open>near\<close>, the rounded test \<open>abs(a - b) < 1e-6\<close>.
\<close>

section \<open>Rows\<close>

datatype presence_state = PresencePresent | PresenceMissing | PresenceUnknown

datatype health_state = HealthOk | HealthDegraded | HealthError | HealthMissing | HealthUnknown

datatype lease_state = LsPending | LsActive | LsReleased | LsExpired | LsRevoked | LsFailed | LsOrphaned

datatype lease_mode = Exclusive | SharedReceive | OtherMode string

datatype direction = DirRx | DirTx | DirRxTx | OtherDirection string

record hw_device =
  dv_id :: string
  dv_node :: string
  dv_key :: string
  dv_vendor :: "string option"
  dv_product :: "string option"
  dv_serial :: "string option"
  dv_enabled :: bool
  dv_presence :: presence_state
  dv_health :: health_state

text \<open>The parts of \<open>capabilities_json\<close> the lease service reads; a missing list is empty.\<close>

record cap_row =
  cap_device :: string
  cap_rx :: "bool option"
  cap_tx :: "bool option"
  cap_shared_safe :: bool
  cap_channels :: "int option"
  cap_freq_ranges :: "(pyfloat \<times> pyfloat) list"
  cap_rate_ranges :: "(pyfloat \<times> pyfloat) list"
  cap_rates :: "pyfloat list"
  cap_args :: "(string \<times> json) list"

record binding_row =
  bd_node :: string
  bd_device :: string
  bd_backend :: string
  bd_args :: "(string \<times> json) list"
  bd_source :: string
  bd_enabled :: bool
  bd_notes :: "string option"

text \<open>An operator binding of the configuration file, and the settings the service uses.\<close>

record config_binding =
  cb_enabled :: bool
  cb_backend :: string
  cb_selector :: string
  cb_args :: "(string \<times> json) list"
  cb_notes :: "string option"

record hw_config =
  hw_node :: string
  lease_duration :: pyfloat
  max_lease_duration :: pyfloat
  stale_grace :: pyfloat
  config_bindings :: "config_binding list"
  rf_backend_ids :: "string list"

datatype hw_error =
    DeviceNotFoundError
  | DeviceDisabled | DeviceNotPresent | DeviceUnhealthy
  | RxUnsupported | TxUnsupported | NoSuchChannel json | FrequencyOutside | RateUnsupported
  | UnsupportedMode | SharedReceiveOnly | NotSharedSafe
  | BindingNotFoundError
  | LeaseConflictError
  | LeaseNotFoundError
  | DurationOutOfRange

section \<open>Backend bindings\<close>

text \<open>\<open>str\<close> of a scalar; a value that is not scalar is dropped before.\<close>

fun py_str_scalar :: "(pyfloat \<Rightarrow> string) \<Rightarrow> json \<Rightarrow> string option" where
  "py_str_scalar fr (JStr s) = Some s"
| "py_str_scalar fr (JInt i) = Some (int_repr i)"
| "py_str_scalar fr (JBool b) = Some (if b then ''True'' else ''False'')"
| "py_str_scalar fr (JFloat x) = Some (fr x)"
| "py_str_scalar fr _ = None"

definition forbidden_arg :: "string list" where
  "forbidden_arg = [''path'', ''usb'', ''env'', ''secret'', ''token'', ''password'', ''credential'', ''endpoint'']"

definition max_args :: nat where
  "max_args = 16"

definition sanitize_arg ::
  "(pyfloat \<Rightarrow> string) \<Rightarrow> string \<times> json \<Rightarrow> (string \<times> json) list \<Rightarrow> (string \<times> json) list" where
  "sanitize_arg fr kv out =
     (if max_args \<le> length out then out
      else if \<exists>bad \<in> set forbidden_arg. py_contains bad (py_lower (fst kv)) then out
      else case py_str_scalar fr (snd kv) of
             None \<Rightarrow> out
           | Some s \<Rightarrow> AList.update (take 32 (fst kv)) (JStr (take 128 s)) out)"

definition sanitize_device_args ::
  "(pyfloat \<Rightarrow> string) \<Rightarrow> (string \<times> json) list \<Rightarrow> (string \<times> json) list" where
  "sanitize_device_args fr raw = fold (sanitize_arg fr) raw []"

definition selector_matches :: "hw_device \<Rightarrow> string \<Rightarrow> bool" where
  "selector_matches d selector =
     (let sel = py_lower (py_strip selector)
      in if sel = '''' then False
         else if sel = py_lower (dv_key d) then True
         else if (case dv_serial d of None \<Rightarrow> False | Some s \<Rightarrow> s \<noteq> '''' \<and> sel = py_lower s) then True
         else sel = py_lower (or_empty (dv_vendor d) @ '':'' @ or_empty (dv_product d)))"

definition binding_get :: "binding_row list \<Rightarrow> string \<Rightarrow> string \<Rightarrow> binding_row option" where
  "binding_get rows dev backend = tbl_get (\<lambda>b. (bd_device b, bd_backend b)) rows (dev, backend)"

definition binding_upsert :: "binding_row \<Rightarrow> binding_row list \<Rightarrow> binding_row list" where
  "binding_upsert b rows =
     (case binding_get rows (bd_device b) (bd_backend b) of
        None \<Rightarrow> rows @ [b]
      | Some _ \<Rightarrow> tbl_upd (\<lambda>b. (bd_device b, bd_backend b)) (bd_device b, bd_backend b)
          (\<lambda>old. old\<lparr>bd_args := bd_args b, bd_source := bd_source b, bd_enabled := bd_enabled b,
                   bd_notes := bd_notes b\<rparr>) rows)"

text \<open>
  The arguments for the backend, and the binding rows: an enabled administrator binding, or the
  first matching operator binding (made persistent), or the probed device arguments.
\<close>

definition derive_from_caps :: "(pyfloat \<Rightarrow> string) \<Rightarrow> binding_row list \<Rightarrow> cap_row option
   \<Rightarrow> hw_error + (string \<times> json) list \<times> binding_row list" where
  "derive_from_caps fr rows caps =
     (case caps of
        None \<Rightarrow> Inl BindingNotFoundError
      | Some c \<Rightarrow> let args = sanitize_device_args fr (cap_args c)
                  in if args \<noteq> [] then Inr (args, rows) else Inl BindingNotFoundError)"

definition derive_from_config ::
  "(pyfloat \<Rightarrow> string) \<Rightarrow> hw_config \<Rightarrow> binding_row list \<Rightarrow> cap_row option \<Rightarrow> hw_device \<Rightarrow> string
   \<Rightarrow> hw_error + (string \<times> json) list \<times> binding_row list" where
  "derive_from_config fr cfg rows caps d backend =
     (case find (\<lambda>cb. cb_enabled cb \<and> cb_backend cb = backend \<and> selector_matches d (cb_selector cb))
             (config_bindings cfg) of
        Some cb \<Rightarrow> let args = sanitize_device_args fr (cb_args cb)
                   in Inr (args, binding_upsert \<lparr>bd_node = hw_node cfg, bd_device = dv_id d, bd_backend = backend,
                        bd_args = args, bd_source = ''config'', bd_enabled = True, bd_notes = cb_notes cb\<rparr> rows)
      | None \<Rightarrow> derive_from_caps fr rows caps)"

definition derive_binding ::
  "(pyfloat \<Rightarrow> string) \<Rightarrow> hw_config \<Rightarrow> binding_row list \<Rightarrow> cap_row option \<Rightarrow> hw_device \<Rightarrow> string
   \<Rightarrow> hw_error + (string \<times> json) list \<times> binding_row list" where
  "derive_binding fr cfg rows caps d backend =
     (if backend \<notin> set (rf_backend_ids cfg) then Inl BindingNotFoundError
      else case binding_get rows (dv_id d) backend of
        Some b \<Rightarrow> if bd_enabled b then Inr (sanitize_device_args fr (bd_args b), rows)
                  else derive_from_config fr cfg rows caps d backend
      | None \<Rightarrow> derive_from_config fr cfg rows caps d backend)"

section \<open>Compatibility of a request with a device\<close>

record lease_request =
  rq_device :: string
  rq_backend :: string
  rq_direction :: direction
  rq_mode :: lease_mode
  rq_operation :: "string option"
  rq_channels :: "json list"
  rq_freq :: "pyfloat option"
  rq_rate :: "pyfloat option"
  rq_mission :: "string option"
  rq_run :: "string option"
  rq_step :: "string option"
  rq_duration :: "pyfloat option"

text \<open>A channel the device does not have; \<open>True\<close> and \<open>False\<close> count as 1 and 0.\<close>

fun channel_too_big :: "int \<Rightarrow> json \<Rightarrow> bool" where
  "channel_too_big n (JInt i) = (n \<le> i)"
| "channel_too_big n (JBool b) = (n \<le> (if b then 1 else 0))"
| "channel_too_big n _ = False"

definition missing_channel :: "cap_row option \<Rightarrow> json list \<Rightarrow> json option" where
  "missing_channel caps chs =
     (case caps of None \<Rightarrow> None | Some c \<Rightarrow>
        (case cap_channels c of None \<Rightarrow> None | Some n \<Rightarrow> find (channel_too_big n) chs))"

definition in_ranges :: "(pyfloat \<times> pyfloat) list \<Rightarrow> pyfloat \<Rightarrow> bool" where
  "in_ranges rs x \<longleftrightarrow> (\<exists>r \<in> set rs. fst r \<le> x \<and> x \<le> snd r)"

definition freq_ok :: "cap_row option \<Rightarrow> pyfloat option \<Rightarrow> bool" where
  "freq_ok caps f =
     (case (caps, f) of
        (Some c, Some x) \<Rightarrow> cap_freq_ranges c = [] \<or> in_ranges (cap_freq_ranges c) x
      | _ \<Rightarrow> True)"

definition rate_ok :: "(pyfloat \<Rightarrow> pyfloat \<Rightarrow> bool) \<Rightarrow> cap_row option \<Rightarrow> pyfloat option \<Rightarrow> bool" where
  "rate_ok near caps r =
     (case (caps, r) of
        (Some c, Some x) \<Rightarrow> (cap_rate_ranges c = [] \<and> cap_rates c = [])
           \<or> in_ranges (cap_rate_ranges c) x \<or> (\<exists>v \<in> set (cap_rates c). near x v)
      | _ \<Rightarrow> True)"

definition known_false :: "(cap_row \<Rightarrow> bool option) \<Rightarrow> cap_row option \<Rightarrow> bool" where
  "known_false f caps = (case caps of None \<Rightarrow> False | Some c \<Rightarrow> f c = Some False)"

definition shared_safe :: "cap_row option \<Rightarrow> bool" where
  "shared_safe caps = (case caps of None \<Rightarrow> False | Some c \<Rightarrow> cap_shared_safe c)"

definition check_device :: "hw_device \<Rightarrow> hw_error + unit" where
  "check_device d =
     (if \<not> dv_enabled d then Inl DeviceDisabled
      else if dv_presence d \<noteq> PresencePresent then Inl DeviceNotPresent
      else if dv_health d \<notin> {HealthOk, HealthDegraded} then Inl DeviceUnhealthy
      else Inr ())"

definition check_capabilities ::
  "(pyfloat \<Rightarrow> pyfloat \<Rightarrow> bool) \<Rightarrow> cap_row option \<Rightarrow> lease_request \<Rightarrow> hw_error + unit" where
  "check_capabilities near caps q =
     (if rq_direction q \<in> {DirRx, DirRxTx} \<and> known_false cap_rx caps then Inl RxUnsupported
      else if rq_direction q \<in> {DirTx, DirRxTx} \<and> known_false cap_tx caps then Inl TxUnsupported
      else case missing_channel caps (rq_channels q) of
        Some ch \<Rightarrow> Inl (NoSuchChannel ch)
      | None \<Rightarrow>
        if \<not> freq_ok caps (rq_freq q) then Inl FrequencyOutside
        else if \<not> rate_ok near caps (rq_rate q) then Inl RateUnsupported
        else Inr ())"

definition check_mode :: "cap_row option \<Rightarrow> lease_request \<Rightarrow> hw_error + unit" where
  "check_mode caps q =
     (if rq_mode q \<notin> {Exclusive, SharedReceive} then Inl UnsupportedMode
      else if rq_mode q = SharedReceive \<and> rq_direction q \<noteq> DirRx then Inl SharedReceiveOnly
      else if rq_mode q = SharedReceive \<and> \<not> shared_safe caps then Inl NotSharedSafe
      else Inr ())"

definition check_compatibility ::
  "(pyfloat \<Rightarrow> string) \<Rightarrow> (pyfloat \<Rightarrow> pyfloat \<Rightarrow> bool) \<Rightarrow> hw_config \<Rightarrow> binding_row list \<Rightarrow> cap_row option
   \<Rightarrow> hw_device \<Rightarrow> lease_request \<Rightarrow> hw_error + binding_row list" where
  "check_compatibility fr near cfg rows caps d q =
     rbind (check_device d) (\<lambda>_.
     rbind (check_capabilities near caps q) (\<lambda>_.
     rbind (check_mode caps q) (\<lambda>_.
     rbind (derive_binding fr cfg rows caps d (rq_backend q)) (\<lambda>(args, rows'). Inr rows'))))"

section \<open>What the checks guarantee\<close>

lemma check_device_ok: "check_device d = Inr () \<longleftrightarrow>
  dv_enabled d \<and> dv_presence d = PresencePresent \<and> dv_health d \<in> {HealthOk, HealthDegraded}"
  by (auto simp: check_device_def)

lemma check_mode_ok: "check_mode caps q = Inr () \<Longrightarrow>
  rq_mode q = Exclusive \<or> rq_mode q = SharedReceive \<and> rq_direction q = DirRx \<and> shared_safe caps"
  by (auto simp: check_mode_def split: if_splits)

lemma check_compatibility_ok:
  assumes "check_compatibility fr near cfg rows caps d q = Inr rows'"
  shows "check_device d = Inr ()" "check_capabilities near caps q = Inr ()" "check_mode caps q = Inr ()"
    and "rq_backend q \<in> set (rf_backend_ids cfg)"
  using assms by (auto simp: check_compatibility_def rbind_Inr_iff derive_binding_def split: if_splits)

section \<open>Sanitized arguments\<close>

text \<open>
  What sanitizing returns: few entries, short distinct keys, only short strings as values, and
  (up to the cut at 32 characters) no key that names a path, a credential or an endpoint.
\<close>

definition safe_entry :: "string \<times> json \<Rightarrow> bool" where
  "safe_entry kv \<longleftrightarrow> length (fst kv) \<le> 32
     \<and> (case snd kv of JStr s \<Rightarrow> length s \<le> 128 | _ \<Rightarrow> False)
     \<and> (\<forall>bad \<in> set forbidden_arg. \<not> py_contains bad (py_lower (fst kv)))"

definition safe_args :: "(string \<times> json) list \<Rightarrow> bool" where
  "safe_args out \<longleftrightarrow> length out \<le> max_args \<and> distinct (map fst out) \<and> list_all safe_entry out"

lemma length_update: "length (AList.update k v xs) \<le> Suc (length xs)"
  by (induction xs) auto

lemma set_update: "x \<in> set (AList.update k v xs) \<Longrightarrow> x = (k, v) \<or> x \<in> set xs"
  by (induction xs) (auto split: if_splits)

lemma py_contains_take: "py_contains bad (py_lower (take n s)) \<Longrightarrow> py_contains bad (py_lower s)"
proof -
  assume "py_contains bad (py_lower (take n s))"
  then obtain as bs where "take n (py_lower s) = as @ bad @ bs"
    by (auto simp: py_contains_iff py_lower_def take_map)
  then have "py_lower s = as @ bad @ (bs @ drop n (py_lower s))"
    by (metis append_assoc append_take_drop_id)
  then show ?thesis by (auto simp: py_contains_iff)
qed

lemma safe_entry_cut:
  "\<forall>bad \<in> set forbidden_arg. \<not> py_contains bad (py_lower k) \<Longrightarrow>
   safe_entry (take 32 k, JStr (take 128 s))"
  by (auto simp: safe_entry_def dest: py_contains_take)

lemma safe_args_update:
  assumes "safe_args out" "length out < max_args" "safe_entry (k, v)"
  shows "safe_args (AList.update k v out)"
  using assms length_update [of k v out]
  by (fastforce simp: safe_args_def list_all_iff distinct_update dest: set_update)

lemma sanitize_arg_safe: "safe_args out \<Longrightarrow> safe_args (sanitize_arg fr kv out)"
  by (auto simp: sanitize_arg_def split: option.splits intro!: safe_args_update safe_entry_cut)

lemma sanitize_fold_safe: "safe_args out \<Longrightarrow> safe_args (fold (sanitize_arg fr) raw out)"
  by (induction raw arbitrary: out) (simp_all add: sanitize_arg_safe)

lemma sanitized_is_safe: "safe_args (sanitize_device_args fr raw)"
  unfolding sanitize_device_args_def by (rule sanitize_fold_safe) (simp add: safe_args_def)

end
