(* ===== verification/HwLease.thy ===== *)
theory HwLease
  imports HwDevice
begin

text \<open>
  Durable device leases: the lease rows and their repository
  (\<open>SDRDeviceLeaseRepository\<close> of \<open>state/repositories.py\<close>) and every operation of
  \<open>LeaseService\<close> in \<open>hardware/leases.py\<close>. The database is a record of tables; a table
  is its rows in creation order. An operation takes the instant \<open>now\<close> and the random values
  the code draws (lease id, token) as arguments. \<open>acquire\<close> runs two transactions, which are
  two definitions here, so that other operations can come between them.
\<close>

section \<open>Lease rows and their repository\<close>

record lease =
  ls_id :: string
  ls_node :: string
  ls_device :: string
  ls_backend :: string
  ls_mission :: "string option"
  ls_run :: "string option"
  ls_step :: "string option"
  ls_operation :: "string option"
  ls_direction :: direction
  ls_channels :: "json list"
  ls_mode :: lease_mode
  ls_state :: lease_state
  ls_owner :: "string option"
  ls_owner_node :: "string option"
  ls_token :: "string option"
  ls_reason :: "string option"
  ls_acquired :: "int option"
  ls_renewed :: "int option"
  ls_expires :: "int option"
  ls_released :: "int option"

definition holding_states :: "lease_state list" where
  "holding_states = [LsActive, LsOrphaned]"

definition holding :: "lease \<Rightarrow> bool" where
  "holding l \<longleftrightarrow> ls_state l \<in> set holding_states"

abbreviation lease_get :: "lease list \<Rightarrow> string \<Rightarrow> lease option" where
  "lease_get \<equiv> tbl_get ls_id"

abbreviation lease_upd :: "string \<Rightarrow> (lease \<Rightarrow> lease) \<Rightarrow> lease list \<Rightarrow> lease list" where
  "lease_upd \<equiv> tbl_upd ls_id"

text \<open>Updates that keep the primary key.\<close>

definition keeps_id :: "(lease \<Rightarrow> lease) \<Rightarrow> bool" where
  "keeps_id f \<longleftrightarrow> (\<forall>l. ls_id (f l) = ls_id l)"

interpretation leases: keyed_store lease_get lease_upd keeps_id
  by unfold_locales (simp add: keeps_id_def tbl_get_upd)

definition holding_for_device :: "lease list \<Rightarrow> string \<Rightarrow> lease list" where
  "holding_for_device ls dev = filter (\<lambda>l. ls_device l = dev \<and> holding l) ls"

definition list_leases ::
  "string option \<Rightarrow> string option \<Rightarrow> bool \<Rightarrow> nat \<Rightarrow> lease list \<Rightarrow> lease list" where
  "list_leases node mission active_only limit ls =
     take limit (rev (filter (\<lambda>l. (node = None \<or> node = Some (ls_node l))
       \<and> (mission = None \<or> mission = ls_mission l) \<and> (active_only \<longrightarrow> holding l)) ls))"

definition lease_conflict :: "lease list \<Rightarrow> string \<Rightarrow> string \<Rightarrow> lease_mode \<Rightarrow> bool" where
  "lease_conflict ls lid dev mode \<longleftrightarrow>
     (\<exists>l \<in> set ls. ls_device l = dev \<and> ls_id l \<noteq> lid \<and> holding l
        \<and> (mode = SharedReceive \<longrightarrow> ls_mode l \<noteq> SharedReceive))"

definition activate :: "lease_mode \<Rightarrow> string \<Rightarrow> string \<Rightarrow> string \<Rightarrow> int \<Rightarrow> int \<Rightarrow> lease \<Rightarrow> lease" where
  "activate mode owner node token now expiry l =
     l\<lparr>ls_state := LsActive, ls_mode := mode, ls_owner := Some owner, ls_owner_node := Some node,
       ls_token := Some token, ls_acquired := Some now, ls_renewed := Some now, ls_expires := Some expiry\<rparr>"

text \<open>The conditional UPDATEs return the number of rows changed.\<close>

definition repo_grant :: "string \<Rightarrow> string \<Rightarrow> lease_mode \<Rightarrow> string \<Rightarrow> string \<Rightarrow> string \<Rightarrow> int \<Rightarrow> int
   \<Rightarrow> lease list \<Rightarrow> lease list \<times> nat" where
  "repo_grant lid dev mode owner node token now expiry ls =
     (case lease_get ls lid of
        None \<Rightarrow> (ls, 0)
      | Some l \<Rightarrow> if ls_state l = LsPending \<and> \<not> lease_conflict ls lid dev mode
                  then (lease_upd lid (activate mode owner node token now expiry) ls, 1)
                  else (ls, 0))"

definition repo_renew :: "string \<Rightarrow> string \<Rightarrow> int \<Rightarrow> int \<Rightarrow> lease list \<Rightarrow> lease list \<times> nat" where
  "repo_renew lid token now expiry ls =
     (case lease_get ls lid of
        None \<Rightarrow> (ls, 0)
      | Some l \<Rightarrow> if ls_token l = Some token \<and> ls_state l = LsActive
                  then (lease_upd lid (\<lambda>l. l\<lparr>ls_renewed := Some now, ls_expires := Some expiry\<rparr>) ls, 1)
                  else (ls, 0))"

definition move_to :: "lease_state \<Rightarrow> string option \<Rightarrow> bool \<Rightarrow> int \<Rightarrow> lease \<Rightarrow> lease" where
  "move_to st reason released now l =
     (let l' = l\<lparr>ls_state := st, ls_reason := reason\<rparr>
      in if released then l'\<lparr>ls_released := Some now, ls_token := None\<rparr> else l')"

definition repo_transition :: "string \<Rightarrow> lease_state \<Rightarrow> string option \<Rightarrow> lease_state list option \<Rightarrow> bool \<Rightarrow> int
   \<Rightarrow> lease list \<Rightarrow> lease list \<times> nat" where
  "repo_transition lid st reason from_states released now ls =
     (case lease_get ls lid of
        None \<Rightarrow> (ls, 0)
      | Some l \<Rightarrow> if (case from_states of None \<Rightarrow> True | Some fs \<Rightarrow> ls_state l \<in> set fs)
                  then (lease_upd lid (move_to st reason released now) ls, 1) else (ls, 0))"

definition expired_active :: "int \<Rightarrow> lease list \<Rightarrow> lease list" where
  "expired_active now ls = take 100 (filter (\<lambda>l. ls_state l = LsActive
     \<and> (case ls_expires l of None \<Rightarrow> False | Some e \<Rightarrow> e < now)) ls)"

definition holding_all :: "string option \<Rightarrow> lease list \<Rightarrow> lease list" where
  "holding_all node ls =
     take 1000 (filter (\<lambda>l. holding l \<and> (node = None \<or> node = Some (ls_node l))) ls)"

section \<open>The database and the service\<close>

record lease_event =
  le_lease :: string
  le_device :: string
  le_type :: string
  le_state :: lease_state
  le_reason :: "string option"

record hw_db =
  db_devices :: "hw_device list"
  db_caps :: "cap_row list"
  db_bindings :: "binding_row list"
  db_leases :: "lease list"
  db_lease_log :: "lease_event list"
  db_emitted :: "(string \<times> string) list"
  db_missions :: "(string \<times> string) list"

definition on_leases :: "(lease list \<Rightarrow> lease list) \<Rightarrow> hw_db \<Rightarrow> hw_db" where
  "on_leases f db = db\<lparr>db_leases := f (db_leases db)\<rparr>"

definition log_lease :: "string \<Rightarrow> string \<Rightarrow> string \<Rightarrow> lease_state \<Rightarrow> string option \<Rightarrow> hw_db \<Rightarrow> hw_db" where
  "log_lease lid dev ty st reason db =
     db\<lparr>db_lease_log := db_lease_log db @ [\<lparr>le_lease = lid, le_device = dev, le_type = ty, le_state = st, le_reason = reason\<rparr>]\<rparr>"

definition emit_hw :: "string \<Rightarrow> string \<Rightarrow> hw_db \<Rightarrow> hw_db" where
  "emit_hw ty lid db = db\<lparr>db_emitted := db_emitted db @ [(ty, lid)]\<rparr>"

definition lease_owner :: "hw_config \<Rightarrow> string" where
  "lease_owner cfg = ''hw-lease:'' @ hw_node cfg"

subsection \<open>Acquiring\<close>

definition lease_span :: "hw_config \<Rightarrow> lease_request \<Rightarrow> int option" where
  "lease_span cfg q =
     timedelta_us (fmin (float_or (rq_duration q) (lease_duration cfg)) (max_lease_duration cfg))"

definition pending_lease :: "hw_config \<Rightarrow> string \<Rightarrow> lease_request \<Rightarrow> lease" where
  "pending_lease cfg lid q =
     \<lparr>ls_id = lid, ls_node = hw_node cfg, ls_device = rq_device q, ls_backend = rq_backend q,
      ls_mission = rq_mission q, ls_run = rq_run q, ls_step = rq_step q,
      ls_operation = (let op = take 64 (or_empty (rq_operation q)) in if op = [] then None else Some op),
      ls_direction = rq_direction q, ls_channels = rq_channels q, ls_mode = rq_mode q,
      ls_state = LsPending, ls_owner = None, ls_owner_node = None, ls_token = None, ls_reason = None,
      ls_acquired = None, ls_renewed = None, ls_expires = None, ls_released = None\<rparr>"

text \<open>First transaction: validate and create the pending lease. Gives the expiry as well.\<close>

definition acquire_request :: "(pyfloat \<Rightarrow> string) \<Rightarrow> (pyfloat \<Rightarrow> pyfloat \<Rightarrow> bool) \<Rightarrow> hw_config \<Rightarrow> int \<Rightarrow> string
   \<Rightarrow> lease_request \<Rightarrow> hw_db \<Rightarrow> hw_error + hw_db \<times> int" where
  "acquire_request fr near cfg now lid q db =
     (case lease_span cfg q of
        None \<Rightarrow> Inl DurationOutOfRange
      | Some dur \<Rightarrow>
        (case tbl_get dv_id (db_devices db) (rq_device q) of
           None \<Rightarrow> Inl DeviceNotFoundError
         | Some d \<Rightarrow>
           if dv_node d \<noteq> hw_node cfg then Inl DeviceNotFoundError
           else rbind (check_compatibility fr near cfg (db_bindings db)
                         (tbl_get cap_device (db_caps db) (dv_id d)) d q)
             (\<lambda>rows. Inr (emit_hw ''hardware.lease.requested'' lid
                (log_lease lid (rq_device q) ''requested'' LsPending None
                  (on_leases (\<lambda>ls. ls @ [pending_lease cfg lid q]) (db\<lparr>db_bindings := rows\<rparr>))), now + dur))))"

text \<open>Second transaction: the atomic grant, or the failed row.\<close>

definition acquire_grant :: "hw_config \<Rightarrow> string \<Rightarrow> string \<Rightarrow> lease_mode \<Rightarrow> string \<Rightarrow> int \<Rightarrow> int
   \<Rightarrow> hw_db \<Rightarrow> hw_db \<times> (hw_error + string)" where
  "acquire_grant cfg lid dev mode token now expiry db =
     (let (ls, n) = repo_grant lid dev mode (lease_owner cfg) (hw_node cfg) token now expiry (db_leases db)
      in if n \<noteq> 0
         then (emit_hw ''hardware.lease.acquired'' lid
                (log_lease lid dev ''acquired'' LsActive None (db\<lparr>db_leases := ls\<rparr>)), Inr lid)
         else (emit_hw ''hardware.lease.failed'' lid
                (log_lease lid dev ''failed'' LsFailed (Some ''conflict'')
                  (on_leases (\<lambda>ls. fst (repo_transition lid LsFailed (Some ''conflicting active lease'')
                     (Some [LsPending]) False now ls)) db)), Inl LeaseConflictError))"

definition acquire :: "(pyfloat \<Rightarrow> string) \<Rightarrow> (pyfloat \<Rightarrow> pyfloat \<Rightarrow> bool) \<Rightarrow> hw_config \<Rightarrow> int \<Rightarrow> string \<Rightarrow> string
   \<Rightarrow> lease_request \<Rightarrow> hw_db \<Rightarrow> hw_db \<times> (hw_error + string)" where
  "acquire fr near cfg now lid token q db =
     (case acquire_request fr near cfg now lid q db of
        Inl e \<Rightarrow> (db, Inl e)
      | Inr (db1, expiry) \<Rightarrow> acquire_grant cfg lid (rq_device q) (rq_mode q) token now expiry db1)"

subsection \<open>Renewing and ending\<close>

definition renew :: "hw_config \<Rightarrow> int \<Rightarrow> string \<Rightarrow> hw_db \<Rightarrow> hw_db \<times> (hw_error + bool)" where
  "renew cfg now lid db =
     (case lease_get (db_leases db) lid of
        None \<Rightarrow> (db, Inl LeaseNotFoundError)
      | Some l \<Rightarrow>
        if ls_state l \<noteq> LsActive \<or> \<not> truthy (ls_token l) then (db, Inr False)
        else (case timedelta_us (lease_duration cfg) of
                None \<Rightarrow> (db, Inl DurationOutOfRange)
              | Some dur \<Rightarrow>
                let (ls, n) = repo_renew lid (or_empty (ls_token l)) now (now + dur) (db_leases db)
                in if n \<noteq> 0 then (emit_hw ''hardware.lease.renewed'' lid (db\<lparr>db_leases := ls\<rparr>), Inr True)
                   else (db, Inr False)))"

definition terminal_lease_states :: "lease_state list" where
  "terminal_lease_states = [LsReleased, LsExpired, LsRevoked, LsFailed]"

definition terminate :: "lease_state \<Rightarrow> string \<Rightarrow> string \<Rightarrow> int \<Rightarrow> string \<Rightarrow> string \<Rightarrow> hw_db
   \<Rightarrow> hw_db \<times> (hw_error + bool)" where
  "terminate st ty event now lid reason db =
     (case lease_get (db_leases db) lid of
        None \<Rightarrow> (db, Inl LeaseNotFoundError)
      | Some l \<Rightarrow>
        if ls_state l \<in> set terminal_lease_states then (db, Inr False)
        else let (ls, n) = repo_transition lid st (Some (take 320 reason)) None True now (db_leases db)
             in if n \<noteq> 0
                then (emit_hw event lid (log_lease lid (ls_device l) ty st (Some (take 320 reason))
                        (db\<lparr>db_leases := ls\<rparr>)), Inr True)
                else (db, Inr False))"

definition release :: "int \<Rightarrow> string \<Rightarrow> string \<Rightarrow> hw_db \<Rightarrow> hw_db \<times> (hw_error + bool)" where
  "release now lid reason db = terminate LsReleased ''released'' ''hardware.lease.released'' now lid reason db"

definition revoke :: "int \<Rightarrow> string \<Rightarrow> string \<Rightarrow> hw_db \<Rightarrow> hw_db \<times> (hw_error + bool)" where
  "revoke now lid reason db = terminate LsRevoked ''revoked'' ''hardware.lease.revoked'' now lid reason db"

text \<open>Releasing a list of leases one by one, errors ignored, counting the ones released.\<close>

fun release_each :: "int \<Rightarrow> string \<Rightarrow> string list \<Rightarrow> hw_db \<Rightarrow> hw_db \<times> nat" where
  "release_each now reason [] db = (db, 0)"
| "release_each now reason (i # ids) db =
     (let (db1, r) = release now i reason db; (db2, n) = release_each now reason ids db1
      in (db2, (if r = Inr True then 1 else 0) + n))"

definition release_for_mission :: "hw_config \<Rightarrow> int \<Rightarrow> string \<Rightarrow> string \<Rightarrow> hw_db \<Rightarrow> hw_db \<times> nat" where
  "release_for_mission cfg now mission reason db =
     release_each now reason
       (map ls_id (list_leases (Some (hw_node cfg)) (Some mission) True 500 (db_leases db))) db"

subsection \<open>Disappearance, restart and reconciliation\<close>

definition orphan :: "string \<Rightarrow> int option \<Rightarrow> bool \<Rightarrow> lease \<Rightarrow> lease" where
  "orphan reason expiry drop_token l =
     (let l1 = l\<lparr>ls_state := LsOrphaned, ls_reason := Some reason\<rparr>;
          l2 = (case expiry of None \<Rightarrow> l1 | Some e \<Rightarrow> l1\<lparr>ls_expires := Some e\<rparr>)
      in if drop_token then l2\<lparr>ls_token := None\<rparr> else l2)"

definition orphan_row :: "string \<Rightarrow> int option \<Rightarrow> bool \<Rightarrow> string \<Rightarrow> lease \<Rightarrow> hw_db \<Rightarrow> hw_db" where
  "orphan_row reason expiry drop_token note l db =
     log_lease (ls_id l) (ls_device l) ''orphaned'' LsOrphaned (Some note)
       (on_leases (lease_upd (ls_id l) (orphan reason expiry drop_token)) db)"

definition on_device_missing :: "hw_config \<Rightarrow> int \<Rightarrow> string \<Rightarrow> string \<Rightarrow> hw_db \<Rightarrow> hw_error + hw_db" where
  "on_device_missing cfg now dev reason db =
     (let held = holding_for_device (db_leases db) dev
      in if held = [] then Inr db
         else case timedelta_us (stale_grace cfg) of
           None \<Rightarrow> Inl DurationOutOfRange
         | Some g \<Rightarrow>
             Inr (fold (\<lambda>l. emit_hw ''hardware.lease.orphaned'' (ls_id l)) held
               (fold (orphan_row (take 320 (''device missing: '' @ reason)) (Some (now + g)) False ''device missing'')
                  held db)))"

definition recover_leases :: "hw_config \<Rightarrow> int \<Rightarrow> hw_db \<Rightarrow> hw_error + hw_db" where
  "recover_leases cfg now db =
     (case timedelta_us (stale_grace cfg) of
        None \<Rightarrow> Inl DurationOutOfRange
      | Some g \<Rightarrow>
          Inr (fold (orphan_row ''node restarted; lease orphaned pending reconciliation'' (Some (now + g)) True ''node restarted'')
            (holding_all (Some (hw_node cfg)) (db_leases db)) db))"

definition overdue :: "int \<Rightarrow> lease \<Rightarrow> bool" where
  "overdue now l \<longleftrightarrow> ls_state l = LsOrphaned
     \<and> (case ls_expires l of None \<Rightarrow> True | Some e \<Rightarrow> e < now)"

definition expire_row :: "int \<Rightarrow> lease \<Rightarrow> hw_db \<Rightarrow> hw_db" where
  "expire_row now l db =
     log_lease (ls_id l) (ls_device l) ''expired'' LsExpired (Some ''orphaned -> expired'')
       (on_leases (\<lambda>ls. fst (repo_transition (ls_id l) LsExpired (Some ''orphaned lease expired'') None True now ls)) db)"

definition terminal_mission :: "string list" where
  "terminal_mission = [''completed'', ''failed'', ''cancelled'', ''blocked'']"

definition mission_over :: "hw_db \<Rightarrow> lease \<Rightarrow> bool" where
  "mission_over db l \<longleftrightarrow> truthy (ls_mission l)
     \<and> (case map_of (db_missions db) (or_empty (ls_mission l)) of None \<Rightarrow> False | Some st \<Rightarrow> st \<in> set terminal_mission)"

definition orphan_expired :: "int \<Rightarrow> hw_db \<Rightarrow> hw_db" where
  "orphan_expired now db =
     fold (orphan_row ''lease expired without renewal'' None False ''expired'') (expired_active now (db_leases db)) db"

definition overdue_listed :: "hw_config \<Rightarrow> int \<Rightarrow> hw_db \<Rightarrow> lease list" where
  "overdue_listed cfg now db =
     filter (overdue now) (list_leases (Some (hw_node cfg)) None False 1000 (db_leases db))"

definition expire_overdue :: "hw_config \<Rightarrow> int \<Rightarrow> hw_db \<Rightarrow> hw_db" where
  "expire_overdue cfg now db = fold (expire_row now) (overdue_listed cfg now db) db"

definition reconcile :: "hw_config \<Rightarrow> int \<Rightarrow> hw_db \<Rightarrow> hw_db" where
  "reconcile cfg now db =
     (let db1 = orphan_expired now db;
          db2 = expire_overdue cfg now db1;
          over = filter (mission_over db2) (holding_all (Some (hw_node cfg)) (db_leases db2));
          (db3, _) = release_each now ''mission reached terminal state'' (map ls_id over) db2
      in fold (\<lambda>l. emit_hw ''hardware.lease.expired'' (ls_id l)) (overdue_listed cfg now db1)
           (fold (\<lambda>l. emit_hw ''hardware.lease.orphaned'' (ls_id l)) (expired_active now (db_leases db)) db3))"

end
