(* ===== verification/HwExclusion.thy ===== *)
theory HwExclusion
  imports HwLease
begin

text \<open>
  Device leases as a lock. The operations of the lease service, interleaved in any order, are a
  step relation on the database and the acquisitions between their two transactions; it refines
  a readers-writer lock per device, so conflicting leases never hold one device together.
\<close>

section \<open>How one lease row may change\<close>

definition terminal :: "lease \<Rightarrow> bool" where
  "terminal l \<longleftrightarrow> ls_state l \<in> set terminal_lease_states"

text \<open>
  Every operation but the grant only lets go: identity, device, mode and direction stay, a row
  that does not hold does not start to, and a finished row is left alone.
\<close>

definition shrinks :: "lease \<Rightarrow> lease \<Rightarrow> bool" where
  "shrinks l l' \<longleftrightarrow> ls_id l' = ls_id l \<and> ls_node l' = ls_node l \<and> ls_device l' = ls_device l \<and> ls_mode l' = ls_mode l
     \<and> ls_direction l' = ls_direction l \<and> (holding l' \<longrightarrow> holding l) \<and> (terminal l \<longrightarrow> l' = l)"

abbreviation table_shrinks :: "lease list \<Rightarrow> lease list \<Rightarrow> bool" where
  "table_shrinks \<equiv> list_all2 shrinks"

named_theorems row_simps \<open>the fields of an updated lease row\<close>

lemmas state_lists [simp] = terminal_lease_states_def holding_states_def

lemma holding_simp [row_simps]: "holding l \<longleftrightarrow> ls_state l = LsActive \<or> ls_state l = LsOrphaned"
  by (simp add: holding_def)

lemma terminal_simp [row_simps]: "terminal l \<longleftrightarrow> ls_state l \<in> {LsReleased, LsExpired, LsRevoked, LsFailed}"
  by (simp add: terminal_def)

lemma shrinks_refl [simp, intro]: "shrinks l l"
  by (simp add: shrinks_def)

lemma shrinks_trans: "shrinks a b \<Longrightarrow> shrinks b c \<Longrightarrow> shrinks a c"
  by (auto simp: shrinks_def)

lemma table_refl [simp, intro]: "table_shrinks ls ls"
  by (simp add: list.rel_refl)

lemma table_trans [trans]: "table_shrinks a b \<Longrightarrow> table_shrinks b c \<Longrightarrow> table_shrinks a c"
  by (rule list_all2_trans [OF shrinks_trans])

lemma table_upd:
  "(\<And>l. lease_get ls lid = Some l \<Longrightarrow> shrinks l (f l)) \<Longrightarrow> table_shrinks ls (lease_upd lid f ls)"
  by (induction ls) auto

lemma table_ids: "table_shrinks ls ls' \<Longrightarrow> map ls_id ls' = map ls_id ls"
  by (induction rule: list_all2_induct) (auto simp: shrinks_def)

lemma move_to_row [row_simps]:
  "ls_id (move_to st r b now l) = ls_id l" "ls_node (move_to st r b now l) = ls_node l" "ls_device (move_to st r b now l) = ls_device l"
  "ls_mode (move_to st r b now l) = ls_mode l" "ls_direction (move_to st r b now l) = ls_direction l"
  "ls_state (move_to st r b now l) = st"
  by (simp_all add: move_to_def Let_def)

lemma orphan_fields [row_simps]:
  "ls_id (orphan r e b l) = ls_id l" "ls_node (orphan r e b l) = ls_node l" "ls_device (orphan r e b l) = ls_device l"
  "ls_mode (orphan r e b l) = ls_mode l" "ls_direction (orphan r e b l) = ls_direction l"
  "ls_state (orphan r e b l) = LsOrphaned"
  by (simp_all add: orphan_def Let_def split: option.split)

lemma orphan_shrinks: "holding l \<Longrightarrow> shrinks l (orphan r e b l)"
  by (auto simp: shrinks_def row_simps)

lemma move_shrinks: "st \<in> set terminal_lease_states \<Longrightarrow> \<not> terminal l \<Longrightarrow> shrinks l (move_to st r b now l)"
  by (auto simp: shrinks_def row_simps)

section \<open>Every operation but the grant lets go\<close>

lemma plumbing [simp]:
  "db_leases (log_lease a b c d e db) = db_leases db" "db_leases (emit_hw a b db) = db_leases db"
  "db_leases (on_leases f db) = f (db_leases db)"
  "db_missions (log_lease a b c d e db) = db_missions db" "db_missions (emit_hw a b db) = db_missions db"
  "db_missions (on_leases f db) = db_missions db"
  by (simp_all add: log_lease_def emit_hw_def on_leases_def)

lemma emits_leases [simp]: "db_leases (fold (\<lambda>l. emit_hw t (g l)) ls db) = db_leases db"
  by (induction ls arbitrary: db) simp_all

lemma renew_shrinks: "table_shrinks (db_leases db) (db_leases (fst (renew cfg now lid db)))"
  by (auto simp: renew_def repo_renew_def Let_def split: option.splits if_splits
           intro!: table_upd) (auto simp: shrinks_def row_simps)

lemma terminate_shrinks:
  "st \<in> set terminal_lease_states \<Longrightarrow> table_shrinks (db_leases db) (db_leases (fst (terminate st ty ev now lid r db)))"
  by (auto simp: terminate_def repo_transition_def Let_def terminal_def split: option.splits
           intro!: table_upd move_shrinks)

lemma release_shrinks: "table_shrinks (db_leases db) (db_leases (fst (release now lid r db)))"
  unfolding release_def by (rule terminate_shrinks) simp

lemma revoke_shrinks: "table_shrinks (db_leases db) (db_leases (fst (revoke now lid r db)))"
  unfolding revoke_def by (rule terminate_shrinks) simp

lemma release_each_shrinks: "table_shrinks (db_leases db) (db_leases (fst (release_each now r ids db)))"
proof (induction ids arbitrary: db)
  case (Cons i ids)
  show ?case
    using table_trans [OF release_shrinks [of db now i r] Cons.IH [of "fst (release now i r db)"]]
    by (simp add: case_prod_unfold Let_def)
qed simp

lemma orphan_row_leases: "db_leases (orphan_row r e b n l db) = lease_upd (ls_id l) (orphan r e b) (db_leases db)"
  by (simp add: orphan_row_def)

text \<open>Rows that hold in the table, whatever their other fields are by now.\<close>

definition held_in :: "lease list \<Rightarrow> lease list \<Rightarrow> bool" where
  "held_in ls held \<longleftrightarrow> (\<forall>l \<in> set held. \<exists>l0. lease_get ls (ls_id l) = Some l0 \<and> holding l0)"

lemma orphan_keeps_id: "keeps_id (orphan r e b)"
  by (simp add: keeps_id_def row_simps)

lemma held_in_upd: "held_in ls held \<Longrightarrow> held_in (lease_upd lid (orphan r e b) ls) held"
  by (auto simp: held_in_def leases.get_upd [OF orphan_keeps_id] row_simps)

lemma orphan_rows_shrink:
  "held_in (db_leases db) held \<Longrightarrow> table_shrinks (db_leases db) (db_leases (fold (orphan_row r e b n) held db))"
proof (induction held arbitrary: db)
  case (Cons l held)
  let ?db = "orphan_row r e b n l db"
  have "table_shrinks (db_leases db) (db_leases ?db)"
    unfolding orphan_row_leases using Cons.prems by (intro table_upd orphan_shrinks) (auto simp: held_in_def)
  moreover have "held_in (db_leases ?db) held"
    unfolding orphan_row_leases using Cons.prems by (intro held_in_upd) (simp add: held_in_def)
  ultimately show ?case using Cons.IH [of ?db] by (simp add: table_trans)
qed simp

lemma held_in_sub:
  assumes "distinct (map ls_id ls)" "set held \<subseteq> {l \<in> set ls. holding l}"
  shows "held_in ls held"
  unfolding held_in_def using assms tbl_get_in by fastforce

lemma set_expired_active: "set (expired_active now ls) \<subseteq> {l \<in> set ls. holding l}"
  by (auto simp: expired_active_def row_simps dest!: in_set_takeD)

lemma set_holding_all: "set (holding_all node ls) \<subseteq> {l \<in> set ls. holding l}"
  by (auto simp: holding_all_def dest!: in_set_takeD)

lemma missing_shrinks:
  assumes "on_device_missing cfg now dev r db = Inr db'" "distinct (map ls_id (db_leases db))"
  shows "table_shrinks (db_leases db) (db_leases db')"
proof -
  have "held_in (db_leases db) (holding_for_device (db_leases db) dev)"
    by (rule held_in_sub [OF assms(2)]) (auto simp: holding_for_device_def)
  then show ?thesis using assms(1)
    by (auto simp: on_device_missing_def Let_def split: if_splits option.splits intro!: orphan_rows_shrink)
qed

lemma recover_shrinks:
  assumes "recover_leases cfg now db = Inr db'" "distinct (map ls_id (db_leases db))"
  shows "table_shrinks (db_leases db) (db_leases db')"
  using assms by (auto simp: recover_leases_def split: option.splits
      intro!: orphan_rows_shrink held_in_sub dest!: set_holding_all [THEN subsetD])

lemma orphan_expired_shrinks:
  "distinct (map ls_id (db_leases db)) \<Longrightarrow> table_shrinks (db_leases db) (db_leases (orphan_expired now db))"
  unfolding orphan_expired_def by (intro orphan_rows_shrink held_in_sub set_expired_active)

lemma expire_row_leases: "db_leases (expire_row now l db) =
  fst (repo_transition (ls_id l) LsExpired (Some ''orphaned lease expired'') None True now (db_leases db))"
  by (simp add: expire_row_def)

lemma transition_other:
  "j \<noteq> lid \<Longrightarrow> lease_get (fst (repo_transition lid st r fs b now ls)) j = lease_get ls j"
  by (auto simp: repo_transition_def tbl_get_upd row_simps split: option.split)

lemma expire_rows_shrink:
  "distinct (map ls_id rows) \<Longrightarrow> held_in (db_leases db) rows \<Longrightarrow>
   table_shrinks (db_leases db) (db_leases (fold (expire_row now) rows db))"
proof (induction rows arbitrary: db)
  case (Cons l rows)
  let ?db = "expire_row now l db"
  have "table_shrinks (db_leases db) (db_leases ?db)"
    using Cons.prems(2) unfolding expire_row_leases held_in_def
    by (auto simp: repo_transition_def row_simps intro!: table_upd move_shrinks)
  moreover have "held_in (db_leases ?db) rows"
    using Cons.prems unfolding held_in_def expire_row_leases
    by (auto simp: transition_other) (metis image_eqI transition_other)
  ultimately show ?case using Cons.IH [of ?db] Cons.prems(1) by (simp add: table_trans)
qed simp

lemma set_list_leases: "set (list_leases n m a k ls) \<subseteq> set ls"
  by (auto simp: list_leases_def dest!: in_set_takeD)

lemma distinct_list_leases: "distinct (map ls_id ls) \<Longrightarrow> distinct (map ls_id (list_leases n m a k ls))"
  unfolding list_leases_def take_map [symmetric] rev_map [symmetric]
  by (intro distinct_take) (simp add: distinct_map_filter)

lemma expire_overdue_shrinks:
  assumes "distinct (map ls_id (db_leases db))"
  shows "table_shrinks (db_leases db) (db_leases (expire_overdue cfg now db))"
  unfolding expire_overdue_def overdue_listed_def
proof (rule expire_rows_shrink)
  show "distinct (map ls_id (filter (overdue now) (list_leases (Some (hw_node cfg)) None False 1000 (db_leases db))))"
    by (intro distinct_map_filter distinct_list_leases assms)
  show "held_in (db_leases db) (filter (overdue now) (list_leases (Some (hw_node cfg)) None False 1000 (db_leases db)))"
    using set_list_leases [of "Some (hw_node cfg)" None False 1000 "db_leases db"]
    by (intro held_in_sub [OF assms]) (auto simp: overdue_def row_simps)
qed

lemma reconcile_leases: "db_leases (reconcile cfg now db) =
  (let db2 = expire_overdue cfg now (orphan_expired now db)
   in db_leases (fst (release_each now ''mission reached terminal state''
        (map ls_id (filter (mission_over db2) (holding_all (Some (hw_node cfg)) (db_leases db2)))) db2)))"
  by (simp add: reconcile_def Let_def case_prod_unfold)

lemma reconcile_shrinks:
  assumes "distinct (map ls_id (db_leases db))"
  shows "table_shrinks (db_leases db) (db_leases (reconcile cfg now db))"
proof -
  let ?db1 = "orphan_expired now db" let ?db2 = "expire_overdue cfg now ?db1"
  have 1: "table_shrinks (db_leases db) (db_leases ?db1)" by (rule orphan_expired_shrinks [OF assms])
  have "distinct (map ls_id (db_leases ?db1))" using assms table_ids [OF 1] by simp
  from table_trans [OF 1 expire_overdue_shrinks [OF this]] show ?thesis
    unfolding reconcile_leases Let_def by (rule table_trans) (rule release_each_shrinks)
qed

section \<open>The service as a step relation\<close>

text \<open>An acquisition between its two transactions, and the world the operations act on.\<close>

record in_flight =
  fl_lease :: string
  fl_device :: string
  fl_mode :: lease_mode
  fl_expiry :: int

type_synonym hw_world = "hw_db \<times> in_flight list"

text \<open>
  \<open>others\<close> stands for everything that changes other tables: inventory refreshes, operator
  actions, mission updates. A restart loses the acquisitions in flight.
\<close>

inductive hw_step ::
  "(pyfloat \<Rightarrow> string) \<Rightarrow> (pyfloat \<Rightarrow> pyfloat \<Rightarrow> bool) \<Rightarrow> hw_config \<Rightarrow> hw_world \<Rightarrow> hw_world \<Rightarrow> bool"
  for fr near cfg where
  requested: "acquire_request fr near cfg now lid q db = Inr (db', expiry) \<Longrightarrow>
     lid \<notin> ls_id ` set (db_leases db) \<Longrightarrow>
     hw_step fr near cfg (db, fls)
       (db', \<lparr>fl_lease = lid, fl_device = rq_device q, fl_mode = rq_mode q, fl_expiry = expiry\<rparr> # fls)"
| granted: "a \<in> set fls \<Longrightarrow>
     hw_step fr near cfg (db, fls)
       (fst (acquire_grant cfg (fl_lease a) (fl_device a) (fl_mode a) token now (fl_expiry a) db), remove1 a fls)"
| renewed: "hw_step fr near cfg (db, fls) (fst (renew cfg now lid db), fls)"
| released: "hw_step fr near cfg (db, fls) (fst (release now lid reason db), fls)"
| revoked: "hw_step fr near cfg (db, fls) (fst (revoke now lid reason db), fls)"
| mission_released: "hw_step fr near cfg (db, fls) (fst (release_for_mission cfg now m reason db), fls)"
| missing: "on_device_missing cfg now dev reason db = Inr db' \<Longrightarrow> hw_step fr near cfg (db, fls) (db', fls)"
| restarted: "recover_leases cfg now db = Inr db' \<Longrightarrow> hw_step fr near cfg (db, fls) (db', [])"
| reconciled: "hw_step fr near cfg (db, fls) (reconcile cfg now db, fls)"
| others: "db_leases db' = db_leases db \<Longrightarrow> hw_step fr near cfg (db, fls) (db', fls)"

inductive_cases hw_stepE: "hw_step fr near cfg w w'"

section \<open>The abstract lock\<close>

text \<open>Per device, the holders and the mode each holds it in.\<close>

type_synonym lock = "string \<Rightarrow> (string \<times> lease_mode) set"

inductive lock_step :: "lock \<Rightarrow> lock \<Rightarrow> bool" where
  take: "\<forall>h \<in> L d. mode = SharedReceive \<and> snd h = SharedReceive \<Longrightarrow>
     lock_step L (L(d := insert (lid, mode) (L d)))"
| drop: "\<forall>d. L' d \<subseteq> L d \<Longrightarrow> lock_step L L'"

definition lock_safe :: "lock \<Rightarrow> bool" where
  "lock_safe L \<longleftrightarrow> (\<forall>d. \<forall>h \<in> L d. \<forall>k \<in> L d. h \<noteq> k \<longrightarrow> snd h = SharedReceive \<and> snd k = SharedReceive)"

lemma lock_step_safe: "lock_step L L' \<Longrightarrow> lock_safe L \<Longrightarrow> lock_safe L'"
proof (induction rule: lock_step.induct)
  case (take L d mode lid)
  then show ?case by (auto simp: lock_safe_def)
next
  case (drop L' L)
  then show ?case unfolding lock_safe_def by blast
qed

lemma lock_steps_safe: "lock_step\<^sup>*\<^sup>* L L' \<Longrightarrow> lock_safe L \<Longrightarrow> lock_safe L'"
  by (induction rule: rtranclp_induct) (auto intro: lock_step_safe)

definition holders :: "lease list \<Rightarrow> lock" where
  "holders ls d = {(ls_id l, ls_mode l) | l. l \<in> set ls \<and> ls_device l = d \<and> holding l}"

lemma holders_iff: "h \<in> holders ls d \<longleftrightarrow>
  (\<exists>l \<in> set ls. ls_device l = d \<and> holding l \<and> h = (ls_id l, ls_mode l))"
  by (auto simp: holders_def)

lemma holders_shrink: "table_shrinks ls ls' \<Longrightarrow> holders ls' d \<subseteq> holders ls d"
proof
  fix h assume s: "table_shrinks ls ls'" and "h \<in> holders ls' d"
  then obtain l' where l': "l' \<in> set ls'" "ls_device l' = d" "holding l'" "h = (ls_id l', ls_mode l')"
    by (auto simp: holders_iff)
  from s l'(1) obtain l where "l \<in> set ls" "shrinks l l'"
    unfolding list_all2_conv_all_nth in_set_conv_nth [of l'] by (metis nth_mem)
  with l' show "h \<in> holders ls d" by (auto simp: holders_iff shrinks_def)
qed

lemma shrink_is_drop: "table_shrinks ls ls' \<Longrightarrow> lock_step (holders ls) (holders ls')"
  by (rule lock_step.drop) (simp add: holders_shrink)

section \<open>The step relation keeps the table well formed\<close>

definition lease_ok :: "lease \<Rightarrow> bool" where
  "lease_ok l \<longleftrightarrow> ls_mode l = Exclusive \<or> ls_mode l = SharedReceive \<and> ls_direction l = DirRx"

definition flight_ok :: "lease list \<Rightarrow> in_flight \<Rightarrow> bool" where
  "flight_ok ls a \<longleftrightarrow> (\<exists>l. lease_get ls (fl_lease a) = Some l \<and> ls_device l = fl_device a \<and> ls_mode l = fl_mode a)"

definition table_ok :: "hw_world \<Rightarrow> bool" where
  "table_ok w \<longleftrightarrow> distinct (map ls_id (db_leases (fst w))) \<and> list_all lease_ok (db_leases (fst w))
     \<and> list_all (flight_ok (db_leases (fst w))) (snd w)"

lemma shrink_get:
  "table_shrinks ls ls' \<Longrightarrow> lease_get ls i = Some l \<Longrightarrow> \<exists>l'. lease_get ls' i = Some l' \<and> shrinks l l'"
  by (induction rule: list_all2_induct) (auto simp: shrinks_def split: if_splits)

lemma shrink_ok: "table_shrinks ls ls' \<Longrightarrow> list_all lease_ok ls \<Longrightarrow> list_all lease_ok ls'"
  by (induction rule: list_all2_induct) (auto simp: shrinks_def lease_ok_def)

lemma shrink_flight: "table_shrinks ls ls' \<Longrightarrow> flight_ok ls a \<Longrightarrow> flight_ok ls' a"
  unfolding flight_ok_def using shrink_get by (fastforce simp: shrinks_def)

lemma shrink_table_ok:
  "table_shrinks (db_leases db) (db_leases db') \<Longrightarrow> table_ok (db, fls) \<Longrightarrow> set fls' \<subseteq> set fls \<Longrightarrow> table_ok (db', fls')"
  using table_ids shrink_ok shrink_flight unfolding table_ok_def list_all_iff fst_conv snd_conv
  by (metis subsetD)

lemma acquire_request_InrE:
  assumes "acquire_request fr near cfg now lid q db = Inr r"
  obtains dur d rows where "lease_span cfg q = Some dur"
      "tbl_get dv_id (db_devices db) (rq_device q) = Some d" "dv_node d = hw_node cfg"
      "check_compatibility fr near cfg (db_bindings db) (tbl_get cap_device (db_caps db) (dv_id d)) d q = Inr rows"
      "r = (emit_hw ''hardware.lease.requested'' lid
           (log_lease lid (rq_device q) ''requested'' LsPending None
             (on_leases (\<lambda>ls. ls @ [pending_lease cfg lid q]) (db\<lparr>db_bindings := rows\<rparr>))), now + dur)"
proof -
  from assms obtain dur where 1: "lease_span cfg q = Some dur" unfolding acquire_request_def by (cases "lease_span cfg q") simp_all
  from assms 1 obtain d where 2: "tbl_get dv_id (db_devices db) (rq_device q) = Some d"
    unfolding acquire_request_def by (cases "tbl_get dv_id (db_devices db) (rq_device q)") simp_all
  from assms 1 2 have 3: "dv_node d = hw_node cfg"
    unfolding acquire_request_def by (cases "dv_node d = hw_node cfg") simp_all
  from assms 1 2 3 obtain rows where 4: "check_compatibility fr near cfg (db_bindings db) (tbl_get cap_device (db_caps db) (dv_id d)) d q = Inr rows"
    unfolding acquire_request_def
    by (cases "check_compatibility fr near cfg (db_bindings db) (tbl_get cap_device (db_caps db) (dv_id d)) d q")
       simp_all
  from assms 1 2 3 4 that show thesis unfolding acquire_request_def by simp
qed

lemma request_leases:
  assumes "acquire_request fr near cfg now lid q db = Inr (db', expiry)"
  shows "db_leases db' = db_leases db @ [pending_lease cfg lid q]" "lease_ok (pending_lease cfg lid q)"
proof -
  show "db_leases db' = db_leases db @ [pending_lease cfg lid q]"
    using assms by (rule acquire_request_InrE) simp
  obtain caps d rows where "check_compatibility fr near cfg (db_bindings db) caps d q = Inr rows"
    using assms by (rule acquire_request_InrE)
  from check_mode_ok [OF check_compatibility_ok(3) [OF this]]
  show "lease_ok (pending_lease cfg lid q)" by (auto simp: lease_ok_def pending_lease_def)
qed

lemma pending_fields [row_simps]:
  "ls_id (pending_lease cfg lid q) = lid" "ls_device (pending_lease cfg lid q) = rq_device q"
  "ls_mode (pending_lease cfg lid q) = rq_mode q" "ls_state (pending_lease cfg lid q) = LsPending"
  by (simp_all add: pending_lease_def)

lemma activate_fields [row_simps]:
  "ls_id (activate m ow n t now e l) = ls_id l" "ls_device (activate m ow n t now e l) = ls_device l"
  "ls_mode (activate m ow n t now e l) = m" "ls_direction (activate m ow n t now e l) = ls_direction l"
  "ls_state (activate m ow n t now e l) = LsActive"
  by (simp_all add: activate_def)

text \<open>A grant either takes the lock for one pending row, or only marks that row failed.\<close>

lemma grant_leases:
  "(\<exists>l. lease_get (db_leases db) lid = Some l \<and> ls_state l = LsPending \<and> \<not> lease_conflict (db_leases db) lid dev mode
      \<and> db_leases (fst (acquire_grant cfg lid dev mode token now e db)) =
          lease_upd lid (activate mode (lease_owner cfg) (hw_node cfg) token now e) (db_leases db)
      \<and> snd (acquire_grant cfg lid dev mode token now e db) = Inr lid)
   \<or> table_shrinks (db_leases db) (db_leases (fst (acquire_grant cfg lid dev mode token now e db)))
      \<and> snd (acquire_grant cfg lid dev mode token now e db) = Inl LeaseConflictError"
  by (auto simp: acquire_grant_def repo_grant_def repo_transition_def row_simps
           split: option.split intro!: table_upd move_shrinks)

lemma upd_same: "lease_get ls lid = Some l \<Longrightarrow> f l = g l \<Longrightarrow> lease_upd lid f ls = lease_upd lid g ls"
  by (induction ls) (auto split: if_splits)

lemma set_lease_upd:
  "distinct (map ls_id ls) \<Longrightarrow> lease_get ls lid = Some l \<Longrightarrow>
   set (lease_upd lid f ls) = insert (f l) (set ls - {l})"
  by (induction ls) (auto dest: tbl_get_Some split: if_splits)

lemma holders_activate:
  assumes "distinct (map ls_id ls)" "lease_get ls lid = Some l" "ls_state l = LsPending"
  shows "holders (lease_upd lid (activate mode ow n t now e) ls) =
    (holders ls)(ls_device l := insert (lid, mode) (holders ls (ls_device l)))"
proof -
  have "ls_id l = lid" "\<not> holding l" using assms tbl_get_Some [OF assms(2)] by (auto simp: row_simps)
  then have "h \<in> holders (lease_upd lid (activate mode ow n t now e) ls) d \<longleftrightarrow>
      (d = ls_device l \<and> h = (lid, mode)) \<or> h \<in> holders ls d" for h d
    unfolding holders_iff set_lease_upd [OF assms(1,2)] by (auto simp: row_simps)
  then show ?thesis by (auto simp: fun_eq_iff)
qed

section \<open>The table refines the lock\<close>

lemma hw_step_cases_shrink:
  assumes "hw_step fr near cfg w w'" "table_ok w"
  shows "table_shrinks (db_leases (fst w)) (db_leases (fst w')) \<and> set (snd w') \<subseteq> set (snd w)
    \<or> (\<exists>now lid q e. acquire_request fr near cfg now lid q (fst w) = Inr (fst w', e) \<and> lid \<notin> ls_id ` set (db_leases (fst w))
         \<and> snd w' = \<lparr>fl_lease = lid, fl_device = rq_device q, fl_mode = rq_mode q, fl_expiry = e\<rparr> # snd w)
    \<or> (\<exists>a token now. a \<in> set (snd w) \<and> snd w' = remove1 a (snd w)
         \<and> fst w' = fst (acquire_grant cfg (fl_lease a) (fl_device a) (fl_mode a) token now (fl_expiry a) (fst w)))"
  using assms
proof (induction rule: hw_step.induct)
  case (requested now lid q db db' expiry fls)
  then show ?case by (intro disjI2 disjI1) auto
next
  case (granted a fls token now db)
  then show ?case by (intro disjI2) auto
next
  case (mission_released db fls now m reason)
  then show ?case by (simp add: release_for_mission_def release_each_shrinks)
qed (auto simp: table_ok_def intro: renew_shrinks release_shrinks revoke_shrinks missing_shrinks
       recover_shrinks reconcile_shrinks)

lemma granted_table:
  fixes cfg token now
  assumes "table_ok w" "a \<in> set (snd w)"
  defines "db' \<equiv> fst (acquire_grant cfg (fl_lease a) (fl_device a) (fl_mode a) token now (fl_expiry a) (fst w))"
  shows "table_ok (db', remove1 a (snd w)) \<and> lock_step (holders (db_leases (fst w))) (holders (db_leases db'))"
proof (cases "table_shrinks (db_leases (fst w)) (db_leases db')")
  case True
  moreover have "table_ok (db', remove1 a (snd w))"
    by (rule shrink_table_ok [OF True, of "snd w"]) (simp_all add: assms(1) set_remove1_subset)
  ultimately show ?thesis by (simp add: shrink_is_drop)
next
  case False
  let ?ls = "db_leases (fst w)"
  let ?f = "activate (fl_mode a) (lease_owner cfg) (hw_node cfg) token now (fl_expiry a)"
  from assms(1) have dist: "distinct (map ls_id ?ls)" and ok: "list_all lease_ok ?ls"
    and fl: "list_all (flight_ok ?ls) (snd w)" by (simp_all add: table_ok_def)
  from False grant_leases [of "fst w" "fl_lease a" "fl_device a" "fl_mode a" cfg token now "fl_expiry a"]
  obtain l where l: "lease_get ?ls (fl_lease a) = Some l" "ls_state l = LsPending"
      "\<not> lease_conflict ?ls (fl_lease a) (fl_device a) (fl_mode a)"
      "db_leases db' = lease_upd (fl_lease a) ?f ?ls"
    unfolding db'_def by auto
  from fl assms(2) l(1) have dm: "ls_device l = fl_device a" "ls_mode l = fl_mode a"
    by (auto simp: list_all_iff flight_ok_def)
  have keep: "keeps_id ?f" by (simp add: keeps_id_def row_simps)
  have ids: "map ls_id (db_leases db') = map ls_id ?ls"
    unfolding l(4) by (intro tbl_upd_keys) (simp add: row_simps)
  have "lease_ok (?f l)" using ok l(1) dm(2) tbl_get_Some [OF l(1)]
    by (auto simp: list_all_iff lease_ok_def row_simps)
  then have ok': "list_all lease_ok (db_leases db')"
    using ok unfolding l(4) list_all_iff set_lease_upd [OF dist l(1)] by auto
  have "flight_ok (db_leases db') b" if "flight_ok ?ls b" for b
    using that dm l(1) unfolding l(4) flight_ok_def leases.get_upd [OF keep]
    by (auto simp: row_simps)
  with fl have fl': "list_all (flight_ok (db_leases db')) (remove1 a (snd w))"
    by (auto simp: list_all_iff dest: notin_set_remove1 set_remove1_subset [THEN subsetD])
  have "\<forall>h \<in> holders ?ls (ls_device l). fl_mode a = SharedReceive \<and> snd h = SharedReceive"
  proof
    fix h assume "h \<in> holders ?ls (ls_device l)"
    then obtain m where m: "h = (ls_id m, ls_mode m)" "m \<in> set ?ls" "ls_device m = fl_device a" "holding m"
      by (auto simp: holders_def dm)
    have "ls_id m \<noteq> fl_lease a"
    proof
      assume "ls_id m = fl_lease a"
      then have "m = l" using tbl_get_in [OF dist m(2)] l(1) by simp
      then show False using m(4) l(2) by (simp add: row_simps)
    qed
    with m l(3) ok dm show "fl_mode a = SharedReceive \<and> snd h = SharedReceive"
      by (auto simp: lease_conflict_def list_all_iff lease_ok_def)
  qed
  then have "lock_step (holders ?ls)
      ((holders ?ls)(ls_device l := insert (fl_lease a, fl_mode a) (holders ?ls (ls_device l))))"
    by (rule lock_step.take)
  then have "lock_step (holders ?ls) (holders (db_leases db'))"
    unfolding l(4) holders_activate [OF dist l(1,2)] .
  with ids dist ok' fl' show ?thesis by (simp add: table_ok_def)
qed

lemma hw_step_refines:
  assumes "hw_step fr near cfg w w'" "table_ok w"
  shows "table_ok w' \<and> lock_step (holders (db_leases (fst w))) (holders (db_leases (fst w')))"
  using hw_step_cases_shrink [OF assms]
proof (elim disjE exE conjE)
  assume "table_shrinks (db_leases (fst w)) (db_leases (fst w'))" "set (snd w') \<subseteq> set (snd w)"
  then show ?thesis using shrink_table_ok [of "fst w" "fst w'" "snd w" "snd w'"] assms(2)
    by (simp add: shrink_is_drop)
next
  fix now lid q e
  assume r: "acquire_request fr near cfg now lid q (fst w) = Inr (fst w', e)" "lid \<notin> ls_id ` set (db_leases (fst w))"
    "snd w' = \<lparr>fl_lease = lid, fl_device = rq_device q, fl_mode = rq_mode q, fl_expiry = e\<rparr> # snd w"
  have new: "lease_get (db_leases (fst w)) lid = None" using r(2) by (simp add: tbl_get_None)
  have "flight_ok (db_leases (fst w')) b" if "flight_ok (db_leases (fst w)) b" for b
    using that by (auto simp: flight_ok_def request_leases [OF r(1)] tbl_get_append)
  moreover have "flight_ok (db_leases (fst w')) \<lparr>fl_lease = lid, fl_device = rq_device q, fl_mode = rq_mode q, fl_expiry = e\<rparr>"
    by (simp add: flight_ok_def request_leases [OF r(1)] tbl_get_append new row_simps)
  ultimately have "table_ok w'" using assms(2) r request_leases [OF r(1)]
    by (auto simp: table_ok_def list_all_iff row_simps)
  moreover have "holders (db_leases (fst w')) = holders (db_leases (fst w))"
    by (auto simp: holders_def request_leases [OF r(1)] fun_eq_iff row_simps)
  ultimately show ?thesis by (auto intro: lock_step.drop)
next
  fix a token now
  assume "a \<in> set (snd w)" "snd w' = remove1 a (snd w)"
    "fst w' = fst (acquire_grant cfg (fl_lease a) (fl_device a) (fl_mode a) token now (fl_expiry a) (fst w))"
  then show ?thesis using granted_table [OF assms(2), of a cfg token now] by (metis prod.collapse)
qed

lemma hw_steps_refine:
  "(hw_step fr near cfg)\<^sup>*\<^sup>* w w' \<Longrightarrow> table_ok w \<Longrightarrow>
   table_ok w' \<and> lock_step\<^sup>*\<^sup>* (holders (db_leases (fst w))) (holders (db_leases (fst w')))"
  by (induction rule: rtranclp_induct) (auto dest: hw_step_refines intro: rtranclp.rtrancl_into_rtrancl)

end
