(* ===== verification/HwGuarantees.thy ===== *)
theory HwGuarantees
  imports HwExclusion
begin

text \<open>
  What the lease service guarantees: mutual exclusion in every interleaving, what an acquisition
  returns and changes in each case, that a finished lease stays finished, and what one
  reconciliation pass does with leases past their expiry, including the rows it does not reach.
\<close>

section \<open>Exclusion\<close>

text \<open>
  C16: Whatever the order of acquisitions (with other operations between their two transactions),
  renewals, releases, revocations, disappearances, restarts, reconciliations and changes to the
  other tables, the lease table refines one readers-writer lock per device: each step either
  takes the lock for a mode compatible with every holder or only drops holders.
\<close>

theorem leases_refine_lock:
  assumes "(hw_step fr near cfg)\<^sup>*\<^sup>* w w'" "table_ok w"
  shows "lock_step\<^sup>*\<^sup>* (holders (db_leases (fst w))) (holders (db_leases (fst w')))"
  using hw_steps_refine [OF assms] by simp

definition empty_db :: hw_db where
  "empty_db = \<lparr>db_devices = [], db_caps = [], db_bindings = [], db_leases = [], db_lease_log = [],
     db_emitted = [], db_missions = []\<rparr>"

definition demo_radio :: hw_device where
  "demo_radio = \<lparr>dv_id = ''d1'', dv_node = ''n1'', dv_key = ''k1'', dv_vendor = None, dv_product = None,
     dv_serial = None, dv_enabled = True, dv_presence = PresencePresent, dv_health = HealthOk\<rparr>"

definition demo_caps :: cap_row where
  "demo_caps = \<lparr>cap_device = ''d1'', cap_rx = Some True, cap_tx = Some True, cap_shared_safe = True,
     cap_channels = Some 2, cap_freq_ranges = [(Fin 70000000, Fin 6000000000)], cap_rate_ranges = [],
     cap_rates = [], cap_args = [(''driver'', JStr ''uhd'')]\<rparr>"

definition demo_cfg :: hw_config where
  "demo_cfg = \<lparr>hw_node = ''n1'', lease_duration = Fin 120, max_lease_duration = Fin 3600, stale_grace = Fin 30,
     config_bindings = [], rf_backend_ids = [''gnuradio'']\<rparr>"

definition demo_request :: "lease_mode \<Rightarrow> lease_request" where
  "demo_request m = \<lparr>rq_device = ''d1'', rq_backend = ''gnuradio'', rq_direction = DirRx, rq_mode = m,
     rq_operation = None, rq_channels = [JInt 0], rq_freq = Some (Fin 915000000), rq_rate = None,
     rq_mission = None, rq_run = None, rq_step = None, rq_duration = Some (Fin 60)\<rparr>"

definition demo_db :: hw_db where
  "demo_db = empty_db\<lparr>db_devices := [demo_radio], db_caps := [demo_caps]\<rparr>"

abbreviation no_float :: "pyfloat \<Rightarrow> string" where "no_float \<equiv> \<lambda>_. []"
abbreviation exactly :: "pyfloat \<Rightarrow> pyfloat \<Rightarrow> bool" where "exactly \<equiv> \<lambda>a b. a = b"

definition demo_grab :: "string \<Rightarrow> hw_db \<Rightarrow> hw_db" where
  "demo_grab lid db = fst (acquire no_float exactly demo_cfg 1000 lid (''t'' @ lid) (demo_request SharedReceive) db)"

definition demo_shared :: hw_db where
  "demo_shared = demo_grab ''l2'' (demo_grab ''l1'' demo_db)"

text \<open>An undisturbed acquisition is two steps.\<close>

lemma acquire_is_steps:
  assumes "lid \<notin> ls_id ` set (db_leases db)"
  shows "(hw_step fr near cfg)\<^sup>*\<^sup>* (db, []) (fst (acquire fr near cfg now lid token q db), [])"
proof (cases "acquire_request fr near cfg now lid q db")
  case (Inl e)
  then show ?thesis by (simp add: acquire_def)
next
  case (Inr r)
  obtain db1 e where r: "r = (db1, e)" by (cases r)
  let ?a = "\<lparr>fl_lease = lid, fl_device = rq_device q, fl_mode = rq_mode q, fl_expiry = e\<rparr>"
  have "hw_step fr near cfg (db, []) (db1, [?a])"
    using hw_step.requested [OF Inr [unfolded r] assms] .
  moreover have "hw_step fr near cfg (db1, [?a]) (fst (acquire fr near cfg now lid token q db), [])"
    using hw_step.granted [where a = ?a and fls = "[?a]" and token = token and now = now and db = db1] Inr r by (simp add: acquire_def)
  ultimately show ?thesis by (rule converse_rtranclp_into_rtranclp [OF _ r_into_rtranclp])
qed

lemma fresh_id: "map ls_id (db_leases db) = ids \<Longrightarrow> i \<notin> set ids \<Longrightarrow> i \<notin> ls_id ` set (db_leases db)"
  by auto

lemma demo_db_ok: "table_ok (demo_db, [])"
  by (simp add: table_ok_def demo_db_def empty_db_def)

lemma demo_first_ids: "map ls_id (db_leases (demo_grab ''l1'' demo_db)) = [''l1'']"
  by code_simp

lemma demo_shared_ids: "map ls_id (db_leases demo_shared) = [''l1'', ''l2'']"
  by code_simp

lemma demo_shared_reached: "(hw_step no_float exactly demo_cfg)\<^sup>*\<^sup>* (demo_db, []) (demo_shared, [])"
proof -
  have "(hw_step no_float exactly demo_cfg)\<^sup>*\<^sup>* (demo_db, []) (demo_grab ''l1'' demo_db, [])"
    unfolding demo_grab_def by (rule acquire_is_steps) (simp add: demo_db_def empty_db_def)
  also have "(hw_step no_float exactly demo_cfg)\<^sup>*\<^sup>* (demo_grab ''l1'' demo_db, []) (demo_shared, [])"
    unfolding demo_shared_def demo_grab_def [of "''l2''"]
    by (rule acquire_is_steps) (rule fresh_id [OF demo_first_ids], simp)
  finally show ?thesis .
qed

theorem leases_refine_lock_witness:
  "lock_step\<^sup>*\<^sup>* (holders (db_leases demo_db)) (holders (db_leases demo_shared)) \<and> map ls_state (db_leases demo_shared) = [LsActive, LsActive]"
proof
  show "lock_step\<^sup>*\<^sup>* (holders (db_leases demo_db)) (holders (db_leases demo_shared))"
    using leases_refine_lock [OF demo_shared_reached demo_db_ok] by simp
  show "map ls_state (db_leases demo_shared) = [LsActive, LsActive]" by code_simp
qed

text \<open>
  C17: From a database without leases, no reachable state has two different leases that both hold
  one device, unless both are shared receive leases for reception only; a lease for transmission
  therefore always holds its device alone.
\<close>

theorem conflicting_leases_exclude:
  assumes "(hw_step fr near cfg)\<^sup>*\<^sup>* (db0, []) w" "db_leases db0 = []"
    and "l \<in> set (db_leases (fst w))" "m \<in> set (db_leases (fst w))" "ls_id l \<noteq> ls_id m"
    and "holding l" "holding m" "ls_device l = ls_device m"
  shows "ls_mode l = SharedReceive \<and> ls_direction l = DirRx \<and> ls_mode m = SharedReceive \<and> ls_direction m = DirRx"
proof -
  have "table_ok (db0, [])" using assms(2) by (simp add: table_ok_def)
  from hw_steps_refine [OF assms(1) this]
  have ok: "table_ok w" and st: "lock_step\<^sup>*\<^sup>* (holders (db_leases db0)) (holders (db_leases (fst w)))" by simp_all
  have "lock_safe (holders (db_leases db0))" by (simp add: lock_safe_def holders_def assms(2))
  from lock_steps_safe [OF st this] have "lock_safe (holders (db_leases (fst w)))" .
  moreover have "(ls_id l, ls_mode l) \<in> holders (db_leases (fst w)) (ls_device l)"
    "(ls_id m, ls_mode m) \<in> holders (db_leases (fst w)) (ls_device l)"
    unfolding holders_iff using assms(3,4,6-8) by auto
  ultimately have "ls_mode l = SharedReceive \<and> ls_mode m = SharedReceive"
    using assms(5) unfolding lock_safe_def by (metis prod.inject snd_conv)
  with ok assms(3,4) show ?thesis by (auto simp: table_ok_def list_all_iff lease_ok_def)
qed

theorem conflicting_leases_exclude_witness:
  "\<exists>l m. l \<in> set (db_leases demo_shared) \<and> m \<in> set (db_leases demo_shared) \<and> ls_id l \<noteq> ls_id m
     \<and> ls_mode l = SharedReceive \<and> ls_direction m = DirRx"
proof -
  have "map ls_id (db_leases demo_shared) = [''l1'', ''l2'']" "map ls_device (db_leases demo_shared) = [''d1'', ''d1'']"
    "map ls_state (db_leases demo_shared) = [LsActive, LsActive]" by code_simp+
  then obtain l m where lm: "db_leases demo_shared = [l, m]" "ls_id l \<noteq> ls_id m" "ls_device l = ls_device m"
      "holding l" "holding m"
    by (auto simp: map_eq_Cons_conv row_simps)
  from conflicting_leases_exclude [OF demo_shared_reached, of l m] lm show ?thesis
    by (auto simp: demo_db_def empty_db_def)
qed

section \<open>Acquiring\<close>

lemma upd_appended: "lid \<notin> ls_id ` set ls \<Longrightarrow> ls_id p = lid \<Longrightarrow> lease_upd lid f (ls @ [p]) = ls @ [f p]"
  by (induction ls) auto

lemma conflict_appended: "lease_conflict (ls @ [pending_lease cfg lid q]) lid dev mode = lease_conflict ls lid dev mode"
  by (auto simp: lease_conflict_def row_simps)

lemma lease_span_bound:
  assumes "lease_span cfg q = Some dur" "timedelta_us (max_lease_duration cfg) = Some m"
  shows "dur \<le> m"
proof -
  let ?x = "float_or (rq_duration q) (lease_duration cfg)"
  have "?x \<noteq> NaN" using assms by (auto simp: lease_span_def fmin_def)
  moreover have "max_lease_duration cfg \<noteq> NaN" using assms(2) by auto
  ultimately show ?thesis using assms fmin_le timedelta_us_mono by (metis lease_span_def)
qed

text \<open>
  What the recorded capabilities of a device and the rules of the modes allow. A capability that is
  not recorded forbids nothing, except that sharing must be declared safe.
\<close>

definition device_allows :: "(pyfloat \<Rightarrow> pyfloat \<Rightarrow> bool) \<Rightarrow> cap_row option \<Rightarrow> lease_request \<Rightarrow> bool" where
  "device_allows near caps q \<longleftrightarrow>
     (\<forall>c. caps = Some c \<longrightarrow>
        (rq_direction q \<in> {DirRx, DirRxTx} \<longrightarrow> cap_rx c \<noteq> Some False)
        \<and> (rq_direction q \<in> {DirTx, DirRxTx} \<longrightarrow> cap_tx c \<noteq> Some False)
        \<and> (\<forall>n. cap_channels c = Some n \<longrightarrow> (\<forall>ch \<in> set (rq_channels q). \<not> channel_too_big n ch))
        \<and> (\<forall>x. rq_freq q = Some x \<longrightarrow> cap_freq_ranges c = [] \<or> in_ranges (cap_freq_ranges c) x)
        \<and> (\<forall>x. rq_rate q = Some x \<longrightarrow> cap_rate_ranges c = [] \<and> cap_rates c = []
             \<or> in_ranges (cap_rate_ranges c) x \<or> (\<exists>v \<in> set (cap_rates c). near x v)))
     \<and> (rq_mode q = Exclusive
        \<or> rq_mode q = SharedReceive \<and> rq_direction q = DirRx \<and> (\<exists>c. caps = Some c \<and> cap_shared_safe c))"

lemma checks_allow:
  "check_capabilities near caps q = Inr () \<Longrightarrow> check_mode caps q = Inr () \<Longrightarrow> device_allows near caps q"
  by (cases caps)
    (auto simp: device_allows_def check_capabilities_def known_false_def missing_channel_def freq_ok_def
      rate_ok_def find_None_iff shared_safe_def dest!: check_mode_ok split: if_splits option.splits)

text \<open>
  C18: What \<open>acquire\<close> returns and changes. Success: the device is known, enabled, present
  and healthy, its recorded capabilities and the mode rules allow the request, the backend is one the
  node supports, nobody holds the device in conflict, and the
  table gained one active row under the caller's token that expires within the configured
  maximum. A conflict: some lease really conflicts, and the table gained one failed row. Any
  other error leaves the database as it was.
\<close>

theorem acquire_outcome:
  assumes "lid \<notin> ls_id ` set (db_leases db)" "timedelta_us (max_lease_duration cfg) = Some m"
    and "acquire fr near cfg now lid token q db = (db', r)"
  shows "case r of
      Inr i \<Rightarrow> i = lid \<and> \<not> lease_conflict (db_leases db) lid (rq_device q) (rq_mode q)
        \<and> (\<exists>d. tbl_get dv_id (db_devices db) (rq_device q) = Some d \<and> dv_node d = hw_node cfg \<and> dv_enabled d
             \<and> dv_presence d = PresencePresent \<and> dv_health d \<in> {HealthOk, HealthDegraded}
             \<and> device_allows near (tbl_get cap_device (db_caps db) (dv_id d)) q)
        \<and> rq_backend q \<in> set (rf_backend_ids cfg)
        \<and> (\<exists>e \<le> now + m. db_leases db' = db_leases db @
             [activate (rq_mode q) (lease_owner cfg) (hw_node cfg) token now e (pending_lease cfg lid q)])
    | Inl e \<Rightarrow> if e = LeaseConflictError
        then lease_conflict (db_leases db) lid (rq_device q) (rq_mode q)
           \<and> db_leases db' = db_leases db @ [move_to LsFailed (Some ''conflicting active lease'') False now (pending_lease cfg lid q)]
        else db' = db"
proof (cases "acquire_request fr near cfg now lid q db")
  case (Inl e)
  have "e \<noteq> LeaseConflictError"
    using Inl by (auto simp: acquire_request_def check_compatibility_def check_device_def check_capabilities_def
        check_mode_def derive_binding_def derive_from_config_def derive_from_caps_def rbind_def Let_def
        split: option.splits if_splits sum.splits)
  with Inl assms(3) show ?thesis by (auto simp: acquire_def)
next
  case (Inr r1)
  obtain db1 e where r1: "r1 = (db1, e)" by (cases r1)
  note rq = Inr [unfolded r1]
  obtain dur d rows where d: "lease_span cfg q = Some dur" "e = now + dur"
      "tbl_get dv_id (db_devices db) (rq_device q) = Some d" "dv_node d = hw_node cfg"
      "check_compatibility fr near cfg (db_bindings db) (tbl_get cap_device (db_caps db) (dv_id d)) d q = Inr rows"
    using rq by (rule acquire_request_InrE) simp
  have get: "lease_get (db_leases db1) lid = Some (pending_lease cfg lid q)"
    using assms(1) tbl_get_None [of ls_id "db_leases db" lid]
    by (simp add: request_leases [OF rq] tbl_get_append row_simps)
  have "e \<le> now + m" using lease_span_bound [OF d(1) assms(2)] d(2) by simp
  then show ?thesis
    using assms(1,3) d(3,4) check_compatibility_ok(1,4) [OF d(5)] get
      checks_allow [OF check_compatibility_ok(2,3) [OF d(5)]]
    by (auto simp: acquire_def rq acquire_grant_def repo_grant_def repo_transition_def request_leases [OF rq]
          check_device_ok conflict_appended upd_appended row_simps split: if_splits)
qed

text \<open>One granted shared lease, and an exclusive request refused beside it.\<close>

theorem acquire_outcome_witness:
  "lease_conflict (db_leases demo_shared) ''l3'' ''d1'' Exclusive
   \<and> (\<exists>e \<le> 3600001000. map ls_expires (db_leases (demo_grab ''l1'' demo_db)) = [Some e])
   \<and> (\<exists>d. tbl_get dv_id (db_devices demo_db) ''d1'' = Some d
        \<and> device_allows exactly (tbl_get cap_device (db_caps demo_db) (dv_id d)) (demo_request SharedReceive))"
proof -
  let ?r = "acquire no_float exactly demo_cfg 1000 ''l3'' ''t3'' (demo_request Exclusive) demo_shared"
  have m: "timedelta_us (max_lease_duration demo_cfg) = Some 3600000000" by code_simp
  have fresh: "''l3'' \<notin> ls_id ` set (db_leases demo_shared)"
    by (rule fresh_id [OF demo_shared_ids]) simp
  have "snd ?r = Inl LeaseConflictError" by code_simp
  with acquire_outcome [OF fresh m, of no_float exactly 1000 "''t3''" "demo_request Exclusive" "fst ?r" "snd ?r"]
  have refused: "lease_conflict (db_leases demo_shared) ''l3'' ''d1'' Exclusive" by (simp add: demo_request_def)
  let ?g = "acquire no_float exactly demo_cfg 1000 ''l1'' (''t'' @ ''l1'') (demo_request SharedReceive) demo_db"
  have no: "''l1'' \<notin> ls_id ` set (db_leases demo_db)" "db_leases demo_db = []" by (simp_all add: demo_db_def empty_db_def)
  have "snd ?g = Inr ''l1''" by code_simp
  with acquire_outcome [OF no(1) m, of no_float exactly 1000 "''t'' @ ''l1''" "demo_request SharedReceive" "fst ?g" "snd ?g"]
  obtain d e where "tbl_get dv_id (db_devices demo_db) (rq_device (demo_request SharedReceive)) = Some d"
      "device_allows exactly (tbl_get cap_device (db_caps demo_db) (dv_id d)) (demo_request SharedReceive)"
      "e \<le> 3600001000" "db_leases (fst ?g) = [activate (rq_mode (demo_request SharedReceive)) (lease_owner demo_cfg)
         (hw_node demo_cfg) (''t'' @ ''l1'') 1000 e (pending_lease demo_cfg ''l1'' (demo_request SharedReceive))]"
    using no(2) by auto
  with refused show ?thesis by (auto simp: demo_grab_def activate_def demo_request_def [of SharedReceive])
qed

section \<open>A finished lease stays finished\<close>

lemma terminal_step:
  assumes "hw_step fr near cfg w w'" "table_ok w"
    and "lease_get (db_leases (fst w)) i = Some l" "terminal l"
  shows "lease_get (db_leases (fst w')) i = Some l"
  using hw_step_cases_shrink [OF assms(1,2)]
proof (elim disjE exE conjE)
  assume "table_shrinks (db_leases (fst w)) (db_leases (fst w'))"
  from shrink_get [OF this assms(3)] assms(4) show ?thesis by (auto simp: shrinks_def)
next
  fix now lid q e
  assume "acquire_request fr near cfg now lid q (fst w) = Inr (fst w', e)"
  from request_leases(1) [OF this] assms(3) show ?thesis by (simp add: tbl_get_append)
next
  fix a token now
  assume w': "fst w' = fst (acquire_grant cfg (fl_lease a) (fl_device a) (fl_mode a) token now (fl_expiry a) (fst w))"
  from grant_leases [of "fst w" "fl_lease a" "fl_device a" "fl_mode a" cfg token now "fl_expiry a", folded w']
  show ?thesis
  proof (elim disjE exE conjE)
    fix p assume "lease_get (db_leases (fst w)) (fl_lease a) = Some p" "ls_state p = LsPending"
      "db_leases (fst w') = lease_upd (fl_lease a) (activate (fl_mode a) (lease_owner cfg) (hw_node cfg) token now (fl_expiry a)) (db_leases (fst w))"
    with assms(3,4) show ?thesis by (auto simp: tbl_get_upd row_simps)
  next
    assume "table_shrinks (db_leases (fst w)) (db_leases (fst w'))"
    from shrink_get [OF this assms(3)] assms(4) show ?thesis by (auto simp: shrinks_def)
  qed
qed

text \<open>
  C19: A lease that is released, expired, revoked or failed is never changed again by any sequence
  of operations: it is not reopened, not granted to anybody, and its history is kept.
\<close>

theorem finished_lease_frozen:
  assumes "(hw_step fr near cfg)\<^sup>*\<^sup>* w w'" "table_ok w"
    and "lease_get (db_leases (fst w)) i = Some l" "ls_state l \<in> {LsReleased, LsExpired, LsRevoked, LsFailed}"
  shows "lease_get (db_leases (fst w')) i = Some l"
proof -
  have t: "terminal l" using assms(4) by (simp add: terminal_simp)
  from assms(1,2,3) have "lease_get (db_leases (fst w')) i = Some l \<and> table_ok w'"
    by (induction rule: rtranclp_induct) (auto dest: hw_step_refines terminal_step [OF _ _ _ t])
  then show ?thesis ..
qed

theorem finished_lease_frozen_witness:
  "\<exists>l. ls_state l = LsReleased
     \<and> lease_get (db_leases (fst (acquire no_float exactly demo_cfg 3000 ''l2'' ''t2'' (demo_request Exclusive)
          (fst (release 2000 ''l1'' ''done'' (demo_grab ''l1'' demo_db)))))) ''l1'' = Some l"
proof -
  let ?db = "fst (release 2000 ''l1'' ''done'' (demo_grab ''l1'' demo_db))"
  have "(case lease_get (db_leases ?db) ''l1'' of None \<Rightarrow> False | Some l \<Rightarrow> ls_state l = LsReleased)" by code_simp
  then obtain l where l: "lease_get (db_leases ?db) ''l1'' = Some l" "ls_state l = LsReleased"
    by (auto split: option.splits)
  have ids: "map ls_id (db_leases ?db) = [''l1'']" by code_simp
  have ok: "list_all lease_ok (db_leases ?db)" by code_simp
  have "table_ok (?db, [])" using ids ok by (simp add: table_ok_def)
  from finished_lease_frozen [OF acquire_is_steps [OF fresh_id [OF ids]], simplified, OF _ this [simplified] l(1)] l(2)
  show ?thesis by auto
qed

section \<open>One reconciliation pass\<close>

lemma orphan_rows_get:
  "distinct (map ls_id rows) \<Longrightarrow> lease_get (db_leases (fold (orphan_row r e b n) rows db)) i =
   (if i \<in> ls_id ` set rows then map_option (orphan r e b) (lease_get (db_leases db) i) else lease_get (db_leases db) i)"
  by (induction rows arbitrary: db) (auto simp: orphan_row_leases leases.get_upd [OF orphan_keeps_id])

lemma move_keeps_id: "keeps_id (move_to st r b now)"
  by (simp add: keeps_id_def row_simps)

lemma expire_row_get: "lease_get (db_leases (expire_row now l db)) i =
  (if i = ls_id l then map_option (move_to LsExpired (Some ''orphaned lease expired'') True now) (lease_get (db_leases db) i)
   else lease_get (db_leases db) i)"
  by (auto simp: expire_row_leases repo_transition_def leases.get_upd [OF move_keeps_id] split: option.split)

lemma expire_rows_get:
  "distinct (map ls_id rows) \<Longrightarrow> lease_get (db_leases (fold (expire_row now) rows db)) i =
   (if i \<in> ls_id ` set rows then map_option (move_to LsExpired (Some ''orphaned lease expired'') True now) (lease_get (db_leases db) i)
    else lease_get (db_leases db) i)"
  by (induction rows arbitrary: db) (auto simp: expire_row_get)

lemma release_get_other: "i \<noteq> lid \<Longrightarrow> lease_get (db_leases (fst (release now lid r db))) i = lease_get (db_leases db) i"
  by (auto simp: release_def terminate_def repo_transition_def Let_def leases.get_upd [OF move_keeps_id] split: option.split)

lemma release_each_other:
  "i \<notin> set ids \<Longrightarrow> lease_get (db_leases (fst (release_each now r ids db))) i = lease_get (db_leases db) i"
  by (induction ids arbitrary: db) (auto simp: case_prod_unfold Let_def release_get_other)

lemma id_in_filter:
  "distinct (map ls_id ls) \<Longrightarrow> lease_get ls i = Some l \<Longrightarrow> i \<in> ls_id ` {m \<in> set ls. P m} \<longleftrightarrow> P l"
proof -
  assume d: "distinct (map ls_id ls)" and g: "lease_get ls i = Some l"
  have l: "l \<in> set ls" "ls_id l = i" using tbl_get_Some [OF g] by simp_all
  have "m = l" if "m \<in> set ls" "ls_id m = i" for m using tbl_get_in [OF d that(1)] g that(2) by simp
  with l show "i \<in> ls_id ` {m \<in> set ls. P m} \<longleftrightarrow> P l" by blast
qed

lemma distinct_expired_active: "distinct (map ls_id ls) \<Longrightarrow> distinct (map ls_id (expired_active now ls))"
  unfolding expired_active_def take_map [symmetric] by (intro distinct_take distinct_map_filter)

lemma set_list_node:
  "length (filter (\<lambda>l. ls_node l = n) ls) \<le> k \<Longrightarrow> set (list_leases (Some n) None False k ls) = {l \<in> set ls. ls_node l = n}"
  by (auto simp: list_leases_def eq_commute [of n])

lemma shrink_nodes: "table_shrinks ls ls' \<Longrightarrow> map (\<lambda>l. (ls_id l, ls_node l)) ls' = map (\<lambda>l. (ls_id l, ls_node l)) ls"
  by (induction rule: list_all2_induct) (auto simp: shrinks_def)

lemma shrink_node_rows:
  assumes "table_shrinks ls ls'"
  shows "map ls_id (filter (\<lambda>l. ls_node l = n) ls') = map ls_id (filter (\<lambda>l. ls_node l = n) ls)"
proof -
  have "map ls_id (filter (\<lambda>l. ls_node l = n) xs) = map fst (filter (\<lambda>p. snd p = n) (map (\<lambda>l. (ls_id l, ls_node l)) xs))" for xs
    by (induction xs) auto
  from this [of ls] this [of ls'] shrink_nodes [OF assms] show ?thesis by metis
qed

text \<open>
  When the pass sees every row (at most 100 active leases past their expiry, at most 1000 rows
  of this node), a held lease whose expiry has passed is EXPIRED at once, its token gone: an
  active lease is marked orphaned and expired in the same call, so the grace period that should
  lie between the two, in which the orphan still blocks its device, does not happen.
\<close>

theorem reconcile_expires_at_once:
  assumes "distinct (map ls_id (db_leases db))"
    and "length (filter (\<lambda>l. ls_state l = LsActive \<and> (case ls_expires l of None \<Rightarrow> False | Some e \<Rightarrow> e < now)) (db_leases db)) \<le> 100"
    and "length (filter (\<lambda>l. ls_node l = hw_node cfg) (db_leases db)) \<le> 1000"
    and "lease_get (db_leases db) i = Some l" "ls_node l = hw_node cfg" "holding l" "ls_expires l = Some e" "e < now"
  shows "\<exists>l'. lease_get (db_leases (reconcile cfg now db)) i = Some l' \<and> ls_state l' = LsExpired \<and> ls_token l' = None"
proof -
  let ?db1 = "orphan_expired now db" let ?db2 = "expire_overdue cfg now ?db1"
  have sh: "table_shrinks (db_leases db) (db_leases ?db1)" by (rule orphan_expired_shrinks [OF assms(1)])
  have d1: "distinct (map ls_id (db_leases ?db1))" using assms(1) table_ids [OF sh] by simp
  have act: "i \<in> ls_id ` set (expired_active now (db_leases db)) \<longleftrightarrow> ls_state l = LsActive"
    using id_in_filter [OF assms(1,4)] assms(2,7,8) by (simp add: expired_active_def)
  obtain l1 where l1: "lease_get (db_leases ?db1) i = Some l1" "overdue now l1" "ls_node l1 = hw_node cfg"
  proof
    show "lease_get (db_leases ?db1) i = Some (if ls_state l = LsActive then orphan ''lease expired without renewal'' None False l else l)"
      unfolding orphan_expired_def orphan_rows_get [OF distinct_expired_active [OF assms(1)]] act using assms(4) by simp
  qed (use assms(5-8) in \<open>auto simp: overdue_def row_simps orphan_def\<close>)
  have "length (filter (\<lambda>l. ls_node l = hw_node cfg) (db_leases ?db1)) \<le> 1000"
    using shrink_node_rows [OF sh, of "hw_node cfg"] assms(3) by (metis length_map)
  from set_list_node [OF this]
  have "set (overdue_listed cfg now ?db1) = {m \<in> set (db_leases ?db1). ls_node m = hw_node cfg \<and> overdue now m}"
    by (auto simp: overdue_listed_def)
  then have "i \<in> ls_id ` set (overdue_listed cfg now ?db1)"
    using id_in_filter [OF d1 l1(1), of "\<lambda>m. ls_node m = hw_node cfg \<and> overdue now m"] l1 by simp
  moreover have "distinct (map ls_id (overdue_listed cfg now ?db1))"
    unfolding overdue_listed_def by (intro distinct_map_filter distinct_list_leases d1)
  ultimately have l2: "lease_get (db_leases ?db2) i = Some (move_to LsExpired (Some ''orphaned lease expired'') True now l1)"
    by (simp add: expire_overdue_def expire_rows_get l1(1))
  from shrink_get [OF release_each_shrinks this]
  show ?thesis unfolding reconcile_leases Let_def
    by (fastforce simp: shrinks_def terminal_simp move_to_def Let_def)
qed

theorem reconcile_expires_at_once_witness:
  "\<exists>l'. lease_get (db_leases (reconcile demo_cfg 60001001 demo_shared)) ''l1'' = Some l' \<and> ls_state l' = LsExpired \<and> ls_token l' = None"
proof -
  have "(case lease_get (db_leases demo_shared) ''l1'' of None \<Rightarrow> False
         | Some l \<Rightarrow> ls_node l = hw_node demo_cfg \<and> holding l \<and> ls_expires l = Some 60001000)" by code_simp
  then obtain l where l: "lease_get (db_leases demo_shared) ''l1'' = Some l" "ls_node l = hw_node demo_cfg"
      "holding l" "ls_expires l = Some 60001000"
    by (auto split: option.splits)
  have n: "length (db_leases demo_shared) = 2" using arg_cong [OF demo_shared_ids, of length] by simp
  have few: "length (filter P (db_leases demo_shared)) \<le> 2" for P
    using length_filter_le [of P "db_leases demo_shared"] n by simp
  show ?thesis
    by (rule reconcile_expires_at_once [OF _ _ _ l(1-4)])
       (use few demo_shared_ids in \<open>auto intro: order_trans [OF few]\<close>)
qed

text \<open>
  Reconciliation lists only the 1000 newest rows of the node, finished ones included. An
  orphaned lease that has 1000 newer rows is therefore never expired, whatever the instant, and
  goes on refusing every exclusive request for its device.
\<close>

theorem crowded_out_orphan_stays:
  assumes "db_leases db = older @ l # newer" "distinct (map ls_id (db_leases db))"
    and "1000 \<le> length (filter (\<lambda>m. ls_node m = hw_node cfg) newer)"
    and "ls_state l = LsOrphaned" "ls_mission l = None" "lid \<noteq> ls_id l"
  shows "lease_get (db_leases (reconcile cfg now db)) (ls_id l) = Some l
    \<and> lease_conflict (db_leases (reconcile cfg now db)) lid (ls_device l) Exclusive"
proof -
  let ?db1 = "orphan_expired now db" let ?db2 = "expire_overdue cfg now ?db1"
  let ?n = "\<lambda>m. ls_node m = hw_node cfg"
  have get: "lease_get (db_leases db) (ls_id l) = Some l"
    using tbl_get_in [OF assms(2)] assms(1) by simp
  have sh: "table_shrinks (db_leases db) (db_leases ?db1)" by (rule orphan_expired_shrinks [OF assms(2)])
  have d1: "distinct (map ls_id (db_leases ?db1))" using assms(2) table_ids [OF sh] by simp
  have "ls_id l \<notin> ls_id ` set (expired_active now (db_leases db))"
  proof
    assume "ls_id l \<in> ls_id ` set (expired_active now (db_leases db))"
    then obtain m where "m \<in> set (db_leases db)" "ls_state m = LsActive" "ls_id m = ls_id l"
      by (auto simp: expired_active_def dest!: in_set_takeD)
    then have "m = l" using tbl_get_in [OF assms(2)] get by fastforce
    then show False using \<open>ls_state m = LsActive\<close> assms(4) by simp
  qed
  then have get1: "lease_get (db_leases ?db1) (ls_id l) = Some l"
    unfolding orphan_expired_def orphan_rows_get [OF distinct_expired_active [OF assms(2)]] by (simp add: get)
  have listed: "map ls_id (list_leases (Some (hw_node cfg)) None False 1000 (db_leases ?db1))
      = take 1000 (rev (map ls_id (filter ?n (db_leases db))))"
    using shrink_node_rows [OF sh, of "hw_node cfg"]
    by (simp add: list_leases_def take_map [symmetric] rev_map [symmetric] eq_commute [of "hw_node cfg"])
  have "take 1000 (rev (map ls_id (filter ?n (db_leases db)))) = take 1000 (rev (map ls_id (filter ?n newer)))"
    using assms(1,3) by (simp add: take_append)
  with listed have "ls_id l \<notin> set (map ls_id (list_leases (Some (hw_node cfg)) None False 1000 (db_leases ?db1)))"
    using assms(1,2) by (auto dest!: in_set_takeD)
  then have "ls_id l \<notin> ls_id ` set (overdue_listed cfg now ?db1)" by (auto simp: overdue_listed_def)
  moreover have "distinct (map ls_id (overdue_listed cfg now ?db1))"
    unfolding overdue_listed_def by (intro distinct_map_filter distinct_list_leases d1)
  ultimately have get2: "lease_get (db_leases ?db2) (ls_id l) = Some l"
    by (simp add: expire_overdue_def expire_rows_get get1)
  have d2: "distinct (map ls_id (db_leases ?db2))" using table_ids [OF expire_overdue_shrinks [OF d1]] d1 by simp
  have "ls_id l \<notin> set (map ls_id (filter (mission_over ?db2) (holding_all (Some (hw_node cfg)) (db_leases ?db2))))"
  proof
    assume "ls_id l \<in> set (map ls_id (filter (mission_over ?db2) (holding_all (Some (hw_node cfg)) (db_leases ?db2))))"
    then obtain m where "m \<in> set (db_leases ?db2)" "mission_over ?db2 m" "ls_id m = ls_id l"
      using set_holding_all by fastforce
    then have "mission_over ?db2 l" using tbl_get_in [OF d2] get2 by fastforce
    then show False using assms(5) by (simp add: mission_over_def truthy_def)
  qed
  then have g: "lease_get (db_leases (reconcile cfg now db)) (ls_id l) = Some l"
    using release_each_other [THEN trans, OF _ get2] unfolding reconcile_leases Let_def by blast
  then have "l \<in> set (db_leases (reconcile cfg now db))" using tbl_get_Some by fastforce
  then have "lease_conflict (db_leases (reconcile cfg now db)) lid (ls_device l) Exclusive"
    using assms(4,6) by (auto simp: lease_conflict_def row_simps)
  with g show ?thesis by simp
qed

definition old_orphan :: lease where
  "old_orphan = (pending_lease demo_cfg ''old'' (demo_request Exclusive))\<lparr>ls_state := LsOrphaned, ls_expires := Some 0\<rparr>"

definition newer_row :: "nat \<Rightarrow> lease" where
  "newer_row n = (pending_lease demo_cfg (replicate n CHR ''x'') (demo_request Exclusive))\<lparr>ls_state := LsReleased\<rparr>"

theorem crowded_out_orphan_stays_witness:
  "lease_conflict (db_leases (reconcile demo_cfg 999999999 (demo_db\<lparr>db_leases := old_orphan # map newer_row [0..<1000]\<rparr>)))
     ''next'' ''d1'' Exclusive"
proof -
  let ?db = "demo_db\<lparr>db_leases := old_orphan # map newer_row [0..<1000]\<rparr>"
  have node: "ls_node (newer_row n) = hw_node demo_cfg" for n by (simp add: newer_row_def pending_lease_def)
  have ids: "ls_id (newer_row n) = replicate n CHR ''x''" for n by (simp add: newer_row_def row_simps)
  have all: "filter (\<lambda>m. ls_node m = hw_node demo_cfg) (map newer_row [0..<1000]) = map newer_row [0..<1000]"
    using node by (intro filter_True) auto
  have old: "ls_id old_orphan = ''old''" "ls_device old_orphan = ''d1''" "ls_state old_orphan = LsOrphaned" "ls_mission old_orphan = None"
    by (simp_all add: old_orphan_def demo_request_def pending_lease_def)
  have "''old'' \<noteq> replicate n CHR ''x''" for n
    by (cases n) auto
  then have "distinct (map ls_id (db_leases ?db))"
    by (auto simp: distinct_map inj_on_def ids old comp_def dest: arg_cong [of _ _ length])
  from crowded_out_orphan_stays [of ?db "[]" old_orphan "map newer_row [0..<1000]" demo_cfg "''next''" 999999999, OF _ this]
  show ?thesis using old by (simp add: all)
qed

end
