(* ===== verification/FailureClass.thy ===== *)
theory FailureClass
  imports Prelude
begin

text \<open>
  Mission failure classification (\<open>missions/failure_classification.py\<close>) and the explicit tool
  requirements of a mission prompt (\<open>missions/requirements.py\<close>). An exception is represented
  by what the code looks at: whether it is a configuration error, whether it is a timeout, and its
  message.
\<close>

section \<open>Categories and dispositions\<close>

datatype failure_category =
    FcTimeout | FcNetwork | FcRateLimit | FcEndpointUnavailable | FcTls
  | FcMalformedOutput | FcSchemaInvalid | FcProviderInternal | FcQuotaExhausted | FcAuthentication
  | FcMissingSecret | FcInvalidSecret | FcPaymentRequired | FcExecutable | FcConfiguration
  | FcModelUnavailable | FcMalformedEndpoint | FcUnsupportedApi | FcUnknown

datatype disposition = Permanent | Transient | Quota

fun disposition_for :: "failure_category \<Rightarrow> disposition" where
  "disposition_for FcTimeout = Transient"
| "disposition_for FcNetwork = Transient"
| "disposition_for FcRateLimit = Transient"
| "disposition_for FcEndpointUnavailable = Transient"
| "disposition_for FcTls = Transient"
| "disposition_for FcMalformedOutput = Transient"
| "disposition_for FcSchemaInvalid = Transient"
| "disposition_for FcProviderInternal = Transient"
| "disposition_for FcQuotaExhausted = Quota"
| "disposition_for FcAuthentication = Permanent"
| "disposition_for FcMissingSecret = Permanent"
| "disposition_for FcInvalidSecret = Permanent"
| "disposition_for FcPaymentRequired = Permanent"
| "disposition_for FcExecutable = Permanent"
| "disposition_for FcConfiguration = Permanent"
| "disposition_for FcModelUnavailable = Permanent"
| "disposition_for FcMalformedEndpoint = Permanent"
| "disposition_for FcUnsupportedApi = Permanent"
| "disposition_for FcUnknown = Transient"

definition category_markers :: "(failure_category \<times> string list) list" where
  "category_markers = [
   (FcExecutable, [''executable'', ''not found on path'', ''not runnable'', ''no such file'',
      ''enoent'', ''command not found'']),
   (FcPaymentRequired, [''payment required'', ''payment_required'', ''insufficient credit'',
      ''insufficient_quota'', ''insufficient funds'', ''billing'', ''add credit'', ''402'',
      ''credit balance'']),
   (FcQuotaExhausted, [''quota exceeded'', ''quota_exceeded'', ''quota exhausted'',
      ''out of quota'', ''daily limit'', ''usage limit'', ''terminalquota'',
      ''resource exhausted'', ''resource_exhausted'']),
   (FcMissingSecret, [''missing api key'', ''api key not'', ''no api key'',
      ''api_key not set'', ''credential not set'', ''missing credential'']),
   (FcInvalidSecret, [''invalid api key'', ''invalid_api_key'', ''incorrect api key'',
      ''api key invalid'']),
   (FcAuthentication, [''unauthor'', ''authentication'', ''permission denied'', ''forbidden'',
      ''401'', ''403'', ''credential'']),
   (FcRateLimit, [''rate limit'', ''rate_limit'', ''ratelimit'', ''429'', ''too many requests'']),
   (FcTls, [''tls'', ''ssl'', ''certificate'', ''cert verify'', ''handshake'', ''self-signed'']),
   (FcTimeout, [''timeout'', ''timed out'', ''deadline exceeded'']),
   (FcModelUnavailable, [''model not found'', ''no such model'', ''unknown model'',
      ''model_not_found'', ''model does not exist'', ''unsupported model'']),
   (FcUnsupportedApi, [''unsupported api'', ''not supported'', ''unexpected response shape'',
      ''unsupported response'', ''incompatible api'']),
   (FcEndpointUnavailable, [''endpoint unavailable'', ''service unavailable'', ''503'',
      ''502'', ''bad gateway'', ''no healthy upstream'']),
   (FcNetwork, [''connection'', ''network'', ''dns'', ''reset by peer'', ''unreachable'',
      ''temporarily'', ''unavailable'', ''500'']),
   (FcProviderInternal, [''internal server error'', ''internal error'', ''server_error'']),
   (FcSchemaInvalid, [''schema'', ''validation error'', ''validationerror'', ''missing field'',
      ''field required'', ''decision invalid'', ''invalid decision'']),
   (FcMalformedOutput, [''malformed'', ''no json'', ''not valid json'', ''invalid json'',
      ''could not parse'', ''expecting value'', ''no decision json'', ''non-json'',
      ''empty response'']),
   (FcMalformedEndpoint, [''malformed endpoint'', ''invalid url'', ''could not parse url'',
      ''no host'', ''invalid base_url'']),
   (FcConfiguration, [''missing required configuration'', ''missing configuration'',
      ''not configured'', ''unknown provider'', ''not a known'', ''no implementation'',
      ''no model'', ''no endpoint'', ''base_url'', ''unsupported provider'',
      ''invalid canonical'', ''invalid state path''])]"
record failure_exc =
  exc_configuration :: bool
  exc_timeout :: bool
  exc_message :: string

definition has_marker :: "string list \<Rightarrow> string \<Rightarrow> bool" where
  "has_marker ms txt \<longleftrightarrow> (\<exists>m \<in> set ms. py_contains m txt)"

definition failure_text :: "failure_exc option \<Rightarrow> string \<Rightarrow> string" where
  "failure_text exc error_text =
     py_lower (if error_text \<noteq> [] then error_text else case exc of None \<Rightarrow> [] | Some x \<Rightarrow> exc_message x)"

definition text_category :: "string \<Rightarrow> failure_category" where
  "text_category txt =
     (case find (\<lambda>row. has_marker (snd row) txt) category_markers of None \<Rightarrow> FcUnknown | Some row \<Rightarrow> fst row)"

definition category :: "failure_exc option \<Rightarrow> string \<Rightarrow> failure_category" where
  "category exc error_text =
     (if (case exc of None \<Rightarrow> False | Some x \<Rightarrow> exc_configuration x) then FcConfiguration
      else if (case exc of None \<Rightarrow> False | Some x \<Rightarrow> exc_timeout x) then FcTimeout
      else text_category (failure_text exc error_text))"

definition classify_failure :: "failure_exc option \<Rightarrow> string \<Rightarrow> disposition" where
  "classify_failure exc error_text = disposition_for (category exc error_text)"

section \<open>Explicit tool requirements\<close>

definition require_terms :: "string list" where
  "require_terms = [''must use'', ''must call'', ''must be used'', ''must validate'', ''required'', ''require '',
     ''mandatory'', ''before implementation'', ''before implementing'', ''before you implement'',
     ''mcp validation required'', ''validate with mcp'', ''validate using mcp'']"

definition optional_terms :: "string list" where
  "optional_terms = [''where useful'', ''if useful'', ''where helpful'', ''if helpful'', ''optional'', ''may use'',
     ''you may'', ''if appropriate'', ''where appropriate'', ''if available'']"

definition no_fallback_terms :: "string list" where
  "no_fallback_terms = [''do not silently fallback'', ''do not silently fall back'', ''do not fallback'',
     ''do not fall back'', ''no fallback'', ''must not fallback'', ''without fallback'', ''no silent fallback'']"

text \<open>\<open>str.split()\<close> and \<open>str.strip(chars)\<close>.\<close>

fun py_split_aux :: "string \<Rightarrow> string \<Rightarrow> string list" where
  "py_split_aux tok [] = (if tok = [] then [] else [rev tok])"
| "py_split_aux tok (c # cs) =
     (if py_is_space c then (if tok = [] then [] else [rev tok]) @ py_split_aux [] cs
      else py_split_aux (c # tok) cs)"

definition py_split :: "string \<Rightarrow> string list" where
  "py_split s = py_split_aux [] s"

definition py_strip_chars :: "string \<Rightarrow> string \<Rightarrow> string" where
  "py_strip_chars cs s = rev (dropWhile (\<lambda>c. c \<in> set cs) (rev (dropWhile (\<lambda>c. c \<in> set cs) s)))"

definition mentions_mcp :: "string \<Rightarrow> bool" where
  "mentions_mcp low =
     (has_marker [''rf-mcp'', ''gnuradio mcp'', ''gnu radio mcp'', ''gnuradio_mcp''] low
      \<or> (\<exists>tok \<in> set (py_split (map (\<lambda>c. if c \<in> set ''/,.'' then CHR '' '' else c) low)).
            py_strip_chars ''()[]:;'' tok = ''mcp''))"

record tool_requirements =
  tr_mentions_mcp :: bool
  tr_mcp_required :: bool
  tr_before_implementation :: bool
  tr_no_fallback :: bool

definition parse_tool_requirements :: "string \<Rightarrow> tool_requirements" where
  "parse_tool_requirements txt =
     (let low = py_lower txt;
          mentions = mentions_mcp low;
          no_fallback = has_marker no_fallback_terms low
      in \<lparr>tr_mentions_mcp = mentions,
          tr_mcp_required = (mentions \<and> (has_marker require_terms low \<and> \<not> has_marker optional_terms low \<or> no_fallback)),
          tr_before_implementation = has_marker [''before implementation'', ''before implementing'', ''before you implement''] low,
          tr_no_fallback = no_fallback\<rparr>)"

section \<open>What the classification guarantees\<close>

lemma py_contains_trans: "py_contains a b \<Longrightarrow> py_contains b s \<Longrightarrow> py_contains a s"
  unfolding py_contains_iff by (metis append.assoc)

lemma has_marker_longer: "py_contains m txt \<Longrightarrow> m' \<in> set ms \<Longrightarrow> py_contains m' m \<Longrightarrow> has_marker ms txt"
  unfolding has_marker_def using py_contains_trans by blast

lemma find_SomeD: "find P xs = Some x \<Longrightarrow> \<exists>pre post. xs = pre @ x # post \<and> P x \<and> (\<forall>y \<in> set pre. \<not> P y)"
proof (induction xs)
  case (Cons a xs)
  then show ?case
  proof (cases "P a")
    case True
    with Cons.prems have "a # xs = [] @ x # xs \<and> P x" by simp
    then show ?thesis by fastforce
  next
    case False
    with Cons obtain pre post where "xs = pre @ x # post" "P x" "\<forall>y \<in> set pre. \<not> P y" by auto
    with False have "a # xs = (a # pre) @ x # post \<and> P x \<and> (\<forall>y \<in> set (a # pre). \<not> P y)" by simp
    then show ?thesis by blast
  qed
qed simp

lemma text_category_cases:
  "text_category txt = FcUnknown \<or>
   (\<exists>pre row post. category_markers = pre @ row # post \<and> fst row = text_category txt
      \<and> has_marker (snd row) txt \<and> (\<forall>r \<in> set pre. \<not> has_marker (snd r) txt))"
proof (cases "find (\<lambda>row. has_marker (snd row) txt) category_markers")
  case None
  then show ?thesis by (simp add: text_category_def)
next
  case (Some row)
  from find_SomeD [OF this] obtain pre post where "category_markers = pre @ row # post"
      "has_marker (snd row) txt" "\<forall>y \<in> set pre. \<not> has_marker (snd y) txt" by blast
  moreover have "fst row = text_category txt" by (simp add: text_category_def Some)
  ultimately show ?thesis by blast
qed

text \<open>
  A failure is treated as permanent only on evidence: it is a configuration error by type, or
  its text contains a marker of some permanent category while it is not a timeout.
\<close>

theorem permanent_needs_evidence:
  assumes "classify_failure exc error_text = Permanent"
  shows "(\<exists>x. exc = Some x \<and> exc_configuration x)
    \<or> (\<nexists>x. exc = Some x \<and> exc_timeout x)
      \<and> (\<exists>row \<in> set category_markers. disposition_for (fst row) = Permanent
           \<and> has_marker (snd row) (failure_text exc error_text))"
proof (cases "(\<exists>x. exc = Some x \<and> exc_configuration x) \<or> (\<exists>x. exc = Some x \<and> exc_timeout x)")
  case True
  then show ?thesis using assms by (auto simp: classify_failure_def category_def split: if_splits)
next
  case False
  then have "category exc error_text = text_category (failure_text exc error_text)"
    by (cases exc) (auto simp: category_def)
  with assms have p: "disposition_for (text_category (failure_text exc error_text)) = Permanent"
    by (simp add: classify_failure_def)
  then obtain pre row post where "category_markers = pre @ row # post"
      "fst row = text_category (failure_text exc error_text)" "has_marker (snd row) (failure_text exc error_text)"
    using text_category_cases [of "failure_text exc error_text"] by auto
  moreover from this(1) have "row \<in> set category_markers" by (metis in_set_conv_decomp)
  ultimately show ?thesis using False p by metis
qed

text \<open>A failure of unknown kind is retried.\<close>

lemma unknown_is_retried: "category exc error_text = FcUnknown \<Longrightarrow> classify_failure exc error_text = Transient"
  by (simp add: classify_failure_def)

theorem permanent_needs_evidence_witness:
  "\<exists>row \<in> set category_markers. disposition_for (fst row) = Permanent
     \<and> has_marker (snd row) (failure_text None ''Invalid API key'')"
proof -
  have "classify_failure None ''Invalid API key'' = Permanent" by code_simp
  from permanent_needs_evidence [OF this] show ?thesis by simp
qed

text \<open>
  No text is ever classified as a malformed endpoint because it says "malformed endpoint" or
  "could not parse url": the markers "malformed" and "could not parse" of malformed output come
  first. Such a failure, which the table lists as permanent, is not put in that category.
\<close>

lemma endpoint_markers_shadowed:
  assumes "py_contains ''malformed endpoint'' (failure_text exc error_text)
         \<or> py_contains ''could not parse url'' (failure_text exc error_text)"
  shows "category exc error_text \<noteq> FcMalformedEndpoint"
proof
  let ?t = "failure_text exc error_text"
  assume c: "category exc error_text = FcMalformedEndpoint"
  then have "text_category ?t = FcMalformedEndpoint" by (simp add: category_def split: if_splits)
  with text_category_cases [of ?t] obtain pre row post where
    m: "category_markers = pre @ row # post" "fst row = FcMalformedEndpoint" "\<forall>r \<in> set pre. \<not> has_marker (snd r) ?t"
    by auto
  have out: "has_marker (snd (category_markers ! 15)) ?t"
  proof -
    have "''malformed'' \<in> set (snd (category_markers ! 15))" "''could not parse'' \<in> set (snd (category_markers ! 15))"
      by (simp_all add: category_markers_def)
    moreover have "py_contains ''malformed'' ''malformed endpoint''" "py_contains ''could not parse'' ''could not parse url''"
      by code_simp+
    ultimately show ?thesis using assms has_marker_longer by blast
  qed
  have "length pre = 16"
  proof -
    have "distinct (map fst category_markers)" "map fst category_markers ! 16 = FcMalformedEndpoint"
      "16 < length category_markers" by (simp_all add: category_markers_def)
    moreover have "category_markers ! length pre = row" "length pre < length category_markers"
      by (simp_all add: m(1))
    then have "map fst category_markers ! length pre = FcMalformedEndpoint" "length pre < length category_markers"
      using m(2) by simp_all
    ultimately show ?thesis by (metis length_map nth_eq_iff_index_eq)
  qed
  then have "category_markers ! 15 = pre ! 15" "15 < length pre" by (simp_all add: m(1) nth_append)
  with out m(3) show False by (metis nth_mem)
qed

lemma endpoint_failure_is_retried:
  "category None ''Malformed endpoint URL'' \<noteq> FcMalformedEndpoint \<and> classify_failure None ''Malformed endpoint URL'' = Transient"
proof
  show "category None ''Malformed endpoint URL'' \<noteq> FcMalformedEndpoint"
    by (rule endpoint_markers_shadowed) code_simp
  show "classify_failure None ''Malformed endpoint URL'' = Transient" by code_simp
qed

end
