(* ===== verification/MissionCore.thy ===== *)
theory MissionCore
  imports Json FailureClass
begin

text \<open>
  The data of autonomous missions: statuses and the one transition function
  (\<open>schemas/missions.py\<close>, \<open>missions/lifecycle.py\<close>), the execution run row
  (\<open>state/models.py\<close>), resource budgets (\<open>missions/budgets.py\<close>), coordinator decisions and
  their contract (\<open>coordinator/contracts.py\<close>), and route targets
  (\<open>orchestrator/decision_router.py\<close>). Instants are whole microseconds.
\<close>

section \<open>Statuses and transitions\<close>

datatype mission_status =
    MsReceived | MsQueued | MsActive | MsWaiting | MsPaused
  | MsCompleted | MsBlocked | MsFailed | MsCancelled

definition terminal_statuses :: "mission_status list" where
  "terminal_statuses = [MsCompleted, MsBlocked, MsFailed, MsCancelled]"

definition is_terminal :: "mission_status \<Rightarrow> bool" where
  "is_terminal st \<longleftrightarrow> st \<in> set terminal_statuses"

fun allowed_targets :: "mission_status \<Rightarrow> mission_status list" where
  "allowed_targets MsReceived = [MsQueued, MsCancelled]"
| "allowed_targets MsQueued = [MsActive, MsPaused, MsCancelled]"
| "allowed_targets MsActive = [MsWaiting, MsPaused, MsCompleted, MsBlocked, MsFailed, MsCancelled, MsQueued]"
| "allowed_targets MsWaiting = [MsQueued, MsPaused, MsCancelled]"
| "allowed_targets MsPaused = [MsQueued, MsCancelled]"
| "allowed_targets _ = []"

definition can_transition :: "mission_status \<Rightarrow> mission_status \<Rightarrow> bool" where
  "can_transition current tgt \<longleftrightarrow> current = tgt \<or> tgt \<in> set (allowed_targets current)"

datatype transition_error = InvalidTransition mission_status mission_status

definition validate_transition :: "mission_status \<Rightarrow> mission_status \<Rightarrow> transition_error + unit" where
  "validate_transition current tgt = guard_err (can_transition current tgt) (InvalidTransition current tgt)"

lemma terminal_iff [simp]: "is_terminal st \<longleftrightarrow> st = MsCompleted \<or> st = MsBlocked \<or> st = MsFailed \<or> st = MsCancelled"
  by (auto simp: is_terminal_def terminal_statuses_def)

lemma terminal_no_targets: "is_terminal st \<Longrightarrow> can_transition st tgt \<longleftrightarrow> tgt = st"
  by (auto simp: can_transition_def)

lemma validate_transition_Inr [simp]: "validate_transition a b = Inr u \<longleftrightarrow> can_transition a b"
  by (simp add: validate_transition_def)

section \<open>Decisions\<close>

datatype control_disposition = CdContinue | CdComplete | CdWait | CdBlocked

record wait_condition =
  wc_type :: "string option"
  wc_message :: "string option"
  wc_deadline :: "int option"

record mission_waiting =
  mw_reason :: string
  mw_until :: "int option"
  mw_event_type :: "string option"
  mw_agent :: "string option"
  mw_user_input :: "bool option"
  mw_summary :: "string option"
  mw_condition :: "wait_condition option"

record mission_blocked =
  mb_reason :: string
  mb_capability :: "string option"

record mission_control =
  mc_disposition :: control_disposition
  mc_reason :: "string option"
  mc_final :: "string option"
  mc_waiting :: "mission_waiting option"
  mc_blocked :: "mission_blocked option"

record decision =
  dc_id :: string
  dc_mission :: string
  dc_summary :: string
  dc_target :: string
  dc_action :: string
  dc_control :: mission_control

datatype control_error = NoTarget | NoFinalResponse | NoWaitingReason | NoBlockedReason

definition blank :: "string \<Rightarrow> bool" where
  "blank s \<longleftrightarrow> py_strip s = []"

definition validate_mission_control :: "decision \<Rightarrow> control_error option" where
  "validate_mission_control d =
     (let mc = dc_control d in
      case mc_disposition mc of
        CdContinue \<Rightarrow> if dc_target d = [] \<or> blank (dc_target d) then Some NoTarget else None
      | CdComplete \<Rightarrow> (case mc_final mc of None \<Rightarrow> Some NoFinalResponse
           | Some f \<Rightarrow> if f = [] \<or> blank f then Some NoFinalResponse else None)
      | CdWait \<Rightarrow> (case mc_waiting mc of None \<Rightarrow> Some NoWaitingReason
           | Some w \<Rightarrow> if mw_reason w = [] \<or> blank (mw_reason w) then Some NoWaitingReason else None)
      | CdBlocked \<Rightarrow> (case mc_blocked mc of None \<Rightarrow> Some NoBlockedReason
           | Some b \<Rightarrow> if mb_reason b = [] \<or> blank (mb_reason b) then Some NoBlockedReason else None))"

datatype route_target =
    RtRespond | RtCodingAgent | RtMcp | RtRfMcp | RtRfDevice | RtPeerMessage | RtPeerArtifact
  | RtNodeState | RtContinue | RtUnknown

definition target_aliases :: "(string \<times> route_target) list" where
  "target_aliases =
    [(''respond'', RtRespond), (''user'', RtRespond), (''mission_source'', RtRespond),
     (''coding_agent'', RtCodingAgent), (''future_coding_agent'', RtCodingAgent),
     (''gnuradio_mcp'', RtMcp), (''mcp'', RtMcp), (''future_gnuradio_mcp'', RtMcp),
     (''rf_mcp'', RtRfMcp), (''rf'', RtRfMcp),
     (''rf_device'', RtRfDevice), (''hardware'', RtRfDevice), (''device'', RtRfDevice),
     (''peer_message'', RtPeerMessage), (''peer'', RtPeerMessage),
     (''peer_artifact'', RtPeerArtifact), (''artifact'', RtPeerArtifact),
     (''node_state'', RtNodeState), (''state'', RtNodeState), (''status'', RtNodeState),
     (''continue_reasoning'', RtContinue)]"

definition normalize_target :: "string \<Rightarrow> route_target" where
  "normalize_target s = (case map_of target_aliases (py_lower (py_strip s)) of None \<Rightarrow> RtUnknown | Some t \<Rightarrow> t)"

section \<open>The execution run\<close>

text \<open>
  Reasons are kept as the values their texts are formatted from: why a budget stopped the run, why
  a decision was rejected, and what a control step or a blocked run records.
\<close>

datatype block_reason =
    IterationsReached int | CoordinatorCallsReached int | ElapsedReached pyfloat | FailuresReached int
  | RouteLimitReached route_target int | FallbackInsufficient int

datatype invalid_decision = BadControl control_error | NoWaitMessage | WaitRejected string

datatype step_note =
    NoteText string
  | NoteBudget block_reason
  | NotePermanent failure_category string
  | NoteQuota string
  | NoteSandbox string
  | NoteRequirement bool
  | NoteTransient failure_category string
  | NoteInvalid invalid_decision
  | NoteObligation string
  | NoteReplyPresent
  | NoteCancelled

record run =
  rn_id :: string
  rn_mission :: string
  rn_node :: string
  rn_status :: mission_status
  rn_owner :: "string option"
  rn_token :: "string option"
  rn_lease_acquired :: "int option"
  rn_lease_renewed :: "int option"
  rn_lease_expiry :: "int option"
  rn_iterations :: int
  rn_coordinator_calls :: int
  rn_node_state_actions :: int
  rn_coding_actions :: int
  rn_mcp_actions :: int
  rn_response_actions :: int
  rn_rf_device_actions :: int
  rn_failures :: int
  rn_elapsed :: pyfloat
  rn_budgets :: "(string \<times> json) list"
  rn_last_step :: "string option"
  rn_last_decision :: "string option"
  rn_last_route :: "route_target option"
  rn_waiting :: "mission_waiting option"
  rn_blocked_reason :: "step_note option"
  rn_final_response :: "string option"
  rn_pause_requested :: bool
  rn_cancel_requested :: "int option"
  rn_cancel_acknowledged :: "int option"
  rn_recoveries :: int
  rn_version :: int
  rn_queued_at :: "int option"
  rn_started_at :: "int option"
  rn_paused_at :: "int option"
  rn_waiting_at :: "int option"
  rn_completed_at :: "int option"
  rn_cancelled_at :: "int option"
  rn_last_activity :: "int option"

section \<open>Budgets\<close>

record budgets =
  bg_iterations :: int
  bg_elapsed :: pyfloat
  bg_coordinator_calls :: int
  bg_node_state :: int
  bg_coding :: int
  bg_mcp :: int
  bg_response :: int
  bg_rf_device :: int
  bg_failures :: int
  bg_context :: int
  bg_backoff_initial :: pyfloat
  bg_backoff_max :: pyfloat

text \<open>Limits a settings file can hold.\<close>

definition valid_budgets :: "budgets \<Rightarrow> bool" where
  "valid_budgets b \<longleftrightarrow> 1 \<le> bg_iterations b \<and> Fin 0 < bg_elapsed b \<and> 1 \<le> bg_coordinator_calls b
     \<and> 0 \<le> bg_node_state b \<and> 0 \<le> bg_coding b \<and> 0 \<le> bg_mcp b \<and> 0 \<le> bg_response b \<and> 0 \<le> bg_rf_device b
     \<and> 1 \<le> bg_failures b \<and> 0 < bg_context b \<and> Fin 0 \<le> bg_backoff_initial b \<and> Fin 0 \<le> bg_backoff_max b"

text \<open>
  Python's \<open>int(value)\<close> and \<open>float(value)\<close>: \<open>Rejected\<close> is the TypeError or ValueError the code
  skips the override for; any other exception leaves the function. The two conversions are
  arguments.
\<close>

datatype 'a conversion = Converted 'a | Rejected | Raised

record conversions =
  to_int :: "json \<Rightarrow> int conversion"
  to_float :: "json \<Rightarrow> pyfloat conversion"

datatype budget_error = ConversionRaised

definition clamp_int :: "conversions \<Rightarrow> json \<Rightarrow> int \<Rightarrow> (int \<Rightarrow> budgets \<Rightarrow> budgets) \<Rightarrow> budgets \<Rightarrow> budget_error + budgets" where
  "clamp_int cv v base set_to b =
     (case to_int cv v of
        Raised \<Rightarrow> Inl ConversionRaised
      | Rejected \<Rightarrow> Inr b
      | Converted n \<Rightarrow> Inr (if n \<le> 0 then b else set_to (min n base) b))"

definition clamp_float :: "conversions \<Rightarrow> json \<Rightarrow> pyfloat \<Rightarrow> (pyfloat \<Rightarrow> budgets \<Rightarrow> budgets) \<Rightarrow> budgets \<Rightarrow> budget_error + budgets" where
  "clamp_float cv v base set_to b =
     (case to_float cv v of
        Raised \<Rightarrow> Inl ConversionRaised
      | Rejected \<Rightarrow> Inr b
      | Converted x \<Rightarrow> Inr (if x \<le> Fin 0 then b else set_to (fmin x base) b))"

definition override_one :: "conversions \<Rightarrow> budgets \<Rightarrow> string \<times> json \<Rightarrow> budgets \<Rightarrow> budget_error + budgets" where
  "override_one cv base kv b =
     (let k = fst kv; v = snd kv in
      if k = ''max_iterations'' then clamp_int cv v (bg_iterations base) (\<lambda>n b. b\<lparr>bg_iterations := n\<rparr>) b
      else if k = ''max_elapsed_seconds'' then clamp_float cv v (bg_elapsed base) (\<lambda>n b. b\<lparr>bg_elapsed := n\<rparr>) b
      else if k = ''max_coordinator_calls'' then clamp_int cv v (bg_coordinator_calls base) (\<lambda>n b. b\<lparr>bg_coordinator_calls := n\<rparr>) b
      else if k = ''max_node_state_actions'' then clamp_int cv v (bg_node_state base) (\<lambda>n b. b\<lparr>bg_node_state := n\<rparr>) b
      else if k = ''max_coding_agent_actions'' then clamp_int cv v (bg_coding base) (\<lambda>n b. b\<lparr>bg_coding := n\<rparr>) b
      else if k = ''max_mcp_actions'' then clamp_int cv v (bg_mcp base) (\<lambda>n b. b\<lparr>bg_mcp := n\<rparr>) b
      else if k = ''max_response_actions'' then clamp_int cv v (bg_response base) (\<lambda>n b. b\<lparr>bg_response := n\<rparr>) b
      else if k = ''max_rf_device_actions'' then clamp_int cv v (bg_rf_device base) (\<lambda>n b. b\<lparr>bg_rf_device := n\<rparr>) b
      else if k = ''max_consecutive_failures'' then clamp_int cv v (bg_failures base) (\<lambda>n b. b\<lparr>bg_failures := n\<rparr>) b
      else if k = ''max_context_characters'' then clamp_int cv v (bg_context base) (\<lambda>n b. b\<lparr>bg_context := n\<rparr>) b
      else if k = ''coordinator_retry_initial_backoff_seconds''
        then clamp_float cv v (bg_backoff_initial base) (\<lambda>n b. b\<lparr>bg_backoff_initial := n\<rparr>) b
      else if k = ''coordinator_retry_max_backoff_seconds''
        then clamp_float cv v (bg_backoff_max base) (\<lambda>n b. b\<lparr>bg_backoff_max := n\<rparr>) b
      else Inr b)"

fun override_all :: "conversions \<Rightarrow> budgets \<Rightarrow> (string \<times> json) list \<Rightarrow> budgets \<Rightarrow> budget_error + budgets" where
  "override_all cv base [] b = Inr b"
| "override_all cv base (kv # kvs) b = rbind (override_one cv base kv b) (override_all cv base kvs)"

definition resolve_budgets :: "conversions \<Rightarrow> budgets \<Rightarrow> (string \<times> json) list \<Rightarrow> budget_error + budgets" where
  "resolve_budgets cv base overrides = override_all cv base overrides base"

text \<open>The budget of a route: its limit, the counter of the run, and the counter's update.\<close>

fun route_limit :: "route_target \<Rightarrow> budgets \<Rightarrow> int option" where
  "route_limit RtNodeState b = Some (bg_node_state b)"
| "route_limit RtCodingAgent b = Some (bg_coding b)"
| "route_limit RtMcp b = Some (bg_mcp b)"
| "route_limit RtRespond b = Some (bg_response b)"
| "route_limit RtRfDevice b = Some (bg_rf_device b)"
| "route_limit _ b = None"

fun route_used :: "route_target \<Rightarrow> run \<Rightarrow> int" where
  "route_used RtNodeState r = rn_node_state_actions r"
| "route_used RtCodingAgent r = rn_coding_actions r"
| "route_used RtMcp r = rn_mcp_actions r"
| "route_used RtRespond r = rn_response_actions r"
| "route_used RtRfDevice r = rn_rf_device_actions r"
| "route_used _ r = 0"

fun count_route :: "route_target \<Rightarrow> run \<Rightarrow> run" where
  "count_route RtNodeState r = r\<lparr>rn_node_state_actions := rn_node_state_actions r + 1\<rparr>"
| "count_route RtCodingAgent r = r\<lparr>rn_coding_actions := rn_coding_actions r + 1\<rparr>"
| "count_route RtMcp r = r\<lparr>rn_mcp_actions := rn_mcp_actions r + 1\<rparr>"
| "count_route RtRespond r = r\<lparr>rn_response_actions := rn_response_actions r + 1\<rparr>"
| "count_route RtRfDevice r = r\<lparr>rn_rf_device_actions := rn_rf_device_actions r + 1\<rparr>"
| "count_route _ r = r"

definition min_flowgraph_mcp_actions :: int where
  "min_flowgraph_mcp_actions = 5"

definition estimate_flowgraph_mcp_actions :: "int \<Rightarrow> int \<Rightarrow> int \<Rightarrow> int \<Rightarrow> int" where
  "estimate_flowgraph_mcp_actions blocks connections checks runs = max 1 (blocks + connections + checks + runs)"

definition fallback_budget_block :: "run \<Rightarrow> budgets \<Rightarrow> route_target \<Rightarrow> int \<Rightarrow> block_reason option" where
  "fallback_budget_block r b rt least =
     (case route_limit rt b of
        None \<Rightarrow> None
      | Some limit \<Rightarrow>
        let left = max 0 (limit - route_used rt r)
        in if route_used rt r = 0 \<and> 0 < left \<and> left < least then Some (FallbackInsufficient left) else None)"

definition iteration_block :: "run \<Rightarrow> budgets \<Rightarrow> block_reason option" where
  "iteration_block r b =
     (if bg_iterations b \<le> rn_iterations r then Some (IterationsReached (bg_iterations b))
      else if bg_coordinator_calls b \<le> rn_coordinator_calls r then Some (CoordinatorCallsReached (bg_coordinator_calls b))
      else if bg_elapsed b \<le> rn_elapsed r then Some (ElapsedReached (bg_elapsed b))
      else if bg_failures b \<le> rn_failures r then Some (FailuresReached (bg_failures b))
      else None)"

definition route_block :: "run \<Rightarrow> budgets \<Rightarrow> route_target \<Rightarrow> block_reason option" where
  "route_block r b rt =
     (case route_limit rt b of
        None \<Rightarrow> None
      | Some limit \<Rightarrow> if limit \<le> route_used rt r then Some (RouteLimitReached rt limit) else None)"

record remaining_budget =
  rm_iterations :: int
  rm_coordinator_calls :: int
  rm_node_state :: int
  rm_coding :: int
  rm_mcp :: int
  rm_response :: int
  rm_rf_device :: int
  rm_failures :: int
  rm_elapsed :: pyfloat

text \<open>\<open>fsub\<close> is float subtraction.\<close>

definition remaining_of :: "(pyfloat \<Rightarrow> pyfloat \<Rightarrow> pyfloat) \<Rightarrow> run \<Rightarrow> budgets \<Rightarrow> remaining_budget" where
  "remaining_of fsub r b =
     \<lparr>rm_iterations = max 0 (bg_iterations b - rn_iterations r),
      rm_coordinator_calls = max 0 (bg_coordinator_calls b - rn_coordinator_calls r),
      rm_node_state = max 0 (bg_node_state b - rn_node_state_actions r),
      rm_coding = max 0 (bg_coding b - rn_coding_actions r),
      rm_mcp = max 0 (bg_mcp b - rn_mcp_actions r),
      rm_response = max 0 (bg_response b - rn_response_actions r),
      rm_rf_device = max 0 (bg_rf_device b - rn_rf_device_actions r),
      rm_failures = max 0 (bg_failures b - rn_failures r),
      rm_elapsed = fmax (Fin 0) (fsub (bg_elapsed b) (rn_elapsed r))\<rparr>"

section \<open>Overrides only lower a budget\<close>

text \<open>Every limit of \<open>b\<close> is at most the one of \<open>base\<close>; for the float limits, unless it is NaN.\<close>

definition fle_or_nan :: "pyfloat \<Rightarrow> pyfloat \<Rightarrow> bool" where
  "fle_or_nan x y \<longleftrightarrow> x = NaN \<or> x \<le> y"

definition within_budgets :: "budgets \<Rightarrow> budgets \<Rightarrow> bool" where
  "within_budgets base b \<longleftrightarrow> bg_iterations b \<le> bg_iterations base \<and> bg_coordinator_calls b \<le> bg_coordinator_calls base
     \<and> bg_node_state b \<le> bg_node_state base \<and> bg_coding b \<le> bg_coding base \<and> bg_mcp b \<le> bg_mcp base
     \<and> bg_response b \<le> bg_response base \<and> bg_rf_device b \<le> bg_rf_device base \<and> bg_failures b \<le> bg_failures base
     \<and> bg_context b \<le> bg_context base \<and> fle_or_nan (bg_elapsed b) (bg_elapsed base)
     \<and> fle_or_nan (bg_backoff_initial b) (bg_backoff_initial base) \<and> fle_or_nan (bg_backoff_max b) (bg_backoff_max base)"

lemma fmin_or_nan: "y \<noteq> NaN \<Longrightarrow> fle_or_nan (fmin x y) y"
  by (cases "x = NaN") (auto simp: fle_or_nan_def fmin_def fnot_less)

lemma override_one_within:
  assumes "valid_budgets base" "within_budgets base b" "override_one cv base kv b = Inr b'"
  shows "within_budgets base b'"
proof -
  have "bg_elapsed base \<noteq> NaN" "bg_backoff_initial base \<noteq> NaN" "bg_backoff_max base \<noteq> NaN"
    using assms(1) by (auto simp: valid_budgets_def)
  note f = this [THEN fmin_or_nan]
  show ?thesis
    using assms(2,3) unfolding override_one_def Let_def clamp_int_def clamp_float_def
    by (simp split: if_splits conversion.splits; (clarsimp simp: within_budgets_def f)?)
qed

lemma override_all_within:
  "valid_budgets base \<Longrightarrow> within_budgets base b \<Longrightarrow> override_all cv base kvs b = Inr b' \<Longrightarrow> within_budgets base b'"
  by (induction kvs arbitrary: b) (auto simp: rbind_Inr_iff intro: override_one_within)

lemma within_refl: "valid_budgets base \<Longrightarrow> within_budgets base base"
  by (auto simp: within_budgets_def valid_budgets_def fle_or_nan_def)

text \<open>
  A per-run override can only lower the configured limits: every integer limit it yields is at
  most the configured one, and so is every float limit that is not NaN.
\<close>

theorem overrides_only_lower:
  assumes "valid_budgets base" "resolve_budgets cv base overrides = Inr b"
  shows "within_budgets base b"
  using assms override_all_within within_refl unfolding resolve_budgets_def by blast

definition default_budgets :: budgets where
  "default_budgets = \<lparr>bg_iterations = 25, bg_elapsed = Fin 1800, bg_coordinator_calls = 25, bg_node_state = 10,
     bg_coding = 5, bg_mcp = 15, bg_response = 10, bg_rf_device = 10, bg_failures = 3, bg_context = 100000,
     bg_backoff_initial = Fin 2, bg_backoff_max = Fin 30\<rparr>"

definition plain_conversions :: conversions where
  "plain_conversions = \<lparr>to_int = (\<lambda>v. case v of JInt i \<Rightarrow> Converted i | _ \<Rightarrow> Rejected),
     to_float = (\<lambda>v. case v of JFloat x \<Rightarrow> Converted x | _ \<Rightarrow> Rejected)\<rparr>"

theorem overrides_only_lower_witness:
  "\<exists>b. resolve_budgets plain_conversions default_budgets [(''max_iterations'', JInt 40), (''max_mcp_actions'', JInt 4)] = Inr b
     \<and> bg_iterations b = 25 \<and> bg_mcp b = 4 \<and> within_budgets default_budgets b"
proof -
  have "resolve_budgets plain_conversions default_budgets [(''max_iterations'', JInt 40), (''max_mcp_actions'', JInt 4)]
      = Inr (default_budgets\<lparr>bg_mcp := 4\<rparr>)"
    by (simp add: resolve_budgets_def override_one_def clamp_int_def plain_conversions_def default_budgets_def)
  moreover have "valid_budgets default_budgets" by (simp add: valid_budgets_def default_budgets_def)
  ultimately show ?thesis using overrides_only_lower by (fastforce simp: default_budgets_def)
qed

text \<open>
  The NaN exception is real: an elapsed-time override of NaN is accepted, and a run with it is
  never stopped for its elapsed time.
\<close>

lemma nan_override_lifts_elapsed_limit:
  assumes "valid_budgets base" "to_float cv v = Converted NaN"
  shows "\<exists>b. resolve_budgets cv base [(''max_elapsed_seconds'', v)] = Inr b
    \<and> (\<forall>r x. iteration_block r b \<noteq> Some (ElapsedReached x))"
proof -
  have "\<not> bg_elapsed base < NaN" by simp
  then have "resolve_budgets cv base [(''max_elapsed_seconds'', v)] = Inr (base\<lparr>bg_elapsed := NaN\<rparr>)"
    using assms by (simp add: resolve_budgets_def override_one_def clamp_float_def fmin_def)
  then show ?thesis by (auto simp: iteration_block_def)
qed

section \<open>The lifecycle machine\<close>

text \<open>
  Transitions never leave a terminal state, every non-terminal state can
  reach a terminal one and can be cancelled at once, and only an active mission can complete, block
  or fail.
\<close>

lemma lifecycle_machine:
  "(is_terminal s \<longrightarrow> can_transition s t \<longrightarrow> t = s)
   \<and> (\<not> is_terminal s \<longrightarrow> can_transition s MsCancelled)
   \<and> (t \<in> {MsCompleted, MsBlocked, MsFailed, MsWaiting} \<longrightarrow> can_transition s t \<longrightarrow> s = t \<or> s = MsActive)
   \<and> (can_transition s MsReceived \<longrightarrow> s = MsReceived)"
  by (cases s) (auto simp: can_transition_def)

end
