(* ===== verification/MissionStore.thy ===== *)
theory MissionStore
  imports MissionCore
begin

text \<open>
  The mission tables and their repositories (\<open>MissionRepository\<close>,
  \<open>MissionStepRepository\<close> and \<open>MissionExecutionRunRepository\<close> of
  \<open>state/repositories.py\<close>). The node's state is a record of tables, each its rows in creation
  order, with the event log, the clock the code reads, the supply of identifiers, and what the
  worker keeps in memory: the missions that have a task, and the runs told to stop or whose lease
  was lost.
\<close>

section \<open>Tables\<close>

record mission_row =
  ms_id :: string
  ms_status :: mission_status
  ms_content :: string

datatype step_status = StCreated | StRunning | StCompleted | StFailed | StBlocked

datatype step_target = ToControl | ToRoute route_target

datatype step_result = NoResult | ControlResult "step_note option" | RouteResult json

record step_row =
  sp_id :: string
  sp_mission :: string
  sp_decision_id :: string
  sp_decision :: "decision option"
  sp_target :: step_target
  sp_action :: string
  sp_status :: step_status
  sp_result :: step_result
  sp_error :: "string option"
  sp_started :: "int option"
  sp_completed :: "int option"

record node =
  nd_missions :: "mission_row list"
  nd_runs :: "run list"
  nd_steps :: "step_row list"
  nd_events :: "(string \<times> string) list"
  nd_sandbox_ok :: "string list"
  nd_clock :: int
  nd_uuids :: nat
  nd_tasks :: "string list"
  nd_stop :: "string list"
  nd_lost :: "string list"

abbreviation run_get :: "node \<Rightarrow> string \<Rightarrow> run option" where
  "run_get \<sigma> \<equiv> tbl_get rn_id (nd_runs \<sigma>)"

abbreviation mission_get :: "node \<Rightarrow> string \<Rightarrow> mission_row option" where
  "mission_get \<sigma> \<equiv> tbl_get ms_id (nd_missions \<sigma>)"

text \<open>The row updates of the code keep the primary key.\<close>

definition keeps_run :: "(run \<Rightarrow> run) \<Rightarrow> bool" where
  "keeps_run f \<longleftrightarrow> (\<forall>r. rn_id (f r) = rn_id r)"

definition upd_run :: "string \<Rightarrow> (run \<Rightarrow> run) \<Rightarrow> node \<Rightarrow> node" where
  "upd_run rid f \<sigma> = \<sigma>\<lparr>nd_runs := tbl_upd rn_id rid f (nd_runs \<sigma>)\<rparr>"

interpretation runs: keyed_store run_get upd_run keeps_run
  by unfold_locales (simp add: keeps_run_def upd_run_def tbl_get_upd)

definition update_status :: "string \<Rightarrow> mission_status \<Rightarrow> node \<Rightarrow> node" where
  "update_status mid st \<sigma> = \<sigma>\<lparr>nd_missions := tbl_upd ms_id mid (\<lambda>m. m\<lparr>ms_status := st\<rparr>) (nd_missions \<sigma>)\<rparr>"

definition create_step :: "step_row \<Rightarrow> node \<Rightarrow> node" where
  "create_step sp \<sigma> = \<sigma>\<lparr>nd_steps := nd_steps \<sigma> @ [sp]\<rparr>"

text \<open>A missing field of an update leaves the column as it is.\<close>

definition set_step :: "step_status option \<Rightarrow> step_result option \<Rightarrow> string option \<Rightarrow> int option \<Rightarrow> step_row \<Rightarrow> step_row" where
  "set_step st res err completed sp =
     sp\<lparr>sp_status := (case st of None \<Rightarrow> sp_status sp | Some v \<Rightarrow> v),
        sp_result := (case res of None \<Rightarrow> sp_result sp | Some v \<Rightarrow> v),
        sp_error := (case err of None \<Rightarrow> sp_error sp | Some v \<Rightarrow> Some v),
        sp_completed := (case completed of None \<Rightarrow> sp_completed sp | Some v \<Rightarrow> Some v)\<rparr>"

definition update_step ::
  "string \<Rightarrow> step_status option \<Rightarrow> step_result option \<Rightarrow> string option \<Rightarrow> int option \<Rightarrow> node \<Rightarrow> node" where
  "update_step sid st res err completed \<sigma> =
     \<sigma>\<lparr>nd_steps := tbl_upd sp_id sid (set_step st res err completed) (nd_steps \<sigma>)\<rparr>"

definition list_steps :: "string \<Rightarrow> nat \<Rightarrow> node \<Rightarrow> step_row list" where
  "list_steps mid limit \<sigma> = take limit (rev (filter (\<lambda>sp. sp_mission sp = mid) (nd_steps \<sigma>)))"

definition log_event :: "string \<Rightarrow> string \<Rightarrow> node \<Rightarrow> node" where
  "log_event ty mid \<sigma> = \<sigma>\<lparr>nd_events := nd_events \<sigma> @ [(ty, mid)]\<rparr>"

section \<open>Execution runs\<close>

definition new_run :: "string \<Rightarrow> string \<Rightarrow> string \<Rightarrow> (string \<times> json) list \<Rightarrow> int \<Rightarrow> run" where
  "new_run rid mid node bs now =
     \<lparr>rn_id = rid, rn_mission = mid, rn_node = node, rn_status = MsQueued, rn_owner = None, rn_token = None,
      rn_lease_acquired = None, rn_lease_renewed = None, rn_lease_expiry = None, rn_iterations = 0,
      rn_coordinator_calls = 0, rn_node_state_actions = 0, rn_coding_actions = 0, rn_mcp_actions = 0,
      rn_response_actions = 0, rn_rf_device_actions = 0, rn_failures = 0, rn_elapsed = Fin 0, rn_budgets = bs,
      rn_last_step = None, rn_last_decision = None, rn_last_route = None, rn_waiting = None,
      rn_blocked_reason = None, rn_final_response = None, rn_pause_requested = False,
      rn_cancel_requested = None, rn_cancel_acknowledged = None, rn_recoveries = 0, rn_version = 0,
      rn_queued_at = Some now, rn_started_at = None, rn_paused_at = None, rn_waiting_at = None,
      rn_completed_at = None, rn_cancelled_at = None, rn_last_activity = None\<rparr>"

definition create_run :: "run \<Rightarrow> node \<Rightarrow> node" where
  "create_run r \<sigma> = \<sigma>\<lparr>nd_runs := nd_runs \<sigma> @ [r]\<rparr>"

text \<open>The newest non-terminal run of a mission, and its newest run.\<close>

definition current_for_mission :: "string \<Rightarrow> node \<Rightarrow> run option" where
  "current_for_mission mid \<sigma> =
     find (\<lambda>r. rn_mission r = mid \<and> \<not> is_terminal (rn_status r)) (rev (nd_runs \<sigma>))"

definition latest_for_mission :: "string \<Rightarrow> node \<Rightarrow> run option" where
  "latest_for_mission mid \<sigma> = find (\<lambda>r. rn_mission r = mid) (rev (nd_runs \<sigma>))"

text \<open>Queued runs oldest first; a missing queue time sorts first, as SQLite orders NULL.\<close>

definition queued_run_ids :: "string \<Rightarrow> nat \<Rightarrow> node \<Rightarrow> string list" where
  "queued_run_ids node limit \<sigma> =
     (let q = filter (\<lambda>r. rn_node r = node \<and> rn_status r = MsQueued) (nd_runs \<sigma>);
          never = filter (\<lambda>r. rn_queued_at r = None) q;
          timed = filter (\<lambda>r. rn_queued_at r \<noteq> None) q
      in take limit (map rn_id (never @ sort_key (\<lambda>r. case rn_queued_at r of None \<Rightarrow> 0 | Some t \<Rightarrow> t) timed)))"

definition lease_lapsed :: "int \<Rightarrow> run \<Rightarrow> bool" where
  "lease_lapsed now r \<longleftrightarrow> (case rn_lease_expiry r of None \<Rightarrow> True | Some e \<Rightarrow> e < now)"

definition recoverable_active_ids :: "string \<Rightarrow> int \<Rightarrow> nat \<Rightarrow> node \<Rightarrow> string list" where
  "recoverable_active_ids node now limit \<sigma> =
     take limit (map rn_id (filter (\<lambda>r. rn_node r = node \<and> rn_status r = MsActive \<and> lease_lapsed now r) (nd_runs \<sigma>)))"

text \<open>The conditional UPDATEs of the lease, each giving the number of rows changed.\<close>

definition take_lease :: "string \<Rightarrow> string \<Rightarrow> int \<Rightarrow> int \<Rightarrow> run \<Rightarrow> run" where
  "take_lease owner token now expiry r =
     r\<lparr>rn_status := MsActive, rn_owner := Some owner, rn_token := Some token, rn_lease_acquired := Some now,
       rn_lease_renewed := Some now, rn_lease_expiry := Some expiry,
       rn_started_at := (case rn_started_at r of None \<Rightarrow> Some now | Some t \<Rightarrow> Some t),
       rn_last_activity := Some now\<rparr>"

definition acquire_lease :: "string \<Rightarrow> string \<Rightarrow> string \<Rightarrow> int \<Rightarrow> int \<Rightarrow> node \<Rightarrow> node \<times> nat" where
  "acquire_lease rid owner token now expiry \<sigma> =
     (case run_get \<sigma> rid of
        None \<Rightarrow> (\<sigma>, 0)
      | Some r \<Rightarrow> if rn_status r = MsQueued \<or> rn_status r = MsActive \<and> lease_lapsed now r
                  then (upd_run rid (take_lease owner token now expiry) \<sigma>, 1) else (\<sigma>, 0))"

definition renew_lease :: "string \<Rightarrow> string \<Rightarrow> string \<Rightarrow> int \<Rightarrow> int \<Rightarrow> node \<Rightarrow> node \<times> nat" where
  "renew_lease rid owner token now expiry \<sigma> =
     (case run_get \<sigma> rid of
        None \<Rightarrow> (\<sigma>, 0)
      | Some r \<Rightarrow> if rn_owner r = Some owner \<and> rn_token r = Some token \<and> rn_status r = MsActive
                  then (upd_run rid (\<lambda>r. r\<lparr>rn_lease_renewed := Some now, rn_lease_expiry := Some expiry,
                          rn_last_activity := Some now\<rparr>) \<sigma>, 1) else (\<sigma>, 0))"

definition drop_lease :: "run \<Rightarrow> run" where
  "drop_lease r = r\<lparr>rn_token := None, rn_owner := None, rn_lease_acquired := None, rn_lease_renewed := None,
     rn_lease_expiry := None\<rparr>"

definition release_lease :: "string \<Rightarrow> string \<Rightarrow> node \<Rightarrow> node \<times> nat" where
  "release_lease rid token \<sigma> =
     (case run_get \<sigma> rid of
        None \<Rightarrow> (\<sigma>, 0)
      | Some r \<Rightarrow> if rn_token r = Some token then (upd_run rid drop_lease \<sigma>, 1) else (\<sigma>, 0))"

text \<open>An update by the code: the fields, the version and the activity time.\<close>

definition touch :: "int \<Rightarrow> run \<Rightarrow> run" where
  "touch now r = r\<lparr>rn_version := rn_version r + 1, rn_last_activity := Some now\<rparr>"

definition update_run :: "string \<Rightarrow> (run \<Rightarrow> run) \<Rightarrow> node \<Rightarrow> node" where
  "update_run rid f \<sigma> = upd_run rid (\<lambda>r. touch (nd_clock \<sigma>) (f r)) \<sigma>"

end
