(* ===== verification/MissionEngine.thy ===== *)
theory MissionEngine
  imports MissionStore
begin

text \<open>
  One atomic mission iteration: \<open>MissionEngine.run_iteration\<close> of \<open>missions/engine.py\<close>
  with every handler it dispatches to. What runs outside the engine is a record of arguments: the
  coordinator, the route that executes, the peer-reply service, the sandbox probe, and the other
  tasks of the node. Each \<open>await\<close> may let those tasks act, so an awaited call returns the node
  it leaves behind, and emitting an event ends with \<open>ou_yield\<close>.
\<close>

section \<open>What is outside the engine\<close>

datatype coordinator_reply =
    Decided decision
  | CoordinatorFailed failure_exc string
  | CoordinatorRaised

datatype route_outcome =
    RouteDone step_status json "string option" bool
  | RouteRaised string

datatype wait_reply = WaitPending | WaitSatisfied | WaitError string | WaitRaised

datatype sandbox_probe = ProbeRaised | ProbeBlocked string | ProbeHealthy

record outside =
  ou_uuid :: "nat \<Rightarrow> string"
  ou_seconds :: "int \<Rightarrow> pyfloat"
  ou_conversions :: conversions
  ou_defaults :: budgets
  ou_short :: "string \<Rightarrow> string"
  ou_yield :: "node \<Rightarrow> node"
  ou_sleep :: "pyfloat \<Rightarrow> node \<Rightarrow> node"
  ou_backoff :: "pyfloat \<Rightarrow> int \<Rightarrow> pyfloat"
  ou_coordinator :: "string \<Rightarrow> node \<Rightarrow> coordinator_reply \<times> node"
  ou_route :: "string \<Rightarrow> decision \<Rightarrow> route_target \<Rightarrow> string \<Rightarrow> node \<Rightarrow> route_outcome \<times> node"
  ou_wait :: "string \<Rightarrow> string \<Rightarrow> string \<Rightarrow> int option \<Rightarrow> node \<Rightarrow> wait_reply \<times> node"
  ou_obligation :: "string \<Rightarrow> node \<Rightarrow> string option"
  ou_mcp_tools :: "string \<Rightarrow> node \<Rightarrow> string list"
  ou_preflight :: "node \<Rightarrow> sandbox_probe"
  ou_sandbox_failure :: "string \<Rightarrow> bool"

datatype outcome =
    OcContinued | OcCompleted | OcWaiting | OcBlocked | OcFailed | OcCancelled | OcPaused | OcStopped

definition terminal_outcomes :: "outcome list" where
  "terminal_outcomes = [OcCompleted, OcWaiting, OcBlocked, OcFailed, OcCancelled, OcPaused, OcStopped]"

datatype engine_error =
    TransitionRejected transition_error | BudgetsRaised budget_error | OutsideRaised | RunVanished

type_synonym engine_result = "node \<times> (engine_error + outcome)"

definition emit :: "outside \<Rightarrow> string \<Rightarrow> string \<Rightarrow> node \<Rightarrow> node" where
  "emit ou ty mid \<sigma> = ou_yield ou (log_event ty mid \<sigma>)"

definition new_uuid :: "outside \<Rightarrow> node \<Rightarrow> string \<times> node" where
  "new_uuid ou \<sigma> = (ou_uuid ou (nd_uuids \<sigma>), \<sigma>\<lparr>nd_uuids := Suc (nd_uuids \<sigma>)\<rparr>)"

section \<open>Transitions and control steps\<close>

definition apply_transition ::
  "string \<Rightarrow> string \<Rightarrow> mission_status \<Rightarrow> (run \<Rightarrow> run) \<Rightarrow> node \<Rightarrow> node \<times> (engine_error + unit)" where
  "apply_transition rid mid tgt f \<sigma> =
     (case (mission_get \<sigma> mid, run_get \<sigma> rid) of
        (Some m, Some r) \<Rightarrow>
          (case rbind (validate_transition (ms_status m) tgt) (\<lambda>_. validate_transition (rn_status r) tgt) of
             Inl e \<Rightarrow> (\<sigma>, Inl (TransitionRejected e))
           | Inr _ \<Rightarrow> (update_run rid (\<lambda>r. (f r)\<lparr>rn_status := tgt\<rparr>) (update_status mid tgt \<sigma>), Inr ()))
      | _ \<Rightarrow> (\<sigma>, Inr ()))"

definition persist_control_step ::
  "outside \<Rightarrow> string \<Rightarrow> string \<Rightarrow> string \<Rightarrow> step_status \<Rightarrow> step_note option \<Rightarrow> decision option \<Rightarrow> node \<Rightarrow> node" where
  "persist_control_step ou mid rid disp st reason d \<sigma> =
     (let (did, \<sigma>1) = (case d of None \<Rightarrow> new_uuid ou \<sigma> | Some d \<Rightarrow> (dc_id d, \<sigma>));
          (sid, \<sigma>2) = new_uuid ou \<sigma>1;
          \<sigma>3 = create_step \<lparr>sp_id = sid, sp_mission = mid, sp_decision_id = did, sp_decision = d, sp_target = ToControl,
                  sp_action = disp, sp_status = st, sp_result = ControlResult reason, sp_error = None,
                  sp_started = Some (nd_clock \<sigma>2), sp_completed = Some (nd_clock \<sigma>2)\<rparr> \<sigma>2
      in update_run rid (\<lambda>r. r\<lparr>rn_last_step := Some sid\<rparr>) \<sigma>3)"

text \<open>The common shape of the blocking handlers.\<close>

definition block_run ::
  "outside \<Rightarrow> string \<Rightarrow> string \<Rightarrow> step_note \<Rightarrow> decision option \<Rightarrow> string list \<Rightarrow> node \<Rightarrow> engine_result" where
  "block_run ou rid mid why d events \<sigma> =
     (case apply_transition rid mid MsBlocked (\<lambda>r. r\<lparr>rn_blocked_reason := Some why\<rparr>)
             (persist_control_step ou mid rid ''blocked'' StBlocked (Some why) d \<sigma>) of
        (\<sigma>', Inl e) \<Rightarrow> (\<sigma>', Inl e)
      | (\<sigma>', Inr _) \<Rightarrow> (fold (\<lambda>ty. emit ou ty mid) events \<sigma>', Inr OcBlocked))"

definition handle_budget_block :: "outside \<Rightarrow> string \<Rightarrow> string \<Rightarrow> block_reason \<Rightarrow> node \<Rightarrow> engine_result" where
  "handle_budget_block ou rid mid why \<sigma> =
     block_run ou rid mid (NoteBudget why) None [''mission.budget.exhausted'', ''mission.blocked''] \<sigma>"

definition handle_permanent_block :: "outside \<Rightarrow> string \<Rightarrow> string \<Rightarrow> failure_category \<Rightarrow> string \<Rightarrow> node \<Rightarrow> engine_result" where
  "handle_permanent_block ou rid mid cat err \<sigma> =
     block_run ou rid mid (NotePermanent cat (ou_short ou err)) None [''mission.blocked''] \<sigma>"

definition handle_quota_block :: "outside \<Rightarrow> string \<Rightarrow> string \<Rightarrow> string \<Rightarrow> node \<Rightarrow> engine_result" where
  "handle_quota_block ou rid mid err \<sigma> = block_run ou rid mid (NoteQuota (ou_short ou err)) None [''mission.blocked''] \<sigma>"

definition handle_coding_sandbox_block :: "outside \<Rightarrow> string \<Rightarrow> string \<Rightarrow> string \<Rightarrow> node \<Rightarrow> engine_result" where
  "handle_coding_sandbox_block ou rid mid err \<sigma> =
     block_run ou rid mid (NoteSandbox (ou_short ou err)) None [''mission.blocked''] \<sigma>"

section \<open>Failures\<close>

definition retry_backoff :: "outside \<Rightarrow> budgets \<Rightarrow> int \<Rightarrow> node \<Rightarrow> node" where
  "retry_backoff ou b failures \<sigma> =
     (if bg_backoff_initial b \<le> Fin 0 \<or> bg_backoff_max b \<le> Fin 0 then \<sigma>
      else let delay = fmin (ou_backoff ou (bg_backoff_initial b) failures) (bg_backoff_max b)
           in if Fin 0 < delay then ou_sleep ou delay \<sigma> else \<sigma>)"

definition handle_coordinator_failure ::
  "outside \<Rightarrow> string \<Rightarrow> string \<Rightarrow> budgets \<Rightarrow> failure_exc \<Rightarrow> string \<Rightarrow> node \<Rightarrow> engine_result" where
  "handle_coordinator_failure ou rid mid b exc err \<sigma> =
     (let cat = category (Some exc) err in
      case disposition_for cat of
        Permanent \<Rightarrow> handle_permanent_block ou rid mid cat err \<sigma>
      | Quota \<Rightarrow> handle_quota_block ou rid mid err \<sigma>
      | Transient \<Rightarrow>
        (case run_get \<sigma> rid of
           None \<Rightarrow> (\<sigma>, Inl RunVanished)
         | Some r \<Rightarrow>
           let failures = rn_failures r + 1;
               \<sigma>1 = persist_control_step ou mid rid ''blocked'' StFailed (Some (NoteTransient cat (ou_short ou err))) None \<sigma>;
               \<sigma>2 = update_run rid (\<lambda>x. x\<lparr>rn_coordinator_calls := rn_coordinator_calls r + 1, rn_failures := failures\<rparr>) \<sigma>1
           in if bg_failures b \<le> failures then handle_budget_block ou rid mid (FailuresReached (bg_failures b)) \<sigma>2
              else (retry_backoff ou b failures \<sigma>2, Inr OcContinued)))"

definition handle_invalid_decision ::
  "outside \<Rightarrow> string \<Rightarrow> string \<Rightarrow> budgets \<Rightarrow> decision \<Rightarrow> invalid_decision \<Rightarrow> node \<Rightarrow> engine_result" where
  "handle_invalid_decision ou rid mid b d why \<sigma> =
     (case run_get \<sigma> rid of
        None \<Rightarrow> (\<sigma>, Inl RunVanished)
      | Some r \<Rightarrow>
        let failures = rn_failures r + 1;
            \<sigma>1 = persist_control_step ou mid rid ''blocked'' StFailed (Some (NoteInvalid why)) (Some d) \<sigma>;
            \<sigma>2 = update_run rid (\<lambda>x. x\<lparr>rn_coordinator_calls := rn_coordinator_calls r + 1,
                     rn_last_decision := Some (dc_id d), rn_failures := failures\<rparr>) \<sigma>1
        in if bg_failures b \<le> failures then handle_budget_block ou rid mid (FailuresReached (bg_failures b)) \<sigma>2
           else (\<sigma>2, Inr OcContinued))"

section \<open>Pause and cancellation\<close>

definition handle_pause :: "outside \<Rightarrow> string \<Rightarrow> string \<Rightarrow> node \<Rightarrow> engine_result" where
  "handle_pause ou rid mid \<sigma> =
     (case apply_transition rid mid MsPaused (\<lambda>r. r\<lparr>rn_paused_at := Some (nd_clock \<sigma>)\<rparr>) \<sigma> of
        (\<sigma>', Inl _) \<Rightarrow> (\<sigma>', Inr OcStopped)
      | (\<sigma>', Inr _) \<Rightarrow> (emit ou ''mission.paused'' mid \<sigma>', Inr OcPaused))"

definition handle_cancel :: "outside \<Rightarrow> string \<Rightarrow> string \<Rightarrow> node \<Rightarrow> engine_result" where
  "handle_cancel ou rid mid \<sigma> =
     (let now = nd_clock \<sigma>;
          \<sigma>1 = update_run rid (\<lambda>r. r\<lparr>rn_cancel_acknowledged := Some now\<rparr>) \<sigma>;
          \<sigma>2 = persist_control_step ou mid rid ''cancelled'' StCompleted (Some NoteCancelled) None \<sigma>1
      in case apply_transition rid mid MsCancelled (\<lambda>r. r\<lparr>rn_cancelled_at := Some now\<rparr>) \<sigma>2 of
           (\<sigma>', Inl _) \<Rightarrow> (\<sigma>', Inr OcStopped)
         | (\<sigma>', Inr _) \<Rightarrow> (emit ou ''mission.cancelled'' mid \<sigma>', Inr OcCancelled))"

section \<open>Concluding dispositions\<close>

definition mcp_used :: "outside \<Rightarrow> string \<Rightarrow> string \<Rightarrow> node \<Rightarrow> bool" where
  "mcp_used ou mid rid \<sigma> \<longleftrightarrow> ou_mcp_tools ou mid \<sigma> \<noteq> []
     \<or> (case run_get \<sigma> rid of None \<Rightarrow> False | Some r \<Rightarrow> rn_mcp_actions r \<noteq> 0)"

definition mission_content :: "string \<Rightarrow> node \<Rightarrow> string" where
  "mission_content mid \<sigma> = (case mission_get \<sigma> mid of None \<Rightarrow> [] | Some m \<Rightarrow> ms_content m)"

definition handle_mcp_requirement_block ::
  "outside \<Rightarrow> string \<Rightarrow> string \<Rightarrow> tool_requirements \<Rightarrow> node \<Rightarrow> engine_result" where
  "handle_mcp_requirement_block ou rid mid req \<sigma> =
     block_run ou rid mid (NoteRequirement (tr_before_implementation req)) None
       [''mission.blocked'', ''mission.tool_accountability''] \<sigma>"

definition handle_obligation_block :: "outside \<Rightarrow> string \<Rightarrow> string \<Rightarrow> decision \<Rightarrow> string \<Rightarrow> node \<Rightarrow> engine_result" where
  "handle_obligation_block ou rid mid d obligation \<sigma> =
     (emit ou ''mission.decision.completed'' mid
        (update_run rid (\<lambda>r. r)
          (persist_control_step ou mid rid ''continue'' StBlocked (Some (NoteObligation obligation)) (Some d) \<sigma>)),
      Inr OcContinued)"

definition handle_complete :: "outside \<Rightarrow> string \<Rightarrow> string \<Rightarrow> decision \<Rightarrow> node \<Rightarrow> engine_result" where
  "handle_complete ou rid mid d \<sigma> =
     (case ou_obligation ou mid \<sigma> of
        Some obligation \<Rightarrow> handle_obligation_block ou rid mid d obligation \<sigma>
      | None \<Rightarrow>
        let req = parse_tool_requirements (mission_content mid \<sigma>);
            final = map_option (ou_short ou) (mc_final (dc_control d))
        in if tr_mcp_required req \<and> \<not> mcp_used ou mid rid \<sigma> then handle_mcp_requirement_block ou rid mid req \<sigma>
           else (case apply_transition rid mid MsCompleted
                    (\<lambda>r. r\<lparr>rn_final_response := final, rn_failures := 0, rn_completed_at := Some (nd_clock \<sigma>)\<rparr>)
                    (persist_control_step ou mid rid ''complete'' StCompleted
                       (map_option NoteText (mc_reason (dc_control d))) (Some d) \<sigma>) of
                   (\<sigma>', Inl e) \<Rightarrow> (\<sigma>', Inl e)
                 | (\<sigma>', Inr _) \<Rightarrow> (emit ou ''mission.tool_accountability'' mid (emit ou ''mission.completed'' mid \<sigma>'), Inr OcCompleted)))"

text \<open>The short-circuit outcome of a peer-reply wait, or \<open>None\<close> to go on to WAITING.\<close>

definition handle_peer_reply_wait ::
  "outside \<Rightarrow> string \<Rightarrow> string \<Rightarrow> decision \<Rightarrow> wait_condition \<Rightarrow> node \<Rightarrow> node \<times> (engine_error + outcome) option" where
  "handle_peer_reply_wait ou rid mid d wc \<sigma> =
     (let invalid = (\<lambda>why \<sigma>. case run_get \<sigma> rid of
             None \<Rightarrow> (\<sigma>, Some (Inl RunVanished))
           | Some r \<Rightarrow> (case resolve_budgets (ou_conversions ou) (ou_defaults ou) (rn_budgets r) of
               Inl e \<Rightarrow> (\<sigma>, Some (Inl (BudgetsRaised e)))
             | Inr b \<Rightarrow> (let (\<sigma>', res) = handle_invalid_decision ou rid mid b d why \<sigma> in (\<sigma>', Some res))))
      in if \<not> truthy (wc_message wc) then invalid NoWaitMessage \<sigma>
         else (case ou_wait ou mid rid (or_empty (wc_message wc)) (wc_deadline wc) \<sigma> of
                 (WaitRaised, \<sigma>') \<Rightarrow> (\<sigma>', Some (Inl OutsideRaised))
               | (WaitError msg, \<sigma>') \<Rightarrow> invalid (WaitRejected msg) \<sigma>'
               | (WaitSatisfied, \<sigma>') \<Rightarrow>
                   (persist_control_step ou mid rid ''continue'' StCompleted (Some NoteReplyPresent) (Some d) \<sigma>',
                    Some (Inr OcContinued))
               | (WaitPending, \<sigma>') \<Rightarrow> (\<sigma>', None)))"

definition enter_waiting :: "outside \<Rightarrow> string \<Rightarrow> string \<Rightarrow> decision \<Rightarrow> node \<Rightarrow> engine_result" where
  "enter_waiting ou rid mid d \<sigma> =
     (let w = mc_waiting (dc_control d) in
      case apply_transition rid mid MsWaiting (\<lambda>r. r\<lparr>rn_waiting := w, rn_waiting_at := Some (nd_clock \<sigma>)\<rparr>)
             (persist_control_step ou mid rid ''wait'' StCompleted (map_option (\<lambda>w. NoteText (mw_reason w)) w) (Some d) \<sigma>) of
        (\<sigma>', Inl e) \<Rightarrow> (\<sigma>', Inl e)
      | (\<sigma>', Inr _) \<Rightarrow> (emit ou ''mission.waiting'' mid \<sigma>', Inr OcWaiting))"

definition handle_wait :: "outside \<Rightarrow> string \<Rightarrow> string \<Rightarrow> decision \<Rightarrow> node \<Rightarrow> engine_result" where
  "handle_wait ou rid mid d \<sigma> =
     (case Option.bind (mc_waiting (dc_control d)) mw_condition of
        Some wc \<Rightarrow> if wc_type wc = Some ''peer_reply''
          then (case handle_peer_reply_wait ou rid mid d wc \<sigma> of
                  (\<sigma>', Some res) \<Rightarrow> (\<sigma>', res)
                | (\<sigma>', None) \<Rightarrow> enter_waiting ou rid mid d \<sigma>')
          else enter_waiting ou rid mid d \<sigma>
      | None \<Rightarrow> enter_waiting ou rid mid d \<sigma>)"

definition handle_blocked :: "outside \<Rightarrow> string \<Rightarrow> string \<Rightarrow> decision \<Rightarrow> node \<Rightarrow> engine_result" where
  "handle_blocked ou rid mid d \<sigma> =
     (let reason = (case mc_blocked (dc_control d) of
            Some bl \<Rightarrow> mb_reason bl
          | None \<Rightarrow> (if truthy (mc_reason (dc_control d)) then or_empty (mc_reason (dc_control d)) else ''blocked''))
      in block_run ou rid mid (NoteText (ou_short ou reason)) (Some d) [''mission.blocked''] \<sigma>)"

section \<open>Executing one route\<close>

definition after_route :: "string \<Rightarrow> route_target \<Rightarrow> string \<Rightarrow> bool \<Rightarrow> bool \<Rightarrow> node \<Rightarrow> node" where
  "after_route rid rt sid succeeded consume \<sigma> =
     (case run_get \<sigma> rid of
        None \<Rightarrow> \<sigma>
      | Some r \<Rightarrow>
        if \<not> consume then update_run rid (\<lambda>x. x\<lparr>rn_last_step := Some sid, rn_last_route := Some rt\<rparr>) \<sigma>
        else update_run rid (\<lambda>x. (count_route rt x)\<lparr>rn_last_step := Some sid, rn_last_route := Some rt,
               rn_failures := (if succeeded then 0 else rn_failures r + 1)\<rparr>) \<sigma>)"

definition sandbox_preflight_block :: "outside \<Rightarrow> string \<Rightarrow> node \<Rightarrow> node \<times> string option" where
  "sandbox_preflight_block ou rid \<sigma> =
     (if rid \<in> set (nd_sandbox_ok \<sigma>) then (\<sigma>, None)
      else case ou_preflight ou \<sigma> of
             ProbeBlocked detail \<Rightarrow> (\<sigma>, Some detail)
           | _ \<Rightarrow> (\<sigma>\<lparr>nd_sandbox_ok := rid # nd_sandbox_ok \<sigma>\<rparr>, None))"

definition execute_route :: "outside \<Rightarrow> string \<Rightarrow> string \<Rightarrow> decision \<Rightarrow> route_target \<Rightarrow> node \<Rightarrow> engine_result" where
  "execute_route ou rid mid d rt \<sigma> =
     (let (sid, \<sigma>1) = new_uuid ou \<sigma>;
          \<sigma>2 = create_step \<lparr>sp_id = sid, sp_mission = mid, sp_decision_id = dc_id d, sp_decision = Some d,
                  sp_target = ToRoute rt, sp_action = dc_action d, sp_status = StRunning, sp_result = NoResult,
                  sp_error = None, sp_started = Some (nd_clock \<sigma>), sp_completed = None\<rparr> \<sigma>1
      in case ou_route ou mid d rt sid (emit ou ''mission.action.started'' mid \<sigma>2) of
           (RouteRaised err, \<sigma>3) \<Rightarrow>
             (emit ou ''mission.action.failed'' mid
                (after_route rid rt sid False True
                  (update_step sid (Some StFailed) None (Some (ou_short ou err)) (Some (nd_clock \<sigma>3)) \<sigma>3)), Inr OcContinued)
         | (RouteDone st res err schema_rejected, \<sigma>3) \<Rightarrow>
             let succeeded = (st = StCompleted);
                 \<sigma>4 = after_route rid rt sid succeeded (\<not> schema_rejected)
                        (update_step sid (Some st) (Some (RouteResult res)) (map_option (ou_short ou) err) (Some (nd_clock \<sigma>3)) \<sigma>3);
                 \<sigma>5 = emit ou (if succeeded then ''mission.action.completed'' else ''mission.action.failed'') mid \<sigma>4
             in if \<not> succeeded \<and> rt = RtCodingAgent \<and> truthy err \<and> ou_sandbox_failure ou (or_empty err)
                then handle_coding_sandbox_block ou rid mid (or_empty err) \<sigma>5
                else (\<sigma>5, Inr OcContinued))"

definition handle_continue :: "outside \<Rightarrow> string \<Rightarrow> string \<Rightarrow> budgets \<Rightarrow> decision \<Rightarrow> node \<Rightarrow> engine_result" where
  "handle_continue ou rid mid b d \<sigma> =
     (let rt = normalize_target (dc_target d) in
      case run_get \<sigma> rid of
        None \<Rightarrow> (\<sigma>, Inl RunVanished)
      | Some r \<Rightarrow>
        (case route_block r b rt of
           Some why \<Rightarrow> handle_budget_block ou rid mid why \<sigma>
         | None \<Rightarrow>
           (case (if rt = RtMcp then fallback_budget_block r b RtMcp min_flowgraph_mcp_actions else None) of
              Some why \<Rightarrow> handle_budget_block ou rid mid why \<sigma>
            | None \<Rightarrow>
              if rt = RtCodingAgent
              then (case sandbox_preflight_block ou rid \<sigma> of
                      (\<sigma>', Some detail) \<Rightarrow> handle_coding_sandbox_block ou rid mid detail \<sigma>'
                    | (\<sigma>', None) \<Rightarrow> execute_route ou rid mid d rt \<sigma>')
              else execute_route ou rid mid d rt \<sigma>)))"

section \<open>The iteration\<close>

definition elapsed_since :: "outside \<Rightarrow> int option \<Rightarrow> int \<Rightarrow> pyfloat" where
  "elapsed_since ou started now =
     (case started of None \<Rightarrow> Fin 0 | Some t \<Rightarrow> fmax (Fin 0) (ou_seconds ou (now - t)))"

definition dispatch :: "outside \<Rightarrow> string \<Rightarrow> string \<Rightarrow> budgets \<Rightarrow> decision \<Rightarrow> node \<Rightarrow> engine_result" where
  "dispatch ou rid mid b d \<sigma> =
     (case mc_disposition (dc_control d) of
        CdComplete \<Rightarrow> handle_complete ou rid mid d \<sigma>
      | CdWait \<Rightarrow> handle_wait ou rid mid d \<sigma>
      | CdBlocked \<Rightarrow> handle_blocked ou rid mid d \<sigma>
      | CdContinue \<Rightarrow> handle_continue ou rid mid b d \<sigma>)"

definition decide :: "outside \<Rightarrow> string \<Rightarrow> string \<Rightarrow> budgets \<Rightarrow> run \<Rightarrow> node \<Rightarrow> engine_result" where
  "decide ou rid mid b r \<sigma> =
     (case ou_coordinator ou mid \<sigma> of
        (CoordinatorRaised, \<sigma>1) \<Rightarrow> (\<sigma>1, Inl OutsideRaised)
      | (CoordinatorFailed exc err, \<sigma>1) \<Rightarrow> handle_coordinator_failure ou rid mid b exc err \<sigma>1
      | (Decided d, \<sigma>1) \<Rightarrow>
        let \<sigma>2 = update_run rid (\<lambda>x. x\<lparr>rn_coordinator_calls := rn_coordinator_calls r + 1,
                    rn_last_decision := Some (dc_id d)\<rparr>) \<sigma>1
        in case validate_mission_control d of
             Some why \<Rightarrow> handle_invalid_decision ou rid mid b d (BadControl why) \<sigma>2
           | None \<Rightarrow> dispatch ou rid mid b d (emit ou ''mission.decision.completed'' mid \<sigma>2))"

definition start_iteration :: "outside \<Rightarrow> string \<Rightarrow> run \<Rightarrow> node \<Rightarrow> node" where
  "start_iteration ou rid r \<sigma> =
     emit ou ''mission.iteration.started'' (rn_mission r)
       (update_run rid (\<lambda>x. x\<lparr>rn_iterations := rn_iterations r + 1,
          rn_elapsed := elapsed_since ou (rn_started_at r) (nd_clock \<sigma>)\<rparr>) \<sigma>)"

definition run_iteration :: "outside \<Rightarrow> string \<Rightarrow> node \<Rightarrow> engine_result" where
  "run_iteration ou rid \<sigma> =
     (case run_get \<sigma> rid of
        None \<Rightarrow> (\<sigma>, Inr OcStopped)
      | Some r \<Rightarrow>
        let mid = rn_mission r in
        if rn_status r \<noteq> MsActive then (\<sigma>, Inr OcStopped)
        else if rn_cancel_requested r \<noteq> None \<and> rn_cancel_acknowledged r = None then handle_cancel ou rid mid \<sigma>
        else if rn_pause_requested r then handle_pause ou rid mid \<sigma>
        else case resolve_budgets (ou_conversions ou) (ou_defaults ou) (rn_budgets r) of
          Inl e \<Rightarrow> (\<sigma>, Inl (BudgetsRaised e))
        | Inr b \<Rightarrow>
          (case iteration_block r b of
             Some why \<Rightarrow> handle_budget_block ou rid mid why \<sigma>
           | None \<Rightarrow>
             let \<sigma>1 = start_iteration ou rid r \<sigma> in
             case (mission_get \<sigma>1 mid, run_get \<sigma>1 rid) of
               (None, _) \<Rightarrow> (\<sigma>1, Inr OcStopped)
             | (Some _, None) \<Rightarrow> (\<sigma>1, Inl RunVanished)
             | (Some _, Some r1) \<Rightarrow> decide ou rid mid b r1 \<sigma>1))"

end
