(* ===== verification/MissionSafety.thy ===== *)
theory MissionSafety
  imports MissionEngine
begin

text \<open>
  What an iteration may do to the execution runs. The usage of a run is what budgets count; the
  other tasks of the node may change anything but the usage of a run and a terminal status. An
  iteration spends usage of its own run only, never beyond the limits it checked, and never
  reopens a terminal run.
\<close>

section \<open>Usage and the relation on nodes\<close>

record usage =
  us_iterations :: int
  us_calls :: int
  us_actions :: "route_target \<Rightarrow> int"
  us_failures :: int
  us_budgets :: "(string \<times> json) list"
  us_mission :: string

definition usage_of :: "run \<Rightarrow> usage" where
  "usage_of r = \<lparr>us_iterations = rn_iterations r, us_calls = rn_coordinator_calls r,
     us_actions = (\<lambda>rt. route_used rt r), us_failures = rn_failures r, us_budgets = rn_budgets r,
     us_mission = rn_mission r\<rparr>"

definition mono_status :: "run \<Rightarrow> run \<Rightarrow> bool" where
  "mono_status r r' \<longleftrightarrow> (is_terminal (rn_status r) \<longrightarrow> rn_status r' = rn_status r)"

text \<open>A run that appears comes with nothing used yet.\<close>

definition unused :: "usage \<Rightarrow> bool" where
  "unused u \<longleftrightarrow> us_iterations u = 0 \<and> us_calls u = 0 \<and> us_failures u = 0 \<and> (\<forall>rt. us_actions u rt = 0)"

definition new_unused :: "(string \<Rightarrow> bool) \<Rightarrow> node \<Rightarrow> node \<Rightarrow> bool" where
  "new_unused P \<sigma> \<sigma>' \<longleftrightarrow> (\<forall>i r'. P i \<longrightarrow> run_get \<sigma>' i = Some r' \<longrightarrow> run_get \<sigma> i = None \<longrightarrow> unused (usage_of r'))"

definition spends :: "string \<Rightarrow> (usage \<Rightarrow> usage \<Rightarrow> bool) \<Rightarrow> node \<Rightarrow> node \<Rightarrow> bool" where
  "spends rid G \<sigma> \<sigma>' \<longleftrightarrow>
     (\<forall>i r. run_get \<sigma> i = Some r \<longrightarrow>
        (\<exists>r'. run_get \<sigma>' i = Some r' \<and> mono_status r r'
           \<and> (if i = rid then G (usage_of r) (usage_of r') else usage_of r' = usage_of r)))
     \<and> new_unused (\<lambda>i. i \<noteq> rid) \<sigma> \<sigma>'"

text \<open>What the other tasks may do, and every step of the engine that spends nothing.\<close>

definition keeps :: "node \<Rightarrow> node \<Rightarrow> bool" where
  "keeps \<sigma> \<sigma>' \<longleftrightarrow>
     (\<forall>i r. run_get \<sigma> i = Some r \<longrightarrow>
        (\<exists>r'. run_get \<sigma>' i = Some r' \<and> mono_status r r' \<and> usage_of r' = usage_of r))
     \<and> new_unused (\<lambda>_. True) \<sigma> \<sigma>'"

lemma spendsI:
  assumes "\<And>i r. run_get \<sigma> i = Some r \<Longrightarrow> \<exists>r'. run_get \<sigma>' i = Some r' \<and> mono_status r r'
      \<and> (if i = rid then G (usage_of r) (usage_of r') else usage_of r' = usage_of r)"
    and "\<And>i r'. i \<noteq> rid \<Longrightarrow> run_get \<sigma> i = None \<Longrightarrow> run_get \<sigma>' i = Some r' \<Longrightarrow> unused (usage_of r')"
  shows "spends rid G \<sigma> \<sigma>'"
  using assms by (auto simp: spends_def new_unused_def)

lemma spendsD:
  assumes "spends rid G \<sigma> \<sigma>'"
  shows "run_get \<sigma> i = Some r \<Longrightarrow> \<exists>r'. run_get \<sigma>' i = Some r' \<and> mono_status r r'
      \<and> (if i = rid then G (usage_of r) (usage_of r') else usage_of r' = usage_of r)"
    and "i \<noteq> rid \<Longrightarrow> run_get \<sigma> i = None \<Longrightarrow> run_get \<sigma>' i = Some r' \<Longrightarrow> unused (usage_of r')"
  using assms by (auto simp: spends_def new_unused_def)

lemma keepsI:
  assumes "\<And>i r. run_get \<sigma> i = Some r \<Longrightarrow> \<exists>r'. run_get \<sigma>' i = Some r' \<and> mono_status r r' \<and> usage_of r' = usage_of r"
    and "\<And>i r'. run_get \<sigma> i = None \<Longrightarrow> run_get \<sigma>' i = Some r' \<Longrightarrow> unused (usage_of r')"
  shows "keeps \<sigma> \<sigma>'"
  using assms by (auto simp: keeps_def new_unused_def)

lemma keepsD:
  assumes "keeps \<sigma> \<sigma>'"
  shows "run_get \<sigma> i = Some r \<Longrightarrow> \<exists>r'. run_get \<sigma>' i = Some r' \<and> mono_status r r' \<and> usage_of r' = usage_of r"
    and "run_get \<sigma> i = None \<Longrightarrow> run_get \<sigma>' i = Some r' \<Longrightarrow> unused (usage_of r')"
  using assms by (auto simp: keeps_def new_unused_def)

lemma mono_trans: "mono_status a b \<Longrightarrow> mono_status b c \<Longrightarrow> mono_status a c"
  by (simp add: mono_status_def)

text \<open>Both relations as one: a relation per run identifier.\<close>

definition evolves :: "(string \<Rightarrow> usage \<Rightarrow> usage \<Rightarrow> bool) \<Rightarrow> (string \<Rightarrow> bool) \<Rightarrow> node \<Rightarrow> node \<Rightarrow> bool" where
  "evolves R P \<sigma> \<sigma>' \<longleftrightarrow>
     (\<forall>i r. run_get \<sigma> i = Some r \<longrightarrow> (\<exists>r'. run_get \<sigma>' i = Some r' \<and> mono_status r r' \<and> R i (usage_of r) (usage_of r')))
     \<and> new_unused P \<sigma> \<sigma>'"

lemma spends_evolves: "spends rid G = evolves (\<lambda>i u v. if i = rid then G u v else v = u) (\<lambda>i. i \<noteq> rid)"
  by (intro ext) (auto simp: spends_def evolves_def)

lemma keeps_evolves: "keeps = evolves (\<lambda>i u v. v = u) (\<lambda>_. True)"
  by (intro ext) (auto simp: keeps_def evolves_def)

lemma evolves_comp:
  assumes "evolves R P a b" "evolves S Q b c"
    and "\<And>i u v w. R i u v \<Longrightarrow> S i v w \<Longrightarrow> T i u w" "\<And>i v w. U i \<Longrightarrow> S i v w \<Longrightarrow> v = w \<and> P i" "\<And>i. U i \<Longrightarrow> P i \<and> Q i"
  shows "evolves T U a c"
  unfolding evolves_def new_unused_def
proof (intro conjI allI impI)
  fix i r assume "run_get a i = Some r"
  then obtain r1 where 1: "run_get b i = Some r1" "mono_status r r1" "R i (usage_of r) (usage_of r1)"
    using assms(1) unfolding evolves_def by blast
  then obtain r2 where "run_get c i = Some r2" "mono_status r1 r2" "S i (usage_of r1) (usage_of r2)"
    using assms(2) unfolding evolves_def by blast
  with 1 assms(3) mono_trans show "\<exists>r'. run_get c i = Some r' \<and> mono_status r r' \<and> T i (usage_of r) (usage_of r')" by blast
next
  fix i r' assume i: "U i" "run_get c i = Some r'" "run_get a i = None"
  show "unused (usage_of r')"
  proof (cases "run_get b i")
    case None
    then show ?thesis using assms(2,5) i unfolding evolves_def new_unused_def by blast
  next
    case (Some q)
    then obtain x where "run_get c i = Some x" "S i (usage_of q) (usage_of x)"
      using assms(2) unfolding evolves_def by blast
    then have "usage_of r' = usage_of q" using i assms(4) by fastforce
    moreover have "unused (usage_of q)" using assms(1,5) i Some unfolding evolves_def new_unused_def by blast
    ultimately show ?thesis by simp
  qed
qed

definition outside_ok :: "outside \<Rightarrow> bool" where
  "outside_ok ou \<longleftrightarrow>
     (\<forall>\<sigma>. keeps \<sigma> (ou_yield ou \<sigma>)) \<and> (\<forall>x \<sigma>. keeps \<sigma> (ou_sleep ou x \<sigma>))
     \<and> (\<forall>m \<sigma>. keeps \<sigma> (snd (ou_coordinator ou m \<sigma>)))
     \<and> (\<forall>m d t s \<sigma>. keeps \<sigma> (snd (ou_route ou m d t s \<sigma>)))
     \<and> (\<forall>m i w t \<sigma>. keeps \<sigma> (snd (ou_wait ou m i w t \<sigma>)))"

lemma outside_okD:
  assumes "outside_ok ou"
  shows "keeps \<sigma> (ou_yield ou \<sigma>)" "keeps \<sigma> (ou_sleep ou x \<sigma>)" "keeps \<sigma> (snd (ou_coordinator ou m \<sigma>))"
    "keeps \<sigma> (snd (ou_route ou m d t s \<sigma>))" "keeps \<sigma> (snd (ou_wait ou m i w dl \<sigma>))"
  using assms by (auto simp: outside_ok_def)

lemma keeps_runs: "nd_runs \<sigma>' = nd_runs \<sigma> \<Longrightarrow> keeps \<sigma> \<sigma>'"
  by (auto simp: keeps_def new_unused_def mono_status_def)

lemma keeps_refl [simp, intro]: "keeps \<sigma> \<sigma>"
  by (rule keeps_runs) simp

lemma keeps_trans:
  assumes "keeps a b" "keeps b c"
  shows "keeps a c"
  using assms unfolding keeps_evolves by (rule evolves_comp) auto

lemma keeps_get: "keeps \<sigma> \<sigma>' \<Longrightarrow> run_get \<sigma> i = Some r \<Longrightarrow>
  \<exists>r'. run_get \<sigma>' i = Some r' \<and> mono_status r r' \<and> usage_of r' = usage_of r"
  by (rule keepsD)

lemma spends_same: "keeps \<sigma> \<sigma>' \<Longrightarrow> (\<And>u. G u u) \<Longrightarrow> spends rid G \<sigma> \<sigma>'"
  by (rule spendsI) (metis keepsD(1), metis keepsD(2))

lemma spends_after:
  assumes "keeps a b" "spends rid G b c"
  shows "spends rid G a c"
  using assms unfolding keeps_evolves spends_evolves by (rule evolves_comp) (auto split: if_splits)

lemma spends_before:
  assumes "spends rid G a b" "keeps b c"
  shows "spends rid G a c"
  using assms unfolding keeps_evolves spends_evolves by (rule evolves_comp) (auto split: if_splits)

lemma spends_comp:
  assumes "spends rid G a b" "spends rid H b c" "\<And>u v w. G u v \<Longrightarrow> H v w \<Longrightarrow> K u w"
  shows "spends rid K a c"
  using assms(1,2) unfolding spends_evolves by (rule evolves_comp) (auto split: if_splits intro: assms(3))

lemma spends_weaken: "spends rid G a b \<Longrightarrow> (\<And>u v. G u v \<Longrightarrow> H u v) \<Longrightarrow> spends rid H a b"
  unfolding spends_def by metis

lemma spends_keeps:
  assumes "spends rid (\<lambda>u v. v = u) \<sigma> \<sigma>'" "run_get \<sigma> rid \<noteq> None"
  shows "keeps \<sigma> \<sigma>'"
proof (rule keepsI)
  fix i r assume "run_get \<sigma> i = Some r"
  from spendsD(1) [OF assms(1) this] show "\<exists>r'. run_get \<sigma>' i = Some r' \<and> mono_status r r' \<and> usage_of r' = usage_of r"
    by (metis (full_types))
next
  fix i r' assume "run_get \<sigma> i = None" "run_get \<sigma>' i = Some r'"
  then show "unused (usage_of r')" using spendsD(2) [OF assms(1)] assms(2) by metis
qed

section \<open>Primitive steps\<close>

lemma touch_fields [simp]:
  "rn_id (touch t r) = rn_id r" "rn_status (touch t r) = rn_status r" "usage_of (touch t r) = usage_of r"
  "rn_cancel_requested (touch t r) = rn_cancel_requested r" "rn_cancel_acknowledged (touch t r) = rn_cancel_acknowledged r"
proof -
  have "route_used rt (touch t r) = route_used rt r" for rt by (cases rt) (simp_all add: touch_def)
  then show "usage_of (touch t r) = usage_of r" by (simp add: usage_of_def) (simp add: touch_def)
qed (simp_all add: touch_def)

lemma get_update_run:
  "(\<And>r. rn_id (f r) = rn_id r) \<Longrightarrow> run_get (update_run rid f \<sigma>) i =
   (if i = rid then map_option (\<lambda>r. touch (nd_clock \<sigma>) (f r)) (run_get \<sigma> i) else run_get \<sigma> i)"
  by (simp add: update_run_def runs.get_upd keeps_run_def)

lemma spends_update:
  assumes "\<And>r. rn_id (f r) = rn_id r" "\<And>r. run_get \<sigma> rid = Some r \<Longrightarrow> mono_status r (f r)"
    and "\<And>r. run_get \<sigma> rid = Some r \<Longrightarrow> G (usage_of r) (usage_of (f r))"
  shows "spends rid G \<sigma> (update_run rid f \<sigma>)"
  by (rule spendsI; unfold get_update_run [of f, OF assms(1)])
     (use assms(2,3) in \<open>auto simp: mono_status_def\<close>)

lemma keeps_update:
  assumes "\<And>r. rn_id (f r) = rn_id r" "\<And>r. rn_status (f r) = rn_status r" "\<And>r. usage_of (f r) = usage_of r"
  shows "keeps \<sigma> (update_run rid f \<sigma>)"
  by (rule keepsI; unfold get_update_run [of f, OF assms(1)])
     (use assms(2,3) in \<open>auto simp: mono_status_def split: if_splits\<close>)

lemma usage_of_simps [simp]:
  "us_iterations (usage_of r) = rn_iterations r" "us_calls (usage_of r) = rn_coordinator_calls r"
  "us_actions (usage_of r) rt = route_used rt r" "us_failures (usage_of r) = rn_failures r"
  "us_budgets (usage_of r) = rn_budgets r" "us_mission (usage_of r) = rn_mission r"
  by (simp_all add: usage_of_def)

lemma usage_eqI:
  "rn_iterations r = rn_iterations q \<Longrightarrow> rn_coordinator_calls r = rn_coordinator_calls q \<Longrightarrow>
   (\<And>rt. route_used rt r = route_used rt q) \<Longrightarrow> rn_failures r = rn_failures q \<Longrightarrow>
   rn_budgets r = rn_budgets q \<Longrightarrow> rn_mission r = rn_mission q \<Longrightarrow> usage_of r = usage_of q"
  by (simp add: usage_of_def)

lemma route_used_cong:
  "rn_node_state_actions r = rn_node_state_actions q \<Longrightarrow> rn_coding_actions r = rn_coding_actions q \<Longrightarrow>
   rn_mcp_actions r = rn_mcp_actions q \<Longrightarrow> rn_response_actions r = rn_response_actions q \<Longrightarrow>
   rn_rf_device_actions r = rn_rf_device_actions q \<Longrightarrow> route_used rt r = route_used rt q"
  by (cases rt) simp_all

lemmas usage_same = usage_eqI [OF _ _ route_used_cong]

lemma keeps_emit: "outside_ok ou \<Longrightarrow> keeps \<sigma> (emit ou ty mid \<sigma>)"
  unfolding emit_def by (rule keeps_trans [OF keeps_runs outside_okD(1)]) (simp_all add: log_event_def)

lemma keeps_emits: "outside_ok ou \<Longrightarrow> keeps \<sigma> (fold (\<lambda>ty. emit ou ty mid) tys \<sigma>)"
  by (induction tys arbitrary: \<sigma>) (auto intro: keeps_trans keeps_emit)

lemma keeps_control_step: "keeps \<sigma> (persist_control_step ou mid rid disp st why d \<sigma>)"
  unfolding persist_control_step_def Let_def case_prod_unfold
  by (rule keeps_trans [OF keeps_runs keeps_update])
     (auto simp: create_step_def new_uuid_def split: option.split intro: usage_same)

lemma keeps_update_step: "keeps \<sigma> (update_step sid a b c d \<sigma>)"
  by (rule keeps_runs) (simp add: update_step_def)

lemma keeps_create_step: "keeps \<sigma> (create_step sp \<sigma>)"
  by (rule keeps_runs) (simp add: create_step_def)

text \<open>A transition spends what its field update spends, and keeps terminal states.\<close>

lemma transition_spends:
  assumes "\<And>r. rn_id (f r) = rn_id r" "\<And>u. G u u"
    and "\<And>r. run_get \<sigma> rid = Some r \<Longrightarrow> G (usage_of r) (usage_of ((f r)\<lparr>rn_status := tgt\<rparr>))"
  shows "spends rid G \<sigma> (fst (apply_transition rid mid tgt f \<sigma>))"
proof (cases "mission_get \<sigma> mid")
  case None
  then show ?thesis using assms(2) by (auto simp: apply_transition_def intro: spends_same)
next
  case (Some m)
  show ?thesis
  proof (cases "run_get \<sigma> rid")
    case None
    then show ?thesis using assms(2) Some by (auto simp: apply_transition_def intro: spends_same)
  next
    case (Some r)
    show ?thesis
    proof (cases "can_transition (ms_status m) tgt \<and> can_transition (rn_status r) tgt")
      case True
      have "spends rid G (update_status mid tgt \<sigma>) (update_run rid (\<lambda>r. (f r)\<lparr>rn_status := tgt\<rparr>) (update_status mid tgt \<sigma>))"
        by (rule spends_update)
           (use assms(1,3) Some True terminal_no_targets in \<open>auto simp: update_status_def mono_status_def\<close>)
      then have "spends rid G \<sigma> (update_run rid (\<lambda>r. (f r)\<lparr>rn_status := tgt\<rparr>) (update_status mid tgt \<sigma>))"
        by (rule spends_after [rotated]) (rule keeps_runs, simp add: update_status_def)
      then show ?thesis using True \<open>mission_get \<sigma> mid = Some m\<close> Some
        by (auto simp: apply_transition_def validate_transition_def guard_err_def)
    next
      case False
      then have "fst (apply_transition rid mid tgt f \<sigma>) = \<sigma>"
        using \<open>mission_get \<sigma> mid = Some m\<close> Some
        by (auto simp: apply_transition_def validate_transition_def guard_err_def)
      then show ?thesis using assms(2) by (auto intro: spends_same)
    qed
  qed
qed

lemma transition_keeps:
  assumes "\<And>r. rn_id (f r) = rn_id r" "\<And>r. usage_of ((f r)\<lparr>rn_status := tgt\<rparr>) = usage_of r"
  shows "keeps \<sigma> (fst (apply_transition rid mid tgt f \<sigma>))"
proof (cases "run_get \<sigma> rid")
  case None
  then show ?thesis by (simp add: apply_transition_def split: option.split)
next
  case (Some r)
  show ?thesis
    by (rule spends_keeps [of rid]) (rule transition_spends, use assms Some in auto)
qed

section \<open>Handlers\<close>

lemma keeps_chain: "keeps \<sigma> b \<Longrightarrow> keeps b c \<Longrightarrow> c = d \<Longrightarrow> keeps \<sigma> d"
  using keeps_trans by blast

lemma keeps_block_run:
  assumes "outside_ok ou"
  shows "keeps \<sigma> (fst (block_run ou rid mid why d evs \<sigma>))"
proof -
  let ?t = "apply_transition rid mid MsBlocked (\<lambda>r. r\<lparr>rn_blocked_reason := Some why\<rparr>)
    (persist_control_step ou mid rid ''blocked'' StBlocked (Some why) d \<sigma>)"
  have "keeps \<sigma> (fst ?t)"
    by (rule keeps_trans [OF keeps_control_step transition_keeps]) (auto intro: usage_same)
  then show ?thesis unfolding block_run_def
    by (cases ?t) (auto split: sum.split intro: keeps_trans [OF _ keeps_emits [OF assms]])
qed

lemma keeps_blocks:
  assumes "outside_ok ou"
  shows "keeps \<sigma> (fst (handle_budget_block ou rid mid why \<sigma>))" "keeps \<sigma> (fst (handle_permanent_block ou rid mid cat err \<sigma>))"
    "keeps \<sigma> (fst (handle_quota_block ou rid mid err \<sigma>))" "keeps \<sigma> (fst (handle_coding_sandbox_block ou rid mid err \<sigma>))"
    "keeps \<sigma> (fst (handle_blocked ou rid mid d \<sigma>))" "keeps \<sigma> (fst (handle_mcp_requirement_block ou rid mid req \<sigma>))"
  by (simp_all add: handle_budget_block_def handle_permanent_block_def handle_quota_block_def
      handle_coding_sandbox_block_def handle_blocked_def handle_mcp_requirement_block_def Let_def keeps_block_run [OF assms])

lemma keeps_backoff: "outside_ok ou \<Longrightarrow> keeps \<sigma> (retry_backoff ou b n \<sigma>)"
  by (auto simp: retry_backoff_def Let_def dest: outside_okD(2))

lemma keeps_pause: "outside_ok ou \<Longrightarrow> keeps \<sigma> (fst (handle_pause ou rid mid \<sigma>))"
proof -
  assume ok: "outside_ok ou"
  let ?t = "apply_transition rid mid MsPaused (\<lambda>r. r\<lparr>rn_paused_at := Some (nd_clock \<sigma>)\<rparr>) \<sigma>"
  have "keeps \<sigma> (fst ?t)" by (rule transition_keeps) (auto intro: usage_same)
  then show ?thesis unfolding handle_pause_def
    by (cases ?t) (auto split: sum.split intro: keeps_trans [OF _ keeps_emit [OF ok]])
qed

lemma keeps_cancel: "outside_ok ou \<Longrightarrow> keeps \<sigma> (fst (handle_cancel ou rid mid \<sigma>))"
proof -
  assume ok: "outside_ok ou"
  let ?\<sigma>1 = "update_run rid (\<lambda>r. r\<lparr>rn_cancel_acknowledged := Some (nd_clock \<sigma>)\<rparr>) \<sigma>"
  let ?t = "apply_transition rid mid MsCancelled (\<lambda>r. r\<lparr>rn_cancelled_at := Some (nd_clock \<sigma>)\<rparr>)
    (persist_control_step ou mid rid ''cancelled'' StCompleted (Some NoteCancelled) None ?\<sigma>1)"
  have "keeps \<sigma> ?\<sigma>1" by (rule keeps_update) (auto intro: usage_same)
  moreover have "keeps ?\<sigma>1 (fst ?t)"
    by (rule keeps_trans [OF keeps_control_step transition_keeps]) (auto intro: usage_same)
  ultimately have "keeps \<sigma> (fst ?t)" by (rule keeps_trans)
  then show ?thesis unfolding handle_cancel_def Let_def
    by (cases ?t) (auto split: sum.split intro: keeps_trans [OF _ keeps_emit [OF ok]])
qed

text \<open>What a failed call adds, and what one executed route adds.\<close>

definition fails :: "usage \<Rightarrow> usage \<Rightarrow> bool" where
  "fails u v \<longleftrightarrow> v = u \<or> v = u\<lparr>us_calls := us_calls u + 1, us_failures := us_failures u + 1\<rparr>"

definition acts_once :: "route_target \<Rightarrow> usage \<Rightarrow> usage \<Rightarrow> bool" where
  "acts_once rt u v \<longleftrightarrow> v = u
     \<or> (\<exists>f. (f = 0 \<or> f = us_failures u + 1)
          \<and> v = u\<lparr>us_actions := (us_actions u)(rt := us_actions u rt + (if \<exists>b. route_limit rt b \<noteq> None then 1 else 0)), us_failures := f\<rparr>)"

lemma failure_update:
  assumes "run_get \<sigma> rid = Some r" "keeps \<sigma> \<sigma>1"
    and "\<And>x. rn_id (f x) = rn_id x" "\<And>x. rn_status (f x) = rn_status x"
    and "\<And>x. usage_of (f x) = (usage_of x)\<lparr>us_calls := rn_coordinator_calls r + 1, us_failures := rn_failures r + 1\<rparr>"
  shows "spends rid fails \<sigma> (update_run rid f \<sigma>1)"
proof (rule spends_after [OF assms(2) spends_update])
  fix x assume x: "run_get \<sigma>1 rid = Some x"
  from keeps_get [OF assms(2,1)] x have "usage_of x = usage_of r" by auto
  then have "us_calls (usage_of x) = us_calls (usage_of r)" "us_failures (usage_of x) = us_failures (usage_of r)" by simp_all
  then show "fails (usage_of x) (usage_of (f x))" by (simp add: fails_def assms(5))
qed (simp_all add: assms(3,4) mono_status_def)

lemma usage_counts:
  "usage_of (x\<lparr>rn_coordinator_calls := c, rn_failures := n\<rparr>) = (usage_of x)\<lparr>us_calls := c, us_failures := n\<rparr>"
  "usage_of (x\<lparr>rn_coordinator_calls := c, rn_last_decision := d, rn_failures := n\<rparr>) = (usage_of x)\<lparr>us_calls := c, us_failures := n\<rparr>"
  "usage_of (x\<lparr>rn_coordinator_calls := c, rn_last_decision := d\<rparr>) = (usage_of x)\<lparr>us_calls := c\<rparr>"
  "usage_of (x\<lparr>rn_iterations := i, rn_elapsed := e\<rparr>) = (usage_of x)\<lparr>us_iterations := i\<rparr>"
  by (auto simp: usage_of_def fun_eq_iff intro: route_used_cong)

lemma spends_coordinator_failure:
  assumes "outside_ok ou"
  shows "spends rid fails \<sigma> (fst (handle_coordinator_failure ou rid mid b exc err \<sigma>))"
proof (cases "run_get \<sigma> rid")
  case None
  then show ?thesis
    by (auto simp: handle_coordinator_failure_def Let_def fails_def split: disposition.split intro: spends_same keeps_blocks [OF assms])
next
  case (Some r)
  let ?\<sigma>1 = "persist_control_step ou mid rid ''blocked'' StFailed
     (Some (NoteTransient (category (Some exc) err) (ou_short ou err))) None \<sigma>"
  let ?\<sigma>2 = "update_run rid (\<lambda>x. x\<lparr>rn_coordinator_calls := rn_coordinator_calls r + 1, rn_failures := rn_failures r + 1\<rparr>) ?\<sigma>1"
  have "spends rid fails \<sigma> ?\<sigma>2"
    by (rule failure_update [OF Some keeps_control_step]) (simp_all add: usage_counts)
  then have "spends rid fails \<sigma> (fst (handle_budget_block ou rid mid w ?\<sigma>2))" "spends rid fails \<sigma> (retry_backoff ou b n ?\<sigma>2)" for w n
    by (auto intro: spends_before keeps_blocks [OF assms] keeps_backoff [OF assms])
  then show ?thesis using Some
    by (auto simp: handle_coordinator_failure_def Let_def fails_def split: disposition.split
        intro: spends_same keeps_blocks [OF assms])
qed

lemma spends_invalid_decision:
  assumes "outside_ok ou"
  shows "spends rid fails \<sigma> (fst (handle_invalid_decision ou rid mid b d why \<sigma>))"
proof (cases "run_get \<sigma> rid")
  case None
  then show ?thesis by (auto simp: handle_invalid_decision_def fails_def intro: spends_same)
next
  case (Some r)
  let ?\<sigma>1 = "persist_control_step ou mid rid ''blocked'' StFailed (Some (NoteInvalid why)) (Some d) \<sigma>"
  let ?\<sigma>2 = "update_run rid (\<lambda>x. x\<lparr>rn_coordinator_calls := rn_coordinator_calls r + 1, rn_last_decision := Some (dc_id d),
     rn_failures := rn_failures r + 1\<rparr>) ?\<sigma>1"
  have "spends rid fails \<sigma> ?\<sigma>2"
    by (rule failure_update [OF Some keeps_control_step]) (simp_all add: usage_counts)
  then show ?thesis using Some
    by (auto simp: handle_invalid_decision_def Let_def intro: spends_before keeps_blocks [OF assms])
qed

definition concludes :: "usage \<Rightarrow> usage \<Rightarrow> bool" where
  "concludes u v \<longleftrightarrow> v = u \<or> v = u\<lparr>us_failures := 0\<rparr>"

lemma spends_complete:
  assumes "outside_ok ou"
  shows "spends rid concludes \<sigma> (fst (handle_complete ou rid mid d \<sigma>))"
proof (cases "ou_obligation ou mid \<sigma>")
  case (Some ob)
  have "keeps \<sigma> (fst (handle_obligation_block ou rid mid d ob \<sigma>))"
    unfolding handle_obligation_block_def fst_conv
    by (rule keeps_trans [OF keeps_trans [OF keeps_control_step keeps_update] keeps_emit [OF assms]]) simp_all
  then show ?thesis using Some by (auto simp: handle_complete_def concludes_def intro: spends_same)
next
  case None
  let ?f = "\<lambda>r. r\<lparr>rn_final_response := map_option (ou_short ou) (mc_final (dc_control d)), rn_failures := 0,
     rn_completed_at := Some (nd_clock \<sigma>)\<rparr>"
  let ?t = "apply_transition rid mid MsCompleted ?f (persist_control_step ou mid rid ''complete'' StCompleted
     (map_option NoteText (mc_reason (dc_control d))) (Some d) \<sigma>)"
  have "usage_of ((?f r)\<lparr>rn_status := MsCompleted\<rparr>) = (usage_of r)\<lparr>us_failures := 0\<rparr>" for r
    by (auto simp: usage_of_def fun_eq_iff intro: route_used_cong)
  then have "spends rid concludes \<sigma> (fst ?t)"
    by (intro spends_after [OF keeps_control_step transition_spends]) (auto simp: concludes_def)
  moreover obtain \<sigma>' x where t: "?t = (\<sigma>', x)" by (cases ?t)
  ultimately have "spends rid concludes \<sigma> \<sigma>'" by simp
  then have "spends rid concludes \<sigma> (emit ou a mid (emit ou c mid \<sigma>'))" for a c
    by (auto intro: spends_before keeps_emit [OF assms])
  with t \<open>spends rid concludes \<sigma> \<sigma>'\<close> None show ?thesis
    by (auto simp: handle_complete_def Let_def concludes_def split: sum.split intro: spends_same keeps_blocks [OF assms])
qed

lemma keeps_enter_waiting:
  assumes "outside_ok ou"
  shows "keeps \<sigma> (fst (enter_waiting ou rid mid d \<sigma>))"
proof -
  let ?w = "mc_waiting (dc_control d)"
  let ?t = "apply_transition rid mid MsWaiting (\<lambda>r. r\<lparr>rn_waiting := ?w, rn_waiting_at := Some (nd_clock \<sigma>)\<rparr>)
     (persist_control_step ou mid rid ''wait'' StCompleted (map_option (\<lambda>w. NoteText (mw_reason w)) ?w) (Some d) \<sigma>)"
  have "keeps \<sigma> (fst ?t)"
    by (rule keeps_trans [OF keeps_control_step transition_keeps]) (auto intro: usage_same)
  then show ?thesis unfolding enter_waiting_def Let_def
    by (cases ?t) (auto split: sum.split intro: keeps_trans [OF _ keeps_emit [OF assms]])
qed

lemma spends_peer_reply_wait:
  assumes "outside_ok ou"
  shows "spends rid fails \<sigma> (fst (handle_peer_reply_wait ou rid mid d wc \<sigma>))"
    and "snd (handle_peer_reply_wait ou rid mid d wc \<sigma>) = None \<Longrightarrow> keeps \<sigma> (fst (handle_peer_reply_wait ou rid mid d wc \<sigma>))"
proof -
  have w: "keeps \<sigma> \<sigma>'" if "ou_wait ou mid rid i t \<sigma> = (x, \<sigma>')" for i t x \<sigma>'
    using outside_okD(5) [OF assms, of \<sigma> mid rid i t] that by simp
  have f: "spends rid fails \<sigma>' \<sigma>'" for \<sigma>' by (rule spends_same) (simp_all add: fails_def)
  have inv: "spends rid fails \<sigma>' \<sigma>''" if "handle_invalid_decision ou rid mid b d why \<sigma>' = (\<sigma>'', res)" for b why \<sigma>' \<sigma>'' res
    using spends_invalid_decision [OF assms, of rid \<sigma>' mid b d why] that by simp
  show "spends rid fails \<sigma> (fst (handle_peer_reply_wait ou rid mid d wc \<sigma>))"
    unfolding handle_peer_reply_wait_def Let_def
    by (auto split: option.split sum.split prod.split wait_reply.split if_split
          intro: f inv spends_after [OF w f] spends_after [OF w inv] spends_after [OF w spends_same [OF keeps_control_step]]
          simp: fails_def)
  show "snd (handle_peer_reply_wait ou rid mid d wc \<sigma>) = None \<Longrightarrow> keeps \<sigma> (fst (handle_peer_reply_wait ou rid mid d wc \<sigma>))"
    unfolding handle_peer_reply_wait_def Let_def
    by (auto split: option.splits sum.splits prod.splits wait_reply.splits if_splits intro: w)
qed

lemma spends_wait:
  assumes "outside_ok ou"
  shows "spends rid fails \<sigma> (fst (handle_wait ou rid mid d \<sigma>))"
proof -
  have e: "spends rid fails \<sigma>' (fst (enter_waiting ou rid mid d \<sigma>'))" for \<sigma>'
    by (rule spends_same [OF keeps_enter_waiting [OF assms]]) (simp add: fails_def)
  show ?thesis
  proof (cases "\<exists>wc. Option.bind (mc_waiting (dc_control d)) mw_condition = Some wc \<and> wc_type wc = Some ''peer_reply''")
    case True
    then obtain wc where wc: "Option.bind (mc_waiting (dc_control d)) mw_condition = Some wc" "wc_type wc = Some ''peer_reply''"
      by blast
    obtain \<sigma>' y where p: "handle_peer_reply_wait ou rid mid d wc \<sigma> = (\<sigma>', y)"
      by (cases "handle_peer_reply_wait ou rid mid d wc \<sigma>")
    have f: "spends rid fails \<sigma> \<sigma>'" "y = None \<Longrightarrow> keeps \<sigma> \<sigma>'"
      using spends_peer_reply_wait [where rid = rid and \<sigma> = \<sigma> and mid = mid and d = d and wc = wc, OF assms] p by auto
    show ?thesis
    proof (cases y)
      case None
      then show ?thesis using spends_after [OF f(2) e] p wc by (simp add: handle_wait_def)
    next
      case (Some res)
      then show ?thesis using f(1) p wc by (simp add: handle_wait_def)
    qed
  next
    case False
    then have "handle_wait ou rid mid d \<sigma> = enter_waiting ou rid mid d \<sigma>"
      by (auto simp: handle_wait_def split: option.split)
    then show ?thesis using e by simp
  qed
qed

section \<open>Routes\<close>

lemma count_route_fields [simp]:
  "rn_id (count_route rt r) = rn_id r" "rn_status (count_route rt r) = rn_status r"
  by (cases rt; simp)+

lemma count_route_usage:
  "usage_of ((count_route rt r)\<lparr>rn_last_step := a, rn_last_route := c, rn_failures := n\<rparr>) =
   (usage_of r)\<lparr>us_actions := (us_actions (usage_of r))(rt := us_actions (usage_of r) rt + (if \<exists>b. route_limit rt b \<noteq> None then 1 else 0)),
      us_failures := n\<rparr>"
proof -
  have "route_used t ((count_route rt r)\<lparr>rn_last_step := a, rn_last_route := c, rn_failures := n\<rparr>) =
     (if t = rt then route_used rt r + (if \<exists>b. route_limit rt b \<noteq> None then 1 else 0) else route_used t r)" for t
    by (cases rt; cases t) simp_all
  then show ?thesis by (cases rt) (simp_all add: usage_of_def fun_eq_iff)
qed

lemma spends_after_route: "spends rid (acts_once rt) \<sigma> (after_route rid rt sid ok consume \<sigma>)"
proof (cases "run_get \<sigma> rid")
  case None
  then show ?thesis by (auto simp: after_route_def acts_once_def intro: spends_same)
next
  case (Some r)
  have "spends rid (acts_once rt) \<sigma> (update_run rid (\<lambda>x. x\<lparr>rn_last_step := Some sid, rn_last_route := Some rt\<rparr>) \<sigma>)"
    by (rule spends_same [OF keeps_update]) (auto simp: acts_once_def intro: usage_same)
  moreover have "spends rid (acts_once rt) \<sigma> (update_run rid (\<lambda>x. (count_route rt x)\<lparr>rn_last_step := Some sid,
      rn_last_route := Some rt, rn_failures := (if ok then 0 else rn_failures r + 1)\<rparr>) \<sigma>)"
    by (rule spends_update) (use Some in \<open>auto simp: mono_status_def acts_once_def count_route_usage\<close>)
  ultimately show ?thesis using Some by (simp add: after_route_def)
qed

lemma spends_execute_route:
  assumes "outside_ok ou"
  shows "spends rid (acts_once rt) \<sigma> (fst (execute_route ou rid mid d rt \<sigma>))"
proof -
  obtain sid \<sigma>1 where u: "new_uuid ou \<sigma> = (sid, \<sigma>1)" by (cases "new_uuid ou \<sigma>")
  define sp where "sp = \<lparr>sp_id = sid, sp_mission = mid, sp_decision_id = dc_id d, sp_decision = Some d,
     sp_target = ToRoute rt, sp_action = dc_action d, sp_status = StRunning, sp_result = NoResult,
     sp_error = None, sp_started = Some (nd_clock \<sigma>), sp_completed = None\<rparr>"
  obtain x \<sigma>3 where o: "ou_route ou mid d rt sid (emit ou ''mission.action.started'' mid (create_step sp \<sigma>1)) = (x, \<sigma>3)"
    by (cases "ou_route ou mid d rt sid (emit ou ''mission.action.started'' mid (create_step sp \<sigma>1))")
  have "keeps \<sigma> \<sigma>1" using u by (auto simp: new_uuid_def intro: keeps_runs)
  then have "keeps \<sigma> (emit ou ''mission.action.started'' mid (create_step sp \<sigma>1))"
    by (rule keeps_trans [OF keeps_trans [OF _ keeps_create_step] keeps_emit [OF assms]])
  then have k: "keeps \<sigma> \<sigma>3"
    by (rule keeps_trans) (use outside_okD(4) [OF assms, of "emit ou ''mission.action.started'' mid (create_step sp \<sigma>1)" mid d rt sid] o in simp)
  have a: "spends rid (acts_once rt) \<sigma> (after_route rid rt sid ok consume (update_step sid p q r t \<sigma>3))" for ok consume p q r t
    by (rule spends_after [OF keeps_trans [OF k keeps_update_step] spends_after_route])
  show ?thesis
  proof (cases x)
    case (RouteRaised err)
    have "fst (execute_route ou rid mid d rt \<sigma>) = emit ou ''mission.action.failed'' mid
        (after_route rid rt sid False True (update_step sid (Some StFailed) None (Some (ou_short ou err)) (Some (nd_clock \<sigma>3)) \<sigma>3))"
      by (simp add: execute_route_def u o [unfolded sp_def] RouteRaised)
    then show ?thesis by (simp only: spends_before [OF a keeps_emit [OF assms]])
  next
    case (RouteDone st res err rej)
    define \<sigma>5 where "\<sigma>5 = emit ou (if st = StCompleted then ''mission.action.completed'' else ''mission.action.failed'') mid
        (after_route rid rt sid (st = StCompleted) (\<not> rej)
          (update_step sid (Some st) (Some (RouteResult res)) (map_option (ou_short ou) err) (Some (nd_clock \<sigma>3)) \<sigma>3))"
    have "fst (execute_route ou rid mid d rt \<sigma>) = \<sigma>5
        \<or> fst (execute_route ou rid mid d rt \<sigma>) = fst (handle_coding_sandbox_block ou rid mid (or_empty err) \<sigma>5)"
      unfolding \<sigma>5_def by (simp add: execute_route_def u o [unfolded sp_def] RouteDone Let_def)
    moreover have s5: "spends rid (acts_once rt) \<sigma> \<sigma>5"
      unfolding \<sigma>5_def by (rule spends_before [OF a keeps_emit [OF assms]])
    moreover have "spends rid (acts_once rt) \<sigma> (fst (handle_coding_sandbox_block ou rid mid (or_empty err) \<sigma>5))"
      by (rule spends_before [OF s5 keeps_blocks(4) [OF assms]])
    ultimately show ?thesis by metis
  qed
qed

definition acts_within :: "budgets \<Rightarrow> usage \<Rightarrow> usage \<Rightarrow> bool" where
  "acts_within b u v \<longleftrightarrow> v = u
     \<or> (\<exists>rt. acts_once rt u v \<and> (\<forall>lim. route_limit rt b = Some lim \<longrightarrow> us_actions u rt < lim))"

lemma keeps_preflight: "keeps \<sigma> (fst (sandbox_preflight_block ou rid \<sigma>))"
  by (auto simp: sandbox_preflight_block_def split: sandbox_probe.split intro: keeps_runs)

lemma spends_gated:
  assumes "spends rid (acts_once rt) \<sigma> \<sigma>'" "run_get \<sigma> rid = Some r" "route_block r b rt = None"
  shows "spends rid (acts_within b) \<sigma> \<sigma>'"
proof (rule spendsI)
  fix i x assume x: "run_get \<sigma> i = Some x"
  from spendsD(1) [OF assms(1) x] obtain y where y: "run_get \<sigma>' i = Some y" "mono_status x y"
      "if i = rid then acts_once rt (usage_of x) (usage_of y) else usage_of y = usage_of x" by blast
  have "\<forall>lim. route_limit rt b = Some lim \<longrightarrow> us_actions (usage_of r) rt < lim"
    using assms(3) by (auto simp: route_block_def split: if_splits)
  then have "if i = rid then acts_within b (usage_of x) (usage_of y) else usage_of y = usage_of x"
    using y(3) x assms(2) by (auto simp: acts_within_def)
  with y show "\<exists>r'. run_get \<sigma>' i = Some r' \<and> mono_status x r'
      \<and> (if i = rid then acts_within b (usage_of x) (usage_of r') else usage_of r' = usage_of x)" by blast
qed (use spendsD(2) [OF assms(1)] in blast)

lemma spends_continue:
  assumes "outside_ok ou"
  shows "spends rid (acts_within b) \<sigma> (fst (handle_continue ou rid mid b d \<sigma>))"
proof (cases "run_get \<sigma> rid")
  case None
  then show ?thesis by (auto simp: handle_continue_def Let_def acts_within_def intro: spends_same)
next
  case (Some r)
  let ?rt = "normalize_target (dc_target d)"
  have k: "spends rid (acts_within b) \<sigma> \<sigma>'" if "keeps \<sigma> \<sigma>'" for \<sigma>'
    using that by (rule spends_same) (simp add: acts_within_def)
  have x: "spends rid (acts_within b) \<sigma> (fst (execute_route ou rid mid d rt \<sigma>'))"
    if "keeps \<sigma> \<sigma>'" "route_block r b rt = None" for rt \<sigma>'
    by (rule spends_gated [OF spends_after [OF that(1) spends_execute_route [OF assms]] Some that(2)])
  have p: "keeps \<sigma> \<sigma>'" if "sandbox_preflight_block ou rid \<sigma> = (\<sigma>', y)" for \<sigma>' y
    using keeps_preflight [of \<sigma> ou rid] that by simp
  show ?thesis using Some unfolding handle_continue_def Let_def
    by (auto split: option.split prod.split intro: k x p keeps_blocks [OF assms] keeps_trans [OF p keeps_blocks(4) [OF assms]])
qed

section \<open>The iteration\<close>

text \<open>What the handlers of one decision add, from the usage after the counted call.\<close>

definition concludes_or_acts :: "budgets \<Rightarrow> usage \<Rightarrow> usage \<Rightarrow> bool" where
  "concludes_or_acts b u v \<longleftrightarrow> fails u v \<or> concludes u v \<or> acts_within b u v"

lemma spends_dispatch:
  assumes "outside_ok ou"
  shows "spends rid (concludes_or_acts b) \<sigma> (fst (dispatch ou rid mid b d \<sigma>))"
proof -
  have k: "spends rid (concludes_or_acts b) \<sigma> \<sigma>'" if "keeps \<sigma> \<sigma>'" for \<sigma>'
    using that by (rule spends_same) (simp add: concludes_or_acts_def fails_def)
  show ?thesis
    unfolding dispatch_def
    by (cases "mc_disposition (dc_control d)")
       (simp_all, auto simp: concludes_or_acts_def intro: k keeps_blocks [OF assms]
          spends_weaken [OF spends_complete [OF assms]] spends_weaken [OF spends_wait [OF assms]]
          spends_weaken [OF spends_continue [OF assms]])
qed

text \<open>
  One iteration: one more iteration under all three limits it checked, at most two
  more counted calls, at most one more failure, at most one more action of one route whose
  limit was not reached.
\<close>

definition iterates :: "budgets \<Rightarrow> usage \<Rightarrow> usage \<Rightarrow> bool" where
  "iterates b u v \<longleftrightarrow> us_iterations u < bg_iterations b \<and> us_calls u < bg_coordinator_calls b \<and> us_failures u < bg_failures b
        \<and> us_iterations v = us_iterations u + 1 \<and> us_calls v \<in> {us_calls u, us_calls u + 1, us_calls u + 2}
        \<and> us_failures v \<in> {0, us_failures u, us_failures u + 1} \<and> us_budgets v = us_budgets u \<and> us_mission v = us_mission u
        \<and> (us_actions v = us_actions u
           \<or> (\<exists>rt k. (k = 0 \<or> k = 1) \<and> (\<forall>lim. route_limit rt b = Some lim \<longrightarrow> us_actions u rt < lim)
                \<and> us_actions v = (us_actions u)(rt := us_actions u rt + k)))"

definition calls_then :: "budgets \<Rightarrow> usage \<Rightarrow> usage \<Rightarrow> bool" where
  "calls_then b u v \<longleftrightarrow> fails u v \<or> concludes_or_acts b (u\<lparr>us_calls := us_calls u + 1\<rparr>) v"

lemma spends_decide:
  assumes "outside_ok ou" "run_get \<sigma> rid = Some r"
  shows "spends rid (calls_then b) \<sigma> (fst (decide ou rid mid b r \<sigma>))"
proof -
  obtain x \<sigma>1 where o: "ou_coordinator ou mid \<sigma> = (x, \<sigma>1)" by (cases "ou_coordinator ou mid \<sigma>")
  have k: "keeps \<sigma> \<sigma>1" using outside_okD(3) [OF assms(1), of \<sigma> mid] o by simp
  show ?thesis
  proof (cases x)
    case (Decided d)
    let ?\<sigma>2 = "update_run rid (\<lambda>x. x\<lparr>rn_coordinator_calls := rn_coordinator_calls r + 1, rn_last_decision := Some (dc_id d)\<rparr>) \<sigma>1"
    have c: "spends rid (\<lambda>u v. v = u\<lparr>us_calls := us_calls u + 1\<rparr>) \<sigma> ?\<sigma>2"
    proof (rule spends_after [OF k spends_update])
      fix y assume y: "run_get \<sigma>1 rid = Some y"
      from keeps_get [OF k assms(2)] y have "us_calls (usage_of y) = us_calls (usage_of r)" by auto
      then show "usage_of (y\<lparr>rn_coordinator_calls := rn_coordinator_calls r + 1, rn_last_decision := Some (dc_id d)\<rparr>)
          = (usage_of y)\<lparr>us_calls := us_calls (usage_of y) + 1\<rparr>" by (simp add: usage_counts)
    qed (simp_all add: mono_status_def)
    have "spends rid (concludes_or_acts b) ?\<sigma>2 (fst (dispatch ou rid mid b d (emit ou e mid ?\<sigma>2)))" for e
      by (rule spends_after [OF keeps_emit [OF assms(1)] spends_dispatch [OF assms(1)]])
    moreover have "spends rid (concludes_or_acts b) ?\<sigma>2 (fst (handle_invalid_decision ou rid mid b d w ?\<sigma>2))" for w
      by (rule spends_weaken [OF spends_invalid_decision [OF assms(1)]]) (simp add: concludes_or_acts_def)
    ultimately have "spends rid (concludes_or_acts b) ?\<sigma>2 (fst (decide ou rid mid b r \<sigma>))"
      by (simp add: decide_def o Decided Let_def split: option.split)
    from spends_comp [OF c this] show ?thesis by (auto simp: calls_then_def)
  next
    case (CoordinatorFailed exc err)
    have "spends rid fails \<sigma> (fst (handle_coordinator_failure ou rid mid b exc err \<sigma>1))"
      by (rule spends_after [OF k spends_coordinator_failure [OF assms(1)]])
    then show ?thesis by (auto simp: decide_def o CoordinatorFailed calls_then_def intro: spends_weaken)
  next
    case CoordinatorRaised
    then show ?thesis using k by (auto simp: decide_def o calls_then_def fails_def intro: spends_same)
  qed
qed

lemma calls_then_iterates:
  assumes "us_iterations u < bg_iterations b" "us_calls u < bg_coordinator_calls b" "us_failures u < bg_failures b"
    and "calls_then b (u\<lparr>us_iterations := us_iterations u + 1\<rparr>) v"
  shows "iterates b u v"
proof -
  let ?u = "u\<lparr>us_iterations := us_iterations u + 1\<rparr>"
  let ?w = "?u\<lparr>us_calls := us_calls ?u + 1\<rparr>"
  from assms(4) consider (f) "fails ?u v" | (g) "fails ?w v" | (c) "concludes ?w v" | (a) "acts_within b ?w v"
    by (auto simp: calls_then_def concludes_or_acts_def)
  then show ?thesis
  proof cases
    case f
    then show ?thesis using assms(1-3) by (auto simp: fails_def iterates_def)
  next
    case g
    then show ?thesis using assms(1-3) by (auto simp: fails_def iterates_def)
  next
    case c
    then show ?thesis using assms(1-3) by (auto simp: concludes_def iterates_def)
  next
    case a
    show ?thesis
    proof (cases "v = ?w")
      case True
      then show ?thesis using assms(1-3) by (auto simp: iterates_def)
    next
      case False
      with a obtain rt f where rt: "\<forall>lim. route_limit rt b = Some lim \<longrightarrow> us_actions u rt < lim" "f = 0 \<or> f = us_failures u + 1"
          "v = ?w\<lparr>us_actions := (us_actions u)(rt := us_actions u rt + (if \<exists>b. route_limit rt b \<noteq> None then 1 else 0)), us_failures := f\<rparr>"
        by (auto simp: acts_within_def acts_once_def)
      define k :: int where "k = (if \<exists>b. route_limit rt b \<noteq> None then 1 else 0)"
      have "k = 0 \<or> k = 1" "us_actions v = (us_actions u)(rt := us_actions u rt + k)"
        by (simp_all add: k_def rt(3))
      with rt(1) have "\<exists>rt k. (k = 0 \<or> k = 1) \<and> (\<forall>lim. route_limit rt b = Some lim \<longrightarrow> us_actions u rt < lim)
          \<and> us_actions v = (us_actions u)(rt := us_actions u rt + k)" by blast
      moreover have "us_iterations v = us_iterations u + 1" "us_calls v = us_calls u + 1" "us_failures v = f"
        "us_budgets v = us_budgets u" "us_mission v = us_mission u" by (simp_all add: rt(3))
      ultimately show ?thesis using assms(1-3) rt(2) unfolding iterates_def by auto
    qed
  qed
qed

lemma start_spends:
  assumes "outside_ok ou" "run_get \<sigma> rid = Some r"
  shows "spends rid (\<lambda>u v. v = u\<lparr>us_iterations := us_iterations u + 1\<rparr>) \<sigma> (start_iteration ou rid r \<sigma>)"
  unfolding start_iteration_def
  by (rule spends_before [OF spends_update keeps_emit [OF assms(1)]])
     (use assms(2) in \<open>auto simp: mono_status_def usage_counts\<close>)

lemma no_block_limits:
  assumes "iteration_block r b = None"
  shows "rn_iterations r < bg_iterations b" "rn_coordinator_calls r < bg_coordinator_calls b" "rn_failures r < bg_failures b"
  using assms by (auto simp: iteration_block_def split: if_splits)

text \<open>The limits of a run: the resolved ones, and the counted calls may exceed theirs by one.\<close>

definition limits_of :: "outside \<Rightarrow> usage \<Rightarrow> budgets option" where
  "limits_of ou u = (case resolve_budgets (ou_conversions ou) (ou_defaults ou) (us_budgets u) of Inl _ \<Rightarrow> None | Inr b \<Rightarrow> Some b)"

lemma run_iteration_active:
  assumes "outside_ok ou" "run_get \<sigma> rid = Some r"
    and "resolve_budgets (ou_conversions ou) (ou_defaults ou) (rn_budgets r) = Inr b" "iteration_block r b = None"
    and "\<sigma>1 = start_iteration ou rid r \<sigma>"
  shows "spends rid (iterates b) \<sigma> (fst (case (mission_get \<sigma>1 mid, run_get \<sigma>1 rid) of
       (None, _) \<Rightarrow> (\<sigma>1, Inr OcStopped)
     | (Some _, None) \<Rightarrow> (\<sigma>1, Inl RunVanished)
     | (Some _, Some r1) \<Rightarrow> decide ou rid mid b r1 \<sigma>1))"
proof -
  note lim = no_block_limits [OF assms(4)]
  have s: "spends rid (\<lambda>u v. v = u\<lparr>us_iterations := us_iterations u + 1\<rparr>) \<sigma> \<sigma>1"
    unfolding assms(5) by (rule start_spends [OF assms(1,2)])
  then obtain r1 where r1: "run_get \<sigma>1 rid = Some r1" using spendsD(1) assms(2) by blast
  have fin: "spends rid (iterates b) \<sigma> \<sigma>'" if c: "spends rid (calls_then b) \<sigma>1 \<sigma>'" for \<sigma>'
  proof (rule spendsI)
    fix i x assume x: "run_get \<sigma> i = Some x"
    from spendsD(1) [OF s x] obtain y where y: "run_get \<sigma>1 i = Some y" "mono_status x y"
        "if i = rid then usage_of y = (usage_of x)\<lparr>us_iterations := us_iterations (usage_of x) + 1\<rparr> else usage_of y = usage_of x"
      by blast
    from spendsD(1) [OF c y(1)] obtain z where z: "run_get \<sigma>' i = Some z" "mono_status y z"
        "if i = rid then calls_then b (usage_of y) (usage_of z) else usage_of z = usage_of y" by blast
    have "if i = rid then iterates b (usage_of x) (usage_of z) else usage_of z = usage_of x"
      using y(3) z(3) x assms(2) lim calls_then_iterates [of "usage_of x" b "usage_of z"] by auto
    with mono_trans [OF y(2) z(2)] z(1)
    show "\<exists>r'. run_get \<sigma>' i = Some r' \<and> mono_status x r'
        \<and> (if i = rid then iterates b (usage_of x) (usage_of r') else usage_of r' = usage_of x)" by blast
  next
    fix i r' assume "i \<noteq> rid" "run_get \<sigma> i = None" "run_get \<sigma>' i = Some r'"
    moreover from spends_comp [OF s c, of "\<lambda>_ _. True"] have "spends rid (\<lambda>_ _. True) \<sigma> \<sigma>'" by simp
    ultimately show "unused (usage_of r')" using spendsD(2) by blast
  qed
  have "spends rid (calls_then b) \<sigma>1 (fst (decide ou rid mid b r1 \<sigma>1))" by (rule spends_decide [OF assms(1) r1])
  moreover have "spends rid (calls_then b) \<sigma>1 \<sigma>1" if "\<And>u. calls_then b u u"
    using that by (auto intro: spends_same)
  ultimately show ?thesis using r1
    by (cases "mission_get \<sigma>1 mid") (auto simp: calls_then_def fails_def intro!: fin spends_same)
qed

lemma spends_iteration:
  assumes "outside_ok ou"
  shows "spends rid (\<lambda>u v. v = u \<or> (\<exists>b. limits_of ou u = Some b \<and> iterates b u v)) \<sigma> (fst (run_iteration ou rid \<sigma>))"
proof (cases "run_get \<sigma> rid")
  case None
  then show ?thesis by (auto simp: run_iteration_def intro: spends_same)
next
  case (Some r)
  show ?thesis
  proof (cases "rn_status r = MsActive \<and> \<not> (rn_cancel_requested r \<noteq> None \<and> rn_cancel_acknowledged r = None) \<and> \<not> rn_pause_requested r
      \<and> (\<exists>b. resolve_budgets (ou_conversions ou) (ou_defaults ou) (rn_budgets r) = Inr b \<and> iteration_block r b = None)")
    case True
    then obtain b where b: "resolve_budgets (ou_conversions ou) (ou_defaults ou) (rn_budgets r) = Inr b" "iteration_block r b = None"
      by blast
    have l: "limits_of ou (usage_of r) = Some b" by (simp add: limits_of_def b)
    have "spends rid (iterates b) \<sigma> (fst (run_iteration ou rid \<sigma>))"
      using run_iteration_active [OF assms Some b refl, of "rn_mission r"] True Some b
      by (auto simp: run_iteration_def Let_def)
    then show ?thesis unfolding spends_def using l Some by fastforce
  next
    case False
    then have "keeps \<sigma> (fst (run_iteration ou rid \<sigma>))" using Some
      by (auto simp: run_iteration_def Let_def split: sum.split option.split
          intro: keeps_cancel [OF assms] keeps_pause [OF assms] keeps_blocks [OF assms])
    then show ?thesis by (auto intro: spends_same)
  qed
qed

end
