(* ===== verification/MissionWorker.thy ===== *)
theory MissionWorker
  imports MissionSafety
begin

text \<open>
  The mission worker (\<open>missions/worker.py\<close>): leases, heartbeats and the run task that drives the
  engine, recovery after a restart, and the operations start, retry, pause, resume, cancel and
  single step. The run task's loop takes fuel; that the fuel suffices is proved where it is used.
\<close>

record worker =
  wk_node :: string
  wk_owner :: string
  wk_lease_us :: int
  wk_recovery :: bool
  wk_pool :: nat

datatype worker_error =
    MissionNotFound | MissionConflict | LeaseUnavailable | StepRaised engine_error

section \<open>Leases\<close>

text \<open>A rejected transition is suppressed.\<close>

definition try_transition :: "string \<Rightarrow> string \<Rightarrow> mission_status \<Rightarrow> (run \<Rightarrow> run) \<Rightarrow> node \<Rightarrow> node \<times> bool" where
  "try_transition rid mid tgt f \<sigma> =
     (case apply_transition rid mid tgt f \<sigma> of (\<sigma>', Inl _) \<Rightarrow> (\<sigma>', False) | (\<sigma>', Inr _) \<Rightarrow> (\<sigma>', True))"

definition worker_acquire :: "outside \<Rightarrow> worker \<Rightarrow> string \<Rightarrow> string \<Rightarrow> node \<Rightarrow> node \<times> string option" where
  "worker_acquire ou wk rid mid \<sigma> =
     (let (token, \<sigma>0) = new_uuid ou \<sigma>;
          now = nd_clock \<sigma>;
          (\<sigma>1, n) = acquire_lease rid (wk_owner wk) token now (now + wk_lease_us wk) \<sigma>0
      in if n \<noteq> 1 then (\<sigma>1, None)
         else (emit ou ''mission.lease.acquired'' mid (fst (try_transition rid mid MsActive (\<lambda>r. r) \<sigma>1)), Some token))"

definition worker_release :: "string \<Rightarrow> string \<Rightarrow> node \<Rightarrow> node" where
  "worker_release rid token \<sigma> = fst (release_lease rid token \<sigma>)"

definition renew_event_every :: nat where
  "renew_event_every = 6"

text \<open>One heartbeat: the number of renewals so far, or the lease is lost and the run stops.\<close>

definition heartbeat :: "outside \<Rightarrow> worker \<Rightarrow> string \<Rightarrow> string \<Rightarrow> string \<Rightarrow> nat \<Rightarrow> node \<Rightarrow> node \<times> nat option" where
  "heartbeat ou wk rid mid token count \<sigma> =
     (if rid \<in> set (nd_stop \<sigma>) then (\<sigma>, None)
      else let now = nd_clock \<sigma>;
               (\<sigma>1, n) = renew_lease rid (wk_owner wk) token now (now + wk_lease_us wk) \<sigma>
           in if n = 0
              then (emit ou ''mission.lease.lost'' mid (\<sigma>1\<lparr>nd_lost := rid # nd_lost \<sigma>1, nd_stop := rid # nd_stop \<sigma>1\<rparr>), None)
              else (if Suc count mod renew_event_every = 0 then emit ou ''mission.lease.renewed'' mid \<sigma>1 else \<sigma>1,
                    Some (Suc count)))"

section \<open>The run task\<close>

text \<open>
  \<open>run_iteration\<close> until it stops the worker, raises, or the run is told to stop. \<open>None\<close> means
  that the fuel did not suffice.
\<close>

fun run_loop :: "outside \<Rightarrow> nat \<Rightarrow> string \<Rightarrow> node \<Rightarrow> node option" where
  "run_loop ou 0 rid \<sigma> = None"
| "run_loop ou (Suc n) rid \<sigma> =
     (if rid \<in> set (nd_stop \<sigma>) then Some \<sigma>
      else case run_iteration ou rid \<sigma> of
             (\<sigma>', Inl _) \<Rightarrow> Some \<sigma>'
           | (\<sigma>', Inr oc) \<Rightarrow> if oc \<in> set terminal_outcomes then Some \<sigma>' else run_loop ou n rid \<sigma>')"

definition forget_task :: "string \<Rightarrow> node \<Rightarrow> node" where
  "forget_task mid \<sigma> = \<sigma>\<lparr>nd_tasks := filter (\<lambda>m. m \<noteq> mid) (nd_tasks \<sigma>)\<rparr>"

definition run_mission :: "outside \<Rightarrow> worker \<Rightarrow> nat \<Rightarrow> string \<Rightarrow> string \<Rightarrow> node \<Rightarrow> node option" where
  "run_mission ou wk fuel rid mid \<sigma> =
     (case worker_acquire ou wk rid mid \<sigma> of
        (\<sigma>1, None) \<Rightarrow> Some (forget_task mid \<sigma>1)
      | (\<sigma>1, Some token) \<Rightarrow>
        (case run_loop ou fuel rid (emit ou ''mission.run.started'' mid
                (\<sigma>1\<lparr>nd_stop := filter (\<lambda>i. i \<noteq> rid) (nd_stop \<sigma>1), nd_lost := filter (\<lambda>i. i \<noteq> rid) (nd_lost \<sigma>1)\<rparr>)) of
           None \<Rightarrow> None
         | Some \<sigma>2 \<Rightarrow>
             let \<sigma>3 = (if rid \<in> set (nd_lost \<sigma>2) then \<sigma>2 else worker_release rid token \<sigma>2)
             in Some (emit ou ''mission.run.stopped'' mid (forget_task mid \<sigma>3))))"

text \<open>The queued runs a poll starts tasks for: at most the free slots, one task per mission.\<close>

fun launch :: "string list \<Rightarrow> node \<Rightarrow> node \<times> (string \<times> string) list" where
  "launch [] \<sigma> = (\<sigma>, [])"
| "launch (rid # rids) \<sigma> =
     (case run_get \<sigma> rid of
        None \<Rightarrow> launch rids \<sigma>
      | Some r \<Rightarrow>
        if rn_mission r \<in> set (nd_tasks \<sigma>) then launch rids \<sigma>
        else let (\<sigma>', ts) = launch rids (\<sigma>\<lparr>nd_tasks := nd_tasks \<sigma> @ [rn_mission r]\<rparr>) in (\<sigma>', (rid, rn_mission r) # ts))"

definition poll_once :: "worker \<Rightarrow> nat \<Rightarrow> node \<Rightarrow> node \<times> (string \<times> string) list" where
  "poll_once wk free \<sigma> = (if free = 0 then (\<sigma>, []) else launch (queued_run_ids (wk_node wk) free \<sigma>) \<sigma>)"

section \<open>Recovery\<close>

definition fail_interrupted :: "string \<Rightarrow> int \<Rightarrow> node \<Rightarrow> node" where
  "fail_interrupted mid now \<sigma> =
     fold (\<lambda>sp. if sp_status sp = StRunning
                then update_step (sp_id sp) (Some StFailed) None (Some ''Interrupted by node restart; not assumed completed.'') (Some now)
                else id)
       (list_steps mid 200 \<sigma>) \<sigma>"

definition requeue_recovered :: "int \<Rightarrow> run \<Rightarrow> run" where
  "requeue_recovered now r =
     (drop_lease r)\<lparr>rn_status := MsQueued, rn_recoveries := rn_recoveries r + 1, rn_pause_requested := False,
       rn_queued_at := Some now\<rparr>"

definition recover_one :: "outside \<Rightarrow> int \<Rightarrow> string \<Rightarrow> node \<Rightarrow> node" where
  "recover_one ou now rid \<sigma> =
     (case run_get \<sigma> rid of
        None \<Rightarrow> \<sigma>
      | Some r \<Rightarrow>
          emit ou ''mission.recovered'' (rn_mission r)
            (update_status (rn_mission r) MsQueued
              (update_run rid (requeue_recovered now) (fail_interrupted (rn_mission r) now \<sigma>))))"

definition recover :: "outside \<Rightarrow> worker \<Rightarrow> node \<Rightarrow> node" where
  "recover ou wk \<sigma> =
     (if wk_recovery wk
      then fold (recover_one ou (nd_clock \<sigma>)) (recoverable_active_ids (wk_node wk) (nd_clock \<sigma>) 50 \<sigma>) \<sigma>
      else \<sigma>)"

section \<open>Operations\<close>

definition dump_budgets :: "budgets \<Rightarrow> (string \<times> json) list" where
  "dump_budgets b =
     [(''max_iterations'', JInt (bg_iterations b)), (''max_elapsed_seconds'', JFloat (bg_elapsed b)),
      (''max_coordinator_calls'', JInt (bg_coordinator_calls b)), (''max_node_state_actions'', JInt (bg_node_state b)),
      (''max_coding_agent_actions'', JInt (bg_coding b)), (''max_mcp_actions'', JInt (bg_mcp b)),
      (''max_response_actions'', JInt (bg_response b)), (''max_rf_device_actions'', JInt (bg_rf_device b)),
      (''max_consecutive_failures'', JInt (bg_failures b)), (''max_context_characters'', JInt (bg_context b)),
      (''coordinator_retry_initial_backoff_seconds'', JFloat (bg_backoff_initial b)),
      (''coordinator_retry_max_backoff_seconds'', JFloat (bg_backoff_max b))]"

definition queue_run :: "outside \<Rightarrow> string \<Rightarrow> string \<Rightarrow> bool \<Rightarrow> node \<Rightarrow> node" where
  "queue_run ou rid mid created \<sigma> =
     (let \<sigma>1 = fst (try_transition rid mid MsQueued (\<lambda>r. r\<lparr>rn_queued_at := Some (nd_clock \<sigma>)\<rparr>) \<sigma>);
          \<sigma>2 = (if created then emit ou ''mission.run.created'' mid \<sigma>1 else \<sigma>1)
      in emit ou ''mission.queued'' mid \<sigma>2)"

definition enqueue_mission :: "outside \<Rightarrow> worker \<Rightarrow> string \<Rightarrow> node \<Rightarrow> node \<times> (worker_error + string \<times> bool)" where
  "enqueue_mission ou wk mid \<sigma> =
     (case mission_get \<sigma> mid of
        None \<Rightarrow> (\<sigma>, Inl MissionNotFound)
      | Some m \<Rightarrow>
        (case current_for_mission mid \<sigma> of
           Some r \<Rightarrow> (queue_run ou (rn_id r) mid False \<sigma>, Inr (rn_id r, False))
         | None \<Rightarrow>
           if is_terminal (ms_status m) then (\<sigma>, Inl MissionConflict)
           else let (rid, \<sigma>0) = new_uuid ou \<sigma>
                in (queue_run ou rid mid True
                      (create_run (new_run rid mid (wk_node wk) (dump_budgets (ou_defaults ou)) (nd_clock \<sigma>)) \<sigma>0),
                    Inr (rid, True))))"

definition retry_mission :: "outside \<Rightarrow> worker \<Rightarrow> string \<Rightarrow> node \<Rightarrow> node \<times> (worker_error + string \<times> bool)" where
  "retry_mission ou wk mid \<sigma> =
     (case mission_get \<sigma> mid of
        None \<Rightarrow> (\<sigma>, Inl MissionNotFound)
      | Some m \<Rightarrow>
        (case current_for_mission mid \<sigma> of
           Some r \<Rightarrow> (\<sigma>, Inr (rn_id r, False))
         | None \<Rightarrow>
           if ms_status m \<notin> {MsBlocked, MsFailed} then (\<sigma>, Inl MissionConflict)
           else enqueue_mission ou wk mid (update_status mid MsQueued \<sigma>)))"

definition pause_mission :: "outside \<Rightarrow> string \<Rightarrow> node \<Rightarrow> node \<times> (worker_error + string)" where
  "pause_mission ou mid \<sigma> =
     (case current_for_mission mid \<sigma> of
        None \<Rightarrow> (\<sigma>, Inl MissionConflict)
      | Some r \<Rightarrow>
        let \<sigma>1 = update_run (rn_id r) (\<lambda>r. r\<lparr>rn_pause_requested := True\<rparr>) \<sigma>
        in if mid \<in> set (nd_tasks \<sigma>1) then (\<sigma>1, Inr (rn_id r))
           else (case try_transition (rn_id r) mid MsPaused (\<lambda>r. r\<lparr>rn_paused_at := Some (nd_clock \<sigma>)\<rparr>) \<sigma>1 of
                   (\<sigma>2, ok) \<Rightarrow> (if ok then emit ou ''mission.paused'' mid \<sigma>2 else \<sigma>2, Inr (rn_id r))))"

definition resume_mission :: "outside \<Rightarrow> string \<Rightarrow> node \<Rightarrow> node \<times> (worker_error + string)" where
  "resume_mission ou mid \<sigma> =
     (case latest_for_mission mid \<sigma> of
        None \<Rightarrow> (\<sigma>, Inl MissionConflict)
      | Some r \<Rightarrow>
        if rn_status r \<notin> {MsPaused, MsWaiting} then (\<sigma>, Inl MissionConflict)
        else (emit ou ''mission.resumed'' mid
                (fst (try_transition (rn_id r) mid MsQueued
                   (\<lambda>r. r\<lparr>rn_pause_requested := False, rn_waiting := None, rn_queued_at := Some (nd_clock \<sigma>)\<rparr>) \<sigma>)),
              Inr (rn_id r)))"

definition cancel_mission :: "outside \<Rightarrow> string \<Rightarrow> node \<Rightarrow> node \<times> (worker_error + string)" where
  "cancel_mission ou mid \<sigma> =
     (case current_for_mission mid \<sigma> of
        None \<Rightarrow> (\<sigma>, Inl MissionConflict)
      | Some r \<Rightarrow>
        let \<sigma>1 = emit ou ''mission.cancel.requested'' mid
                   (update_run (rn_id r) (\<lambda>x. x\<lparr>rn_cancel_requested := Some (nd_clock \<sigma>)\<rparr>) \<sigma>)
        in if mid \<in> set (nd_tasks \<sigma>1) then (\<sigma>1, Inr (rn_id r))
           else (let \<sigma>2 = update_run (rn_id r) (\<lambda>x. x\<lparr>rn_cancel_acknowledged := Some (nd_clock \<sigma>1)\<rparr>) \<sigma>1
                 in case try_transition (rn_id r) mid MsCancelled (\<lambda>x. x\<lparr>rn_cancelled_at := Some (nd_clock \<sigma>1)\<rparr>) \<sigma>2 of
                      (\<sigma>3, ok) \<Rightarrow> (if ok then emit ou ''mission.cancelled'' mid \<sigma>3 else \<sigma>3, Inr (rn_id r))))"

definition run_one_step :: "outside \<Rightarrow> worker \<Rightarrow> string \<Rightarrow> node \<Rightarrow> node \<times> (worker_error + string)" where
  "run_one_step ou wk mid \<sigma> =
     (if mid \<in> set (nd_tasks \<sigma>) then (\<sigma>, Inl MissionConflict)
      else case (case current_for_mission mid \<sigma> of
                   Some r \<Rightarrow> (\<sigma>, Inr (rn_id r, False))
                 | None \<Rightarrow> enqueue_mission ou wk mid \<sigma>) of
        (\<sigma>1, Inl e) \<Rightarrow> (\<sigma>1, Inl e)
      | (\<sigma>1, Inr (rid, _)) \<Rightarrow>
        (case worker_acquire ou wk rid mid \<sigma>1 of
           (\<sigma>2, None) \<Rightarrow> (\<sigma>2, Inl MissionConflict)
         | (\<sigma>2, Some token) \<Rightarrow>
           (case run_iteration ou rid \<sigma>2 of
              (\<sigma>3, res) \<Rightarrow> (worker_release rid token \<sigma>3,
                 case res of Inl e \<Rightarrow> Inl (StepRaised e) | Inr _ \<Rightarrow> Inr rid))))"

section \<open>Operations spend no budget\<close>

lemma keeps_upd_run:
  assumes "\<And>r. rn_id (f r) = rn_id r" "\<And>r. run_get \<sigma> rid = Some r \<Longrightarrow> mono_status r (f r)" "\<And>r. usage_of (f r) = usage_of r"
  shows "keeps \<sigma> (upd_run rid f \<sigma>)"
proof (rule keepsI)
  have g: "run_get (upd_run rid f \<sigma>) i = (if i = rid then map_option f (run_get \<sigma> i) else run_get \<sigma> i)" for i
    using runs.get_upd [of f] assms(1) by (simp add: keeps_run_def)
  show "\<exists>r'. run_get (upd_run rid f \<sigma>) i = Some r' \<and> mono_status r r' \<and> usage_of r' = usage_of r"
    if "run_get \<sigma> i = Some r" for i r using that assms(2,3) unfolding g by (auto simp: mono_status_def)
  show "unused (usage_of r')" if "run_get \<sigma> i = None" "run_get (upd_run rid f \<sigma>) i = Some r'" for i r'
    using that unfolding g by (auto split: if_splits)
qed

lemma keeps_acquire_lease: "keeps \<sigma> (fst (acquire_lease rid ow tok now e \<sigma>))"
  by (auto simp: acquire_lease_def take_lease_def mono_status_def split: option.split intro!: keeps_upd_run intro: usage_same)

lemma keeps_renew_lease: "keeps \<sigma> (fst (renew_lease rid ow tok now e \<sigma>))"
  by (auto simp: renew_lease_def mono_status_def split: option.split intro!: keeps_upd_run intro: usage_same)

lemma keeps_release_lease: "keeps \<sigma> (fst (release_lease rid tok \<sigma>))"
  by (auto simp: release_lease_def drop_lease_def mono_status_def split: option.split intro!: keeps_upd_run intro: usage_same)

lemma try_transition_fst [simp]: "fst (try_transition rid mid tgt f \<sigma>) = fst (apply_transition rid mid tgt f \<sigma>)"
  by (auto simp: try_transition_def split: prod.split sum.split)

lemma keeps_new_uuid: "keeps \<sigma> (snd (new_uuid ou \<sigma>))"
  by (rule keeps_runs) (simp add: new_uuid_def)

lemma keeps_worker_acquire:
  assumes "outside_ok ou"
  shows "keeps \<sigma> (fst (worker_acquire ou wk rid mid \<sigma>))"
proof -
  let ?\<sigma>0 = "snd (new_uuid ou \<sigma>)" and ?tok = "fst (new_uuid ou \<sigma>)"
  let ?a = "acquire_lease rid (wk_owner wk) ?tok (nd_clock \<sigma>) (nd_clock \<sigma> + wk_lease_us wk) ?\<sigma>0"
  have a: "keeps \<sigma> (fst ?a)" by (rule keeps_trans [OF keeps_new_uuid keeps_acquire_lease])
  then have "keeps \<sigma> (emit ou e mid (fst (apply_transition rid mid MsActive (\<lambda>r. r) (fst ?a))))" for e
    by (rule keeps_trans [OF keeps_trans [OF _ transition_keeps] keeps_emit [OF assms]]) (auto intro: usage_same)
  with a show ?thesis by (simp add: worker_acquire_def case_prod_unfold Let_def)
qed

lemma keeps_heartbeat:
  assumes "outside_ok ou"
  shows "keeps \<sigma> (fst (heartbeat ou wk rid mid tok n \<sigma>))"
proof -
  let ?r = "renew_lease rid (wk_owner wk) tok (nd_clock \<sigma>) (nd_clock \<sigma> + wk_lease_us wk) \<sigma>"
  have r: "keeps \<sigma> (fst ?r)" by (rule keeps_renew_lease)
  have "keeps \<sigma> ((fst ?r)\<lparr>nd_lost := a, nd_stop := c\<rparr>)" for a c by (rule keeps_trans [OF r keeps_runs]) simp
  with r show ?thesis
    by (auto simp: heartbeat_def case_prod_unfold Let_def intro: keeps_trans [OF _ keeps_emit [OF assms]])
qed

lemma keeps_queue_run:
  assumes "outside_ok ou"
  shows "keeps \<sigma> (queue_run ou rid mid c \<sigma>)"
proof -
  have "keeps \<sigma> (fst (try_transition rid mid MsQueued (\<lambda>r. r\<lparr>rn_queued_at := Some (nd_clock \<sigma>)\<rparr>) \<sigma>))"
    unfolding try_transition_fst by (rule transition_keeps) (auto intro: usage_same)
  then show ?thesis unfolding queue_run_def Let_def
    by (auto intro: keeps_trans [OF _ keeps_emit [OF assms]])
qed

lemma keeps_create_run: "unused (usage_of r) \<Longrightarrow> keeps \<sigma> (create_run r \<sigma>)"
  by (rule keepsI) (auto simp: create_run_def tbl_get_append mono_status_def split: if_splits)

lemma new_run_unused: "unused (usage_of (new_run a b c d e))"
proof -
  have "route_used rt (new_run a b c d e) = 0" for rt by (cases rt) (simp_all add: new_run_def)
  then show ?thesis by (simp add: unused_def new_run_def)
qed

lemma keeps_enqueue:
  assumes "outside_ok ou"
  shows "keeps \<sigma> (fst (enqueue_mission ou wk mid \<sigma>))"
  by (auto simp: enqueue_mission_def case_prod_unfold Let_def split: option.split
      intro: keeps_queue_run [OF assms] keeps_trans [OF keeps_trans [OF keeps_new_uuid keeps_create_run [OF new_run_unused]] keeps_queue_run [OF assms]])

lemma keeps_retry:
  assumes "outside_ok ou"
  shows "keeps \<sigma> (fst (retry_mission ou wk mid \<sigma>))"
proof -
  have "keeps \<sigma> (update_status mid MsQueued \<sigma>)" by (rule keeps_runs) (simp add: update_status_def)
  then show ?thesis
    by (auto simp: retry_mission_def split: option.split intro: keeps_trans [OF _ keeps_enqueue [OF assms]])
qed

lemma keeps_pause_mission:
  assumes "outside_ok ou"
  shows "keeps \<sigma> (fst (pause_mission ou mid \<sigma>))"
proof -
  have u: "keeps \<sigma> (update_run i (\<lambda>r. r\<lparr>rn_pause_requested := True\<rparr>) \<sigma>)" for i
    by (rule keeps_update) (auto intro: usage_same)
  have t: "keeps \<sigma>' (fst (try_transition i mid MsPaused (\<lambda>r. r\<lparr>rn_paused_at := x\<rparr>) \<sigma>'))" for i x \<sigma>'
    unfolding try_transition_fst by (rule transition_keeps) (auto intro: usage_same)
  show ?thesis
    by (auto simp: pause_mission_def case_prod_unfold Let_def split: option.split
        intro: u keeps_trans [OF u t] keeps_trans [OF keeps_trans [OF u t] keeps_emit [OF assms]]
        simp del: try_transition_fst)
qed

lemma keeps_resume:
  assumes "outside_ok ou"
  shows "keeps \<sigma> (fst (resume_mission ou mid \<sigma>))"
proof -
  have t: "keeps \<sigma> (fst (try_transition i mid MsQueued (\<lambda>r. r\<lparr>rn_pause_requested := False, rn_waiting := None, rn_queued_at := x\<rparr>) \<sigma>))" for i x
    unfolding try_transition_fst by (rule transition_keeps) (auto intro: usage_same)
  show ?thesis
    by (auto simp: resume_mission_def split: option.split
        intro: keeps_trans [OF t keeps_emit [OF assms]] simp del: try_transition_fst)
qed

lemma keeps_cancel_mission:
  assumes "outside_ok ou"
  shows "keeps \<sigma> (fst (cancel_mission ou mid \<sigma>))"
proof -
  have u: "keeps \<sigma> (update_run i (\<lambda>r. r\<lparr>rn_cancel_requested := x\<rparr>) \<sigma>)" for i x
    by (rule keeps_update) (auto intro: usage_same)
  have a: "keeps \<sigma>' (update_run i (\<lambda>r. r\<lparr>rn_cancel_acknowledged := x\<rparr>) \<sigma>')" for i x \<sigma>'
    by (rule keeps_update) (auto intro: usage_same)
  have t: "keeps \<sigma>' (fst (try_transition i mid MsCancelled (\<lambda>r. r\<lparr>rn_cancelled_at := x\<rparr>) \<sigma>'))" for i x \<sigma>'
    unfolding try_transition_fst by (rule transition_keeps) (auto intro: usage_same)
  note ue = keeps_trans [OF u keeps_emit [OF assms]]
  note uet = keeps_trans [OF keeps_trans [OF ue a] t]
  show ?thesis
    by (auto simp: cancel_mission_def case_prod_unfold Let_def split: option.split
        intro: ue uet keeps_trans [OF uet keeps_emit [OF assms]] simp del: try_transition_fst)
qed

end
