(* ===== verification/MissionRecovery.thy ===== *)
theory MissionRecovery
  imports MissionWorker
begin

text \<open>
  Recovery after a restart (\<open>MissionWorker.recover\<close> of \<open>missions/worker.py\<close>): what it does on a
  quiet node, where nothing else runs while it emits an event, and what it keeps whatever runs then.
\<close>

section \<open>A quiet node\<close>

definition quiet :: "outside \<Rightarrow> bool" where
  "quiet ou \<longleftrightarrow> (\<forall>\<sigma>. ou_yield ou \<sigma> = \<sigma>)"

lemma quiet_emit:
  assumes "quiet ou"
  shows "nd_runs (emit ou ty mid \<sigma>) = nd_runs \<sigma>" "nd_missions (emit ou ty mid \<sigma>) = nd_missions \<sigma>"
    "nd_clock (emit ou ty mid \<sigma>) = nd_clock \<sigma>" "nd_stop (emit ou ty mid \<sigma>) = nd_stop \<sigma>"
    "nd_uuids (emit ou ty mid \<sigma>) = nd_uuids \<sigma>"
  using assms by (simp_all add: quiet_def emit_def log_event_def)

text \<open>The same node with no other task running at an \<open>await\<close>.\<close>

definition undisturbed :: "outside \<Rightarrow> outside" where
  "undisturbed ou = ou\<lparr>ou_yield := (\<lambda>\<sigma>. \<sigma>)\<rparr>"

lemma quiet_undisturbed [simp]: "quiet (undisturbed ou)"
  by (simp add: quiet_def undisturbed_def)

lemma update_run_fields [simp]:
  "nd_missions (update_run rid f \<sigma>) = nd_missions \<sigma>" "nd_clock (update_run rid f \<sigma>) = nd_clock \<sigma>"
  "nd_stop (update_run rid f \<sigma>) = nd_stop \<sigma>" "nd_uuids (update_run rid f \<sigma>) = nd_uuids \<sigma>"
  "nd_steps (update_run rid f \<sigma>) = nd_steps \<sigma>"
  by (simp_all add: update_run_def upd_run_def)

lemma update_status_fields [simp]:
  "nd_runs (update_status mid st \<sigma>) = nd_runs \<sigma>" "nd_clock (update_status mid st \<sigma>) = nd_clock \<sigma>"
  "nd_stop (update_status mid st \<sigma>) = nd_stop \<sigma>" "nd_uuids (update_status mid st \<sigma>) = nd_uuids \<sigma>"
  by (simp_all add: update_status_def)

section \<open>Recovery\<close>

lemma fail_interrupted_fields [simp]:
  "nd_runs (fail_interrupted mid now \<sigma>) = nd_runs \<sigma>" "nd_clock (fail_interrupted mid now \<sigma>) = nd_clock \<sigma>"
proof -
  let ?f = "\<lambda>sp. if sp_status sp = StRunning
    then update_step (sp_id sp) (Some StFailed) None (Some ''Interrupted by node restart; not assumed completed.'') (Some now) else id"
  have f: "nd_runs (fold ?f sps \<tau>) = nd_runs \<tau> \<and> nd_clock (fold ?f sps \<tau>) = nd_clock \<tau>" for sps \<tau>
    by (induction sps arbitrary: \<tau>) (simp_all add: update_step_def)
  show "nd_runs (fail_interrupted mid now \<sigma>) = nd_runs \<sigma>"
    unfolding fail_interrupted_def by (rule f [THEN conjunct1])
  show "nd_clock (fail_interrupted mid now \<sigma>) = nd_clock \<sigma>"
    unfolding fail_interrupted_def by (rule f [THEN conjunct2])
qed

lemma requeue_recovered_fields [simp]:
  "rn_id (requeue_recovered now r) = rn_id r" "rn_status (requeue_recovered now r) = MsQueued"
  "rn_token (requeue_recovered now r) = None" "rn_owner (requeue_recovered now r) = None"
  "rn_lease_expiry (requeue_recovered now r) = None" "rn_recoveries (requeue_recovered now r) = rn_recoveries r + 1"
  "usage_of (requeue_recovered now r) = usage_of r"
  by (simp_all add: requeue_recovered_def drop_lease_def) (rule usage_same; simp)

lemma recover_one_fields:
  assumes "quiet ou"
  shows "run_get (recover_one ou now i \<sigma>) j =
      (if j = i then map_option (\<lambda>r. touch (nd_clock \<sigma>) (requeue_recovered now r)) (run_get \<sigma> j) else run_get \<sigma> j)"
    and "nd_clock (recover_one ou now i \<sigma>) = nd_clock \<sigma>"
  by (auto simp: recover_one_def quiet_emit [OF assms] get_update_run split: option.split)

lemma recover_all_get:
  assumes "quiet ou" "distinct is"
  shows "run_get (fold (recover_one ou now) is \<sigma>) j =
    (if j \<in> set is then map_option (\<lambda>r. touch (nd_clock \<sigma>) (requeue_recovered now r)) (run_get \<sigma> j) else run_get \<sigma> j)"
  using assms(2) by (induction "is" arbitrary: \<sigma>) (auto simp: recover_one_fields [OF assms(1)])

definition interrupted :: "string \<Rightarrow> int \<Rightarrow> run \<Rightarrow> bool" where
  "interrupted node now r \<longleftrightarrow> rn_node r = node \<and> rn_status r = MsActive \<and> lease_lapsed now r"

lemma recoverable_ids:
  "recoverable_active_ids node now n \<sigma> = take n (map rn_id (filter (interrupted node now) (nd_runs \<sigma>)))"
  by (simp add: recoverable_active_ids_def interrupted_def [abs_def])

lemma recover_get:
  assumes "quiet ou" "wk_recovery wk" "distinct (map rn_id (nd_runs \<sigma>))" "r \<in> set (nd_runs \<sigma>)"
  shows "run_get (recover ou wk \<sigma>) (rn_id r) =
    Some (if rn_id r \<in> set (recoverable_active_ids (wk_node wk) (nd_clock \<sigma>) 50 \<sigma>)
          then touch (nd_clock \<sigma>) (requeue_recovered (nd_clock \<sigma>) r) else r)"
proof -
  have "distinct (map rn_id (filter P (nd_runs \<sigma>)))" for P
    using assms(3) by (auto simp: distinct_map intro: inj_on_subset)
  then have "distinct (recoverable_active_ids (wk_node wk) (nd_clock \<sigma>) 50 \<sigma>)" by (simp add: recoverable_ids)
  then show ?thesis using assms(2) tbl_get_in [OF assms(3,4)]
    by (simp add: recover_def recover_all_get [OF assms(1)])
qed

text \<open>Alone on the node, recovery reopens no terminal run: the runs it requeues are active.\<close>

lemma recover_keeps:
  assumes "quiet ou" "distinct (map rn_id (nd_runs \<sigma>))"
  shows "keeps \<sigma> (recover ou wk \<sigma>)"
proof (cases "wk_recovery wk")
  case True
  let ?ids = "recoverable_active_ids (wk_node wk) (nd_clock \<sigma>) 50 \<sigma>"
  show ?thesis
  proof (rule keepsI)
    fix i r assume r: "run_get \<sigma> i = Some r"
    then have r': "r \<in> set (nd_runs \<sigma>)" "rn_id r = i" using tbl_get_Some [OF r] by simp_all
    have active: "rn_status r = MsActive" if "i \<in> set ?ids"
    proof -
      from that obtain q where "q \<in> set (nd_runs \<sigma>)" "rn_id q = i" "rn_status q = MsActive"
        by (auto simp: recoverable_ids interrupted_def dest!: in_set_takeD)
      then show ?thesis using tbl_get_in [OF assms(2), of q] r by simp
    qed
    show "\<exists>r'. run_get (recover ou wk \<sigma>) i = Some r' \<and> mono_status r r' \<and> usage_of r' = usage_of r"
      using recover_get [OF assms(1) True assms(2) r'(1)] active by (auto simp: r'(2) mono_status_def)
  next
    fix i r' assume i: "run_get \<sigma> i = None" "run_get (recover ou wk \<sigma>) i = Some r'"
    have "distinct (map rn_id (filter P (nd_runs \<sigma>)))" for P
      using assms(2) by (auto simp: distinct_map intro: inj_on_subset)
    then have "distinct ?ids" by (simp add: recoverable_ids)
    with i True have False by (simp add: recover_def recover_all_get [OF assms(1)] split: if_splits)
    then show "unused (usage_of r')" ..
  qed
next
  case False
  then show ?thesis by (simp add: recover_def)
qed

section \<open>Usage under recovery\<close>

text \<open>No run loses or gains usage, whatever happens to its status.\<close>

definition same_usage :: "node \<Rightarrow> node \<Rightarrow> bool" where
  "same_usage \<sigma> \<sigma>' \<longleftrightarrow>
     (\<forall>i r. run_get \<sigma> i = Some r \<longrightarrow> (\<exists>r'. run_get \<sigma>' i = Some r' \<and> usage_of r' = usage_of r))
     \<and> new_unused (\<lambda>_. True) \<sigma> \<sigma>'"

lemma same_usageI:
  assumes "\<And>i r. run_get \<sigma> i = Some r \<Longrightarrow> \<exists>r'. run_get \<sigma>' i = Some r' \<and> usage_of r' = usage_of r"
    and "\<And>i r'. run_get \<sigma> i = None \<Longrightarrow> run_get \<sigma>' i = Some r' \<Longrightarrow> unused (usage_of r')"
  shows "same_usage \<sigma> \<sigma>'"
  using assms by (auto simp: same_usage_def new_unused_def)

lemma same_usageD:
  assumes "same_usage \<sigma> \<sigma>'"
  shows "run_get \<sigma> i = Some r \<Longrightarrow> \<exists>r'. run_get \<sigma>' i = Some r' \<and> usage_of r' = usage_of r"
    and "run_get \<sigma> i = None \<Longrightarrow> run_get \<sigma>' i = Some r' \<Longrightarrow> unused (usage_of r')"
  using assms by (auto simp: same_usage_def new_unused_def)

lemma keeps_same_usage: "keeps \<sigma> \<sigma>' \<Longrightarrow> same_usage \<sigma> \<sigma>'"
  by (rule same_usageI) (metis keepsD(1), metis keepsD(2))

lemma same_usage_trans:
  assumes "same_usage a b" "same_usage b c"
  shows "same_usage a c"
proof (rule same_usageI)
  fix i r assume "run_get a i = Some r"
  with assms show "\<exists>r'. run_get c i = Some r' \<and> usage_of r' = usage_of r" by (metis same_usageD(1))
next
  fix i r' assume i: "run_get a i = None" "run_get c i = Some r'"
  show "unused (usage_of r')"
  proof (cases "run_get b i")
    case None
    then show ?thesis using same_usageD(2) [OF assms(2)] i(2) by blast
  next
    case (Some q)
    then have "usage_of r' = usage_of q" using same_usageD(1) [OF assms(2) Some] i(2) by auto
    then show ?thesis using same_usageD(2) [OF assms(1) i(1) Some] by simp
  qed
qed

lemma recover_one_usage:
  assumes "outside_ok ou"
  shows "same_usage \<sigma> (recover_one ou now i \<sigma>)"
proof (cases "run_get \<sigma> i")
  case None
  then show ?thesis by (simp add: recover_one_def keeps_same_usage)
next
  case (Some r)
  let ?\<sigma>1 = "update_status (rn_mission r) MsQueued
    (update_run i (requeue_recovered now) (fail_interrupted (rn_mission r) now \<sigma>))"
  have "same_usage \<sigma> ?\<sigma>1"
    by (rule same_usageI) (auto simp: get_update_run split: if_splits)
  then show ?thesis
    using same_usage_trans [OF _ keeps_same_usage [OF keeps_emit [OF assms]]] by (simp add: recover_one_def Some)
qed

lemma recover_usage:
  assumes "outside_ok ou"
  shows "same_usage \<sigma> (recover ou wk \<sigma>)"
proof -
  have "same_usage \<tau> (fold (recover_one ou now) is \<tau>)" for "is" now \<tau>
    by (induction "is" arbitrary: \<tau>)
      (auto simp: keeps_same_usage intro: same_usage_trans [OF recover_one_usage [OF assms]])
  then show ?thesis by (simp add: recover_def keeps_same_usage)
qed

end
