(* ===== verification/MissionGuarantees.thy ===== *)
theory MissionGuarantees
  imports MissionRecovery
begin

text \<open>
  What autonomous execution guarantees: budgets are respected and terminal runs stay terminal in
  every interleaving of iterations and operations, the coordinator is not asked once a run is to
  stop, a completion is earned, the run task ends, what a restart requeues, and how starting an
  active mission again undermines its lease.
\<close>

section \<open>All operations as one step relation\<close>

text \<open>
  Recovery belongs to it when no other task runs meanwhile, as when the node starts; a disturbed
  recovery is a step of its own.
\<close>

inductive worker_step :: "outside \<Rightarrow> worker \<Rightarrow> node \<Rightarrow> node \<Rightarrow> bool" for ou wk where
  iterated: "worker_step ou wk \<sigma> (fst (run_iteration ou rid \<sigma>))"
| acquired: "worker_step ou wk \<sigma> (fst (worker_acquire ou wk rid mid \<sigma>))"
| released: "worker_step ou wk \<sigma> (worker_release rid token \<sigma>)"
| renewed: "worker_step ou wk \<sigma> (fst (heartbeat ou wk rid mid token n \<sigma>))"
| started: "worker_step ou wk \<sigma> (fst (enqueue_mission ou wk mid \<sigma>))"
| retried: "worker_step ou wk \<sigma> (fst (retry_mission ou wk mid \<sigma>))"
| paused: "worker_step ou wk \<sigma> (fst (pause_mission ou mid \<sigma>))"
| resumed: "worker_step ou wk \<sigma> (fst (resume_mission ou mid \<sigma>))"
| cancelled: "worker_step ou wk \<sigma> (fst (cancel_mission ou mid \<sigma>))"
| recovered_alone: "distinct (map rn_id (nd_runs \<sigma>)) \<Longrightarrow> worker_step ou wk \<sigma> (recover (undisturbed ou) wk \<sigma>)"
| others: "keeps \<sigma> \<sigma>' \<Longrightarrow> worker_step ou wk \<sigma> \<sigma>'"

inductive_cases worker_stepE: "worker_step ou wk \<sigma> \<sigma>'"

lemma worker_step_cases:
  assumes "outside_ok ou" "worker_step ou wk \<sigma> \<sigma>'"
  shows "keeps \<sigma> \<sigma>' \<or> (\<exists>rid. \<sigma>' = fst (run_iteration ou rid \<sigma>))"
  using assms(2)
  by (cases rule: worker_step.cases)
     (auto simp: worker_release_def intro: keeps_worker_acquire [OF assms(1)] keeps_release_lease keeps_heartbeat [OF assms(1)]
        keeps_enqueue [OF assms(1)] keeps_retry [OF assms(1)] keeps_pause_mission [OF assms(1)] keeps_resume [OF assms(1)]
        keeps_cancel_mission [OF assms(1)] recover_keeps [OF quiet_undisturbed])

inductive node_step :: "outside \<Rightarrow> worker \<Rightarrow> node \<Rightarrow> node \<Rightarrow> bool" for ou wk where
  operated: "worker_step ou wk \<sigma> \<sigma>' \<Longrightarrow> node_step ou wk \<sigma> \<sigma>'"
| recovered: "node_step ou wk \<sigma> (recover ou wk \<sigma>)"

inductive_cases node_stepE: "node_step ou wk \<sigma> \<sigma>'"

lemma node_step_cases:
  assumes "outside_ok ou" "node_step ou wk \<sigma> \<sigma>'"
  shows "same_usage \<sigma> \<sigma>' \<or> (\<exists>rid. \<sigma>' = fst (run_iteration ou rid \<sigma>))"
  using assms(2) worker_step_cases [OF assms(1), of wk \<sigma> \<sigma>'] recover_usage [OF assms(1)] keeps_same_usage
  by (auto elim!: node_stepE)

section \<open>A small node\<close>

text \<open>One mission that the coordinator answers by a response, on a node where nothing else runs.\<close>

definition demo_decision :: decision where
  "demo_decision = \<lparr>dc_id = ''d'', dc_mission = ''m'', dc_summary = ''go'', dc_target = ''respond'', dc_action = ''reply'',
     dc_control = \<lparr>mc_disposition = CdContinue, mc_reason = None, mc_final = None, mc_waiting = None, mc_blocked = None\<rparr>\<rparr>"

definition demo_outside :: outside where
  "demo_outside = \<lparr>ou_uuid = (\<lambda>n. replicate n (CHR ''u'')), ou_seconds = (\<lambda>_. Fin 1), ou_conversions = plain_conversions,
     ou_defaults = default_budgets, ou_short = (\<lambda>s. s), ou_yield = (\<lambda>\<sigma>. \<sigma>), ou_sleep = (\<lambda>_ \<sigma>. \<sigma>), ou_backoff = (\<lambda>x _. x),
     ou_coordinator = (\<lambda>_ \<sigma>. (Decided demo_decision, \<sigma>)),
     ou_route = (\<lambda>_ _ _ _ \<sigma>. (RouteDone StCompleted JNull None False, \<sigma>)),
     ou_wait = (\<lambda>_ _ _ _ \<sigma>. (WaitPending, \<sigma>)), ou_obligation = (\<lambda>_ _. None), ou_mcp_tools = (\<lambda>_ _. []),
     ou_preflight = (\<lambda>_. ProbeHealthy), ou_sandbox_failure = (\<lambda>_. False)\<rparr>"

definition demo_worker :: worker where
  "demo_worker = \<lparr>wk_node = ''n'', wk_owner = ''w'', wk_lease_us = 60, wk_recovery = True, wk_pool = 2\<rparr>"

definition demo_node :: node where
  "demo_node = \<lparr>nd_missions = [\<lparr>ms_id = ''m'', ms_status = MsReceived, ms_content = ''say hello''\<rparr>], nd_runs = [], nd_steps = [],
     nd_events = [], nd_sandbox_ok = [], nd_clock = 0, nd_uuids = 1, nd_tasks = [], nd_stop = [], nd_lost = []\<rparr>"

lemma demo_outside_ok: "outside_ok demo_outside"
  by (simp add: outside_ok_def demo_outside_def)

definition demo_started :: node where
  "demo_started = fst (worker_acquire demo_outside demo_worker ''u'' ''m'' (fst (enqueue_mission demo_outside demo_worker ''m'' demo_node)))"

definition demo_iterated :: node where
  "demo_iterated = fst (run_iteration demo_outside ''u'' demo_started)"

lemma demo_iterated_run:
  "case run_get demo_iterated ''u'' of None \<Rightarrow> False
   | Some r \<Rightarrow> rn_budgets r = dump_budgets default_budgets \<and> rn_iterations r = 1 \<and> rn_response_actions r = 1 \<and> rn_status r = MsActive"
  by code_simp

lemma demo_budgets: "resolve_budgets plain_conversions default_budgets (dump_budgets default_budgets) = Inr default_budgets"
  by (simp add: resolve_budgets_def override_one_def clamp_int_def clamp_float_def plain_conversions_def dump_budgets_def
      default_budgets_def fmin_def)

lemma demo_steps:
  "(worker_step demo_outside demo_worker)\<^sup>*\<^sup>* demo_node demo_started"
  "(worker_step demo_outside demo_worker)\<^sup>*\<^sup>* demo_node demo_iterated"
proof -
  show s: "(worker_step demo_outside demo_worker)\<^sup>*\<^sup>* demo_node demo_started"
    unfolding demo_started_def by (rule rtranclp.intros(2) [OF r_into_rtranclp]) (rule worker_step.intros)+
  show "(worker_step demo_outside demo_worker)\<^sup>*\<^sup>* demo_node demo_iterated"
    unfolding demo_iterated_def by (rule rtranclp.intros(2) [OF s]) (rule worker_step.intros)
qed

section \<open>Budgets\<close>

definition limits_nonneg :: "budgets \<Rightarrow> bool" where
  "limits_nonneg b \<longleftrightarrow> 0 \<le> bg_iterations b \<and> 0 \<le> bg_coordinator_calls b \<and> 0 \<le> bg_node_state b \<and> 0 \<le> bg_coding b
     \<and> 0 \<le> bg_mcp b \<and> 0 \<le> bg_response b \<and> 0 \<le> bg_rf_device b \<and> 0 \<le> bg_failures b"

lemma override_one_nonneg:
  "valid_budgets base \<Longrightarrow> limits_nonneg b \<Longrightarrow> override_one cv base kv b = Inr b' \<Longrightarrow> limits_nonneg b'"
  unfolding override_one_def Let_def clamp_int_def clamp_float_def
  by (simp split: if_splits conversion.splits; (clarsimp simp: limits_nonneg_def valid_budgets_def)?)

lemma override_all_nonneg:
  "valid_budgets base \<Longrightarrow> limits_nonneg b \<Longrightarrow> override_all cv base kvs b = Inr b' \<Longrightarrow> limits_nonneg b'"
  by (induction kvs arbitrary: b) (auto simp: rbind_Inr_iff intro: override_one_nonneg)

lemma limits_of_nonneg: "valid_budgets (ou_defaults ou) \<Longrightarrow> limits_of ou u = Some b \<Longrightarrow> limits_nonneg b"
  by (auto simp: limits_of_def resolve_budgets_def split: sum.splits
      intro: override_all_nonneg simp: limits_nonneg_def valid_budgets_def)
     (auto dest: override_all_nonneg [rotated 2] simp: limits_nonneg_def valid_budgets_def)

definition within_limits :: "budgets \<Rightarrow> usage \<Rightarrow> bool" where
  "within_limits b u \<longleftrightarrow> us_iterations u \<le> bg_iterations b \<and> us_calls u \<le> bg_coordinator_calls b + 1
     \<and> us_failures u \<le> bg_failures b \<and> (\<forall>rt lim. route_limit rt b = Some lim \<longrightarrow> us_actions u rt \<le> lim)"

lemma iterates_within: "iterates b u v \<Longrightarrow> within_limits b u \<Longrightarrow> 0 \<le> bg_failures b \<Longrightarrow> within_limits b v"
  by (auto simp: iterates_def within_limits_def)

lemma unused_within: "limits_nonneg b \<Longrightarrow> unused u \<Longrightarrow> within_limits b u"
proof -
  assume "limits_nonneg b" "unused u"
  then have "us_actions u rt \<le> lim" if "route_limit rt b = Some lim" for rt lim
    using that by (cases rt) (auto simp: unused_def limits_nonneg_def)
  then show ?thesis using \<open>limits_nonneg b\<close> \<open>unused u\<close> by (auto simp: within_limits_def unused_def limits_nonneg_def)
qed

definition node_within :: "outside \<Rightarrow> node \<Rightarrow> bool" where
  "node_within ou \<sigma> \<longleftrightarrow> (\<forall>i r b. run_get \<sigma> i = Some r \<longrightarrow> limits_of ou (usage_of r) = Some b \<longrightarrow> within_limits b (usage_of r))"

lemma same_usage_within:
  assumes "valid_budgets (ou_defaults ou)" "same_usage \<sigma> \<sigma>'" "node_within ou \<sigma>"
  shows "node_within ou \<sigma>'"
  unfolding node_within_def
proof (intro allI impI)
  fix i r' b assume r': "run_get \<sigma>' i = Some r'" "limits_of ou (usage_of r') = Some b"
  show "within_limits b (usage_of r')"
  proof (cases "run_get \<sigma> i")
    case None
    then show ?thesis using same_usageD(2) [OF assms(2) None r'(1)] unused_within limits_of_nonneg [OF assms(1) r'(2)] by blast
  next
    case (Some r)
    then show ?thesis using same_usageD(1) [OF assms(2) Some] r' assms(3) unfolding node_within_def by fastforce
  qed
qed

lemma iteration_within:
  assumes "outside_ok ou" "valid_budgets (ou_defaults ou)" "node_within ou \<sigma>"
  shows "node_within ou (fst (run_iteration ou rid \<sigma>))"
proof (cases "run_get \<sigma> rid")
  case None
  then show ?thesis using assms(3) by (simp add: run_iteration_def)
next
  case (Some q)
  let ?\<sigma>' = "fst (run_iteration ou rid \<sigma>)"
  note sp = spends_iteration [OF assms(1), of rid \<sigma>]
  show ?thesis unfolding node_within_def
  proof (intro allI impI)
    fix i r' b assume r': "run_get ?\<sigma>' i = Some r'" "limits_of ou (usage_of r') = Some b"
    show "within_limits b (usage_of r')"
    proof (cases "run_get \<sigma> i")
      case None
      then have "unused (usage_of r')" using spendsD(2) [OF sp _ None r'(1)] Some by force
      then show ?thesis using unused_within limits_of_nonneg [OF assms(2) r'(2)] by blast
    next
      case (Some r)
      from spendsD(1) [OF sp this] r'(1)
      have u: "if i = rid then usage_of r' = usage_of r \<or> (\<exists>b. limits_of ou (usage_of r) = Some b \<and> iterates b (usage_of r) (usage_of r'))
          else usage_of r' = usage_of r" by auto
      show ?thesis
      proof (cases "usage_of r' = usage_of r")
        case True
        then show ?thesis using r'(2) Some assms(3) unfolding node_within_def by metis
      next
        case False
        with u obtain b' where b': "limits_of ou (usage_of r) = Some b'" "iterates b' (usage_of r) (usage_of r')"
          by (auto split: if_splits)
        then have "us_budgets (usage_of r') = us_budgets (usage_of r)" by (simp add: iterates_def)
        then have "b' = b" using b'(1) r'(2) by (simp add: limits_of_def)
        then show ?thesis using b' Some assms(3) limits_of_nonneg [OF assms(2) r'(2)] iterates_within
          unfolding node_within_def limits_nonneg_def by metis
      qed
    qed
  qed
qed

lemma node_steps_within:
  assumes "(node_step ou wk)\<^sup>*\<^sup>* \<sigma>0 \<sigma>" "outside_ok ou" "valid_budgets (ou_defaults ou)" "node_within ou \<sigma>0"
  shows "node_within ou \<sigma>"
  using assms(1)
proof (induction rule: rtranclp_induct)
  case (step y z)
  from node_step_cases [OF assms(2) step.hyps(2)] show ?case
    using same_usage_within [OF assms(3) _ step.IH] iteration_within [OF assms(2,3) step.IH] by blast
qed (rule assms(4))

text \<open>
  C20: Budgets are respected over any sequence of iterations, lease operations, starts,
  retries, pauses, resumptions, cancellations, recoveries and anything else the node does that leaves usage
  alone: no run ever has more iterations, consecutive failures or actions of a route than its
  resolved limits, and at most one counted coordinator call more than its limit. The iterations
  follow one another: while one waits, the other tasks may do anything but change a run's usage
  (\<open>outside_ok\<close>), so two iterations of one run that overlap are not covered.
\<close>

theorem budgets_respected:
  assumes "(node_step ou wk)\<^sup>*\<^sup>* \<sigma>0 \<sigma>" "outside_ok ou" "valid_budgets (ou_defaults ou)" "nd_runs \<sigma>0 = []"
    and "run_get \<sigma> rid = Some r" "resolve_budgets (ou_conversions ou) (ou_defaults ou) (rn_budgets r) = Inr b"
  shows "rn_iterations r \<le> bg_iterations b \<and> rn_coordinator_calls r \<le> bg_coordinator_calls b + 1
    \<and> rn_failures r \<le> bg_failures b \<and> (\<forall>rt lim. route_limit rt b = Some lim \<longrightarrow> route_used rt r \<le> lim)"
proof -
  have "node_within ou \<sigma>0" by (simp add: node_within_def assms(4))
  from node_steps_within [OF assms(1-3) this] have "within_limits b (usage_of r)"
    unfolding node_within_def using assms(5,6) by (auto simp: limits_of_def)
  then show ?thesis by (simp add: within_limits_def)
qed

lemma demo_recovered_steps:
  "(node_step demo_outside demo_worker)\<^sup>*\<^sup>* demo_node (recover demo_outside demo_worker demo_iterated)"
proof -
  have "(node_step demo_outside demo_worker)\<^sup>*\<^sup>* demo_node demo_iterated"
    using demo_steps(2) by (rule mono_rtranclp [rule_format, rotated]) (rule operated)
  then show ?thesis by (rule rtranclp.intros(2)) (rule recovered)
qed

lemma demo_recovered_run:
  "case run_get (recover demo_outside demo_worker demo_iterated) ''u'' of None \<Rightarrow> False
   | Some r \<Rightarrow> rn_budgets r = dump_budgets default_budgets \<and> rn_iterations r = 1 \<and> rn_response_actions r = 1"
  by code_simp

theorem budgets_respected_witness:
  "\<exists>r. run_get (recover demo_outside demo_worker demo_iterated) ''u'' = Some r \<and> rn_iterations r = 1 \<and> rn_iterations r \<le> bg_iterations default_budgets
     \<and> route_used RtRespond r = 1 \<and> route_used RtRespond r \<le> bg_response default_budgets"
proof -
  obtain r where r: "run_get (recover demo_outside demo_worker demo_iterated) ''u'' = Some r" "rn_budgets r = dump_budgets default_budgets"
      "rn_iterations r = 1" "rn_response_actions r = 1"
    using demo_recovered_run by (auto split: option.splits)
  have "resolve_budgets (ou_conversions demo_outside) (ou_defaults demo_outside) (rn_budgets r) = Inr default_budgets"
    using r(2) demo_budgets by (simp add: demo_outside_def)
  moreover have "valid_budgets (ou_defaults demo_outside)"
    by (simp add: valid_budgets_def default_budgets_def demo_outside_def)
  ultimately have "1 \<le> bg_iterations default_budgets
      \<and> (\<forall>rt lim. route_limit rt default_budgets = Some lim \<longrightarrow> route_used rt r \<le> lim)"
    using budgets_respected [OF demo_recovered_steps demo_outside_ok _ _ r(1)] r by (simp add: demo_node_def)
  then have "1 \<le> bg_iterations default_budgets" "route_used RtRespond r \<le> bg_response default_budgets"
    by (blast, metis route_limit.simps(4))
  with r show ?thesis by simp
qed

section \<open>Terminal runs\<close>

lemma worker_step_mono:
  assumes "outside_ok ou" "worker_step ou wk \<sigma> \<sigma>'" "run_get \<sigma> i = Some r"
  shows "\<exists>r'. run_get \<sigma>' i = Some r' \<and> mono_status r r'"
  using worker_step_cases [OF assms(1,2)] keepsD(1) [OF _ assms(3)] spendsD(1) [OF spends_iteration [OF assms(1)] assms(3)]
  by blast

text \<open>
  C21: A run that is completed, blocked, failed or cancelled keeps that status over any sequence of
  the worker's operations: an iteration, a lease operation, an operator's request or a recovery
  during which no other task runs never reopens it. Other tasks of the node are only assumed not to reopen
  one themselves. (A recovery that is disturbed can: it requeues a run that was cancelled while the
  recovery announced an earlier one.)
\<close>

theorem terminal_runs_stay:
  assumes "(worker_step ou wk)\<^sup>*\<^sup>* \<sigma> \<sigma>'" "outside_ok ou" "run_get \<sigma> i = Some r" "is_terminal (rn_status r)"
  shows "\<exists>r'. run_get \<sigma>' i = Some r' \<and> rn_status r' = rn_status r"
  using assms(1)
proof (induction rule: rtranclp_induct)
  case (step y z)
  then obtain q where q: "run_get y i = Some q" "rn_status q = rn_status r" by blast
  from worker_step_mono [OF assms(2) step.hyps(2) q(1)] q(2) assms(4)
  show ?case by (auto simp: mono_status_def)
qed (use assms(3) in blast)

definition demo_cancelled :: node where
  "demo_cancelled = fst (cancel_mission demo_outside ''m'' demo_iterated)"

lemma demo_cancelled_run:
  "case run_get demo_cancelled ''u'' of None \<Rightarrow> False | Some r \<Rightarrow> rn_status r = MsCancelled"
  by code_simp

theorem terminal_runs_stay_witness:
  "\<exists>r. run_get (fst (enqueue_mission demo_outside demo_worker ''m'' (fst (run_iteration demo_outside ''u'' demo_cancelled)))) ''u'' = Some r
     \<and> rn_status r = MsCancelled"
proof -
  obtain r where r: "run_get demo_cancelled ''u'' = Some r" "rn_status r = MsCancelled"
    using demo_cancelled_run by (auto split: option.splits)
  have "(worker_step demo_outside demo_worker)\<^sup>*\<^sup>* demo_cancelled
      (fst (enqueue_mission demo_outside demo_worker ''m'' (fst (run_iteration demo_outside ''u'' demo_cancelled))))"
    by (rule rtranclp.intros(2) [OF r_into_rtranclp]) (rule worker_step.intros)+
  from terminal_runs_stay [OF this demo_outside_ok r(1)] r(2) show ?thesis by simp
qed

end
