(* ===== verification/MissionOutcomes.thy ===== *)
theory MissionOutcomes
  imports MissionGuarantees
begin

text \<open>
  What one iteration and the run task do, outcome by outcome: when the coordinator is not asked,
  what an invalid decision costs, when a mission completes, and why the run task ends.
\<close>

section \<open>When an iteration goes ahead\<close>

text \<open>The limits an iteration works under, if it gets past the stop requests and the budgets.\<close>

definition admitted :: "outside \<Rightarrow> run \<Rightarrow> budgets option" where
  "admitted ou r =
     (if rn_status r = MsActive \<and> \<not> (rn_cancel_requested r \<noteq> None \<and> rn_cancel_acknowledged r = None) \<and> \<not> rn_pause_requested r
      then case resolve_budgets (ou_conversions ou) (ou_defaults ou) (rn_budgets r) of
             Inl _ \<Rightarrow> None
           | Inr b \<Rightarrow> if iteration_block r b = None then Some b else None
      else None)"

lemma admitted_Some:
  "admitted ou r = Some b \<longleftrightarrow> rn_status r = MsActive \<and> \<not> (rn_cancel_requested r \<noteq> None \<and> rn_cancel_acknowledged r = None)
     \<and> \<not> rn_pause_requested r \<and> resolve_budgets (ou_conversions ou) (ou_defaults ou) (rn_budgets r) = Inr b \<and> iteration_block r b = None"
  by (auto simp: admitted_def split: sum.split)

lemma run_iteration_admitted:
  assumes "run_get \<sigma> rid = Some r" "admitted ou r = Some b" "\<sigma>1 = start_iteration ou rid r \<sigma>"
  shows "run_iteration ou rid \<sigma> =
    (case (mission_get \<sigma>1 (rn_mission r), run_get \<sigma>1 rid) of
       (None, _) \<Rightarrow> (\<sigma>1, Inr OcStopped)
     | (Some _, None) \<Rightarrow> (\<sigma>1, Inl RunVanished)
     | (Some _, Some r1) \<Rightarrow> decide ou rid (rn_mission r) b r1 \<sigma>1)"
  using assms(2) unfolding admitted_Some assms(3) by (auto simp: run_iteration_def assms(1) Let_def)

text \<open>Everything else an iteration does, in one definition: it asks nobody.\<close>

definition halt_iteration :: "outside \<Rightarrow> string \<Rightarrow> run \<Rightarrow> node \<Rightarrow> engine_result" where
  "halt_iteration ou rid r \<sigma> =
     (if rn_status r \<noteq> MsActive then (\<sigma>, Inr OcStopped)
      else if rn_cancel_requested r \<noteq> None \<and> rn_cancel_acknowledged r = None then handle_cancel ou rid (rn_mission r) \<sigma>
      else if rn_pause_requested r then handle_pause ou rid (rn_mission r) \<sigma>
      else case resolve_budgets (ou_conversions ou) (ou_defaults ou) (rn_budgets r) of
             Inl e \<Rightarrow> (\<sigma>, Inl (BudgetsRaised e))
           | Inr b \<Rightarrow> (case iteration_block r b of
               Some why \<Rightarrow> handle_budget_block ou rid (rn_mission r) why \<sigma>
             | None \<Rightarrow> (\<sigma>, Inr OcStopped)))"

lemma run_iteration_halted:
  assumes "run_get \<sigma> rid = Some r" "admitted ou r = None"
  shows "run_iteration ou rid \<sigma> = halt_iteration ou rid r \<sigma>"
  using assms(2)
  by (auto simp: run_iteration_def halt_iteration_def assms(1) Let_def admitted_def split: if_splits sum.split option.split)

lemma block_run_outcome: "snd (block_run ou rid mid why d evs \<sigma>) = Inr oc \<Longrightarrow> oc = OcBlocked"
  by (auto simp: block_run_def split: prod.splits sum.splits)

lemma block_run_result:
  "case snd (block_run ou rid mid why d evs \<sigma>) of Inl e \<Rightarrow> \<exists>t. e = TransitionRejected t | Inr oc \<Rightarrow> oc = OcBlocked"
  by (auto simp: block_run_def apply_transition_def split: prod.splits sum.splits option.splits)

lemma block_outcomes:
  "snd (handle_budget_block ou rid mid w \<sigma>) = Inr oc \<Longrightarrow> oc = OcBlocked"
  "snd (handle_permanent_block ou rid mid c e \<sigma>) = Inr oc \<Longrightarrow> oc = OcBlocked"
  "snd (handle_quota_block ou rid mid e \<sigma>) = Inr oc \<Longrightarrow> oc = OcBlocked"
  "snd (handle_coding_sandbox_block ou rid mid e \<sigma>) = Inr oc \<Longrightarrow> oc = OcBlocked"
  "snd (handle_mcp_requirement_block ou rid mid q \<sigma>) = Inr oc \<Longrightarrow> oc = OcBlocked"
  "snd (handle_blocked ou rid mid d \<sigma>) = Inr oc \<Longrightarrow> oc = OcBlocked"
  by (auto simp: handle_budget_block_def handle_permanent_block_def handle_quota_block_def
      handle_coding_sandbox_block_def handle_mcp_requirement_block_def handle_blocked_def Let_def dest: block_run_outcome)

lemma pause_outcomes: "snd (handle_pause ou rid mid \<sigma>) = Inr oc \<Longrightarrow> oc = OcStopped \<or> oc = OcPaused"
  by (auto simp: handle_pause_def split: prod.splits sum.splits)

lemma cancel_outcomes: "snd (handle_cancel ou rid mid \<sigma>) = Inr oc \<Longrightarrow> oc = OcStopped \<or> oc = OcCancelled"
  by (auto simp: handle_cancel_def Let_def split: prod.splits sum.splits)

lemma halt_outcomes: "snd (halt_iteration ou rid r \<sigma>) = Inr oc \<Longrightarrow> oc \<in> {OcStopped, OcCancelled, OcPaused, OcBlocked}"
  by (auto simp: halt_iteration_def split: if_splits sum.splits option.splits
      dest: block_outcomes pause_outcomes cancel_outcomes)

lemma halt_asks_nobody:
  "halt_iteration (ou\<lparr>ou_coordinator := c, ou_route := x, ou_wait := w, ou_sleep := s\<rparr>) rid r \<sigma> = halt_iteration ou rid r \<sigma>"
proof -
  let ?ou = "ou\<lparr>ou_coordinator := c, ou_route := x, ou_wait := w, ou_sleep := s\<rparr>"
  have "emit ?ou = emit ou" by (intro ext) (simp add: emit_def)
  moreover have "new_uuid ?ou = new_uuid ou" by (intro ext) (simp add: new_uuid_def)
  then have "persist_control_step ?ou = persist_control_step ou"
    by (intro ext) (simp add: persist_control_step_def cong: option.case_cong)
  ultimately have "handle_pause ?ou rid (rn_mission r) \<sigma> = handle_pause ou rid (rn_mission r) \<sigma>"
    "handle_cancel ?ou rid (rn_mission r) \<sigma> = handle_cancel ou rid (rn_mission r) \<sigma>"
    "handle_budget_block ?ou rid (rn_mission r) why \<sigma> = handle_budget_block ou rid (rn_mission r) why \<sigma>" for why
    by (simp_all add: handle_cancel_def handle_pause_def handle_budget_block_def block_run_def
        cong: sum.case_cong prod.case_cong)
  then show ?thesis unfolding halt_iteration_def
    by (simp cong: sum.case_cong option.case_cong if_cong)
qed

text \<open>
  Once a run is to stop, the iteration asks nobody: if a cancellation waits, a pause is
  requested, the run is not active or a budget is exhausted, then whatever the coordinator, the routes, the
  peer-reply service and the retry sleep would have done is irrelevant, and the mission is cancelled, paused, blocked or left.
  A cancellation comes before a pause, and both before the budgets.
\<close>

theorem coordinator_not_consulted:
  assumes "run_get \<sigma> rid = Some r" "admitted ou r = None"
  shows "run_iteration (ou\<lparr>ou_coordinator := c, ou_route := x, ou_wait := w, ou_sleep := s\<rparr>) rid \<sigma> = run_iteration ou rid \<sigma>
    \<and> snd (run_iteration ou rid \<sigma>) \<noteq> Inr OcContinued \<and> snd (run_iteration ou rid \<sigma>) \<noteq> Inr OcCompleted
    \<and> (rn_status r = MsActive \<and> rn_cancel_requested r \<noteq> None \<and> rn_cancel_acknowledged r = None
        \<longrightarrow> run_iteration ou rid \<sigma> = handle_cancel ou rid (rn_mission r) \<sigma>)
    \<and> (rn_status r = MsActive \<and> rn_cancel_requested r = None \<and> rn_pause_requested r
        \<longrightarrow> run_iteration ou rid \<sigma> = handle_pause ou rid (rn_mission r) \<sigma>)"
proof -
  let ?ou = "ou\<lparr>ou_coordinator := c, ou_route := x, ou_wait := w, ou_sleep := s\<rparr>"
  have "admitted ?ou r = admitted ou r" by (auto simp: admitted_def)
  with assms have "run_iteration ?ou rid \<sigma> = halt_iteration ou rid r \<sigma>" "run_iteration ou rid \<sigma> = halt_iteration ou rid r \<sigma>"
    by (simp_all add: run_iteration_halted halt_asks_nobody)
  moreover have "snd (halt_iteration ou rid r \<sigma>) \<noteq> Inr OcContinued" "snd (halt_iteration ou rid r \<sigma>) \<noteq> Inr OcCompleted"
    using halt_outcomes [of ou rid r \<sigma>] by fastforce+
  ultimately show ?thesis by (auto simp: halt_iteration_def)
qed

definition demo_cancelling :: node where
  "demo_cancelling = fst (cancel_mission demo_outside ''m'' (demo_started\<lparr>nd_tasks := [''m'']\<rparr>))"

lemma demo_cancelling_run:
  "case run_get demo_cancelling ''u'' of None \<Rightarrow> False | Some r \<Rightarrow> admitted demo_outside r = None \<and> rn_status r = MsActive
     \<and> rn_cancel_requested r = Some 0 \<and> rn_cancel_acknowledged r = None"
  "snd (run_iteration demo_outside ''u'' demo_cancelling) = Inr OcCancelled"
  by code_simp+

theorem coordinator_not_consulted_witness:
  "snd (run_iteration (demo_outside\<lparr>ou_coordinator := (\<lambda>_ \<sigma>. (CoordinatorRaised, \<sigma>)),
     ou_route := (\<lambda>_ _ _ _ \<sigma>. (RouteRaised [], \<sigma>)), ou_wait := (\<lambda>_ _ _ _ \<sigma>. (WaitRaised, \<sigma>)), ou_sleep := (\<lambda>_ \<sigma>. \<sigma>)\<rparr>)
     ''u'' demo_cancelling) = Inr OcCancelled"
proof -
  obtain r where "run_get demo_cancelling ''u'' = Some r" "admitted demo_outside r = None"
    using demo_cancelling_run(1) by (auto split: option.splits)
  note coordinator_not_consulted [OF this, THEN conjunct1]
  then show ?thesis using demo_cancelling_run(2) by simp
qed

section \<open>An invalid decision\<close>

text \<open>Exactly what a call that failed adds to the usage.\<close>

definition one_failure :: "usage \<Rightarrow> usage \<Rightarrow> bool" where
  "one_failure u v \<longleftrightarrow> v = u\<lparr>us_calls := us_calls u + 1, us_failures := us_failures u + 1\<rparr>"

lemma invalid_decision_usage:
  assumes "outside_ok ou" "run_get \<sigma> rid = Some r"
  shows "\<exists>r'. run_get (fst (handle_invalid_decision ou rid mid b d why \<sigma>)) rid = Some r' \<and> one_failure (usage_of r) (usage_of r')"
proof -
  let ?\<sigma>1 = "persist_control_step ou mid rid ''blocked'' StFailed (Some (NoteInvalid why)) (Some d) \<sigma>"
  let ?f = "\<lambda>x. x\<lparr>rn_coordinator_calls := rn_coordinator_calls r + 1, rn_last_decision := Some (dc_id d), rn_failures := rn_failures r + 1\<rparr>"
  let ?\<sigma>2 = "update_run rid ?f ?\<sigma>1"
  obtain r1 where r1: "run_get ?\<sigma>1 rid = Some r1" "usage_of r1 = usage_of r"
    using keeps_get [OF keeps_control_step assms(2)] by blast
  have "run_get ?\<sigma>2 rid = Some (touch (nd_clock ?\<sigma>1) (?f r1))" using r1(1) by (simp add: get_update_run)
  moreover have "one_failure (usage_of r) (usage_of (touch t (?f r1)))" for t
    using r1(2) by (simp add: one_failure_def usage_counts)
  ultimately obtain r2 where r2: "run_get ?\<sigma>2 rid = Some r2" "one_failure (usage_of r) (usage_of r2)" by blast
  have "keeps ?\<sigma>2 (fst (handle_invalid_decision ou rid mid b d why \<sigma>))"
    using keeps_blocks(1) [OF assms(1)] by (simp add: handle_invalid_decision_def assms(2) Let_def)
  from keeps_get [OF this r2(1)] r2(2) show ?thesis by metis
qed

lemma start_iteration_run:
  assumes "outside_ok ou" "run_get \<sigma> rid = Some r"
  obtains r1 where "run_get (start_iteration ou rid r \<sigma>) rid = Some r1" "mono_status r r1"
    "usage_of r1 = (usage_of r)\<lparr>us_iterations := rn_iterations r + 1\<rparr>"
  using spendsD(1) [OF start_spends [OF assms] assms(2)] by auto

text \<open>
  C24: A decision that breaks the mission-control contract costs two calls of the coordinator
  budget although the coordinator answered once: the iteration counts the call, and so does the
  handler that rejects the decision. It also counts one iteration and one consecutive failure, and
  no route is charged.
\<close>

theorem invalid_decision_costs_two_calls:
  assumes "outside_ok ou" "run_get \<sigma> rid = Some r" "admitted ou r = Some b"
    and "\<sigma>1 = start_iteration ou rid r \<sigma>" "mission_get \<sigma>1 (rn_mission r) \<noteq> None"
    and "fst (ou_coordinator ou (rn_mission r) \<sigma>1) = Decided d" "validate_mission_control d = Some why"
  shows "\<exists>r'. run_get (fst (run_iteration ou rid \<sigma>)) rid = Some r' \<and> rn_coordinator_calls r' = rn_coordinator_calls r + 2
    \<and> rn_iterations r' = rn_iterations r + 1 \<and> rn_failures r' = rn_failures r + 1 \<and> (\<forall>rt. route_used rt r' = route_used rt r)"
proof -
  let ?mid = "rn_mission r"
  obtain r1 where r1: "run_get \<sigma>1 rid = Some r1" "usage_of r1 = (usage_of r)\<lparr>us_iterations := rn_iterations r + 1\<rparr>"
    unfolding assms(4) by (rule start_iteration_run [OF assms(1,2)])
  obtain \<sigma>2 where \<sigma>2: "ou_coordinator ou ?mid \<sigma>1 = (Decided d, \<sigma>2)"
    using assms(6) by (cases "ou_coordinator ou ?mid \<sigma>1") auto
  have "keeps \<sigma>1 \<sigma>2" using outside_okD(3) [OF assms(1), of \<sigma>1 ?mid] \<sigma>2 by simp
  from keeps_get [OF this r1(1)] obtain r2 where r2: "run_get \<sigma>2 rid = Some r2" "usage_of r2 = usage_of r1" by blast
  let ?f = "\<lambda>x. x\<lparr>rn_coordinator_calls := rn_coordinator_calls r1 + 1, rn_last_decision := Some (dc_id d)\<rparr>"
  let ?r3 = "touch (nd_clock \<sigma>2) (?f r2)"
  have r3: "run_get (update_run rid ?f \<sigma>2) rid = Some ?r3" using r2(1) by (simp add: get_update_run)
  have u3: "usage_of ?r3 = (usage_of r)\<lparr>us_iterations := rn_iterations r + 1, us_calls := rn_coordinator_calls r1 + 1\<rparr>"
    using r2(2) r1(2) by (simp add: usage_counts)
  have "us_calls (usage_of r1) = rn_coordinator_calls r" using r1(2) by simp
  then have c: "rn_coordinator_calls r1 = rn_coordinator_calls r" by simp
  have "run_iteration ou rid \<sigma> = handle_invalid_decision ou rid ?mid b d (BadControl why) (update_run rid ?f \<sigma>2)"
    using run_iteration_admitted [OF assms(2,3,4)] assms(5,7) r1(1) \<sigma>2 by (auto simp: decide_def Let_def)
  with invalid_decision_usage [OF assms(1) r3] obtain r' where r': "run_get (fst (run_iteration ou rid \<sigma>)) rid = Some r'"
      "one_failure (usage_of ?r3) (usage_of r')" by metis
  from r'(2) have "usage_of r' = (usage_of r)\<lparr>us_iterations := rn_iterations r + 1, us_calls := rn_coordinator_calls r + 2,
      us_failures := rn_failures r + 1\<rparr>"
    unfolding one_failure_def u3 by (simp add: c)
  then have "us_calls (usage_of r') = rn_coordinator_calls r + 2" "us_iterations (usage_of r') = rn_iterations r + 1"
      "us_failures (usage_of r') = rn_failures r + 1" "us_actions (usage_of r') = us_actions (usage_of r)" by simp_all
  then show ?thesis using r'(1) by (metis usage_of_simps(1-4))
qed

definition mute_decision :: decision where
  "mute_decision = demo_decision\<lparr>dc_target := ''  ''\<rparr>"

definition mute_outside :: outside where
  "mute_outside = demo_outside\<lparr>ou_coordinator := (\<lambda>_ \<sigma>. (Decided mute_decision, \<sigma>))\<rparr>"

lemma mute_outside_ok: "outside_ok mute_outside"
  by (simp add: outside_ok_def mute_outside_def demo_outside_def)

lemma demo_started_run:
  "case run_get demo_started ''u'' of None \<Rightarrow> False | Some r \<Rightarrow> rn_mission r = ''m'' \<and> rn_coordinator_calls r = 0
     \<and> admitted mute_outside r \<noteq> None \<and> mission_get (start_iteration mute_outside ''u'' r demo_started) ''m'' \<noteq> None"
  "validate_mission_control mute_decision = Some NoTarget"
  by code_simp+

theorem invalid_decision_costs_two_calls_witness:
  "\<exists>r. run_get (fst (run_iteration mute_outside ''u'' demo_started)) ''u'' = Some r \<and> rn_coordinator_calls r = 2"
proof -
  obtain r b where r: "run_get demo_started ''u'' = Some r" "rn_mission r = ''m''" "rn_coordinator_calls r = 0"
      "admitted mute_outside r = Some b" "mission_get (start_iteration mute_outside ''u'' r demo_started) ''m'' \<noteq> None"
    using demo_started_run(1) by (auto split: option.splits)
  have "fst (ou_coordinator mute_outside mid \<sigma>) = Decided mute_decision" for mid \<sigma> by (simp add: mute_outside_def)
  from invalid_decision_costs_two_calls [OF mute_outside_ok r(1,4) refl _ this demo_started_run(2)] r(2,3,5)
  show ?thesis by auto
qed

section \<open>Outcomes of the handlers\<close>

lemma invalid_outcomes: "snd (handle_invalid_decision ou rid mid b d why \<sigma>) = Inr oc \<Longrightarrow> oc = OcContinued \<or> oc = OcBlocked"
  by (auto simp: handle_invalid_decision_def Let_def split: option.splits if_splits dest: block_outcomes)

lemma failure_outcomes: "snd (handle_coordinator_failure ou rid mid b exc err \<sigma>) = Inr oc \<Longrightarrow> oc = OcContinued \<or> oc = OcBlocked"
  by (auto simp: handle_coordinator_failure_def Let_def split: option.splits if_splits disposition.splits dest: block_outcomes)

lemma enter_waiting_outcomes: "snd (enter_waiting ou rid mid d \<sigma>) = Inr oc \<Longrightarrow> oc = OcWaiting"
  by (auto simp: enter_waiting_def Let_def split: prod.splits sum.splits)

lemma peer_reply_outcomes:
  "snd (handle_peer_reply_wait ou rid mid d wc \<sigma>) = Some (Inr oc) \<Longrightarrow> oc = OcContinued \<or> oc = OcBlocked"
  by (auto simp: handle_peer_reply_wait_def Let_def case_prod_unfold split: option.splits sum.splits prod.splits wait_reply.splits if_splits
      dest: invalid_outcomes)

lemma wait_outcomes: "snd (handle_wait ou rid mid d \<sigma>) = Inr oc \<Longrightarrow> oc = OcContinued \<or> oc = OcBlocked \<or> oc = OcWaiting"
proof -
  have "oc = OcContinued \<or> oc = OcBlocked" if "handle_peer_reply_wait ou rid mid d wc \<sigma> = (\<sigma>', Some (Inr oc))" for wc \<sigma>'
    using peer_reply_outcomes [of ou rid mid d wc \<sigma> oc] that by simp
  then show "snd (handle_wait ou rid mid d \<sigma>) = Inr oc \<Longrightarrow> ?thesis"
    by (auto simp: handle_wait_def split: option.splits prod.splits if_splits dest: enter_waiting_outcomes)
qed

lemma execute_outcomes: "snd (execute_route ou rid mid d rt \<sigma>) = Inr oc \<Longrightarrow> oc = OcContinued \<or> oc = OcBlocked"
  by (auto simp: execute_route_def Let_def case_prod_unfold split: prod.splits route_outcome.splits if_splits dest: block_outcomes)

lemma continue_outcomes: "snd (handle_continue ou rid mid b d \<sigma>) = Inr oc \<Longrightarrow> oc = OcContinued \<or> oc = OcBlocked"
  by (auto simp: handle_continue_def Let_def split: option.splits prod.splits if_splits dest: block_outcomes execute_outcomes)

lemma decide_completed:
  assumes "snd (decide ou rid mid b r \<sigma>) = Inr OcCompleted"
  obtains d \<sigma>1 where "ou_coordinator ou mid \<sigma> = (Decided d, \<sigma>1)" "validate_mission_control d = None"
    "mc_disposition (dc_control d) = CdComplete"
    "decide ou rid mid b r \<sigma> = handle_complete ou rid mid d (emit ou ''mission.decision.completed'' mid
       (update_run rid (\<lambda>x. x\<lparr>rn_coordinator_calls := rn_coordinator_calls r + 1, rn_last_decision := Some (dc_id d)\<rparr>) \<sigma>1))"
  using assms
  by (auto simp: decide_def dispatch_def Let_def split: prod.splits coordinator_reply.splits option.splits control_disposition.splits
      dest: failure_outcomes invalid_outcomes wait_outcomes continue_outcomes block_outcomes)

lemma run_iteration_decides:
  assumes "run_get \<sigma> rid = Some r" "snd (run_iteration ou rid \<sigma>) = Inr oc" "oc \<notin> {OcStopped, OcCancelled, OcPaused, OcBlocked}"
  obtains b r1 where "admitted ou r = Some b" "run_get (start_iteration ou rid r \<sigma>) rid = Some r1"
    "run_iteration ou rid \<sigma> = decide ou rid (rn_mission r) b r1 (start_iteration ou rid r \<sigma>)"
proof (cases "admitted ou r")
  case None
  then show ?thesis using run_iteration_halted [OF assms(1) None] halt_outcomes [of ou rid r \<sigma> oc] assms(2,3) by auto
next
  case (Some b)
  note e = run_iteration_admitted [OF assms(1) Some refl]
  from assms(2,3) show ?thesis unfolding e
    by (auto split: option.splits intro: that [OF Some] simp: e)
qed

section \<open>A completion is earned\<close>

lemma transition_done:
  assumes "apply_transition rid mid tgt f \<sigma> = (\<sigma>', Inr u)" "mission_get \<sigma> mid \<noteq> None" "run_get \<sigma> rid = Some r"
    and "\<And>r. rn_id (f r) = rn_id r"
  shows "\<exists>t. run_get \<sigma>' rid = Some (touch t ((f r)\<lparr>rn_status := tgt\<rparr>))"
  using assms(1-3)
  by (auto simp: apply_transition_def rbind_Inr_iff update_status_def get_update_run assms(4) split: option.splits sum.splits)

lemma control_step_mission [simp]: "mission_get (persist_control_step ou mid rid x st why d \<sigma>) m = mission_get \<sigma> m"
  by (simp add: persist_control_step_def Let_def case_prod_unfold update_run_def upd_run_def create_step_def new_uuid_def
      split: option.split)

lemma requirement_not_completed [simp]: "handle_mcp_requirement_block ou rid mid q \<sigma> \<noteq> (\<sigma>', Inr OcCompleted)"
  using block_outcomes(5) [of ou rid mid q \<sigma> OcCompleted] by auto

lemma complete_status:
  assumes "outside_ok ou" "handle_complete ou rid mid d \<sigma> = (\<sigma>', Inr OcCompleted)" "mission_get \<sigma> mid \<noteq> None"
    and "run_get \<sigma> rid = Some r"
  shows "\<exists>r'. run_get \<sigma>' rid = Some r' \<and> rn_status r' = MsCompleted"
proof -
  let ?f = "\<lambda>r. r\<lparr>rn_final_response := map_option (ou_short ou) (mc_final (dc_control d)), rn_failures := 0,
     rn_completed_at := Some (nd_clock \<sigma>)\<rparr>"
  let ?\<sigma>p = "persist_control_step ou mid rid ''complete'' StCompleted (map_option NoteText (mc_reason (dc_control d))) (Some d) \<sigma>"
  obtain \<sigma>t where t: "apply_transition rid mid MsCompleted ?f ?\<sigma>p = (\<sigma>t, Inr ())"
      "\<sigma>' = emit ou ''mission.tool_accountability'' mid (emit ou ''mission.completed'' mid \<sigma>t)"
    using assms(2)
    by (auto simp: handle_complete_def handle_obligation_block_def Let_def split: option.splits if_splits prod.splits sum.splits)
  obtain rp where "run_get ?\<sigma>p rid = Some rp" using keeps_get [OF keeps_control_step assms(4)] by blast
  from transition_done [OF t(1) _ this] assms(3) obtain rt where rt: "run_get \<sigma>t rid = Some rt" "rn_status rt = MsCompleted"
    by auto
  have "keeps \<sigma>t \<sigma>'" unfolding t(2) by (rule keeps_trans [OF keeps_emit keeps_emit]) (rule assms(1))+
  from keeps_get [OF this rt(1)] rt(2) show ?thesis by (auto simp: mono_status_def)
qed

text \<open>The node the conclusion of an iteration is checked on: the call is counted and announced.\<close>

definition decided_node :: "outside \<Rightarrow> string \<Rightarrow> string \<Rightarrow> run \<Rightarrow> decision \<Rightarrow> node \<Rightarrow> node" where
  "decided_node ou rid mid r d \<sigma> = emit ou ''mission.decision.completed'' mid
     (update_run rid (\<lambda>x. x\<lparr>rn_coordinator_calls := rn_coordinator_calls r + 1, rn_last_decision := Some (dc_id d)\<rparr>) \<sigma>)"

text \<open>
  C22: A mission completes only when the coordinator said so and everything it owes is met: the
  iteration was admitted by its budgets, the coordinator's decision is a completion with a final
  response that is not blank, no reply obligation is open, and a mission whose text requires the
  MCP tools has used them. The run is then recorded as completed, as long as the mission row still exists.
\<close>

theorem completion_is_earned:
  assumes "outside_ok ou" "run_get \<sigma> rid = Some r" "run_iteration ou rid \<sigma> = (\<sigma>', Inr OcCompleted)"
  shows "\<exists>b d \<sigma>1 r1 \<sigma>d f. admitted ou r = Some b
    \<and> ou_coordinator ou (rn_mission r) (start_iteration ou rid r \<sigma>) = (Decided d, \<sigma>1)
    \<and> \<sigma>d = decided_node ou rid (rn_mission r) r1 d \<sigma>1
    \<and> mc_disposition (dc_control d) = CdComplete \<and> mc_final (dc_control d) = Some f \<and> \<not> blank f
    \<and> ou_obligation ou (rn_mission r) \<sigma>d = None
    \<and> (tr_mcp_required (parse_tool_requirements (mission_content (rn_mission r) \<sigma>d)) \<longrightarrow> mcp_used ou (rn_mission r) rid \<sigma>d)
    \<and> (mission_get \<sigma>d (rn_mission r) \<noteq> None \<longrightarrow> (\<exists>r'. run_get \<sigma>' rid = Some r' \<and> rn_status r' = MsCompleted))"
proof -
  let ?mid = "rn_mission r"
  have oc: "snd (run_iteration ou rid \<sigma>) = Inr OcCompleted" using assms(3) by simp
  from run_iteration_decides [OF assms(2) oc] obtain b r1 where b: "admitted ou r = Some b"
      "run_get (start_iteration ou rid r \<sigma>) rid = Some r1"
      "run_iteration ou rid \<sigma> = decide ou rid ?mid b r1 (start_iteration ou rid r \<sigma>)" by auto
  then have "snd (decide ou rid ?mid b r1 (start_iteration ou rid r \<sigma>)) = Inr OcCompleted" using oc by simp
  from decide_completed [OF this] obtain d \<sigma>1 where d: "ou_coordinator ou ?mid (start_iteration ou rid r \<sigma>) = (Decided d, \<sigma>1)"
      "validate_mission_control d = None" "mc_disposition (dc_control d) = CdComplete"
      "decide ou rid ?mid b r1 (start_iteration ou rid r \<sigma>) = handle_complete ou rid ?mid d (decided_node ou rid ?mid r1 d \<sigma>1)"
    by (auto simp: decided_node_def)
  let ?\<sigma>d = "decided_node ou rid ?mid r1 d \<sigma>1"
  let ?g = "\<lambda>x. x\<lparr>rn_coordinator_calls := rn_coordinator_calls r1 + 1, rn_last_decision := Some (dc_id d)\<rparr>"
  have h: "handle_complete ou rid ?mid d ?\<sigma>d = (\<sigma>', Inr OcCompleted)" using b(3) d(4) assms(3) by simp
  then have o: "ou_obligation ou ?mid ?\<sigma>d = None" "tr_mcp_required (parse_tool_requirements (mission_content ?mid ?\<sigma>d)) \<longrightarrow> mcp_used ou ?mid rid ?\<sigma>d"
    by (auto simp: handle_complete_def handle_obligation_block_def Let_def split: option.splits if_splits)
  obtain f where f: "mc_final (dc_control d) = Some f" "\<not> blank f"
    using d(2,3) by (auto simp: validate_mission_control_def split: option.splits if_splits)
  have "keeps (start_iteration ou rid r \<sigma>) \<sigma>1" using outside_okD(3) [OF assms(1)] d(1) by (metis snd_conv)
  from keeps_get [OF this b(2)] obtain r2 where "run_get \<sigma>1 rid = Some r2" by blast
  then have "run_get (update_run rid ?g \<sigma>1) rid = Some (touch (nd_clock \<sigma>1) (?g r2))" by (simp add: get_update_run)
  from keeps_get [OF keeps_emit [OF assms(1)] this] obtain r3 where "run_get ?\<sigma>d rid = Some r3"
    unfolding decided_node_def by blast
  from complete_status [OF assms(1) h _ this] b(1) d f o show ?thesis by blast
qed

definition final_outside :: outside where
  "final_outside = demo_outside\<lparr>ou_coordinator := (\<lambda>_ \<sigma>. (Decided (demo_decision\<lparr>dc_control :=
     \<lparr>mc_disposition = CdComplete, mc_reason = None, mc_final = Some ''hello'', mc_waiting = None, mc_blocked = None\<rparr>\<rparr>), \<sigma>))\<rparr>"

definition demo_final :: engine_result where
  "demo_final = run_iteration final_outside ''u'' demo_started"

lemma demo_final_outcome:
  "snd demo_final = Inr OcCompleted"
  "case run_get demo_started ''u'' of None \<Rightarrow> False | Some r \<Rightarrow> rn_status r = MsActive"
  by code_simp+

theorem completion_is_earned_witness:
  "\<exists>r b. run_get demo_started ''u'' = Some r \<and> admitted final_outside r = Some b"
proof -
  obtain r where "run_get demo_started ''u'' = Some r" using demo_final_outcome(2) by (auto split: option.splits)
  moreover have "outside_ok final_outside" by (simp add: outside_ok_def final_outside_def demo_outside_def)
  moreover have "run_iteration final_outside ''u'' demo_started = (fst demo_final, Inr OcCompleted)"
    using demo_final_outcome(1) by (simp add: demo_final_def prod_eq_iff)
  ultimately show ?thesis using completion_is_earned by blast
qed

section \<open>The run task ends\<close>

lemma continued_iterates:
  assumes "outside_ok ou" "run_get \<sigma> rid = Some r" "run_iteration ou rid \<sigma> = (\<sigma>', Inr OcContinued)"
  obtains b r' where "limits_of ou (usage_of r) = Some b" "run_get \<sigma>' rid = Some r'" "iterates b (usage_of r) (usage_of r')"
proof -
  have "snd (run_iteration ou rid \<sigma>) = Inr OcContinued" using assms(3) by simp
  from run_iteration_decides [OF assms(2) this] obtain b r1 where b: "admitted ou r = Some b" by auto
  then have l: "resolve_budgets (ou_conversions ou) (ou_defaults ou) (rn_budgets r) = Inr b" "iteration_block r b = None"
    by (simp_all add: admitted_Some)
  have "spends rid (iterates b) \<sigma> (fst (run_iteration ou rid \<sigma>))"
    unfolding run_iteration_admitted [OF assms(2) b refl] by (rule run_iteration_active [OF assms(1,2) l refl])
  from spendsD(1) [OF this assms(2)] obtain r' where "run_get \<sigma>' rid = Some r'" "iterates b (usage_of r) (usage_of r')"
    using assms(3) by auto
  with that l(1) show ?thesis by (simp add: limits_of_def)
qed

lemma not_terminal_outcome: "oc \<notin> set terminal_outcomes \<longleftrightarrow> oc = OcContinued"
  by (cases oc) (simp_all add: terminal_outcomes_def)

lemma run_loop_ends:
  assumes "outside_ok ou" "run_get \<sigma> rid = Some r" "\<And>b. limits_of ou (usage_of r) = Some b \<Longrightarrow> nat (bg_iterations b - rn_iterations r) < n"
    and "0 < n"
  shows "run_loop ou n rid \<sigma> \<noteq> None"
  using assms(2-)
proof (induction n arbitrary: \<sigma> r)
  case (Suc n)
  obtain \<sigma>' x where i: "run_iteration ou rid \<sigma> = (\<sigma>', x)" by (cases "run_iteration ou rid \<sigma>")
  show ?case
  proof (cases "x = Inr OcContinued")
    case True
    from continued_iterates [OF assms(1) Suc.prems(1) i [unfolded True]] obtain b r' where b: "limits_of ou (usage_of r) = Some b"
        "run_get \<sigma>' rid = Some r'" "iterates b (usage_of r) (usage_of r')" by metis
    then have s: "rn_iterations r < bg_iterations b" "rn_iterations r' = rn_iterations r + 1" "rn_budgets r' = rn_budgets r"
      by (auto simp: iterates_def)
    with b(1) have "limits_of ou (usage_of r') = Some b" by (simp add: limits_of_def)
    moreover have "nat (bg_iterations b - rn_iterations r') < n" "0 < n"
      using Suc.prems(2) [OF b(1)] s(1,2) by auto
    ultimately have "run_loop ou n rid \<sigma>' \<noteq> None" using Suc.IH [OF b(2)] by simp
    then show ?thesis using i True by (simp add: not_terminal_outcome)
  next
    case False
    then show ?thesis using i not_terminal_outcome by (cases x) auto
  qed
qed simp

lemma run_loop_ends_default:
  assumes "outside_ok ou" "valid_budgets (ou_defaults ou)" "nat (bg_iterations (ou_defaults ou)) < fuel"
    and "\<And>r. run_get \<sigma> rid = Some r \<Longrightarrow> 0 \<le> rn_iterations r"
  shows "run_loop ou fuel rid \<sigma> \<noteq> None"
proof (cases "run_get \<sigma> rid")
  case None
  then show ?thesis using assms(3) by (cases fuel) (simp_all add: run_iteration_def terminal_outcomes_def)
next
  case (Some r)
  have "bg_iterations b \<le> bg_iterations (ou_defaults ou)" if "limits_of ou (usage_of r) = Some b" for b
    using that override_all_within [OF assms(2) within_refl [OF assms(2)]]
    by (auto simp: limits_of_def resolve_budgets_def within_budgets_def split: sum.splits)
  then show ?thesis using assms(3) assms(4) [OF Some] by (intro run_loop_ends [OF assms(1) Some]) fastforce+
qed

text \<open>
  C23: The task the worker starts for a run always comes to an end: with fuel for one iteration more
  than the configured iteration limit it returns, whatever the coordinator, the routes and the
  other tasks do. The iteration budget, not the fuel, is what stops it.
\<close>

theorem run_mission_terminates:
  assumes "outside_ok ou" "valid_budgets (ou_defaults ou)" "nat (bg_iterations (ou_defaults ou)) < fuel"
    and "run_get \<sigma> rid = Some r" "0 \<le> rn_iterations r"
  shows "\<exists>\<sigma>'. run_mission ou wk fuel rid mid \<sigma> = Some \<sigma>'"
proof -
  obtain \<sigma>1 tok where a: "worker_acquire ou wk rid mid \<sigma> = (\<sigma>1, tok)" by (cases "worker_acquire ou wk rid mid \<sigma>")
  then have k1: "keeps \<sigma> \<sigma>1" using keeps_worker_acquire [OF assms(1), of \<sigma> wk rid mid] by simp
  let ?\<sigma>2 = "emit ou ''mission.run.started'' mid
    (\<sigma>1\<lparr>nd_stop := filter (\<lambda>i. i \<noteq> rid) (nd_stop \<sigma>1), nd_lost := filter (\<lambda>i. i \<noteq> rid) (nd_lost \<sigma>1)\<rparr>)"
  have "keeps \<sigma>1 ?\<sigma>2" by (rule keeps_trans [OF keeps_runs keeps_emit [OF assms(1)]]) simp
  with k1 have "keeps \<sigma> ?\<sigma>2" by (rule keeps_trans)
  from keeps_get [OF this assms(4)] obtain r2 where r2: "run_get ?\<sigma>2 rid = Some r2" "usage_of r2 = usage_of r" by blast
  then have "0 \<le> rn_iterations q" if "run_get ?\<sigma>2 rid = Some q" for q
    using that assms(5) usage_of_simps(1) by (metis option.inject)
  then have "run_loop ou fuel rid ?\<sigma>2 \<noteq> None" by (rule run_loop_ends_default [OF assms(1-3)])
  then show ?thesis by (cases tok) (auto simp: run_mission_def a Let_def)
qed

theorem run_mission_terminates_witness:
  "\<exists>\<sigma>'. run_mission demo_outside demo_worker 26 ''u'' ''m'' (fst (enqueue_mission demo_outside demo_worker ''m'' demo_node)) = Some \<sigma>'"
proof -
  let ?\<sigma> = "fst (enqueue_mission demo_outside demo_worker ''m'' demo_node)"
  have "case run_get ?\<sigma> ''u'' of None \<Rightarrow> False | Some r \<Rightarrow> 0 \<le> rn_iterations r" by code_simp
  then obtain r where "run_get ?\<sigma> ''u'' = Some r" "0 \<le> rn_iterations r" by (auto split: option.splits)
  moreover have "valid_budgets (ou_defaults demo_outside)" "nat (bg_iterations (ou_defaults demo_outside)) < 26"
    by (simp_all add: valid_budgets_def default_budgets_def demo_outside_def)
  ultimately show ?thesis using run_mission_terminates [OF demo_outside_ok] by blast
qed

end
