(* ===== verification/MissionRestart.thy ===== *)
theory MissionRestart
  imports MissionOutcomes
begin

text \<open>
  Starting a mission that is already running, and what recovery after a restart does to the
  interrupted runs. Both are stated for a quiet node, where nothing else runs in between.
\<close>

lemma demo_quiet: "quiet demo_outside"
  by (simp add: quiet_def demo_outside_def)

section \<open>Starting an active mission again\<close>

lemma requeue_active:
  assumes "quiet ou" "mission_get \<sigma> mid = Some m" "ms_status m = MsActive" "run_get \<sigma> rid = Some r" "rn_status r = MsActive"
  shows "run_get (queue_run ou rid mid False \<sigma>) rid
      = Some (touch (nd_clock \<sigma>) (r\<lparr>rn_queued_at := Some (nd_clock \<sigma>), rn_status := MsQueued\<rparr>))"
    "nd_stop (queue_run ou rid mid False \<sigma>) = nd_stop \<sigma>"
  using assms(2-)
  by (simp_all add: queue_run_def quiet_emit [OF assms(1)] apply_transition_def can_transition_def get_update_run
      validate_transition_def guard_err_def)

text \<open>
  C25: Starting a mission that is already running takes its run away from the worker that holds it,
  although its lease has not expired: \<open>enqueue_mission\<close> returns the run as reused and puts it back
  to queued. From then on an iteration of the run does nothing, the next heartbeat of the holder
  loses the lease, and any worker can acquire the run.
\<close>

theorem restart_breaks_lease:
  assumes "quiet ou" "mission_get \<sigma> mid = Some m" "ms_status m = MsActive"
    and "current_for_mission mid \<sigma> = Some r" "rn_status r = MsActive" "run_get \<sigma> (rn_id r) = Some r"
    and "rn_token r = Some token" "rn_id r \<notin> set (nd_stop \<sigma>)" "\<sigma>1 = fst (enqueue_mission ou wk mid \<sigma>)"
  shows "snd (enqueue_mission ou wk mid \<sigma>) = Inr (rn_id r, False)
    \<and> (\<exists>r1. run_get \<sigma>1 (rn_id r) = Some r1 \<and> rn_status r1 = MsQueued \<and> rn_token r1 = Some token
          \<and> rn_lease_expiry r1 = rn_lease_expiry r)
    \<and> run_iteration ou (rn_id r) \<sigma>1 = (\<sigma>1, Inr OcStopped)
    \<and> snd (heartbeat ou holder (rn_id r) mid token n \<sigma>1) = None
    \<and> snd (worker_acquire ou other (rn_id r) mid \<sigma>1) \<noteq> None"
proof -
  have s: "\<sigma>1 = queue_run ou (rn_id r) mid False \<sigma>" "snd (enqueue_mission ou wk mid \<sigma>) = Inr (rn_id r, False)"
    using assms(2,4) by (simp_all add: assms(9) enqueue_mission_def)
  note q = requeue_active [OF assms(1,2,3,6,5), folded s(1)]
  let ?r1 = "touch (nd_clock \<sigma>) (r\<lparr>rn_queued_at := Some (nd_clock \<sigma>), rn_status := MsQueued\<rparr>)"
  have f: "rn_status ?r1 = MsQueued" "rn_token ?r1 = Some token" "rn_lease_expiry ?r1 = rn_lease_expiry r"
    using assms(7) by (simp_all add: touch_def)
  have "run_iteration ou (rn_id r) \<sigma>1 = (\<sigma>1, Inr OcStopped)" by (simp add: run_iteration_def q(1) f(1))
  moreover have "snd (heartbeat ou holder (rn_id r) mid token n \<sigma>1) = None"
    using assms(8) by (simp add: heartbeat_def renew_lease_def q f(1) Let_def)
  moreover have "run_get (snd (new_uuid ou \<sigma>1)) i = run_get \<sigma>1 i" for i by (simp add: new_uuid_def)
  then have "snd (worker_acquire ou other (rn_id r) mid \<sigma>1) \<noteq> None"
    using f(1) by (simp add: worker_acquire_def acquire_lease_def case_prod_unfold Let_def q(1))
  ultimately show ?thesis using s(2) q(1) f by blast
qed

lemma demo_started_rows:
  "case (mission_get demo_started ''m'', current_for_mission ''m'' demo_started, run_get demo_started ''u'') of
     (Some m, Some r, Some r') \<Rightarrow> ms_status m = MsActive \<and> rn_status r = MsActive \<and> rn_id r = ''u'' \<and> rn_token r = Some ''uu''
        \<and> rn_lease_expiry r = Some 60
   | _ \<Rightarrow> False"
  "nd_stop demo_started = []" "nd_clock demo_started = 0"
  by code_simp+

theorem restart_breaks_lease_witness:
  "snd (worker_acquire demo_outside (demo_worker\<lparr>wk_owner := ''other''\<rparr>) ''u'' ''m''
     (fst (enqueue_mission demo_outside demo_worker ''m'' demo_started))) \<noteq> None
   \<and> (\<exists>r. run_get demo_started ''u'' = Some r \<and> \<not> lease_lapsed (nd_clock demo_started) r)"
proof -
  obtain m r r' where r: "mission_get demo_started ''m'' = Some m" "current_for_mission ''m'' demo_started = Some r"
      "run_get demo_started ''u'' = Some r'" "ms_status m = MsActive" "rn_status r = MsActive" "rn_id r = ''u''"
      "rn_token r = Some ''uu''" "rn_lease_expiry r = Some 60"
    using demo_started_rows(1) by (auto split: option.splits prod.splits)
  have "r \<in> set (nd_runs demo_started)"
    using r(2) unfolding current_for_mission_def find_Some_iff by (metis nth_mem set_rev)
  moreover have "distinct (map rn_id (nd_runs demo_started))" by code_simp
  ultimately have g: "run_get demo_started (rn_id r) = Some r" by (simp add: tbl_get_in)
  have "rn_id r \<notin> set (nd_stop demo_started)" by (simp add: demo_started_rows(2))
  from restart_breaks_lease [OF demo_quiet r(1,4,2,5) g r(7) this refl]
  show ?thesis using g r(6,8) by (auto simp: lease_lapsed_def demo_started_rows(3))
qed

section \<open>Recovery\<close>

text \<open>
  Recovery on a quiet node requeues the interrupted runs of this node, that is the active
  ones whose lease has lapsed, when there are at most fifty: each comes back queued, without a
  lease, with one more recovery and with its usage kept, so that its budgets still hold, and any worker can acquire it. Every
  run that is not interrupted is left exactly as it was. Beyond fifty the rest waits for the next recovery.
\<close>

theorem recover_requeues_interrupted:
  assumes "quiet ou" "wk_recovery wk" "distinct (map rn_id (nd_runs \<sigma>))" "r \<in> set (nd_runs \<sigma>)"
  shows "(\<not> interrupted (wk_node wk) (nd_clock \<sigma>) r \<longrightarrow> run_get (recover ou wk \<sigma>) (rn_id r) = Some r)
    \<and> (interrupted (wk_node wk) (nd_clock \<sigma>) r \<and> length (filter (interrupted (wk_node wk) (nd_clock \<sigma>)) (nd_runs \<sigma>)) \<le> 50
        \<longrightarrow> (\<exists>r'. run_get (recover ou wk \<sigma>) (rn_id r) = Some r' \<and> rn_status r' = MsQueued \<and> rn_token r' = None
               \<and> rn_owner r' = None \<and> rn_recoveries r' = rn_recoveries r + 1 \<and> usage_of r' = usage_of r
               \<and> snd (acquire_lease (rn_id r) owner token now expiry (recover ou wk \<sigma>)) = 1))"
proof -
  let ?ids = "recoverable_active_ids (wk_node wk) (nd_clock \<sigma>) 50 \<sigma>"
  let ?i = "interrupted (wk_node wk) (nd_clock \<sigma>)"
  note g = recover_get [OF assms]
  have "rn_id r \<notin> set ?ids" if "\<not> ?i r"
  proof
    assume "rn_id r \<in> set ?ids"
    then obtain q where "q \<in> set (nd_runs \<sigma>)" "?i q" "rn_id q = rn_id r"
      by (auto simp: recoverable_ids dest!: in_set_takeD)
    then show False using that assms(3,4) by (metis distinct_map inj_onD)
  qed
  moreover have "rn_id r \<in> set ?ids" if "?i r" "length (filter ?i (nd_runs \<sigma>)) \<le> 50"
    using that assms(4) by (simp add: recoverable_ids)
  moreover have "rn_token (touch t q) = rn_token q" "rn_owner (touch t q) = rn_owner q" "rn_recoveries (touch t q) = rn_recoveries q" for t q
    by (simp_all add: touch_def)
  ultimately show ?thesis using g by (auto simp: acquire_lease_def)
qed

definition demo_crashed :: node where
  "demo_crashed = demo_iterated\<lparr>nd_clock := 100\<rparr>"

lemma demo_crashed_runs:
  "distinct (map rn_id (nd_runs demo_crashed))" "length (nd_runs demo_crashed) = 1"
  "list_all (\<lambda>r. interrupted ''n'' 100 r \<and> rn_id r = ''u'' \<and> rn_iterations r = 1) (nd_runs demo_crashed)"
  by code_simp+

theorem recover_requeues_interrupted_witness:
  "\<exists>r. run_get (recover demo_outside demo_worker demo_crashed) ''u'' = Some r \<and> rn_status r = MsQueued \<and> rn_iterations r = 1"
proof -
  obtain r where r: "nd_runs demo_crashed = [r]" using demo_crashed_runs(2) by (cases "nd_runs demo_crashed") auto
  then have i: "interrupted ''n'' 100 r" "rn_id r = ''u''" "rn_iterations r = 1" using demo_crashed_runs(3) by simp_all
  have "wk_recovery demo_worker" "wk_node demo_worker = ''n''" "nd_clock demo_crashed = 100"
    by (simp_all add: demo_worker_def demo_crashed_def)
  then obtain r' where "run_get (recover demo_outside demo_worker demo_crashed) ''u'' = Some r'" "rn_status r' = MsQueued"
      "usage_of r' = usage_of r"
    using recover_requeues_interrupted [OF demo_quiet _ demo_crashed_runs(1), of demo_worker r "[]" "[]" 0 0] r i by auto
  then show ?thesis using i(3) usage_of_simps(1) by metis
qed

end
