(* ===== verification/Binary64.thy ===== *)
theory Binary64
  imports PyFloat "HOL-Library.Log_Nat"
begin

text \<open>
  Python's float arithmetic: each operation rounds the exact rational result to the nearest IEEE 754
  binary64 value, ties to even. Signed zeros are not told apart; the functions of the C
  library (\<open>sqrt\<close>, \<open>exp\<close>, \<open>hypot\<close> and the trigonometric ones) are arguments where they are used.
\<close>

section \<open>Powers of two and the exponent of a rational\<close>

definition pow2 :: "int \<Rightarrow> rat" where
  "pow2 e = (if 0 \<le> e then 2 ^ nat e else 1 / 2 ^ nat (- e))"

lemma pow2_powi: "pow2 e = 2 powi e"
  by (simp add: pow2_def power_int_def power_one_over)

lemma pow2_pos [simp]: "0 < pow2 e" and pow2_nonneg [simp]: "0 \<le> pow2 e" and pow2_nz [simp]: "pow2 e \<noteq> 0"
  by (simp_all add: pow2_def)

lemma pow2_add: "pow2 (a + b) = pow2 a * pow2 b"
  by (simp add: pow2_powi power_int_add)

lemma pow2_strict_mono: "a < b \<Longrightarrow> pow2 a < pow2 b"
  by (simp add: pow2_powi power_int_strict_increasing)

lemma pow2_less_iff [simp]: "pow2 a < pow2 b \<longleftrightarrow> a < b"
  by (metis linorder_neqE_linordered_idom order_less_asym pow2_strict_mono)

lemma pow2_le_iff [simp]: "pow2 a \<le> pow2 b \<longleftrightarrow> a \<le> b"
  by (simp flip: linorder_not_less)

lemma pow2_of_int: "0 \<le> e \<Longrightarrow> pow2 e = of_int (2 ^ nat e)"
  by (simp add: pow2_def)

lemma pow2_53: "pow2 53 = of_int (2 ^ 53)" and pow2_52: "pow2 52 = of_int (2 ^ 52)" and pow2_1: "pow2 1 = 2"
  by (simp_all add: pow2_def)

lemma pow2_of_nat: "pow2 (int n) = 2 ^ n"
  by (simp add: pow2_def)

text \<open>\<open>exponent q\<close> is the exponent of the binade of a positive \<open>q\<close>.\<close>

definition exponent :: "rat \<Rightarrow> int" where
  "exponent q = (let (n, d) = quotient_of q; e = int (floorlog 2 (nat n)) - int (floorlog 2 (nat d))
     in if pow2 e \<le> q then e else e - 1)"

lemma floorlog_pow2:
  assumes "0 < n"
  shows "pow2 (int (floorlog 2 (nat n)) - 1) \<le> of_int n" "of_int n < pow2 (int (floorlog 2 (nat n)))"
proof -
  let ?l = "floorlog 2 (nat n)"
  have b: "2 ^ (?l - 1) \<le> nat n" "nat n < 2 ^ ?l" using floorlog_bounds [of "nat n" 2] assms by simp_all
  have "0 < ?l" using assms by (simp add: floorlog_eq_zero_iff flip: neq0_conv)
  then have "pow2 (int ?l - 1) = 2 ^ (?l - 1)" using pow2_of_nat [of "?l - 1"] by (simp add: of_nat_diff)
  moreover have "(2 :: rat) ^ (?l - 1) = of_int (int (2 ^ (?l - 1)))" "(2 :: rat) ^ ?l = of_int (int (2 ^ ?l))" by simp_all
  moreover have "int (2 ^ (?l - 1)) \<le> n" "n < int (2 ^ ?l)" using b assms by linarith+
  ultimately show "pow2 (int ?l - 1) \<le> of_int n" "of_int n < pow2 (int ?l)"
    unfolding pow2_of_nat by (simp_all only: of_int_le_iff of_int_less_iff)
qed

lemma exponent_bounds:
  assumes "0 < q"
  shows "pow2 (exponent q) \<le> q" "q < pow2 (exponent q + 1)"
proof -
  obtain n d where nd: "quotient_of q = (n, d)" by (cases "quotient_of q")
  then have d: "0 < d" and q: "q = of_int n / of_int d" by (simp_all add: quotient_of_denom_pos quotient_of_div)
  have n: "0 < n" using assms q d by (simp add: zero_less_divide_iff)
  let ?a = "int (floorlog 2 (nat n))" and ?b = "int (floorlog 2 (nat d))"
  note fn = floorlog_pow2 [OF n] and fd = floorlog_pow2 [OF d]
  have lo: "pow2 (?a - ?b - 1) < q"
  proof -
    have "pow2 (?a - ?b - 1) * of_int d < pow2 (?a - ?b - 1) * pow2 ?b" using fd(2) by simp
    also have "\<dots> = pow2 (?a - 1)" by (simp flip: pow2_add)
    also have "\<dots> \<le> of_int n" by (rule fn)
    finally show ?thesis using d by (simp add: q pos_less_divide_eq)
  qed
  have hi: "q < pow2 (?a - ?b + 1)"
  proof -
    have "of_int n < pow2 ?a" by (rule fn)
    also have "\<dots> = pow2 (?a - ?b + 1) * pow2 (?b - 1)" by (simp flip: pow2_add)
    also have "\<dots> \<le> pow2 (?a - ?b + 1) * of_int d" using fd(1) by simp
    finally show ?thesis using d by (simp add: q pos_divide_less_eq)
  qed
  show "pow2 (exponent q) \<le> q" "q < pow2 (exponent q + 1)"
    using lo hi by (auto simp: exponent_def nd Let_def)
qed

lemma exponent_unique: "pow2 e \<le> q \<Longrightarrow> q < pow2 (e + 1) \<Longrightarrow> exponent q = e"
proof -
  assume a: "pow2 e \<le> q" "q < pow2 (e + 1)"
  then have "0 < q" by (meson order_less_le_trans pow2_pos)
  note b = exponent_bounds [OF this]
  have "pow2 e < pow2 (exponent q + 1)" "pow2 (exponent q) < pow2 (e + 1)" using a b by linarith+
  then show ?thesis by simp
qed

lemma exponent_mono: "0 < x \<Longrightarrow> x \<le> y \<Longrightarrow> exponent x \<le> exponent y"
proof -
  assume a: "0 < x" "x \<le> y"
  then have "pow2 (exponent x) < pow2 (exponent y + 1)"
    using exponent_bounds [of x] exponent_bounds [of y] by linarith
  then show ?thesis by simp
qed

section \<open>Rounding\<close>

definition ulp_exp :: "rat \<Rightarrow> int" where
  "ulp_exp q = max (exponent \<bar>q\<bar> - 52) (- 1074)"

definition round_rat :: "rat \<Rightarrow> rat" where
  "round_rat q = (if q = 0 then 0 else let u = ulp_exp q in of_int (round_half_even (q / pow2 u)) * pow2 u)"

definition binary64 :: "rat \<Rightarrow> pyfloat" where
  "binary64 q = (let r = round_rat q in
     if \<bar>r\<bar> < pow2 1024 then Fin r else if 0 < r then PInf else NInf)"

lemma round_half_even_of_int [simp]: "round_half_even (of_int n) = n"
  by (simp add: round_half_even_def)

lemma round_half_even_le: "q \<le> of_int n \<Longrightarrow> round_half_even q \<le> n"
  using round_half_even_mono [of q "of_int n"] by simp

lemma round_half_even_ge: "of_int n \<le> q \<Longrightarrow> n \<le> round_half_even q"
  using round_half_even_mono [of "of_int n" q] by simp

lemma round_half_even_minus: "round_half_even (- q) = - round_half_even q"
proof (cases "q = of_int \<lfloor>q\<rfloor>")
  case True
  then show ?thesis by (metis of_int_minus round_half_even_of_int)
next
  case False
  then have "\<lfloor>- q\<rfloor> = - \<lfloor>q\<rfloor> - 1" by (simp add: floor_minus ceiling_altdef)
  moreover have "0 < q - of_int \<lfloor>q\<rfloor>" "q - of_int \<lfloor>q\<rfloor> < 1" using False by linarith+
  ultimately show ?thesis by (auto simp: round_half_even_def Let_def)
qed

lemma round_rat_minus: "round_rat (- q) = - round_rat q"
  by (simp add: round_rat_def ulp_exp_def Let_def round_half_even_minus)

lemma round_rat_nonneg: "0 \<le> q \<Longrightarrow> 0 \<le> round_rat q"
  using round_half_even_ge [of 0] by (simp add: round_rat_def Let_def)

text \<open>A rounded value stays within the bounds of the binade.\<close>

lemma round_rat_lower:
  assumes "0 < q" "- 1022 \<le> exponent q"
  shows "pow2 (exponent q) \<le> round_rat q"
proof -
  let ?e = "exponent q"
  have u: "ulp_exp q = ?e - 52" using assms by (simp add: ulp_exp_def)
  have "pow2 52 * pow2 (?e - 52) \<le> q" using exponent_bounds(1) [OF assms(1)] by (simp flip: pow2_add)
  then have "of_int (2 ^ 52) \<le> q / pow2 (?e - 52)" by (simp add: pos_le_divide_eq pow2_def)
  then have "2 ^ 52 \<le> round_half_even (q / pow2 (?e - 52))" by (rule round_half_even_ge)
  then have "(2 :: rat) ^ 52 \<le> of_int (round_half_even (q / pow2 (?e - 52)))"
    by (metis of_int_le_iff of_int_numeral of_int_power)
  then have "2 ^ 52 * pow2 (?e - 52) \<le> round_rat q"
    using assms(1) by (simp add: round_rat_def u Let_def)
  moreover have "pow2 ?e = 2 ^ 52 * pow2 (?e - 52)" using pow2_add [of 52 "?e - 52"] by (simp add: pow2_def)
  ultimately show ?thesis by simp
qed

lemma round_rat_upper:
  assumes "0 < q"
  shows "round_rat q \<le> pow2 (ulp_exp q + 53)"
proof -
  let ?u = "ulp_exp q"
  have "exponent q + 1 \<le> ?u + 53" using assms by (simp add: ulp_exp_def)
  then have "pow2 (exponent q + 1) \<le> pow2 (53 + ?u)" by (simp add: add.commute)
  with exponent_bounds(2) [OF assms] have "q \<le> pow2 (53 + ?u)" by linarith
  then have "q \<le> pow2 53 * pow2 ?u" by (simp only: pow2_add)
  then have "q / pow2 ?u \<le> of_int (2 ^ 53)" by (simp add: pos_divide_le_eq pow2_def)
  then have "round_half_even (q / pow2 ?u) \<le> 2 ^ 53" by (rule round_half_even_le)
  then have "of_int (round_half_even (q / pow2 ?u)) \<le> (2 :: rat) ^ 53"
    by (metis of_int_le_iff of_int_numeral of_int_power)
  then show ?thesis using assms by (simp add: round_rat_def Let_def pow2_add) (simp add: pow2_def)
qed

lemma round_rat_mono_pos:
  assumes "0 < x" "x \<le> y"
  shows "round_rat x \<le> round_rat y"
proof -
  have y: "0 < y" using assms by simp
  have e: "exponent x \<le> exponent y" by (rule exponent_mono [OF assms])
  show ?thesis
  proof (cases "ulp_exp x = ulp_exp y")
    case True
    have "x / pow2 (ulp_exp y) \<le> y / pow2 (ulp_exp y)" using assms(2) by (simp add: divide_right_mono)
    from round_half_even_mono [OF this] show ?thesis using assms(1) y True by (simp add: round_rat_def Let_def)
  next
    case False
    then have u: "ulp_exp x < ulp_exp y" "ulp_exp y = exponent y - 52" using e assms y by (auto simp: ulp_exp_def max_def split: if_splits)
    then have "- 1022 \<le> exponent y" using assms(1) y by (simp add: ulp_exp_def max_def split: if_splits)
    have "round_rat x \<le> pow2 (ulp_exp x + 53)" by (rule round_rat_upper [OF assms(1)])
    also have "\<dots> \<le> pow2 (exponent y)" using u by simp
    also have "\<dots> \<le> round_rat y" by (rule round_rat_lower) fact+
    finally show ?thesis .
  qed
qed

lemma round_rat_mono: "x \<le> y \<Longrightarrow> round_rat x \<le> round_rat y"
proof -
  assume xy: "x \<le> y"
  consider "0 < x" | "x \<le> 0" "0 \<le> y" | "y < 0" by linarith
  then show ?thesis
  proof cases
    case 2
    then have "0 \<le> round_rat (- x)" "0 \<le> round_rat y" by (simp_all add: round_rat_nonneg)
    then show ?thesis by (simp add: round_rat_minus)
  next
    case 3
    with xy show ?thesis using round_rat_mono_pos [of "- y" "- x"] by (simp add: round_rat_minus)
  qed (use xy round_rat_mono_pos in blast)
qed

lemma binary64_not_NaN [simp]: "binary64 q \<noteq> NaN"
  by (simp add: binary64_def Let_def)

lemma binary64_mono: "x \<le> y \<Longrightarrow> binary64 x \<le> binary64 y"
  using round_rat_mono [of x y] by (auto simp: binary64_def Let_def)


text \<open>Rounding a rounded value changes nothing: a result is a double.\<close>

lemma round_rat_of_scaled:
  assumes "\<bar>m\<bar> \<le> 2 ^ 53" "- 1074 \<le> u"
  shows "round_rat (of_int m * pow2 u) = of_int m * pow2 u"
proof (cases "m = 0")
  case False
  let ?q = "of_int m * pow2 u :: rat"
  let ?k = "ulp_exp ?q"
  have pos: "0 < \<bar>?q\<bar>" using False by simp
  have abs: "\<bar>?q\<bar> = of_int \<bar>m\<bar> * pow2 u" by (simp add: abs_mult)
  have whole: "\<exists>n. ?q / pow2 ?k = of_int n"
  proof (cases "?k \<le> u")
    case True
    have "?q / pow2 ?k = of_int m * pow2 (u - ?k)" using pow2_add [of ?k "u - ?k"] by (simp add: field_simps)
    also have "\<dots> = of_int (m * 2 ^ nat (u - ?k))" using True by (simp add: pow2_of_int)
    finally show ?thesis ..
  next
    case kf: False
    have e: "?k = exponent \<bar>?q\<bar> - 52" "u < exponent \<bar>?q\<bar> - 52"
      using kf assms(2) by (simp_all add: ulp_exp_def max_def split: if_splits)
    have "pow2 (u + 53) \<le> pow2 (exponent \<bar>?q\<bar>)" using e by simp
    also have "\<dots> \<le> of_int \<bar>m\<bar> * pow2 u" using exponent_bounds(1) [OF pos] abs by simp
    finally have "2 ^ 53 \<le> \<bar>m\<bar>"
      by (simp add: pow2_add add.commute pow2_of_int [of 53] mult_le_cancel_right)
    with assms(1) have m: "\<bar>m\<bar> = 2 ^ 53" by simp
    then have q: "\<bar>?q\<bar> = pow2 (u + 53)" using pow2_add [of u 53] abs by (simp add: pow2_of_int)
    have "exponent \<bar>?q\<bar> = u + 53" unfolding q by (rule exponent_unique) simp_all
    then have "?k = u + 1" using e by simp
    moreover have "?q = of_int (sgn m) * (2 ^ 52 * pow2 (u + 1))"
    proof -
      have "m = sgn m * 2 ^ 53" using m by (simp add: sgn_if abs_if split: if_splits)
      then have "(of_int m :: rat) = of_int (sgn m) * 2 ^ 53" by (metis of_int_mult of_int_numeral of_int_power)
      then show ?thesis using pow2_add [of u 1] by (simp add: pow2_1)
    qed
    ultimately show ?thesis by (intro exI [of _ "sgn m * 2 ^ 52"]) simp
  qed
  then obtain n where "?q / pow2 ?k = of_int n" ..
  then show ?thesis using False by (simp add: round_rat_def Let_def) (simp add: nonzero_divide_eq_eq)
qed (simp add: round_rat_def)

lemma round_rat_scaled: "\<exists>m u. \<bar>m\<bar> \<le> 2 ^ 53 \<and> - 1074 \<le> u \<and> round_rat q = of_int m * pow2 u"
proof (cases "q = 0")
  case False
  let ?u = "ulp_exp q" and ?m = "round_half_even (q / pow2 (ulp_exp q))"
  have e: "round_rat q = of_int ?m * pow2 ?u" using False by (simp add: round_rat_def Let_def)
  have "round_rat \<bar>q\<bar> \<le> pow2 (ulp_exp \<bar>q\<bar> + 53)" using False by (intro round_rat_upper) simp
  moreover have "round_rat \<bar>q\<bar> = \<bar>round_rat q\<bar>"
    using round_rat_nonneg [of q] round_rat_nonneg [of "- q"] by (auto simp: abs_if round_rat_minus)
  moreover have "\<bar>round_rat q\<bar> = of_int \<bar>?m\<bar> * pow2 ?u" by (simp add: e abs_mult)
  moreover have "pow2 (ulp_exp \<bar>q\<bar> + 53) = of_int (2 ^ 53) * pow2 ?u"
    by (simp add: pow2_add pow2_53 ulp_exp_def mult.commute)
  ultimately have "of_int \<bar>?m\<bar> * pow2 ?u \<le> of_int (2 ^ 53) * pow2 ?u" by (simp only:)
  then have "(of_int \<bar>?m\<bar> :: rat) \<le> of_int (2 ^ 53)" by (simp only: mult_le_cancel_right_pos [OF pow2_pos])
  then have "\<bar>?m\<bar> \<le> 2 ^ 53" by (simp only: of_int_le_iff)
  moreover have "- 1074 \<le> ?u" by (simp add: ulp_exp_def)
  ultimately show ?thesis using e by blast
qed (intro exI [of _ 0], simp add: round_rat_def)

lemma round_rat_idem [simp]: "round_rat (round_rat q) = round_rat q"
  using round_rat_scaled [of q] round_rat_of_scaled by metis

fun is_double :: "pyfloat \<Rightarrow> bool" where
  "is_double (Fin q) \<longleftrightarrow> round_rat q = q \<and> \<bar>q\<bar> < pow2 1024"
| "is_double _ \<longleftrightarrow> True"

lemma binary64_double [simp]: "is_double (binary64 q)"
  by (simp add: binary64_def Let_def)

lemma binary64_exact: "is_double (Fin q) \<Longrightarrow> binary64 q = Fin q"
  by (simp add: binary64_def)

lemma binary64_zero [simp]: "binary64 0 = Fin 0"
  by (simp add: binary64_def round_rat_def)

text \<open>Equations that evaluate: powers by squaring, bit lengths of integers, no large powers.\<close>

function ipow2 :: "int \<Rightarrow> int" where
  "ipow2 e = (if e \<le> 0 then 1 else let h = ipow2 (e div 2) in if e mod 2 = 0 then h * h else 2 * (h * h))"
  by auto
termination by (relation "measure nat") auto

declare ipow2.simps [simp del]

lemma ipow2_eq: "ipow2 e = 2 ^ nat e"
proof (induction e rule: ipow2.induct)
  case (1 e)
  show ?case
  proof (cases "e \<le> 0")
    case False
    then have h: "ipow2 (e div 2) = 2 ^ nat (e div 2)" using 1 by simp
    show ?thesis
    proof (cases "e mod 2 = 0")
      case True
      then have "e = 2 * (e div 2)" by presburger
      then have "nat e = nat (e div 2) + nat (e div 2)" using False by linarith
      then show ?thesis using False True by (subst ipow2.simps) (simp add: h power_add Let_def)
    next
      case e: False
      then have "e = 2 * (e div 2) + 1" by presburger
      then have "nat e = Suc (nat (e div 2) + nat (e div 2))" using False by linarith
      then show ?thesis using False e by (subst ipow2.simps) (simp add: h power_add Let_def)
    qed
  qed (simp add: ipow2.simps)
qed

lemma pow2_code [code]: "pow2 e = (if 0 \<le> e then of_int (ipow2 e) else 1 / of_int (ipow2 (- e)))"
  by (simp add: pow2_def ipow2_eq)

function bitlen_int :: "int \<Rightarrow> int" where
  "bitlen_int n = (if n \<le> 0 then 0 else 1 + bitlen_int (n div 2))"
  by auto
termination by (relation "measure nat") auto

declare bitlen_int.simps [simp del]

lemma bitlen_int_eq: "bitlen_int n = int (floorlog 2 (nat n))"
proof (induction n rule: bitlen_int.induct)
  case (1 n)
  show ?case
  proof (cases "n \<le> 0")
    case False
    then have "floorlog 2 (nat n) = floorlog 2 (nat n div 2) + 1" by (subst compute_floorlog) simp
    then show ?thesis using False 1 by (subst bitlen_int.simps) (simp add: nat_div_distrib)
  qed (simp add: bitlen_int.simps floorlog_def)
qed

lemma exponent_code [code]:
  "exponent q = (let (n, d) = quotient_of q; e = bitlen_int n - bitlen_int d
     in if (if 0 \<le> e then ipow2 e * d \<le> n else d \<le> n * ipow2 (- e)) then e else e - 1)"
proof -
  obtain n d where nd: "quotient_of q = (n, d)" by (cases "quotient_of q")
  then have d: "0 < d" and q: "q = of_int n / of_int d" by (simp_all add: quotient_of_denom_pos quotient_of_div)
  have "pow2 e \<le> q \<longleftrightarrow> (if 0 \<le> e then ipow2 e * d \<le> n else d \<le> n * ipow2 (- e))" for e
  proof -
    have "of_int (2 ^ k * d) \<le> (of_int n :: rat) \<longleftrightarrow> 2 ^ k * d \<le> n"
      and "of_int d \<le> (of_int (n * 2 ^ k) :: rat) \<longleftrightarrow> d \<le> n * 2 ^ k" for k by (simp_all only: of_int_le_iff)
    then show ?thesis using d by (simp add: q pow2_def ipow2_eq pos_le_divide_eq divide_le_eq mult.commute)
  qed
  then show ?thesis by (simp add: exponent_def nd Let_def bitlen_int_eq)
qed

lemma pow2_abs_less_iff: "r \<noteq> 0 \<Longrightarrow> \<bar>r\<bar> < pow2 e \<longleftrightarrow> exponent \<bar>r\<bar> < e"
proof
  assume r: "r \<noteq> 0"
  then have p: "0 < \<bar>r\<bar>" by simp
  show "exponent \<bar>r\<bar> < e" if "\<bar>r\<bar> < pow2 e"
    using exponent_bounds(1) [OF p] that by (metis order_le_less_trans pow2_less_iff)
  show "\<bar>r\<bar> < pow2 e" if "exponent \<bar>r\<bar> < e"
    using exponent_bounds(2) [OF p] that by (metis add1_zle_eq order_less_le_trans pow2_le_iff)
qed

lemma binary64_code [code]:
  "binary64 q = (let r = round_rat q in
     if r = 0 \<or> exponent \<bar>r\<bar> < 1024 then Fin r else if 0 < r then PInf else NInf)"
  using pow2_abs_less_iff [of "round_rat q" 1024]
  by (cases "round_rat q = 0") (simp_all only: binary64_def Let_def abs_zero pow2_pos simp_thms if_True)

section \<open>Operations\<close>

fun fneg :: "pyfloat \<Rightarrow> pyfloat" where
  "fneg (Fin q) = Fin (- q)" | "fneg PInf = NInf" | "fneg NInf = PInf" | "fneg NaN = NaN"

fun fabs :: "pyfloat \<Rightarrow> pyfloat" where
  "fabs (Fin q) = Fin \<bar>q\<bar>" | "fabs PInf = PInf" | "fabs NInf = PInf" | "fabs NaN = NaN"

fun fadd :: "pyfloat \<Rightarrow> pyfloat \<Rightarrow> pyfloat" where
  "fadd (Fin a) (Fin b) = binary64 (a + b)"
| "fadd NaN _ = NaN" | "fadd _ NaN = NaN"
| "fadd PInf NInf = NaN" | "fadd NInf PInf = NaN"
| "fadd PInf _ = PInf" | "fadd _ PInf = PInf"
| "fadd NInf _ = NInf" | "fadd _ NInf = NInf"

definition fsub :: "pyfloat \<Rightarrow> pyfloat \<Rightarrow> pyfloat" where
  "fsub a b = fadd a (fneg b)"

fun fmul :: "pyfloat \<Rightarrow> pyfloat \<Rightarrow> pyfloat" where
  "fmul (Fin a) (Fin b) = binary64 (a * b)"
| "fmul NaN _ = NaN" | "fmul _ NaN = NaN"
| "fmul (Fin a) y = (if a = 0 then NaN else if 0 < a then y else fneg y)"
| "fmul x (Fin b) = (if b = 0 then NaN else if 0 < b then x else fneg x)"
| "fmul PInf y = y" | "fmul NInf y = fneg y"

text \<open>\<open>x / y\<close>; the caller writes out the \<open>ZeroDivisionError\<close> of a zero divisor.\<close>

fun fquot :: "pyfloat \<Rightarrow> pyfloat \<Rightarrow> pyfloat" where
  "fquot (Fin a) (Fin b) = (if b = 0 then NaN else binary64 (a / b))"
| "fquot NaN _ = NaN" | "fquot _ NaN = NaN"
| "fquot (Fin a) _ = Fin 0"
| "fquot x (Fin b) = (if 0 < b then x else fneg x)"
| "fquot _ _ = NaN"

text \<open>
  \<open>x % w\<close> for a positive \<open>w\<close>: the C remainder is exact and has the sign of \<open>x\<close>; a negative one
  is brought into range by one (rounded) addition of \<open>w\<close>.
\<close>

definition rat_rem :: "rat \<Rightarrow> rat \<Rightarrow> rat" where
  "rat_rem a b = a - of_int (if 0 \<le> a / b then \<lfloor>a / b\<rfloor> else \<lceil>a / b\<rceil>) * b"

fun fmod_pos :: "pyfloat \<Rightarrow> pyfloat \<Rightarrow> pyfloat" where
  "fmod_pos (Fin a) (Fin b) = (let r = rat_rem a b in if r < 0 then binary64 (r + b) else Fin r)"
| "fmod_pos (Fin a) PInf = (if a < 0 then PInf else Fin a)"
| "fmod_pos _ _ = NaN"

text \<open>\<open>round(x, n)\<close>: the decimal with \<open>n\<close> places nearest to \<open>x\<close> (ties to even), read back as a double.\<close>

fun round_digits :: "nat \<Rightarrow> pyfloat \<Rightarrow> pyfloat" where
  "round_digits n (Fin q) = binary64 (of_int (round_half_even (q * 10 ^ n)) / 10 ^ n)"
| "round_digits n x = x"

text \<open>The literal \<open>x\<close> of a source text: the double nearest to it.\<close>

abbreviation lit :: "rat \<Rightarrow> pyfloat" where
  "lit q \<equiv> binary64 q"

lemma fneg_simps [simp]: "fneg (fneg x) = x" "fneg x = NaN \<longleftrightarrow> x = NaN" "fneg x \<le> fneg y \<longleftrightarrow> y \<le> x"
  by (cases x; cases y; simp)+

lemma fadd_double [simp]: "is_double (fadd a b)"
  by (cases a; cases b) simp_all

lemma is_double_neg [simp]: "is_double (fneg x) = is_double x"
  by (cases x) (simp_all add: round_rat_minus)

lemma fsub_double [simp]: "is_double (fsub a b)"
  by (simp add: fsub_def)

lemma fmul_double [simp]: "is_double (fmul a b)"
  by (cases a; cases b) simp_all

lemma is_double_min_max [simp]:
  "is_double a \<Longrightarrow> is_double b \<Longrightarrow> is_double (fmin a b)" "is_double a \<Longrightarrow> is_double b \<Longrightarrow> is_double (fmax a b)"
  by (simp_all add: fmin_def fmax_def)

text \<open>Monotonicity, wherever no NaN comes out.\<close>

lemma binary64_ge_NInf [simp]: "NInf \<le> binary64 q" "binary64 q \<le> PInf"
  by (simp_all add: binary64_def Let_def)

lemma fadd_mono:
  assumes "a \<le> a'" "b \<le> b'" "fadd a b \<noteq> NaN" "fadd a' b' \<noteq> NaN"
  shows "fadd a b \<le> fadd a' b'"
  using assms by (cases a; cases b; cases a'; cases b') (auto intro: binary64_mono add_mono)

lemma fsub_mono:
  assumes "a \<le> a'" "b' \<le> b" "fsub a b \<noteq> NaN" "fsub a' b' \<noteq> NaN"
  shows "fsub a b \<le> fsub a' b'"
  using assms unfolding fsub_def by (intro fadd_mono) simp_all

lemma binary64_nonneg: "0 \<le> q \<Longrightarrow> Fin 0 \<le> binary64 q"
  using binary64_mono [of 0 q] by simp

lemma fmul_mono:
  assumes "Fin 0 \<le> a" "a \<le> a'" "Fin 0 \<le> b" "b \<le> b'" "fmul a b \<noteq> NaN" "fmul a' b' \<noteq> NaN"
  shows "fmul a b \<le> fmul a' b'"
  using assms by (cases a; cases b; cases a'; cases b') (auto intro!: binary64_mono mult_mono split: if_splits)

lemma fquot_mono:
  assumes "Fin 0 < c" "a \<le> a'" "fquot a c \<noteq> NaN" "fquot a' c \<noteq> NaN"
  shows "fquot a c \<le> fquot a' c"
  using assms by (cases a; cases a'; cases c) (auto intro!: binary64_mono divide_right_mono)

lemma fmul_nonneg: "Fin 0 \<le> a \<Longrightarrow> Fin 0 \<le> b \<Longrightarrow> fmul a b \<noteq> NaN \<Longrightarrow> Fin 0 \<le> fmul a b"
  by (cases a; cases b) (auto intro: binary64_nonneg split: if_splits)

lemma fadd_zero: "is_double a \<Longrightarrow> fadd a (Fin 0) = a"
  by (cases a) (simp_all add: binary64_exact)

lemma fsub_le:
  assumes "is_double a" "Fin 0 \<le> b" "fsub a b \<noteq> NaN"
  shows "fsub a b \<le> a"
proof -
  have "a \<noteq> NaN" using assms(3) by (auto simp: fsub_def)
  moreover have "fneg b \<le> Fin 0" using assms(2) by (cases b) auto
  ultimately have "fadd a (fneg b) \<le> fadd a (Fin 0)"
    using assms(3) by (intro fadd_mono) (simp_all add: fsub_def fadd_zero [OF assms(1)])
  then show ?thesis by (simp add: fsub_def fadd_zero [OF assms(1)])
qed

lemma fadd_ge:
  assumes "is_double a" "Fin 0 \<le> b" "fadd a b \<noteq> NaN"
  shows "a \<le> fadd a b"
proof -
  have "a \<noteq> NaN" using assms(3) by auto
  then have "fadd a (Fin 0) \<le> fadd a b"
    using assms by (intro fadd_mono) (simp_all add: fadd_zero)
  then show ?thesis by (simp add: fadd_zero [OF assms(1)])
qed

end
