(* ===== verification/FleetScenario.thy ===== *)
theory FleetScenario
  imports Binary64
begin

text \<open>
  The road world of FleetGraph as data, and the paths vehicles follow through it:
  \<open>scenario.py\<close> (the schema, the signal phases, \<open>resolve_paths\<close>) and \<open>grid.py\<close> (turn routes
  through a grid of streets). Every coordinate is a Python float; a Python exception is
  the left side of a result. Two floats \<open>0.0\<close> and \<open>-0.0\<close> are one value here. Pydantic's
  validation has happened: a value of these records is a validated one.
\<close>

section \<open>The schema\<close>

type_synonym vec2 = "pyfloat \<times> pyfloat"

datatype fleet_error =
    FG_KeyError | FG_IndexError | FG_ZeroDivisionError | FG_OverflowError | FG_ValueError | FG_StopIteration

datatype actor_kind = Car | Truck | Pedestrian | Obstacle | Signal | Crosswalk
datatype event_kind = Fog_bank | Jammer_on | Jammer_off | Spawn
datatype lane_kind = Drive | Shoulder
datatype maneuver_kind = Lane_change | Stop

record lane =
  ln_y :: pyfloat
  ln_direction :: int
  ln_kind :: lane_kind
  ln_label :: "string option"

record maneuver =
  mv_at_t :: pyfloat
  mv_kind :: maneuver_kind
  mv_to_lane :: "int option"
  mv_over_m :: pyfloat

record actor =
  ac_id :: string
  ac_kind :: actor_kind
  ac_lane :: "int option"
  ac_start_x :: "pyfloat option"
  ac_start_y :: "pyfloat option"
  ac_heading :: "string option"
  ac_route :: "string list"
  ac_speed_mps :: pyfloat
  ac_spawn_t :: pyfloat
  ac_maneuvers :: "maneuver list"
  ac_path :: "vec2 list"
  ac_size :: vec2
  ac_is_hazard :: bool
  ac_has_radio :: bool
  ac_label :: "string option"
  ac_green_s :: pyfloat
  ac_yellow_s :: pyfloat
  ac_red_s :: pyfloat
  ac_phase_offset_s :: pyfloat
  ac_affects_dir :: int

record timed_event =
  te_t :: pyfloat
  te_kind :: event_kind
  te_area :: "(vec2 \<times> vec2) option"
  te_pos :: "vec2 option"
  te_radius :: "pyfloat option"
  te_value :: "pyfloat option"
  te_actor :: "actor option"

record road_grid =
  h_roads :: "pyfloat list"
  v_roads :: "pyfloat list"
  lanes_each_way :: int
  gr_lane_width :: pyfloat

record road_world =
  wd_width :: pyfloat
  wd_height :: pyfloat
  wd_lanes :: "lane list"
  wd_lane_width :: pyfloat
  wd_grid :: "road_grid option"
  wd_fog_density :: pyfloat
  wd_lidar_range_m :: pyfloat
  wd_brake_reaction_m :: pyfloat
  wd_awareness_horizon_m :: pyfloat

record scenario =
  sc_name :: string
  sc_description :: "string option"
  sc_seed :: int
  sc_duration_s :: pyfloat
  sc_tick_hz :: pyfloat
  sc_world :: road_world
  sc_actors :: "actor list"
  sc_events :: "timed_event list"
  sc_trust_pairs :: "(string \<times> string) list option"

definition is_vehicle :: "actor \<Rightarrow> bool" where
  "is_vehicle a \<longleftrightarrow> ac_kind a = Car \<or> ac_kind a = Truck"

definition cars :: "scenario \<Rightarrow> actor list" where
  "cars s = filter (\<lambda>a. ac_has_radio a \<and> is_vehicle a) (sc_actors s)"

definition occluders :: "scenario \<Rightarrow> actor list" where
  "occluders s = filter (\<lambda>a. ac_kind a = Truck \<or> ac_kind a = Obstacle) (sc_actors s)"

definition hazards :: "scenario \<Rightarrow> actor list" where
  "hazards s = filter ac_is_hazard (sc_actors s)"

definition default_size :: "actor \<Rightarrow> vec2" where
  "default_size a = (case ac_kind a of
     Truck \<Rightarrow> (lit 9, lit (26 / 10)) | Pedestrian \<Rightarrow> (lit (7 / 10), lit (7 / 10))
   | Obstacle \<Rightarrow> (lit 3, lit 3) | Signal \<Rightarrow> (lit (12 / 10), lit (12 / 10))
   | _ \<Rightarrow> (lit (45 / 10), lit 2))"

section \<open>Traffic signals\<close>

datatype signal_colour = Green | Yellow | Red

definition signal_cycle :: "actor \<Rightarrow> pyfloat" where
  "signal_cycle a = fmax (lit (1 / 2)) (fadd (fadd (ac_green_s a) (ac_yellow_s a)) (ac_red_s a))"

definition signal_phase :: "actor \<Rightarrow> pyfloat \<Rightarrow> signal_colour" where
  "signal_phase a t =
     (let phase = fmod_pos (fadd t (ac_phase_offset_s a)) (signal_cycle a)
      in if phase < ac_green_s a then Green
         else if phase < fadd (ac_green_s a) (ac_yellow_s a) then Yellow else Red)"

definition signal_requires_stop :: "actor \<Rightarrow> pyfloat \<Rightarrow> bool" where
  "signal_requires_stop a t \<longleftrightarrow> signal_phase a t = Red \<or> signal_phase a t = Yellow"

section \<open>The street grid\<close>

fun delta :: "string \<Rightarrow> (int \<times> int) option" where
  "delta h = (if h = ''E'' then Some (1, 0) else if h = ''W'' then Some (- 1, 0)
              else if h = ''S'' then Some (0, 1) else if h = ''N'' then Some (0, - 1) else None)"

definition right_of :: "string \<Rightarrow> string option" where
  "right_of h = map_of [(''E'', ''S''), (''S'', ''W''), (''W'', ''N''), (''N'', ''E'')] h"

definition left_of :: "string \<Rightarrow> string option" where
  "left_of h = map_of [(''E'', ''N''), (''N'', ''W''), (''W'', ''S''), (''S'', ''E'')] h"

text \<open>\<open>min(vals, key=k)\<close>: the first value no later one's key is below.\<close>

fun min_by :: "('a \<Rightarrow> pyfloat) \<Rightarrow> 'a \<Rightarrow> 'a list \<Rightarrow> 'a" where
  "min_by k best [] = best"
| "min_by k best (x # xs) = min_by k (if k x < k best then x else best) xs"

definition nearest :: "pyfloat list \<Rightarrow> pyfloat \<Rightarrow> fleet_error + pyfloat" where
  "nearest vals v = (case vals of [] \<Rightarrow> Inl FG_ValueError
     | x # xs \<Rightarrow> Inr (min_by (\<lambda>a. fabs (fsub a v)) x xs))"

definition lane_coord :: "pyfloat \<Rightarrow> string \<Rightarrow> pyfloat \<Rightarrow> pyfloat \<Rightarrow> pyfloat" where
  "lane_coord road_pos heading lane w =
     (let off = fmul (fadd lane (lit (1 / 2))) w
      in if heading = ''E'' then fadd road_pos off
         else if heading = ''W'' then fsub road_pos off
         else if heading = ''S'' then fsub road_pos off
         else fadd road_pos off)"

definition turn :: "string \<Rightarrow> string \<Rightarrow> fleet_error + string" where
  "turn heading t =
     (if t = ''right'' then (case right_of heading of None \<Rightarrow> Inl FG_KeyError | Some h \<Rightarrow> Inr h)
      else if t = ''left'' then (case left_of heading of None \<Rightarrow> Inl FG_KeyError | Some h \<Rightarrow> Inr h)
      else Inr heading)"

text \<open>\<open>min((abs(y - hy), "h", hy) for hy in roads)\<close>: tuples compare component by component.\<close>

definition pair_less :: "vec2 \<Rightarrow> vec2 \<Rightarrow> bool" where
  "pair_less p q \<longleftrightarrow> (if feq (fst p) (fst q) then \<not> feq (snd p) (snd q) \<and> snd p < snd q else fst p < fst q)"

fun min_pair :: "vec2 \<Rightarrow> vec2 list \<Rightarrow> vec2" where
  "min_pair best [] = best"
| "min_pair best (x # xs) = min_pair (if pair_less x best then x else best) xs"

definition closest_road :: "pyfloat list \<Rightarrow> pyfloat \<Rightarrow> vec2" where
  "closest_road roads v =
     (case map (\<lambda>r. (fabs (fsub v r), r)) roads of
        [] \<Rightarrow> (lit (10 ^ 9), Fin 0) | p # ps \<Rightarrow> min_pair p ps)"

definition heading_for_point :: "road_grid \<Rightarrow> pyfloat \<Rightarrow> pyfloat \<Rightarrow> string" where
  "heading_for_point g x y =
     (let dh = closest_road (h_roads g) y; dv = closest_road (v_roads g) x
      in if fst dh \<le> fst dv then (if snd dh \<le> y then ''E'' else ''W'')
         else (if x \<le> snd dv then ''S'' else ''N''))"

definition horizontal :: "string \<Rightarrow> bool" where
  "horizontal h \<longleftrightarrow> h = ''E'' \<or> h = ''W''"

text \<open>
  The next street to cross: of those more than a metre ahead, \<open>sorted(...)[0]\<close> is the first
  of the nearest.
\<close>

definition ahead_by :: "pyfloat \<Rightarrow> pyfloat \<Rightarrow> pyfloat \<Rightarrow> pyfloat" where
  "ahead_by cur d v = fmul (fsub v cur) d"

definition next_crossing :: "pyfloat list \<Rightarrow> pyfloat \<Rightarrow> pyfloat \<Rightarrow> pyfloat option" where
  "next_crossing roads cur d =
     (case filter (\<lambda>v. lit 1 < ahead_by cur d v) roads of
        [] \<Rightarrow> None | v # vs \<Rightarrow> Some (min_by (ahead_by cur d) v vs))"

definition margin :: pyfloat where
  "margin = lit 30"

definition exit_point :: "string \<Rightarrow> vec2 \<Rightarrow> pyfloat \<Rightarrow> pyfloat \<Rightarrow> vec2" where
  "exit_point heading cur width height =
     (if heading = ''E'' then (fadd width margin, snd cur)
      else if heading = ''W'' then (fneg margin, snd cur)
      else if heading = ''S'' then (fst cur, fadd height margin)
      else (fst cur, fneg margin))"

fun grid_steps :: "nat \<Rightarrow> road_grid \<Rightarrow> pyfloat \<Rightarrow> pyfloat \<Rightarrow> pyfloat \<Rightarrow> string \<Rightarrow> string list \<Rightarrow> vec2
    \<Rightarrow> vec2 list \<Rightarrow> fleet_error + vec2 list" where
  "grid_steps 0 g width height lane heading route cur wps = Inr wps"
| "grid_steps (Suc n) g width height lane heading route cur wps =
     (case delta heading of
        None \<Rightarrow> Inl FG_KeyError
      | Some (dx, dy) \<Rightarrow>
          (let hor = horizontal heading; d = float_of_int (if hor then dx else dy);
               here = (if hor then fst cur else snd cur)
           in case next_crossing (if hor then v_roads g else h_roads g) here d of
                None \<Rightarrow> Inr (wps @ [exit_point heading cur width height])
              | Some nxt \<Rightarrow>
                  (let t = (case route of [] \<Rightarrow> ''straight'' | r # _ \<Rightarrow> r); rest = tl route
                   in if t = ''straight'' then
                        (let past = fadd nxt (fmul d (lit (1 / 2)))
                         in grid_steps n g width height lane heading rest
                              (if hor then (past, snd cur) else (fst cur, past)) wps)
                      else
                        rbind (turn heading t) (\<lambda>nh.
                          let on = lane_coord nxt nh lane (gr_lane_width g);
                              corner = (if hor then (on, snd cur) else (fst cur, on))
                          in grid_steps n g width height lane nh rest corner (wps @ [corner])))))"

definition generate_grid_path :: "pyfloat \<Rightarrow> pyfloat \<Rightarrow> string \<Rightarrow> string list \<Rightarrow> road_grid \<Rightarrow> pyfloat \<Rightarrow> pyfloat
    \<Rightarrow> fleet_error + vec2 list" where
  "generate_grid_path sx sy heading route g width height =
     (let w = gr_lane_width g; lane = Fin 0;
          snapped =
            (if horizontal heading
             then rbind (if h_roads g = [] then Inr sy else nearest (h_roads g) sy)
                    (\<lambda>y0. Inr (sx, lane_coord y0 heading lane w))
             else rbind (if v_roads g = [] then Inr sx else nearest (v_roads g) sx)
                    (\<lambda>x0. Inr (lane_coord x0 heading lane w, sy)))
      in rbind snapped (\<lambda>cur. grid_steps 60 g width height lane heading route cur [cur]))"

section \<open>Lanes and vehicle paths\<close>

definition default_lanes :: "pyfloat \<Rightarrow> pyfloat \<Rightarrow> lane list" where
  "default_lanes height w =
     (let c = fquot height (lit 2); off = (\<lambda>k. fmul (lit k) w) in
      [\<lparr>ln_y = fsub c (off (3 / 2)), ln_direction = - 1, ln_kind = Shoulder, ln_label = Some ''north shoulder''\<rparr>,
       \<lparr>ln_y = fsub c (off (1 / 2)), ln_direction = - 1, ln_kind = Drive, ln_label = Some ''westbound''\<rparr>,
       \<lparr>ln_y = fadd c (off (1 / 2)), ln_direction = 1, ln_kind = Drive, ln_label = Some ''eastbound''\<rparr>,
       \<lparr>ln_y = fadd c (off (3 / 2)), ln_direction = 1, ln_kind = Shoulder, ln_label = Some ''south shoulder''\<rparr>])"

definition ensure_lanes :: "scenario \<Rightarrow> scenario" where
  "ensure_lanes s =
     (let w = sc_world s
      in if wd_grid w = None \<and> wd_lanes w = []
         then s\<lparr>sc_world := w\<lparr>wd_lanes := default_lanes (wd_height w) (wd_lane_width w)\<rparr>\<rparr>
         else s)"

definition nearest_lane :: "road_world \<Rightarrow> pyfloat \<Rightarrow> fleet_error + nat" where
  "nearest_lane w y =
     (case [0..<length (wd_lanes w)] of
        [] \<Rightarrow> Inl FG_ValueError
      | i # is \<Rightarrow> Inr (min_by (\<lambda>i. fabs (fsub (ln_y (wd_lanes w ! i)) y)) i is))"

text \<open>\<open>xs[i]\<close> with Python's negative indices.\<close>

definition py_index :: "'a list \<Rightarrow> int \<Rightarrow> fleet_error + 'a" where
  "py_index xs i = (let n = int (length xs) in
     if 0 \<le> i \<and> i < n then Inr (xs ! nat i)
     else if i < 0 \<and> - n \<le> i then Inr (xs ! nat (n + i)) else Inl FG_IndexError)"

text \<open>An integer operand is converted to a double first; one too large raises.\<close>

definition int_to_float :: "int \<Rightarrow> fleet_error + pyfloat" where
  "int_to_float n = (case binary64 (of_int n) of Fin q \<Rightarrow> Inr (Fin q) | _ \<Rightarrow> Inl FG_OverflowError)"

text \<open>
  \<open>sorted(maneuvers, key=at_t)\<close> as a stable insertion sort (the order of a list with a NaN key
  depends on the sorting algorithm).
\<close>

fun insert_maneuver :: "maneuver \<Rightarrow> maneuver list \<Rightarrow> maneuver list" where
  "insert_maneuver m [] = [m]"
| "insert_maneuver m (x # xs) = (if mv_at_t m \<le> mv_at_t x then m # x # xs else x # insert_maneuver m xs)"

fun sort_maneuvers :: "maneuver list \<Rightarrow> maneuver list" where
  "sort_maneuvers [] = []"
| "sort_maneuvers (m # ms) = insert_maneuver m (sort_maneuvers ms)"

text \<open>The loop over the maneuvers and its \<open>else\<close> branch: the way points after the first.\<close>

fun lane_waypoints :: "lane list \<Rightarrow> actor \<Rightarrow> pyfloat \<Rightarrow> pyfloat \<Rightarrow> pyfloat \<Rightarrow> maneuver list \<Rightarrow> pyfloat \<Rightarrow> vec2 list" where
  "lane_waypoints lanes a x0 d reach [] cur_y = [(fadd x0 (fmul d reach), cur_y)]"
| "lane_waypoints lanes a x0 d reach (m # ms) cur_y =
     (let x_at = fadd x0 (fmul (fmul d (ac_speed_mps a)) (fmax (Fin 0) (fsub (mv_at_t m) (ac_spawn_t a))))
      in case mv_kind m of
           Lane_change \<Rightarrow>
             (case mv_to_lane m of
                Some i \<Rightarrow>
                  (if 0 \<le> i \<and> i < int (length lanes)
                   then (let ny = ln_y (lanes ! nat i)
                         in (x_at, cur_y) # (fadd x_at (fmul d (mv_over_m m)), ny)
                              # lane_waypoints lanes a x0 d reach ms ny)
                   else lane_waypoints lanes a x0 d reach ms cur_y)
              | None \<Rightarrow> lane_waypoints lanes a x0 d reach ms cur_y)
         | Stop \<Rightarrow> [(x_at, cur_y)])"

definition lane_path :: "road_world \<Rightarrow> actor \<Rightarrow> int \<Rightarrow> fleet_error + vec2 list" where
  "lane_path w a i =
     rbind (py_index (wd_lanes w) i) (\<lambda>lane.
       let x0 = (case ac_start_x a of Some x \<Rightarrow> x | None \<Rightarrow> if 0 < ln_direction lane then Fin 0 else wd_width w)
       in if ac_speed_mps a \<le> Fin 0 \<and> ac_maneuvers a = [] then Inr [(x0, ln_y lane)]
          else rbind (int_to_float (ln_direction lane)) (\<lambda>d.
                 Inr ((x0, ln_y lane) # lane_waypoints (wd_lanes w) a x0 d (fadd (wd_width w) (lit 60))
                        (sort_maneuvers (ac_maneuvers a)) (ln_y lane))))"

definition resolve_actor :: "road_world \<Rightarrow> actor \<Rightarrow> fleet_error + actor" where
  "resolve_actor w a =
     (case wd_grid w of
        Some g \<Rightarrow>
          (case (ac_start_x a, ac_start_y a) of
             (Some x, Some y) \<Rightarrow>
               (if \<not> is_vehicle a then Inr a
                else let h = (if truthy (ac_heading a) then or_empty (ac_heading a) else heading_for_point g x y)
                     in rbind (generate_grid_path x y h (ac_route a) g (wd_width w) (wd_height w))
                          (\<lambda>p. Inr (a\<lparr>ac_heading := Some h, ac_path := p\<rparr>)))
           | _ \<Rightarrow> Inr a)
      | None \<Rightarrow>
          (case ac_lane a of
             Some i \<Rightarrow> (if \<not> is_vehicle a then Inr a
                        else rbind (lane_path w a i) (\<lambda>p. Inr (a\<lparr>ac_path := p\<rparr>)))
           | None \<Rightarrow> Inr a))"

fun map_err :: "('a \<Rightarrow> 'e + 'b) \<Rightarrow> 'a list \<Rightarrow> 'e + 'b list" where
  "map_err f [] = Inr []"
| "map_err f (x # xs) = rbind (f x) (\<lambda>y. rbind (map_err f xs) (\<lambda>ys. Inr (y # ys)))"

definition resolve_paths :: "scenario \<Rightarrow> fleet_error + scenario" where
  "resolve_paths s =
     (let s' = ensure_lanes s
      in rbind (map_err (resolve_actor (sc_world s')) (sc_actors s')) (\<lambda>as. Inr (s'\<lparr>sc_actors := as\<rparr>)))"


section \<open>What the paths guarantee\<close>

lemma min_by_in: "min_by k b xs \<in> set (b # xs)"
  by (induction xs arbitrary: b) auto

lemma fless_trans: "x < y \<Longrightarrow> y < z \<Longrightarrow> x < z" for x :: pyfloat
  by (cases x; cases y; cases z) auto

lemma min_by_keeps: "k x < k (min_by k b xs) \<Longrightarrow> k x < k b"
proof (induction xs arbitrary: b)
  case (Cons y ys)
  let ?b = "if k y < k b then y else b"
  have "k x < k ?b" using Cons by simp
  then show ?case using fless_trans [of "k x" "k y" "k b"] by (auto split: if_splits)
qed simp

lemma min_by_least: "x \<in> set (b # xs) \<Longrightarrow> \<not> k x < k (min_by k b xs)"
proof (induction xs arbitrary: b)
  case Nil
  then show ?case by (cases "k b") simp_all
next
  case (Cons y ys)
  let ?b = "if k y < k b then y else b"
  have irr: "\<not> z < z" for z :: pyfloat by (cases z) simp_all
  from Cons.prems consider "x = b" | "x = y" | "x \<in> set ys" by auto
  then show ?case
  proof cases
    case 1
    have "k b < k ?b \<Longrightarrow> False" using irr fless_trans [of "k b" "k y" "k b"] by (auto split: if_splits)
    then show ?thesis using min_by_keeps [of k b ?b ys] 1 by auto
  next
    case 2
    have "k y < k ?b \<Longrightarrow> False" using irr by (auto split: if_splits)
    then show ?thesis using min_by_keeps [of k y ?b ys] 2 by auto
  next
    case 3
    then show ?thesis using Cons.IH [of ?b] by simp
  qed
qed

lemma nearest_lane_least:
  assumes "nearest_lane w y = Inr i"
  shows "i < length (wd_lanes w) \<and>
    (\<forall>lane \<in> set (wd_lanes w). \<not> fabs (fsub (ln_y lane) y) < fabs (fsub (ln_y (wd_lanes w ! i)) y))"
proof -
  let ?k = "\<lambda>i. fabs (fsub (ln_y (wd_lanes w ! i)) y)"
  obtain j js where js: "[0..<length (wd_lanes w)] = j # js"
    using assms by (cases "[0..<length (wd_lanes w)]") (simp_all add: nearest_lane_def)
  then have i: "i = min_by ?k j js" using assms by (simp add: nearest_lane_def)
  have dom: "set (j # js) = {0..<length (wd_lanes w)}" by (simp flip: js)
  show ?thesis
    using min_by_in [of ?k j js] min_by_least [of _ j js ?k] unfolding i [symmetric] dom
    by (auto simp: in_set_conv_nth)
qed

text \<open>Consecutive way points of a grid path share a coordinate.\<close>

definition axis_aligned :: "vec2 \<Rightarrow> vec2 \<Rightarrow> bool" where
  "axis_aligned p q \<longleftrightarrow> fst p = fst q \<or> snd p = snd q"

definition on_axis :: "string \<Rightarrow> vec2 \<Rightarrow> vec2 \<Rightarrow> bool" where
  "on_axis heading p cur \<longleftrightarrow> (if horizontal heading then snd p = snd cur else fst p = fst cur)"

lemma on_axis_simps:
  "on_axis h p p"
  "on_axis h p cur \<Longrightarrow> axis_aligned p (exit_point h cur width height)"
  "on_axis h p cur \<Longrightarrow> axis_aligned p (if horizontal h then (x, snd cur) else (fst cur, x))"
  "on_axis h p cur \<Longrightarrow> on_axis h p (if horizontal h then (x, snd cur) else (fst cur, x))"
  by (auto simp: on_axis_def axis_aligned_def exit_point_def horizontal_def)

lemma successively_snoc:
  "wps \<noteq> [] \<Longrightarrow> successively P (wps @ [x]) \<longleftrightarrow> successively P wps \<and> P (last wps) x"
  by (simp add: successively_append_iff)

lemma grid_steps_aligned:
  assumes "grid_steps n g width height lane heading route cur wps = Inr p"
    and "wps \<noteq> []" "successively axis_aligned wps" "on_axis heading (last wps) cur"
  shows "successively axis_aligned p \<and> (\<exists>more. p = wps @ more \<and> length more \<le> n)"
  using assms
proof (induction n arbitrary: heading route cur wps)
  case (Suc n)
  obtain dx dy where d: "delta heading = Some (dx, dy)" using Suc.prems(1) by (auto split: option.splits)
  let ?hor = "horizontal heading" and ?d = "float_of_int (if horizontal heading then dx else dy)"
  let ?t = "case route of [] \<Rightarrow> ''straight'' | r # _ \<Rightarrow> r"
  note ax = on_axis_simps(2-4) [OF Suc.prems(4)]
  show ?case
  proof (cases "next_crossing (if ?hor then v_roads g else h_roads g) (if ?hor then fst cur else snd cur) ?d")
    case None
    with Suc.prems(1) d have "p = wps @ [exit_point heading cur width height]" by (simp add: Let_def)
    then show ?thesis using Suc.prems(2,3) ax by (simp add: successively_snoc)
  next
    case (Some nxt)
    show ?thesis
    proof (cases "?t = ''straight''")
      case True
      let ?cur = "if ?hor then (fadd nxt (fmul ?d (lit (1 / 2))), snd cur) else (fst cur, fadd nxt (fmul ?d (lit (1 / 2))))"
      have "grid_steps n g width height lane heading (tl route) ?cur wps = Inr p"
        using Suc.prems(1) True Some d by (simp add: Let_def)
      from Suc.IH [OF this Suc.prems(2,3)] ax show ?thesis by force
    next
      case False
      then obtain nh where nh: "turn heading ?t = Inr nh"
        using Suc.prems(1) Some d by (cases "turn heading ?t") (simp_all add: Let_def)
      let ?on = "lane_coord nxt nh lane (gr_lane_width g)"
      let ?corner = "if ?hor then (?on, snd cur) else (fst cur, ?on)"
      have "grid_steps n g width height lane nh (tl route) ?corner (wps @ [?corner]) = Inr p"
        using Suc.prems(1) False Some d nh by (simp add: Let_def)
      from Suc.IH [OF this] ax Suc.prems(2,3) on_axis_simps(1)
      have "successively axis_aligned p \<and> (\<exists>more. p = (wps @ [?corner]) @ more \<and> length more \<le> n)"
        by (simp add: successively_snoc)
      then show ?thesis by (metis append.assoc append_Cons append_Nil length_Cons not_less_eq_eq)
    qed
  qed
qed simp

lemma grid_path_shape:
  assumes "generate_grid_path sx sy heading route g width height = Inr p"
  shows "p \<noteq> [] \<and> length p \<le> 61 \<and> successively axis_aligned p
    \<and> (if horizontal heading then fst (hd p) = sx else snd (hd p) = sy)"
proof -
  from assms obtain cur where steps: "grid_steps 60 g width height (Fin 0) heading route cur [cur] = Inr p"
    and cur: "if horizontal heading then fst cur = sx else snd cur = sy"
    by (auto simp: generate_grid_path_def Let_def rbind_Inr_iff split: if_splits)
  have "successively axis_aligned p \<and> (\<exists>more. p = [cur] @ more \<and> length more \<le> 60)"
    by (rule grid_steps_aligned [OF steps]) (simp_all add: on_axis_simps)
  with cur show ?thesis by auto
qed

text \<open>Resolving a resolved scenario changes nothing, so the engine may resolve once more.\<close>

lemma ensure_lanes_idem [simp]: "ensure_lanes (ensure_lanes s) = ensure_lanes s"
  by (simp add: ensure_lanes_def Let_def default_lanes_def)

lemma heading_nonempty: "truthy (Some (heading_for_point g x y))"
  by (simp add: truthy_def heading_for_point_def Let_def)

lemma is_vehicle_update [simp]:
  "is_vehicle (a\<lparr>ac_path := p\<rparr>) = is_vehicle a" "is_vehicle (a\<lparr>ac_heading := h\<rparr>) = is_vehicle a"
  by (simp_all add: is_vehicle_def)

lemma lane_waypoints_path [simp]:
  "lane_waypoints lanes (a\<lparr>ac_path := p\<rparr>) x0 d r ms y = lane_waypoints lanes a x0 d r ms y"
  by (induction lanes a x0 d r ms y rule: lane_waypoints.induct)
     (simp_all add: Let_def split: maneuver_kind.splits option.splits)

lemma lane_path_path [simp]: "lane_path w (a\<lparr>ac_path := p\<rparr>) i = lane_path w a i"
  by (simp add: lane_path_def Let_def cong: if_cong)

lemma resolve_actor_idem:
  assumes "resolve_actor w a = Inr b"
  shows "resolve_actor w b = Inr b"
proof (cases "wd_grid w")
  case None
  with assms show ?thesis by (auto simp: resolve_actor_def rbind_Inr_iff split: option.splits if_splits)
next
  case (Some g)
  show ?thesis
  proof (cases "ac_start_x a = None \<or> ac_start_y a = None \<or> \<not> is_vehicle a")
    case True
    with Some assms show ?thesis by (auto simp: resolve_actor_def split: option.splits)
  next
    case False
    then obtain x y where xy: "ac_start_x a = Some x" "ac_start_y a = Some y" "is_vehicle a" by auto
    let ?h = "if truthy (ac_heading a) then or_empty (ac_heading a) else heading_for_point g x y"
    have h: "truthy (Some ?h)" using heading_nonempty by (simp add: truthy_def)
    from assms Some xy obtain p where p: "generate_grid_path x y ?h (ac_route a) g (wd_width w) (wd_height w) = Inr p"
      and b: "b = a\<lparr>ac_heading := Some ?h, ac_path := p\<rparr>"
      by (auto simp: resolve_actor_def Let_def rbind_Inr_iff)
    from p h show ?thesis by (simp add: resolve_actor_def Some xy b Let_def)
  qed
qed

lemma map_err_fixed: "map_err f xs = Inr ys \<Longrightarrow> (\<And>x y. f x = Inr y \<Longrightarrow> f y = Inr y) \<Longrightarrow> map_err f ys = Inr ys"
  by (induction xs arbitrary: ys) (auto simp: rbind_Inr_iff)

lemma resolve_paths_fixed:
  assumes "resolve_paths s = Inr s'"
  shows "resolve_paths s' = Inr s'"
proof -
  let ?s = "ensure_lanes s"
  from assms obtain as where as: "map_err (resolve_actor (sc_world ?s)) (sc_actors ?s) = Inr as"
    and s': "s' = ?s\<lparr>sc_actors := as\<rparr>" by (auto simp: resolve_paths_def Let_def rbind_Inr_iff)
  have "ensure_lanes s' = s'"
    using ensure_lanes_idem [of s] by (auto simp: s' ensure_lanes_def Let_def default_lanes_def split: if_splits)
  with map_err_fixed [OF as resolve_actor_idem] show ?thesis by (simp add: resolve_paths_def Let_def s')
qed

end
