(* ===== verification/FleetWorld.thy ===== *)
theory FleetWorld
  imports FleetScenario
begin

text \<open>
  Where every actor is and what each lidar sees: \<open>world.py\<close> of FleetGraph. The functions of the
  C library behind \<open>math\<close> and the built-in \<open>sum\<close> (plain up to Python 3.11, compensated since)
  are fields of the record \<open>libm\<close>, an argument of whatever uses them.
\<close>

record libm =
  lm_dist :: "vec2 \<Rightarrow> vec2 \<Rightarrow> pyfloat"
  lm_sqrt :: "pyfloat \<Rightarrow> pyfloat"
  lm_exp :: "pyfloat \<Rightarrow> pyfloat"
  lm_log10 :: "pyfloat \<Rightarrow> pyfloat"
  lm_sin :: "pyfloat \<Rightarrow> pyfloat"
  lm_cos :: "pyfloat \<Rightarrow> pyfloat"
  lm_atan2 :: "pyfloat \<Rightarrow> pyfloat \<Rightarrow> pyfloat"
  lm_radians :: "pyfloat \<Rightarrow> pyfloat"
  lm_sum :: "pyfloat list \<Rightarrow> pyfloat"

section \<open>Polylines\<close>

fun segments :: "libm \<Rightarrow> vec2 list \<Rightarrow> pyfloat list" where
  "segments L (a # b # ps) = lm_dist L a b # segments L (b # ps)"
| "segments L _ = []"

definition path_length :: "libm \<Rightarrow> vec2 list \<Rightarrow> pyfloat" where
  "path_length L path = (case segments L path of [] \<Rightarrow> Fin 0 | xs \<Rightarrow> lm_sum L xs)"

definition between :: "vec2 \<Rightarrow> vec2 \<Rightarrow> pyfloat \<Rightarrow> vec2" where
  "between a b f = (fadd (fst a) (fmul (fsub (fst b) (fst a)) f), fadd (snd a) (fmul (fsub (snd b) (snd a)) f))"

text \<open>The walk along the segments that \<open>pos_at_arclen\<close> and \<open>position_at\<close> share.\<close>

fun walk_along :: "libm \<Rightarrow> pyfloat \<Rightarrow> pyfloat \<Rightarrow> vec2 list \<Rightarrow> vec2 option" where
  "walk_along L travelled acc [] = None"
| "walk_along L travelled acc [a] = Some a"
| "walk_along L travelled acc (a # b # ps) =
     (let seg = lm_dist L a b
      in if travelled \<le> fadd acc seg
         then Some (between a b (if feq seg (Fin 0) then Fin 0 else fquot (fsub travelled acc) seg))
         else walk_along L travelled (fadd acc seg) (b # ps))"

definition pos_at_arclen :: "libm \<Rightarrow> vec2 list \<Rightarrow> pyfloat \<Rightarrow> vec2 option" where
  "pos_at_arclen L path travelled =
     (case path of [] \<Rightarrow> None | [a] \<Rightarrow> Some a | _ \<Rightarrow> walk_along L (fmax (Fin 0) travelled) (Fin 0) path)"

text \<open>
  The point of the path closest to a given one. A non-zero segment so short that its square
  underflows makes the projection divide by zero.
\<close>

definition project_on :: "libm \<Rightarrow> vec2 \<Rightarrow> vec2 \<Rightarrow> vec2 \<Rightarrow> fleet_error + vec2 \<times> pyfloat" where
  "project_on L a b p =
     (let seg = lm_dist L a b
      in if feq seg (Fin 0) then Inr (a, Fin 0)
         else let sq = fmul seg seg
              in if feq sq (Fin 0) then Inl FG_ZeroDivisionError
                 else let dx = fsub (fst b) (fst a); dy = fsub (snd b) (snd a);
                          raw = fquot (fadd (fmul (fsub (fst p) (fst a)) dx) (fmul (fsub (snd p) (snd a)) dy)) sq;
                          tt = fmax (Fin 0) (fmin (lit 1) raw)
                      in Inr ((fadd (fst a) (fmul tt dx), fadd (snd a) (fmul tt dy)), fmul tt seg))"

fun closest_arclen :: "libm \<Rightarrow> vec2 \<Rightarrow> pyfloat \<Rightarrow> pyfloat \<Rightarrow> pyfloat \<Rightarrow> vec2 list \<Rightarrow> fleet_error + pyfloat \<times> pyfloat" where
  "closest_arclen L p best_d best_s acc (a # b # ps) =
     rbind (project_on L a b p) (\<lambda>(proj, s_on).
       let d = lm_dist L proj p; acc' = fadd acc (lm_dist L a b)
       in if d < best_d then closest_arclen L p d (fadd acc s_on) acc' (b # ps)
          else closest_arclen L p best_d best_s acc' (b # ps))"
| "closest_arclen L p best_d best_s acc _ = Inr (best_s, best_d)"

definition arclen_of_point :: "libm \<Rightarrow> vec2 list \<Rightarrow> vec2 \<Rightarrow> fleet_error + pyfloat \<times> pyfloat" where
  "arclen_of_point L path p =
     (case path of
        [] \<Rightarrow> Inr (Fin 0, lit (10 ^ 9))
      | [a] \<Rightarrow> Inr (Fin 0, lm_dist L a p)
      | _ \<Rightarrow> closest_arclen L p (lit (10 ^ 18)) (Fin 0) (Fin 0) path)"

fun arclen_from :: "libm \<Rightarrow> pyfloat \<Rightarrow> pyfloat \<Rightarrow> vec2 list \<Rightarrow> fleet_error + pyfloat option" where
  "arclen_from L x acc (a # b # ps) =
     (let seg = lm_dist L a b; ax = fst a; bx = fst b;
          (lo, hi) = (if ax \<le> bx then (ax, bx) else (bx, ax))
      in if lo \<le> x \<and> x \<le> hi
         then (if feq bx ax then Inr (Some (fadd acc (fmul (Fin 0) seg)))
               else if feq (fsub bx ax) (Fin 0) then Inl FG_ZeroDivisionError
               else Inr (Some (fadd acc (fmul (fquot (fsub x ax) (fsub bx ax)) seg))))
         else arclen_from L x (fadd acc seg) (b # ps))"
| "arclen_from L x acc _ = Inr None"

definition arclen_of_x :: "libm \<Rightarrow> vec2 list \<Rightarrow> pyfloat \<Rightarrow> fleet_error + pyfloat option" where
  "arclen_of_x L path x = (if length path < 2 then Inr None else arclen_from L x (Fin 0) path)"

section \<open>Actors that follow the clock\<close>

definition position_at :: "libm \<Rightarrow> actor \<Rightarrow> pyfloat \<Rightarrow> pyfloat option \<Rightarrow> vec2 option" where
  "position_at L a t brake_time =
     (if t < ac_spawn_t a \<or> ac_path a = [] then None
      else let t = (case brake_time of Some b \<Rightarrow> if b < t then b else t | None \<Rightarrow> t)
           in if length (ac_path a) = 1 \<or> ac_speed_mps a \<le> Fin 0 then Some (hd (ac_path a))
              else let travelled = fmul (ac_speed_mps a) (fsub t (ac_spawn_t a))
                   in walk_along L (fmin travelled (path_length L (ac_path a))) (Fin 0) (ac_path a))"

definition same_point :: "vec2 \<Rightarrow> vec2 \<Rightarrow> bool" where
  "same_point p q \<longleftrightarrow> feq (fst p) (fst q) \<and> feq (snd p) (snd q)"

definition heading_at :: "libm \<Rightarrow> actor \<Rightarrow> pyfloat \<Rightarrow> pyfloat" where
  "heading_at L a t =
     (case position_at L a t None of
        None \<Rightarrow> Fin 0
      | Some p0 \<Rightarrow>
          (let p1 = (case position_at L a (fadd t (lit (1 / 10))) None of Some p \<Rightarrow> p | None \<Rightarrow> p0)
           in if same_point p1 p0 then Fin 0
              else lm_atan2 L (fsub (snd p1) (snd p0)) (fsub (fst p1) (fst p0))))"

section \<open>Line of sight\<close>

text \<open>The clip of a segment against the four sides of a rectangle, with its early returns.\<close>

fun clip_sides :: "(pyfloat \<times> pyfloat) list \<Rightarrow> pyfloat \<Rightarrow> pyfloat \<Rightarrow> bool" where
  "clip_sides [] t0 t1 = True"
| "clip_sides ((pp, qq) # sides) t0 t1 =
     (if feq pp (Fin 0) then (if qq < Fin 0 then False else clip_sides sides t0 t1)
      else let r = fquot qq pp;
               t0' = (if pp < Fin 0 then fmax t0 r else t0);
               t1' = (if pp < Fin 0 then t1 else fmin t1 r)
           in if t1' < t0' then False else clip_sides sides t0' t1')"

definition seg_intersects_rect :: "vec2 \<Rightarrow> vec2 \<Rightarrow> vec2 \<Rightarrow> vec2 \<Rightarrow> bool" where
  "seg_intersects_rect p q centre extent =
     (let hw = fquot (fst extent) (lit 2); hl = fquot (snd extent) (lit 2);
          minx = fsub (fst centre) hw; maxx = fadd (fst centre) hw;
          miny = fsub (snd centre) hl; maxy = fadd (snd centre) hl;
          dx = fsub (fst q) (fst p); dy = fsub (snd q) (snd p)
      in clip_sides [(fneg dx, fsub (fst p) minx), (dx, fsub maxx (fst p)),
                     (fneg dy, fsub (snd p) miny), (dy, fsub maxy (snd p))] (Fin 0) (lit 1))"

definition effective_lidar_range :: "libm \<Rightarrow> pyfloat \<Rightarrow> pyfloat \<Rightarrow> pyfloat" where
  "effective_lidar_range L base_range fog =
     fmul base_range (lm_exp L (fmul (lit (- 23 / 10)) (fmax (Fin 0) (fmin (lit 1) fog))))"

datatype blocked_reason = Out_of_range | In_fog | Occluded_by string

record sighting =
  sg_hazard :: string
  sg_visible :: bool
  sg_blocked :: "blocked_reason option"
  sg_distance :: pyfloat
  sg_ahead :: bool

definition sees_ahead :: "libm \<Rightarrow> pyfloat \<Rightarrow> vec2 \<Rightarrow> vec2 \<Rightarrow> bool" where
  "sees_ahead L chead cpos hpos =
     (let ang = lm_atan2 L (fsub (snd hpos) (snd cpos)) (fsub (fst hpos) (fst cpos)); d = fsub ang chead
      in fabs (lm_atan2 L (lm_sin L d) (lm_cos L d)) < lm_radians L (lit 75))"

definition blocks_view :: "(actor \<Rightarrow> vec2 option) \<Rightarrow> vec2 \<Rightarrow> vec2 \<Rightarrow> actor \<Rightarrow> bool" where
  "blocks_view pos_fn cpos hpos occ =
     (case pos_fn occ of None \<Rightarrow> False | Some opos \<Rightarrow> seg_intersects_rect cpos hpos opos (ac_size occ))"

definition blocked_by :: "libm \<Rightarrow> scenario \<Rightarrow> actor \<Rightarrow> pyfloat \<Rightarrow> (actor \<Rightarrow> vec2 option) \<Rightarrow> vec2 \<Rightarrow> vec2
    \<Rightarrow> blocked_reason option" where
  "blocked_by L s car fog pos_fn cpos hpos =
     (let d = lm_dist L cpos hpos; range = wd_lidar_range_m (sc_world s)
      in if range < d then Some Out_of_range
         else if effective_lidar_range L range fog < d then Some In_fog
         else map_option (\<lambda>occ. Occluded_by (ac_id occ))
                (find (blocks_view pos_fn cpos hpos)
                   (filter (\<lambda>a. (ac_kind a = Truck \<or> ac_kind a = Obstacle) \<and> ac_id a \<noteq> ac_id car) (sc_actors s))))"

definition sight :: "libm \<Rightarrow> scenario \<Rightarrow> actor \<Rightarrow> pyfloat \<Rightarrow> pyfloat \<Rightarrow> (actor \<Rightarrow> vec2 option) \<Rightarrow> vec2 \<Rightarrow> actor \<Rightarrow> sighting option" where
  "sight L s car t fog pos_fn cpos hz =
     (case pos_fn hz of
        None \<Rightarrow> None
      | Some hpos \<Rightarrow>
          (let reason = blocked_by L s car fog pos_fn cpos hpos
           in Some \<lparr>sg_hazard = ac_id hz, sg_visible = (reason = None), sg_blocked = reason,
                    sg_distance = lm_dist L cpos hpos, sg_ahead = sees_ahead L (heading_at L car t) cpos hpos\<rparr>))"

definition lidar_sightings :: "libm \<Rightarrow> scenario \<Rightarrow> actor \<Rightarrow> pyfloat \<Rightarrow> pyfloat \<Rightarrow> (actor \<Rightarrow> vec2 option) \<Rightarrow> sighting list" where
  "lidar_sightings L s car t fog pos_fn =
     (case pos_fn car of
        None \<Rightarrow> []
      | Some cpos \<Rightarrow> List.map_filter (sight L s car t fog pos_fn cpos) (hazards s))"

section \<open>What a sighting means\<close>

lemma lidar_sightings_in:
  assumes "sg \<in> set (lidar_sightings L s car t fog pos_fn)"
  obtains hz cpos hpos where "hz \<in> set (hazards s)" "sg_hazard sg = ac_id hz"
    "pos_fn car = Some cpos" "pos_fn hz = Some hpos" "sg_distance sg = lm_dist L cpos hpos"
    "sg_visible sg \<longleftrightarrow> blocked_by L s car fog pos_fn cpos hpos = None"
    "sg_blocked sg = blocked_by L s car fog pos_fn cpos hpos"
proof -
  from assms obtain cpos hz where c: "pos_fn car = Some cpos" and hz: "hz \<in> set (hazards s)"
    and sg: "sight L s car t fog pos_fn cpos hz = Some sg"
    by (cases "pos_fn car") (auto simp: lidar_sightings_def List.map_filter_def)
  then obtain hpos where h: "pos_fn hz = Some hpos" by (simp add: sight_def split: option.splits)
  with sg show ?thesis by (intro that [OF hz _ c h]) (auto simp: sight_def Let_def)
qed

text \<open>
  A hazard the lidar reports as visible is within the lidar's range, within what the fog leaves
  of it, and no truck or obstacle stands in the line of sight.
\<close>

lemma visible_in_clear_sight:
  assumes "sg \<in> set (lidar_sightings L s car t fog pos_fn)" "sg_visible sg"
  shows "\<exists>cpos hpos. pos_fn car = Some cpos \<and> sg_distance sg = lm_dist L cpos hpos \<and>
    \<not> wd_lidar_range_m (sc_world s) < sg_distance sg \<and>
    \<not> effective_lidar_range L (wd_lidar_range_m (sc_world s)) fog < sg_distance sg \<and>
    (\<forall>occ \<in> set (occluders s). ac_id occ \<noteq> ac_id car \<longrightarrow> \<not> blocks_view pos_fn cpos hpos occ)"
proof -
  from assms obtain hz cpos hpos where *: "pos_fn car = Some cpos" "sg_distance sg = lm_dist L cpos hpos"
    and none: "blocked_by L s car fog pos_fn cpos hpos = None"
    by (elim lidar_sightings_in) blast
  from none have "\<not> wd_lidar_range_m (sc_world s) < lm_dist L cpos hpos"
    "\<not> effective_lidar_range L (wd_lidar_range_m (sc_world s)) fog < lm_dist L cpos hpos"
    "\<forall>occ \<in> set (occluders s). ac_id occ \<noteq> ac_id car \<longrightarrow> \<not> blocks_view pos_fn cpos hpos occ"
    by (auto simp: blocked_by_def Let_def occluders_def find_None_iff split: if_splits)
  with * show ?thesis by metis
qed

text \<open>A walk along a path of at least one point ends somewhere: a spawned actor has a position.\<close>

lemma walk_along_some: "path \<noteq> [] \<Longrightarrow> walk_along L travelled acc path \<noteq> None"
  by (induction L travelled acc path rule: walk_along.induct) (simp_all add: Let_def)

lemma pos_at_arclen_some: "path \<noteq> [] \<Longrightarrow> pos_at_arclen L path travelled \<noteq> None"
  using walk_along_some [of path L] by (auto simp del: walk_along.simps(3) simp: pos_at_arclen_def split: list.split)

lemma position_at_some: "position_at L a t b = None \<longleftrightarrow> t < ac_spawn_t a \<or> ac_path a = []"
  using walk_along_some by (auto simp: position_at_def Let_def)

text \<open>The only exception of the two arc-length searches is the division by zero.\<close>

lemma arclen_of_point_error:
  assumes "arclen_of_point L path p = Inl e"
  shows "e = FG_ZeroDivisionError \<and> (\<exists>a b. a \<in> set path \<and> b \<in> set path \<and>
    \<not> feq (lm_dist L a b) (Fin 0) \<and> feq (fmul (lm_dist L a b) (lm_dist L a b)) (Fin 0))"
proof -
  have "closest_arclen L p bd bs acc path = Inl e \<Longrightarrow> e = FG_ZeroDivisionError \<and> (\<exists>a b. a \<in> set path \<and> b \<in> set path \<and>
    \<not> feq (lm_dist L a b) (Fin 0) \<and> feq (fmul (lm_dist L a b) (lm_dist L a b)) (Fin 0))" for bd bs acc
  proof (induction L path arbitrary: bd bs acc rule: segments.induct)
    case (1 L a b ps)
    show ?case
    proof (cases "project_on L a b p")
      case (Inl e')
      then have "e = FG_ZeroDivisionError \<and> \<not> feq (lm_dist L a b) (Fin 0) \<and> feq (fmul (lm_dist L a b) (lm_dist L a b)) (Fin 0)"
        using 1(2) by (simp add: project_on_def Let_def split: if_splits)
      then show ?thesis by (intro conjI exI [of _ a] exI [of _ b]) simp_all
    next
      case (Inr r)
      then obtain bd' bs' acc' where "closest_arclen L p bd' bs' acc' (b # ps) = Inl e"
        using 1(2) by (cases r) (auto simp: Let_def split: if_splits)
      from 1(1) [OF this] show ?thesis by (meson list.set_intros(2))
    qed
  qed simp_all
  with assms show ?thesis by (simp add: arclen_of_point_def split: list.splits)
qed

end
