(* ===== verification/FleetRadio.thy ===== *)
theory FleetRadio
  imports FleetWorld SimExchange
begin

text \<open>
  The radio bridge of FleetGraph, \<open>radio.py\<close>: the signal-to-noise ratio the world gives a link,
  the predictor of delivery, and the mesh of simulated links over which a beacon is sent as a
  signed envelope through \<open>SimulatedRFLink.transmit\<close>. The modem and the channel it is run
  through (floating-point signal processing) are a parameter, as is whether the modem
  raises on the noise it is given. Latencies are left out, as in the exchange records.
\<close>

section \<open>World to signal-to-noise ratio\<close>

record link_conditions =
  lc_distance_m :: pyfloat
  lc_fog_density :: pyfloat
  lc_interference :: pyfloat
  lc_tx_power_db :: pyfloat

definition conditions_at :: "pyfloat \<Rightarrow> link_conditions" where
  "conditions_at d = \<lparr>lc_distance_m = d, lc_fog_density = Fin 0, lc_interference = Fin 0, lc_tx_power_db = lit 22\<rparr>"

definition path_loss_db :: "libm \<Rightarrow> pyfloat \<Rightarrow> pyfloat" where
  "path_loss_db L d = (if lit 60 < d then fmul (lit 20) (lm_log10 L (fquot d (lit 60))) else Fin 0)"

definition fog_loss_db :: "pyfloat \<Rightarrow> pyfloat \<Rightarrow> pyfloat" where
  "fog_loss_db fog d = fmul fog (fadd (lit 5) (fmul (lit (3 / 10)) d))"

definition snr_db_for :: "libm \<Rightarrow> link_conditions \<Rightarrow> pyfloat" where
  "snr_db_for L c =
     (let d = fmax (lc_distance_m c) (lit 1)
      in fsub (fsub (fsub (lc_tx_power_db c) (path_loss_db L d)) (fog_loss_db (lc_fog_density c) d))
           (fmul (lc_interference c) (lit 40)))"

section \<open>The predictor of delivery\<close>

text \<open>
  \<open>f"{round(snr_db, 1)}:{seed}"\<close> for an \<open>snr_db\<close> strictly between -5 and -1, where the rounded value
  prints as a sign, a digit, a point and a digit.
\<close>

definition tenths :: "pyfloat \<Rightarrow> int" where
  "tenths x = (case x of Fin q \<Rightarrow> round_half_even (q * 10) | _ \<Rightarrow> 0)"

definition flicker_text :: "pyfloat \<Rightarrow> int \<Rightarrow> string" where
  "flicker_text snr seed =
     (let k = nat (- tenths snr)
      in ''-'' @ dec_digits (k div 10) @ ''.'' @ dec_digits (k mod 10) @ '':'' @ int_repr seed)"

definition flicker :: "pyfloat \<Rightarrow> int \<Rightarrow> nat" where
  "flicker snr seed = from_be (take 2 (sha256 (utf8 (flicker_text snr seed))))"

definition predict_delivery :: "pyfloat \<Rightarrow> int \<Rightarrow> bool" where
  "predict_delivery snr seed =
     (if lit (- 1) \<le> snr then True
      else if snr \<le> lit (- 5) then False
      else fquot (lit (of_nat (flicker snr seed))) (lit 65535)
             < fquot (fsub snr (lit (- 5))) (lit 4))"

section \<open>The mesh\<close>

record car_key =
  ck_raw_public :: bytes
  ck_public_b64 :: string
  ck_sign :: "bytes \<Rightarrow> string"

definition make_car_identity :: "car_key \<Rightarrow> string \<Rightarrow> string option \<Rightarrow> node_identity" where
  "make_car_identity key node_id node_name =
     \<lparr>ni_node_id = node_id, ni_node_name = (if truthy node_name then or_empty node_name else node_id),
      ni_public_key = ck_public_b64 key, ni_fingerprint = sha256_text (ck_raw_public key), ni_sign = ck_sign key\<rparr>"

definition demo_link_secret :: bytes where
  "demo_link_secret = utf8 ''fleetgraph-demo-shared-secret-v1''"

definition mesh_profile :: "string \<Rightarrow> rf_profile option" where
  "mesh_profile pid = map_of [(''ref-bpsk-1k'', reference_bpsk), (''ref-qpsk-2k'', reference_qpsk)] pid"

datatype beacon_outcome = Undecodable_noise | Recorded decode_outcome

record beacon_result =
  br_delivered :: bool
  br_status :: delivery_status
  br_snr_db :: pyfloat
  br_profile_id :: string
  br_frames_sent :: nat
  br_frames_acked :: nat
  br_retries :: nat
  br_signature_verified :: bool
  br_outcome :: beacon_outcome
  br_payload :: "(string \<times> json) list option"
  br_sender :: string
  br_receiver :: string

text \<open>A NaN is no key: \<open>round(nan, 1)\<close> is a new object each time and equal to nothing.\<close>

type_synonym cache_key = "string \<times> string \<times> pyfloat \<times> int \<times> string"

record radio_mesh =
  rm_profile :: rf_profile
  rm_identities :: "string \<rightharpoonup> node_identity"
  rm_links :: "string \<times> string \<rightharpoonup> sim_rf_link"
  rm_cache :: "cache_key \<rightharpoonup> beacon_result"
  rm_exchanges :: nat

text \<open>
  The surroundings of an exchange: the radio (cipher, parsers, modem over the channel at an SNR and
  seed), whether the modem raises, and the clock, uuids and nonce of the \<open>n\<close>-th exchange.
\<close>

record exchange_draw =
  xd_values :: fresh_values
  xd_seal_time :: int
  xd_open_time :: int
  xd_nonce :: bytes

record mesh_env =
  mx_radio :: "rf_profile \<Rightarrow> pyfloat \<Rightarrow> int \<Rightarrow> radio_env"
  mx_raises :: "rf_profile \<Rightarrow> pyfloat \<Rightarrow> int \<Rightarrow> message_envelope \<Rightarrow> bool"
  mx_draw :: "nat \<Rightarrow> exchange_draw"

definition new_mesh :: "string \<Rightarrow> fleet_error + radio_mesh" where
  "new_mesh pid = (case mesh_profile pid of
     None \<Rightarrow> Inl FG_KeyError
   | Some p \<Rightarrow> Inr \<lparr>rm_profile = p, rm_identities = Map.empty, rm_links = Map.empty, rm_cache = Map.empty, rm_exchanges = 0\<rparr>)"

definition add_car :: "node_identity \<Rightarrow> radio_mesh \<Rightarrow> radio_mesh" where
  "add_car i m = m\<lparr>rm_identities := (rm_identities m)(ni_node_id i \<mapsto> i)\<rparr>"

definition pair_key :: "string \<Rightarrow> string \<Rightarrow> string \<times> string" where
  "pair_key a b = (if b < a then (b, a) else (a, b))"

definition link_for :: "string \<Rightarrow> string \<Rightarrow> radio_mesh \<Rightarrow> fleet_error + sim_rf_link \<times> radio_mesh" where
  "link_for a b m =
     (let key = pair_key a b
      in case rm_links m key of
           Some l \<Rightarrow> Inr (l, m)
         | None \<Rightarrow>
             (case (rm_identities m (fst key), rm_identities m (snd key)) of
                (Some ida, Some idb) \<Rightarrow>
                  (let l = add_endpoint (ni_node_id idb) (ni_node_id ida) (ni_public_key ida) demo_link_secret
                             (add_endpoint (ni_node_id ida) (ni_node_id idb) (ni_public_key idb) demo_link_secret
                                \<lparr>sl_profile = rm_profile m, sl_endpoints = Map.empty, sl_failures = 0\<rparr>)
                   in Inr (l, m\<lparr>rm_links := (rm_links m)(key \<mapsto> l)\<rparr>))
              | _ \<Rightarrow> Inl FG_KeyError))"

definition set_link :: "string \<Rightarrow> string \<Rightarrow> sim_rf_link \<Rightarrow> radio_mesh \<Rightarrow> radio_mesh" where
  "set_link a b l m = m\<lparr>rm_links := (rm_links m)(pair_key a b \<mapsto> l)\<rparr>"

definition lost_beacon :: "pyfloat \<Rightarrow> rf_profile \<Rightarrow> string \<Rightarrow> string \<Rightarrow> beacon_result" where
  "lost_beacon snr p sender receiver =
     \<lparr>br_delivered = False, br_status = FAILED, br_snr_db = snr, br_profile_id = profile_id p,
      br_frames_sent = 0, br_frames_acked = 0, br_retries = 0, br_signature_verified = False,
      br_outcome = Undecodable_noise, br_payload = None, br_sender = sender, br_receiver = receiver\<rparr>"

definition heard_beacon :: "pyfloat \<Rightarrow> rf_profile \<Rightarrow> string \<Rightarrow> string \<Rightarrow> delivery_receipt \<Rightarrow> message_envelope option
    \<Rightarrow> exchange_record \<Rightarrow> beacon_result" where
  "heard_beacon snr p sender receiver rc received xr =
     \<lparr>br_delivered = (received \<noteq> None), br_status = rc_status rc, br_snr_db = snr, br_profile_id = profile_id p,
      br_frames_sent = xr_frame_count xr, br_frames_acked = xr_acks xr, br_retries = xr_retries xr,
      br_signature_verified = (xr_signature_verified xr = Some True), br_outcome = Recorded (xr_outcome xr),
      br_payload = map_option env_payload received, br_sender = sender, br_receiver = receiver\<rparr>"

definition beacon_request :: "string \<Rightarrow> (string \<times> json) list \<Rightarrow> envelope_request" where
  "beacon_request receiver payload =
     \<lparr>er_recipient_node_id = Some receiver, er_recipient_agent_id = None, er_kind = ''agent_message'',
      er_payload = payload, er_conversation_id = None, er_correlation_id = None, er_causation_id = None,
      er_reply_to_message_id = None, er_mission_id = None, er_mission_run_id = None, er_mission_step_id = None,
      er_content_type = ''application/json'', er_expires_in_seconds = None, er_message_id = None,
      er_mesh_id = None, er_authority_id = None\<rparr>"

text \<open>
  A modem that raises does so inside \<open>transmit\<close>, after the sender's sequence number was counted up;
  any other exception leaves the link as \<open>transmit\<close> does.
\<close>

definition count_sequence :: "string \<Rightarrow> sim_rf_link \<Rightarrow> sim_rf_link" where
  "count_sequence sender l = (case sl_endpoints l sender of
     None \<Rightarrow> l
   | Some ep \<Rightarrow> l\<lparr>sl_endpoints := (sl_endpoints l)(sender \<mapsto> ep\<lparr>ep_sequence := ep_sequence ep + 1\<rparr>)\<rparr>)"

definition exchange :: "mesh_env \<Rightarrow> string \<Rightarrow> string \<Rightarrow> pyfloat \<Rightarrow> int \<Rightarrow> exchange_draw \<Rightarrow> message_envelope \<Rightarrow> sim_rf_link
    \<Rightarrow> sim_rf_link \<times> beacon_result" where
  "exchange mx sender receiver snr seed xd e l =
     (let p = sl_profile l
      in if mx_raises mx p snr seed e then (count_sequence sender l, lost_beacon snr p sender receiver)
         else case transmit (mx_radio mx p snr seed) sender receiver e (xd_seal_time xd) (xd_open_time xd) (xd_nonce xd) l of
                (l', Inl _) \<Rightarrow> (l', lost_beacon snr p sender receiver)
              | (l', Inr (rc, received, xr)) \<Rightarrow> (l', heard_beacon snr p sender receiver rc received xr))"

text \<open>The common part of the two senders: the link, its profile, the signed envelope, the exchange.\<close>

definition link_used :: "string \<Rightarrow> string \<Rightarrow> string option \<Rightarrow> radio_mesh \<Rightarrow> fleet_error + sim_rf_link \<times> radio_mesh" where
  "link_used sender receiver pid m =
     rbind (link_for sender receiver m) (\<lambda>(l, m).
       case pid of
         None \<Rightarrow> Inr (l, m)
       | Some i \<Rightarrow> (case mesh_profile i of None \<Rightarrow> Inl FG_KeyError | Some p \<Rightarrow> Inr (l\<lparr>sl_profile := p\<rparr>, m)))"

definition run_beacon :: "mesh_env \<Rightarrow> string \<Rightarrow> string \<Rightarrow> (string \<times> json) list \<Rightarrow> pyfloat \<Rightarrow> int \<Rightarrow> string option
    \<Rightarrow> radio_mesh \<Rightarrow> fleet_error + beacon_result \<times> radio_mesh" where
  "run_beacon mx sender receiver payload snr seed pid m =
     rbind (link_used sender receiver pid m) (\<lambda>(l, m).
       case rm_identities m sender of
         None \<Rightarrow> Inl FG_KeyError
       | Some ident \<Rightarrow>
           (let xd = mx_draw mx (rm_exchanges m)
            in case build_envelope (re_float_repr (mx_radio mx (sl_profile l) snr seed)) ident (xd_values xd)
                      (beacon_request receiver payload) of
                 None \<Rightarrow> Inl FG_ValueError
               | Some e \<Rightarrow>
                   (let (l', r) = exchange mx sender receiver snr seed xd e l
                    in Inr (r, (set_link sender receiver l' m)\<lparr>rm_exchanges := rm_exchanges m + 1\<rparr>))))"

definition send_beacon :: "libm \<Rightarrow> mesh_env \<Rightarrow> string \<Rightarrow> string \<Rightarrow> (string \<times> json) list \<Rightarrow> link_conditions \<Rightarrow> int
    \<Rightarrow> string option \<Rightarrow> radio_mesh \<Rightarrow> fleet_error + beacon_result \<times> radio_mesh" where
  "send_beacon L mx sender receiver payload cond seed pid m =
     run_beacon mx sender receiver payload (snr_db_for L cond) seed pid m"

definition cache_key_of :: "string \<Rightarrow> string \<Rightarrow> pyfloat \<Rightarrow> int \<Rightarrow> string option \<Rightarrow> radio_mesh \<Rightarrow> cache_key" where
  "cache_key_of sender receiver snr seed pid m =
     (sender, receiver, round_digits 1 snr, seed,
      if truthy pid then or_empty pid else profile_id (rm_profile m))"

definition send_beacon_real_cached :: "mesh_env \<Rightarrow> string \<Rightarrow> string \<Rightarrow> (string \<times> json) list \<Rightarrow> pyfloat \<Rightarrow> int
    \<Rightarrow> string option \<Rightarrow> radio_mesh \<Rightarrow> fleet_error + beacon_result \<times> radio_mesh" where
  "send_beacon_real_cached mx sender receiver payload snr seed pid m =
     (let key = cache_key_of sender receiver snr seed pid m
      in case (if snr = NaN then None else rm_cache m key) of
           Some r \<Rightarrow> Inr (r, m)
         | None \<Rightarrow> rbind (run_beacon mx sender receiver payload snr seed pid m) (\<lambda>(r, m).
                     Inr (r, m\<lparr>rm_cache := (rm_cache m)(key \<mapsto> r)\<rparr>)))"


section \<open>The ratio falls with distance, fog and interference\<close>

lemma fsub_not_NaN: "fsub a b \<noteq> NaN \<Longrightarrow> a \<noteq> NaN \<and> b \<noteq> NaN"
  by (cases a; cases b) (simp_all add: fsub_def)

lemma fmul_not_NaN: "fmul a b \<noteq> NaN \<Longrightarrow> a \<noteq> NaN \<and> b \<noteq> NaN"
  by (cases a; cases b) simp_all

lemma fadd_not_NaN: "fadd a b \<noteq> NaN \<Longrightarrow> a \<noteq> NaN \<and> b \<noteq> NaN"
  by (cases a; cases b) simp_all

text \<open>What is used of the logarithm: it is monotone, and not negative from one on.\<close>

definition log10_law :: "libm \<Rightarrow> bool" where
  "log10_law L \<longleftrightarrow> (\<forall>x y. lit 1 \<le> x \<longrightarrow> x \<le> y \<longrightarrow> Fin 0 \<le> lm_log10 L x \<and> lm_log10 L x \<le> lm_log10 L y)"

lemma lit_le: "a \<le> b \<Longrightarrow> lit a \<le> lit b"
  by (rule binary64_mono)

lemma lit_60: "lit 60 = Fin 60" and lit_1: "lit 1 = Fin 1" and lit_22: "lit 22 = Fin 22"
  and lit_m1: "lit (- 1) = Fin (- 1)" and lit_m5: "lit (- 5) = Fin (- 5)" and lit_5: "lit 5 = Fin 5"
  and lit_20: "lit 20 = Fin 20" and lit_40: "lit 40 = Fin 40"
  by code_simp+

lemma path_loss_mono:
  assumes "log10_law L" "d \<le> d'" "path_loss_db L d \<noteq> NaN" "path_loss_db L d' \<noteq> NaN"
  shows "path_loss_db L d \<le> path_loss_db L d' \<and> Fin 0 \<le> path_loss_db L d"
proof -
  have log: "Fin 0 \<le> lm_log10 L (fquot d (lit 60))" "lm_log10 L (fquot d (lit 60)) \<le> lm_log10 L (fquot d' (lit 60))"
    if "lit 60 < d" "d \<le> d'" for d d'
  proof -
    have "fquot d (lit 60) \<noteq> NaN" "fquot d' (lit 60) \<noteq> NaN"
      using that fle_not_NaN [OF that(2)] by (cases d; cases d'; simp add: lit_60)+
    then have le: "fquot d (lit 60) \<le> fquot d' (lit 60)" using that by (intro fquot_mono) (simp_all add: lit_60)
    have one: "lit 1 \<le> fquot d (lit 60)" using that by (cases d) (auto simp: lit_60 intro!: binary64_mono)
    show "Fin 0 \<le> lm_log10 L (fquot d (lit 60))" "lm_log10 L (fquot d (lit 60)) \<le> lm_log10 L (fquot d' (lit 60))"
      using assms(1) le one by (auto simp: log10_law_def)
  qed
  have loss: "Fin 0 \<le> path_loss_db L d" if "path_loss_db L d \<noteq> NaN" "d \<noteq> NaN" for d
    using that log [of d d] by (auto simp: path_loss_db_def lit_20 intro!: fmul_nonneg)
  have nn: "d \<noteq> NaN" "d' \<noteq> NaN" using fle_not_NaN [OF assms(2)] by simp_all
  have "path_loss_db L d \<le> path_loss_db L d'"
  proof (cases "lit 60 < d")
    case True
    then have "lit 60 < d'" using assms(2) by (rule fless_le_trans)
    with True assms log [OF True assms(2)] show ?thesis
      by (auto simp: path_loss_db_def lit_20 intro!: fmul_mono)
  next
    case False
    with loss [OF assms(4) nn(2)] show ?thesis by (simp add: path_loss_db_def)
  qed
  with loss [OF assms(3) nn(1)] show ?thesis by simp
qed

lemma fog_loss_mono:
  assumes "Fin 0 \<le> fog" "fog \<le> fog'" "Fin 0 \<le> d" "d \<le> d'" "fog_loss_db fog d \<noteq> NaN" "fog_loss_db fog' d' \<noteq> NaN"
  shows "fog_loss_db fog d \<le> fog_loss_db fog' d'"
proof -
  have c: "Fin 0 \<le> lit (3 / 10)" "lit (3 / 10) \<le> lit (3 / 10)" "Fin 0 \<le> lit 5" by (simp_all add: binary64_nonneg lit_5)
  have k: "fmul (lit (3 / 10)) d \<noteq> NaN" "fmul (lit (3 / 10)) d' \<noteq> NaN"
    "fadd (lit 5) (fmul (lit (3 / 10)) d) \<noteq> NaN" "fadd (lit 5) (fmul (lit (3 / 10)) d') \<noteq> NaN"
    using assms(5,6) fmul_not_NaN fadd_not_NaN unfolding fog_loss_db_def by metis+
  have m: "fmul (lit (3 / 10)) d \<le> fmul (lit (3 / 10)) d'" using c assms k by (intro fmul_mono) auto
  then have "fadd (lit 5) (fmul (lit (3 / 10)) d) \<le> fadd (lit 5) (fmul (lit (3 / 10)) d')"
    using k by (intro fadd_mono) auto
  moreover have "Fin 0 \<le> fadd (lit 5) (fmul (lit (3 / 10)) d)"
    using fadd_ge [of "lit 5"] fmul_nonneg [OF c(1) assms(3) k(1)] k(3) c(3) by (meson binary64_double fle_trans)
  ultimately show ?thesis using assms unfolding fog_loss_db_def by (intro fmul_mono) auto
qed

text \<open>
  C39: a worse world never makes a better link. With the same power, a link over at least the distance,
  through at least the fog and with at least the interference of another has at most its
  signal-to-noise ratio, in the doubles the code computes with; all the code relies on in
  \<open>log10\<close> is that it is monotone and not negative from one on.
\<close>

theorem snr_falls_with_distance_fog_and_jamming:
  assumes "log10_law L" "lc_tx_power_db c = lc_tx_power_db c'"
    and "lc_distance_m c \<le> lc_distance_m c'"
    and "Fin 0 \<le> lc_fog_density c" "lc_fog_density c \<le> lc_fog_density c'"
    and "Fin 0 \<le> lc_interference c" "lc_interference c \<le> lc_interference c'"
    and "snr_db_for L c \<noteq> NaN" "snr_db_for L c' \<noteq> NaN"
  shows "snr_db_for L c' \<le> snr_db_for L c"
proof -
  let ?d = "fmax (lc_distance_m c) (lit 1)" and ?d' = "fmax (lc_distance_m c') (lit 1)"
  let ?P = "\<lambda>c d. path_loss_db L d" and ?F = "\<lambda>c d. fog_loss_db (lc_fog_density c) d"
  let ?I = "\<lambda>c. fmul (lc_interference c) (lit 40)"
  have d: "?d \<le> ?d'" "Fin 0 \<le> ?d"
    using assms(3) by (cases "lc_distance_m c"; cases "lc_distance_m c'"; auto simp: fmax_def lit_1)+
  have nn: "path_loss_db L ?d \<noteq> NaN" "path_loss_db L ?d' \<noteq> NaN" "?F c ?d \<noteq> NaN" "?F c' ?d' \<noteq> NaN"
    "?I c \<noteq> NaN" "?I c' \<noteq> NaN" "fsub (lc_tx_power_db c) (path_loss_db L ?d) \<noteq> NaN"
    "fsub (lc_tx_power_db c') (path_loss_db L ?d') \<noteq> NaN" "lc_tx_power_db c \<noteq> NaN"
    "fsub (fsub (lc_tx_power_db c) (path_loss_db L ?d)) (?F c ?d) \<noteq> NaN"
    "fsub (fsub (lc_tx_power_db c') (path_loss_db L ?d')) (?F c' ?d') \<noteq> NaN"
    using assms(8,9) fsub_not_NaN unfolding snr_db_for_def Let_def by metis+
  have p: "path_loss_db L ?d \<le> path_loss_db L ?d'"
    using path_loss_mono [OF assms(1) d(1) nn(1,2)] by simp
  have f: "?F c ?d \<le> ?F c' ?d'" by (rule fog_loss_mono) (use assms d nn in simp_all)
  have i: "?I c \<le> ?I c'" using assms nn by (intro fmul_mono) (simp_all add: lit_40)
  have "fsub (lc_tx_power_db c') (path_loss_db L ?d') \<le> fsub (lc_tx_power_db c) (path_loss_db L ?d)"
    using nn p assms(2) by (intro fsub_mono) simp_all
  then have "fsub (fsub (lc_tx_power_db c') (path_loss_db L ?d')) (?F c' ?d')
      \<le> fsub (fsub (lc_tx_power_db c) (path_loss_db L ?d)) (?F c ?d)"
    by (rule fsub_mono [OF _ f nn(11,10)])
  from fsub_mono [OF this i] assms(8,9) show ?thesis unfolding snr_db_for_def Let_def by simp
qed

definition demo_libm :: libm where
  "demo_libm = \<lparr>lm_dist = (\<lambda>p q. fadd (fabs (fsub (fst p) (fst q))) (fabs (fsub (snd p) (snd q)))),
     lm_sqrt = (\<lambda>x. x), lm_exp = (\<lambda>x. if x < Fin 0 then Fin 0 else lit 1),
     lm_log10 = (\<lambda>x. if x < lit 10 then Fin 0 else lit 1), lm_sin = (\<lambda>x. x), lm_cos = (\<lambda>x. lit 1),
     lm_atan2 = (\<lambda>y x. if x < Fin 0 then lit 3 else Fin 0), lm_radians = (\<lambda>x. lit 1),
     lm_sum = (\<lambda>xs. foldr fadd xs (Fin 0))\<rparr>"


lemma demo_log10: "log10_law demo_libm"
  by (auto simp: log10_law_def demo_libm_def lit_1 dest: fless_le fle_trans)
     (metis fle_not_NaN fless_le fless_le_trans fnot_less fle_trans)+

theorem snr_falls_with_distance_fog_and_jamming_witness:
  "let c = (conditions_at (lit 50))\<lparr>lc_fog_density := lit (7 / 10)\<rparr>;
       c' = c\<lparr>lc_distance_m := lit 1200, lc_interference := lit (1 / 2)\<rparr>
   in snr_db_for demo_libm c' \<le> snr_db_for demo_libm c \<and> snr_db_for demo_libm c' \<noteq> snr_db_for demo_libm c"
proof -
  let ?c = "(conditions_at (lit 50))\<lparr>lc_fog_density := lit (7 / 10)\<rparr>"
  let ?c' = "?c\<lparr>lc_distance_m := lit 1200, lc_interference := lit (1 / 2)\<rparr>"
  have "snr_db_for demo_libm ?c \<noteq> NaN \<and> snr_db_for demo_libm ?c' \<noteq> NaN \<and>
      snr_db_for demo_libm ?c' \<noteq> snr_db_for demo_libm ?c" by code_simp
  moreover have "lit 50 \<le> lit 1200" "Fin 0 \<le> lit (7 / 10)" "lit (7 / 10) \<le> lit (7 / 10)" "Fin 0 \<le> lit (1 / 2)"
    by (simp_all add: lit_le binary64_nonneg)
  ultimately show ?thesis
    using snr_falls_with_distance_fog_and_jamming [OF demo_log10, of ?c ?c'] by (simp add: conditions_at_def Let_def)
qed

section \<open>A beacon that is delivered is the beacon that was sent\<close>

lemma derive_link_key_sym: "derive_link_key a b secret = derive_link_key b a secret"
  by (auto simp: derive_link_key_def Let_def)

definition endpoint_keys :: "sim_rf_link \<Rightarrow> string \<Rightarrow> (bytes \<times> string) option" where
  "endpoint_keys l x = map_option (\<lambda>ep. (ep_link_key ep, ep_peer_public_key ep)) (sl_endpoints l x)"

text \<open>Every link of the mesh joins two cars of it, holds one key at both ends and knows who is who.\<close>

definition link_ok :: "(string \<rightharpoonup> node_identity) \<Rightarrow> string \<times> string \<Rightarrow> sim_rf_link \<Rightarrow> bool" where
  "link_ok ids ab l \<longleftrightarrow> 0 \<le> max_retries (sl_profile l) \<and>
     (\<exists>k ia ib. ids (fst ab) = Some ia \<and> ids (snd ab) = Some ib \<and>
        endpoint_keys l (fst ab) = Some (k, ni_public_key ib) \<and> endpoint_keys l (snd ab) = Some (k, ni_public_key ia))"

definition mesh_ok :: "radio_mesh \<Rightarrow> bool" where
  "mesh_ok m \<longleftrightarrow> 0 \<le> max_retries (rm_profile m) \<and>
     (\<forall>k i. rm_identities m k = Some i \<longrightarrow> ni_node_id i = k) \<and>
     (\<forall>ab l. rm_links m ab = Some l \<longrightarrow> link_ok (rm_identities m) ab l)"

lemma mesh_profile_retries: "mesh_profile i = Some p \<Longrightarrow> 0 \<le> max_retries p"
  by (auto simp: mesh_profile_def reference_bpsk_def reference_qpsk_def split: if_splits)

lemma transmit_keeps:
  assumes "transmit re s r e t1 t2 nonce l = (l', res)"
  shows "sl_profile l' = sl_profile l \<and> endpoint_keys l' x = endpoint_keys l x"
  using assms
  by (auto simp: transmit_def Let_def endpoint_keys_def split: option.splits sum.splits prod.splits if_splits)

lemma exchange_keeps:
  assumes "exchange mx s r snr seed xd e l = (l', b)"
  shows "sl_profile l' = sl_profile l \<and> endpoint_keys l' x = endpoint_keys l x"
proof (cases "mx_raises mx (sl_profile l) snr seed e")
  case True
  with assms show ?thesis
    by (auto simp: exchange_def Let_def count_sequence_def endpoint_keys_def split: option.splits)
next
  case False
  obtain l2 res where t: "transmit (mx_radio mx (sl_profile l) snr seed) s r e (xd_seal_time xd) (xd_open_time xd) (xd_nonce xd) l
      = (l2, res)" by fastforce
  with False assms have "l' = l2" by (auto simp: exchange_def Let_def split: sum.splits)
  with transmit_keeps [OF t] show ?thesis by simp
qed

lemma link_for_ok:
  assumes "mesh_ok m" "link_for a b m = Inr (l, m')"
  shows "mesh_ok m' \<and> link_ok (rm_identities m') (pair_key a b) l \<and> rm_identities m' = rm_identities m"
proof (cases "rm_links m (pair_key a b)")
  case (Some l0)
  with assms(2) have "m' = m" "l = l0" by (auto simp: link_for_def Let_def)
  moreover have "link_ok (rm_identities m) (pair_key a b) l0" using assms(1) Some by (simp only: mesh_ok_def)
  ultimately show ?thesis using assms(1) by simp
next
  case None
  let ?k = "pair_key a b"
  obtain ia ib where ids: "rm_identities m (fst ?k) = Some ia" "rm_identities m (snd ?k) = Some ib"
    and l: "l = add_endpoint (ni_node_id ib) (ni_node_id ia) (ni_public_key ia) demo_link_secret
                  (add_endpoint (ni_node_id ia) (ni_node_id ib) (ni_public_key ib) demo_link_secret
                    \<lparr>sl_profile = rm_profile m, sl_endpoints = Map.empty, sl_failures = 0\<rparr>)"
    and m': "m' = m\<lparr>rm_links := (rm_links m)(?k \<mapsto> l)\<rparr>"
    using assms(2) None by (auto simp: link_for_def Let_def split: option.splits)
  have names: "ni_node_id ia = fst ?k" "ni_node_id ib = snd ?k" using assms(1) ids by (simp_all add: mesh_ok_def)
  have "link_ok (rm_identities m) ?k l"
    using assms(1) ids derive_link_key_sym [of "fst ?k" "snd ?k"]
    by (auto simp: link_ok_def l names endpoint_keys_def add_endpoint_def mesh_ok_def)
  with assms(1) show ?thesis by (auto simp: mesh_ok_def m')
qed

lemma link_used_ok:
  assumes "mesh_ok m" "link_used a b pid m = Inr (l, m')"
  shows "mesh_ok m' \<and> link_ok (rm_identities m') (pair_key a b) l \<and> rm_identities m' = rm_identities m"
proof -
  from assms(2) obtain l0 where l0: "link_for a b m = Inr (l0, m')"
    and l: "pid = None \<and> l = l0 \<or> (\<exists>i p. mesh_profile i = Some p \<and> l = l0\<lparr>sl_profile := p\<rparr>)"
    by (cases pid) (auto simp: link_used_def rbind_Inr_iff err_Inr_iffs)
  from link_for_ok [OF assms(1) l0] l show ?thesis
    by (auto simp: link_ok_def endpoint_keys_def dest: mesh_profile_retries)
qed

lemma run_beaconE:
  assumes "run_beacon mx s r payload snr seed pid m = Inr (b, m')"
  obtains l m1 ident e l' where "link_used s r pid m = Inr (l, m1)" "rm_identities m1 s = Some ident"
    "build_envelope (re_float_repr (mx_radio mx (sl_profile l) snr seed)) ident (xd_values (mx_draw mx (rm_exchanges m1)))
       (beacon_request r payload) = Some e"
    "exchange mx s r snr seed (mx_draw mx (rm_exchanges m1)) e l = (l', b)"
    "m' = (set_link s r l' m1)\<lparr>rm_exchanges := rm_exchanges m1 + 1\<rparr>"
  using assms by (auto simp: run_beacon_def err_Inr_iffs Let_def case_prod_beta prod_eq_iff)

lemma run_beacon_ok:
  assumes "mesh_ok m" "run_beacon mx s r payload snr seed pid m = Inr (b, m')"
  shows "mesh_ok m' \<and> rm_identities m' = rm_identities m"
proof -
  from assms(2) obtain l m1 ident e l' where u: "link_used s r pid m = Inr (l, m1)"
    and x: "exchange mx s r snr seed (mx_draw mx (rm_exchanges m1)) e l = (l', b)"
    and m': "m' = (set_link s r l' m1)\<lparr>rm_exchanges := rm_exchanges m1 + 1\<rparr>"
    by (elim run_beaconE)
  from link_used_ok [OF assms(1) u] have ok: "mesh_ok m1" "link_ok (rm_identities m1) (pair_key s r) l"
    "rm_identities m1 = rm_identities m" by blast+
  have "link_ok (rm_identities m1) (pair_key s r) l'" using ok(2) exchange_keeps [OF x] by (simp add: link_ok_def)
  with ok show ?thesis by (auto simp: mesh_ok_def m' set_link_def)
qed

lemma send_beacon_real_cached_ok:
  assumes "mesh_ok m" "send_beacon_real_cached mx s r payload snr seed pid m = Inr (b, m')"
  shows "mesh_ok m' \<and> rm_identities m' = rm_identities m"
proof -
  from assms(2) have "m' = m \<or> (\<exists>m1 c. run_beacon mx s r payload snr seed pid m = Inr (b, m1) \<and> m' = m1\<lparr>rm_cache := c\<rparr>)"
    by (auto simp: send_beacon_real_cached_def Let_def rbind_Inr_iff split: option.splits if_splits)
  then show ?thesis
  proof
    assume "\<exists>m1 c. run_beacon mx s r payload snr seed pid m = Inr (b, m1) \<and> m' = m1\<lparr>rm_cache := c\<rparr>"
    then obtain m1 c where m1: "run_beacon mx s r payload snr seed pid m = Inr (b, m1)" "m' = m1\<lparr>rm_cache := c\<rparr>" by blast
    from run_beacon_ok [OF assms(1) m1(1)] have "mesh_ok m1" "rm_identities m1 = rm_identities m" by blast+
    then show ?thesis by (simp add: m1(2) mesh_ok_def)
  qed (use assms(1) in simp)
qed

lemma new_mesh_ok: "new_mesh pid = Inr m \<Longrightarrow> mesh_ok m"
  by (auto simp: new_mesh_def mesh_ok_def dest: mesh_profile_retries split: option.splits)

lemma add_car_ok: "mesh_ok m \<Longrightarrow> rm_links m = Map.empty \<Longrightarrow> mesh_ok (add_car i m) \<and> rm_links (add_car i m) = Map.empty"
  by (simp add: mesh_ok_def add_car_def)


lemma transmit_received:
  assumes "transmit re s r e t1 t2 nonce l = (l', Inr (rc, received, xr))" "received \<noteq> None"
  shows "rc_status rc = DELIVERED \<and> rc_frames_acked rc = xr_acks xr \<and>
    (\<exists>env ok. received = Some env \<and> xr_signature_verified xr = Some ok \<and>
       (env_signature env = None \<and> ok \<or>
        (\<exists>k. endpoint_keys l r = Some k \<and>
           verify_signature_with (re_float_repr re) (re_verify re) (snd k) env = Some ok)))"
proof -
  from assms have d: "rc_status rc = DELIVERED"
    by (auto simp: transmit_def Let_def sim_receipt_def split: option.splits sum.splits prod.splits if_splits)
  from assms(1) d have acks: "rc_frames_acked rc = xr_acks xr"
    by (auto simp: transmit_def Let_def sim_receipt_def base_record_def
        split: option.splits sum.splits prod.splits if_splits)
  obtain r_ep raw g rh env ok where rcv: "receive_sealed re r_ep r t2 raw = (g, Inr (Inr (rh, env, ok)))"
    and res: "received = Some env" "xr_signature_verified xr = Some ok"
    and ep: "map_option ep_peer_public_key (sl_endpoints l r) = Some (ep_peer_public_key r_ep)"
    using assms(1) d
    by (auto simp: transmit_def Let_def sim_receipt_def base_record_def
        split: option.splits sum.splits prod.splits if_splits)
  from rcv have "env_signature env = None \<and> ok \<or>
      verify_signature_with (re_float_repr re) (re_verify re) (ep_peer_public_key r_ep) env = Some ok"
    by (auto simp: receive_sealed_def Let_def split: option.splits prod.splits sum.splits ota_error.splits if_splits)
  with d acks res ep show ?thesis by (auto simp: endpoint_keys_def)
qed

text \<open>
  What an exchange needs of its surroundings: the frame CRC catches the channel's errors, the cipher
  decrypts what it encrypted, the header that is sealed and the envelope that is sent read back.
\<close>

definition exchange_reads_back :: "radio_env \<Rightarrow> sim_rf_link \<Rightarrow> string \<Rightarrow> string \<Rightarrow> exchange_draw \<Rightarrow> message_envelope \<Rightarrow> bool" where
  "exchange_reads_back re l s r xd e \<longleftrightarrow>
     crc_catches (crc_scheme (sl_profile l)) (re_radio re) \<and>
     (\<forall>k n p x. re_decrypt re k n (re_encrypt re k n p x) x = Some p) \<and>
     (\<forall>ep h ct. sl_endpoints l s = Some ep \<longrightarrow>
        seal_step re ep s r e (xd_seal_time xd) (xd_nonce xd) (sl_profile l) = Inr (h, ct) \<longrightarrow>
        re_load_header re (aad h) = Some h) \<and>
     re_parse re (serialize_envelope (re_float_repr re) e) = Some e"

lemma exchange_authentic:
  assumes x: "exchange mx s r snr seed xd e l = (l', b)" and del: "br_delivered b"
    and link: "link_ok ids (pair_key s r) l" "ids s = Some ident"
    and acks: "br_frames_acked b < 2 ^ 16"
    and back0: "exchange_reads_back (mx_radio mx (sl_profile l) snr seed) l s r xd e"
    and sigv: "verify_signature_with (re_float_repr (mx_radio mx (sl_profile l) snr seed))
        (re_verify (mx_radio mx (sl_profile l) snr seed)) (ni_public_key ident) e = Some True"
  shows "br_status b = DELIVERED \<and> br_payload b = Some (env_payload e) \<and> br_signature_verified b"
proof -
  let ?re = "mx_radio mx (sl_profile l) snr seed"
  obtain rc received xr where t: "transmit ?re s r e (xd_seal_time xd) (xd_open_time xd) (xd_nonce xd) l
      = (l', Inr (rc, received, xr))"
    and b: "b = heard_beacon snr (sl_profile l) s r rc received xr"
    using x del by (auto simp: exchange_def Let_def lost_beacon_def split: if_splits prod.splits sum.splits)
  have rcv: "received \<noteq> None" using del by (simp add: b heard_beacon_def)
  from transmit_received [OF t rcv] obtain env ok where
    r: "rc_status rc = DELIVERED" "rc_frames_acked rc = xr_acks xr" "received = Some env" "xr_signature_verified xr = Some ok"
    and ok: "env_signature env = None \<and> ok \<or> (\<exists>k. endpoint_keys l r = Some k \<and>
       verify_signature_with (re_float_repr ?re) (re_verify ?re) (snd k) env = Some ok)" by blast
  obtain k pr where keys: "endpoint_keys l s = Some (k, pr)" "endpoint_keys l r = Some (k, ni_public_key ident)"
    and retries: "0 \<le> max_retries (sl_profile l)"
    using link by (auto simp: link_ok_def pair_key_def split: if_splits)
  then obtain a c where ends: "sl_endpoints l s = Some a" "sl_endpoints l r = Some c" "ep_link_key a = ep_link_key c"
    by (auto simp: endpoint_keys_def)
  have "received = Some e"
    using exchange_faithful [OF t r(1) _ retries _ ends] back0 acks r(2) ends(1)
    by (auto simp: exchange_reads_back_def b heard_beacon_def)
  moreover have "env_signature e \<noteq> None" using sigv by (cases "env_signature e") (simp_all add: verify_signature_with_def)
  ultimately show ?thesis using r ok keys sigv by (auto simp: b heard_beacon_def)
qed

text \<open>
  C38: a beacon that the mesh reports as delivered is the beacon that was sent. In any mesh the
  engine can build, if the frame CRC catches the radio's errors, the cipher decrypts what it
  encrypted, header and envelope read back, and signatures verify under their own key, then a result
  with \<open>delivered\<close> set has status DELIVERED, carries exactly the payload that was handed in,
  and its signature has been verified against the sender's key.
\<close>

theorem delivered_beacon_is_authentic:
  assumes "mesh_ok m" and "send_beacon L mx s r payload cond seed pid m = Inr (b, m')" and "br_delivered b"
    and "br_frames_acked b < 2 ^ 16"
    and "\<And>l m1 ident e. link_used s r pid m = Inr (l, m1) \<Longrightarrow> rm_identities m s = Some ident \<Longrightarrow>
       build_envelope (re_float_repr (mx_radio mx (sl_profile l) (snr_db_for L cond) seed)) ident
         (xd_values (mx_draw mx (rm_exchanges m1))) (beacon_request r payload) = Some e \<Longrightarrow>
       exchange_reads_back (mx_radio mx (sl_profile l) (snr_db_for L cond) seed) l s r (mx_draw mx (rm_exchanges m1)) e"
    and "\<And>p ident msg. rm_identities m s = Some ident \<Longrightarrow>
       re_verify (mx_radio mx p (snr_db_for L cond) seed) (ni_public_key ident) msg (ni_sign ident msg) \<and> ni_sign ident msg \<noteq> []"
  shows "br_status b = DELIVERED \<and> br_payload b = Some payload \<and> br_signature_verified b"
proof -
  from assms(2) obtain l m1 ident e l' where u: "link_used s r pid m = Inr (l, m1)" and id: "rm_identities m1 s = Some ident"
    and e: "build_envelope (re_float_repr (mx_radio mx (sl_profile l) (snr_db_for L cond) seed)) ident
         (xd_values (mx_draw mx (rm_exchanges m1))) (beacon_request r payload) = Some e"
    and x: "exchange mx s r (snr_db_for L cond) seed (mx_draw mx (rm_exchanges m1)) e l = (l', b)"
    unfolding send_beacon_def by (elim run_beaconE)
  from link_used_ok [OF assms(1) u] have ok: "link_ok (rm_identities m1) (pair_key s r) l"
    and ids: "rm_identities m1 = rm_identities m" by blast+
  have "verify_signature_with (re_float_repr (mx_radio mx (sl_profile l) (snr_db_for L cond) seed))
      (re_verify (mx_radio mx (sl_profile l) (snr_db_for L cond) seed)) (ni_public_key ident) e = Some True"
    using assms(6) id ids by (intro build_envelope_verifies [OF e]) auto
  from exchange_authentic [OF x assms(3) ok id assms(4) assms(5) [OF u _ e] this] id ids build_envelope_fields [OF e]
  show ?thesis by (simp add: beacon_request_def)
qed


section \<open>A delivered beacon\<close>

definition demo_identity :: "string \<Rightarrow> node_identity" where
  "demo_identity n = \<lparr>ni_node_id = n, ni_node_name = n, ni_public_key = ''AQ=='', ni_fingerprint = ''f'',
     ni_sign = (\<lambda>m. ''s'')\<rparr>"

definition demo_mesh :: radio_mesh where
  "demo_mesh = add_car (demo_identity ''b'') (add_car (demo_identity ''a'')
     \<lparr>rm_profile = reference_bpsk, rm_identities = Map.empty, rm_links = Map.empty, rm_cache = Map.empty, rm_exchanges = 0\<rparr>)"

definition demo_draw :: exchange_draw where
  "demo_draw = \<lparr>xd_values = \<lparr>fv_uuid = ''m1'', fv_nonce = ''n'', fv_created_at = ''t'', fv_expiry = (\<lambda>s. None)\<rparr>,
     xd_seal_time = 1000, xd_open_time = 1010, xd_nonce = demo_nonce\<rparr>"

definition demo_payload :: "(string \<times> json) list" where
  "demo_payload = [(''type'', JStr ''state_beacon''), (''from'', JStr ''a'')]"

definition demo_beacon :: message_envelope where
  "demo_beacon = the (build_envelope no_floats (demo_identity ''a'') (xd_values demo_draw)
     (beacon_request ''b'' demo_payload))"

definition demo_pair_link :: sim_rf_link where
  "demo_pair_link = fst (projr (link_for ''a'' ''b'' demo_mesh))"

definition demo_mesh_env :: mesh_env where
  "demo_mesh_env = \<lparr>mx_radio = (\<lambda>p snr seed. demo_env demo_beacon demo_pair_link),
     mx_raises = (\<lambda>p snr seed e. False), mx_draw = (\<lambda>n. demo_draw)\<rparr>"

lemma demo_mesh_ok: "mesh_ok demo_mesh"
  unfolding demo_mesh_def by (intro add_car_ok [THEN conjunct1] add_car_ok [THEN conjunct2])
    (simp_all add: mesh_ok_def add_car_def reference_bpsk_def)

lemma demo_pair:
  "link_for ''a'' ''b'' demo_mesh = Inr (demo_pair_link, set_link ''a'' ''b'' demo_pair_link demo_mesh)"
  "fresh_pair demo_pair_link"
proof -
  have ab: "pair_key ''a'' ''b'' = (''a'', ''b'')" by code_simp
  show "link_for ''a'' ''b'' demo_mesh = Inr (demo_pair_link, set_link ''a'' ''b'' demo_pair_link demo_mesh)"
    by (simp add: demo_pair_link_def link_for_def ab Let_def set_link_def demo_mesh_def add_car_def demo_identity_def)
  show "fresh_pair demo_pair_link"
    by (simp add: demo_pair_link_def link_for_def ab Let_def fresh_pair_def demo_mesh_def add_car_def
        demo_identity_def add_endpoint_def derive_link_key_def)
qed

lemma demo_built:
  "build_envelope no_floats (demo_identity ''a'') (xd_values demo_draw) (beacon_request ''b'' demo_payload)
     = Some demo_beacon"
  by (simp add: demo_beacon_def build_envelope_def sign_envelope_def canonical_bytes_def beacon_request_def demo_payload_def
      demo_draw_def model_dump_def json_opt_str_def Let_def del: canonical_dumps.simps)

lemma build_envelope_ids:
  "build_envelope fr i fv rq = Some e \<Longrightarrow>
     env_message_id e = (if truthy (er_message_id rq) then or_empty (er_message_id rq) else fv_uuid fv) \<and>
     env_correlation_id e = er_correlation_id rq \<and> (\<exists>m. env_signature e = Some (ni_sign i m))"
  by (auto simp: build_envelope_def sign_envelope_def split: option.splits)

lemma demo_beacon_small: "small_envelope demo_beacon"
proof -
  have "length (serialize_envelope no_floats demo_beacon) \<le> 1000" by code_simp
  moreover have "canonical_bytes no_floats (model_dump demo_beacon) \<noteq> None"
    by (rule build_envelope_canonical [OF demo_built])
  moreover have "env_message_id demo_beacon = ''m1'' \<and> env_correlation_id demo_beacon = None \<and> truthy (env_signature demo_beacon)"
    using build_envelope_ids [OF demo_built] by (auto simp: beacon_request_def demo_draw_def demo_identity_def truthy_def)
  ultimately show ?thesis by (simp add: small_envelope_def)
qed

theorem delivered_beacon_is_authentic_witness:
  "\<exists>b m'. send_beacon demo_libm demo_mesh_env ''a'' ''b'' demo_payload (conditions_at (lit 50)) 7 None demo_mesh = Inr (b, m')
     \<and> br_delivered b \<and> br_payload b = Some demo_payload \<and> br_signature_verified b"
proof -
  let ?re = "demo_env demo_beacon demo_pair_link" and ?snr = "snr_db_for demo_libm (conditions_at (lit 50))"
  let ?id = "demo_identity ''a''"
  obtain l' rc xr where t: "transmit ?re ''a'' ''b'' demo_beacon 1000 1010 demo_nonce demo_pair_link = (l', Inr (rc, Some demo_beacon, xr))"
    "rc_status rc = DELIVERED" "rc_frames_acked rc < 2 ^ 16"
    and load: "\<And>ep h ct. sl_endpoints demo_pair_link ''a'' = Some ep \<Longrightarrow>
        seal_step ?re ep ''a'' ''b'' demo_beacon 1000 demo_nonce (sl_profile demo_pair_link) = Inr (h, ct) \<Longrightarrow>
        re_load_header ?re (aad h) = Some h"
    using small_exchange [OF demo_beacon_small demo_pair(2)] by blast
  have draw: "mx_draw demo_mesh_env n = demo_draw" "mx_radio demo_mesh_env p snr seed = ?re" for n p snr seed
    by (simp_all add: demo_mesh_env_def)
  have times: "xd_seal_time demo_draw = 1000" "xd_open_time demo_draw = 1010" "xd_nonce demo_draw = demo_nonce"
    by (simp_all add: demo_draw_def)
  have id: "rm_identities demo_mesh ''a'' = Some ?id" by (simp add: demo_mesh_def add_car_def demo_identity_def)
  have used: "link_used ''a'' ''b'' None demo_mesh = Inr (demo_pair_link, set_link ''a'' ''b'' demo_pair_link demo_mesh)"
    by (simp add: link_used_def demo_pair)
  let ?b = "heard_beacon ?snr (sl_profile demo_pair_link) ''a'' ''b'' rc (Some demo_beacon) xr"
  have "exchange demo_mesh_env ''a'' ''b'' ?snr 7 demo_draw demo_beacon demo_pair_link = (l', ?b)"
    by (simp add: exchange_def draw times t Let_def) (simp add: demo_mesh_env_def)
  then obtain m' where run: "send_beacon demo_libm demo_mesh_env ''a'' ''b'' demo_payload (conditions_at (lit 50)) 7 None demo_mesh = Inr (?b, m')"
    by (simp add: send_beacon_def run_beacon_def used draw set_link_def id demo_built Let_def)
  have del: "br_delivered ?b" by (simp add: heard_beacon_def)
  have acks: "br_frames_acked ?b < 2 ^ 16" using transmit_received [OF t(1)] t(3) by (simp add: heard_beacon_def)
  have "crc_catches (crc_scheme (sl_profile demo_pair_link)) (\<lambda>x. x)"
    using demo_pair(2) by (elim fresh_pairE) (simp add: perfect_radio reference_bpsk_def)
  then have "exchange_reads_back ?re demo_pair_link ''a'' ''b'' demo_draw demo_beacon"
    using load by (simp add: exchange_reads_back_def times)
  then have "br_status ?b = DELIVERED \<and> br_payload ?b = Some demo_payload \<and> br_signature_verified ?b"
    by (intro delivered_beacon_is_authentic [OF demo_mesh_ok run del acks])
       (auto simp: used draw id demo_built, simp add: demo_identity_def)
  with run del show ?thesis by blast
qed

text \<open>
  The cache of real results leaves the payload out of its key: a second beacon between the same
  cars at the same rounded ratio is answered with the result, and the payload, of the first.
\<close>

lemma cached_beacon_ignores_payload:
  assumes "send_beacon_real_cached mx s r payload snr seed pid m = Inr (b, m')" "snr \<noteq> NaN"
  shows "send_beacon_real_cached mx s r other snr seed pid m' = Inr (b, m')"
proof (cases "rm_cache m (cache_key_of s r snr seed pid m)")
  case (Some r0)
  with assms show ?thesis by (auto simp: send_beacon_real_cached_def Let_def)
next
  case None
  with assms obtain m1 where "run_beacon mx s r payload snr seed pid m = Inr (b, m1)"
    and m': "m' = m1\<lparr>rm_cache := (rm_cache m1)(cache_key_of s r snr seed pid m \<mapsto> b)\<rparr>"
    by (auto simp: send_beacon_real_cached_def Let_def rbind_Inr_iff)
  then have "rm_profile m' = rm_profile m"
    by (auto simp: link_used_def link_for_def set_link_def err_Inr_iffs Let_def elim!: run_beaconE split: option.splits if_splits)
  then show ?thesis using assms(2) by (simp add: send_beacon_real_cached_def Let_def m' cache_key_of_def)
qed

end
