(* ===== verification/FleetSearch.thy ===== *)
theory FleetSearch
  imports Prelude
begin

text \<open>
  \<open>SimEngine._bfs_path\<close> of FleetGraph: the breadth-first search for a chain of delivering links
  from one of several observers to a car, and its correctness: it finds a chain exactly when there is one, and
  the one it finds is a shortest.
\<close>

section \<open>The delivery graph and the search\<close>

type_synonym delivery_graph = "(string \<times> string list) list"

definition neighbours :: "delivery_graph \<Rightarrow> string \<Rightarrow> string list" where
  "neighbours adj u = (case map_of adj u of None \<Rightarrow> [] | Some vs \<Rightarrow> vs)"

text \<open>The dictionary \<open>prev\<close>, newest entry first (an assignment to a key shadows the older one).\<close>

type_synonym parents = "(string \<times> string option) list"

definition visited :: "parents \<Rightarrow> string set" where
  "visited prev = fst ` set prev"

text \<open>\<open>while prev[path[-1]] is not None\<close>, with the size of \<open>prev\<close> as fuel; newest node first.\<close>

fun trace_back :: "nat \<Rightarrow> parents \<Rightarrow> string \<Rightarrow> string list" where
  "trace_back 0 prev v = [v]"
| "trace_back (Suc n) prev v =
     (case map_of prev v of Some (Some u) \<Rightarrow> v # trace_back n prev u | _ \<Rightarrow> [v])"

text \<open>The loop over the neighbours of \<open>u\<close>: the left side is the early return.\<close>

fun scan :: "string \<Rightarrow> string \<Rightarrow> string list \<Rightarrow> string list \<Rightarrow> parents \<Rightarrow> parents + string list \<times> parents" where
  "scan target u [] q prev = Inr (q, prev)"
| "scan target u (v # vs) q prev =
     (if v \<in> visited prev then scan target u vs q prev
      else let prev' = (v, Some u) # prev
           in if v = target then Inl prev' else scan target u vs (q @ [v]) prev')"

lemma scan_Inr:
  "scan target u vs q prev = Inr (q', prev') \<Longrightarrow>
   \<exists>new. q' = q @ new \<and> prev' = rev (map (\<lambda>v. (v, Some u)) new) @ prev \<and> set new \<subseteq> set vs \<and>
     set vs \<subseteq> visited prev' \<and> target \<notin> set new \<and> set new \<inter> visited prev = {} \<and> distinct new"
proof (induction target u vs q prev rule: scan.induct)
  case (2 target u v vs q prev)
  show ?case
  proof (cases "v \<in> visited prev")
    case True
    with 2 show ?thesis by (fastforce simp: visited_def)
  next
    case False
    then have "v \<noteq> target" and "scan target u vs (q @ [v]) ((v, Some u) # prev) = Inr (q', prev')"
      using 2(3) by (auto simp: Let_def split: if_splits)
    with 2(2) False obtain new where new: "q' = (q @ [v]) @ new" "prev' = rev (map (\<lambda>v. (v, Some u)) new) @ (v, Some u) # prev"
      "set new \<subseteq> set vs" "set vs \<subseteq> visited prev'" "target \<notin> set new" "set new \<inter> visited ((v, Some u) # prev) = {}" "distinct new"
      by (simp add: Let_def) blast
    have "v \<notin> set new" "set new \<inter> visited prev = {}" using new(6) by (auto simp: visited_def)
    with new False \<open>v \<noteq> target\<close> show ?thesis by (intro exI [of _ "v # new"]) (auto simp: visited_def)
  qed
qed simp

lemma scan_Inl:
  "scan target u vs q prev = Inl prev' \<Longrightarrow>
   \<exists>new. prev' = (target, Some u) # rev (map (\<lambda>v. (v, Some u)) new) @ prev \<and> target \<in> set vs \<and> set new \<subseteq> set vs \<and>
     target \<notin> set new \<and> target \<notin> visited prev \<and> set new \<inter> visited prev = {}"
proof (induction target u vs q prev rule: scan.induct)
  case (2 target u v vs q prev)
  show ?case
  proof (cases "v \<in> visited prev \<or> v = target")
    case True
    then show ?thesis
    proof (cases "v \<in> visited prev")
      case visited: True
      with 2(3) have "scan target u vs q prev = Inl prev'" by simp
      from 2(1) [OF visited this] show ?thesis by auto
    next
      case False
      with True 2(3) have "v = target" "prev' = [(target, Some u)] @ prev" by (auto simp: Let_def)
      with False show ?thesis by (intro exI [of _ "[]"]) simp
    qed
  next
    case False
    then have "scan target u vs (q @ [v]) ((v, Some u) # prev) = Inl prev'"
      using 2(3) by (auto simp: Let_def split: if_splits)
    with 2(2) False obtain new where new: "prev' = (target, Some u) # rev (map (\<lambda>v. (v, Some u)) new) @ (v, Some u) # prev"
      "target \<in> set vs" "set new \<subseteq> set vs" "target \<notin> set new" "target \<notin> visited ((v, Some u) # prev)"
      "set new \<inter> visited ((v, Some u) # prev) = {}" by (simp add: Let_def) blast
    then show ?thesis using False by (intro exI [of _ "v # new"]) (auto simp: visited_def)
  qed
qed simp

definition graph_nodes :: "delivery_graph \<Rightarrow> string set" where
  "graph_nodes adj = \<Union> (set ` snd ` set adj)"

lemma finite_graph_nodes [simp]: "finite (graph_nodes adj)"
  by (simp add: graph_nodes_def)

lemma neighbours_nodes: "set (neighbours adj u) \<subseteq> graph_nodes adj"
proof (cases "map_of adj u")
  case (Some vs)
  then show ?thesis using map_of_SomeD [OF Some] by (force simp: neighbours_def graph_nodes_def)
qed (simp add: neighbours_def)

function bfs_loop :: "delivery_graph \<Rightarrow> string \<Rightarrow> string list \<Rightarrow> parents \<Rightarrow> string list option" where
  "bfs_loop adj target [] prev = None"
| "bfs_loop adj target (u # q) prev =
     (case scan target u (neighbours adj u) q prev of
        Inl prev' \<Rightarrow> Some (rev (trace_back (length prev') prev' target))
      | Inr (q', prev') \<Rightarrow> bfs_loop adj target q' prev')"
  by pat_completeness auto

termination
proof (relation "measure (\<lambda>(adj, target, q, prev). length q + card (graph_nodes adj - visited prev))")
  fix adj target u q prev r q' prev'
  assume "scan target u (neighbours adj u) q prev = Inr r" "(q', prev') = r"
  then obtain new where new: "q' = q @ new" "prev' = rev (map (\<lambda>v. (v, Some u)) new) @ prev"
    "set new \<subseteq> set (neighbours adj u)" "set new \<inter> visited prev = {}" "distinct new"
    using scan_Inr [of target u "neighbours adj u" q prev q' prev'] by auto
  have sub: "set new \<subseteq> graph_nodes adj - visited prev" using new neighbours_nodes by fastforce
  have "graph_nodes adj - visited prev' = graph_nodes adj - visited prev - set new"
    by (auto simp: new(2) visited_def image_Un image_image)
  then have "card (graph_nodes adj - visited prev') = card (graph_nodes adj - visited prev) - length new"
    using sub new(5) by (simp add: card_Diff_subset distinct_card)
  moreover have "length new \<le> card (graph_nodes adj - visited prev)"
    using card_mono [OF _ sub] new(5) by (simp add: distinct_card)
  ultimately show "((adj, target, q', prev'), (adj, target, u # q, prev))
      \<in> measure (\<lambda>(adj, target, q, prev). length q + card (graph_nodes adj - visited prev))"
    using new(1) by simp
qed simp

definition bfs_path :: "delivery_graph \<Rightarrow> string list \<Rightarrow> string \<Rightarrow> string list option" where
  "bfs_path adj sources target =
     (if sources = [] then None
      else if target \<in> set sources then Some [target]
      else bfs_loop adj target sources (rev (map (\<lambda>s. (s, None)) sources)))"

section \<open>Chains of links\<close>

definition is_chain :: "delivery_graph \<Rightarrow> string list \<Rightarrow> string \<Rightarrow> string list \<Rightarrow> bool" where
  "is_chain adj sources target p \<longleftrightarrow> p \<noteq> [] \<and> hd p \<in> set sources \<and> last p = target \<and>
     successively (\<lambda>u v. v \<in> set (neighbours adj u)) p"

lemma is_chain_snoc:
  "is_chain adj sources v (p @ [v]) \<longleftrightarrow>
   (if p = [] then v \<in> set sources else is_chain adj sources (last p) p \<and> v \<in> set (neighbours adj (last p)))"
  by (auto simp: is_chain_def successively_append_iff)

lemma is_chain_cases:
  assumes "is_chain adj sources v p"
  obtains "p = [v]" "v \<in> set sources"
  | p' u where "p = p' @ [v]" "is_chain adj sources u p'" "v \<in> set (neighbours adj u)"
proof -
  from assms have "p \<noteq> []" "last p = v" by (simp_all add: is_chain_def)
  then obtain p' where p: "p = p' @ [v]" by (metis append_butlast_last_id)
  with assms that show ?thesis unfolding p by (auto simp: is_chain_snoc split: if_splits)
qed


lemma is_chain_nth:
  assumes "is_chain adj sources v p"
  obtains n where "length p = Suc n"
  using assms by (cases p) (auto simp: is_chain_def)

section \<open>The invariant of the search\<close>

text \<open>
  \<open>d\<close> is the number of links from a source. The queue is ordered by it and spans at most two
  consecutive values; whatever has left the queue has had its neighbours visited.
\<close>

definition parents_ok :: "delivery_graph \<Rightarrow> string list \<Rightarrow> (string \<Rightarrow> nat) \<Rightarrow> parents \<Rightarrow> bool" where
  "parents_ok adj sources d prev \<longleftrightarrow>
     (\<forall>v. map_of prev v = Some None \<longrightarrow> v \<in> set sources \<and> d v = 0) \<and>
     (\<forall>v u. map_of prev v = Some (Some u) \<longrightarrow> u \<in> visited prev \<and> v \<in> set (neighbours adj u) \<and> d v = Suc (d u)) \<and>
     (\<forall>v \<in> visited prev. d v < length prev)"

definition search_inv :: "delivery_graph \<Rightarrow> string list \<Rightarrow> string \<Rightarrow> (string \<Rightarrow> nat) \<Rightarrow> string list \<Rightarrow> parents \<Rightarrow> bool" where
  "search_inv adj sources target d q prev \<longleftrightarrow>
     parents_ok adj sources d prev \<and> target \<notin> visited prev \<and> set sources \<subseteq> visited prev \<and> set q \<subseteq> visited prev \<and>
     (\<forall>u \<in> visited prev - set q. set (neighbours adj u) \<subseteq> visited prev) \<and>
     (case q of [] \<Rightarrow> True | u # _ \<Rightarrow>
        sorted (map d q) \<and> (\<forall>v \<in> visited prev. d v \<le> Suc (d u)) \<and> (\<forall>v \<in> visited prev - set q. d v \<le> d u) \<and>
        (\<forall>p v. is_chain adj sources v p \<longrightarrow> length p \<le> Suc (d u) \<longrightarrow> v \<in> visited prev \<and> d v < length p))"

lemma visited_map_of: "v \<in> visited prev \<longleftrightarrow> map_of prev v \<noteq> None"
  by (simp add: visited_def map_of_eq_None_iff)

lemma trace_back_chain:
  assumes "parents_ok adj sources d prev" "v \<in> visited prev" "d v \<le> n"
  shows "is_chain adj sources v (rev (trace_back n prev v)) \<and> length (trace_back n prev v) = Suc (d v)"
  using assms(2,3)
proof (induction n arbitrary: v)
  case 0
  then obtain x where x: "map_of prev v = Some x" by (auto simp: visited_map_of)
  with 0 assms(1) have "x = None" by (cases x) (fastforce simp: parents_ok_def)+
  with x 0 assms(1) show ?case by (simp add: parents_ok_def is_chain_def)
next
  case (Suc n)
  then obtain x where x: "map_of prev v = Some x" by (auto simp: visited_map_of)
  show ?case
  proof (cases x)
    case None
    with x assms(1) show ?thesis by (simp add: parents_ok_def is_chain_def)
  next
    case (Some u)
    with x assms(1) have u: "u \<in> visited prev" "v \<in> set (neighbours adj u)" "d v = Suc (d u)"
      by (auto simp: parents_ok_def)
    with Suc.IH [of u] Suc.prems have ih: "is_chain adj sources u (rev (trace_back n prev u))"
      "length (trace_back n prev u) = Suc (d u)" by auto
    then have "last (rev (trace_back n prev u)) = u" "rev (trace_back n prev u) \<noteq> []" by (simp_all add: is_chain_def)
    with ih u x Some show ?thesis by (simp add: is_chain_snoc)
  qed
qed

text \<open>The neighbours a step adds are one link further away than the node it takes from the queue.\<close>

lemma visited_append: "visited (rev (map (\<lambda>v. (v, Some u)) new) @ prev) = set new \<union> visited prev"
  by (auto simp: visited_def image_Un image_image)

lemma parents_ok_step:
  assumes "parents_ok adj sources d prev" "u \<in> visited prev" "set new \<subseteq> set (neighbours adj u)"
    and "set new \<inter> visited prev = {}"
  shows "parents_ok adj sources (\<lambda>v. if v \<in> set new then Suc (d u) else d v) (rev (map (\<lambda>v. (v, Some u)) new) @ prev)"
proof -
  have look: "map_of (rev (map (\<lambda>v. (v, Some u)) new) @ prev) v = (if v \<in> set new then Some (Some u) else map_of prev v)" for v
    by (induction new rule: rev_induct) auto
  have new_old: "w \<in> visited prev \<Longrightarrow> w \<notin> set new" for w using assms(4) by auto
  have key: "map_of prev v = Some x \<Longrightarrow> v \<in> visited prev" for v x by (simp add: visited_map_of)
  show ?thesis
    unfolding parents_ok_def look visited_append
  proof (intro conjI allI impI ballI)
    fix v assume "(if v \<in> set new then Some (Some u) else map_of prev v) = Some None"
    then have "v \<notin> set new" "map_of prev v = Some None" by (auto split: if_splits)
    then show "v \<in> set sources" "(if v \<in> set new then Suc (d u) else d v) = 0"
      using assms(1) by (simp_all add: parents_ok_def)
  next
    fix v w assume a: "(if v \<in> set new then Some (Some u) else map_of prev v) = Some (Some w)"
    have "w \<in> visited prev \<and> v \<in> set (neighbours adj w) \<and> (if v \<in> set new then Suc (d u) else d v) = Suc (d w)"
    proof (cases "v \<in> set new")
      case True
      then show ?thesis using a assms(2,3) by auto
    next
      case False
      then show ?thesis using a assms(1) by (simp add: parents_ok_def)
    qed
    then show "w \<in> set new \<union> visited prev" "v \<in> set (neighbours adj w)"
      "(if v \<in> set new then Suc (d u) else d v) = Suc (if w \<in> set new then Suc (d u) else d w)"
      using new_old by auto
  next
    fix v assume "v \<in> set new \<union> visited prev"
    then show "(if v \<in> set new then Suc (d u) else d v) < length (rev (map (\<lambda>v. (v, Some u)) new) @ prev)"
      using assms(1,2) by (cases "new = []") (auto simp: parents_ok_def neq_Nil_conv trans_less_add2 intro: less_SucI)
  qed
qed

lemma parents_ok_new_length: "parents_ok adj sources d prev \<Longrightarrow> v \<in> visited prev \<Longrightarrow> d v < length prev"
  by (simp add: parents_ok_def)


lemma search_inv_step:
  assumes inv: "search_inv adj sources target d (u # q) prev"
    and run: "scan target u (neighbours adj u) q prev = Inr (q', prev')"
  shows "\<exists>d'. search_inv adj sources target d' q' prev'"
proof -
  from scan_Inr [OF run] obtain new where q': "q' = q @ new"
    and prev': "prev' = rev (map (\<lambda>v. (v, Some u)) new) @ prev"
    and new: "set new \<subseteq> set (neighbours adj u)" "set (neighbours adj u) \<subseteq> visited prev'" "target \<notin> set new"
      "set new \<inter> visited prev = {}" by blast
  have V': "visited prev' = set new \<union> visited prev" by (simp only: prev' visited_append)
  define d' where "d' = (\<lambda>v. if v \<in> set new then Suc (d u) else d v)"
  from inv have ok: "parents_ok adj sources d prev" and tgt: "target \<notin> visited prev"
    and src: "set sources \<subseteq> visited prev" and uq: "u \<in> visited prev" "set q \<subseteq> visited prev"
    and closed: "\<And>w. w \<in> visited prev - set (u # q) \<Longrightarrow> set (neighbours adj w) \<subseteq> visited prev"
    and sorted: "sorted (map d (u # q))" and up: "\<And>v. v \<in> visited prev \<Longrightarrow> d v \<le> Suc (d u)"
    and done': "\<And>v. v \<in> visited prev - set (u # q) \<Longrightarrow> d v \<le> d u"
    and short: "\<And>p v. is_chain adj sources v p \<Longrightarrow> length p \<le> Suc (d u) \<Longrightarrow> v \<in> visited prev \<and> d v < length p"
    by (auto simp: search_inv_def)
  have d'_new: "d' v = Suc (d u)" if "v \<in> set new" for v using that by (simp add: d'_def)
  have d'_old: "d' v = d v" if "v \<in> visited prev" for v using that new(4) by (auto simp: d'_def)
  have closed': "set (neighbours adj w) \<subseteq> visited prev'" if "w \<in> visited prev' - set q'" for w
    using that closed [of w] new(2) by (auto simp: V' q')
  have up': "d' v \<le> Suc (d u)" if "v \<in> visited prev'" for v using that up by (auto simp: V' d'_new d'_old)
  have srt: "sorted (map d' q')"
  proof -
    have "map d' q = map d q" "map d' new = replicate (length new) (Suc (d u))"
      using uq(2) by (auto simp: d'_new d'_old map_replicate_const [symmetric] intro: map_cong)
    moreover have "sorted (replicate n x)" for n and x :: nat by (induction n) auto
    moreover have "sorted (map d q)" "d v \<le> Suc (d u)" if "v \<in> set q" for v using sorted up uq(2) that by auto
    ultimately show ?thesis using sorted up uq(2)
      by (simp only: q' map_append sorted_append) auto
  qed
  have rest: "(\<forall>v \<in> visited prev'. d' v \<le> Suc (d' x)) \<and> (\<forall>v \<in> visited prev' - set q'. d' v \<le> d' x) \<and>
      (\<forall>p v. is_chain adj sources v p \<longrightarrow> length p \<le> Suc (d' x) \<longrightarrow> v \<in> visited prev' \<and> d' v < length p)"
    if x: "q' = x # xs" for x xs
  proof -
    have "d u \<le> d' x"
    proof (cases q)
      case Nil
      then show ?thesis using x by (auto simp: q' d'_new)
    next
      case (Cons y ys)
      then show ?thesis using x sorted uq(2) by (auto simp: q' d'_old)
    qed
    have x_in: "x \<in> visited prev'" using x uq(2) by (cases q) (auto simp: V' q')
    show ?thesis
    proof (intro conjI ballI allI impI)
      fix v assume "v \<in> visited prev'"
      then show "d' v \<le> Suc (d' x)" using up' \<open>d u \<le> d' x\<close> by fastforce
    next
      fix v assume v: "v \<in> visited prev' - set q'"
      then have "v \<in> visited prev" "v = u \<or> v \<in> visited prev - set (u # q)" by (auto simp: V' q')
      then show "d' v \<le> d' x" using done' [of v] \<open>d u \<le> d' x\<close> by (auto simp: d'_old)
    next
      fix p v assume p: "is_chain adj sources v p" "length p \<le> Suc (d' x)"
      have "v \<in> visited prev' \<and> d' v < length p"
      proof (cases "length p \<le> Suc (d u)")
        case True
        from short [OF p(1) this] show ?thesis by (simp add: V' d'_old)
      next
        case False
        with p(2) up' [OF x_in] have len: "length p = Suc (Suc (d u))" "d' x = Suc (d u)" by simp_all
        from p(1) obtain p' w where w: "p = p' @ [v]" "is_chain adj sources w p'" "v \<in> set (neighbours adj w)"
          by (cases rule: is_chain_cases) (use len in auto)
        have wd: "w \<in> visited prev" "d w \<le> d u" using short [OF w(2)] len w(1) by auto
        have "w \<notin> set q'"
        proof
          assume "w \<in> set q'"
          then have "d' x \<le> d' w" using srt x by auto
          then show False using wd len(2) by (simp add: d'_old)
        qed
        then have "v \<in> visited prev'" using closed' [of w] wd(1) w(3) by (auto simp: V')
        with up' [OF this] len show ?thesis by simp
      qed
      then show "v \<in> visited prev'" "d' v < length p" by simp_all
    qed
  qed
  have "parents_ok adj sources d' prev'"
    unfolding d'_def prev' by (rule parents_ok_step [OF ok uq(1) new(1) new(4)])
  moreover have "target \<notin> visited prev'" "set sources \<subseteq> visited prev'" "set q' \<subseteq> visited prev'"
    using tgt src uq(2) new(3) by (auto simp: V' q')
  moreover have "\<forall>w \<in> visited prev' - set q'. set (neighbours adj w) \<subseteq> visited prev'" using closed' by blast
  moreover have "case q' of [] \<Rightarrow> True | x # _ \<Rightarrow> sorted (map d' q') \<and> (\<forall>v \<in> visited prev'. d' v \<le> Suc (d' x)) \<and>
      (\<forall>v \<in> visited prev' - set q'. d' v \<le> d' x) \<and>
      (\<forall>p v. is_chain adj sources v p \<longrightarrow> length p \<le> Suc (d' x) \<longrightarrow> v \<in> visited prev' \<and> d' v < length p)"
  proof (cases q')
    case (Cons x xs)
    from srt rest [OF this] show ?thesis by (simp only: Cons list.case)
  qed simp
  ultimately have "search_inv adj sources target d' q' prev'" unfolding search_inv_def by (intro conjI)
  then show ?thesis by (intro exI [of _ d'])
qed

definition best_chain :: "delivery_graph \<Rightarrow> string list \<Rightarrow> string \<Rightarrow> string list option \<Rightarrow> bool" where
  "best_chain adj sources target r \<longleftrightarrow>
     (case r of
        None \<Rightarrow> \<forall>p. \<not> is_chain adj sources target p
      | Some p \<Rightarrow> is_chain adj sources target p \<and> (\<forall>p'. is_chain adj sources target p' \<longrightarrow> length p \<le> length p'))"

lemma bfs_loop_best:
  "search_inv adj sources target d q prev \<Longrightarrow> best_chain adj sources target (bfs_loop adj target q prev)"
proof (induction adj target q prev arbitrary: d rule: bfs_loop.induct)
  case (1 adj target prev)
  have "v \<in> visited prev" if "is_chain adj sources v p" for v p
    using that
  proof (induction p arbitrary: v rule: length_induct)
    case (1 p)
    from 1(2) show ?case
    proof (cases rule: is_chain_cases)
      case 1
      then show ?thesis using \<open>search_inv adj sources target d [] prev\<close> by (auto simp: search_inv_def)
    next
      case (2 p' u)
      then have "u \<in> visited prev" using 1(1) by auto
      then show ?thesis using 2(3) \<open>search_inv adj sources target d [] prev\<close> by (auto simp: search_inv_def)
    qed
  qed
  then show ?case using 1 by (auto simp: best_chain_def search_inv_def)
next
  case (2 adj target u q prev)
  show ?case
  proof (cases "scan target u (neighbours adj u) q prev")
    case (Inr r)
    obtain q' prev' where r: "r = (q', prev')" by (cases r)
    from search_inv_step [OF 2(2)] Inr r obtain d' where "search_inv adj sources target d' q' prev'" by blast
    from 2(1) [OF Inr _ this] show ?thesis using Inr r by simp
  next
    case (Inl prev')
    from scan_Inl [OF Inl] obtain new where prev': "prev' = (target, Some u) # rev (map (\<lambda>v. (v, Some u)) new) @ prev"
      and new: "target \<in> set (neighbours adj u)" "set new \<subseteq> set (neighbours adj u)" "target \<notin> set new" "set new \<inter> visited prev = {}"
      by blast
    from 2(2) have ok: "parents_ok adj sources d prev" and tgt: "target \<notin> visited prev" and u: "u \<in> visited prev"
      and short: "\<And>p v. is_chain adj sources v p \<Longrightarrow> length p \<le> Suc (d u) \<Longrightarrow> v \<in> visited prev"
      by (auto simp: search_inv_def)
    let ?d = "\<lambda>v. if v \<in> set (new @ [target]) then Suc (d u) else d v"
    have ok': "parents_ok adj sources ?d prev'"
      using parents_ok_step [OF ok u, of "new @ [target]"] new tgt by (simp add: prev')
    have t: "target \<in> visited prev'" by (simp add: prev' visited_def)
    from trace_back_chain [OF ok' t] parents_ok_new_length [OF ok' t]
    have "is_chain adj sources target (rev (trace_back (length prev') prev' target))"
      "length (trace_back (length prev') prev' target) = Suc (Suc (d u))" by simp_all
    moreover have "Suc (Suc (d u)) \<le> length p" if "is_chain adj sources target p" for p
      using short [OF that] tgt by force
    ultimately show ?thesis by (simp add: Inl best_chain_def)
  qed
qed

lemma bfs_path_best: "best_chain adj sources target (bfs_path adj sources target)"
proof -
  consider "sources = []" | "sources \<noteq> []" "target \<in> set sources" | "sources \<noteq> []" "target \<notin> set sources" by blast
  then show ?thesis
  proof cases
    case 1
    then show ?thesis by (simp add: bfs_path_def best_chain_def is_chain_def)
  next
    case 2
    then have "length [target] \<le> length p" if "is_chain adj sources target p" for p
      using that by (cases p) (simp_all add: is_chain_def)
    with 2 show ?thesis by (simp add: bfs_path_def best_chain_def is_chain_def)
  next
    case 3
    let ?prev = "rev (map (\<lambda>s. (s, None)) sources) :: parents"
    have V: "visited ?prev = set sources" by (auto simp: visited_def image_Un image_image)
    have look: "map_of ?prev v = (if v \<in> set sources then Some None else None)" for v
      by (induction sources rule: rev_induct) auto
    have one: "v \<in> set sources" if "is_chain adj sources v p" "length p \<le> 1" for v p
      using that by (cases p) (auto simp: is_chain_def)
    have pos: "0 < length p" if "is_chain adj sources v p" for v p
      using that by (simp add: is_chain_def)
    have ok: "parents_ok adj sources (\<lambda>_. 0) ?prev" using 3 by (simp add: parents_ok_def look V)
    have srt: "sorted (map (\<lambda>_. 0 :: nat) xs)" for xs :: "string list" by (induction xs) auto
    have "search_inv adj sources target (\<lambda>_. 0) sources ?prev"
      unfolding search_inv_def V using 3 ok srt [of sources] one pos
      by (cases sources) (simp_all only: list.case Diff_cancel, auto)
    from bfs_loop_best [OF this] 3 show ?thesis by (simp add: bfs_path_def)
  qed
qed


section \<open>The contract of a path finder\<close>

text \<open>What the propagation of warnings relies on, whatever the search.\<close>

locale path_finder =
  fixes find_path :: "delivery_graph \<Rightarrow> string list \<Rightarrow> string \<Rightarrow> string list option"
  assumes find_best: "best_chain adj sources target (find_path adj sources target)"
begin

lemma found_chain: "find_path adj sources target = Some p \<Longrightarrow> is_chain adj sources target p"
  using find_best [of adj sources target] by (simp add: best_chain_def)

lemma not_found_iff: "find_path adj sources target = None \<longleftrightarrow> (\<forall>p. \<not> is_chain adj sources target p)"
  using find_best [of adj sources target] by (auto simp: best_chain_def split: option.splits)

lemma found_links:
  "find_path adj sources target = Some p \<Longrightarrow> Suc i < length p \<Longrightarrow> p ! Suc i \<in> set (neighbours adj (p ! i))"
  using found_chain by (auto simp: is_chain_def successively_conv_nth)

lemma found_ends:
  "find_path adj sources target = Some p \<Longrightarrow> p \<noteq> [] \<and> hd p \<in> set sources \<and> last p = target"
  using found_chain by (simp add: is_chain_def)

text \<open>A relayed warning means that no observer is heard directly.\<close>

lemma found_direct:
  assumes "find_path adj sources target = Some p" "target \<notin> set sources"
  shows "length p = 2 \<longleftrightarrow> (\<exists>s \<in> set sources. target \<in> set (neighbours adj s))"
proof
  assume "length p = 2"
  then obtain s v where "p = [s, v]" by (cases p; cases "tl p"; auto)
  with found_chain [OF assms(1)] show "\<exists>s \<in> set sources. target \<in> set (neighbours adj s)"
    by (auto simp: is_chain_def)
next
  assume "\<exists>s \<in> set sources. target \<in> set (neighbours adj s)"
  then obtain s where "is_chain adj sources target [s, target]" by (auto simp: is_chain_def)
  then have "length p \<le> 2" using find_best [of adj sources target] assms(1) by (fastforce simp: best_chain_def)
  moreover have "length p \<noteq> 1" "p \<noteq> []"
    using found_chain [OF assms(1)] assms(2) by (auto simp: is_chain_def length_Suc_conv)
  ultimately show "length p = 2" by (cases p; cases "tl p"; auto)
qed

end

interpretation bfs: path_finder bfs_path
  by unfold_locales (rule bfs_path_best)

text \<open>
  C37: the search for a chain of delivering links is exact and shortest. It answers None only if no
  chain of links leads from an observer to the car; otherwise its answer is such a chain, from an
  observer to the car, and no chain has fewer links.
\<close>

theorem bfs_finds_shortest_chain:
  "case bfs_path adj sources target of
     None \<Rightarrow> \<forall>p. \<not> is_chain adj sources target p
   | Some p \<Rightarrow> is_chain adj sources target p \<and> (\<forall>p'. is_chain adj sources target p' \<longrightarrow> length p \<le> length p')"
  using bfs.find_best [of adj sources target] by (simp only: best_chain_def)

theorem bfs_finds_shortest_chain_witness:
  "let adj = [(''a'', [''c'', ''b'']), (''b'', [''d'']), (''c'', [''b'']), (''d'', [])] in
     bfs_path adj [''a''] ''d'' = Some [''a'', ''b'', ''d''] \<and>
     (\<forall>p'. is_chain adj [''a''] ''d'' p' \<longrightarrow> 3 \<le> length p')"
proof -
  let ?adj = "[(''a'', [''c'', ''b'']), (''b'', [''d'']), (''c'', [''b'']), (''d'', [])]"
  have run: "bfs_path ?adj [''a''] ''d'' = Some [''a'', ''b'', ''d'']" by code_simp
  from bfs_finds_shortest_chain [of ?adj "[''a'']" "''d''"] run show ?thesis by (simp add: Let_def numeral_3_eq_3)
qed

end
