(* ===== verification/FleetEngine.thy ===== *)
theory FleetEngine
  imports FleetRadio FleetSearch "HOL-Library.AList"
begin

text \<open>
  \<open>SimEngine\<close> of \<open>engine.py\<close> and the event stream of \<open>events.py\<close>: one tick places the actors, runs every
  lidar, builds the graph of delivering links, spreads warnings along it, decides who brakes, and moves
  the vehicles. Dictionaries keyed by car are functions of the car's id; the ones whose order
  shows are association lists in insertion order.
\<close>

section \<open>Events, frames and the state\<close>

datatype aware_via = Via_lidar | Via_direct | Via_relay
datatype brake_source = From_lidar | From_radio

datatype graph_fact =
    Trusts string string
  | Observed string string pyfloat
  | Aware string string aware_via "string list" nat
  | Blind_to string string blocked_reason pyfloat
  | Heard string string string pyfloat bool nat nat bool
  | Relayed_by string string string string
  | Braked_for string string pyfloat brake_source
  | Unaware_risk string string pyfloat

record graph_event =
  ge_t :: pyfloat
  ge_tick :: nat
  ge_fact :: graph_fact

definition event_dict :: "graph_event \<Rightarrow> graph_event" where
  "event_dict e = e\<lparr>ge_t := round_digits 3 (ge_t e)\<rparr>"

record frame_actor =
  fa_id :: string
  fa_kind :: actor_kind
  fa_label :: "string option"
  fa_x :: pyfloat
  fa_y :: pyfloat
  fa_angle :: pyfloat
  fa_size :: vec2
  fa_is_hazard :: bool
  fa_braked :: bool
  fa_waiting :: bool

record frame_signal =
  fs_id :: string
  fs_x :: pyfloat
  fs_y :: pyfloat
  fs_phase :: signal_colour
  fs_red :: bool

record frame_link =
  fk_from :: string
  fk_to :: string
  fk_snr :: pyfloat
  fk_delivered :: bool

type_synonym jammer = "vec2 \<times> pyfloat \<times> pyfloat"

record fleet_frame =
  fm_t :: pyfloat
  fm_tick :: nat
  fm_fog :: pyfloat
  fm_jammers :: "(pyfloat \<times> pyfloat \<times> pyfloat) list"
  fm_actors :: "frame_actor list"
  fm_links :: "frame_link list"
  fm_signals :: "frame_signal list"

record fleet =
  observed :: "string \<Rightarrow> string set"
  aware :: "string \<Rightarrow> string set"
  aware_via_radio :: "string \<Rightarrow> string set"
  braked :: "string \<Rightarrow> string set"
  blind_emitted :: "(string \<times> string) set"
  heard_hops :: "(string \<times> string \<times> string) set"
  relayed_edges :: "(string \<times> string \<times> string \<times> string) set"
  trusted_emitted :: bool
  fleet_log :: "graph_event list"
  fleet_frames :: "fleet_frame list"
  veh_travel :: "string \<rightharpoonup> pyfloat"
  veh_speed :: "string \<rightharpoonup> pyfloat"
  perm_stop :: "string set"
  stop_target :: "string \<rightharpoonup> pyfloat"
  waiting :: "string set"
  fleet_mesh :: radio_mesh

record fleet_env =
  fe_libm :: libm
  fe_mesh :: mesh_env
  fe_key :: "nat \<Rightarrow> car_key"

definition emit_fact :: "pyfloat \<Rightarrow> nat \<Rightarrow> graph_fact \<Rightarrow> fleet \<Rightarrow> fleet" where
  "emit_fact t tick what f = f\<lparr>fleet_log := fleet_log f @ [\<lparr>ge_t = t, ge_tick = tick, ge_fact = what\<rparr>]\<rparr>"

text \<open>\<open>self.observed[car].add(hazard)\<close> and its like.\<close>

definition add_to :: "string \<Rightarrow> string \<Rightarrow> (string \<Rightarrow> string set) \<Rightarrow> string \<Rightarrow> string set" where
  "add_to c h m = m(c := insert h (m c))"

definition get_or :: "'v \<Rightarrow> ('k \<rightharpoonup> 'v) \<Rightarrow> 'k \<Rightarrow> 'v" where
  "get_or d m k = (case m k of None \<Rightarrow> d | Some v \<Rightarrow> v)"

section \<open>Environment and positions\<close>

fun fog_events :: "pyfloat \<Rightarrow> pyfloat \<Rightarrow> timed_event list \<Rightarrow> pyfloat" where
  "fog_events t fog [] = fog"
| "fog_events t fog (ev # evs) =
     fog_events t (case te_value ev of
                     Some v \<Rightarrow> if te_kind ev = Fog_bank \<and> te_t ev \<le> t then fmax fog v else fog
                   | None \<Rightarrow> fog) evs"

definition fog_at :: "scenario \<Rightarrow> pyfloat \<Rightarrow> pyfloat" where
  "fog_at s t = fmin (lit 1) (fog_events t (wd_fog_density (sc_world s)) (sc_events s))"

fun jammer_events :: "libm \<Rightarrow> pyfloat \<Rightarrow> jammer list \<Rightarrow> timed_event list \<Rightarrow> jammer list" where
  "jammer_events L t active [] = active"
| "jammer_events L t active (ev # evs) =
     jammer_events L t
       (case te_pos ev of
          None \<Rightarrow> active
        | Some p \<Rightarrow>
            (if te_kind ev = Jammer_on \<and> te_t ev \<le> t
             then active @ [(p, float_or (te_radius ev) (lit 20), float_or (te_value ev) (lit (7 / 10)))]
             else if te_kind ev = Jammer_off \<and> te_t ev \<le> t
             then filter (\<lambda>(q, _). \<not> lm_dist L q p < lit 2) active
             else active)) evs"

definition active_jammers :: "libm \<Rightarrow> scenario \<Rightarrow> pyfloat \<Rightarrow> jammer list" where
  "active_jammers L s t = jammer_events L t [] (sc_events s)"

fun interference_at :: "libm \<Rightarrow> vec2 \<Rightarrow> pyfloat \<Rightarrow> jammer list \<Rightarrow> pyfloat" where
  "interference_at L pos best [] = best"
| "interference_at L pos best ((jpos, radius, strength) # js) =
     (let d = lm_dist L pos jpos
      in interference_at L pos
           (if d \<le> radius then fmax best (fmul strength (fsub (lit 1) (fquot d radius))) else best) js)"

definition actor_pos :: "libm \<Rightarrow> fleet \<Rightarrow> pyfloat \<Rightarrow> actor \<Rightarrow> vec2 option" where
  "actor_pos L f t a =
     (if is_vehicle a then pos_at_arclen L (ac_path a) (get_or (Fin 0) (veh_travel f) (ac_id a))
      else position_at L a t None)"

definition lane_at :: "scenario \<Rightarrow> actor \<Rightarrow> lane option" where
  "lane_at s a = (case ac_lane a of
     Some i \<Rightarrow> (let lanes = wd_lanes (sc_world s) in if 0 \<le> i \<and> i < int (length lanes) then Some (lanes ! nat i) else None)
   | None \<Rightarrow> None)"

definition veh_dir :: "scenario \<Rightarrow> actor \<Rightarrow> int" where
  "veh_dir s v = (case lane_at s v of
     Some lane \<Rightarrow> ln_direction lane
   | None \<Rightarrow> (if 2 \<le> length (ac_path v) then (if fst (hd (ac_path v)) \<le> fst (last (ac_path v)) then 1 else - 1) else 1))"

definition signal_pos :: "scenario \<Rightarrow> actor \<Rightarrow> pyfloat option \<times> pyfloat" where
  "signal_pos s a =
     ((case ac_start_x a of Some x \<Rightarrow> Some x | None \<Rightarrow> (case ac_path a of [] \<Rightarrow> None | p # _ \<Rightarrow> Some (fst p))),
      (case ac_start_y a of Some y \<Rightarrow> y | None \<Rightarrow>
        (case lane_at s a of Some lane \<Rightarrow> ln_y lane | None \<Rightarrow> (case ac_path a of [] \<Rightarrow> Fin 0 | p # _ \<Rightarrow> snd p))))"

definition actor_by_id :: "scenario \<Rightarrow> string \<Rightarrow> fleet_error + actor" where
  "actor_by_id s i = (case find (\<lambda>a. ac_id a = i) (sc_actors s) of None \<Rightarrow> Inl FG_StopIteration | Some a \<Rightarrow> Inr a)"

section \<open>Vehicle motion\<close>

definition accel :: pyfloat where "accel = lit (5 / 2)"
definition decel :: pyfloat where "decel = lit (7 / 2)"

text \<open>The stop lines of the signals a vehicle must stop for: the cap on its travel, and whether one holds it.\<close>

definition on_path_tol :: "scenario \<Rightarrow> pyfloat" where
  "on_path_tol s = (case wd_grid (sc_world s) of
     Some g \<Rightarrow> fmul (gr_lane_width g) (lit (11 / 5)) | None \<Rightarrow> lit 6)"

definition stop_gap :: "actor \<Rightarrow> pyfloat" where
  "stop_gap v = fadd (lit 3) (fquot (fst (ac_size v)) (lit 2))"

fun signal_caps :: "libm \<Rightarrow> scenario \<Rightarrow> pyfloat \<Rightarrow> actor \<Rightarrow> pyfloat \<Rightarrow> actor list \<Rightarrow> pyfloat \<times> bool
    \<Rightarrow> fleet_error + pyfloat \<times> bool" where
  "signal_caps L s t v cur [] ch = Inr ch"
| "signal_caps L s t v cur (sig # sigs) (cap, hold) =
     (if \<not> signal_requires_stop sig t
         \<or> (wd_grid (sc_world s) = None \<and> ac_affects_dir sig \<noteq> 0 \<and> ac_affects_dir sig \<noteq> veh_dir s v)
      then signal_caps L s t v cur sigs (cap, hold)
      else case signal_pos s sig of
             (None, _) \<Rightarrow> signal_caps L s t v cur sigs (cap, hold)
           | (Some sx, sy) \<Rightarrow>
               rbind (arclen_of_point L (ac_path v) (sx, sy)) (\<lambda>(reach, dist_from).
                 if on_path_tol s < dist_from then signal_caps L s t v cur sigs (cap, hold)
                 else let stop_travel = fsub reach (stop_gap v)
                      in if cur \<le> fadd stop_travel (lit (1 / 2))
                         then signal_caps L s t v cur sigs (fmin cap stop_travel, True)
                         else signal_caps L s t v cur sigs (cap, hold)))"

definition travel_cap :: "libm \<Rightarrow> scenario \<Rightarrow> pyfloat \<Rightarrow> fleet \<Rightarrow> actor \<Rightarrow> pyfloat \<Rightarrow> pyfloat \<Rightarrow> fleet_error + pyfloat \<times> bool" where
  "travel_cap L s t f v total_len cur =
     (if ac_id v \<in> perm_stop f
      then Inr (fmin total_len (get_or cur (stop_target f) (ac_id v)), False)
      else signal_caps L s t v cur (filter (\<lambda>a. ac_kind a = Signal) (sc_actors s)) (total_len, False))"

definition next_speed :: "libm \<Rightarrow> pyfloat \<Rightarrow> pyfloat \<Rightarrow> pyfloat \<Rightarrow> pyfloat \<Rightarrow> pyfloat \<Rightarrow> pyfloat" where
  "next_speed L base cap cur speed dt =
     (let dist_to_stop = fmax (Fin 0) (fsub cap cur);
          v_limit = (if dist_to_stop < lit (10 ^ 6) then lm_sqrt L (fmul (fmul (lit 2) decel) dist_to_stop) else base);
          target = fmin base v_limit
      in fmax (Fin 0) (if speed < target then fmin target (fadd speed (fmul accel dt))
                       else fmax target (fsub speed (fmul decel dt))))"

definition advance_vehicle :: "libm \<Rightarrow> scenario \<Rightarrow> pyfloat \<Rightarrow> pyfloat \<Rightarrow> actor \<Rightarrow> fleet \<Rightarrow> fleet_error + fleet" where
  "advance_vehicle L s t dt v f =
     (let base = ac_speed_mps v
      in if base \<le> Fin 0 \<and> ac_maneuvers v = [] then Inr f
         else let total_len = path_length L (ac_path v);
                  cur = get_or (Fin 0) (veh_travel f) (ac_id v);
                  speed = get_or base (veh_speed f) (ac_id v)
              in rbind (travel_cap L s t f v total_len cur) (\<lambda>(cap, hold).
                   let speed' = next_speed L base cap cur speed dt;
                       nxt = fmin (fmin (fadd cur (fmul speed' dt)) cap) total_len
                   in Inr (f\<lparr>veh_travel := (veh_travel f)(ac_id v \<mapsto> nxt),
                             veh_speed := (veh_speed f)(ac_id v \<mapsto> speed'),
                             waiting := (if hold \<and> speed' < lit (2 / 5) then insert (ac_id v) (waiting f) else waiting f)\<rparr>)))"

fun fold_err :: "('a \<Rightarrow> 's \<Rightarrow> 'e + 's) \<Rightarrow> 'a list \<Rightarrow> 's \<Rightarrow> 'e + 's" where
  "fold_err g [] s = Inr s"
| "fold_err g (x # xs) s = rbind (g x s) (fold_err g xs)"

definition advance_vehicles :: "libm \<Rightarrow> scenario \<Rightarrow> pyfloat \<Rightarrow> pyfloat \<Rightarrow> fleet \<Rightarrow> fleet_error + fleet" where
  "advance_vehicles L s t dt f =
     fold_err (advance_vehicle L s t dt) (filter is_vehicle (sc_actors s)) (f\<lparr>waiting := {}\<rparr>)"

section \<open>One tick: lidar\<close>

type_synonym hazard_table = "string \<Rightarrow> (string \<times> pyfloat) list"

definition table_set :: "string \<Rightarrow> string \<Rightarrow> pyfloat \<Rightarrow> hazard_table \<Rightarrow> hazard_table" where
  "table_set c h d m = m(c := AList.update h d (m c))"

definition note_visible :: "pyfloat \<Rightarrow> nat \<Rightarrow> string \<Rightarrow> sighting \<Rightarrow> fleet \<Rightarrow> fleet" where
  "note_visible t tick c sg f =
     (let h = sg_hazard sg
      in if h \<in> observed f c then f
         else let newly = h \<notin> aware f c;
                  f1 = f\<lparr>observed := add_to c h (observed f), aware := add_to c h (aware f)\<rparr>;
                  f2 = emit_fact t tick (Observed c h (round_digits 1 (sg_distance sg))) f1
              in if newly then emit_fact t tick (Aware c h Via_lidar [c] 0) f2 else f2)"

definition note_blind :: "scenario \<Rightarrow> pyfloat \<Rightarrow> nat \<Rightarrow> string \<Rightarrow> sighting \<Rightarrow> fleet \<Rightarrow> fleet" where
  "note_blind s t tick c sg f =
     (case sg_blocked sg of
        None \<Rightarrow> f
      | Some reason \<Rightarrow>
          (let h = sg_hazard sg
           in if sg_ahead sg \<and> sg_distance sg \<le> wd_lidar_range_m (sc_world s) \<and> (c, h) \<notin> blind_emitted f
              then emit_fact t tick (Blind_to c h reason (round_digits 1 (sg_distance sg)))
                     (f\<lparr>blind_emitted := insert (c, h) (blind_emitted f)\<rparr>)
              else f))"

definition note_sighting :: "scenario \<Rightarrow> pyfloat \<Rightarrow> nat \<Rightarrow> string \<Rightarrow> sighting
    \<Rightarrow> fleet \<times> hazard_table \<times> hazard_table \<Rightarrow> fleet \<times> hazard_table \<times> hazard_table" where
  "note_sighting s t tick c sg x =
     (case x of (f, relevant, concern) \<Rightarrow>
       (if sg_visible sg then note_visible t tick c sg f else note_blind s t tick c sg f,
        if sg_ahead sg \<and> sg_distance sg \<le> wd_awareness_horizon_m (sc_world s)
        then table_set c (sg_hazard sg) (sg_distance sg) relevant else relevant,
        if sg_ahead sg \<and> sg_distance sg \<le> wd_brake_reaction_m (sc_world s)
        then table_set c (sg_hazard sg) (sg_distance sg) concern else concern))"

definition lidar_step :: "libm \<Rightarrow> scenario \<Rightarrow> pyfloat \<Rightarrow> nat \<Rightarrow> pyfloat \<Rightarrow> fleet \<Rightarrow> fleet \<times> hazard_table \<times> hazard_table" where
  "lidar_step L s t tick fog f =
     fold (\<lambda>car x. fold (note_sighting s t tick (ac_id car))
                     (lidar_sightings L s car t fog (actor_pos L (fst x) t)) x)
       (cars s) (f, \<lambda>_. [], \<lambda>_. [])"

section \<open>One tick: the delivery graph\<close>

definition snr_between :: "libm \<Rightarrow> fleet \<Rightarrow> pyfloat \<Rightarrow> pyfloat \<Rightarrow> jammer list \<Rightarrow> actor \<Rightarrow> actor \<Rightarrow> pyfloat option" where
  "snr_between L f t fog jammers u v =
     (case (actor_pos L f t u, actor_pos L f t v) of
        (Some pu, Some pv) \<Rightarrow>
          Some (snr_db_for L \<lparr>lc_distance_m = lm_dist L pu pv, lc_fog_density = fog,
                              lc_interference = interference_at L pv (Fin 0) jammers, lc_tx_power_db = lit 22\<rparr>)
      | _ \<Rightarrow> None)"

definition deliver :: "libm \<Rightarrow> fleet \<Rightarrow> pyfloat \<Rightarrow> pyfloat \<Rightarrow> jammer list \<Rightarrow> int \<Rightarrow> actor \<Rightarrow> actor \<Rightarrow> bool \<times> pyfloat" where
  "deliver L f t fog jammers seed u v =
     (case snr_between L f t fog jammers u v of
        None \<Rightarrow> (False, lit (- 99))
      | Some snr \<Rightarrow> (predict_delivery snr seed, snr))"

definition mesh_links :: "libm \<Rightarrow> scenario \<Rightarrow> fleet \<Rightarrow> pyfloat \<Rightarrow> nat \<Rightarrow> pyfloat \<Rightarrow> jammer list \<Rightarrow> frame_link list" where
  "mesh_links L s f t tick fog jammers =
     concat (map (\<lambda>u. map (\<lambda>v. let (ok, snr) = deliver L f t fog jammers (sc_seed s + int tick) u v
                              in \<lparr>fk_from = ac_id u, fk_to = ac_id v, fk_snr = round_digits 1 snr, fk_delivered = ok\<rparr>)
                      (filter (\<lambda>v. ac_id u \<noteq> ac_id v) (cars s))) (cars s))"

definition add_link :: "frame_link \<Rightarrow> delivery_graph \<Rightarrow> delivery_graph" where
  "add_link k adj = (if fk_delivered k then AList.update (fk_from k) (neighbours adj (fk_from k) @ [fk_to k]) adj else adj)"

definition graph_of_links :: "string list \<Rightarrow> frame_link list \<Rightarrow> delivery_graph" where
  "graph_of_links ids links = fold add_link links (fold (\<lambda>c. AList.update c []) ids [])"


section \<open>One tick: warnings\<close>

text \<open>
  The beacon of one hop: its signal-to-noise ratio is \<open>self._snr(...) or -99.0\<close> (so a ratio of
  exactly zero becomes -99), and the modem is run once per hop and hazard.
\<close>

definition beacon_payload :: "string \<Rightarrow> string \<Rightarrow> string \<Rightarrow> (string \<times> json) list" where
  "beacon_payload from_id hz source =
     [(''type'', JStr ''state_beacon''), (''from'', JStr from_id),
      (''hazards'', JList [JObj [(''id'', JStr hz), (''source'', JStr source)]])]"

record tick_env =
  tk_t :: pyfloat
  tk_tick :: nat
  tk_fog :: pyfloat
  tk_jammers :: "jammer list"

definition hop_step :: "fleet_env \<Rightarrow> scenario \<Rightarrow> tick_env \<Rightarrow> string \<Rightarrow> string \<Rightarrow> bool \<times> string \<times> string \<Rightarrow> fleet
    \<Rightarrow> fleet_error + fleet" where
  "hop_step fe s tk hz source hop f =
     (case hop of (relay, a, b) \<Rightarrow>
       if (a, b, hz) \<in> heard_hops f then Inr f
       else rbind (actor_by_id s a) (\<lambda>u. rbind (actor_by_id s b) (\<lambda>v.
              let f1 = f\<lparr>heard_hops := insert (a, b, hz) (heard_hops f)\<rparr>;
                  snr = float_or (snr_between (fe_libm fe) f (tk_t tk) (tk_fog tk) (tk_jammers tk) u v) (lit (- 99))
              in rbind (send_beacon_real_cached (fe_mesh fe) a b (beacon_payload a hz source) snr (sc_seed s) None (fleet_mesh f))
                   (\<lambda>(real, m). Inr (emit_fact (tk_t tk) (tk_tick tk)
                      (Heard b a hz (round_digits 1 snr) relay (br_frames_sent real) (br_retries real) (br_signature_verified real))
                      (f1\<lparr>fleet_mesh := m\<rparr>))))))"

fun hops_of :: "bool \<Rightarrow> string list \<Rightarrow> (bool \<times> string \<times> string) list" where
  "hops_of relay (a # b # p) = (relay, a, b) # hops_of True (b # p)"
| "hops_of relay _ = []"

definition relay_step :: "tick_env \<Rightarrow> string \<Rightarrow> string \<Rightarrow> string \<Rightarrow> string \<Rightarrow> fleet \<Rightarrow> fleet" where
  "relay_step tk hz source dest mid f =
     (if (mid, source, dest, hz) \<in> relayed_edges f then f
      else emit_fact (tk_t tk) (tk_tick tk) (Relayed_by mid hz source dest)
             (f\<lparr>relayed_edges := insert (mid, source, dest, hz) (relayed_edges f)\<rparr>))"

definition observers_of :: "scenario \<Rightarrow> fleet \<Rightarrow> string \<Rightarrow> string \<Rightarrow> string list" where
  "observers_of s f hz c = filter (\<lambda>i. hz \<in> observed f i \<and> i \<noteq> c) (map ac_id (cars s))"

definition warn_step :: "fleet_env \<Rightarrow> scenario \<Rightarrow> tick_env \<Rightarrow> delivery_graph \<Rightarrow> string \<Rightarrow> string \<Rightarrow> fleet \<Rightarrow> fleet_error + fleet" where
  "warn_step fe s tk adj c hz f =
     (if hz \<in> aware f c then Inr f
      else case bfs_path adj (observers_of s f hz c) c of
             None \<Rightarrow> Inr f
           | Some path \<Rightarrow>
               rbind (fold_err (hop_step fe s tk hz (hd path)) (hops_of False path)
                        (f\<lparr>aware := add_to c hz (aware f), aware_via_radio := add_to c hz (aware_via_radio f)\<rparr>)) (\<lambda>f.
                 Inr (emit_fact (tk_t tk) (tk_tick tk)
                        (Aware c hz (if length path = 2 then Via_direct else Via_relay) path (length path - 1))
                        (fold (relay_step tk hz (hd path) (last path)) (butlast (tl path)) f))))"

definition warn_cars :: "fleet_env \<Rightarrow> scenario \<Rightarrow> tick_env \<Rightarrow> delivery_graph \<Rightarrow> hazard_table \<Rightarrow> fleet \<Rightarrow> fleet_error + fleet" where
  "warn_cars fe s tk adj relevant =
     fold_err (\<lambda>car. fold_err (\<lambda>entry. warn_step fe s tk adj (ac_id car) (fst entry)) (relevant (ac_id car))) (cars s)"

section \<open>One tick: braking\<close>

definition brake_target :: "libm \<Rightarrow> scenario \<Rightarrow> actor \<Rightarrow> vec2 option \<Rightarrow> fleet_error + pyfloat option" where
  "brake_target L s car hpos =
     (case hpos of
        None \<Rightarrow> Inr None
      | Some p \<Rightarrow> rbind (int_to_float (veh_dir s car)) (\<lambda>d. arclen_of_x L (ac_path car) (fsub (fst p) (fmul d (lit 6)))))"

definition brake_step :: "libm \<Rightarrow> scenario \<Rightarrow> tick_env \<Rightarrow> actor \<Rightarrow> string \<times> pyfloat \<Rightarrow> fleet \<Rightarrow> fleet_error + fleet" where
  "brake_step L s tk car entry f =
     (case entry of (hz, d) \<Rightarrow> let c = ac_id car in
        if hz \<in> aware f c then
          (if hz \<in> braked f c then Inr f
           else rbind (actor_by_id s hz) (\<lambda>h.
                  rbind (brake_target L s car (actor_pos L f (tk_t tk) h)) (\<lambda>tgt.
                    let stop = fmax (get_or (Fin 0) (veh_travel f) c) (case tgt of Some x \<Rightarrow> x | None \<Rightarrow> Fin 0);
                        src = (if hz \<in> observed f c then From_lidar else From_radio)
                    in Inr (emit_fact (tk_t tk) (tk_tick tk) (Braked_for c hz (round_digits 1 d) src)
                              (f\<lparr>braked := add_to c hz (braked f), perm_stop := insert c (perm_stop f),
                                 stop_target := (stop_target f)(c \<mapsto> stop)\<rparr>)))))
        else if d < lit 10 then Inr (emit_fact (tk_t tk) (tk_tick tk) (Unaware_risk c hz (round_digits 1 d)) f)
        else Inr f)"

definition brake_cars :: "libm \<Rightarrow> scenario \<Rightarrow> tick_env \<Rightarrow> hazard_table \<Rightarrow> fleet \<Rightarrow> fleet_error + fleet" where
  "brake_cars L s tk concern =
     fold_err (\<lambda>car. fold_err (brake_step L s tk car) (concern (ac_id car))) (cars s)"

section \<open>Frames\<close>

definition vehicle_angle :: "libm \<Rightarrow> fleet \<Rightarrow> actor \<Rightarrow> vec2 \<Rightarrow> pyfloat" where
  "vehicle_angle L f a p =
     (if \<not> is_vehicle a then Fin 0
      else let tr = get_or (Fin 0) (veh_travel f) (ac_id a);
               q = (case pos_at_arclen L (ac_path a) (fadd tr (lit (3 / 5))) of
                      Some q \<Rightarrow> Some q | None \<Rightarrow> pos_at_arclen L (ac_path a) (fsub tr (lit (3 / 5))))
           in case q of
                None \<Rightarrow> Fin 0
              | Some q \<Rightarrow> if same_point q p then Fin 0
                          else lm_atan2 L (fsub (snd q) (snd p)) (fsub (fst q) (fst p)))"

definition actor_frame :: "libm \<Rightarrow> fleet \<Rightarrow> pyfloat \<Rightarrow> actor \<Rightarrow> frame_actor option" where
  "actor_frame L f t a =
     (if ac_kind a = Signal then None
      else case actor_pos L f t a of
             None \<Rightarrow> None
           | Some p \<Rightarrow> Some \<lparr>fa_id = ac_id a, fa_kind = ac_kind a, fa_label = ac_label a,
               fa_x = round_digits 2 (fst p), fa_y = round_digits 2 (snd p),
               fa_angle = round_digits 3 (vehicle_angle L f a p), fa_size = ac_size a,
               fa_is_hazard = ac_is_hazard a, fa_braked = False, fa_waiting = False\<rparr>)"

definition signal_frame :: "scenario \<Rightarrow> pyfloat \<Rightarrow> actor \<Rightarrow> frame_signal" where
  "signal_frame s t a =
     \<lparr>fs_id = ac_id a, fs_x = get_or (Fin 0) (\<lambda>_. fst (signal_pos s a)) (), fs_y = snd (signal_pos s a),
      fs_phase = signal_phase a t, fs_red = (signal_phase a t = Red)\<rparr>"

definition tag_frame :: "fleet \<Rightarrow> frame_actor \<Rightarrow> frame_actor" where
  "tag_frame f a = a\<lparr>fa_braked := fa_id a \<in> perm_stop f, fa_waiting := fa_id a \<in> waiting f\<rparr>"

definition tick_frame :: "libm \<Rightarrow> scenario \<Rightarrow> tick_env \<Rightarrow> frame_link list \<Rightarrow> fleet \<Rightarrow> fleet \<Rightarrow> fleet_frame" where
  "tick_frame L s tk links before after =
     \<lparr>fm_t = round_digits 3 (tk_t tk), fm_tick = tk_tick tk, fm_fog = round_digits 2 (tk_fog tk),
      fm_jammers = map (\<lambda>(p, r, _). (fst p, snd p, r)) (tk_jammers tk),
      fm_actors = map (tag_frame after) (List.map_filter (actor_frame L before (tk_t tk)) (sc_actors s)),
      fm_links = links, fm_signals = map (signal_frame s (tk_t tk)) (filter (\<lambda>a. ac_kind a = Signal) (sc_actors s))\<rparr>"

lemma tick_frame_simps [simp]:
  "fm_tick (tick_frame L s tk links f g) = tk_tick tk" "fm_links (tick_frame L s tk links f g) = links"
  by (simp_all add: tick_frame_def)

section \<open>The main loop\<close>

definition fleet_tick :: "fleet_env \<Rightarrow> scenario \<Rightarrow> pyfloat \<Rightarrow> nat \<Rightarrow> fleet \<Rightarrow> fleet_error + fleet" where
  "fleet_tick fe s dt tick f =
     (let L = fe_libm fe; t = fmul (lit (of_nat tick)) dt; fog = fog_at s t; jammers = active_jammers L s t;
          tk = \<lparr>tk_t = t, tk_tick = tick, tk_fog = fog, tk_jammers = jammers\<rparr>;
          (f1, relevant, concern) = lidar_step L s t tick fog f;
          links = mesh_links L s f1 t tick fog jammers;
          adj = graph_of_links (map ac_id (cars s)) links
      in rbind (warn_cars fe s tk adj relevant f1) (\<lambda>f2.
         rbind (brake_cars L s tk concern f2) (\<lambda>f3.
         rbind (advance_vehicles L s t dt f3) (\<lambda>f4.
           Inr (f4\<lparr>fleet_frames := fleet_frames f4 @ [tick_frame L s tk links f3 f4]\<rparr>)))))"

definition ordered_pairs :: "string list \<Rightarrow> (string \<times> string) list" where
  "ordered_pairs ids = concat (map (\<lambda>i. map (Pair (ids ! i)) (drop (Suc i) ids)) [0..<length ids])"

definition emit_trust :: "scenario \<Rightarrow> fleet \<Rightarrow> fleet" where
  "emit_trust s f =
     (if trusted_emitted f then f
      else let given = (case sc_trust_pairs s of None \<Rightarrow> [] | Some ps \<Rightarrow> ps);
               pairs = (if given = [] then ordered_pairs (map ac_id (cars s)) else given)
           in (fold (\<lambda>(a, b). emit_fact (Fin 0) 0 (Trusts a b)) pairs f)\<lparr>trusted_emitted := True\<rparr>)"

definition add_cars :: "fleet_env \<Rightarrow> actor list \<Rightarrow> radio_mesh \<Rightarrow> radio_mesh" where
  "add_cars fe cs m =
     fold (\<lambda>(n, c) m. add_car (make_car_identity (fe_key fe n) (ac_id c)
             (Some (if truthy (ac_label c) then or_empty (ac_label c) else ac_id c))) m)
       (List.enumerate 0 cs) m"

definition new_fleet :: "fleet_env \<Rightarrow> scenario \<Rightarrow> radio_mesh \<Rightarrow> fleet" where
  "new_fleet fe s m =
     \<lparr>observed = (\<lambda>_. {}), aware = (\<lambda>_. {}), aware_via_radio = (\<lambda>_. {}), braked = (\<lambda>_. {}), blind_emitted = {},
      heard_hops = {}, relayed_edges = {}, trusted_emitted = False, fleet_log = [], fleet_frames = [],
      veh_travel = map_of (rev (map (\<lambda>a. (ac_id a, Fin 0)) (filter is_vehicle (sc_actors s)))),
      veh_speed = map_of (rev (map (\<lambda>a. (ac_id a, ac_speed_mps a)) (filter is_vehicle (sc_actors s)))),
      perm_stop = {}, stop_target = Map.empty, waiting = {}, fleet_mesh = add_cars fe (cars s) m\<rparr>"

definition sim_engine :: "fleet_env \<Rightarrow> scenario \<Rightarrow> fleet_error + scenario \<times> fleet" where
  "sim_engine fe s =
     rbind (resolve_paths s) (\<lambda>s. rbind (new_mesh ''ref-bpsk-1k'') (\<lambda>m. Inr (s, new_fleet fe s m)))"

text \<open>\<open>int(duration_s * tick_hz) + 1\<close> ticks; \<open>range\<close> of a negative count is empty.\<close>

definition tick_count :: "scenario \<Rightarrow> fleet_error + nat" where
  "tick_count s = (case fmul (sc_duration_s s) (sc_tick_hz s) of
     NaN \<Rightarrow> Inl FG_ValueError
   | x \<Rightarrow> (case py_int x of None \<Rightarrow> Inl FG_OverflowError | Some n \<Rightarrow> Inr (nat (n + 1))))"

fun run_ticks :: "fleet_env \<Rightarrow> scenario \<Rightarrow> pyfloat \<Rightarrow> nat \<Rightarrow> nat \<Rightarrow> fleet \<Rightarrow> fleet_error + fleet" where
  "run_ticks fe s dt tick 0 f = Inr f"
| "run_ticks fe s dt tick (Suc n) f = rbind (fleet_tick fe s dt tick f) (run_ticks fe s dt (Suc tick) n)"

record fleet_summary =
  sm_braked :: "(string \<times> string set) list"
  sm_aware_via_radio :: "(string \<times> string set) list"
  sm_n_events :: nat

definition summary_of :: "scenario \<Rightarrow> fleet \<Rightarrow> fleet_summary" where
  "summary_of s f =
     (let ids = remdups (rev (map ac_id (cars s))) in
      \<lparr>sm_braked = filter (\<lambda>(c, h). h \<noteq> {}) (map (\<lambda>c. (c, braked f c)) (rev ids)),
       sm_aware_via_radio = filter (\<lambda>(c, h). h \<noteq> {}) (map (\<lambda>c. (c, aware_via_radio f c)) (rev ids)),
       sm_n_events = length (fleet_log f)\<rparr>)"

record run_result =
  rr_scenario_name :: string
  rr_events :: "graph_event list"
  rr_frames :: "fleet_frame list"
  rr_summary :: fleet_summary

definition engine_run :: "fleet_env \<Rightarrow> scenario \<Rightarrow> fleet \<Rightarrow> fleet_error + fleet" where
  "engine_run fe s f =
     (if feq (sc_tick_hz s) (Fin 0) then Inl FG_ZeroDivisionError
      else rbind (tick_count s) (\<lambda>n. run_ticks fe s (fquot (lit 1) (sc_tick_hz s)) 0 n (emit_trust s f)))"

definition run_scenario :: "fleet_env \<Rightarrow> scenario \<Rightarrow> fleet_error + run_result" where
  "run_scenario fe s =
     rbind (sim_engine fe s) (\<lambda>(s, f). rbind (engine_run fe s f) (\<lambda>f.
       Inr \<lparr>rr_scenario_name = sc_name s, rr_events = map event_dict (fleet_log f),
            rr_frames = fleet_frames f, rr_summary = summary_of s f\<rparr>))"

end
