(* ===== verification/FleetLog.thy ===== *)
theory FleetLog
  imports FleetEngine
begin

text \<open>
  The invariant of the event stream of a FleetGraph run: the log and the state tell the same story, every
  fact with a key below is emitted once, and each fact is justified by the events before it and the links of
  its own tick. Every step of a tick is shown to keep it.
\<close>

section \<open>The log and the state tell the same story\<close>

datatype fact_key =
    K_observed string string | K_aware string string | K_blind string string
  | K_heard string string string | K_relayed string string string string | K_braked string string

fun key_of :: "graph_fact \<Rightarrow> fact_key option" where
  "key_of (Observed c h d) = Some (K_observed c h)"
| "key_of (Aware c h via p n) = Some (K_aware c h)"
| "key_of (Blind_to c h r d) = Some (K_blind c h)"
| "key_of (Heard b a h snr relay n r sv) = Some (K_heard a b h)"
| "key_of (Relayed_by mid h src dst) = Some (K_relayed mid src dst h)"
| "key_of (Braked_for c h d src) = Some (K_braked c h)"
| "key_of (Trusts a b) = None"
| "key_of (Unaware_risk c h d) = None"

fun known :: "fleet \<Rightarrow> fact_key \<Rightarrow> bool" where
  "known f (K_observed c h) \<longleftrightarrow> h \<in> observed f c"
| "known f (K_aware c h) \<longleftrightarrow> h \<in> aware f c"
| "known f (K_blind c h) \<longleftrightarrow> (c, h) \<in> blind_emitted f"
| "known f (K_heard a b h) \<longleftrightarrow> (a, b, h) \<in> heard_hops f"
| "known f (K_relayed m a b h) \<longleftrightarrow> (m, a, b, h) \<in> relayed_edges f"
| "known f (K_braked c h) \<longleftrightarrow> h \<in> braked f c"

definition log_keys :: "graph_event list \<Rightarrow> fact_key list" where
  "log_keys es = List.map_filter (\<lambda>e. key_of (ge_fact e)) es"

text \<open>
  \<open>P\<close> are the facts already noted in the state whose event is still to be emitted.
\<close>

definition matches :: "fact_key set \<Rightarrow> fleet \<Rightarrow> bool" where
  "matches P f \<longleftrightarrow> distinct (log_keys (fleet_log f)) \<and> P \<inter> set (log_keys (fleet_log f)) = {} \<and>
     (\<forall>k. known f k \<longleftrightarrow> k \<in> set (log_keys (fleet_log f)) \<or> k \<in> P)"

lemma log_keys_append [simp]:
  "log_keys (es @ [e]) = log_keys es @ (case key_of (ge_fact e) of None \<Rightarrow> [] | Some k \<Rightarrow> [k])"
  by (simp add: log_keys_def List.map_filter_def split: option.splits)

lemma log_keys_Nil [simp]: "log_keys [] = []"
  by (simp add: log_keys_def List.map_filter_def)

lemma fleet_log_emit [simp]: "fleet_log (emit_fact t tick what f) = fleet_log f @ [\<lparr>ge_t = t, ge_tick = tick, ge_fact = what\<rparr>]"
  by (simp add: emit_fact_def)

lemma emit_state [simp]:
  "observed (emit_fact t tick what f) = observed f" "aware (emit_fact t tick what f) = aware f"
  "aware_via_radio (emit_fact t tick what f) = aware_via_radio f" "braked (emit_fact t tick what f) = braked f"
  "blind_emitted (emit_fact t tick what f) = blind_emitted f" "heard_hops (emit_fact t tick what f) = heard_hops f"
  "relayed_edges (emit_fact t tick what f) = relayed_edges f" "fleet_frames (emit_fact t tick what f) = fleet_frames f"
  "veh_travel (emit_fact t tick what f) = veh_travel f" "veh_speed (emit_fact t tick what f) = veh_speed f"
  "perm_stop (emit_fact t tick what f) = perm_stop f" "stop_target (emit_fact t tick what f) = stop_target f"
  "waiting (emit_fact t tick what f) = waiting f" "fleet_mesh (emit_fact t tick what f) = fleet_mesh f"
  "trusted_emitted (emit_fact t tick what f) = trusted_emitted f"
  by (simp_all add: emit_fact_def)

lemma known_emit [simp]: "known (emit_fact t tick what f) k = known f k"
  by (cases k) simp_all

lemma matches_note:
  assumes "matches P f" "\<not> known f k" "\<And>k'. known f' k' \<longleftrightarrow> known f k' \<or> k' = k" "fleet_log f' = fleet_log f"
  shows "matches (insert k P) f'"
  using assms by (auto simp: matches_def)

lemma matches_emit:
  assumes "matches (insert k P) f" "k \<notin> P" "key_of what = Some k"
  shows "matches P (emit_fact t tick what f)"
  using assms by (auto simp: matches_def)

lemma matches_emit_unkeyed: "matches P f \<Longrightarrow> key_of what = None \<Longrightarrow> matches P (emit_fact t tick what f)"
  by (simp add: matches_def)

lemma in_log_keys: "k \<in> set (log_keys es) \<longleftrightarrow> (\<exists>e \<in> set es. key_of (ge_fact e) = Some k)"
  by (induction es) (auto simp: log_keys_def List.map_filter_def split: option.splits)

lemma key_of_cases:
  "key_of x = Some (K_observed c h) \<longleftrightarrow> (\<exists>d. x = Observed c h d)"
  "key_of x = Some (K_aware c h) \<longleftrightarrow> (\<exists>via p n. x = Aware c h via p n)"
  by (cases x; auto)+

section \<open>When a fact is justified\<close>

definition delivers :: "frame_link list \<Rightarrow> string \<Rightarrow> string \<Rightarrow> bool" where
  "delivers links a b \<longleftrightarrow> (\<exists>k \<in> set links. fk_from k = a \<and> fk_to k = b \<and> fk_delivered k)"

definition saw :: "graph_event list \<Rightarrow> string \<Rightarrow> string \<Rightarrow> bool" where
  "saw es c h \<longleftrightarrow> (\<exists>e \<in> set es. \<exists>d. ge_fact e = Observed c h d)"

definition knew :: "graph_event list \<Rightarrow> string \<Rightarrow> string \<Rightarrow> bool" where
  "knew es c h \<longleftrightarrow> (\<exists>e \<in> set es. \<exists>via p n. ge_fact e = Aware c h via p n)"

fun justified :: "graph_event list \<Rightarrow> frame_link list \<Rightarrow> graph_fact \<Rightarrow> bool" where
  "justified before links (Aware c h via p n) \<longleftrightarrow>
     (if via = Via_lidar then p = [c] \<and> n = 0 \<and> saw before c h
      else 2 \<le> length p \<and> n = length p - 1 \<and> last p = c \<and> saw before (hd p) h \<and> hd p \<noteq> c \<and>
        successively (delivers links) p \<and> (via = Via_direct \<longleftrightarrow> length p = 2))"
| "justified before links (Heard b a h snr relay n r sv) \<longleftrightarrow> delivers links a b"
| "justified before links (Relayed_by mid h src dst) \<longleftrightarrow> saw before src h"
| "justified before links (Braked_for c h d src) \<longleftrightarrow> knew before c h \<and> (src = From_lidar \<longleftrightarrow> saw before c h)"
| "justified before links _ \<longleftrightarrow> True"

text \<open>
  \<open>lk\<close> gives the links of each tick so far; a fact that is emitted once must come from such a tick.
\<close>

definition fact_ok :: "(nat \<rightharpoonup> frame_link list) \<Rightarrow> graph_event list \<Rightarrow> graph_event \<Rightarrow> bool" where
  "fact_ok lk before e \<longleftrightarrow> key_of (ge_fact e) = None \<or>
     (case lk (ge_tick e) of None \<Rightarrow> False | Some links \<Rightarrow> justified before links (ge_fact e))"

definition log_ok :: "(nat \<rightharpoonup> frame_link list) \<Rightarrow> graph_event list \<Rightarrow> bool" where
  "log_ok lk es \<longleftrightarrow> (\<forall>i < length es. fact_ok lk (take i es) (es ! i))"

lemma log_ok_Nil [simp]: "log_ok lk []"
  by (simp add: log_ok_def)

lemma log_ok_append [simp]: "log_ok lk (es @ [e]) \<longleftrightarrow> log_ok lk es \<and> fact_ok lk es e"
  by (auto simp: log_ok_def nth_append less_Suc_eq)

lemma fact_ok_mono: "fact_ok lk es e \<Longrightarrow> lk \<subseteq>\<^sub>m lk' \<Longrightarrow> fact_ok lk' es e"
proof (cases "lk (ge_tick e)")
  case (Some links)
  assume "lk \<subseteq>\<^sub>m lk'"
  with Some have "lk' (ge_tick e) = Some links" by (simp add: map_le_def dom_def) 
  then show ?thesis if "fact_ok lk es e" using that Some by (simp add: fact_ok_def)
qed (simp add: fact_ok_def)

lemma log_ok_mono: "log_ok lk es \<Longrightarrow> lk \<subseteq>\<^sub>m lk' \<Longrightarrow> log_ok lk' es"
  unfolding log_ok_def using fact_ok_mono by blast

definition open_at :: "(nat \<rightharpoonup> frame_link list) \<Rightarrow> nat \<Rightarrow> frame_link list \<Rightarrow> bool" where
  "open_at lk tick links \<longleftrightarrow> lk tick = Some links"

definition good :: "(nat \<rightharpoonup> frame_link list) \<Rightarrow> fact_key set \<Rightarrow> fleet \<Rightarrow> bool" where
  "good lk P f \<longleftrightarrow> matches P f \<and> log_ok lk (fleet_log f)"

lemma good_note:
  "good lk P f \<Longrightarrow> \<not> known f k \<Longrightarrow> (\<And>k'. known f' k' \<longleftrightarrow> known f k' \<or> k' = k) \<Longrightarrow>
   fleet_log f' = fleet_log f \<Longrightarrow> good lk (insert k P) f'"
  using matches_note [of P f k f'] by (simp add: good_def)

lemma good_emit:
  "good lk (insert k P) f \<Longrightarrow> k \<notin> P \<Longrightarrow> key_of what = Some k \<Longrightarrow> open_at lk tick links \<Longrightarrow>
   justified (fleet_log f) links what \<Longrightarrow> good lk P (emit_fact t tick what f)"
  using matches_emit [of k P f what t tick] by (simp add: good_def fact_ok_def open_at_def)

lemma good_emit_unkeyed:
  "good lk P f \<Longrightarrow> key_of what = None \<Longrightarrow> good lk P (emit_fact t tick what f)"
  using matches_emit_unkeyed [of P f what t tick] by (simp add: good_def fact_ok_def)

lemma good_saw: "good lk P f \<Longrightarrow> K_observed c h \<notin> P \<Longrightarrow> saw (fleet_log f) c h \<longleftrightarrow> h \<in> observed f c"
  by (auto simp: good_def matches_def saw_def in_log_keys key_of_cases dest!: spec [of _ "K_observed c h"])

lemma good_knew: "good lk P f \<Longrightarrow> K_aware c h \<notin> P \<Longrightarrow> knew (fleet_log f) c h \<longleftrightarrow> h \<in> aware f c"
  by (auto simp: good_def matches_def knew_def in_log_keys key_of_cases dest!: spec [of _ "K_aware c h"])

lemma good_same:
  "good lk P f \<Longrightarrow> fleet_log f' = fleet_log f \<Longrightarrow> (\<And>k. known f' k = known f k) \<Longrightarrow> good lk P f'"
  by (simp add: good_def matches_def)

section \<open>Every step keeps the log good\<close>

lemma note_visible_good:
  assumes "good lk {} f" and lk: "open_at lk tick links"
  shows "good lk {} (note_visible t tick c sg f)"
proof (cases "sg_hazard sg \<in> observed f c")
  case False
  let ?h = "sg_hazard sg" and ?d = "round_digits 1 (sg_distance sg)"
  let ?o = "f\<lparr>observed := add_to c ?h (observed f)\<rparr>"
  let ?f1 = "f\<lparr>observed := add_to c ?h (observed f), aware := add_to c ?h (aware f)\<rparr>"
  let ?f2 = "emit_fact t tick (Observed c ?h ?d) ?f1"
  have o: "good lk {K_observed c ?h} ?o"
    by (rule good_note [OF assms(1), of "K_observed c ?h"])
       (use False in \<open>auto simp: add_to_def elim!: known.elims split: if_splits\<close>)
  show ?thesis
  proof (cases "?h \<in> aware f c")
    case True
    then have "add_to c ?h (aware f) = aware f" by (simp add: add_to_def insert_absorb)
    then have "good lk {} ?f2" using o by (intro good_emit [OF _ _ _ lk, of "K_observed c ?h"]) simp_all
    with True False show ?thesis by (simp add: note_visible_def Let_def)
  next
    case new: False
    have "good lk {K_aware c ?h, K_observed c ?h} ?f1"
      by (rule good_note [OF o, of "K_aware c ?h"])
         (use new in \<open>auto simp: add_to_def elim!: known.elims split: if_splits\<close>)
    then have f2: "good lk {K_aware c ?h} ?f2"
      by (intro good_emit [OF _ _ _ lk, of "K_observed c ?h"]) (simp_all add: insert_commute)
    have "saw (fleet_log ?f2) c ?h" by (simp add: saw_def)
    then have "good lk {} (emit_fact t tick (Aware c ?h Via_lidar [c] 0) ?f2)"
      by (intro good_emit [OF _ _ _ lk, of "K_aware c ?h"] f2) simp_all
    with new False show ?thesis by (simp add: note_visible_def Let_def)
  qed
qed (use assms in \<open>simp add: note_visible_def\<close>)

lemma note_blind_good:
  assumes "good lk {} f" and lk: "open_at lk tick links"
  shows "good lk {} (note_blind s t tick c sg f)"
proof (cases "sg_blocked sg")
  case (Some reason)
  let ?h = "sg_hazard sg"
  show ?thesis
  proof (cases "sg_ahead sg \<and> sg_distance sg \<le> wd_lidar_range_m (sc_world s) \<and> (c, ?h) \<notin> blind_emitted f")
    case True
    have "good lk {K_blind c ?h} (f\<lparr>blind_emitted := insert (c, ?h) (blind_emitted f)\<rparr>)"
      by (rule good_note [OF assms(1), of "K_blind c ?h"]) (use True in \<open>auto elim!: known.elims\<close>)
    then show ?thesis using True Some
      by (simp add: note_blind_def Let_def) (rule good_emit [OF _ _ _ lk, of "K_blind c ?h"], simp_all)
  qed (use assms Some in \<open>auto simp: note_blind_def Let_def\<close>)
qed (use assms in \<open>simp add: note_blind_def\<close>)

lemma fold_inv: "(\<And>x s. x \<in> set xs \<Longrightarrow> I s \<Longrightarrow> I (g x s)) \<Longrightarrow> I s \<Longrightarrow> I (fold g xs s)"
  by (induction xs arbitrary: s) simp_all

lemma fold_err_inv:
  "(\<And>x s s'. x \<in> set xs \<Longrightarrow> I s \<Longrightarrow> g x s = Inr s' \<Longrightarrow> I s') \<Longrightarrow> I s \<Longrightarrow> fold_err g xs s = Inr s' \<Longrightarrow> I s'"
proof (induction xs arbitrary: s)
  case (Cons x xs)
  from Cons.prems(3) obtain s1 where s1: "g x s = Inr s1" "fold_err g xs s1 = Inr s'"
    by (auto simp: rbind_Inr_iff)
  then have "I s1" using Cons.prems(1,2) by (meson list.set_intros(1))
  then show ?case by (rule Cons.IH [rotated]) (use Cons.prems(1) s1 in auto)
qed simp

lemma lidar_step_inv:
  assumes "I f" "\<And>car sg f. I f \<Longrightarrow> I (note_visible t tick car sg f)" "\<And>car sg f. I f \<Longrightarrow> I (note_blind s t tick car sg f)"
  shows "I (fst (lidar_step L s t tick fog f))"
  unfolding lidar_step_def
  by (rule fold_inv [where I = "\<lambda>x. I (fst x)"], rule fold_inv [where I = "\<lambda>x. I (fst x)"])
     (use assms in \<open>auto simp: note_sighting_def split: prod.splits\<close>)

lemma lidar_step_good:
  "good lk {} f \<Longrightarrow> open_at lk tick links \<Longrightarrow> good lk {} (fst (lidar_step L s t tick fog f))"
  by (rule lidar_step_inv) (simp_all add: note_visible_good note_blind_good)


subsection \<open>The graph of delivering links\<close>

lemma neighbours_update: "neighbours (AList.update k vs adj) u = (if u = k then vs else neighbours adj u)"
  by (simp add: neighbours_def AList.update_conv')

lemma neighbours_add_link:
  "neighbours (add_link k adj) u =
     neighbours adj u @ (if fk_delivered k \<and> fk_from k = u then [fk_to k] else [])"
  by (auto simp: add_link_def neighbours_update)

lemma neighbours_fold_links:
  "v \<in> set (neighbours (fold add_link links adj) u) \<longleftrightarrow> v \<in> set (neighbours adj u) \<or> delivers links u v"
  by (induction links arbitrary: adj) (auto simp: neighbours_add_link delivers_def)

lemma neighbours_start:
  "(\<And>u. neighbours adj u = []) \<Longrightarrow> neighbours (fold (\<lambda>c. AList.update c []) ids adj) u = []"
  by (induction ids arbitrary: adj) (simp_all add: neighbours_update)

lemma neighbours_graph: "v \<in> set (neighbours (graph_of_links ids links) u) \<longleftrightarrow> delivers links u v"
  using neighbours_start [of "[]" ids u] by (simp add: graph_of_links_def neighbours_fold_links) (simp add: neighbours_def)

lemma is_chain_graph:
  "is_chain (graph_of_links ids links) sources c p \<longleftrightarrow>
     p \<noteq> [] \<and> hd p \<in> set sources \<and> last p = c \<and> successively (delivers links) p"
  by (simp add: is_chain_def neighbours_graph)

lemma hops_of_links: "successively P p \<Longrightarrow> (r, a, b) \<in> set (hops_of r0 p) \<Longrightarrow> P a b"
  by (induction r0 p rule: hops_of.induct) auto

subsection \<open>Warnings\<close>

definition same_sight :: "fleet \<Rightarrow> fleet \<Rightarrow> bool" where
  "same_sight f g \<longleftrightarrow> observed g = observed f \<and> aware g = aware f \<and> braked g = braked f \<and>
     veh_travel g = veh_travel f \<and> veh_speed g = veh_speed f \<and> perm_stop g = perm_stop f \<and>
     stop_target g = stop_target f \<and> fleet_frames g = fleet_frames f"

lemma same_sight_refl [simp]: "same_sight f f"
  by (simp add: same_sight_def)

lemma same_sight_trans: "same_sight f g \<Longrightarrow> same_sight g h \<Longrightarrow> same_sight f h"
  by (simp add: same_sight_def)

lemma hop_stepE:
  assumes "hop_step fe s tk hz source (relay, a, b) f = Inr f'"
  obtains "f' = f" | snr m and real :: beacon_result where "(a, b, hz) \<notin> heard_hops f"
    "f' = emit_fact (tk_t tk) (tk_tick tk) (Heard b a hz snr relay (br_frames_sent real) (br_retries real) (br_signature_verified real))
       (f\<lparr>heard_hops := insert (a, b, hz) (heard_hops f), fleet_mesh := m\<rparr>)"
  using assms by (auto simp: hop_step_def rbind_Inr_iff Let_def split: if_splits)

lemma hop_step_same: "hop_step fe s tk hz source hop f = Inr f' \<Longrightarrow> same_sight f f'"
  by (cases hop) (auto simp: same_sight_def elim!: hop_stepE)

lemma hop_step_good:
  assumes "hop_step fe s tk hz source (relay, a, b) f = Inr f'" "good lk P f"
    and lk: "open_at lk (tk_tick tk) links" and "delivers links a b" "K_heard a b hz \<notin> P"
  shows "good lk P f'"
  using assms(1)
proof (cases rule: hop_stepE)
  case (2 snr m real)
  have "good lk (insert (K_heard a b hz) P) (f\<lparr>heard_hops := insert (a, b, hz) (heard_hops f), fleet_mesh := m\<rparr>)"
    by (rule good_note [OF assms(2), of "K_heard a b hz"]) (use 2 in \<open>auto elim!: known.elims\<close>)
  then show ?thesis unfolding 2(2)
    by (rule good_emit [OF _ _ _ lk, of "K_heard a b hz"]) (use assms(4,5) in simp_all)
qed (use assms(2) in simp)

lemma relay_step_same: "same_sight f (relay_step tk hz source dest mid f)"
  by (simp add: relay_step_def same_sight_def)

lemma relay_step_good:
  assumes "good lk P f" "saw (fleet_log f) source hz" "K_relayed mid source dest hz \<notin> P"
    and lk: "open_at lk (tk_tick tk) links"
  shows "good lk P (relay_step tk hz source dest mid f)"
proof (cases "(mid, source, dest, hz) \<in> relayed_edges f")
  case False
  have "good lk (insert (K_relayed mid source dest hz) P)
      (f\<lparr>relayed_edges := insert (mid, source, dest, hz) (relayed_edges f)\<rparr>)"
    by (rule good_note [OF assms(1), of "K_relayed mid source dest hz"]) (use False in \<open>auto elim!: known.elims\<close>)
  then show ?thesis using False assms(2,3)
    by (simp add: relay_step_def) (rule good_emit [OF _ _ _ lk, of "K_relayed mid source dest hz"], simp_all)
qed (use assms in \<open>simp add: relay_step_def\<close>)

lemma warn_stepE:
  assumes "warn_step fe s tk adj c hz f = Inr f'"
  obtains "f' = f" "hz \<in> aware f c"
  | "f' = f" "hz \<notin> aware f c" "bfs_path adj (observers_of s f hz c) c = None"
  | path f1 f2 where "hz \<notin> aware f c" "bfs_path adj (observers_of s f hz c) c = Some path"
      "f1 = f\<lparr>aware := add_to c hz (aware f), aware_via_radio := add_to c hz (aware_via_radio f)\<rparr>"
      "fold_err (hop_step fe s tk hz (hd path)) (hops_of False path) f1 = Inr f2"
      "f' = emit_fact (tk_t tk) (tk_tick tk)
         (Aware c hz (if length path = 2 then Via_direct else Via_relay) path (length path - 1))
         (fold (relay_step tk hz (hd path) (last path)) (butlast (tl path)) f2)"
  using assms by (auto simp: warn_step_def rbind_Inr_iff split: if_splits option.splits)

lemma warn_step_good:
  assumes "warn_step fe s tk (graph_of_links ids links) c hz f = Inr f'" "good lk {} f"
    and lk: "open_at lk (tk_tick tk) links"
  shows "good lk {} f'"
  using assms(1)
proof (cases rule: warn_stepE)
  case (3 path f1 f2)
  let ?K = "{K_aware c hz}"
  have f1: "good lk ?K f1"
    by (rule good_note [OF assms(2), of "K_aware c hz"])
       (use 3(1,3) in \<open>auto simp: add_to_def elim!: known.elims split: if_splits\<close>)
  have chain: "path \<noteq> []" "hd path \<in> set (observers_of s f hz c)" "last path = c" "successively (delivers links) path"
    using bfs.found_chain [OF 3(2)] by (simp_all add: is_chain_graph)
  then have src: "hz \<in> observed f (hd path)" "hd path \<noteq> c" by (auto simp: observers_of_def)
  have "good lk ?K f2 \<and> same_sight f1 f2"
  proof (rule fold_err_inv [where I = "\<lambda>g. good lk ?K g \<and> same_sight f1 g", OF _ _ 3(4)])
    fix hop g g' assume hop: "hop \<in> set (hops_of False path)" and g: "good lk ?K g \<and> same_sight f1 g"
      and run: "hop_step fe s tk hz (hd path) hop g = Inr g'"
    obtain relay a b where h: "hop = (relay, a, b)" by (cases hop)
    have "delivers links a b" using hops_of_links [OF chain(4)] hop h by blast
    then show "good lk ?K g' \<and> same_sight f1 g'"
      using hop_step_good [OF run [unfolded h] _ lk] hop_step_same [OF run] g same_sight_trans by fastforce
  qed (use f1 in simp)
  moreover have "saw (fleet_log g) (hd path) hz" if "good lk ?K g" "same_sight f1 g" for g
    using good_saw [OF that(1)] that(2) src(1) 3(3) by (simp add: same_sight_def)
  ultimately have "good lk ?K (fold (relay_step tk hz (hd path) (last path)) (butlast (tl path)) f2) \<and>
      same_sight f1 (fold (relay_step tk hz (hd path) (last path)) (butlast (tl path)) f2)"
    by (intro fold_inv [where I = "\<lambda>g. good lk ?K g \<and> same_sight f1 g"])
       (auto intro!: relay_step_good [OF _ _ _ lk] intro: same_sight_trans [OF _ relay_step_same])
  then have g: "good lk ?K (fold (relay_step tk hz (hd path) (last path)) (butlast (tl path)) f2)"
    and sw: "saw (fleet_log (fold (relay_step tk hz (hd path) (last path)) (butlast (tl path)) f2)) (hd path) hz"
    using \<open>\<And>g. good lk ?K g \<Longrightarrow> same_sight f1 g \<Longrightarrow> saw (fleet_log g) (hd path) hz\<close> by blast+
  have len: "2 \<le> length path"
  proof (rule ccontr)
    assume "\<not> 2 \<le> length path"
    with chain(1) have "hd path = last path" by (cases path; cases "tl path") auto
    with src(2) chain(3) show False by simp
  qed
  show ?thesis unfolding 3(5)
    by (rule good_emit [OF _ _ _ lk, of "K_aware c hz"]) (use g sw len chain src in \<open>auto\<close>)
qed (use assms(2) in simp_all)

lemma warn_cars_good:
  assumes "warn_cars fe s tk (graph_of_links ids links) relevant f = Inr f'" "good lk {} f"
    and lk: "open_at lk (tk_tick tk) links"
  shows "good lk {} f'"
  using assms(1) unfolding warn_cars_def
  by (rule fold_err_inv [where I = "good lk {}", rotated 2])
     (use assms(2) in \<open>auto elim!: fold_err_inv [where I = "good lk {}", rotated 2] intro: warn_step_good [OF _ _ lk]\<close>)

subsection \<open>Braking and moving\<close>

lemma brake_stepE:
  assumes "brake_step L s tk car (hz, d) f = Inr f'"
  obtains "f' = f" "hz \<in> aware f (ac_id car) \<longrightarrow> hz \<in> braked f (ac_id car)"
  | stop where "hz \<in> aware f (ac_id car)" "hz \<notin> braked f (ac_id car)"
      "\<not> stop < get_or (Fin 0) (veh_travel f) (ac_id car)"
      "f' = emit_fact (tk_t tk) (tk_tick tk)
         (Braked_for (ac_id car) hz (round_digits 1 d) (if hz \<in> observed f (ac_id car) then From_lidar else From_radio))
         (f\<lparr>braked := add_to (ac_id car) hz (braked f), perm_stop := insert (ac_id car) (perm_stop f),
            stop_target := (stop_target f)(ac_id car \<mapsto> stop)\<rparr>)"
  | "hz \<notin> aware f (ac_id car)" "d < lit 10" "f' = emit_fact (tk_t tk) (tk_tick tk) (Unaware_risk (ac_id car) hz (round_digits 1 d)) f"
proof -
  have mx: "\<not> fmax a b < a" for a b :: pyfloat by (cases a; cases b) (auto simp: fmax_def)
  show thesis using assms that mx
    by (auto simp: brake_step_def Let_def rbind_Inr_iff split: if_splits)
qed

lemma brake_step_good:
  assumes "brake_step L s tk car entry f = Inr f'" "good lk {} f" and lk: "open_at lk (tk_tick tk) links"
  shows "good lk {} f'"
proof -
  obtain hz d where e: "entry = (hz, d)" by (cases entry)
  let ?c = "ac_id car"
  from assms(1) [unfolded e] show ?thesis
  proof (cases rule: brake_stepE)
    case (2 stop)
    have "good lk {K_braked ?c hz} (f\<lparr>braked := add_to ?c hz (braked f), perm_stop := insert ?c (perm_stop f),
        stop_target := (stop_target f)(?c \<mapsto> stop)\<rparr>)"
      by (rule good_note [OF assms(2), of "K_braked ?c hz"])
         (use 2(2) in \<open>auto simp: add_to_def elim!: known.elims split: if_splits\<close>)
    moreover have "knew (fleet_log f) ?c hz" "saw (fleet_log f) ?c hz \<longleftrightarrow> hz \<in> observed f ?c"
      using good_knew [OF assms(2)] good_saw [OF assms(2)] 2(1) by simp_all
    ultimately show ?thesis unfolding 2(4) by (intro good_emit [OF _ _ _ lk, of "K_braked ?c hz"]) simp_all
  next
    case 3
    then show ?thesis using good_emit_unkeyed [OF assms(2)] by simp
  qed (use assms(2) in simp)
qed

lemma brake_cars_good:
  assumes "brake_cars L s tk concern f = Inr f'" "good lk {} f" and lk: "open_at lk (tk_tick tk) links"
  shows "good lk {} f'"
  using assms(1) unfolding brake_cars_def
  by (rule fold_err_inv [where I = "good lk {}", rotated 2])
     (use assms(2) in \<open>auto elim!: fold_err_inv [where I = "good lk {}", rotated 2] intro: brake_step_good [OF _ _ lk]\<close>)


lemma advance_vehicleE:
  assumes "advance_vehicle L s t dt v f = Inr f'"
  obtains "ac_speed_mps v \<le> Fin 0" "ac_maneuvers v = []" "f' = f"
  | cap hold sp where "\<not> (ac_speed_mps v \<le> Fin 0 \<and> ac_maneuvers v = [])"
      "travel_cap L s t f v (path_length L (ac_path v)) (get_or (Fin 0) (veh_travel f) (ac_id v)) = Inr (cap, hold)"
      "sp = next_speed L (ac_speed_mps v) cap (get_or (Fin 0) (veh_travel f) (ac_id v))
              (get_or (ac_speed_mps v) (veh_speed f) (ac_id v)) dt"
      "f' = f\<lparr>veh_travel := (veh_travel f)(ac_id v \<mapsto>
                fmin (fmin (fadd (get_or (Fin 0) (veh_travel f) (ac_id v)) (fmul sp dt)) cap) (path_length L (ac_path v))),
              veh_speed := (veh_speed f)(ac_id v \<mapsto> sp),
              waiting := (if hold \<and> sp < lit (2 / 5) then insert (ac_id v) (waiting f) else waiting f)\<rparr>"
  using assms by (auto simp: advance_vehicle_def Let_def rbind_Inr_iff split: if_splits)

definition same_story :: "fleet \<Rightarrow> fleet \<Rightarrow> bool" where
  "same_story f g \<longleftrightarrow> observed g = observed f \<and> aware g = aware f \<and> braked g = braked f \<and>
     blind_emitted g = blind_emitted f \<and> heard_hops g = heard_hops f \<and> relayed_edges g = relayed_edges f \<and>
     fleet_log g = fleet_log f \<and> fleet_frames g = fleet_frames f \<and> perm_stop g = perm_stop f \<and> stop_target g = stop_target f"

lemma same_story_trans: "same_story f g \<Longrightarrow> same_story g h \<Longrightarrow> same_story f h"
  by (simp add: same_story_def)

lemma same_story_known: "same_story f g \<Longrightarrow> known g k = known f k"
  by (cases k) (simp_all add: same_story_def)

lemma same_story_good: "good lk P f \<Longrightarrow> same_story f g \<Longrightarrow> good lk P g"
  by (erule good_same) (simp add: same_story_def, erule same_story_known)

lemma advance_vehicle_story: "advance_vehicle L s t dt v f = Inr g \<Longrightarrow> same_story f g"
  by (erule advance_vehicleE) (simp_all add: same_story_def)

lemma advance_vehicles_story: "advance_vehicles L s t dt f = Inr g \<Longrightarrow> same_story f g"
proof -
  assume run: "advance_vehicles L s t dt f = Inr g"
  have "same_story f (f\<lparr>waiting := {}\<rparr>)" by (simp add: same_story_def)
  from fold_err_inv [where I = "same_story f", OF _ this run [unfolded advance_vehicles_def]]
  show ?thesis using same_story_trans [OF _ advance_vehicle_story] by blast
qed

text \<open>The frames are untouched until the tick's own is appended.\<close>

lemma note_sighting_frames:
  "fleet_frames (fst (note_sighting s t tick c sg x)) = fleet_frames (fst x)"
  by (cases x) (auto simp: note_sighting_def note_visible_def note_blind_def Let_def split: option.splits)

lemma lidar_step_frames: "fleet_frames (fst (lidar_step L s t tick fog f)) = fleet_frames f"
  unfolding lidar_step_def
  by (rule fold_inv [where I = "\<lambda>x. fleet_frames (fst x) = fleet_frames f"],
      rule fold_inv [where I = "\<lambda>x. fleet_frames (fst x) = fleet_frames f"])
     (simp_all add: note_sighting_frames)

lemma warn_step_frames: "warn_step fe s tk adj c hz f = Inr f' \<Longrightarrow> fleet_frames f' = fleet_frames f"
proof (erule warn_stepE)
  fix path f1 f2
  assume f1: "f1 = f\<lparr>aware := add_to c hz (aware f), aware_via_radio := add_to c hz (aware_via_radio f)\<rparr>"
    and hops: "fold_err (hop_step fe s tk hz (hd path)) (hops_of False path) f1 = Inr f2"
    and f': "f' = emit_fact (tk_t tk) (tk_tick tk)
         (Aware c hz (if length path = 2 then Via_direct else Via_relay) path (length path - 1))
         (fold (relay_step tk hz (hd path) (last path)) (butlast (tl path)) f2)"
  have "fleet_frames f2 = fleet_frames f"
    by (rule fold_err_inv [where I = "\<lambda>g. fleet_frames g = fleet_frames f", OF _ _ hops])
       (use f1 hop_step_same in \<open>auto simp: same_sight_def\<close>)
  then have "fleet_frames (fold (relay_step tk hz (hd path) (last path)) (butlast (tl path)) f2) = fleet_frames f"
    by (intro fold_inv [where I = "\<lambda>g. fleet_frames g = fleet_frames f"])
       (use relay_step_same in \<open>auto simp: same_sight_def\<close>)
  then show ?thesis by (simp add: f')
qed simp_all

lemma warn_cars_frames: "warn_cars fe s tk adj relevant f = Inr f' \<Longrightarrow> fleet_frames f' = fleet_frames f"
  unfolding warn_cars_def
  by (erule fold_err_inv [where I = "\<lambda>g. fleet_frames g = fleet_frames f", rotated 2])
     (auto elim!: fold_err_inv [where I = "\<lambda>g. fleet_frames g = fleet_frames f", rotated 2] dest: warn_step_frames)

lemma brake_step_frames: "brake_step L s tk car entry f = Inr f' \<Longrightarrow> fleet_frames f' = fleet_frames f"
  by (cases entry) (auto elim!: brake_stepE)

lemma brake_cars_frames: "brake_cars L s tk concern f = Inr f' \<Longrightarrow> fleet_frames f' = fleet_frames f"
  unfolding brake_cars_def
  by (erule fold_err_inv [where I = "\<lambda>g. fleet_frames g = fleet_frames f", rotated 2])
     (auto elim!: fold_err_inv [where I = "\<lambda>g. fleet_frames g = fleet_frames f", rotated 2] dest: brake_step_frames)

section \<open>One tick and the whole run\<close>

lemma fleet_tickE:
  assumes "fleet_tick fe s dt tick f = Inr f'"
  obtains t fog jammers tk f1 relevant concern f2 f3 f4 links where
    "t = fmul (lit (of_nat tick)) dt" "fog = fog_at s t" "jammers = active_jammers (fe_libm fe) s t"
    "tk = \<lparr>tk_t = t, tk_tick = tick, tk_fog = fog, tk_jammers = jammers\<rparr>"
    "lidar_step (fe_libm fe) s t tick fog f = (f1, relevant, concern)"
    "warn_cars fe s tk (graph_of_links (map ac_id (cars s)) links) relevant f1 = Inr f2"
    "brake_cars (fe_libm fe) s tk concern f2 = Inr f3"
    "advance_vehicles (fe_libm fe) s t dt f3 = Inr f4"
    "links = mesh_links (fe_libm fe) s f1 t tick fog jammers"
    "f' = f4\<lparr>fleet_frames := fleet_frames f4 @ [tick_frame (fe_libm fe) s tk links f3 f4]\<rparr>"
  using assms
  by (cases "lidar_step (fe_libm fe) s (fmul (lit (of_nat tick)) dt) tick (fog_at s (fmul (lit (of_nat tick)) dt)) f")
     (auto simp: fleet_tick_def Let_def rbind_Inr_iff)

definition links_by_tick :: "fleet_frame list \<Rightarrow> nat \<rightharpoonup> frame_link list" where
  "links_by_tick frs k = map_option fm_links (find (\<lambda>fr. fm_tick fr = k) frs)"

definition story_ok :: "nat \<Rightarrow> fleet \<Rightarrow> bool" where
  "story_ok tick f \<longleftrightarrow> map fm_tick (fleet_frames f) = [0..<tick] \<and> good (links_by_tick (fleet_frames f)) {} f"

lemma find_append: "find P (xs @ ys) = (case find P xs of None \<Rightarrow> find P ys | Some x \<Rightarrow> Some x)"
  by (induction xs) simp_all

lemma links_by_tick_append:
  assumes "map fm_tick frs = [0..<tick]" "fm_tick fr = tick"
  shows "links_by_tick (frs @ [fr]) = (links_by_tick frs)(tick \<mapsto> fm_links fr)"
proof
  fix k
  have "tick \<notin> fm_tick ` set frs" using assms(1) by (metis atLeastLessThan_iff less_irrefl list.set_map set_upt)
  then have "find (\<lambda>fr. fm_tick fr = tick) frs = None" by (force simp: find_None_iff)
  then show "links_by_tick (frs @ [fr]) k = ((links_by_tick frs)(tick \<mapsto> fm_links fr)) k"
    using assms(2) by (auto simp: links_by_tick_def find_append split: option.split)
qed

lemma links_by_tick_fresh:
  assumes "map fm_tick frs = [0..<tick]"
  shows "links_by_tick frs tick = None"
proof -
  have "tick \<notin> fm_tick ` set frs" using assms by (metis atLeastLessThan_iff less_irrefl list.set_map set_upt)
  then show ?thesis by (force simp: links_by_tick_def find_None_iff)
qed

lemma fleet_tick_story:
  assumes "fleet_tick fe s dt tick f = Inr f'" "story_ok tick f"
  shows "story_ok (Suc tick) f'"
  using assms(1)
proof (rule fleet_tickE)
  fix t fog jammers tk f1 relevant concern f2 f3 f4 links
  assume lidar: "lidar_step (fe_libm fe) s t tick fog f = (f1, relevant, concern)"
    and tk: "tk = \<lparr>tk_t = t, tk_tick = tick, tk_fog = fog, tk_jammers = jammers\<rparr>"
    and warn: "warn_cars fe s tk (graph_of_links (map ac_id (cars s)) links) relevant f1 = Inr f2"
    and brake: "brake_cars (fe_libm fe) s tk concern f2 = Inr f3"
    and adv: "advance_vehicles (fe_libm fe) s t dt f3 = Inr f4"
    and f': "f' = f4\<lparr>fleet_frames := fleet_frames f4 @ [tick_frame (fe_libm fe) s tk links f3 f4]\<rparr>"
  let ?fr = "tick_frame (fe_libm fe) s tk links f3 f4"
  have fr: "fm_tick ?fr = tick" by (simp add: tk)
  let ?lk = "(links_by_tick (fleet_frames f))(tick \<mapsto> links)"
  from assms(2) have ticks: "map fm_tick (fleet_frames f) = [0..<tick]" and g: "good (links_by_tick (fleet_frames f)) {} f"
    by (simp_all add: story_ok_def)
  have "links_by_tick (fleet_frames f) \<subseteq>\<^sub>m ?lk" using links_by_tick_fresh [OF ticks] by (auto simp: map_le_def dom_def)
  then have g0: "good ?lk {} f" using g log_ok_mono by (auto simp: good_def)
  have op: "open_at ?lk tick links" by (simp add: open_at_def)
  then have op': "open_at ?lk (tk_tick tk) links" by (simp add: tk)
  have "good ?lk {} f1" using lidar_step_good [OF g0 op, of "fe_libm fe" s t fog] by (simp add: lidar)
  from same_story_good [OF brake_cars_good [OF brake warn_cars_good [OF warn this op'] op'] advance_vehicles_story [OF adv]]
  have g4: "good ?lk {} f4" .
  have frames: "fleet_frames f4 = fleet_frames f"
    using lidar_step_frames [of "fe_libm fe" s t tick fog f] lidar warn_cars_frames [OF warn] brake_cars_frames [OF brake]
      advance_vehicles_story [OF adv] by (simp add: same_story_def)
  have "good ?lk {} f'" by (rule good_same [OF g4]) (auto simp: f' elim!: known.elims)
  then show ?thesis
    using ticks fr by (simp add: story_ok_def f' frames links_by_tick_append [OF ticks fr])
qed

lemma run_ticks_story:
  "run_ticks fe s dt tick n f = Inr f' \<Longrightarrow> story_ok tick f \<Longrightarrow> story_ok (tick + n) f'"
proof (induction n arbitrary: tick f)
  case (Suc n)
  from Suc.prems(1) obtain g where "fleet_tick fe s dt tick f = Inr g" "run_ticks fe s dt (Suc tick) n g = Inr f'"
    by (auto simp: rbind_Inr_iff)
  with Suc.IH [of "Suc tick" g] fleet_tick_story Suc.prems(2) show ?case by fastforce
qed simp

lemma emit_trust_story: "story_ok 0 (emit_trust s (new_fleet fe s m))"
proof -
  have start: "good lk {} (new_fleet fe s m)" for lk
    by (auto simp: good_def matches_def new_fleet_def elim!: known.elims)
  have "good lk {} (fold (\<lambda>(a, b). emit_fact (Fin 0) 0 (Trusts a b)) ps f) \<and>
      fleet_frames (fold (\<lambda>(a, b). emit_fact (Fin 0) 0 (Trusts a b)) ps f) = fleet_frames f"
    if "good lk {} f" for lk ps f
    using that by (induction ps arbitrary: f) (auto simp: good_emit_unkeyed)
  note this [OF start]
  moreover have "good lk {} f \<Longrightarrow> good lk {} (f\<lparr>trusted_emitted := True\<rparr>)" for lk f
  proof (rule good_same)
    show "known (f\<lparr>trusted_emitted := True\<rparr>) k = known f k" for k by (cases k) simp_all
  qed simp_all
  ultimately show ?thesis
    by (simp add: story_ok_def emit_trust_def Let_def) (simp add: new_fleet_def)
qed

lemma run_scenarioE:
  assumes "run_scenario fe s = Inr r"
  obtains s' m n f where "resolve_paths s = Inr s'" "new_mesh ''ref-bpsk-1k'' = Inr m" "tick_count s' = Inr n"
    "run_ticks fe s' (fquot (lit 1) (sc_tick_hz s')) 0 n (emit_trust s' (new_fleet fe s' m)) = Inr f"
    "rr_events r = map event_dict (fleet_log f)" "rr_frames r = fleet_frames f" "rr_summary r = summary_of s' f"
  using assms by (auto simp: run_scenario_def sim_engine_def engine_run_def rbind_Inr_iff split: if_splits)

lemma run_scenario_story:
  assumes "run_scenario fe s = Inr r"
  obtains f n where "story_ok n f" "rr_events r = map event_dict (fleet_log f)" "rr_frames r = fleet_frames f"
proof -
  from assms obtain s' m n f where run: "run_ticks fe s' (fquot (lit 1) (sc_tick_hz s')) 0 n (emit_trust s' (new_fleet fe s' m)) = Inr f"
    and r: "rr_events r = map event_dict (fleet_log f)" "rr_frames r = fleet_frames f" by (elim run_scenarioE)
  from run_ticks_story [OF run emit_trust_story] show thesis by (rule that [OF _ r])
qed

end
