(* ===== verification/FleetMotion.thy ===== *)
theory FleetMotion
  imports FleetLog
begin

text \<open>
  What the vehicle integrator guarantees, in the doubles it computes with: no vehicle runs past the end
  of its path, a car that brakes for a hazard never passes the point it stops at, and a
  speed stays between zero and the vehicle's cruising speed.
\<close>

section \<open>Bounds of minima and maxima\<close>

lemma fmin_bounds: "\<not> a < fmin a b" "\<not> b < fmin a b"
  by (cases a; cases b; auto simp: fmin_def)+

lemma fmin_keeps: "\<not> c < a \<Longrightarrow> \<not> c < fmin a b"
  by (cases a; cases b; cases c) (auto simp: fmin_def)

lemma fmax_keeps: "\<not> c < a \<Longrightarrow> \<not> c < b \<Longrightarrow> \<not> c < fmax a b"
  by (simp add: fmax_def)

lemma fmax_nonneg: "Fin 0 \<le> fmax (Fin 0) x"
  by (cases x) (auto simp: fmax_def)

lemma le_not_less: "a \<le> b \<Longrightarrow> \<not> b < a" for a :: pyfloat
  by (cases a; cases b) auto

section \<open>Speed\<close>

lemma decel_step:
  assumes "is_double base" "\<not> base < speed" "Fin 0 \<le> dt" "base \<noteq> NaN"
  shows "\<not> base < fsub speed (fmul decel dt)"
proof (cases "fsub speed (fmul decel dt) = NaN")
  case False
  then have nn: "speed \<noteq> NaN" "fmul decel dt \<noteq> NaN" using fsub_not_NaN by metis+
  have pos: "Fin 0 \<le> fmul decel dt"
    by (rule fmul_nonneg) (use assms(3) nn in \<open>simp_all add: decel_def binary64_nonneg\<close>)
  have le: "speed \<le> base" using fnot_less [of speed base] assms(2,4) nn(1) by simp
  show ?thesis
  proof (cases "fsub base (fmul decel dt) = NaN")
    case True
    then have "base = PInf \<and> fmul decel dt = PInf \<or> base = NInf \<and> fmul decel dt = NInf"
      using assms(4) nn(2) by (cases base; cases "fmul decel dt") (auto simp: fsub_def)
    then show ?thesis using pos by (cases "fsub speed (fmul decel dt)") auto
  next
    case base: False
    have "fsub speed (fmul decel dt) \<le> fsub base (fmul decel dt)"
      by (rule fsub_mono [OF le _ False base]) (use nn(2) in simp)
    also have "fsub base (fmul decel dt) \<le> base" by (rule fsub_le [OF assms(1) pos base])
    finally (fle_trans) show ?thesis by (rule le_not_less)
  qed
qed simp

lemma next_speed_bounds:
  assumes "is_double base" "Fin 0 \<le> base" "\<not> base < speed" "Fin 0 \<le> dt"
  shows "Fin 0 \<le> next_speed L base cap cur speed dt \<and> \<not> base < next_speed L base cap cur speed dt"
proof -
  let ?v = "if fmax (Fin 0) (fsub cap cur) < lit (10 ^ 6)
            then lm_sqrt L (fmul (fmul (lit 2) decel) (fmax (Fin 0) (fsub cap cur))) else base"
  have base: "base \<noteq> NaN" using fle_not_NaN [OF assms(2)] by simp
  have "\<not> base < fmin (fmin base ?v) (fadd speed (fmul accel dt))" by (intro fmin_keeps fmin_bounds)
  moreover have "\<not> base < fmax (fmin base ?v) (fsub speed (fmul decel dt))"
    by (intro fmax_keeps fmin_bounds decel_step assms base)
  moreover have "\<not> base < Fin 0" using assms(2) by (rule le_not_less)
  ultimately show ?thesis by (simp add: next_speed_def Let_def fmax_nonneg fmax_keeps del: One_nat_def)
qed

section \<open>The invariant of the vehicles\<close>

definition moving :: "actor \<Rightarrow> bool" where
  "moving v \<longleftrightarrow> is_vehicle v \<and> \<not> (ac_speed_mps v \<le> Fin 0 \<and> ac_maneuvers v = [])"

definition vehicle_ok :: "libm \<Rightarrow> fleet \<Rightarrow> actor \<Rightarrow> bool" where
  "vehicle_ok L f v \<longleftrightarrow>
     \<not> path_length L (ac_path v) < get_or (Fin 0) (veh_travel f) (ac_id v) \<and>
     (let sp = get_or (ac_speed_mps v) (veh_speed f) (ac_id v) in Fin 0 \<le> sp \<and> \<not> ac_speed_mps v < sp)"

definition stops_ok :: "fleet \<Rightarrow> bool" where
  "stops_ok f \<longleftrightarrow> (\<forall>c \<in> perm_stop f. stop_target f c \<noteq> None \<and>
     \<not> the (stop_target f c) < get_or (Fin 0) (veh_travel f) c)"

definition motion_ok :: "libm \<Rightarrow> scenario \<Rightarrow> fleet \<Rightarrow> bool" where
  "motion_ok L s f \<longleftrightarrow> stops_ok f \<and> (\<forall>v \<in> set (sc_actors s). is_vehicle v \<longrightarrow> vehicle_ok L f v)"

text \<open>What is assumed of a scenario: distinct ids, cruising speeds and path lengths that are not negative.\<close>

definition sane_vehicles :: "libm \<Rightarrow> scenario \<Rightarrow> bool" where
  "sane_vehicles L s \<longleftrightarrow> distinct (map ac_id (filter is_vehicle (sc_actors s))) \<and>
     (\<forall>v \<in> set (sc_actors s). is_vehicle v \<longrightarrow>
        is_double (ac_speed_mps v) \<and> Fin 0 \<le> ac_speed_mps v \<and> Fin 0 \<le> path_length L (ac_path v))"

lemma motion_same:
  "motion_ok L s f \<Longrightarrow> veh_travel g = veh_travel f \<Longrightarrow> veh_speed g = veh_speed f \<Longrightarrow> perm_stop g = perm_stop f \<Longrightarrow>
   stop_target g = stop_target f \<Longrightarrow> motion_ok L s g"
  by (simp add: motion_ok_def stops_ok_def vehicle_ok_def)

lemma same_ids:
  assumes "sane_vehicles L s" "v \<in> set (sc_actors s)" "is_vehicle v" "w \<in> set (sc_actors s)" "is_vehicle w" "ac_id v = ac_id w"
  shows "v = w"
proof -
  have "inj_on ac_id (set (filter is_vehicle (sc_actors s)))" using assms(1) by (simp add: sane_vehicles_def distinct_map)
  then show ?thesis using assms(2-) by (auto simp: inj_on_def)
qed

lemma travel_cap_stop:
  assumes "travel_cap L s t f v len cur = Inr (cap, hold)" "ac_id v \<in> perm_stop f" "stop_target f (ac_id v) = Some x"
    and "len \<noteq> NaN"
  shows "\<not> x < cap \<and> cap \<noteq> NaN"
  using assms by (auto simp: travel_cap_def get_or_def fmin_bounds) (auto simp: fmin_def split: if_splits)

lemma advance_vehicle_motion:
  assumes run: "advance_vehicle L s t dt v f = Inr g" and v: "v \<in> set (sc_actors s)" "is_vehicle v"
    and sane: "sane_vehicles L s" and dt: "Fin 0 \<le> dt" and ok: "motion_ok L s f"
  shows "motion_ok L s g"
  using run
proof (cases rule: advance_vehicleE)
  case (2 cap hold sp)
  let ?c = "ac_id v" and ?len = "path_length L (ac_path v)"
  let ?cur = "get_or (Fin 0) (veh_travel f) ?c"
  let ?nxt = "fmin (fmin (fadd ?cur (fmul sp dt)) cap) ?len"
  have sp: "Fin 0 \<le> sp \<and> \<not> ac_speed_mps v < sp"
    unfolding 2(3) using sane v dt ok
    by (intro next_speed_bounds) (auto simp: sane_vehicles_def motion_ok_def vehicle_ok_def Let_def)
  have len: "\<not> ?len < ?nxt" by (rule fmin_bounds)
  have "vehicle_ok L g w" if w: "w \<in> set (sc_actors s)" "is_vehicle w" for w
  proof (cases "ac_id w = ?c")
    case True
    then have "w = v" using same_ids [OF sane w v] by simp
    then show ?thesis using sp len by (simp add: vehicle_ok_def 2(4) get_or_def Let_def)
  next
    case False
    then show ?thesis using ok w by (simp add: motion_ok_def vehicle_ok_def 2(4) get_or_def Let_def)
  qed
  moreover have "stops_ok g"
    unfolding stops_ok_def
  proof
    fix c assume c: "c \<in> perm_stop g"
    then have pf: "c \<in> perm_stop f" by (simp add: 2(4))
    with ok obtain x where x: "stop_target f c = Some x" "\<not> x < get_or (Fin 0) (veh_travel f) c"
      by (auto simp: motion_ok_def stops_ok_def)
    show "stop_target g c \<noteq> None \<and> \<not> the (stop_target g c) < get_or (Fin 0) (veh_travel g) c"
    proof (cases "c = ?c")
      case True
      have "?len \<noteq> NaN" using sane v by (auto simp: sane_vehicles_def)
      with True have "\<not> x < cap" "cap \<noteq> NaN" using travel_cap_stop [OF 2(2)] pf x(1) by simp_all
      then have "\<not> x < fmin (fadd ?cur (fmul sp dt)) cap"
        by (cases x; cases cap; cases "fadd ?cur (fmul sp dt)") (auto simp: fmin_def)
      then have "\<not> x < ?nxt" by (rule fmin_keeps)
      then show ?thesis using True x(1) by (simp add: 2(4) get_or_def)
    next
      case False
      then show ?thesis using x by (simp add: 2(4) get_or_def)
    qed
  qed
  ultimately show ?thesis by (simp add: motion_ok_def)
qed (use ok in simp)

lemma advance_vehicles_motion:
  assumes "advance_vehicles L s t dt f = Inr g" "sane_vehicles L s" "Fin 0 \<le> dt" "motion_ok L s f"
  shows "motion_ok L s g"
  using assms(1) unfolding advance_vehicles_def
  by (rule fold_err_inv [where I = "motion_ok L s", rotated 2])
     (use assms(2-) in \<open>auto intro: advance_vehicle_motion motion_same [of L s f]\<close>)

text \<open>The other steps of a tick leave the vehicles alone, braking sets a stop no nearer than the car.\<close>

lemma brake_step_motion: "brake_step L s tk car entry f = Inr g \<Longrightarrow> motion_ok L' s' f \<Longrightarrow> motion_ok L' s' g"
proof (cases entry)
  case (Pair hz d)
  assume run: "brake_step L s tk car entry f = Inr g" and ok: "motion_ok L' s' f"
  from run [unfolded Pair] show ?thesis
  proof (cases rule: brake_stepE)
    case (2 stop)
    then show ?thesis using ok by (auto simp: motion_ok_def stops_ok_def vehicle_ok_def)
  next
    case 3
    then show ?thesis using motion_same [OF ok] by simp
  qed (use ok in simp)
qed

lemma brake_cars_motion:
  assumes "brake_cars L s tk concern f = Inr g" "motion_ok L' s' f"
  shows "motion_ok L' s' g"
  using assms(1) unfolding brake_cars_def
  by (rule fold_err_inv [where I = "motion_ok L' s'", rotated 2])
     (use assms(2) in \<open>auto elim!: fold_err_inv [where I = "motion_ok L' s'", rotated 2] intro: brake_step_motion\<close>)

definition same_motion :: "fleet \<Rightarrow> fleet \<Rightarrow> bool" where
  "same_motion f g \<longleftrightarrow> veh_travel g = veh_travel f \<and> veh_speed g = veh_speed f \<and> perm_stop g = perm_stop f \<and>
     stop_target g = stop_target f"

lemma same_motion_trans: "same_motion f g \<Longrightarrow> same_motion g h \<Longrightarrow> same_motion f h"
  and same_motion_refl [simp]: "same_motion f f"
  by (simp_all add: same_motion_def)

lemma lidar_step_still: "same_motion f (fst (lidar_step L s t tick fog f))"
  by (rule lidar_step_inv [where I = "same_motion f"])
     (auto simp: same_motion_def note_visible_def note_blind_def Let_def split: option.splits)

lemma same_sight_still: "same_sight f g \<Longrightarrow> same_motion f g"
  by (simp add: same_sight_def same_motion_def)

lemma warn_step_still: "warn_step fe s tk adj c hz f = Inr g \<Longrightarrow> same_motion f g"
proof (erule warn_stepE)
  fix path f1 f2
  assume f1: "f1 = f\<lparr>aware := add_to c hz (aware f), aware_via_radio := add_to c hz (aware_via_radio f)\<rparr>"
    and hops: "fold_err (hop_step fe s tk hz (hd path)) (hops_of False path) f1 = Inr f2"
    and g: "g = emit_fact (tk_t tk) (tk_tick tk)
         (Aware c hz (if length path = 2 then Via_direct else Via_relay) path (length path - 1))
         (fold (relay_step tk hz (hd path) (last path)) (butlast (tl path)) f2)"
  have "same_motion f f1" by (simp add: f1 same_motion_def)
  then have "same_motion f f2"
    by (rule fold_err_inv [where I = "same_motion f", OF _ _ hops, rotated])
       (blast intro: same_motion_trans same_sight_still hop_step_same)
  then have "same_motion f (fold (relay_step tk hz (hd path) (last path)) (butlast (tl path)) f2)"
    by (intro fold_inv [where I = "same_motion f"])
       (auto intro: same_motion_trans same_sight_still relay_step_same)
  then show ?thesis by (simp add: g same_motion_def)
qed simp_all

lemma warn_cars_still: "warn_cars fe s tk adj relevant f = Inr g \<Longrightarrow> same_motion f g"
  unfolding warn_cars_def
  by (erule fold_err_inv [where I = "same_motion f", rotated 2])
     (auto elim!: fold_err_inv [where I = "same_motion f", rotated 2] intro: same_motion_trans warn_step_still)

lemma fleet_tick_motion:
  assumes "fleet_tick fe s dt tick f = Inr g" "sane_vehicles (fe_libm fe) s" "Fin 0 \<le> dt" "motion_ok (fe_libm fe) s f"
  shows "motion_ok (fe_libm fe) s g"
  using assms(1)
proof (rule fleet_tickE)
  fix t fog jammers tk f1 relevant concern f2 f3 f4 links
  assume lidar: "lidar_step (fe_libm fe) s t tick fog f = (f1, relevant, concern)"
    and warn: "warn_cars fe s tk (graph_of_links (map ac_id (cars s)) links) relevant f1 = Inr f2"
    and brake: "brake_cars (fe_libm fe) s tk concern f2 = Inr f3"
    and adv: "advance_vehicles (fe_libm fe) s t dt f3 = Inr f4"
    and g: "g = f4\<lparr>fleet_frames := fleet_frames f4 @ [tick_frame (fe_libm fe) s tk links f3 f4]\<rparr>"
  have "same_motion f f2"
    using lidar_step_still [of f "fe_libm fe" s t tick fog] lidar warn_cars_still [OF warn] same_motion_trans by auto
  then have "motion_ok (fe_libm fe) s f2" by (intro motion_same [OF assms(4)]) (simp_all add: same_motion_def)
  from advance_vehicles_motion [OF adv assms(2,3) brake_cars_motion [OF brake this]]
  show ?thesis by (rule motion_same) (simp_all add: g)
qed

lemma run_ticks_motion:
  "run_ticks fe s dt tick n f = Inr g \<Longrightarrow> sane_vehicles (fe_libm fe) s \<Longrightarrow> Fin 0 \<le> dt \<Longrightarrow>
   motion_ok (fe_libm fe) s f \<Longrightarrow> motion_ok (fe_libm fe) s g"
proof (induction n arbitrary: tick f)
  case (Suc n)
  from Suc.prems(1) obtain h where h: "fleet_tick fe s dt tick f = Inr h" "run_ticks fe s dt (Suc tick) n h = Inr g"
    by (auto simp: rbind_Inr_iff)
  show ?case by (rule Suc.IH [OF h(2) Suc.prems(2,3) fleet_tick_motion [OF h(1) Suc.prems(2-)]])
qed simp

lemma new_fleet_motion:
  assumes "sane_vehicles L s"
  shows "motion_ok L s (emit_trust s (new_fleet fe s m))"
proof -
  let ?f = "new_fleet fe s m"
  have dist: "distinct (map fst (map (\<lambda>a. (ac_id a, g a)) (filter is_vehicle (sc_actors s))))" for g :: "actor \<Rightarrow> pyfloat"
    using assms by (simp add: sane_vehicles_def comp_def)
  have look: "map_of (rev (map (\<lambda>a. (ac_id a, g a)) (filter is_vehicle (sc_actors s)))) (ac_id v) = Some (g v)"
    if "v \<in> set (sc_actors s)" "is_vehicle v" for v and g :: "actor \<Rightarrow> pyfloat"
    using dist [of g] that by (intro map_of_is_SomeI) (auto simp: rev_map [symmetric] simp flip: rev_map)
  have irr: "\<not> x < x" for x :: pyfloat by (cases x) simp_all
  have "vehicle_ok L ?f v" if "v \<in> set (sc_actors s)" "is_vehicle v" for v
    using assms that le_not_less [of "Fin 0" "path_length L (ac_path v)"]
    by (simp add: vehicle_ok_def sane_vehicles_def new_fleet_def look [OF that] get_or_def irr)
  then have "motion_ok L s ?f" by (simp add: motion_ok_def stops_ok_def) (simp add: new_fleet_def)
  moreover have "same_motion f (fold (\<lambda>(a, b). emit_fact (Fin 0) 0 (Trusts a b)) ps g)" if "same_motion f g" for ps f g
    using that by (induction ps arbitrary: g) (simp_all add: same_motion_def split_beta)
  note this [OF same_motion_refl]
  then have "same_motion ?f (emit_trust s ?f)" by (simp add: emit_trust_def Let_def same_motion_def)
  ultimately show ?thesis using motion_same [of L s ?f "emit_trust s ?f"] by (simp add: same_motion_def)
qed

end
