(* ===== verification/FleetGuarantees.thy ===== *)
theory FleetGuarantees
  imports FleetMotion
begin

text \<open>
  What a FleetGraph run can be trusted for, from the scenario handed to \<open>run_scenario\<close> to the event
  stream and the frames it returns.
\<close>

section \<open>A small run\<close>

text \<open>
  Car a stands five metres from a pedestrian, car b a hundred metres behind it, out of its lidar's reach;
  the modem raises on whatever it is given.
\<close>

definition demo_actor :: "string \<Rightarrow> actor_kind \<Rightarrow> bool \<Rightarrow> rat \<Rightarrow> actor" where
  "demo_actor i k hazard x =
     \<lparr>ac_id = i, ac_kind = k, ac_lane = None, ac_start_x = None, ac_start_y = None, ac_heading = None, ac_route = [],
      ac_speed_mps = Fin 0, ac_spawn_t = Fin 0, ac_maneuvers = [], ac_path = [(Fin x, Fin 0)],
      ac_size = (Fin 4, Fin 2), ac_is_hazard = hazard, ac_has_radio = \<not> hazard, ac_label = None,
      ac_green_s = Fin 15, ac_yellow_s = Fin 2, ac_red_s = Fin 5, ac_phase_offset_s = Fin 0, ac_affects_dir = 0\<rparr>"

definition demo_scenario :: scenario where
  "demo_scenario =
     \<lparr>sc_name = ''demo'', sc_description = None, sc_seed = 7, sc_duration_s = Fin 0, sc_tick_hz = Fin 1,
      sc_world = \<lparr>wd_width = Fin 200, wd_height = Fin 44,
        wd_lanes = [\<lparr>ln_y = Fin 0, ln_direction = 1, ln_kind = Drive, ln_label = None\<rparr>], wd_lane_width = Fin 5,
        wd_grid = None, wd_fog_density = Fin 0, wd_lidar_range_m = Fin 60, wd_brake_reaction_m = Fin 28,
        wd_awareness_horizon_m = Fin 150\<rparr>,
      sc_actors = [demo_actor ''a'' Car False 100, demo_actor ''b'' Car False 0, demo_actor ''h'' Pedestrian True 105],
      sc_events = [], sc_trust_pairs = None\<rparr>"

definition demo_fleet_env :: fleet_env where
  "demo_fleet_env = \<lparr>fe_libm = demo_libm, fe_mesh = demo_mesh_env\<lparr>mx_raises := (\<lambda>p snr seed e. True)\<rparr>,
     fe_key = (\<lambda>n. \<lparr>ck_raw_public = [], ck_public_b64 = ''AQ=='', ck_sign = (\<lambda>m. ''s'')\<rparr>)\<rparr>"

lemma demo_sightings:
  "lidar_sightings demo_libm demo_scenario (demo_actor ''a'' Car False 100) (Fin 0) (Fin 0) (actor_pos demo_libm f (Fin 0))
     = [\<lparr>sg_hazard = ''h'', sg_visible = True, sg_blocked = None, sg_distance = Fin 5, sg_ahead = True\<rparr>]"
  "lidar_sightings demo_libm demo_scenario (demo_actor ''b'' Car False 0) (Fin 0) (Fin 0) (actor_pos demo_libm f (Fin 0))
     = [\<lparr>sg_hazard = ''h'', sg_visible = False, sg_blocked = Some Out_of_range, sg_distance = Fin 105, sg_ahead = True\<rparr>]"
  by code_simp+

lemma demo_links:
  "mesh_links demo_libm demo_scenario f (Fin 0) 0 (Fin 0) [] =
     [\<lparr>fk_from = ''a'', fk_to = ''b'', fk_snr = Fin 22, fk_delivered = True\<rparr>,
      \<lparr>fk_from = ''b'', fk_to = ''a'', fk_snr = Fin 22, fk_delivered = True\<rparr>]"
  by code_simp


lemma demo_cars: "cars demo_scenario = [demo_actor ''a'' Car False 100, demo_actor ''b'' Car False 0]"
  by (simp add: cars_def demo_scenario_def demo_actor_def is_vehicle_def)

lemma demo_resolved: "resolve_paths demo_scenario = Inr demo_scenario"
  by (simp add: resolve_paths_def ensure_lanes_def demo_scenario_def resolve_actor_def demo_actor_def Let_def)

lemma demo_actor_fields [simp]:
  "ac_id (demo_actor i k z x) = i" "ac_kind (demo_actor i k z x) = k" "ac_speed_mps (demo_actor i k z x) = Fin 0"
  "ac_maneuvers (demo_actor i k z x) = []" "ac_path (demo_actor i k z x) = [(Fin x, Fin 0)]"
  "ac_lane (demo_actor i k z x) = None" "ac_label (demo_actor i k z x) = None"
  by (simp_all add: demo_actor_def)

lemma demo_world [simp]:
  "wd_lidar_range_m (sc_world demo_scenario) = Fin 60" "wd_brake_reaction_m (sc_world demo_scenario) = Fin 28"
  "wd_awareness_horizon_m (sc_world demo_scenario) = Fin 150" "sc_seed demo_scenario = 7" "sc_tick_hz demo_scenario = Fin 1"
  "sc_trust_pairs demo_scenario = None" "sc_events demo_scenario = []" "sc_name demo_scenario = ''demo''"
  "sc_actors demo_scenario = [demo_actor ''a'' Car False 100, demo_actor ''b'' Car False 0, demo_actor ''h'' Pedestrian True 105]"
  by (simp_all add: demo_scenario_def)

lemma run_beacon_raising:
  assumes "rm_links m = Map.empty" "rm_identities m a = Some ia" "rm_identities m b = Some ib" "a < b"
    and "\<And>p e. mx_raises mx p snr seed e"
    and "\<And>p fv. build_envelope (re_float_repr (mx_radio mx p snr seed)) ia fv (beacon_request b payload) \<noteq> None"
  shows "\<exists>m'. run_beacon mx a b payload snr seed None m = Inr (lost_beacon snr (rm_profile m) a b, m')"
proof -
  have k: "pair_key a b = (a, b)" using order_less_not_sym [OF assms(4)] by (simp add: pair_key_def)
  obtain l m1 where u: "link_used a b None m = Inr (l, m1)" "sl_profile l = rm_profile m" "rm_identities m1 = rm_identities m"
    using assms(1-3) by (simp add: link_used_def link_for_def k Let_def add_endpoint_def)
  obtain e where "build_envelope (re_float_repr (mx_radio mx (sl_profile l) snr seed)) ia
      (xd_values (mx_draw mx (rm_exchanges m1))) (beacon_request b payload) = Some e" using assms(6) by blast
  with u assms(2,5) show ?thesis by (simp add: run_beacon_def exchange_def Let_def)
qed

lemma build_beacon: "build_envelope fr i fv (beacon_request b (beacon_payload a hz source)) \<noteq> None"
  by (simp add: build_envelope_def sign_envelope_def canonical_bytes_def beacon_request_def beacon_payload_def
      model_dump_def json_opt_str_def Let_def del: canonical_dumps.simps split: option.splits)

definition demo_facts :: "graph_fact list" where
  "demo_facts =
     [Trusts ''a'' ''b'', Observed ''a'' ''h'' (Fin 5), Aware ''a'' ''h'' Via_lidar [''a''] 0,
      Heard ''b'' ''a'' ''h'' (Fin 22) False 0 0 False, Aware ''b'' ''h'' Via_direct [''a'', ''b''] 1,
      Braked_for ''a'' ''h'' (Fin 5) From_lidar]"

lemma demo_rounds: "round_digits 1 (Fin 5) = Fin 5" "round_digits 1 (Fin 22) = Fin 22" "Fin 5 < lit 10"
  "bfs_path (graph_of_links [''a'', ''b''] [\<lparr>fk_from = ''a'', fk_to = ''b'', fk_snr = Fin 22, fk_delivered = True\<rparr>,
      \<lparr>fk_from = ''b'', fk_to = ''a'', fk_snr = Fin 22, fk_delivered = True\<rparr>]) [''a''] ''b'' = Some [''a'', ''b'']"
  by code_simp+

definition empty_mesh :: radio_mesh where
  "empty_mesh = \<lparr>rm_profile = reference_bpsk, rm_identities = Map.empty, rm_links = Map.empty, rm_cache = Map.empty,
     rm_exchanges = 0\<rparr>"

definition demo_start :: "radio_mesh \<Rightarrow> fleet" where
  "demo_start m = emit_trust demo_scenario (new_fleet demo_fleet_env demo_scenario m)"

lemma demo_start_state:
  "observed (demo_start m) = (\<lambda>_. {})" "aware (demo_start m) = (\<lambda>_. {})" "braked (demo_start m) = (\<lambda>_. {})"
  "blind_emitted (demo_start m) = {}" "heard_hops (demo_start m) = {}"
  "fleet_log (demo_start m) = [\<lparr>ge_t = Fin 0, ge_tick = 0, ge_fact = Trusts ''a'' ''b''\<rparr>]"
  "fleet_mesh (demo_start m) = add_cars demo_fleet_env (cars demo_scenario) m"
  by (simp_all add: demo_start_def emit_trust_def new_fleet_def demo_cars ordered_pairs_def Let_def)

lemma demo_lidar:
  "\<exists>f1 rel con. lidar_step demo_libm demo_scenario (Fin 0) 0 (Fin 0) (demo_start m) = (f1, rel, con) \<and>
     observed f1 = (\<lambda>_. {})(''a'' := {''h''}) \<and> aware f1 = (\<lambda>_. {})(''a'' := {''h''}) \<and> braked f1 = (\<lambda>_. {}) \<and>
     heard_hops f1 = {} \<and> rel ''a'' = [(''h'', Fin 5)] \<and> rel ''b'' = [(''h'', Fin 105)] \<and>
     con ''a'' = [(''h'', Fin 5)] \<and> con ''b'' = [] \<and> fleet_mesh f1 = add_cars demo_fleet_env (cars demo_scenario) m \<and>
     map ge_fact (fleet_log f1) = take 3 demo_facts \<and> (\<forall>e \<in> set (fleet_log f1). ge_tick e = 0)"
  by (simp add: lidar_step_def demo_cars demo_sightings note_sighting_def note_visible_def note_blind_def add_to_def
      table_set_def demo_start_state emit_fact_def Let_def demo_facts_def demo_rounds [unfolded One_nat_def] del: round_digits.simps)

lemma demo_warn:
  assumes f: "observed f1 = (\<lambda>_. {})(''a'' := {''h''})" "aware f1 = (\<lambda>_. {})(''a'' := {''h''})" "braked f1 = (\<lambda>_. {})"
      "heard_hops f1 = {}" "map ge_fact (fleet_log f1) = take 3 demo_facts" "\<forall>e \<in> set (fleet_log f1). ge_tick e = 0"
    and mesh: "fleet_mesh f1 = add_cars demo_fleet_env (cars demo_scenario) empty_mesh"
    and rel: "rel ''a'' = [(''h'', Fin 5)]" "rel ''b'' = [(''h'', Fin 105)]"
  shows "\<exists>f2. warn_cars demo_fleet_env demo_scenario \<lparr>tk_t = Fin 0, tk_tick = 0, tk_fog = Fin 0, tk_jammers = []\<rparr>
      (graph_of_links [''a'', ''b''] [\<lparr>fk_from = ''a'', fk_to = ''b'', fk_snr = Fin 22, fk_delivered = True\<rparr>,
        \<lparr>fk_from = ''b'', fk_to = ''a'', fk_snr = Fin 22, fk_delivered = True\<rparr>]) rel f1 = Inr f2 \<and>
      observed f2 = (\<lambda>_. {})(''a'' := {''h''}) \<and> aware f2 ''a'' = {''h''} \<and> braked f2 = (\<lambda>_. {}) \<and>
      map ge_fact (fleet_log f2) = take 5 demo_facts \<and> (\<forall>e \<in> set (fleet_log f2). ge_tick e = 0)"
proof -
  let ?m = "add_cars demo_fleet_env (cars demo_scenario) empty_mesh"
  let ?id = "\<lambda>n c. make_car_identity (fe_key demo_fleet_env n) c (Some c)"
  let ?tk = "\<lparr>tk_t = Fin 0, tk_tick = 0, tk_fog = Fin 0, tk_jammers = []\<rparr>"
  have ids: "rm_identities ?m ''a'' = Some (?id 0 ''a'')" "rm_identities ?m ''b'' = Some (?id 1 ''b'')"
    and m: "rm_links ?m = Map.empty" "rm_cache ?m = Map.empty"
    by (simp_all add: empty_mesh_def add_cars_def demo_cars add_car_def make_car_identity_def truthy_def)
  have snr: "snr_between demo_libm f (Fin 0) (Fin 0) [] (demo_actor ''a'' Car False 100) (demo_actor ''b'' Car False 0) = Some (Fin 22)"
    for f by code_simp
  have ab: "''a'' < ''b''" by code_simp
  have raises: "mx_raises (fe_mesh demo_fleet_env) p (Fin 22) 7 e" for p e by (simp add: demo_fleet_env_def)
  obtain m' where "run_beacon (fe_mesh demo_fleet_env) ''a'' ''b'' (beacon_payload ''a'' ''h'' ''a'') (Fin 22) 7 None ?m
      = Inr (lost_beacon (Fin 22) (rm_profile ?m) ''a'' ''b'', m')"
    using run_beacon_raising [OF m(1) ids ab raises] build_beacon by blast
  then obtain m'' where send: "send_beacon_real_cached (fe_mesh demo_fleet_env) ''a'' ''b'' (beacon_payload ''a'' ''h'' ''a'')
      (Fin 22) 7 None ?m = Inr (lost_beacon (Fin 22) (rm_profile ?m) ''a'' ''b'', m'')"
    using m(2) by (simp add: send_beacon_real_cached_def Let_def)
  have libm: "fe_libm demo_fleet_env = demo_libm" by (simp add: demo_fleet_env_def)
  have hop: "hop_step demo_fleet_env demo_scenario ?tk ''h'' ''a'' (False, ''a'', ''b'') g =
      Inr (emit_fact (Fin 0) 0 (Heard ''b'' ''a'' ''h'' (Fin 22) False 0 0 False)
             (g\<lparr>heard_hops := insert (''a'', ''b'', ''h'') (heard_hops g), fleet_mesh := m''\<rparr>))"
    if "heard_hops g = {}" "fleet_mesh g = ?m" for g
    using that by (simp add: hop_step_def actor_by_id_def libm snr send float_or_def lost_beacon_def
        demo_rounds [unfolded One_nat_def] Let_def del: round_digits.simps)
  have obs: "observers_of demo_scenario f1 ''h'' ''b'' = [''a'']" by (simp add: observers_of_def demo_cars f)
  have step_a: "warn_step demo_fleet_env demo_scenario ?tk adj ''a'' ''h'' f1 = Inr f1" for adj by (simp add: warn_step_def f)
  let ?f2 = "emit_fact (Fin 0) 0 (Aware ''b'' ''h'' Via_direct [''a'', ''b''] 1)
      (emit_fact (Fin 0) 0 (Heard ''b'' ''a'' ''h'' (Fin 22) False 0 0 False)
        (f1\<lparr>aware := add_to ''b'' ''h'' (aware f1), aware_via_radio := add_to ''b'' ''h'' (aware_via_radio f1),
           heard_hops := {(''a'', ''b'', ''h'')}, fleet_mesh := m''\<rparr>))"
  have step_b: "warn_step demo_fleet_env demo_scenario ?tk
      (graph_of_links [''a'', ''b''] [\<lparr>fk_from = ''a'', fk_to = ''b'', fk_snr = Fin 22, fk_delivered = True\<rparr>,
        \<lparr>fk_from = ''b'', fk_to = ''a'', fk_snr = Fin 22, fk_delivered = True\<rparr>]) ''b'' ''h'' f1 = Inr ?f2"
    by (simp add: warn_step_def obs demo_rounds hop mesh f)
  have "warn_cars demo_fleet_env demo_scenario ?tk
      (graph_of_links [''a'', ''b''] [\<lparr>fk_from = ''a'', fk_to = ''b'', fk_snr = Fin 22, fk_delivered = True\<rparr>,
        \<lparr>fk_from = ''b'', fk_to = ''a'', fk_snr = Fin 22, fk_delivered = True\<rparr>]) rel f1 = Inr ?f2"
    by (simp add: warn_cars_def demo_cars rel step_a step_b del: emit_fact_def)
  then show ?thesis using f by (intro exI [of _ ?f2]) (simp add: add_to_def demo_facts_def)
qed

lemma demo_brake:
  assumes f: "observed f2 = (\<lambda>_. {})(''a'' := {''h''})" "aware f2 ''a'' = {''h''}" "braked f2 = (\<lambda>_. {})"
      "map ge_fact (fleet_log f2) = take 5 demo_facts" "\<forall>e \<in> set (fleet_log f2). ge_tick e = 0"
    and con: "con ''a'' = [(''h'', Fin 5)]" "con ''b'' = []"
  shows "\<exists>f3. brake_cars demo_libm demo_scenario \<lparr>tk_t = Fin 0, tk_tick = 0, tk_fog = Fin 0, tk_jammers = []\<rparr> con f2 = Inr f3 \<and>
      map ge_fact (fleet_log f3) = demo_facts \<and> (\<forall>e \<in> set (fleet_log f3). ge_tick e = 0)"
proof -
  have pos: "actor_pos demo_libm f (Fin 0) (demo_actor ''h'' Pedestrian True 105) = Some (Fin 105, Fin 0)" for f by code_simp
  have dir: "veh_dir demo_scenario (demo_actor ''a'' Car False 100) = 1" by (simp add: veh_dir_def lane_at_def)
  have one: "int_to_float 1 = Inr (Fin 1)" by code_simp
  show ?thesis using f
    by (simp add: brake_cars_def demo_cars con brake_step_def actor_by_id_def pos brake_target_def dir one arclen_of_x_def
        Let_def demo_rounds [unfolded One_nat_def] demo_facts_def del: round_digits.simps)
qed

lemma demo_evals:
  "tick_count demo_scenario = Inr 1" "fquot (lit 1) (Fin 1) = Fin 1" "fmul (lit 0) (Fin 1) = Fin 0"
  "fog_at demo_scenario (Fin 0) = Fin 0" "active_jammers demo_libm demo_scenario (Fin 0) = []"
  by code_simp+

lemma demo_env_libm: "fe_libm demo_fleet_env = demo_libm"
  by (simp add: demo_fleet_env_def)

lemma demo_tick:
  "\<exists>f. fleet_tick demo_fleet_env demo_scenario (Fin 1) 0 (demo_start empty_mesh) = Inr f \<and>
     map ge_fact (fleet_log f) = demo_facts \<and> (\<forall>e \<in> set (fleet_log f). ge_tick e = 0) \<and>
     fm_links (last (fleet_frames f)) = [\<lparr>fk_from = ''a'', fk_to = ''b'', fk_snr = Fin 22, fk_delivered = True\<rparr>,
       \<lparr>fk_from = ''b'', fk_to = ''a'', fk_snr = Fin 22, fk_delivered = True\<rparr>]"
proof -
  let ?tk = "\<lparr>tk_t = Fin 0, tk_tick = 0, tk_fog = Fin 0, tk_jammers = []\<rparr>"
  obtain f1 rel con where lidar: "lidar_step demo_libm demo_scenario (Fin 0) 0 (Fin 0) (demo_start empty_mesh) = (f1, rel, con)"
    and f1: "observed f1 = (\<lambda>_. {})(''a'' := {''h''})" "aware f1 = (\<lambda>_. {})(''a'' := {''h''})" "braked f1 = (\<lambda>_. {})"
      "heard_hops f1 = {}" "map ge_fact (fleet_log f1) = take 3 demo_facts" "\<forall>e \<in> set (fleet_log f1). ge_tick e = 0"
      "fleet_mesh f1 = add_cars demo_fleet_env (cars demo_scenario) empty_mesh"
    and rel: "rel ''a'' = [(''h'', Fin 5)]" "rel ''b'' = [(''h'', Fin 105)]" and con: "con ''a'' = [(''h'', Fin 5)]" "con ''b'' = []"
    using demo_lidar by blast
  obtain f2 where warn: "warn_cars demo_fleet_env demo_scenario ?tk
      (graph_of_links (map ac_id (cars demo_scenario)) (mesh_links demo_libm demo_scenario f1 (Fin 0) 0 (Fin 0) [])) rel f1 = Inr f2"
    and f2: "observed f2 = (\<lambda>_. {})(''a'' := {''h''})" "aware f2 ''a'' = {''h''}" "braked f2 = (\<lambda>_. {})"
      "map ge_fact (fleet_log f2) = take 5 demo_facts" "\<forall>e \<in> set (fleet_log f2). ge_tick e = 0"
    using demo_warn [OF f1 rel] by (auto simp: demo_links demo_cars)
  obtain f3 where brake: "brake_cars demo_libm demo_scenario ?tk con f2 = Inr f3"
    and f3: "map ge_fact (fleet_log f3) = demo_facts" "\<forall>e \<in> set (fleet_log f3). ge_tick e = 0"
    using demo_brake [OF f2 con] by blast
  have adv: "advance_vehicles demo_libm demo_scenario (Fin 0) (Fin 1) f3 = Inr (f3\<lparr>waiting := {}\<rparr>)"
    by (simp add: advance_vehicles_def advance_vehicle_def is_vehicle_def)
  have "fleet_tick demo_fleet_env demo_scenario (Fin 1) 0 (demo_start empty_mesh)
      = Inr (f3\<lparr>waiting := {}, fleet_frames := fleet_frames f3 @ [tick_frame demo_libm demo_scenario ?tk
          (mesh_links demo_libm demo_scenario f1 (Fin 0) 0 (Fin 0) []) f3 (f3\<lparr>waiting := {}\<rparr>)]\<rparr>)"
    by (simp add: fleet_tick_def Let_def demo_env_libm demo_evals lidar warn brake adv)
  then show ?thesis using f3 by (simp add: demo_links)
qed

lemma demo_mesh: "new_mesh ''ref-bpsk-1k'' = Inr empty_mesh"
  by (simp add: new_mesh_def mesh_profile_def empty_mesh_def)

lemma demo_engine:
  "\<exists>f. engine_run demo_fleet_env demo_scenario (new_fleet demo_fleet_env demo_scenario empty_mesh) = Inr f \<and>
     map ge_fact (fleet_log f) = demo_facts \<and> (\<forall>e \<in> set (fleet_log f). ge_tick e = 0)"
proof -
  have "\<not> feq (Fin 1) (Fin 0)" by (simp add: feq_def)
  then show ?thesis using demo_tick by (auto simp: engine_run_def demo_evals numeral_1_eq_Suc_0 simp flip: demo_start_def)
qed

lemma demo_run:
  "\<exists>r. run_scenario demo_fleet_env demo_scenario = Inr r \<and> map ge_fact (rr_events r) = demo_facts \<and>
     (\<forall>e \<in> set (rr_events r). ge_tick e = 0)"
  using demo_engine by (auto simp: run_scenario_def sim_engine_def demo_resolved demo_mesh event_dict_def comp_def)

section \<open>The event stream\<close>

lemma event_dict_simps [simp]: "ge_fact (event_dict e) = ge_fact e" "ge_tick (event_dict e) = ge_tick e"
  by (simp_all add: event_dict_def)

lemma saw_dict [simp]: "saw (map event_dict es) c h = saw es c h"
  and knew_dict [simp]: "knew (map event_dict es) c h = knew es c h"
  and log_keys_dict [simp]: "log_keys (map event_dict es) = log_keys es"
  by (simp_all add: saw_def knew_def log_keys_def List.map_filter_def comp_def filter_map)

lemma emitted_facts:
  assumes "run_scenario fe s = Inr r" "i < length (rr_events r)" "key_of (ge_fact (rr_events r ! i)) = Some k"
  obtains fr where "fr \<in> set (rr_frames r)" "fm_tick fr = ge_tick (rr_events r ! i)"
    "justified (take i (rr_events r)) (fm_links fr) (ge_fact (rr_events r ! i))"
proof -
  obtain f n where ok: "story_ok n f" and ev: "rr_events r = map event_dict (fleet_log f)"
    and frs: "rr_frames r = fleet_frames f"
    using run_scenario_story [OF assms(1)] by blast
  let ?e = "fleet_log f ! i"
  have i: "i < length (fleet_log f)" using assms(2) by (simp add: ev)
  have e: "ge_fact (rr_events r ! i) = ge_fact ?e" "ge_tick (rr_events r ! i) = ge_tick ?e" using i by (simp_all add: ev)
  have "fact_ok (links_by_tick (fleet_frames f)) (take i (fleet_log f)) ?e"
    using ok i by (simp add: story_ok_def good_def log_ok_def)
  then obtain links where l: "links_by_tick (fleet_frames f) (ge_tick ?e) = Some links"
    and j: "justified (take i (fleet_log f)) links (ge_fact ?e)"
    using assms(3) by (auto simp: fact_ok_def e split: option.splits)
  from l obtain fr where fr: "find (\<lambda>fr. fm_tick fr = ge_tick ?e) (fleet_frames f) = Some fr" "fm_links fr = links"
    by (auto simp: links_by_tick_def)
  have "justified (map event_dict (take i (fleet_log f))) links (ge_fact ?e)"
    using j by (cases "ge_fact ?e") simp_all
  then show thesis
    using fr by (intro that [of fr]) (auto simp: frs i ev find_Some_iff take_map)
qed

text \<open>
  C33: every radio warning of a run traces back to a lidar sighting. When a car becomes aware of a hazard other than
  by its own lidar, the event names the chain of cars the warning took: it ends at the car, every hop of it is a
  delivering link of that very tick's frame, the car at its head is another one and has already seen the hazard in
  the stream so far, and the warning counts as direct exactly when the chain is one hop.
\<close>

theorem every_warning_traces_to_a_sighting:
  assumes "run_scenario fe s = Inr r" "i < length (rr_events r)"
    and "ge_fact (rr_events r ! i) = Aware c h via p n" "via \<noteq> Via_lidar"
  shows "saw (take i (rr_events r)) (hd p) h \<and> hd p \<noteq> c \<and> last p = c \<and> n = length p - 1 \<and> 2 \<le> length p \<and>
    (via = Via_direct \<longleftrightarrow> length p = 2) \<and>
    (\<exists>fr \<in> set (rr_frames r). fm_tick fr = ge_tick (rr_events r ! i) \<and> successively (delivers (fm_links fr)) p)"
proof -
  obtain fr where "fr \<in> set (rr_frames r)" "fm_tick fr = ge_tick (rr_events r ! i)"
    "justified (take i (rr_events r)) (fm_links fr) (ge_fact (rr_events r ! i))"
    by (rule emitted_facts [OF assms(1,2), of "K_aware c h"]) (use assms(3) in simp_all)
  then show ?thesis using assms(3,4) by auto
qed

theorem every_warning_traces_to_a_sighting_witness:
  "\<exists>r. run_scenario demo_fleet_env demo_scenario = Inr r \<and>
     ge_fact (rr_events r ! 4) = Aware ''b'' ''h'' Via_direct [''a'', ''b''] 1 \<and> saw (take 4 (rr_events r)) ''a'' ''h'' \<and>
     (\<exists>fr \<in> set (rr_frames r). fm_tick fr = 0 \<and> delivers (fm_links fr) ''a'' ''b'')"
proof -
  obtain r where r: "run_scenario demo_fleet_env demo_scenario = Inr r" and facts: "map ge_fact (rr_events r) = demo_facts"
    and ticks: "\<forall>e \<in> set (rr_events r). ge_tick e = 0"
    using demo_run by blast
  have i: "4 < length (rr_events r)" using arg_cong [OF facts, of length] by (simp add: demo_facts_def)
  have e: "ge_fact (rr_events r ! 4) = Aware ''b'' ''h'' Via_direct [''a'', ''b''] 1"
    using nth_map [OF i, of ge_fact] by (simp add: facts demo_facts_def)
  show ?thesis
    using every_warning_traces_to_a_sighting [OF r i e] e r ticks nth_mem [OF i] by auto
qed

text \<open>
  C35: no car brakes for a hazard it has not been told of. A braking event comes after an awareness event of the same
  car and hazard in the stream, and it is attributed to the lidar exactly when the car has seen the hazard itself.
\<close>

theorem nobody_brakes_unaware:
  assumes "run_scenario fe s = Inr r" "i < length (rr_events r)" "ge_fact (rr_events r ! i) = Braked_for c h d src"
  shows "knew (take i (rr_events r)) c h \<and> (src = From_lidar \<longleftrightarrow> saw (take i (rr_events r)) c h)"
  by (rule emitted_facts [OF assms(1,2), of "K_braked c h"]) (use assms(3) in simp_all)

theorem nobody_brakes_unaware_witness:
  "\<exists>r. run_scenario demo_fleet_env demo_scenario = Inr r \<and>
     ge_fact (rr_events r ! 5) = Braked_for ''a'' ''h'' (Fin 5) From_lidar \<and> saw (take 5 (rr_events r)) ''a'' ''h''"
proof -
  obtain r where r: "run_scenario demo_fleet_env demo_scenario = Inr r" and facts: "map ge_fact (rr_events r) = demo_facts"
    using demo_run by blast
  have i: "5 < length (rr_events r)" using arg_cong [OF facts, of length] by (simp add: demo_facts_def)
  have e: "ge_fact (rr_events r ! 5) = Braked_for ''a'' ''h'' (Fin 5) From_lidar"
    using nth_map [OF i, of ge_fact] by (simp add: facts demo_facts_def)
  from nobody_brakes_unaware [OF r i e] r e show ?thesis by auto
qed

text \<open>
  The stream states each event of these kinds once: no sighting, awareness, blind spot, reception, relay or braking is
  emitted twice for the same cars and hazard, however many ticks it goes on to hold. (\<open>log_keys\<close> leaves out the
  statements of trust, and those of an unaware car at risk, which are repeated on every tick.)
\<close>

theorem facts_emitted_once:
  assumes "run_scenario fe s = Inr r"
  shows "distinct (log_keys (rr_events r))"
proof -
  obtain f n where "story_ok n f" "rr_events r = map event_dict (fleet_log f)" using run_scenario_story [OF assms] by blast
  then show ?thesis by (simp add: story_ok_def good_def matches_def)
qed

theorem facts_emitted_once_witness:
  "\<exists>r. run_scenario demo_fleet_env demo_scenario = Inr r \<and> distinct (log_keys (rr_events r)) \<and> length (rr_events r) = 6"
proof -
  obtain r where r: "run_scenario demo_fleet_env demo_scenario = Inr r" and facts: "map ge_fact (rr_events r) = demo_facts"
    using demo_run by blast
  have "length (rr_events r) = 6" using arg_cong [OF facts, of length] by (simp add: demo_facts_def)
  with facts_emitted_once [OF r] r show ?thesis by blast
qed


section \<open>No warning is withheld\<close>

lemma warn_step_keeps:
  assumes "warn_step fe s tk adj c hz f = Inr f'"
  shows "observed f' = observed f \<and> aware f' = (if aware f' = aware f then aware f else add_to c hz (aware f))"
  using assms
proof (cases rule: warn_stepE)
  case (3 path f1 f2)
  have "same_sight f1 f2"
    by (rule fold_err_inv [where I = "same_sight f1", OF _ _ 3(4)])
       (auto intro: same_sight_trans hop_step_same)
  then have "same_sight f1 (fold (relay_step tk hz (hd path) (last path)) (butlast (tl path)) f2)"
    by (intro fold_inv [where I = "same_sight f1"]) (auto intro: same_sight_trans relay_step_same)
  then show ?thesis by (simp add: 3(3,5) same_sight_def)
qed simp_all

lemma warn_step_grows:
  assumes "warn_step fe s tk adj c hz f = Inr f'" shows "observed f' = observed f \<and> aware f x \<subseteq> aware f' x"
proof -
  have "aware f' = aware f \<or> aware f' = add_to c hz (aware f)"
    using warn_step_keeps [OF assms] by (auto split: if_splits)
  then show ?thesis using warn_step_keeps [OF assms] by (auto simp: add_to_def)
qed

text \<open>A car the chain reaches is aware after its step.\<close>

lemma warn_step_reaches:
  assumes run: "warn_step fe s tk adj c hz f = Inr f'" and chain: "is_chain adj (observers_of s f hz c) c p"
  shows "hz \<in> aware f' c"
  using run
proof (cases rule: warn_stepE)
  case (3 path f1 f2)
  have "same_sight f1 f2"
    by (rule fold_err_inv [where I = "same_sight f1", OF _ _ 3(4)])
       (auto intro: same_sight_trans hop_step_same)
  then have "same_sight f1 (fold (relay_step tk hz (hd path) (last path)) (butlast (tl path)) f2)"
    by (intro fold_inv [where I = "same_sight f1"]) (auto intro: same_sight_trans relay_step_same)
  then show ?thesis by (simp add: 3(3,5) same_sight_def add_to_def)
qed (use chain bfs.not_found_iff in auto)

lemma fold_err_reaches:
  assumes run: "fold_err g xs s = Inr s'" and x: "x \<in> set xs" and start: "I s"
    and keep: "\<And>y s s'. y \<in> set xs \<Longrightarrow> I s \<Longrightarrow> g y s = Inr s' \<Longrightarrow> I s' \<and> (P s \<longrightarrow> P s')"
    and est: "\<And>s s'. I s \<Longrightarrow> g x s = Inr s' \<Longrightarrow> P s'"
  shows "P s'"
proof -
  obtain ys zs where xs: "xs = ys @ x # zs" using x by (meson split_list)
  have app: "fold_err g (as @ bs) t = rbind (fold_err g as t) (fold_err g bs)" for as bs t
  proof (induction as arbitrary: t)
    case (Cons a as)
    then show ?case by (cases "g a t") simp_all
  qed simp
  from run obtain s1 s2 where s1: "fold_err g ys s = Inr s1" and s2: "g x s1 = Inr s2" and s3: "fold_err g zs s2 = Inr s'"
    by (auto simp: xs app rbind_Inr_iff)
  have "I s1" by (rule fold_err_inv [where I = I, OF _ start s1]) (use keep xs in auto)
  then have "I s2 \<and> P s2" using keep [of x s1 s2] est s2 xs by auto
  then have "I s' \<and> P s'"
    using fold_err_inv [where I = "\<lambda>s. I s \<and> P s", OF _ _ s3] keep xs by auto
  then show ?thesis ..
qed

lemma brake_step_aware: "brake_step L s tk car entry f = Inr g \<Longrightarrow> aware g = aware f"
  by (cases entry) (auto elim!: brake_stepE)

lemma brake_cars_aware: "brake_cars L s tk concern f = Inr g \<Longrightarrow> aware g = aware f"
  unfolding brake_cars_def
  by (erule fold_err_inv [where I = "\<lambda>g. aware g = aware f", rotated 2])
     (auto elim!: fold_err_inv [where I = "\<lambda>g. aware g = aware f", rotated 2] dest: brake_step_aware)

lemma warn_cars_reach:
  assumes run: "warn_cars fe s tk (graph_of_links ids links) relevant f = Inr f'" and car: "car \<in> set (cars s)"
    and hz: "(hz, d) \<in> set (relevant (ac_id car))" and p: "p \<noteq> []" "hd p \<in> set (observers_of s f hz (ac_id car))"
    "last p = ac_id car" "successively (delivers links) p"
  shows "hz \<in> aware f' (ac_id car)"
proof -
  let ?I = "\<lambda>g. observed g = observed f" and ?P = "\<lambda>g. hz \<in> aware g (ac_id car)"
  let ?step = "\<lambda>c entry. warn_step fe s tk (graph_of_links ids links) (ac_id c) (fst entry)"
  have step: "?I g' \<and> (?P g \<longrightarrow> ?P g')" if "?I g" "?step c entry g = Inr g'" for c entry g g'
    using warn_step_grows [OF that(2)] that(1) by auto
  have inner: "?I g' \<and> (?P g \<longrightarrow> ?P g')" if "?I g" "fold_err (?step c) es g = Inr g'" for c es g g'
    by (rule fold_err_inv [where I = "\<lambda>h. ?I h \<and> (?P g \<longrightarrow> ?P h)", OF _ _ that(2)])
       (use that(1) step in blast)+
  have here: "?P g'" if "?I g" "?step car (hz, d) g = Inr g'" for g g'
  proof (rule warn_step_reaches)
    show "warn_step fe s tk (graph_of_links ids links) (ac_id car) hz g = Inr g'" using that(2) by simp
    show "is_chain (graph_of_links ids links) (observers_of s g hz (ac_id car)) (ac_id car) p"
      using p that(1) by (simp add: is_chain_graph observers_of_def)
  qed
  have reach: "?P g'" if "?I g" "fold_err (?step car) (relevant (ac_id car)) g = Inr g'" for g g'
    by (rule fold_err_reaches [where I = ?I and P = ?P, OF that(2) hz that(1)]) (use step here in blast)+
  show ?thesis
    by (rule fold_err_reaches [where I = ?I and P = ?P, OF run [unfolded warn_cars_def] car])
       (use inner reach in auto)
qed

text \<open>
  C34: no warning the mesh can carry is withheld. At any tick, a car with a hazard in its awareness horizon that
  some chain of the tick's delivering links joins to another car that has seen the hazard knows of it by the end of
  the tick, or already knew.
\<close>

theorem no_warning_withheld:
  assumes "fleet_tick fe s dt tick f = Inr f'" "car \<in> set (cars s)"
    and "lidar_step (fe_libm fe) s (fmul (lit (of_nat tick)) dt) tick (fog_at s (fmul (lit (of_nat tick)) dt)) f
           = (seen, relevant, concern)"
    and "(hz, d) \<in> set (relevant (ac_id car))"
    and "p \<noteq> []" "hd p \<in> ac_id ` set (cars s)" "hz \<in> observed seen (hd p)" "hd p \<noteq> ac_id car" "last p = ac_id car"
    and "successively (delivers (fm_links (last (fleet_frames f')))) p"
  shows "hz \<in> aware f' (ac_id car)"
  using assms(1)
proof (rule fleet_tickE)
  fix t fog jammers tk f1 relevant' concern' f2 f3 f4 links
  assume t: "t = fmul (lit (of_nat tick)) dt" "fog = fog_at s t"
    and lidar: "lidar_step (fe_libm fe) s t tick fog f = (f1, relevant', concern')"
    and warn: "warn_cars fe s tk (graph_of_links (map ac_id (cars s)) links) relevant' f1 = Inr f2"
    and brake: "brake_cars (fe_libm fe) s tk concern' f2 = Inr f3"
    and adv: "advance_vehicles (fe_libm fe) s t dt f3 = Inr f4"
    and f': "f' = f4\<lparr>fleet_frames := fleet_frames f4 @ [tick_frame (fe_libm fe) s tk links f3 f4]\<rparr>"
  have same: "f1 = seen" "relevant' = relevant" using lidar assms(3) t by auto
  have "hd p \<in> set (observers_of s seen hz (ac_id car))" using assms(6-8) by (auto simp: observers_of_def)
  moreover have "successively (delivers links) p" using assms(10) f' by simp
  ultimately have "hz \<in> aware f2 (ac_id car)" using warn_cars_reach [OF warn assms(2)] assms(4,5,9) same by auto
  then show ?thesis using brake_cars_aware [OF brake] advance_vehicles_story [OF adv] by (simp add: f' same_story_def)
qed

theorem no_warning_withheld_witness:
  "\<exists>f'. fleet_tick demo_fleet_env demo_scenario (Fin 1) 0 (demo_start empty_mesh) = Inr f' \<and> ''h'' \<in> aware f' ''b''"
proof -
  let ?b = "demo_actor ''b'' Car False 0"
  obtain f' where tick: "fleet_tick demo_fleet_env demo_scenario (Fin 1) 0 (demo_start empty_mesh) = Inr f'"
    and links: "fm_links (last (fleet_frames f')) = [\<lparr>fk_from = ''a'', fk_to = ''b'', fk_snr = Fin 22, fk_delivered = True\<rparr>,
       \<lparr>fk_from = ''b'', fk_to = ''a'', fk_snr = Fin 22, fk_delivered = True\<rparr>]"
    using demo_tick by blast
  obtain f1 rel con where "lidar_step demo_libm demo_scenario (Fin 0) 0 (Fin 0) (demo_start empty_mesh) = (f1, rel, con)"
    and f1: "observed f1 = (\<lambda>_. {})(''a'' := {''h''})" and rel: "rel ''b'' = [(''h'', Fin 105)]"
    using demo_lidar by blast
  then have lidar: "lidar_step (fe_libm demo_fleet_env) demo_scenario (fmul (lit (of_nat 0)) (Fin 1)) 0
      (fog_at demo_scenario (fmul (lit (of_nat 0)) (Fin 1))) (demo_start empty_mesh) = (f1, rel, con)"
    by (simp add: demo_evals demo_env_libm)
  have b: "?b \<in> set (cars demo_scenario)" by (simp add: demo_cars)
  have "''h'' \<in> aware f' (ac_id ?b)"
  proof (rule no_warning_withheld [OF tick b lidar])
    show "(''h'', Fin 105) \<in> set (rel (ac_id ?b))" using rel by simp
    show "successively (delivers (fm_links (last (fleet_frames f')))) [''a'', ''b'']" by (simp add: links delivers_def)
  qed (simp_all add: f1 demo_cars)
  with tick show ?thesis by auto
qed

section \<open>Motion\<close>

text \<open>
  C36: however long a run lasts, every vehicle stays on its path and within its cruising speed, and a vehicle that
  braked for a hazard never drives past the stop it was given, in binary64 arithmetic and whatever the values of the
  mathematical library.
\<close>

theorem motion_in_bounds:
  assumes "engine_run fe s (new_fleet fe s m) = Inr f" "Fin 0 < sc_tick_hz s" "sane_vehicles (fe_libm fe) s"
    and "v \<in> set (sc_actors s)" "is_vehicle v"
  shows "\<not> path_length (fe_libm fe) (ac_path v) < get_or (Fin 0) (veh_travel f) (ac_id v) \<and>
    Fin 0 \<le> get_or (ac_speed_mps v) (veh_speed f) (ac_id v) \<and>
    \<not> ac_speed_mps v < get_or (ac_speed_mps v) (veh_speed f) (ac_id v) \<and>
    (ac_id v \<in> perm_stop f \<longrightarrow> (\<exists>x. stop_target f (ac_id v) = Some x \<and> \<not> x < get_or (Fin 0) (veh_travel f) (ac_id v)))"
proof -
  obtain n where run: "run_ticks fe s (fquot (lit 1) (sc_tick_hz s)) 0 n (emit_trust s (new_fleet fe s m)) = Inr f"
    using assms(1) by (auto simp: engine_run_def rbind_Inr_iff split: if_splits)
  have one: "lit 1 = Fin 1" by code_simp
  have "Fin 0 \<le> fquot (lit 1) (sc_tick_hz s)"
    using assms(2) by (cases "sc_tick_hz s") (auto simp: one intro!: binary64_nonneg)
  from run_ticks_motion [OF run assms(3) this new_fleet_motion [OF assms(3)]]
  have "motion_ok (fe_libm fe) s f" .
  then show ?thesis using assms(4,5) by (auto simp: motion_ok_def stops_ok_def vehicle_ok_def Let_def)
qed

theorem motion_in_bounds_witness:
  "\<exists>f. engine_run demo_fleet_env demo_scenario (new_fleet demo_fleet_env demo_scenario empty_mesh) = Inr f \<and>
     \<not> path_length demo_libm [(Fin 100, Fin 0)] < get_or (Fin 0) (veh_travel f) ''a''"
proof -
  obtain f where run: "engine_run demo_fleet_env demo_scenario (new_fleet demo_fleet_env demo_scenario empty_mesh) = Inr f"
    using demo_engine by blast
  have zero: "round_rat 0 = 0" by code_simp
  have sane: "sane_vehicles (fe_libm demo_fleet_env) demo_scenario"
    using zero by (simp add: sane_vehicles_def is_vehicle_def path_length_def)
  have hz: "Fin 0 < sc_tick_hz demo_scenario" by simp
  have a: "demo_actor ''a'' Car False 100 \<in> set (sc_actors demo_scenario)" "is_vehicle (demo_actor ''a'' Car False 100)"
    by (simp_all add: is_vehicle_def)
  from motion_in_bounds [OF run hz sane a] run show ?thesis by (auto simp: demo_env_libm)
qed


text \<open>
  Two behaviours the bounds leave room for. A red signal caps the travel of a car up to half a metre past its stop
  line at the line, and the car is set back to it; a link of exactly 0 dB is beaconed at -99 dB.
\<close>

lemma car_set_back:
  assumes "advance_vehicle L s t dt v f = Inr g" "Fin 0 < ac_speed_mps v"
    and "travel_cap L s t f v (path_length L (ac_path v)) (get_or (Fin 0) (veh_travel f) (ac_id v)) = Inr (Fin stop, True)"
    and "Fin stop < get_or (Fin 0) (veh_travel f) (ac_id v)"
  shows "\<not> get_or (Fin 0) (veh_travel f) (ac_id v) \<le> get_or (Fin 0) (veh_travel g) (ac_id v)"
  using assms(1)
proof (cases rule: advance_vehicleE)
  case 1
  then show ?thesis using assms(2) by (cases "ac_speed_mps v") auto
next
  case (2 cap hold sp)
  have "\<not> y \<le> fmin (fmin x (Fin stop)) z" if "Fin stop < y" for x y z
    using that by (cases x; cases y; cases z) (auto simp: fmin_def)
  from this [OF assms(4)] show ?thesis using 2 assms(3) by (simp add: get_or_def)
qed

lemma zero_db_becomes_lost: "float_or (Some (Fin 0)) (lit (- 99)) = Fin (- 99)"
  by code_simp

end
