(* ===== verification/FleetCatalog.thy ===== *)
theory FleetCatalog
  imports FleetScenario Envelope
begin

text \<open>
  The prebuilt scenarios of \<open>scenario.py\<close>, the catalogue that lists them, and \<open>load_scenario\<close>, which
  turns a raw JSON object into a scenario. Pydantic's \<open>model_validate\<close> is a parameter. Texts outside ASCII are given in UTF-8.
\<close>

section \<open>Schema defaults\<close>

definition em_dash :: string where "em_dash = [CHR 0xE2, CHR 0x80, CHR 0x94]"
definition times_sign :: string where "times_sign = [CHR 0xC3, CHR 0x97]"

definition new_actor :: "string \<Rightarrow> actor_kind \<Rightarrow> actor" where
  "new_actor i k =
     \<lparr>ac_id = i, ac_kind = k, ac_lane = None, ac_start_x = None, ac_start_y = None, ac_heading = None, ac_route = [],
      ac_speed_mps = lit 0, ac_spawn_t = lit 0, ac_maneuvers = [], ac_path = [], ac_size = (lit (9 / 2), lit 2),
      ac_is_hazard = False, ac_has_radio = True, ac_label = None, ac_green_s = lit 15, ac_yellow_s = lit 2,
      ac_red_s = lit 5, ac_phase_offset_s = lit 0, ac_affects_dir = 0\<rparr>"

definition new_world :: road_world where
  "new_world =
     \<lparr>wd_width = lit 200, wd_height = lit 44, wd_lanes = [], wd_lane_width = lit 5, wd_grid = None, wd_fog_density = lit 0,
      wd_lidar_range_m = lit 60, wd_brake_reaction_m = lit 28, wd_awareness_horizon_m = lit 150\<rparr>"

definition new_scenario :: "string \<Rightarrow> scenario" where
  "new_scenario n =
     \<lparr>sc_name = n, sc_description = None, sc_seed = 7, sc_duration_s = lit 20, sc_tick_hz = lit 5, sc_world = new_world,
      sc_actors = [], sc_events = [], sc_trust_pairs = None\<rparr>"

definition grid_car :: "string \<Rightarrow> string \<Rightarrow> pyfloat \<Rightarrow> pyfloat \<Rightarrow> string \<Rightarrow> string list \<Rightarrow> pyfloat \<Rightarrow> actor" where
  "grid_car i label x y heading route speed =
     (new_actor i Car)\<lparr>ac_label := Some label, ac_start_x := Some x, ac_start_y := Some y, ac_heading := Some heading,
        ac_route := route, ac_speed_mps := speed, ac_has_radio := True, ac_size := (lit (9 / 2), lit 2)\<rparr>"

section \<open>The prebuilt scenarios\<close>

definition example_fog_pedestrian :: "fleet_error + scenario" where
  "example_fog_pedestrian =
     resolve_paths ((new_scenario ''fog-occluded-pedestrian'')
       \<lparr>sc_description := Some (''Heavy fog blinds the ambulance's lidar. A parked car by the ''
           @ ''crossing sees the pedestrian and radios it; a middle car relays ''
           @ ''the message so the ambulance is warned early and stops in time.''),
        sc_duration_s := lit 14,
        sc_world := new_world\<lparr>wd_width := lit 200, wd_height := lit 44, wd_fog_density := lit (7 / 10),
            wd_lidar_range_m := lit 55, wd_brake_reaction_m := lit 30, wd_awareness_horizon_m := lit 150\<rparr>,
        sc_actors :=
          [(new_actor ''car-A'' Car)\<lparr>ac_label := Some ''Ambulance'', ac_lane := Some 2,
              ac_start_x := Some (lit 10), ac_speed_mps := lit 12\<rparr>,
           (new_actor ''car-B'' Car)\<lparr>ac_label := Some ''Parked car (sees pedestrian)'',
               ac_lane := Some 0, ac_start_x := Some (lit 150), ac_speed_mps := lit 0\<rparr>,
           (new_actor ''car-C'' Car)\<lparr>ac_label := Some ''Middle car (relay)'', ac_lane := Some 0,
               ac_start_x := Some (lit 88), ac_speed_mps := lit 0\<rparr>,
           (new_actor ''car-D'' Car)\<lparr>ac_label := Some ''Oncoming car'', ac_lane := Some 1,
               ac_start_x := Some (lit 195), ac_speed_mps := lit 10\<rparr>,
           (new_actor ''truck-T'' Truck)\<lparr>ac_label := Some ''Parked truck'', ac_lane := Some 3,
               ac_start_x := Some (lit 126), ac_speed_mps := lit 0, ac_has_radio := False\<rparr>,
           (new_actor ''ped-1'' Pedestrian)\<lparr>ac_label := Some ''Pedestrian'', ac_is_hazard := True,
               ac_has_radio := False, ac_path := [(lit 140, lit 8), (lit 140, lit 36)],
               ac_speed_mps := lit (11 / 5), ac_spawn_t := lit 2\<rparr>]\<rparr>)"

definition example_jammer_attack :: "fleet_error + scenario" where
  "example_jammer_attack =
     rbind example_fog_pedestrian (\<lambda>s. resolve_paths (s
       \<lparr>sc_name := ''jammer-attack'',
        sc_description := Some (''A jammer blankets the corridor and silences the V2V mesh '' @ em_dash
            @ '' the ambulance gets NO radio warning and only its own lidar ''
            @ ''catches the pedestrian at the last second (vs an early warning '' @ ''with the mesh).''),
        sc_events := [\<lparr>te_t = lit 0, te_kind = Jammer_on, te_area = None, te_pos = Some (lit 100, lit 22),
          te_radius = Some (lit 95), te_value = Some (lit (9 / 10)), te_actor = None\<rparr>]\<rparr>))"

definition example_highway_chain :: "fleet_error + scenario" where
  "example_highway_chain =
     resolve_paths ((new_scenario ''highway-stalled-car'')
       \<lparr>sc_description := Some (''A stalled car in fog ahead. A column of cars relays the warning ''
           @ ''backward to the ambulance at the rear, so it slows early.''),
        sc_duration_s := lit 16,
        sc_world := new_world\<lparr>wd_width := lit 240, wd_height := lit 44,
            wd_fog_density := lit (18 / 25), wd_lidar_range_m := lit 55, wd_brake_reaction_m := lit 30,
            wd_awareness_horizon_m := lit 200\<rparr>,
        sc_actors :=
          [(new_actor ''car-A'' Car)\<lparr>ac_label := Some ''Ambulance (rear)'', ac_lane := Some 2,
              ac_start_x := Some (lit 10), ac_speed_mps := lit 12\<rparr>,
           (new_actor ''car-C1'' Car)\<lparr>ac_label := Some ''Car 1 (relay)'', ac_lane := Some 3,
               ac_start_x := Some (lit 72), ac_speed_mps := lit 0\<rparr>,
           (new_actor ''car-C2'' Car)\<lparr>ac_label := Some ''Car 2 (relay)'', ac_lane := Some 3,
               ac_start_x := Some (lit 135), ac_speed_mps := lit 0\<rparr>,
           (new_actor ''car-B'' Car)\<lparr>ac_label := Some ''Lead car (sees stall)'', ac_lane := Some 3,
               ac_start_x := Some (lit 194), ac_speed_mps := lit 0\<rparr>,
           (new_actor ''stall-1'' Pedestrian)\<lparr>ac_label := Some ''Stalled car'', ac_is_hazard := True,
               ac_has_radio := False, ac_path := [(lit 200, lit (49 / 2))], ac_speed_mps := lit 0,
               ac_spawn_t := lit 3, ac_size := (lit (9 / 2), lit 2)\<rparr>]\<rparr>)"

definition example_grid_intersection :: "fleet_error + scenario" where
  "example_grid_intersection =
     Inr ((new_scenario ''grid-intersection'')
       \<lparr>sc_description := Some (''A 4-way intersection. Cars follow turn routes (straight / left ''
           @ ''/ right); heavy fog means blinded cars rely on the V2V mesh.''),
        sc_duration_s := lit 20,
        sc_world := new_world\<lparr>wd_width := lit 220, wd_height := lit 140,
            wd_grid := Some \<lparr>h_roads = [lit 70], v_roads = [lit 110],
          lanes_each_way = 2, gr_lane_width = lit 5\<rparr>, wd_fog_density := lit (9 / 20),
              wd_lidar_range_m := lit 55, wd_brake_reaction_m := lit 28, wd_awareness_horizon_m := lit 150\<rparr>,
        sc_actors :=
          [grid_car ''car-A'' ''Ambulance'' (lit 0) (lit 70) ''E'' [''straight''] (lit 11),
           grid_car ''car-B'' ''Car B'' (lit 110) (lit 0) ''S'' [''left''] (lit 9),
           grid_car ''car-C'' ''Car C'' (lit 220) (lit 70) ''W'' [''right''] (lit 9),
           grid_car ''car-D'' ''Car D'' (lit 110) (lit 140) ''N'' [''straight''] (lit 8),
           (new_actor ''ped-1'' Pedestrian)\<lparr>ac_label := Some ''Pedestrian'', ac_is_hazard := True,
               ac_has_radio := False, ac_path := [(lit 150, lit 55), (lit 150, lit 85)],
               ac_speed_mps := lit (8 / 5), ac_spawn_t := lit 3\<rparr>]\<rparr>)"

definition example_grid_2x2 :: "fleet_error + scenario" where
  "example_grid_2x2 =
     Inr ((new_scenario ''grid-2x2'')
       \<lparr>sc_description := Some (''A 2x2 city grid. Multiple cars take different routes through ''
           @ ''four intersections in fog; the graph shows who warned whom.''),
        sc_duration_s := lit 24,
        sc_world := new_world\<lparr>wd_width := lit 260, wd_height := lit 170,
            wd_grid := Some \<lparr>h_roads = [lit 50, lit 120], v_roads = [lit 80, lit 180],
          lanes_each_way = 2, gr_lane_width = lit 5\<rparr>, wd_fog_density := lit (1 / 2),
              wd_lidar_range_m := lit 55, wd_brake_reaction_m := lit 28, wd_awareness_horizon_m := lit 160\<rparr>,
        sc_actors :=
          [grid_car ''car-A'' ''Ambulance'' (lit 0) (lit 50) ''E'' [''straight'', ''right''] (lit 11),
           grid_car ''car-B'' ''Car B'' (lit 80) (lit 0) ''S'' [''left'', ''straight''] (lit 9),
           grid_car ''car-C'' ''Car C'' (lit 260) (lit 120) ''W'' [''right'', ''left''] (lit 9),
           grid_car ''car-D'' ''Car D'' (lit 0) (lit 120) ''E'' [''straight'', ''straight''] (lit 10),
           (new_actor ''ped-1'' Pedestrian)\<lparr>ac_label := Some ''Pedestrian'', ac_is_hazard := True,
               ac_has_radio := False, ac_path := [(lit 220, lit 105), (lit 220, lit 135)],
               ac_speed_mps := lit (8 / 5), ac_spawn_t := lit 4\<rparr>]\<rparr>)"

definition example_grid_downtown :: "fleet_error + scenario" where
  "example_grid_downtown =
     Inr ((new_scenario ''grid-downtown'')
       \<lparr>sc_description := Some (''A multi-lane downtown grid '' @ em_dash
           @ '' many cars, many routes, one messy connected graph.''),
        sc_duration_s := lit 26,
        sc_world := new_world\<lparr>wd_width := lit 300, wd_height := lit 220,
            wd_grid := Some \<lparr>h_roads = [lit 45, lit 110, lit 175], v_roads = [lit 90, lit 200],
          lanes_each_way = 3, gr_lane_width = lit (9 / 2)\<rparr>, wd_fog_density := lit (1 / 2),
              wd_lidar_range_m := lit 55, wd_brake_reaction_m := lit 28, wd_awareness_horizon_m := lit 170\<rparr>,
        sc_actors :=
          [grid_car ''car-A'' ''Ambulance'' (lit 0) (lit 45) ''E'' [''straight'', ''right''] (lit 11),
           grid_car ''car-B'' ''Car B'' (lit 90) (lit 0) ''S'' [''left''] (lit 9),
           grid_car ''car-C'' ''Car C'' (lit 300) (lit 110) ''W'' [''straight'', ''left''] (lit 9),
           grid_car ''car-D'' ''Car D'' (lit 200) (lit 220) ''N'' [''right'', ''straight''] (lit 8),
           grid_car ''car-E'' ''Car E'' (lit 0) (lit 175) ''E'' [''right''] (lit 10),
           (new_actor ''ped-1'' Pedestrian)\<lparr>ac_label := Some ''Pedestrian'', ac_is_hazard := True,
               ac_has_radio := False, ac_path := [(lit 120, lit 95), (lit 120, lit 125)],
               ac_speed_mps := lit (8 / 5), ac_spawn_t := lit 4\<rparr>]\<rparr>)"

definition example_blank :: "fleet_error + scenario" where
  "example_blank =
     resolve_paths ((new_scenario ''blank-road'')
       \<lparr>sc_description := Some (''An empty road. Drag cars/trucks/obstacles/a pedestrian onto the ''
           @ ''lanes (or click a tool then click a lane) to build your own '' @ ''scenario, then Run.''),
        sc_duration_s := lit 16,
        sc_world := new_world\<lparr>wd_width := lit 200, wd_height := lit 44, wd_fog_density := lit (3 / 10),
            wd_lidar_range_m := lit 55, wd_brake_reaction_m := lit 30, wd_awareness_horizon_m := lit 150\<rparr>,
        sc_actors :=
          []\<rparr>)"

section \<open>The catalogue\<close>

definition scenarios :: "(string \<times> string \<times> (fleet_error + scenario)) list" where
  "scenarios =
     [(''blank-road'', ''Blank road '' @ em_dash @ '' build your own'', example_blank),
      (''fog-occluded-pedestrian'', ''Fog + relay (the hero case)'', example_fog_pedestrian),
      (''jammer-attack'', ''Jammer silences the mesh (failure case)'', example_jammer_attack),
      (''highway-stalled-car'', ''Highway stalled car (3-hop relay)'', example_highway_chain),
      (''grid-intersection'', ''Grid: single 4-way intersection'', example_grid_intersection),
      (''grid-2x2'', ''Grid: 2'' @ times_sign @ ''2 city grid'', example_grid_2x2),
      (''grid-downtown'', ''Grid: multi-lane downtown'', example_grid_downtown)]"

definition scenario_catalog :: "(string \<times> string) list" where
  "scenario_catalog = map (\<lambda>(k, name, _). (k, name)) scenarios"

definition get_scenario :: "string \<Rightarrow> fleet_error + scenario" where
  "get_scenario i = (case map_of scenarios i of None \<Rightarrow> Inl FG_KeyError | Some (_, s) \<Rightarrow> s)"

section \<open>Loading a raw scenario\<close>

text \<open>
  The raw actors by id, a later one replacing an earlier one of the same id. A vehicle, pedestrian or obstacle
  whose raw entry has no \<open>size\<close> gets the footprint of its kind.
\<close>

definition raw_actors :: "(string \<times> json) list \<Rightarrow> (string \<rightharpoonup> (string \<times> json) list)" where
  "raw_actors data =
     (case json_get ''actors'' data of
        JList xs \<Rightarrow>
          fold (\<lambda>x m. case x of
              JObj kvs \<Rightarrow> (case json_get ''id'' kvs of JStr i \<Rightarrow> m(i \<mapsto> kvs) | _ \<Rightarrow> m)
            | _ \<Rightarrow> m) xs Map.empty
      | _ \<Rightarrow> Map.empty)"

definition size_given :: "(string \<times> json) list \<Rightarrow> string \<Rightarrow> bool" where
  "size_given data i = (case raw_actors data i of None \<Rightarrow> False | Some kvs \<Rightarrow> ''size'' \<in> set (map fst kvs))"

definition fill_size :: "(string \<times> json) list \<Rightarrow> actor \<Rightarrow> actor" where
  "fill_size data a = (if size_given data (ac_id a) then a else a\<lparr>ac_size := default_size a\<rparr>)"

definition load_scenario :: "((string \<times> json) list \<Rightarrow> fleet_error + scenario) \<Rightarrow> (string \<times> json) list
    \<Rightarrow> fleet_error + scenario" where
  "load_scenario validate data =
     rbind (validate data) (\<lambda>s. let s = ensure_lanes s
       in resolve_paths (s\<lparr>sc_actors := map (fill_size data) (sc_actors s)\<rparr>))"

section \<open>What a resolved scenario is\<close>

text \<open>A vehicle has a place when its lane, or its entry point into the grid, is given.\<close>

definition placed :: "road_world \<Rightarrow> actor \<Rightarrow> bool" where
  "placed w a \<longleftrightarrow> is_vehicle a \<and>
     (case wd_grid w of Some g \<Rightarrow> ac_start_x a \<noteq> None \<and> ac_start_y a \<noteq> None | None \<Rightarrow> ac_lane a \<noteq> None)"

definition path_ok :: "road_world \<Rightarrow> actor \<Rightarrow> bool" where
  "path_ok w a \<longleftrightarrow> ac_path a \<noteq> [] \<and>
     (case wd_grid w of
        Some g \<Rightarrow> length (ac_path a) \<le> 61 \<and> successively axis_aligned (ac_path a) \<and> truthy (ac_heading a)
      | None \<Rightarrow> length (ac_path a) \<le> 2 * length (ac_maneuvers a) + 2)"

lemma lane_waypoints_length: "length (lane_waypoints lanes a x0 d reach ms y) \<le> 2 * length ms + 1"
proof (induction ms arbitrary: y)
  case (Cons m ms)
  show ?case using Cons.IH by (auto simp: Let_def split: maneuver_kind.splits option.splits intro: le_SucI)
qed simp

lemma length_sort_maneuvers [simp]: "length (sort_maneuvers ms) = length ms"
proof -
  have "length (insert_maneuver m xs) = Suc (length xs)" for m xs by (induction xs) simp_all
  then show ?thesis by (induction ms) simp_all
qed

lemma lane_path_length: "lane_path w a i = Inr p \<Longrightarrow> p \<noteq> [] \<and> length p \<le> 2 * length (ac_maneuvers a) + 2"
  using lane_waypoints_length [of "wd_lanes w" a _ _ _ "sort_maneuvers (ac_maneuvers a)"]
  by (auto simp: lane_path_def rbind_Inr_iff Let_def split: if_splits)

lemma resolve_actor_same:
  assumes "resolve_actor w a = Inr b"
  shows "ac_id b = ac_id a \<and> ac_kind b = ac_kind a \<and> (placed w a \<longrightarrow> path_ok w b) \<and> placed w b = placed w a"
proof (cases "placed w a")
  case True
  show ?thesis
  proof (cases "wd_grid w")
    case None
    with True obtain i where i: "ac_lane a = Some i" "is_vehicle a" by (auto simp: placed_def)
    with assms None obtain p where "lane_path w a i = Inr p" "b = a\<lparr>ac_path := p\<rparr>"
      by (auto simp: resolve_actor_def rbind_Inr_iff)
    with lane_path_length True None i show ?thesis by (simp add: path_ok_def placed_def)
  next
    case (Some g)
    with True obtain x y where xy: "ac_start_x a = Some x" "ac_start_y a = Some y" "is_vehicle a" by (auto simp: placed_def)
    let ?h = "if truthy (ac_heading a) then or_empty (ac_heading a) else heading_for_point g x y"
    have h: "truthy (Some ?h)" using heading_nonempty by (simp add: truthy_def)
    from assms Some xy obtain p where p: "generate_grid_path x y ?h (ac_route a) g (wd_width w) (wd_height w) = Inr p"
      and b: "b = a\<lparr>ac_heading := Some ?h, ac_path := p\<rparr>"
      by (auto simp: resolve_actor_def Let_def rbind_Inr_iff)
    show ?thesis using grid_path_shape [OF p] h xy by (simp add: b path_ok_def placed_def Some)
  qed
next
  case False
  then have "b = a" using assms
    by (auto simp: resolve_actor_def placed_def split: option.splits if_splits)
  with False show ?thesis by simp
qed

lemma map_err_same:
  "map_err f xs = Inr ys \<Longrightarrow> (\<And>x y. f x = Inr y \<Longrightarrow> g y = g x) \<Longrightarrow> map g ys = map g xs"
  by (induction xs arbitrary: ys) (auto simp: rbind_Inr_iff)

lemma map_err_set: "map_err f xs = Inr ys \<Longrightarrow> y \<in> set ys \<Longrightarrow> \<exists>x \<in> set xs. f x = Inr y"
  by (induction xs arbitrary: ys) (auto simp: rbind_Inr_iff)

lemma resolve_paths_shape:
  assumes "resolve_paths s = Inr s'"
  shows "(wd_grid (sc_world s') = None \<longrightarrow> wd_lanes (sc_world s') \<noteq> []) \<and>
    map ac_id (sc_actors s') = map ac_id (sc_actors s) \<and> map ac_kind (sc_actors s') = map ac_kind (sc_actors s) \<and>
    (\<forall>a \<in> set (sc_actors s'). placed (sc_world s') a \<longrightarrow> path_ok (sc_world s') a) \<and> resolve_paths s' = Inr s'"
proof -
  let ?s = "ensure_lanes s"
  from assms obtain as where as: "map_err (resolve_actor (sc_world ?s)) (sc_actors ?s) = Inr as"
    and s': "s' = ?s\<lparr>sc_actors := as\<rparr>" by (auto simp: resolve_paths_def Let_def rbind_Inr_iff)
  have same: "sc_actors ?s = sc_actors s" by (simp add: ensure_lanes_def Let_def)
  have "map ac_id as = map ac_id (sc_actors s)" "map ac_kind as = map ac_kind (sc_actors s)"
    using map_err_same [OF as, of ac_id] map_err_same [OF as, of ac_kind] resolve_actor_same same by metis+
  moreover have "placed (sc_world ?s) a \<longrightarrow> path_ok (sc_world ?s) a" if "a \<in> set as" for a
    using map_err_set [OF as that] resolve_actor_same by blast
  moreover have "wd_grid (sc_world ?s) = None \<longrightarrow> wd_lanes (sc_world ?s) \<noteq> []"
    by (auto simp: ensure_lanes_def Let_def default_lanes_def)
  ultimately show ?thesis using resolve_paths_fixed [OF assms] by (simp add: s')
qed

section \<open>A grid never strands a vehicle\<close>

definition compass :: "string set" where
  "compass = {''E'', ''W'', ''S'', ''N''}"

lemma turn_compass: "h \<in> compass \<Longrightarrow> \<exists>h' \<in> compass. turn h t = Inr h'"
  by (auto simp: compass_def turn_def right_of_def left_of_def)

lemma delta_compass: "h \<in> compass \<Longrightarrow> \<exists>dx dy. delta h = Some (dx, dy)"
  by (auto simp: compass_def)

lemma guess_compass: "heading_for_point g x y \<in> compass"
  by (simp add: heading_for_point_def compass_def Let_def)

lemma grid_steps_total: "h \<in> compass \<Longrightarrow> \<exists>p. grid_steps n g width height lane h route cur wps = Inr p"
proof (induction n arbitrary: h route cur wps)
  case (Suc n)
  obtain dx dy where d: "delta h = Some (dx, dy)" using delta_compass [OF Suc.prems] by blast
  let ?t = "case route of [] \<Rightarrow> ''straight'' | r # _ \<Rightarrow> r"
  obtain nh where nh: "turn h ?t = Inr nh" "nh \<in> compass" using turn_compass [OF Suc.prems, of ?t] by blast
  have same: "\<exists>p. grid_steps n g width height lane h r c ws = Inr p" for r c ws by (rule Suc.IH [OF Suc.prems])
  have turned: "\<exists>p. grid_steps n g width height lane nh r c ws = Inr p" for r c ws by (rule Suc.IH [OF nh(2)])
  show ?case
  proof (cases "next_crossing (if horizontal h then v_roads g else h_roads g) (if horizontal h then fst cur else snd cur)
      (float_of_int (if horizontal h then dx else dy))")
    case None
    then show ?thesis using d by (simp add: Let_def)
  next
    case (Some nxt)
    show ?thesis
      by (cases "?t = ''straight''") (simp_all add: d Some nh(1) same turned Let_def del: delta.simps)
  qed
qed simp

lemma grid_path_total: "h \<in> compass \<Longrightarrow> \<exists>p. generate_grid_path sx sy h route g width height = Inr p"
  using grid_steps_total [of h] by (cases "h_roads g"; cases "v_roads g") (simp_all add: generate_grid_path_def nearest_def Let_def)

definition heading_known :: "actor \<Rightarrow> bool" where
  "heading_known a \<longleftrightarrow> \<not> truthy (ac_heading a) \<or> or_empty (ac_heading a) \<in> compass"

lemma resolve_actor_grid:
  assumes "wd_grid w = Some g" "heading_known a"
  shows "\<exists>b. resolve_actor w a = Inr b"
proof (cases "placed w a")
  case True
  then obtain x y where xy: "ac_start_x a = Some x" "ac_start_y a = Some y" "is_vehicle a"
    using assms(1) by (auto simp: placed_def)
  let ?h = "if truthy (ac_heading a) then or_empty (ac_heading a) else heading_for_point g x y"
  have "?h \<in> compass" using assms(2) guess_compass by (auto simp: heading_known_def)
  from grid_path_total [OF this] obtain p where "generate_grid_path x y ?h (ac_route a) g (wd_width w) (wd_height w) = Inr p"
    by blast
  then show ?thesis by (simp only: resolve_actor_def assms(1) xy option.case prod.case Let_def not_True_eq_False if_False rbind_simps sum.inject) blast
next
  case False
  then show ?thesis using assms(1) by (cases "ac_start_x a"; cases "ac_start_y a") (simp_all add: resolve_actor_def placed_def)
qed

lemma map_err_total: "(\<And>x. x \<in> set xs \<Longrightarrow> \<exists>y. f x = Inr y) \<Longrightarrow> \<exists>ys. map_err f xs = Inr ys"
  by (induction xs) force+

text \<open>
  Only an unknown heading can make a grid scenario fail to resolve; a heading that is guessed never does.
\<close>

lemma grid_resolves:
  assumes "wd_grid (sc_world s) = Some g" "list_all heading_known (sc_actors s)"
  shows "\<exists>s'. resolve_paths s = Inr s'"
proof -
  have same: "ensure_lanes s = s" using assms(1) by (simp add: ensure_lanes_def)
  obtain as where "map_err (resolve_actor (sc_world s)) (sc_actors s) = Inr as"
    using map_err_total [of "sc_actors s" "resolve_actor (sc_world s)"] resolve_actor_grid [OF assms(1)] assms(2)
    by (auto simp: list_all_iff)
  then show ?thesis by (simp add: resolve_paths_def same)
qed

section \<open>Default roads\<close>

text \<open>
  On the default road every lane index that Python accepts is a lane, and its direction is a float: a scenario
  without lanes of its own always resolves.
\<close>

definition on_default_road :: "scenario \<Rightarrow> bool" where
  "on_default_road s \<longleftrightarrow> wd_grid (sc_world s) = None \<and> wd_lanes (sc_world s) = [] \<and>
     list_all (\<lambda>a. case ac_lane a of None \<Rightarrow> True | Some i \<Rightarrow> 0 \<le> i \<and> i < 4) (sc_actors s)"

lemma default_directions: "l \<in> set (default_lanes h w) \<Longrightarrow> ln_direction l = 1 \<or> ln_direction l = - 1"
  by (auto simp: default_lanes_def Let_def)

lemma unit_floats: "int_to_float 1 = Inr (Fin 1)" "int_to_float (- 1) = Inr (Fin (- 1))"
  by code_simp+

lemma lane_path_total:
  assumes "wd_lanes w = default_lanes h lw" "0 \<le> i" "i < 4"
  shows "\<exists>p. lane_path w a i = Inr p"
proof -
  have len: "length (wd_lanes w) = 4" by (simp add: assms(1) default_lanes_def Let_def)
  then have "wd_lanes w ! nat i \<in> set (default_lanes h lw)" using assms by (metis nat_less_iff nth_mem of_nat_numeral)
  then have "ln_direction (wd_lanes w ! nat i) = 1 \<or> ln_direction (wd_lanes w ! nat i) = - 1" by (rule default_directions)
  then show ?thesis using assms(2,3) len unit_floats by (auto simp: lane_path_def py_index_def Let_def)
qed

lemma road_resolves:
  assumes "on_default_road s"
  shows "\<exists>s'. resolve_paths s = Inr s'"
proof -
  let ?w = "sc_world (ensure_lanes s)"
  have w: "wd_lanes ?w = default_lanes (wd_height (sc_world s)) (wd_lane_width (sc_world s))" "wd_grid ?w = None"
    "sc_actors (ensure_lanes s) = sc_actors s"
    using assms by (simp_all add: on_default_road_def ensure_lanes_def Let_def)
  have "\<exists>b. resolve_actor ?w a = Inr b" if "a \<in> set (sc_actors s)" for a
  proof (cases "ac_lane a")
    case (Some i)
    then have "0 \<le> i" "i < 4" using assms that by (auto simp: on_default_road_def list_all_iff)
    from lane_path_total [OF w(1) this, of a] obtain p where "lane_path ?w a i = Inr p" by blast
    with Some show ?thesis by (simp add: resolve_actor_def w(2))
  qed (simp add: resolve_actor_def w(2))
  then obtain as where "map_err (resolve_actor ?w) (sc_actors s) = Inr as" using map_err_total by blast
  then show ?thesis by (simp add: resolve_paths_def w(3) Let_def)
qed

lemma roads_resolve:
  "\<exists>s. example_blank = Inr s" "\<exists>s. example_fog_pedestrian = Inr s" "\<exists>s. example_highway_chain = Inr s"
  unfolding example_blank_def example_fog_pedestrian_def example_highway_chain_def
  by (rule road_resolves, simp add: on_default_road_def new_scenario_def new_world_def new_actor_def)+

text \<open>
  C40: what \<open>resolve_paths\<close> returns is a scenario the engine can run. It has lanes unless it is a grid; its actors
  are those of the input in their order, with their ids and kinds; every vehicle that has a place has a path, of at
  most two points per maneuver and two more on lanes, axis-parallel and of at most 61 points on a grid; and resolving it
  again, as the engine does, changes nothing.
\<close>

theorem resolve_paths_wellformed:
  assumes "resolve_paths s = Inr s'"
  shows "(wd_grid (sc_world s') = None \<longrightarrow> wd_lanes (sc_world s') \<noteq> []) \<and>
    map ac_id (sc_actors s') = map ac_id (sc_actors s) \<and> map ac_kind (sc_actors s') = map ac_kind (sc_actors s) \<and>
    (\<forall>a \<in> set (sc_actors s'). placed (sc_world s') a \<longrightarrow> path_ok (sc_world s') a) \<and> resolve_paths s' = Inr s'"
  using resolve_paths_shape [OF assms] .

theorem resolve_paths_wellformed_witness:
  "\<exists>s s'. get_scenario ''highway-stalled-car'' = Inr s \<and> resolve_paths s = Inr s' \<and> resolve_paths s' = Inr s' \<and>
     map ac_id (sc_actors s') = map ac_id (sc_actors s)"
proof -
  have fetch: "get_scenario ''highway-stalled-car'' = example_highway_chain" by (simp add: get_scenario_def scenarios_def)
  obtain s where s: "example_highway_chain = Inr s"
    using roads_resolve(3) by (simp only: example_highway_chain_def) blast
  then have s': "resolve_paths s = Inr s" using resolve_paths_fixed by (simp only: example_highway_chain_def)
  show ?thesis using resolve_paths_wellformed [OF s'] by (intro exI [of _ s] conjI) (simp_all add: s s' fetch)
qed

section \<open>The catalogue\<close>

definition playable :: "fleet_error + scenario \<Rightarrow> bool" where
  "playable r =
     (case rbind r resolve_paths of
        Inl e \<Rightarrow> False
      | Inr s \<Rightarrow> distinct (map ac_id (sc_actors s)) \<and> list_all (placed (sc_world s)) (filter is_vehicle (sc_actors s)))"

lemma playable_resolved:
  assumes s': "resolve_paths s = Inr s'" and ids: "distinct (map ac_id (sc_actors s))"
    and placed: "list_all (placed (sc_world (ensure_lanes s))) (filter is_vehicle (sc_actors s))"
  shows "playable (Inr s')"
proof -
  let ?w = "sc_world (ensure_lanes s)"
  have same: "sc_actors (ensure_lanes s) = sc_actors s" by (simp add: ensure_lanes_def Let_def)
  from s' obtain as where as: "map_err (resolve_actor ?w) (sc_actors s) = Inr as" "s' = (ensure_lanes s)\<lparr>sc_actors := as\<rparr>"
    by (auto simp: resolve_paths_def rbind_Inr_iff Let_def same)
  have "placed ?w b" if "b \<in> set as" "is_vehicle b" for b
  proof -
    obtain a where a: "a \<in> set (sc_actors s)" "resolve_actor ?w a = Inr b" using map_err_set [OF as(1) \<open>b \<in> set as\<close>] by blast
    have "is_vehicle a" using resolve_actor_same [OF a(2)] that(2) by (simp add: is_vehicle_def)
    then show ?thesis using resolve_actor_same [OF a(2)] placed a(1) by (auto simp: list_all_iff)
  qed
  then show ?thesis using resolve_paths_shape [OF s'] ids as(2) by (auto simp: playable_def list_all_iff)
qed

lemma playable_once: "resolve_paths s = Inr s' \<Longrightarrow> playable (Inr s') = playable (Inr s)"
  by (simp add: playable_def resolve_paths_fixed)

lemma playable_grid:
  assumes "wd_grid (sc_world s) = Some g" "list_all heading_known (sc_actors s)" "distinct (map ac_id (sc_actors s))"
    and "list_all (placed (sc_world s)) (filter is_vehicle (sc_actors s))"
  shows "playable (Inr s)"
proof -
  obtain s' where s': "resolve_paths s = Inr s'" using grid_resolves [OF assms(1,2)] by blast
  have "ensure_lanes s = s" using assms(1) by (simp add: ensure_lanes_def)
  then have "playable (Inr s')" using assms(4) by (intro playable_resolved [OF s' assms(3)]) simp
  then show ?thesis by (simp only: playable_once [OF s'])
qed

lemma playable_road:
  assumes "on_default_road s" "distinct (map ac_id (sc_actors s))"
    and "list_all (\<lambda>a. ac_lane a \<noteq> None) (filter is_vehicle (sc_actors s))"
  shows "playable (resolve_paths s)"
proof -
  obtain s' where s': "resolve_paths s = Inr s'" using road_resolves [OF assms(1)] by blast
  have "wd_grid (sc_world (ensure_lanes s)) = None" using assms(1) by (simp add: on_default_road_def ensure_lanes_def Let_def)
  then have "playable (Inr s')" using assms(3)
    by (intro playable_resolved [OF s' assms(2)]) (simp add: placed_def list_all_iff)
  then show ?thesis by (simp add: s')
qed

lemma resolved_lanes: "resolve_paths s = Inr s' \<Longrightarrow> ensure_lanes s' = s'"
  by (auto simp: resolve_paths_def rbind_Inr_iff ensure_lanes_def default_lanes_def Let_def split: if_splits)

lemma playable_relabel:
  assumes "playable (Inr s)" and s: "resolve_paths s = Inr s"
  shows "playable (resolve_paths (s\<lparr>sc_name := n, sc_description := d, sc_events := evs\<rparr>))"
proof -
  let ?s = "s\<lparr>sc_name := n, sc_description := d, sc_events := evs\<rparr>"
  have lanes: "ensure_lanes s = s" by (rule resolved_lanes [OF s])
  then have "ensure_lanes ?s = ?s" by (cases s) (auto simp: ensure_lanes_def Let_def split: if_splits)
  moreover from s obtain as where as: "map_err (resolve_actor (sc_world s)) (sc_actors s) = Inr as" "s\<lparr>sc_actors := as\<rparr> = s"
    by (auto simp: resolve_paths_def rbind_Inr_iff Let_def lanes)
  moreover have "as = sc_actors s" using arg_cong [OF as(2), of sc_actors] by simp
  ultimately have "resolve_paths ?s = Inr ?s" by (simp add: resolve_paths_def)
  then show ?thesis using assms by (simp add: playable_def)
qed

lemma grids_playable: "playable example_grid_intersection" "playable example_grid_2x2" "playable example_grid_downtown"
  unfolding example_grid_intersection_def example_grid_2x2_def example_grid_downtown_def
  by (rule playable_grid, simp, simp_all add: heading_known_def compass_def truthy_def placed_def is_vehicle_def grid_car_def new_actor_def new_scenario_def)+

lemma roads_playable: "playable example_blank" "playable example_fog_pedestrian" "playable example_highway_chain"
  unfolding example_blank_def example_fog_pedestrian_def example_highway_chain_def
  by (rule playable_road, simp_all add: on_default_road_def new_scenario_def new_world_def new_actor_def is_vehicle_def)+

lemma jammer_playable: "playable example_jammer_attack"
proof -
  obtain s where s: "example_fog_pedestrian = Inr s" using roads_resolve(2) by blast
  then have "resolve_paths s = Inr s" using resolve_paths_fixed by (simp only: example_fog_pedestrian_def)
  then show ?thesis using playable_relabel roads_playable(2) by (simp add: example_jammer_attack_def s)
qed

text \<open>
  Every scenario the catalogue offers can be fetched by its id and resolves, its actors have distinct ids and
  each of its vehicles has a place, so that it gets a path.
\<close>

theorem catalogue_is_playable: "list_all (\<lambda>entry. playable (get_scenario (fst entry))) scenario_catalog"
  using grids_playable roads_playable jammer_playable by (simp add: scenario_catalog_def scenarios_def get_scenario_def)

end
