(* ===== verification/MeshGuard.thy ===== *)
theory MeshGuard
  imports Envelope
begin

text \<open>
  \<open>mesh/__init__.py\<close> and the mesh part of \<open>state/repositories.py\<close>: the meshes a node belongs to,
  their members, and the decision whether an authenticated message may enter. Tables are in creation order;
  the columns \<open>created_at\<close>, \<open>updated_at\<close> and \<open>added_at\<close> are that order.
\<close>

section \<open>Rows\<close>

record mesh_row =
  mh_id :: string
  mh_display_name :: string
  mh_authority_type :: string
  mh_authority_id :: string
  mh_owner_node_id :: "string option"
  mh_policy_version :: int
  mh_scopes :: "string list"
  mh_revoked :: bool
  mh_synced :: bool

record member_row =
  mm_mesh_id :: string
  mm_node_id :: string
  mm_display_name :: "string option"
  mm_public_key :: "string option"
  mm_fingerprint :: "string option"
  mm_role :: string
  mm_scopes :: "string list"
  mm_is_self :: bool
  mm_revoked :: bool

record mesh_db =
  md_meshes :: "mesh_row list"
  md_members :: "member_row list"

definition member_role :: string where "member_role = ''member''"
definition default_mesh_scopes :: "string list" where
  "default_mesh_scopes = [''message'', ''mission'', ''artifact'', ''status'']"

section \<open>The mesh repository\<close>

definition create_mesh :: "string \<Rightarrow> string \<Rightarrow> string \<Rightarrow> string \<Rightarrow> string option \<Rightarrow> string list \<Rightarrow> bool \<Rightarrow> mesh_db \<Rightarrow> mesh_db" where
  "create_mesh mid name auth_type auth owner scopes synced db =
     db\<lparr>md_meshes := md_meshes db @ [\<lparr>mh_id = mid, mh_display_name = name, mh_authority_type = auth_type,
       mh_authority_id = auth, mh_owner_node_id = owner, mh_policy_version = 1, mh_scopes = scopes,
       mh_revoked = False, mh_synced = synced\<rparr>]\<rparr>"

definition get_mesh :: "mesh_db \<Rightarrow> string \<Rightarrow> mesh_row option" where
  "get_mesh db mid = tbl_get mh_id (md_meshes db) mid"

definition list_meshes :: "bool \<Rightarrow> mesh_db \<Rightarrow> mesh_row list" where
  "list_meshes include_revoked db = filter (\<lambda>m. include_revoked \<or> \<not> mh_revoked m) (md_meshes db)"

definition update_mesh :: "string \<Rightarrow> (mesh_row \<Rightarrow> mesh_row) \<Rightarrow> mesh_db \<Rightarrow> mesh_db" where
  "update_mesh mid chg db = db\<lparr>md_meshes := tbl_upd mh_id mid chg (md_meshes db)\<rparr>"

definition revoke_mesh :: "string \<Rightarrow> mesh_db \<Rightarrow> mesh_db" where
  "revoke_mesh mid db = update_mesh mid (mh_revoked_update (\<lambda>_. True)) db"

definition member_key :: "member_row \<Rightarrow> string \<times> string" where
  "member_key m = (mm_mesh_id m, mm_node_id m)"

definition get_member :: "mesh_db \<Rightarrow> string \<Rightarrow> string \<Rightarrow> member_row option" where
  "get_member db mid nid = tbl_get member_key (md_members db) (mid, nid)"

definition list_members :: "mesh_db \<Rightarrow> string \<Rightarrow> member_row list" where
  "list_members db mid = filter (\<lambda>m. mm_mesh_id m = mid) (md_members db)"

definition or_keep :: "'a option \<Rightarrow> 'a option \<Rightarrow> 'a option" where
  "or_keep new old = (case new of None \<Rightarrow> old | Some x \<Rightarrow> Some x)"

definition refresh_member :: "string option \<Rightarrow> string option \<Rightarrow> string option \<Rightarrow> string \<Rightarrow> string list option \<Rightarrow> bool
    \<Rightarrow> member_row \<Rightarrow> member_row" where
  "refresh_member key fp name role scopes is_self m =
     m\<lparr>mm_public_key := or_keep key (mm_public_key m), mm_fingerprint := or_keep fp (mm_fingerprint m),
       mm_display_name := or_keep name (mm_display_name m), mm_role := role,
       mm_scopes := (case scopes of None \<Rightarrow> mm_scopes m | Some xs \<Rightarrow> xs),
       mm_is_self := (is_self \<or> mm_is_self m), mm_revoked := False\<rparr>"

definition new_member :: "string \<Rightarrow> string \<Rightarrow> bool \<Rightarrow> member_row" where
  "new_member mid nid is_self =
     \<lparr>mm_mesh_id = mid, mm_node_id = nid, mm_display_name = None, mm_public_key = None, mm_fingerprint = None,
      mm_role = member_role, mm_scopes = [], mm_is_self = is_self, mm_revoked = False\<rparr>"

definition upsert_member :: "string \<Rightarrow> string \<Rightarrow> string option \<Rightarrow> string option \<Rightarrow> string option \<Rightarrow> string
    \<Rightarrow> string list option \<Rightarrow> bool \<Rightarrow> mesh_db \<Rightarrow> mesh_db" where
  "upsert_member mid nid key fp name role scopes is_self db =
     (let rows = (case get_member db mid nid of
                    None \<Rightarrow> md_members db @ [new_member mid nid is_self] | Some _ \<Rightarrow> md_members db)
      in db\<lparr>md_members := tbl_upd member_key (mid, nid) (refresh_member key fp name role scopes is_self) rows\<rparr>)"

definition revoke_member :: "string \<Rightarrow> string \<Rightarrow> mesh_db \<Rightarrow> mesh_db" where
  "revoke_member mid nid db =
     db\<lparr>md_members := tbl_upd member_key (mid, nid) (mm_revoked_update (\<lambda>_. True)) (md_members db)\<rparr>"

section \<open>Views\<close>

record member_view =
  mv_node_id :: string
  mv_fingerprint :: "string option"
  mv_role :: string
  mv_scopes :: "string list"
  mv_revoked :: bool

record mesh_view =
  vw_mesh_id :: string
  vw_display_name :: string
  vw_authority_type :: string
  vw_authority_id :: string
  vw_policy_version :: int
  vw_scopes :: "string list"
  vw_revoked :: bool
  vw_members :: "member_view list"

definition member_view_of :: "member_row \<Rightarrow> member_view" where
  "member_view_of m = \<lparr>mv_node_id = mm_node_id m, mv_fingerprint = mm_fingerprint m, mv_role = mm_role m,
     mv_scopes = mm_scopes m, mv_revoked = mm_revoked m\<rparr>"

definition mesh_view_of :: "mesh_db \<Rightarrow> mesh_row \<Rightarrow> mesh_view" where
  "mesh_view_of db m = \<lparr>vw_mesh_id = mh_id m, vw_display_name = mh_display_name m,
     vw_authority_type = mh_authority_type m, vw_authority_id = mh_authority_id m, vw_policy_version = mh_policy_version m,
     vw_scopes = (if mh_scopes m = [] then default_mesh_scopes else mh_scopes m), vw_revoked = mh_revoked m,
     vw_members = map member_view_of (list_members db (mh_id m))\<rparr>"

definition mesh_views :: "mesh_db \<Rightarrow> mesh_view list" where
  "mesh_views db = map (mesh_view_of db) (list_meshes False db)"

lemma mesh_view_of_simps [simp]:
  "vw_mesh_id (mesh_view_of db m) = mh_id m" "vw_authority_id (mesh_view_of db m) = mh_authority_id m"
  "vw_revoked (mesh_view_of db m) = mh_revoked m"
  "vw_scopes (mesh_view_of db m) = (if mh_scopes m = [] then default_mesh_scopes else mh_scopes m)"
  "vw_members (mesh_view_of db m) = map member_view_of (list_members db (mh_id m))"
  by (simp_all add: mesh_view_of_def)

definition view_member :: "mesh_view \<Rightarrow> string \<Rightarrow> member_view option" where
  "view_member v nid = find (\<lambda>m. mv_node_id m = nid) (vw_members v)"

definition effective_scopes :: "mesh_view \<Rightarrow> member_view \<Rightarrow> string set" where
  "effective_scopes v m = set (if mv_scopes m = [] then vw_scopes v else mv_scopes m)"

section \<open>The ingress decision\<close>

datatype mesh_reason =
    Bilateral_trust | No_mesh_named | Unknown_mesh | Mesh_revoked | Foreign_authority | Not_a_member_here
  | Sender_not_member | Sender_revoked | Sender_key_differs | Scope_missing string | Shared_mesh

definition mesh_allowed :: "mesh_reason \<Rightarrow> bool" where
  "mesh_allowed r \<longleftrightarrow> r = Bilateral_trust \<or> r = Shared_mesh"

record mesh_claim =
  mc_sender :: string
  mc_fingerprint :: "string option"
  mc_mesh_id :: "string option"
  mc_authority_id :: "string option"

definition evaluate_mesh_ingress :: "string \<Rightarrow> mesh_claim \<Rightarrow> mesh_view list \<Rightarrow> string option \<Rightarrow> mesh_reason" where
  "evaluate_mesh_ingress local claim meshes required_scope =
     (if meshes = [] then Bilateral_trust
      else if \<not> truthy (mc_mesh_id claim) then No_mesh_named
      else case find (\<lambda>m. vw_mesh_id m = or_empty (mc_mesh_id claim)) meshes of
             None \<Rightarrow> Unknown_mesh
           | Some mesh \<Rightarrow>
               (if vw_revoked mesh then Mesh_revoked
                else if mc_authority_id claim \<noteq> None \<and> mc_authority_id claim \<noteq> Some (vw_authority_id mesh)
                then Foreign_authority
                else if (case view_member mesh local of None \<Rightarrow> True | Some m \<Rightarrow> mv_revoked m) then Not_a_member_here
                else case view_member mesh (mc_sender claim) of
                       None \<Rightarrow> Sender_not_member
                     | Some m \<Rightarrow>
                         (if mv_revoked m then Sender_revoked
                          else if truthy (mv_fingerprint m) \<and> truthy (mc_fingerprint claim)
                                  \<and> mv_fingerprint m \<noteq> mc_fingerprint claim then Sender_key_differs
                          else case required_scope of
                                 Some sc \<Rightarrow> if sc \<in> effective_scopes mesh m then Shared_mesh else Scope_missing sc
                               | None \<Rightarrow> Shared_mesh)))"

lemma evaluate_bilateral: "evaluate_mesh_ingress local claim meshes sc = Bilateral_trust \<longleftrightarrow> meshes = []"
  by (simp add: evaluate_mesh_ingress_def split: option.split)

lemma evaluate_shared:
  "evaluate_mesh_ingress local claim meshes sc = Shared_mesh \<longleftrightarrow>
     meshes \<noteq> [] \<and> truthy (mc_mesh_id claim) \<and>
     (case find (\<lambda>m. vw_mesh_id m = or_empty (mc_mesh_id claim)) meshes of None \<Rightarrow> False
      | Some mesh \<Rightarrow>
          \<not> vw_revoked mesh \<and> (mc_authority_id claim = None \<or> mc_authority_id claim = Some (vw_authority_id mesh)) \<and>
          (case view_member mesh local of None \<Rightarrow> False | Some me \<Rightarrow> \<not> mv_revoked me) \<and>
          (case view_member mesh (mc_sender claim) of None \<Rightarrow> False
           | Some m \<Rightarrow> \<not> mv_revoked m \<and>
               (truthy (mv_fingerprint m) \<and> truthy (mc_fingerprint claim) \<longrightarrow> mv_fingerprint m = mc_fingerprint claim) \<and>
               (case sc of None \<Rightarrow> True | Some x \<Rightarrow> x \<in> effective_scopes mesh m)))"
  by (cases "find (\<lambda>m. vw_mesh_id m = or_empty (mc_mesh_id claim)) meshes")
     (auto simp: evaluate_mesh_ingress_def split: option.split)

section \<open>Isolation\<close>

text \<open>A row of the store that makes a node a current member of a mesh.\<close>

definition current_member :: "mesh_db \<Rightarrow> string \<Rightarrow> string \<Rightarrow> member_row \<Rightarrow> bool" where
  "current_member db mid nid m \<longleftrightarrow>
     m \<in> set (md_members db) \<and> mm_mesh_id m = mid \<and> mm_node_id m = nid \<and> \<not> mm_revoked m"

definition members_unique :: "mesh_db \<Rightarrow> bool" where
  "members_unique db \<longleftrightarrow> distinct (map member_key (md_members db)) \<and> distinct (map mh_id (md_meshes db))"

lemma found_SomeD: "find P xs = Some x \<Longrightarrow> x \<in> set xs \<and> P x"
  by (auto simp: find_Some_iff)

lemma find_mapped:
  "distinct (map k xs) \<Longrightarrow> x \<in> set xs \<Longrightarrow> (\<And>y. kk (f y) = k y) \<Longrightarrow> find (\<lambda>v. kk v = k x) (map f xs) = Some (f x)"
  by (induction xs) (auto simp: rev_image_eqI)

lemma views_member:
  assumes "view_member v nid = Some m" "v \<in> set (mesh_views db)"
  shows "\<exists>row \<in> set (md_members db). mm_mesh_id row = vw_mesh_id v \<and> mm_node_id row = nid \<and> m = member_view_of row"
proof -
  have "m \<in> set (vw_members v)" "mv_node_id m = nid" using found_SomeD [OF assms(1) [unfolded view_member_def]] by simp_all
  moreover obtain r where "vw_members v = map member_view_of (list_members db (vw_mesh_id v))"
    using assms(2) by (auto simp: mesh_views_def)
  ultimately obtain row where "row \<in> set (list_members db (vw_mesh_id v))" "m = member_view_of row" "mv_node_id m = nid" by auto
  then show ?thesis by (intro bexI [of _ row]) (auto simp: list_members_def member_view_of_def)
qed

text \<open>
  What the mesh guard lets in. Once a node has a mesh, a message enters only if it names, under the authority of
  that mesh if it names one, a mesh the node keeps and has not revoked, of which the node and the sender
  are both current members, the sender under the key it signed with, and with the scope asked for; and every
  such message enters. No word of the sender is used but the names it gives.
\<close>

definition admits :: "mesh_db \<Rightarrow> string \<Rightarrow> mesh_claim \<Rightarrow> string option \<Rightarrow> mesh_row \<Rightarrow> member_row \<Rightarrow> bool" where
  "admits db local claim required_scope mesh them \<longleftrightarrow>
     \<not> mh_revoked mesh \<and> mh_id mesh \<noteq> [] \<and> mc_mesh_id claim = Some (mh_id mesh) \<and>
     (mc_authority_id claim = None \<or> mc_authority_id claim = Some (mh_authority_id mesh)) \<and>
     current_member db (mh_id mesh) (mc_sender claim) them \<and>
     (truthy (mm_fingerprint them) \<and> truthy (mc_fingerprint claim) \<longrightarrow> mm_fingerprint them = mc_fingerprint claim) \<and>
     (case required_scope of None \<Rightarrow> True | Some sc \<Rightarrow>
        sc \<in> set (if mm_scopes them \<noteq> [] then mm_scopes them
                  else if mh_scopes mesh \<noteq> [] then mh_scopes mesh else default_mesh_scopes))"

definition shares_mesh :: "mesh_db \<Rightarrow> string \<Rightarrow> mesh_claim \<Rightarrow> string option \<Rightarrow> bool" where
  "shares_mesh db local claim required_scope \<longleftrightarrow>
     (\<exists>mesh \<in> set (md_meshes db). \<exists>me them.
        current_member db (mh_id mesh) local me \<and> admits db local claim required_scope mesh them)"

lemma shares_meshI:
  assumes "mesh \<in> set (mesh_views db)" "vw_mesh_id mesh = or_empty (mc_mesh_id claim)" "truthy (mc_mesh_id claim)"
    and "evaluate_mesh_ingress local claim (mesh_views db) sc = Shared_mesh"
    and "find (\<lambda>m. vw_mesh_id m = or_empty (mc_mesh_id claim)) (mesh_views db) = Some mesh"
  shows "shares_mesh db local claim sc"
proof -
  from assms(4,3,5) obtain me them where eval: "mc_authority_id claim = None \<or> mc_authority_id claim = Some (vw_authority_id mesh)"
    and me: "view_member mesh local = Some me" "\<not> mv_revoked me"
    and them: "view_member mesh (mc_sender claim) = Some them" "\<not> mv_revoked them"
    and fp: "truthy (mv_fingerprint them) \<and> truthy (mc_fingerprint claim) \<longrightarrow> mv_fingerprint them = mc_fingerprint claim"
    and scope: "case sc of None \<Rightarrow> True | Some s \<Rightarrow> s \<in> effective_scopes mesh them"
    by (auto simp: evaluate_shared split: option.splits)
  obtain row where row: "row \<in> set (md_meshes db)" "\<not> mh_revoked row" "vw_mesh_id mesh = mh_id row"
      "vw_authority_id mesh = mh_authority_id row" "vw_scopes mesh = (if mh_scopes row = [] then default_mesh_scopes else mh_scopes row)"
    using assms(1) by (auto simp: mesh_views_def list_meshes_def)
  obtain r1 where r1: "r1 \<in> set (md_members db)" "mm_mesh_id r1 = mh_id row" "mm_node_id r1 = local" "me = member_view_of r1"
    using views_member [OF me(1) assms(1)] row(3) by auto
  obtain r2 where r2: "r2 \<in> set (md_members db)" "mm_mesh_id r2 = mh_id row" "mm_node_id r2 = mc_sender claim" "them = member_view_of r2"
    using views_member [OF them(1) assms(1)] row(3) by auto
  have id: "mc_mesh_id claim = Some (mh_id row)" "mh_id row \<noteq> []"
    using assms(2,3) row(3) by (cases "mc_mesh_id claim"; simp add: truthy_def)+
  have "current_member db (mh_id row) local r1" using r1 me(2) by (simp add: current_member_def member_view_of_def)
  moreover have "current_member db (mh_id row) (mc_sender claim) r2"
    using r2 them(2) by (simp add: current_member_def member_view_of_def)
  then have "admits db local claim sc row r2"
    using eval id row fp scope r2(4)
    by (auto simp: admits_def effective_scopes_def member_view_of_def split: option.splits if_splits)
  ultimately show ?thesis using row(1) by (auto simp: shares_mesh_def)
qed

lemma view_of_member:
  assumes "members_unique db" "current_member db (vw_mesh_id v) nid row" "v \<in> set (mesh_views db)"
  shows "view_member v nid = Some (member_view_of row)"
proof -
  have rows: "distinct (map mm_node_id (list_members db (vw_mesh_id v)))"
  proof -
    have "distinct (map member_key (list_members db (vw_mesh_id v)))"
      using assms(1) by (simp add: members_unique_def list_members_def distinct_map_filter)
    then show ?thesis by (simp add: distinct_map inj_on_def member_key_def list_members_def)
  qed
  have "vw_members v = map member_view_of (list_members db (vw_mesh_id v))" using assms(3) by (auto simp: mesh_views_def)
  moreover have "row \<in> set (list_members db (vw_mesh_id v))" "mm_node_id row = nid"
    using assms(2) by (simp_all add: current_member_def list_members_def)
  ultimately show ?thesis
    using find_mapped [OF rows, of row mv_node_id member_view_of] by (simp add: view_member_def member_view_of_def)
qed

lemma mesh_guard_spec:
  assumes "members_unique db" "list_meshes False db \<noteq> []"
  shows "mesh_allowed (evaluate_mesh_ingress local claim (mesh_views db) sc) \<longleftrightarrow> shares_mesh db local claim sc"
proof
  have some: "mesh_views db \<noteq> []" using assms(2) by (simp add: mesh_views_def)
  assume "mesh_allowed (evaluate_mesh_ingress local claim (mesh_views db) sc)"
  then have e: "evaluate_mesh_ingress local claim (mesh_views db) sc = Shared_mesh"
    using some evaluate_bilateral by (auto simp: mesh_allowed_def)
  then obtain mesh where m: "find (\<lambda>m. vw_mesh_id m = or_empty (mc_mesh_id claim)) (mesh_views db) = Some mesh" "truthy (mc_mesh_id claim)"
    by (auto simp: evaluate_shared split: option.splits)
  show "shares_mesh db local claim sc" using shares_meshI [OF _ _ m(2) e m(1)] found_SomeD [OF m(1)] by auto
next
  have some: "mesh_views db \<noteq> []" using assms(2) by (simp add: mesh_views_def)
  assume "shares_mesh db local claim sc"
  then obtain row r1 r2 where row: "row \<in> set (md_meshes db)" and r1: "current_member db (mh_id row) local r1"
    and adm: "admits db local claim sc row r2"
    unfolding shares_mesh_def by blast
  have r2: "current_member db (mh_id row) (mc_sender claim) r2" and live: "\<not> mh_revoked row" "mh_id row \<noteq> []"
    and named: "mc_mesh_id claim = Some (mh_id row)" "mc_authority_id claim = None \<or> mc_authority_id claim = Some (mh_authority_id row)"
    using adm by (simp_all add: admits_def)
  have d: "distinct (map mh_id (list_meshes False db))"
    using assms(1) by (simp add: members_unique_def list_meshes_def distinct_map_filter)
  have in_list: "row \<in> set (list_meshes False db)" using row live(1) by (simp add: list_meshes_def)
  have f: "find (\<lambda>m. vw_mesh_id m = mh_id row) (mesh_views db) = Some (mesh_view_of db row)"
    unfolding mesh_views_def by (rule find_mapped [OF d in_list]) simp
  have v: "mesh_view_of db row \<in> set (mesh_views db)" using in_list by (simp add: mesh_views_def)
  have "view_member (mesh_view_of db row) local = Some (member_view_of r1)" "view_member (mesh_view_of db row) (mc_sender claim) = Some (member_view_of r2)"
    using view_of_member [OF assms(1) _ v] r1 r2 by simp_all
  moreover have "\<not> mm_revoked r1" "\<not> mm_revoked r2" using r1 r2 by (simp_all add: current_member_def)
  moreover have "truthy (mc_mesh_id claim)" using named(1) live(2) by (simp add: truthy_def)
  ultimately have "evaluate_mesh_ingress local claim (mesh_views db) sc = Shared_mesh"
    using some named f live(1) adm
    by (auto simp: evaluate_shared member_view_of_def effective_scopes_def admits_def split: option.splits)
  then show "mesh_allowed (evaluate_mesh_ingress local claim (mesh_views db) sc)" by (simp add: mesh_allowed_def)
qed

end
