(* ===== verification/TransportWire.thy ===== *)
theory TransportWire
  imports Envelope Binary64
begin

text \<open>
  What two nodes exchange besides envelopes: signed acknowledgements (\<open>transport/ack.py\<close>), signed capability
  manifests (\<open>manifest.py\<close>), key fingerprints (\<open>identity.py\<close>), and the outcome of one HTTP request
  (\<open>http_transport.py\<close>) with the errors of \<open>errors.py\<close>. The clock, \<open>uuid4\<close> and the signature
  scheme are parameters; \<open>fr\<close> is the float \<open>repr\<close>. The texts of errors are left out.
\<close>

section \<open>Key fingerprints\<close>

text \<open>
  \<open>base64.b64decode\<close> without validation: characters outside the alphabet are skipped, a pad that completes a
  group ends the input, a group left open raises. \<open>q\<close> counts the data characters of the open group and \<open>left\<close>
  holds its unused bits; \<open>pads\<close> counts the pads since the last data character.
\<close>

definition b64_value :: "char \<Rightarrow> nat option" where
  "b64_value c = (let n = (of_char c :: nat) in
     if 65 \<le> n \<and> n \<le> 90 then Some (n - 65) else if 97 \<le> n \<and> n \<le> 122 then Some (n - 71)
     else if 48 \<le> n \<and> n \<le> 57 then Some (n + 4) else if n = 43 then Some 62 else if n = 47 then Some 63 else None)"

fun b64_scan :: "nat \<Rightarrow> nat \<Rightarrow> nat \<Rightarrow> string \<Rightarrow> nat list option" where
  "b64_scan q left pads [] = (if q = 0 then Some [] else None)"
| "b64_scan q left pads (c # cs) =
     (if c = CHR ''='' then
        (if 2 \<le> q \<and> 4 \<le> q + Suc pads then Some [] else b64_scan q left (if 2 \<le> q then Suc pads else pads) cs)
      else case b64_value c of
             None \<Rightarrow> b64_scan q left pads cs
           | Some v \<Rightarrow>
               (if q = 0 then b64_scan 1 v 0 cs
                else if q = 1 then map_option (Cons (left * 4 + v div 16)) (b64_scan 2 (v mod 16) 0 cs)
                else if q = 2 then map_option (Cons (left * 16 + v div 4)) (b64_scan 3 (v mod 4) 0 cs)
                else map_option (Cons (left * 64 + v)) (b64_scan 0 0 0 cs)))"

definition b64_decode :: "string \<Rightarrow> bytes option" where
  "b64_decode s = (if list_all (\<lambda>c. (of_char c :: nat) < 128) s then map_option (map word_of_nat) (b64_scan 0 0 0 s) else None)"

definition fingerprint_for_public_key :: "string \<Rightarrow> string option" where
  "fingerprint_for_public_key key = map_option (\<lambda>raw. ''sha256:'' @ to_hex (sha256 raw)) (b64_decode key)"

section \<open>Errors\<close>

datatype transport_code =
    TcIdentityMissing | TcMalformedEnvelope | TcBadKind | TcNoEndpoint | TcBadEndpoint | TcInsecureHttp
  | TcUnsupportedProtocol | TcInvalidSignature | TcPeerNotTrusted | TcPeerNotFound | TcNoPublicKey | TcNoNodeId
  | TcKeyMismatch | TcRecipientMismatch | TcMeshNotAuthorized | TcExpiredOrSkewed | TcIdCollision
  | TcPayloadTooLarge | TcConnection | TcTimeout | TcHttp | TcNonJson | TcNonObject | TcPythonError

text \<open>\<open>TcPythonError\<close> is an exception that is no \<open>TransportError\<close> (a \<open>ValueError\<close> of the JSON encoder or of base64).\<close>

record transport_error =
  tf_code :: transport_code
  tf_retryable :: bool
  tf_status :: "int option"

definition permanent :: "transport_code \<Rightarrow> transport_error" where
  "permanent c = \<lparr>tf_code = c, tf_retryable = False, tf_status = None\<rparr>"

definition transient :: "transport_code \<Rightarrow> transport_error" where
  "transient c = \<lparr>tf_code = c, tf_retryable = True, tf_status = None\<rparr>"

fun code_of_envelope_error :: "envelope_error \<Rightarrow> transport_code" where
  "code_of_envelope_error UnsupportedProtocol = TcUnsupportedProtocol"
| "code_of_envelope_error UnsupportedVersion = TcUnsupportedProtocol"
| "code_of_envelope_error PayloadNotFinite = TcPythonError"
| "code_of_envelope_error InvalidSkew = TcPythonError"
| "code_of_envelope_error PayloadTooLarge = TcPayloadTooLarge"
| "code_of_envelope_error CreatedInFuture = TcExpiredOrSkewed"
| "code_of_envelope_error EnvelopeExpired = TcExpiredOrSkewed"
| "code_of_envelope_error _ = TcMalformedEnvelope"

definition lift_env :: "envelope_error + 'a \<Rightarrow> transport_code + 'a" where
  "lift_env r = (case r of Inl e \<Rightarrow> Inl (code_of_envelope_error e) | Inr a \<Rightarrow> Inr a)"

lemma lift_env_Inr [simp]: "lift_env r = Inr a \<longleftrightarrow> r = Inr a"
  by (cases r) (simp_all add: lift_env_def)

section \<open>Acknowledgements\<close>

datatype ack_status = Accepted | Duplicate | Rejected

definition ack_text :: "ack_status \<Rightarrow> string" where
  "ack_text st = (case st of Accepted \<Rightarrow> ''accepted'' | Duplicate \<Rightarrow> ''duplicate'' | Rejected \<Rightarrow> ''rejected'')"

definition max_reason :: nat where "max_reason = 300"

definition signed_object :: "(pyfloat \<Rightarrow> string) \<Rightarrow> node_identity \<Rightarrow> (string \<times> json) list \<Rightarrow> (string \<times> json) list option" where
  "signed_object fr ident obj =
     map_option (\<lambda>body. obj @ [(''signature'', JStr (ni_sign ident body))]) (canonical_bytes fr obj)"

definition build_ack :: "(pyfloat \<Rightarrow> string) \<Rightarrow> node_identity \<Rightarrow> string \<Rightarrow> string \<Rightarrow> string \<Rightarrow> ack_status \<Rightarrow> string option
    \<Rightarrow> bool \<Rightarrow> string option \<Rightarrow> (string \<times> json) list option" where
  "build_ack fr ident uuid now message_id status inbox_id duplicate reason =
     signed_object fr ident
       [(''protocol'', JStr protocol_name), (''protocol_version'', JStr protocol_version_text),
        (''acknowledgement_id'', JStr uuid), (''original_message_id'', JStr message_id),
        (''accepting_node_id'', JStr (ni_node_id ident)), (''accepting_fingerprint'', JStr (ni_fingerprint ident)),
        (''status'', JStr (ack_text status)), (''received_at'', JStr now), (''inbox_record_id'', json_opt_str inbox_id),
        (''duplicate'', JBool duplicate),
        (''reason'', if take max_reason (or_empty reason) = [] then JNull else JStr (take max_reason (or_empty reason)))]"

datatype check_result =
    Check_ok json | Not_object | Protocol_mismatch | Unsigned | Wrong_message | Wrong_peer | Bad_signature | Check_raises

text \<open>
  \<open>str(x) == "1"\<close> holds for the text and the integer; \<open>signature\<close> must be a non-empty text. The canonical
  bytes of a received body raise on a float that is not finite.
\<close>

definition signature_text :: "(string \<times> json) list \<Rightarrow> string option" where
  "signature_text obj = (case json_get ''signature'' obj of JStr s \<Rightarrow> if s = [] then None else Some s | _ \<Rightarrow> None)"

definition check_signature :: "(pyfloat \<Rightarrow> string) \<Rightarrow> (string \<Rightarrow> bytes \<Rightarrow> string \<Rightarrow> bool) \<Rightarrow> string \<Rightarrow> (string \<times> json) list
    \<Rightarrow> string \<Rightarrow> json \<Rightarrow> check_result" where
  "check_signature fr verify key obj sg detail =
     (case canonical_bytes fr obj of
        None \<Rightarrow> Check_raises
      | Some body \<Rightarrow> if verify key body sg then Check_ok detail else Bad_signature)"

definition verify_ack :: "(pyfloat \<Rightarrow> string) \<Rightarrow> (string \<Rightarrow> bytes \<Rightarrow> string \<Rightarrow> bool) \<Rightarrow> json \<Rightarrow> string \<Rightarrow> string \<Rightarrow> string option
    \<Rightarrow> check_result" where
  "verify_ack fr verify ack key message_id node_id =
     (case ack of
        JObj kvs \<Rightarrow>
          (if json_get ''protocol'' kvs \<noteq> JStr protocol_name \<or> \<not> supported_version (json_get ''protocol_version'' kvs)
           then Protocol_mismatch
           else case signature_text kvs of
                  None \<Rightarrow> Unsigned
                | Some sg \<Rightarrow>
                    (if json_get ''original_message_id'' kvs \<noteq> JStr message_id then Wrong_message
                     else if json_get ''accepting_node_id'' kvs \<noteq> json_opt_str node_id then Wrong_peer
                     else check_signature fr verify key kvs sg
                            (if ''status'' \<in> set (map fst kvs) then json_get ''status'' kvs else JStr (ack_text Accepted))))
      | _ \<Rightarrow> Not_object)"

section \<open>Capability manifests\<close>

definition supported_kinds :: "string list" where
  "supported_kinds = [''agent_message'', ''artifact_pull'', ''capability_manifest'', ''capability_request'',
     ''delivery_ack'', ''ping'', ''pong'']"

definition deliverable_kinds :: "string set" where
  "deliverable_kinds = {''agent_message'', ''capability_request'', ''capability_manifest'', ''ping'', ''pong''}"

definition build_manifest :: "(pyfloat \<Rightarrow> string) \<Rightarrow> node_identity \<Rightarrow> string \<Rightarrow> string \<Rightarrow> string \<Rightarrow> string \<Rightarrow> string option
    \<Rightarrow> string list \<Rightarrow> (string \<times> json) list option" where
  "build_manifest fr ident software now expires node_name endpoint capabilities =
     signed_object fr ident
       [(''protocol'', JStr protocol_name), (''protocol_version'', JStr protocol_version_text),
        (''kind'', JStr ''capability_manifest''), (''node_id'', JStr (ni_node_id ident)), (''node_name'', JStr node_name),
        (''software_version'', JStr software), (''public_key'', JStr (ni_public_key ident)),
        (''fingerprint'', JStr (ni_fingerprint ident)), (''endpoint'', json_opt_str endpoint),
        (''supported_kinds'', JList (map JStr supported_kinds)),
        (''capabilities'', JList (map JStr (sorted_list_of_set (set capabilities)))),
        (''created_at'', JStr now), (''expires_at'', JStr expires)]"

definition verify_manifest :: "(pyfloat \<Rightarrow> string) \<Rightarrow> (string \<Rightarrow> bytes \<Rightarrow> string \<Rightarrow> bool) \<Rightarrow> json \<Rightarrow> string \<Rightarrow> check_result" where
  "verify_manifest fr verify manifest key =
     (case manifest of
        JObj kvs \<Rightarrow>
          (if json_get ''protocol'' kvs \<noteq> JStr protocol_name \<or> \<not> supported_version (json_get ''protocol_version'' kvs)
           then Protocol_mismatch
           else case signature_text kvs of
                  None \<Rightarrow> Unsigned
                | Some sg \<Rightarrow> check_signature fr verify key kvs sg (JStr ''ok''))
      | _ \<Rightarrow> Not_object)"

section \<open>One HTTP request\<close>

text \<open>
  \<open>urlparse\<close> gives the scheme and the network location. The outcome of \<open>httpx\<close> is a timeout, another failure, or an answer with its
  status, the length of its content, and the JSON value of the content if it has one.
\<close>

datatype http_outcome = Timed_out | Http_failed | Answer int nat "json option"

definition retryable_status :: "int set" where
  "retryable_status = {408, 425, 429, 500, 502, 503, 504}"

definition validate_endpoint :: "(string \<Rightarrow> string \<times> string) \<Rightarrow> bool \<Rightarrow> string option \<Rightarrow> transport_error + string" where
  "validate_endpoint urlparse allow_insecure_http endpoint =
     (if \<not> truthy endpoint then Inl (permanent TcNoEndpoint)
      else let (scheme, netloc) = urlparse (or_empty endpoint)
           in if (scheme \<noteq> ''http'' \<and> scheme \<noteq> ''https'') \<or> netloc = [] then Inl (permanent TcBadEndpoint)
              else if scheme = ''http'' \<and> \<not> allow_insecure_http then Inl (permanent TcInsecureHttp)
              else Inr (rev (dropWhile (\<lambda>c. c = CHR ''/'') (rev (or_empty endpoint)))))"

definition request_result :: "nat \<Rightarrow> http_outcome \<Rightarrow> transport_error + int \<times> (string \<times> json) list" where
  "request_result max_bytes out =
     (case out of
        Timed_out \<Rightarrow> Inl (transient TcTimeout)
      | Http_failed \<Rightarrow> Inl (transient TcConnection)
      | Answer status len body \<Rightarrow>
          (if max_bytes < len then Inl (permanent TcPayloadTooLarge)
           else if 400 \<le> status
           then Inl \<lparr>tf_code = TcHttp, tf_retryable = (status \<in> retryable_status), tf_status = Some status\<rparr>
           else case body of
                  None \<Rightarrow> Inl (permanent TcNonJson)
                | Some (JObj kvs) \<Rightarrow> Inr (status, kvs)
                | Some _ \<Rightarrow> Inl (permanent TcNonObject)))"

section \<open>What is signed verifies\<close>

lemma canonical_unsigned: "''signature'' \<notin> set (map fst obj) \<Longrightarrow>
  canonical_bytes fr (obj @ [(''signature'', j)]) = canonical_bytes fr obj"
  by (simp add: canonical_bytes_def)

lemma json_get_append: "k \<in> set (map fst obj) \<Longrightarrow> json_get k (obj @ rest) = json_get k obj"
  by (induction obj) (auto simp: json_get_def)

lemma signed_object_get:
  assumes "signed_object fr ident obj = Some s" "''signature'' \<notin> set (map fst obj)"
  shows "\<exists>body. canonical_bytes fr s = Some body \<and> canonical_bytes fr obj = Some body \<and>
    json_get ''signature'' s = JStr (ni_sign ident body) \<and> (\<forall>k \<in> set (map fst obj). json_get k s = json_get k obj)"
proof -
  obtain body where body: "canonical_bytes fr obj = Some body" "s = obj @ [(''signature'', JStr (ni_sign ident body))]"
    using assms(1) by (auto simp: signed_object_def)
  have "json_get ''signature'' s = JStr (ni_sign ident body)"
    using assms(2) by (simp add: body(2) json_get_def map_add_def map_of_eq_None_iff option.case_eq_if)
  then show ?thesis using body canonical_unsigned [OF assms(2)] json_get_append by auto
qed

text \<open>An acknowledgement verifies, at the node it was built for, for the message it names.\<close>

lemma built_ack_verifies:
  assumes "build_ack fr ident uuid now mid st inbox dup reason = Some ack"
    and "\<And>m. verify (ni_public_key ident) m (ni_sign ident m)" "\<And>m. ni_sign ident m \<noteq> []"
  shows "verify_ack fr verify (JObj ack) (ni_public_key ident) mid (Some (ni_node_id ident)) = Check_ok (JStr (ack_text st))"
proof -
  note s = signed_object_get [OF assms(1) [unfolded build_ack_def]]
  then obtain body where body: "canonical_bytes fr ack = Some body" "json_get ''signature'' ack = JStr (ni_sign ident body)"
    and get: "json_get ''protocol'' ack = JStr protocol_name" "json_get ''protocol_version'' ack = JStr protocol_version_text"
      "json_get ''original_message_id'' ack = JStr mid" "json_get ''accepting_node_id'' ack = JStr (ni_node_id ident)"
      "json_get ''status'' ack = JStr (ack_text st)"
    by (auto simp: json_get_def)
  have "''status'' \<in> set (map fst ack)" using assms(1) by (auto simp: build_ack_def signed_object_def)
  then show ?thesis using assms(2,3) body get
    by (simp add: verify_ack_def signature_text_def check_signature_def supported_version_def json_opt_str_def)
qed

lemma built_manifest_verifies:
  assumes "build_manifest fr ident software now expires name endpoint caps = Some m"
    and "\<And>m. verify (ni_public_key ident) m (ni_sign ident m)" "\<And>m. ni_sign ident m \<noteq> []"
  shows "verify_manifest fr verify (JObj m) (ni_public_key ident) = Check_ok (JStr ''ok'')"
proof -
  note s = signed_object_get [OF assms(1) [unfolded build_manifest_def]]
  then obtain body where body: "canonical_bytes fr m = Some body" "json_get ''signature'' m = JStr (ni_sign ident body)"
    and get: "json_get ''protocol'' m = JStr protocol_name" "json_get ''protocol_version'' m = JStr protocol_version_text"
    by (auto simp: json_get_def)
  then show ?thesis using assms(2,3)
    by (simp add: verify_manifest_def signature_text_def check_signature_def supported_version_def)
qed

lemma verify_ackD:
  assumes "verify_ack fr verify (JObj kvs) key mid nid = Check_ok d"
  shows "json_get ''original_message_id'' kvs = JStr mid \<and> json_get ''accepting_node_id'' kvs = json_opt_str nid \<and>
    (\<exists>body sg. canonical_bytes fr kvs = Some body \<and> json_get ''signature'' kvs = JStr sg \<and> verify key body sg)"
  using assms
  by (auto simp: verify_ack_def check_signature_def signature_text_def split: if_splits option.splits json.splits)

end
