(* ===== verification/TransportStore.thy ===== *)
theory TransportStore
  imports MeshGuard TransportWire
begin

text \<open>
  The tables of the agent transport and their repositories (\<open>PeerRepository\<close>, \<open>AgentOutboxRepository\<close>,
  \<open>AgentInboxRepository\<close> of \<open>state/repositories.py\<close>). Rows are in creation order; times are microseconds.
  Texts for people (\<open>last_error\<close>, \<open>updated_at\<close>) and the columns that other services fill
  (\<open>application_*\<close>, \<open>processing_state\<close>, the authorisation flags of a peer) are left out.
\<close>

section \<open>Peers\<close>

datatype trust_state = Untrusted | Trust_pending | Trusted | Revoked

record peer_row =
  pr_id :: string
  pr_name :: string
  pr_role :: string
  pr_endpoint_url :: "string option"
  pr_expected_node_id :: "string option"
  pr_public_key :: "string option"
  pr_fingerprint :: "string option"
  pr_transport :: string
  pr_tls_verify :: bool
  pr_trust :: trust_state
  pr_enabled :: bool
  pr_metadata :: "(string \<times> json) list"
  pr_last_success :: "int option"
  pr_last_failure :: "int option"
  pr_failures :: nat
  pr_manifest :: "(string \<times> json) list option"
  pr_capabilities :: "json option"
  pr_capabilities_at :: "int option"

record peer_create =
  pc_name :: string
  pc_role :: string
  pc_endpoint_url :: "string option"
  pc_expected_node_id :: "string option"
  pc_public_key :: "string option"
  pc_fingerprint :: "string option"
  pc_transport :: string
  pc_tls_verify :: bool
  pc_metadata :: "(string \<times> json) list"

definition peer_create_row :: "string \<Rightarrow> string option \<Rightarrow> peer_create \<Rightarrow> peer_row" where
  "peer_create_row pid fp q =
     \<lparr>pr_id = pid, pr_name = pc_name q, pr_role = pc_role q, pr_endpoint_url = pc_endpoint_url q,
      pr_expected_node_id = pc_expected_node_id q, pr_public_key = pc_public_key q, pr_fingerprint = fp,
      pr_transport = pc_transport q, pr_tls_verify = pc_tls_verify q, pr_trust = Untrusted, pr_enabled = True,
      pr_metadata = pc_metadata q, pr_last_success = None, pr_last_failure = None, pr_failures = 0,
      pr_manifest = None, pr_capabilities = None, pr_capabilities_at = None\<rparr>"

abbreviation peer_get :: "peer_row list \<Rightarrow> string \<Rightarrow> peer_row option" where
  "peer_get \<equiv> tbl_get pr_id"

abbreviation peer_update :: "string \<Rightarrow> (peer_row \<Rightarrow> peer_row) \<Rightarrow> peer_row list \<Rightarrow> peer_row list" where
  "peer_update \<equiv> tbl_upd pr_id"

text \<open>The newest row with the column.\<close>

definition peer_by_node_id :: "peer_row list \<Rightarrow> string \<Rightarrow> peer_row option" where
  "peer_by_node_id rows nid = find (\<lambda>p. pr_expected_node_id p = Some nid) (rev rows)"

definition peer_record_success :: "int \<Rightarrow> string \<Rightarrow> peer_row list \<Rightarrow> peer_row list" where
  "peer_record_success now pid rows = peer_update pid (\<lambda>p. p\<lparr>pr_last_success := Some now, pr_failures := 0\<rparr>) rows"

definition peer_record_failure :: "int \<Rightarrow> string \<Rightarrow> peer_row list \<Rightarrow> peer_row list" where
  "peer_record_failure now pid rows =
     peer_update pid (\<lambda>p. p\<lparr>pr_last_failure := Some now, pr_failures := Suc (pr_failures p)\<rparr>) rows"

definition keeps_peer :: "(peer_row \<Rightarrow> peer_row) \<Rightarrow> bool" where
  "keeps_peer f \<longleftrightarrow> (\<forall>p. pr_id (f p) = pr_id p)"

interpretation peers: keyed_store peer_get peer_update keeps_peer
  by unfold_locales (simp add: keeps_peer_def tbl_get_upd)

section \<open>The outbox\<close>

datatype outbox_status = Pending | In_flight | Retry_scheduled | Acknowledged | Failed | Dead_letter | Cancelled

definition terminal_outbox_states :: "outbox_status set" where
  "terminal_outbox_states = {Acknowledged, Failed, Dead_letter, Cancelled}"

definition claimable_outbox_states :: "outbox_status set" where
  "claimable_outbox_states = {Pending, Retry_scheduled}"

datatype delivery_error = De_identity_missing | De_expired | De_peer | De_invalid_ack | De_transport transport_code

record outbox_row =
  ob_id :: string
  ob_message_id :: string
  ob_peer_id :: string
  ob_kind :: string
  ob_envelope :: "(string \<times> json) list"
  ob_hash :: "string option"
  ob_version :: string
  ob_conversation_id :: "string option"
  ob_correlation_id :: "string option"
  ob_reply_to_message_id :: "string option"
  ob_mission_id :: "string option"
  ob_expires_at :: "int option"
  ob_status :: outbox_status
  ob_attempts :: int
  ob_max_attempts :: int
  ob_next_attempt_at :: "int option"
  ob_first_attempted_at :: "int option"
  ob_last_attempted_at :: "int option"
  ob_delivered_at :: "int option"
  ob_acknowledged_at :: "int option"
  ob_remote_ack_id :: json
  ob_http_status :: "int option"
  ob_error :: "delivery_error option"
  ob_dead_letter :: "delivery_error option"
  ob_owner :: "string option"
  ob_claim_expires :: "int option"

record outbox_create =
  oc_id :: string
  oc_message_id :: string
  oc_peer_id :: string
  oc_kind :: string
  oc_envelope :: "(string \<times> json) list"
  oc_hash :: "string option"
  oc_version :: string
  oc_conversation_id :: "string option"
  oc_correlation_id :: "string option"
  oc_reply_to_message_id :: "string option"
  oc_mission_id :: "string option"
  oc_expires_at :: "int option"
  oc_max_attempts :: int

definition outbox_create_row :: "int \<Rightarrow> outbox_create \<Rightarrow> outbox_row" where
  "outbox_create_row now q =
     \<lparr>ob_id = oc_id q, ob_message_id = oc_message_id q, ob_peer_id = oc_peer_id q, ob_kind = oc_kind q,
      ob_envelope = oc_envelope q, ob_hash = oc_hash q, ob_version = oc_version q,
      ob_conversation_id = oc_conversation_id q, ob_correlation_id = oc_correlation_id q,
      ob_reply_to_message_id = oc_reply_to_message_id q, ob_mission_id = oc_mission_id q,
      ob_expires_at = oc_expires_at q, ob_status = Pending, ob_attempts = 0, ob_max_attempts = oc_max_attempts q,
      ob_next_attempt_at = Some now, ob_first_attempted_at = None, ob_last_attempted_at = None,
      ob_delivered_at = None, ob_acknowledged_at = None, ob_remote_ack_id = JNull, ob_http_status = None,
      ob_error = None, ob_dead_letter = None, ob_owner = None, ob_claim_expires = None\<rparr>"

abbreviation outbox_get :: "outbox_row list \<Rightarrow> string \<Rightarrow> outbox_row option" where
  "outbox_get \<equiv> tbl_get ob_id"

abbreviation outbox_update :: "string \<Rightarrow> (outbox_row \<Rightarrow> outbox_row) \<Rightarrow> outbox_row list \<Rightarrow> outbox_row list" where
  "outbox_update \<equiv> tbl_upd ob_id"

definition outbox_by_message_id :: "outbox_row list \<Rightarrow> string \<Rightarrow> outbox_row option" where
  "outbox_by_message_id rows mid = find (\<lambda>r. ob_message_id r = mid) rows"

text \<open>The \<open>WHERE\<close> clause shared by \<open>due_ids\<close> and \<open>claim\<close>; a comparison with a null is not true.\<close>

definition past_due :: "int \<Rightarrow> int option \<Rightarrow> bool" where
  "past_due now t = (case t of None \<Rightarrow> True | Some x \<Rightarrow> x \<le> now)"

definition lapsed :: "int \<Rightarrow> int option \<Rightarrow> bool" where
  "lapsed now t = (case t of None \<Rightarrow> False | Some x \<Rightarrow> x < now)"

definition claimable :: "int \<Rightarrow> outbox_row \<Rightarrow> bool" where
  "claimable now r \<longleftrightarrow> ob_status r \<in> claimable_outbox_states \<and> past_due now (ob_next_attempt_at r) \<and>
     (ob_owner r = None \<or> lapsed now (ob_claim_expires r))"

text \<open>SQLite orders nulls first; equal keys are taken in table order.\<close>

definition by_due_time :: "outbox_row list \<Rightarrow> outbox_row list" where
  "by_due_time rows = filter (\<lambda>r. ob_next_attempt_at r = None) rows @
     sort_key (\<lambda>r. the (ob_next_attempt_at r)) (filter (\<lambda>r. ob_next_attempt_at r \<noteq> None) rows)"

definition due_ids :: "int \<Rightarrow> nat \<Rightarrow> outbox_row list \<Rightarrow> string list" where
  "due_ids now limit rows = map ob_id (take limit (by_due_time (filter (claimable now) rows)))"

definition claim_row :: "string \<Rightarrow> int \<Rightarrow> int \<Rightarrow> outbox_row \<Rightarrow> outbox_row" where
  "claim_row owner now claim_expiry r =
     r\<lparr>ob_status := In_flight, ob_owner := Some owner, ob_claim_expires := Some claim_expiry,
       ob_attempts := ob_attempts r + 1,
       ob_first_attempted_at := Some (case ob_first_attempted_at r of None \<Rightarrow> now | Some t \<Rightarrow> t),
       ob_last_attempted_at := Some now\<rparr>"

definition claim :: "string \<Rightarrow> string \<Rightarrow> int \<Rightarrow> int \<Rightarrow> outbox_row list \<Rightarrow> bool \<times> outbox_row list" where
  "claim rid owner now claim_expiry rows =
     (case outbox_get rows rid of
        None \<Rightarrow> (False, rows)
      | Some r \<Rightarrow> if claimable now r then (True, outbox_update rid (claim_row owner now claim_expiry) rows) else (False, rows))"

definition release_row :: "string \<Rightarrow> (outbox_row \<Rightarrow> outbox_row) \<Rightarrow> outbox_row \<Rightarrow> outbox_row" where
  "release_row owner chg r =
     (if ob_owner r \<noteq> Some owner then r else (chg r)\<lparr>ob_owner := None, ob_claim_expires := None\<rparr>)"

definition release_and_update :: "string \<Rightarrow> string \<Rightarrow> (outbox_row \<Rightarrow> outbox_row) \<Rightarrow> outbox_row list \<Rightarrow> outbox_row list" where
  "release_and_update rid owner chg rows = outbox_update rid (release_row owner chg) rows"

definition recover_row :: "int \<Rightarrow> outbox_row \<Rightarrow> outbox_row" where
  "recover_row now r =
     (if ob_status r = In_flight \<and> (ob_claim_expires r = None \<or> lapsed now (ob_claim_expires r))
      then r\<lparr>ob_status := Retry_scheduled, ob_owner := None, ob_claim_expires := None, ob_next_attempt_at := Some now\<rparr>
      else r)"

definition recover_expired_claims :: "int \<Rightarrow> outbox_row list \<Rightarrow> outbox_row list" where
  "recover_expired_claims now rows = map (recover_row now) rows"

definition counts_by_status :: "outbox_row list \<Rightarrow> outbox_status \<Rightarrow> nat" where
  "counts_by_status rows st = length (filter (\<lambda>r. ob_status r = st) rows)"

definition keeps_outbox :: "(outbox_row \<Rightarrow> outbox_row) \<Rightarrow> bool" where
  "keeps_outbox f \<longleftrightarrow> (\<forall>r. ob_id (f r) = ob_id r)"

interpretation outbox: keyed_store outbox_get outbox_update keeps_outbox
  by unfold_locales (simp add: keeps_outbox_def tbl_get_upd)

section \<open>The inbox\<close>

record inbox_row =
  ib_id :: string
  ib_message_id :: string
  ib_peer_id :: string
  ib_sender :: string
  ib_fingerprint :: string
  ib_kind :: string
  ib_hash :: string
  ib_envelope :: "(string \<times> json) list"
  ib_payload :: "(string \<times> json) list"
  ib_version :: string
  ib_conversation_id :: "string option"
  ib_correlation_id :: "string option"
  ib_causation_id :: "string option"
  ib_reply_to_message_id :: "string option"
  ib_mission_id :: "string option"
  ib_mission_run_id :: "string option"
  ib_mission_step_id :: "string option"
  ib_ack_status :: ack_status
  ib_ack_id :: string
  ib_duplicates :: nat
  ib_authenticated_at :: int

definition inbox_by_message_id :: "inbox_row list \<Rightarrow> string \<Rightarrow> inbox_row option" where
  "inbox_by_message_id rows mid = tbl_get ib_message_id rows mid"

definition increment_duplicate :: "string \<Rightarrow> inbox_row list \<Rightarrow> inbox_row list" where
  "increment_duplicate mid rows = tbl_upd ib_message_id mid (\<lambda>r. r\<lparr>ib_duplicates := Suc (ib_duplicates r)\<rparr>) rows"

definition keeps_inbox :: "(inbox_row \<Rightarrow> inbox_row) \<Rightarrow> bool" where
  "keeps_inbox f \<longleftrightarrow> (\<forall>r. ib_message_id (f r) = ib_message_id r)"

interpretation inbox: keyed_store inbox_by_message_id "tbl_upd ib_message_id" keeps_inbox
  by unfold_locales (simp add: keeps_inbox_def inbox_by_message_id_def tbl_get_upd)

section \<open>Facts of the repositories\<close>

lemma claim_row_simps [simp]:
  "ob_id (claim_row o' now x r) = ob_id r" "ob_status (claim_row o' now x r) = In_flight"
  "ob_owner (claim_row o' now x r) = Some o'" "ob_attempts (claim_row o' now x r) = ob_attempts r + 1"
  "ob_max_attempts (claim_row o' now x r) = ob_max_attempts r" "ob_message_id (claim_row o' now x r) = ob_message_id r"
  "ob_envelope (claim_row o' now x r) = ob_envelope r" "ob_peer_id (claim_row o' now x r) = ob_peer_id r"
  "ob_expires_at (claim_row o' now x r) = ob_expires_at r"
  by (simp_all add: claim_row_def)

lemma recover_row_keeps [simp]:
  "ob_id (recover_row now r) = ob_id r" "ob_attempts (recover_row now r) = ob_attempts r"
  "ob_max_attempts (recover_row now r) = ob_max_attempts r" "ob_message_id (recover_row now r) = ob_message_id r"
  "ob_peer_id (recover_row now r) = ob_peer_id r" "ob_envelope (recover_row now r) = ob_envelope r"
  by (simp_all add: recover_row_def)

lemma outbox_get_recover:
  "outbox_get (recover_expired_claims now rows) rid = map_option (recover_row now) (outbox_get rows rid)"
  by (induction rows) (simp_all add: recover_expired_claims_def)

lemma outbox_get_claim:
  "outbox_get (snd (claim rid owner now x rows)) j =
     (if j = rid then map_option (\<lambda>r. if claimable now r then claim_row owner now x r else r) (outbox_get rows j)
      else outbox_get rows j)"
  by (auto simp: claim_def tbl_get_upd split: option.splits)

lemma claim_taken: "fst (claim rid owner now x rows) \<longleftrightarrow> (\<exists>r. outbox_get rows rid = Some r \<and> claimable now r)"
  by (auto simp: claim_def split: option.splits)

lemma outbox_get_release:
  assumes "\<And>r. ob_id (chg r) = ob_id r"
  shows "outbox_get (release_and_update rid owner chg rows) j =
    (if j = rid then map_option (release_row owner chg) (outbox_get rows j) else outbox_get rows j)"
  using assms by (simp add: release_and_update_def tbl_get_upd release_row_def)

lemma set_by_due_time [simp]: "set (by_due_time rows) = set rows"
  by (auto simp: by_due_time_def)

lemma due_ids_claimable:
  assumes "rid \<in> set (due_ids now limit rows)" "distinct (map ob_id rows)"
  shows "\<exists>r. outbox_get rows rid = Some r \<and> claimable now r"
proof -
  obtain r where "r \<in> set rows" "claimable now r" "ob_id r = rid"
    using assms(1) by (auto simp: due_ids_def dest!: in_set_takeD)
  then show ?thesis using tbl_get_in [OF assms(2)] by auto
qed

lemma length_by_due_time [simp]: "length (by_due_time rows) = length rows"
  using sum_length_filter_compl [of "\<lambda>r. ob_next_attempt_at r = None" rows] by (simp add: by_due_time_def)

lemma due_ids_all:
  assumes "outbox_get rows rid = Some r" "claimable now r" "length rows \<le> limit"
  shows "rid \<in> set (due_ids now limit rows)"
proof -
  have r: "r \<in> set rows" "ob_id r = rid" using tbl_get_Some [OF assms(1)] by simp_all
  have "take limit (by_due_time (filter (claimable now) rows)) = by_due_time (filter (claimable now) rows)"
    using order.trans [OF length_filter_le assms(3), of "claimable now"] by simp
  then show ?thesis using r assms(2) by (auto simp: due_ids_def)
qed

end
