(* ===== verification/TransportService.thy ===== *)
theory TransportService
  imports TransportStore
begin

text \<open>
  \<open>TransportService\<close> of \<open>transport/service.py\<close>, the delivery worker \<open>worker.py\<close> and the endpoint
  \<open>receive_message\<close> of \<open>api/agent_transport.py\<close>. A node is its tables, its identity, its worker and the
  deliveries under way. asyncio switches tasks only at an \<open>await\<close> that suspends, so an operation is one step
  up to the request it makes and one step from the answer on; the \<open>utcnow()\<close> calls of a step are one
  instant. Events, which no operation reads, are left out.
\<close>

section \<open>Node, configuration and world\<close>

text \<open>What the code does not define: float \<open>repr\<close>, Ed25519, pydantic, \<open>fromisoformat\<close> and \<open>urlparse\<close>.\<close>

record transport_env =
  te_repr :: "pyfloat \<Rightarrow> string"
  te_verify :: "string \<Rightarrow> bytes \<Rightarrow> string \<Rightarrow> bool"
  te_validate :: "(string \<times> json) list \<Rightarrow> message_envelope option"
  te_fromiso :: "string \<Rightarrow> int option"
  te_urlparse :: "string \<Rightarrow> string \<times> string"

record transport_config =
  tc_node_id :: string
  tc_max_payload :: nat
  tc_skew :: pyfloat
  tc_lease :: pyfloat
  tc_max_attempts :: int
  tc_initial_backoff :: pyfloat
  tc_max_backoff :: pyfloat
  tc_jitter :: pyfloat
  tc_allow_insecure_http :: bool
  tc_max_response :: nat
  tc_recovery_enabled :: bool

record delivery =
  dl_record :: string
  dl_owner :: string
  dl_message_id :: string
  dl_peer_id :: string
  dl_envelope :: "(string \<times> json) list"
  dl_attempts :: int
  dl_max_attempts :: int
  dl_peer :: peer_row

datatype task = Queued string string | Sent delivery

record tnode =
  tn_peers :: "peer_row list"
  tn_outbox :: "outbox_row list"
  tn_inbox :: "inbox_row list"
  tn_meshes :: mesh_db
  tn_identity :: "node_identity option"
  tn_worker :: "string option"
  tn_tasks :: "task list"

section \<open>Peer trust\<close>

definition create_peer :: "string \<Rightarrow> peer_create \<Rightarrow> tnode \<Rightarrow> (transport_code + string) \<times> tnode" where
  "create_peer pid q nd =
     (if truthy (pc_public_key q)
      then case fingerprint_for_public_key (or_empty (pc_public_key q)) of
             None \<Rightarrow> (Inl TcPythonError, nd)
           | Some fp \<Rightarrow>
               (if truthy (pc_fingerprint q) \<and> pc_fingerprint q \<noteq> Some fp then (Inl TcKeyMismatch, nd)
                else (Inr pid, nd\<lparr>tn_peers := tn_peers nd @ [peer_create_row pid (Some fp) q]\<rparr>))
      else (Inr pid, nd\<lparr>tn_peers := tn_peers nd @ [peer_create_row pid None q]\<rparr>))"

definition pin_key :: "string \<Rightarrow> string \<Rightarrow> peer_row \<Rightarrow> peer_row" where
  "pin_key key fp p = p\<lparr>pr_public_key := Some key, pr_fingerprint := Some fp, pr_trust := Trusted, pr_enabled := True\<rparr>"

definition trust_peer :: "string \<Rightarrow> string option \<Rightarrow> string option \<Rightarrow> tnode \<Rightarrow> (transport_code + unit) \<times> tnode" where
  "trust_peer pid public_key fingerprint nd =
     (case peer_get (tn_peers nd) pid of
        None \<Rightarrow> (Inl TcPeerNotFound, nd)
      | Some p \<Rightarrow>
          let new_key = (if truthy public_key then public_key else pr_public_key p)
          in if \<not> truthy new_key then (Inl TcNoPublicKey, nd)
             else if truthy (pr_public_key p) \<and> truthy public_key \<and> public_key \<noteq> pr_public_key p \<and> pr_trust p = Trusted
             then (Inl TcKeyMismatch, nd)
             else case fingerprint_for_public_key (or_empty new_key) of
                    None \<Rightarrow> (Inl TcPythonError, nd)
                  | Some fp \<Rightarrow>
                      (if truthy fingerprint \<and> fingerprint \<noteq> Some fp then (Inl TcKeyMismatch, nd)
                       else (Inr (), nd\<lparr>tn_peers := peer_update pid (pin_key (or_empty new_key) fp) (tn_peers nd)\<rparr>)))"

definition change_peer :: "string \<Rightarrow> (peer_row \<Rightarrow> peer_row) \<Rightarrow> tnode \<Rightarrow> (transport_code + unit) \<times> tnode" where
  "change_peer pid chg nd =
     (case peer_get (tn_peers nd) pid of
        None \<Rightarrow> (Inl TcPeerNotFound, nd)
      | Some _ \<Rightarrow> (Inr (), nd\<lparr>tn_peers := peer_update pid chg (tn_peers nd)\<rparr>))"

definition revoke_peer :: "string \<Rightarrow> tnode \<Rightarrow> (transport_code + unit) \<times> tnode" where
  "revoke_peer pid nd = change_peer pid (\<lambda>p. p\<lparr>pr_trust := Revoked, pr_enabled := False\<rparr>) nd"

definition set_peer_enabled :: "string \<Rightarrow> bool \<Rightarrow> tnode \<Rightarrow> (transport_code + unit) \<times> tnode" where
  "set_peer_enabled pid enabled nd = change_peer pid (\<lambda>p. p\<lparr>pr_enabled := enabled\<rparr>) nd"

text \<open>The fields of \<open>PeerUpdate\<close> that are given (\<open>update_peer\<close> of \<open>api/peers.py\<close>).\<close>

record peer_patch =
  pp_name :: "string option"
  pp_role :: "string option"
  pp_endpoint_url :: "string option"
  pp_expected_node_id :: "string option"
  pp_tls_verify :: "bool option"
  pp_enabled :: "bool option"
  pp_metadata :: "(string \<times> json) list option"

definition given :: "'a option \<Rightarrow> 'a \<Rightarrow> 'a" where
  "given new old = (case new of None \<Rightarrow> old | Some x \<Rightarrow> x)"

definition patch_peer :: "peer_patch \<Rightarrow> peer_row \<Rightarrow> peer_row" where
  "patch_peer q p =
     p\<lparr>pr_name := given (pp_name q) (pr_name p), pr_role := given (pp_role q) (pr_role p),
       pr_endpoint_url := or_keep (pp_endpoint_url q) (pr_endpoint_url p),
       pr_expected_node_id := or_keep (pp_expected_node_id q) (pr_expected_node_id p),
       pr_tls_verify := given (pp_tls_verify q) (pr_tls_verify p), pr_enabled := given (pp_enabled q) (pr_enabled p),
       pr_metadata := given (pp_metadata q) (pr_metadata p)\<rparr>"

definition update_peer :: "string \<Rightarrow> peer_patch \<Rightarrow> tnode \<Rightarrow> (transport_code + unit) \<times> tnode" where
  "update_peer pid q nd = change_peer pid (patch_peer q) nd"

section \<open>Requests to a peer\<close>

definition peer_request :: "transport_env \<Rightarrow> transport_config \<Rightarrow> peer_row \<Rightarrow> http_outcome
    \<Rightarrow> transport_error + int \<times> (string \<times> json) list" where
  "peer_request env cfg p out =
     rbind (validate_endpoint (te_urlparse env) (tc_allow_insecure_http cfg) (pr_endpoint_url p))
       (\<lambda>_. request_result (tc_max_response cfg) out)"

text \<open>\<open>verify_signature\<close> is false, not an error, when the key is None.\<close>

definition peer_verifies :: "transport_env \<Rightarrow> string option \<Rightarrow> string \<Rightarrow> bytes \<Rightarrow> string \<Rightarrow> bool" where
  "peer_verifies env key k m s \<longleftrightarrow> key \<noteq> None \<and> te_verify env k m s"

definition test_peer :: "transport_env \<Rightarrow> transport_config \<Rightarrow> peer_row \<Rightarrow> http_outcome \<Rightarrow> int \<Rightarrow> tnode
    \<Rightarrow> (transport_code + (string \<times> json) list) \<times> tnode" where
  "test_peer env cfg p out now nd =
     (case peer_request env cfg p out of
        Inl e \<Rightarrow> (Inl (tf_code e), nd\<lparr>tn_peers := peer_record_failure now (pr_id p) (tn_peers nd)\<rparr>)
      | Inr (_, body) \<Rightarrow> (Inr body, nd\<lparr>tn_peers := peer_record_success now (pr_id p) (tn_peers nd)\<rparr>))"

text \<open>\<open>p\<close> is the row read before the request; the answer is stored in the row there is then.\<close>

definition json_truthy :: "json \<Rightarrow> bool" where
  "json_truthy j = (case j of JNull \<Rightarrow> False | JBool b \<Rightarrow> b | JInt n \<Rightarrow> n \<noteq> 0 | JFloat x \<Rightarrow> x \<noteq> Fin 0
     | JStr s \<Rightarrow> s \<noteq> [] | JList l \<Rightarrow> l \<noteq> [] | JObj kvs \<Rightarrow> kvs \<noteq> [])"

definition refresh_manifest :: "transport_env \<Rightarrow> transport_config \<Rightarrow> peer_row \<Rightarrow> http_outcome \<Rightarrow> int \<Rightarrow> tnode
    \<Rightarrow> (transport_code + (string \<times> json) list) \<times> tnode" where
  "refresh_manifest env cfg p out now nd =
     (case peer_request env cfg p out of
        Inl e \<Rightarrow> (Inl (tf_code e), nd)
      | Inr (_, manifest) \<Rightarrow>
          let man_key = json_get ''public_key'' manifest;
              caps = (if ''capabilities'' \<in> set (map fst manifest) then json_get ''capabilities'' manifest else JList []);
              stored = nd\<lparr>tn_peers := peer_update (pr_id p) (\<lambda>r. r\<lparr>pr_manifest := Some manifest,
                 pr_capabilities := Some (JObj [(''capabilities'', caps)]), pr_capabilities_at := Some now\<rparr>) (tn_peers nd)\<rparr>
          in if \<not> truthy (pr_public_key p) then (Inr manifest, stored)
             else if json_truthy man_key \<and> man_key \<noteq> json_opt_str (pr_public_key p) then (Inl TcKeyMismatch, nd)
             else case verify_manifest (te_repr env) (te_verify env) (JObj manifest) (or_empty (pr_public_key p)) of
                    Check_ok _ \<Rightarrow> (Inr manifest, stored)
                  | Check_raises \<Rightarrow> (Inl TcPythonError, nd)
                  | _ \<Rightarrow> (Inl TcInvalidSignature, nd))"

section \<open>Inbound\<close>

definition mesh_claim_of :: "message_envelope \<Rightarrow> mesh_claim" where
  "mesh_claim_of e = \<lparr>mc_sender = env_sender_node_id e, mc_fingerprint = Some (env_sender_fingerprint e),
     mc_mesh_id = env_mesh_id e, mc_authority_id = env_authority_id e\<rparr>"

definition enforce_mesh :: "transport_config \<Rightarrow> mesh_db \<Rightarrow> message_envelope \<Rightarrow> transport_code + unit" where
  "enforce_mesh cfg db e =
     (if mesh_allowed (evaluate_mesh_ingress (tc_node_id cfg) (mesh_claim_of e) (mesh_views db) None)
      then Inr () else Inl TcMeshNotAuthorized)"

definition check_sender :: "transport_env \<Rightarrow> peer_row list \<Rightarrow> message_envelope \<Rightarrow> transport_code + peer_row" where
  "check_sender env peers e =
     (case peer_by_node_id peers (env_sender_node_id e) of
        None \<Rightarrow> Inl TcPeerNotTrusted
      | Some p \<Rightarrow>
          (if pr_trust p \<noteq> Trusted \<or> \<not> pr_enabled p then Inl TcPeerNotTrusted
           else if \<not> truthy (pr_public_key p) then Inl TcPeerNotTrusted
           else if truthy (pr_fingerprint p) \<and> Some (env_sender_fingerprint e) \<noteq> pr_fingerprint p then Inl TcKeyMismatch
           else case verify_signature_with (te_repr env) (te_verify env) (or_empty (pr_public_key p)) e of
                  None \<Rightarrow> Inl TcPythonError
                | Some ok \<Rightarrow> if ok then Inr p else Inl TcInvalidSignature))"

definition authenticate :: "transport_env \<Rightarrow> transport_config \<Rightarrow> (string \<Rightarrow> bool) \<Rightarrow> int \<Rightarrow> tnode \<Rightarrow> json
    \<Rightarrow> transport_code + message_envelope \<times> peer_row" where
  "authenticate env cfg accepts_kind now nd raw =
     rbind (lift_env (parse_envelope (te_repr env) (te_validate env) (tc_max_payload cfg) raw)) (\<lambda>e.
       if \<not> accepts_kind (env_kind e) then Inl TcBadKind
       else if \<not> validate_recipient e (tc_node_id cfg) then Inl TcRecipientMismatch
       else rbind (check_sender env (tn_peers nd) e) (\<lambda>p.
            rbind (lift_env (validate_timing (te_fromiso env) e (tc_skew cfg) now)) (\<lambda>_.
            rbind (enforce_mesh cfg (tn_meshes nd) e) (\<lambda>_. Inr (e, p)))))"

definition authenticate_envelope :: "transport_env \<Rightarrow> transport_config \<Rightarrow> string option \<Rightarrow> int \<Rightarrow> tnode \<Rightarrow> json
    \<Rightarrow> transport_code + message_envelope \<times> peer_row" where
  "authenticate_envelope env cfg expected_kind now nd raw =
     (case tn_identity nd of
        None \<Rightarrow> Inl TcIdentityMissing
      | Some _ \<Rightarrow> authenticate env cfg (\<lambda>k. case expected_kind of None \<Rightarrow> True | Some x \<Rightarrow> k = x) now nd raw)"

text \<open>The \<open>uuid4\<close> values and the time text a storing step draws.\<close>

record inbound_fresh =
  if_record :: string
  if_ack_id :: string
  if_ack_uuid :: string
  if_now_text :: string

definition inbox_row_of :: "inbound_fresh \<Rightarrow> int \<Rightarrow> message_envelope \<Rightarrow> peer_row \<Rightarrow> string \<Rightarrow> inbox_row" where
  "inbox_row_of fv now e p hash =
     \<lparr>ib_id = if_record fv, ib_message_id = env_message_id e, ib_peer_id = pr_id p, ib_sender = env_sender_node_id e,
      ib_fingerprint = env_sender_fingerprint e, ib_kind = env_kind e, ib_hash = hash, ib_envelope = model_dump e,
      ib_payload = env_payload e, ib_version = env_protocol_version e, ib_conversation_id = env_conversation_id e,
      ib_correlation_id = env_correlation_id e, ib_causation_id = env_causation_id e,
      ib_reply_to_message_id = env_reply_to_message_id e, ib_mission_id = env_mission_id e,
      ib_mission_run_id = env_mission_run_id e, ib_mission_step_id = env_mission_step_id e, ib_ack_status = Accepted,
      ib_ack_id = if_ack_id fv, ib_duplicates = 0, ib_authenticated_at = now\<rparr>"

datatype inbound_result =
    Denied transport_code
  | Repeated "(string \<times> json) list"
  | Stored string "(string \<times> json) list"

definition store_and_ack :: "transport_env \<Rightarrow> node_identity \<Rightarrow> inbound_fresh \<Rightarrow> int \<Rightarrow> message_envelope \<Rightarrow> peer_row
    \<Rightarrow> string \<Rightarrow> inbox_row list \<Rightarrow> inbound_result \<times> inbox_row list" where
  "store_and_ack env ident fv now e p hash rows =
     (let ack = (\<lambda>st rid dup. build_ack (te_repr env) ident (if_ack_uuid fv) (if_now_text fv) (env_message_id e) st (Some rid) dup None)
      in case inbox_by_message_id rows (env_message_id e) of
           Some r \<Rightarrow>
             (if ib_hash r \<noteq> hash then (Denied TcIdCollision, rows)
              else case ack (ib_ack_status r) (ib_id r) True of
                     None \<Rightarrow> (Denied TcPythonError, rows)
                   | Some a \<Rightarrow> (Repeated a, increment_duplicate (env_message_id e) rows))
         | None \<Rightarrow>
             (case ack Accepted (if_record fv) False of
                None \<Rightarrow> (Denied TcPythonError, rows)
              | Some a \<Rightarrow> (Stored (if_record fv) a, rows @ [inbox_row_of fv now e p hash])))"

definition handle_inbound :: "transport_env \<Rightarrow> transport_config \<Rightarrow> inbound_fresh \<Rightarrow> int \<Rightarrow> json \<Rightarrow> tnode
    \<Rightarrow> inbound_result \<times> tnode" where
  "handle_inbound env cfg fv now raw nd =
     (case tn_identity nd of
        None \<Rightarrow> (Denied TcIdentityMissing, nd)
      | Some ident \<Rightarrow>
          (case authenticate env cfg (\<lambda>k. k \<in> deliverable_kinds) now nd raw of
             Inl c \<Rightarrow> (Denied c, nd)
           | Inr (e, p) \<Rightarrow>
               (case canonical_hash (te_repr env) (model_dump e) of
                  None \<Rightarrow> (Denied TcPythonError, nd)
                | Some hash \<Rightarrow>
                    let (res, rows) = store_and_ack env ident fv now e p hash (tn_inbox nd)
                    in (res, nd\<lparr>tn_inbox := rows\<rparr>))))"

text \<open>
  \<open>receive_message\<close>: a body is its length and the value \<open>json.loads\<close> gives, None where it raises. An error
  that is no \<open>TransportError\<close> is a status 500.
\<close>

definition status_of_code :: "transport_code \<Rightarrow> int" where
  "status_of_code c =
     (case c of TcPayloadTooLarge \<Rightarrow> 413 | TcPeerNotTrusted \<Rightarrow> 403 | TcMeshNotAuthorized \<Rightarrow> 403 | TcKeyMismatch \<Rightarrow> 403
      | TcInvalidSignature \<Rightarrow> 401 | TcRecipientMismatch \<Rightarrow> 421 | TcIdCollision \<Rightarrow> 409 | TcIdentityMissing \<Rightarrow> 503
      | TcPythonError \<Rightarrow> 500 | _ \<Rightarrow> 400)"

definition inbound_answer :: "inbound_result \<Rightarrow> int \<times> (string \<times> json) list option" where
  "inbound_answer r = (case r of Denied c \<Rightarrow> (status_of_code c, None) | Repeated a \<Rightarrow> (200, Some a) | Stored _ a \<Rightarrow> (200, Some a))"

definition receive_message :: "transport_env \<Rightarrow> transport_config \<Rightarrow> inbound_fresh \<Rightarrow> int \<Rightarrow> nat \<Rightarrow> json option \<Rightarrow> tnode
    \<Rightarrow> (int \<times> (string \<times> json) list option) \<times> tnode" where
  "receive_message env cfg fv now len body nd =
     (if tc_max_payload cfg < len then ((413, None), nd)
      else case body of
             None \<Rightarrow> ((400, None), nd)
           | Some raw \<Rightarrow> let (res, nd') = handle_inbound env cfg fv now raw nd in (inbound_answer res, nd'))"

section \<open>Creating a message\<close>

record send_request =
  sq_peer_id :: string
  sq_subject :: "string option"
  sq_text :: "string option"
  sq_data :: "(string \<times> json) list"
  sq_content_type :: string
  sq_kind :: string
  sq_conversation_id :: "string option"
  sq_correlation_id :: "string option"
  sq_reply_to_message_id :: "string option"
  sq_mission_id :: "string option"
  sq_expires_in :: "pyfloat option"

definition set_default :: "string \<Rightarrow> string option \<Rightarrow> (string \<times> json) list \<Rightarrow> (string \<times> json) list" where
  "set_default k v kvs = (case v of None \<Rightarrow> kvs | Some s \<Rightarrow> if k \<in> set (map fst kvs) then kvs else kvs @ [(k, JStr s)])"

definition outbound_body :: "send_request \<Rightarrow> (string \<times> json) list" where
  "outbound_body q = set_default ''text'' (sq_text q) (set_default ''subject'' (sq_subject q) (sq_data q))"

definition outbound_request :: "send_request \<Rightarrow> string \<Rightarrow> envelope_request" where
  "outbound_request q recipient =
     \<lparr>er_recipient_node_id = Some recipient, er_recipient_agent_id = None, er_kind = sq_kind q,
      er_payload = outbound_body q, er_conversation_id = sq_conversation_id q, er_correlation_id = sq_correlation_id q,
      er_causation_id = None, er_reply_to_message_id = sq_reply_to_message_id q, er_mission_id = sq_mission_id q,
      er_mission_run_id = None, er_mission_step_id = None, er_content_type = sq_content_type q,
      er_expires_in_seconds = sq_expires_in q, er_message_id = None, er_mesh_id = None, er_authority_id = None\<rparr>"

definition create_outbound_message :: "transport_env \<Rightarrow> transport_config \<Rightarrow> fresh_values \<Rightarrow> string \<Rightarrow> int \<Rightarrow> send_request
    \<Rightarrow> tnode \<Rightarrow> (transport_code + string) \<times> tnode" where
  "create_outbound_message env cfg fv rid now q nd =
     (case tn_identity nd of
        None \<Rightarrow> (Inl TcIdentityMissing, nd)
      | Some ident \<Rightarrow>
          (case peer_get (tn_peers nd) (sq_peer_id q) of
             None \<Rightarrow> (Inl TcPeerNotFound, nd)
           | Some p \<Rightarrow>
               (if pr_trust p = Revoked \<or> \<not> pr_enabled p then (Inl TcPeerNotTrusted, nd)
                else if \<not> truthy (pr_expected_node_id p) then (Inl TcNoNodeId, nd)
                else case build_envelope (te_repr env) ident fv (outbound_request q (or_empty (pr_expected_node_id p))) of
                       None \<Rightarrow> (Inl TcPythonError, nd)
                     | Some e \<Rightarrow>
                         (Inr rid, nd\<lparr>tn_outbox := tn_outbox nd @ [outbox_create_row now
                            \<lparr>oc_id = rid, oc_message_id = env_message_id e, oc_peer_id = pr_id p, oc_kind = sq_kind q,
                             oc_envelope = model_dump e, oc_hash = canonical_hash (te_repr env) (model_dump e),
                             oc_version = env_protocol_version e, oc_conversation_id = sq_conversation_id q,
                             oc_correlation_id = sq_correlation_id q, oc_reply_to_message_id = sq_reply_to_message_id q,
                             oc_mission_id = sq_mission_id q,
                             oc_expires_at = (if truthy (env_expires_at e) then te_fromiso env (or_empty (env_expires_at e)) else None),
                             oc_max_attempts = tc_max_attempts cfg\<rparr>]\<rparr>))))"

section \<open>One delivery\<close>

definition finish_delivery :: "string \<Rightarrow> string \<Rightarrow> (outbox_row \<Rightarrow> outbox_row) \<Rightarrow> tnode \<Rightarrow> tnode" where
  "finish_delivery rid owner chg nd = nd\<lparr>tn_outbox := release_and_update rid owner chg (tn_outbox nd)\<rparr>"

datatype begin_result = Begin_missing | Begin_ended outbox_status | Begin_sent delivery

definition reschedule_row :: "int \<Rightarrow> delivery_error \<Rightarrow> outbox_row \<Rightarrow> outbox_row" where
  "reschedule_row t err r = r\<lparr>ob_status := Retry_scheduled, ob_next_attempt_at := Some t, ob_error := Some err\<rparr>"

definition fail_row :: "delivery_error \<Rightarrow> outbox_row \<Rightarrow> outbox_row" where
  "fail_row err r = r\<lparr>ob_status := Failed, ob_error := Some err\<rparr>"

definition dead_row :: "delivery_error \<Rightarrow> outbox_row \<Rightarrow> outbox_row" where
  "dead_row err r = r\<lparr>ob_status := Dead_letter, ob_error := Some err, ob_dead_letter := Some err\<rparr>"

definition identity_retry_us :: int where "identity_retry_us = 5000000"

text \<open>\<open>deliver_record\<close> up to the request.\<close>

definition deliver_begin :: "string \<Rightarrow> string \<Rightarrow> int \<Rightarrow> tnode \<Rightarrow> begin_result \<times> tnode" where
  "deliver_begin rid owner now nd =
     (case outbox_get (tn_outbox nd) rid of
        None \<Rightarrow> (Begin_missing, nd)
      | Some r \<Rightarrow>
          (case tn_identity nd of
             None \<Rightarrow> (Begin_ended Retry_scheduled,
                      finish_delivery rid owner (reschedule_row (now + identity_retry_us) De_identity_missing) nd)
           | Some _ \<Rightarrow>
               (if lapsed now (ob_expires_at r) then (Begin_ended Failed, finish_delivery rid owner (fail_row De_expired) nd)
                else case peer_get (tn_peers nd) (ob_peer_id r) of
                       None \<Rightarrow> (Begin_ended Failed, finish_delivery rid owner (fail_row De_peer) nd)
                     | Some p \<Rightarrow>
                         (if pr_trust p = Revoked \<or> \<not> pr_enabled p
                          then (Begin_ended Failed, finish_delivery rid owner (fail_row De_peer) nd)
                          else (Begin_sent \<lparr>dl_record = rid, dl_owner = owner, dl_message_id = ob_message_id r,
                                  dl_peer_id = ob_peer_id r, dl_envelope = ob_envelope r, dl_attempts = ob_attempts r,
                                  dl_max_attempts = ob_max_attempts r, dl_peer = p\<rparr>, nd)))))"

text \<open>
  \<open>_backoff\<close> in binary64. \<open>float * int\<close> converts the power of two first and raises when it is not below
  $2^{1024}$; \<open>u\<close> is the \<open>random()\<close> that \<open>uniform\<close> draws.
\<close>

definition backoff_base :: "transport_config \<Rightarrow> int \<Rightarrow> pyfloat option" where
  "backoff_base cfg attempt =
     (let n = nat (max 0 (attempt - 1))
      in if 1024 \<le> n then None
         else Some (fmin (fmul (tc_initial_backoff cfg) (Fin (2 ^ n))) (tc_max_backoff cfg)))"

definition backoff :: "transport_config \<Rightarrow> pyfloat \<Rightarrow> int \<Rightarrow> pyfloat option" where
  "backoff cfg u attempt =
     map_option (\<lambda>base. fadd base (fadd (Fin 0) (fmul (fsub (tc_jitter cfg) (Fin 0)) u))) (backoff_base cfg attempt)"

definition retry_time :: "transport_config \<Rightarrow> pyfloat \<Rightarrow> int \<Rightarrow> int \<Rightarrow> int option" where
  "retry_time cfg u attempt now =
     (case backoff cfg u attempt of None \<Rightarrow> None | Some d \<Rightarrow> map_option (\<lambda>us. now + us) (timedelta_us d))"

text \<open>A result None is an exception that leaves the record claimed.\<close>

definition handle_delivery_error :: "transport_config \<Rightarrow> pyfloat \<Rightarrow> int \<Rightarrow> delivery \<Rightarrow> transport_error \<Rightarrow> tnode
    \<Rightarrow> outbox_status option \<times> tnode" where
  "handle_delivery_error cfg u now d e nd0 =
     (let nd = nd0\<lparr>tn_peers := peer_record_failure now (dl_peer_id d) (tn_peers nd0)\<rparr>;
          err = De_transport (tf_code e);
          http = (\<lambda>r. r\<lparr>ob_http_status := tf_status e\<rparr>);
          fin = (\<lambda>chg. finish_delivery (dl_record d) (dl_owner d) (\<lambda>r. http (chg r)) nd)
      in if tf_retryable e \<and> dl_attempts d < dl_max_attempts d
         then case retry_time cfg u (dl_attempts d) now of
                None \<Rightarrow> (None, nd)
              | Some t \<Rightarrow> (Some Retry_scheduled, fin (reschedule_row t err))
         else if tf_retryable e then (Some Dead_letter, fin (dead_row err))
         else (Some Failed, fin (fail_row err)))"

definition handle_ack_failure :: "transport_config \<Rightarrow> pyfloat \<Rightarrow> int \<Rightarrow> delivery \<Rightarrow> tnode \<Rightarrow> outbox_status option \<times> tnode" where
  "handle_ack_failure cfg u now d nd0 =
     (let nd = nd0\<lparr>tn_peers := peer_record_failure now (dl_peer_id d) (tn_peers nd0)\<rparr>;
          fin = (\<lambda>chg. finish_delivery (dl_record d) (dl_owner d) (\<lambda>r. (chg r)\<lparr>ob_delivered_at := Some now\<rparr>) nd)
      in if dl_attempts d < dl_max_attempts d
         then case retry_time cfg u (dl_attempts d) now of
                None \<Rightarrow> (None, nd)
              | Some t \<Rightarrow> (Some Retry_scheduled, fin (reschedule_row t De_invalid_ack))
         else (Some Dead_letter, fin (dead_row De_invalid_ack)))"

definition acknowledge_row :: "int \<Rightarrow> json \<Rightarrow> int \<Rightarrow> outbox_row \<Rightarrow> outbox_row" where
  "acknowledge_row now remote status r =
     r\<lparr>ob_status := Acknowledged, ob_delivered_at := Some now, ob_acknowledged_at := Some now,
       ob_remote_ack_id := remote, ob_http_status := Some status, ob_error := None\<rparr>"

text \<open>The driver cannot bind a list, an object or an integer beyond 64 bits, so committing one raises.\<close>

definition bindable :: "json \<Rightarrow> bool" where
  "bindable j = (case j of JList _ \<Rightarrow> False | JObj _ \<Rightarrow> False | JInt n \<Rightarrow> - (2 ^ 63) \<le> n \<and> n < 2 ^ 63 | _ \<Rightarrow> True)"

definition owns :: "tnode \<Rightarrow> string \<Rightarrow> string \<Rightarrow> bool" where
  "owns nd rid owner = (case outbox_get (tn_outbox nd) rid of None \<Rightarrow> False | Some r \<Rightarrow> ob_owner r = Some owner)"

text \<open>\<open>deliver_record\<close> from the answer on.\<close>

definition deliver_end :: "transport_env \<Rightarrow> transport_config \<Rightarrow> pyfloat \<Rightarrow> int \<Rightarrow> delivery \<Rightarrow> http_outcome \<Rightarrow> tnode
    \<Rightarrow> outbox_status option \<times> tnode" where
  "deliver_end env cfg u now d out nd =
     (case peer_request env cfg (dl_peer d) out of
        Inl e \<Rightarrow> handle_delivery_error cfg u now d e nd
      | Inr (status, body) \<Rightarrow>
          (case verify_ack (te_repr env) (peer_verifies env (pr_public_key (dl_peer d))) (JObj body)
                  (or_empty (pr_public_key (dl_peer d))) (dl_message_id d) (pr_expected_node_id (dl_peer d)) of
             Check_raises \<Rightarrow> (None, nd)
           | Check_ok _ \<Rightarrow>
               (let remote = json_get ''acknowledgement_id'' body
                in if owns nd (dl_record d) (dl_owner d) \<and> \<not> bindable remote then (None, nd)
                   else let nd' = finish_delivery (dl_record d) (dl_owner d) (acknowledge_row now remote status) nd
                        in (Some Acknowledged, nd'\<lparr>tn_peers := peer_record_success now (dl_peer_id d) (tn_peers nd')\<rparr>))
           | _ \<Rightarrow> handle_ack_failure cfg u now d nd))"

section \<open>Operator actions\<close>

definition retry_row :: "int \<Rightarrow> outbox_row \<Rightarrow> outbox_row" where
  "retry_row now r = r\<lparr>ob_status := Retry_scheduled, ob_next_attempt_at := Some now, ob_dead_letter := None,
     ob_owner := None, ob_claim_expires := None\<rparr>"

definition retry_message :: "string \<Rightarrow> int \<Rightarrow> tnode \<Rightarrow> bool \<times> tnode" where
  "retry_message rid now nd =
     (case outbox_get (tn_outbox nd) rid of
        None \<Rightarrow> (False, nd)
      | Some r \<Rightarrow>
          (if ob_status r \<noteq> Failed \<and> ob_status r \<noteq> Dead_letter then (ob_status r \<in> claimable_outbox_states, nd)
           else (True, nd\<lparr>tn_outbox := outbox_update rid (retry_row now) (tn_outbox nd)\<rparr>)))"

definition cancel_row :: "outbox_row \<Rightarrow> outbox_row" where
  "cancel_row r = r\<lparr>ob_status := Cancelled, ob_owner := None, ob_claim_expires := None, ob_next_attempt_at := None\<rparr>"

definition cancel_message :: "string \<Rightarrow> tnode \<Rightarrow> bool \<times> tnode" where
  "cancel_message rid nd =
     (case outbox_get (tn_outbox nd) rid of
        None \<Rightarrow> (False, nd)
      | Some r \<Rightarrow>
          (if ob_status r = Acknowledged \<or> ob_status r = Cancelled then (ob_status r = Cancelled, nd)
           else (True, nd\<lparr>tn_outbox := outbox_update rid cancel_row (tn_outbox nd)\<rparr>)))"

section \<open>The worker\<close>

definition lease_end :: "transport_config \<Rightarrow> int \<Rightarrow> int option" where
  "lease_end cfg now = map_option (\<lambda>us. now + us) (timedelta_us (tc_lease cfg))"

definition claim_node :: "string \<Rightarrow> string \<Rightarrow> int \<Rightarrow> int \<Rightarrow> tnode \<Rightarrow> bool \<times> tnode" where
  "claim_node rid owner now t nd =
     (let (ok, rows) = claim rid owner now t (tn_outbox nd) in (ok, nd\<lparr>tn_outbox := rows\<rparr>))"

definition claim_task :: "string \<Rightarrow> int \<Rightarrow> int \<Rightarrow> string \<Rightarrow> tnode \<Rightarrow> tnode" where
  "claim_task owner now t rid nd =
     (let (ok, nd') = claim_node rid owner now t nd
      in if ok then nd'\<lparr>tn_tasks := tn_tasks nd' @ [Queued rid owner]\<rparr> else nd')"

text \<open>\<open>_poll_once\<close>; \<open>free\<close> is the semaphore's value. No lease end is an exception that the poll loop catches.\<close>

definition poll_deliveries :: "transport_config \<Rightarrow> nat \<Rightarrow> int \<Rightarrow> tnode \<Rightarrow> tnode" where
  "poll_deliveries cfg free now nd =
     (case (tn_worker nd, lease_end cfg now) of
        (Some owner, Some t) \<Rightarrow> fold (claim_task owner now t) (due_ids now free (tn_outbox nd)) nd
      | _ \<Rightarrow> nd)"

definition send_now :: "transport_config \<Rightarrow> string \<Rightarrow> string \<Rightarrow> int \<Rightarrow> tnode \<Rightarrow> begin_result option \<times> tnode" where
  "send_now cfg rid owner now nd =
     (case lease_end cfg now of
        None \<Rightarrow> (None, nd)
      | Some t \<Rightarrow>
          (let (ok, nd') = claim_node rid owner now t nd
           in if ok then let (b, nd'') = deliver_begin rid owner now nd' in (Some b, nd'') else (None, nd')))"

definition task_owner :: "task \<Rightarrow> string" where
  "task_owner t = (case t of Queued _ o' \<Rightarrow> o' | Sent d \<Rightarrow> dl_owner d)"

definition task_record :: "task \<Rightarrow> string" where
  "task_record t = (case t of Queued r _ \<Rightarrow> r | Sent d \<Rightarrow> dl_record d)"

definition recover_node :: "int \<Rightarrow> tnode \<Rightarrow> tnode" where
  "recover_node now nd = nd\<lparr>tn_outbox := recover_expired_claims now (tn_outbox nd)\<rparr>"

text \<open>A start that finds a worker running does nothing; a new worker draws a new owner id.\<close>

definition worker_start :: "transport_config \<Rightarrow> string \<Rightarrow> int \<Rightarrow> tnode \<Rightarrow> tnode" where
  "worker_start cfg owner now nd =
     (if tn_worker nd \<noteq> None then nd
      else (if tc_recovery_enabled cfg then recover_node now else (\<lambda>x. x)) (nd\<lparr>tn_worker := Some owner\<rparr>))"

text \<open>The worker's deliveries are waited for; those that overrun the grace are cancelled and vanish.\<close>

definition worker_shutdown :: "int \<Rightarrow> tnode \<Rightarrow> tnode" where
  "worker_shutdown now nd =
     (if tn_worker nd = None then nd
      else (recover_node now nd)\<lparr>tn_worker := None,
             tn_tasks := filter (\<lambda>t. Some (task_owner t) \<noteq> tn_worker nd) (tn_tasks nd)\<rparr>)"

end
