(* ===== verification/TransportRun.thy ===== *)
theory TransportRun
  imports TransportService
begin

text \<open>
  The transport of one node as a state machine: every operation of \<open>TransportService\<close> and of its worker is an
  event, a run is any sequence of possible events, and a delivery under way may be answered at any later time, with
  anything. One process owns the tables. The lemmas give the life of an outbox record and of an inbox record.
\<close>

section \<open>Events\<close>

datatype tevent =
    Ev_create_peer string peer_create
  | Ev_trust string "string option" "string option"
  | Ev_revoke string
  | Ev_enable string bool
  | Ev_patch string peer_patch
  | Ev_tested peer_row http_outcome int
  | Ev_manifest peer_row http_outcome int
  | Ev_meshes mesh_db
  | Ev_identity node_identity
  | Ev_receive inbound_fresh int nat "json option"
  | Ev_send fresh_values string int send_request
  | Ev_poll nat int
  | Ev_begin nat int
  | Ev_answer nat http_outcome pyfloat int
  | Ev_send_now string string int
  | Ev_retry string int
  | Ev_cancel string
  | Ev_start string int
  | Ev_shutdown int
  | Ev_crash

definition drop_nth :: "nat \<Rightarrow> 'a list \<Rightarrow> 'a list" where
  "drop_nth i xs = take i xs @ drop (Suc i) xs"

definition after_begin :: "begin_result \<times> tnode \<Rightarrow> tnode" where
  "after_begin b = (case b of (Begin_sent d, nd) \<Rightarrow> nd\<lparr>tn_tasks := tn_tasks nd @ [Sent d]\<rparr> | (_, nd) \<Rightarrow> nd)"

text \<open>\<open>Ev_tested\<close> and \<open>Ev_manifest\<close> carry the peer's row as it was read before the request.\<close>

fun texec :: "transport_env \<Rightarrow> transport_config \<Rightarrow> tevent \<Rightarrow> tnode \<Rightarrow> tnode" where
  "texec env cfg (Ev_create_peer pid q) nd = snd (create_peer pid q nd)"
| "texec env cfg (Ev_trust pid key fp) nd = snd (trust_peer pid key fp nd)"
| "texec env cfg (Ev_revoke pid) nd = snd (revoke_peer pid nd)"
| "texec env cfg (Ev_enable pid b) nd = snd (set_peer_enabled pid b nd)"
| "texec env cfg (Ev_patch pid q) nd = snd (update_peer pid q nd)"
| "texec env cfg (Ev_tested p out now) nd = snd (test_peer env cfg p out now nd)"
| "texec env cfg (Ev_manifest p out now) nd = snd (refresh_manifest env cfg p out now nd)"
| "texec env cfg (Ev_meshes db) nd = nd\<lparr>tn_meshes := db\<rparr>"
| "texec env cfg (Ev_identity ident) nd = nd\<lparr>tn_identity := Some ident\<rparr>"
| "texec env cfg (Ev_receive fv now len body) nd = snd (receive_message env cfg fv now len body nd)"
| "texec env cfg (Ev_send fv rid now q) nd = snd (create_outbound_message env cfg fv rid now q nd)"
| "texec env cfg (Ev_poll free now) nd = poll_deliveries cfg free now nd"
| "texec env cfg (Ev_begin i now) nd =
     (case tn_tasks nd ! i of
        Queued rid owner \<Rightarrow> after_begin (deliver_begin rid owner now (nd\<lparr>tn_tasks := drop_nth i (tn_tasks nd)\<rparr>))
      | Sent _ \<Rightarrow> nd)"
| "texec env cfg (Ev_answer i out u now) nd =
     (case tn_tasks nd ! i of
        Sent d \<Rightarrow> snd (deliver_end env cfg u now d out (nd\<lparr>tn_tasks := drop_nth i (tn_tasks nd)\<rparr>))
      | Queued _ _ \<Rightarrow> nd)"
| "texec env cfg (Ev_send_now rid owner now) nd =
     (case send_now cfg rid owner now nd of (Some b, nd') \<Rightarrow> after_begin (b, nd') | (None, nd') \<Rightarrow> nd')"
| "texec env cfg (Ev_retry rid now) nd = snd (retry_message rid now nd)"
| "texec env cfg (Ev_cancel rid) nd = snd (cancel_message rid nd)"
| "texec env cfg (Ev_start owner now) nd = worker_start cfg owner now nd"
| "texec env cfg (Ev_shutdown now) nd = worker_shutdown now nd"
| "texec env cfg Ev_crash nd = nd\<lparr>tn_worker := None, tn_tasks := []\<rparr>"

text \<open>\<open>uuid4\<close> never gives a value twice.\<close>

definition used_owners :: "tnode \<Rightarrow> string set" where
  "used_owners nd = set (map task_owner (tn_tasks nd)) \<union> (case tn_worker nd of None \<Rightarrow> {} | Some w \<Rightarrow> {w})"

definition possible :: "tevent \<Rightarrow> tnode \<Rightarrow> bool" where
  "possible ev nd =
     (case ev of
        Ev_create_peer pid _ \<Rightarrow> pid \<notin> pr_id ` set (tn_peers nd)
      | Ev_receive fv _ _ _ \<Rightarrow> if_record fv \<notin> ib_id ` set (tn_inbox nd)
      | Ev_send fv rid _ _ \<Rightarrow> rid \<notin> ob_id ` set (tn_outbox nd) \<and> fv_uuid fv \<notin> ob_message_id ` set (tn_outbox nd)
      | Ev_begin i _ \<Rightarrow> i < length (tn_tasks nd)
      | Ev_answer i _ _ _ \<Rightarrow> i < length (tn_tasks nd)
      | Ev_send_now _ owner _ \<Rightarrow> owner \<notin> used_owners nd
      | Ev_start owner _ \<Rightarrow> owner \<notin> used_owners nd
      | _ \<Rightarrow> True)"

definition new_node :: "tnode \<Rightarrow> bool" where
  "new_node nd \<longleftrightarrow> tn_outbox nd = [] \<and> tn_inbox nd = [] \<and> tn_worker nd = None \<and> tn_tasks nd = []"

inductive trun :: "transport_env \<Rightarrow> transport_config \<Rightarrow> tnode \<Rightarrow> (tevent \<times> tnode) list \<Rightarrow> tnode \<Rightarrow> bool"
  for env cfg nd0 where
  trun_start: "trun env cfg nd0 [] nd0"
| trun_step: "trun env cfg nd0 tr nd \<Longrightarrow> possible ev nd \<Longrightarrow>
    trun env cfg nd0 (tr @ [(ev, nd)]) (texec env cfg ev nd)"

inductive_simps trun_Nil [simp]: "trun env cfg nd0 [] nd"
inductive_simps trun_snoc: "trun env cfg nd0 (tr @ [st]) nd"

lemma task_simps [simp]:
  "task_record (Queued rid owner) = rid" "task_owner (Queued rid owner) = owner"
  "task_record (Sent d) = dl_record d" "task_owner (Sent d) = dl_owner d"
  by (simp_all add: task_record_def task_owner_def)

section \<open>The outbox invariant\<close>

text \<open>
  \<open>g\<close> counts, for each record, the times it was put back without its attempts being looked at.
\<close>

definition row_ok :: "int \<Rightarrow> outbox_row \<Rightarrow> bool" where
  "row_ok g r \<longleftrightarrow> 0 \<le> g \<and> 0 \<le> ob_attempts r \<and> ob_attempts r \<le> ob_max_attempts r + g \<and>
     (ob_status r \<in> claimable_outbox_states \<longrightarrow> ob_attempts r < ob_max_attempts r + g) \<and>
     (ob_owner r \<noteq> None \<longrightarrow> ob_status r = In_flight)"

definition snapshot_ok :: "task \<Rightarrow> outbox_row \<Rightarrow> bool" where
  "snapshot_ok t r \<longleftrightarrow>
     (case t of Queued _ _ \<Rightarrow> True
      | Sent d \<Rightarrow> dl_attempts d = ob_attempts r \<and> dl_max_attempts d = ob_max_attempts r \<and>
          dl_message_id d = ob_message_id r \<and> dl_peer_id d = ob_peer_id r \<and> dl_envelope d = ob_envelope r)"

definition task_ok :: "string option \<Rightarrow> outbox_row list \<Rightarrow> task \<Rightarrow> bool" where
  "task_ok w rows t \<longleftrightarrow>
     (\<exists>r. outbox_get rows (task_record t) = Some r \<and>
        (ob_owner r = Some (task_owner t) \<longrightarrow> snapshot_ok t r) \<and>
        (w = Some (task_owner t) \<longrightarrow> ob_owner r = Some (task_owner t) \<or> ob_status r = Cancelled))"

definition task_key :: "task \<Rightarrow> string \<times> string" where
  "task_key t = (task_record t, task_owner t)"

definition outbox_ok :: "(string \<Rightarrow> int) \<Rightarrow> tnode \<Rightarrow> bool" where
  "outbox_ok g nd \<longleftrightarrow>
     (\<forall>rid r. outbox_get (tn_outbox nd) rid = Some r \<longrightarrow> row_ok (g rid) r) \<and>
     (\<forall>t \<in> set (tn_tasks nd). task_ok (tn_worker nd) (tn_outbox nd) t) \<and>
     distinct (map task_key (tn_tasks nd)) \<and> distinct (map ob_id (tn_outbox nd))"

text \<open>
  A change of one record keeps the invariant when the new record is in order and the other deliveries of the
  record stay in order.
\<close>

lemma outbox_ok_change:
  assumes ok: "outbox_ok g nd" and id: "\<And>r. ob_id (f r) = ob_id r"
    and row: "\<And>r. outbox_get (tn_outbox nd) rid = Some r \<Longrightarrow> row_ok (g' rid) (f r)"
    and others: "\<And>j. j \<noteq> rid \<Longrightarrow> g j \<le> g' j"
    and tasks: "\<And>t. t \<in> set ts \<Longrightarrow> task_record t \<noteq> rid \<Longrightarrow> t \<in> set (tn_tasks nd)"
    and here: "\<And>t r. t \<in> set ts \<Longrightarrow> task_record t = rid \<Longrightarrow> outbox_get (tn_outbox nd) rid = Some r \<Longrightarrow>
      (ob_owner (f r) = Some (task_owner t) \<longrightarrow> snapshot_ok t (f r)) \<and>
      (w = Some (task_owner t) \<longrightarrow> ob_owner (f r) = Some (task_owner t) \<or> ob_status (f r) = Cancelled)"
    and known: "\<And>t. t \<in> set ts \<Longrightarrow> task_record t = rid \<Longrightarrow> outbox_get (tn_outbox nd) rid \<noteq> None"
    and w: "w = tn_worker nd \<or> w = None" and dist: "distinct (map task_key ts)"
    and nd': "tn_outbox nd' = outbox_update rid f (tn_outbox nd)" "tn_tasks nd' = ts" "tn_worker nd' = w"
  shows "outbox_ok g' nd'"
proof -
  have get: "outbox_get (tn_outbox nd') j =
      (if j = rid then map_option f (outbox_get (tn_outbox nd) j) else outbox_get (tn_outbox nd) j)" for j
    using id by (simp add: nd'(1) tbl_get_upd)
  have rows: "row_ok (g' j) r" if "outbox_get (tn_outbox nd') j = Some r" for j r
  proof (cases "j = rid")
    case True then show ?thesis using that row by (auto simp: get)
  next
    case False
    then have "row_ok (g j) r" using that ok by (auto simp: get outbox_ok_def)
    then show ?thesis using others [OF False] by (auto simp: row_ok_def)
  qed
  have "task_ok w (tn_outbox nd') t" if t: "t \<in> set ts" for t
  proof (cases "task_record t = rid")
    case True
    then obtain r where r: "outbox_get (tn_outbox nd) rid = Some r" using known [OF t] by auto
    then show ?thesis using here [OF t True r] True by (auto simp: task_ok_def get)
  next
    case False
    then have "task_ok (tn_worker nd) (tn_outbox nd) t" using tasks [OF t] ok by (auto simp: outbox_ok_def)
    then show ?thesis using False w by (auto simp: task_ok_def get)
  qed
  moreover have "distinct (map ob_id (tn_outbox nd'))" using ok id by (simp add: nd'(1) outbox_ok_def tbl_upd_keys)
  ultimately show ?thesis using rows dist by (auto simp: outbox_ok_def nd'(2,3))
qed

lemma outbox_ok_cong:
  "tn_outbox nd' = tn_outbox nd \<Longrightarrow> tn_tasks nd' = tn_tasks nd \<Longrightarrow> tn_worker nd' = tn_worker nd \<Longrightarrow>
   outbox_ok g nd' = outbox_ok g nd"
  by (simp add: outbox_ok_def)

lemma outbox_ok_mono: "outbox_ok g nd \<Longrightarrow> (\<And>j. g j \<le> g' j) \<Longrightarrow> outbox_ok g' nd"
  unfolding outbox_ok_def row_ok_def by (smt (verit))

lemma outbox_ok_tasks:
  assumes "outbox_ok g nd" "set ts \<subseteq> set (tn_tasks nd)" "distinct (map task_key ts)"
  shows "outbox_ok g (nd\<lparr>tn_tasks := ts\<rparr>)"
  using assms by (auto simp: outbox_ok_def)

lemma drop_nth_distinct:
  assumes "i < length xs" "distinct (map k xs)"
  shows "distinct (map k (drop_nth i xs))" "set (drop_nth i xs) \<subseteq> set xs" "\<And>t. t \<in> set (drop_nth i xs) \<Longrightarrow> k t \<noteq> k (xs ! i)"
proof -
  have e: "xs = take i xs @ xs ! i # drop (Suc i) xs" using assms(1) by (rule id_take_nth_drop)
  have "distinct (map k (take i xs @ xs ! i # drop (Suc i) xs))" using assms(2) e by simp
  then show "distinct (map k (drop_nth i xs))" "\<And>t. t \<in> set (drop_nth i xs) \<Longrightarrow> k t \<noteq> k (xs ! i)"
    by (auto simp: drop_nth_def image_iff)
  show "set (drop_nth i xs) \<subseteq> set xs" by (auto simp: drop_nth_def dest: in_set_takeD in_set_dropD)
qed

lemma drop_nth_last [simp]: "drop_nth (length xs) (xs @ [x]) = xs"
  by (simp add: drop_nth_def)

section \<open>Each operation keeps it\<close>

lemma claim_task_ok:
  assumes ok: "outbox_ok g nd" and new: "tn_worker nd = Some owner \<or> owner \<notin> used_owners nd"
  shows "outbox_ok g (claim_task owner now x rid nd)"
proof (cases "\<exists>r. outbox_get (tn_outbox nd) rid = Some r \<and> claimable now r")
  case False
  then have "claim_task owner now x rid nd = nd" by (auto simp: claim_task_def claim_node_def claim_def split: option.splits)
  then show ?thesis using ok by simp
next
  case True
  then obtain r where r: "outbox_get (tn_outbox nd) rid = Some r" and c: "claimable now r" by blast
  have rok: "row_ok (g rid) r" using ok r by (simp add: outbox_ok_def)
  have free: "ob_owner r = None" "ob_status r \<noteq> Cancelled"
    using rok c by (auto simp: row_ok_def claimable_def claimable_outbox_states_def)
  have other: "task_owner t \<noteq> owner \<and> tn_worker nd \<noteq> Some (task_owner t)"
    if t: "t \<in> set (tn_tasks nd)" "task_record t = rid" for t
  proof -
    have "task_ok (tn_worker nd) (tn_outbox nd) t" using ok t(1) by (simp add: outbox_ok_def)
    then have "tn_worker nd \<noteq> Some (task_owner t)" using r free t(2) by (auto simp: task_ok_def)
    moreover have "task_owner t \<in> used_owners nd" using t(1) by (simp add: used_owners_def)
    ultimately show ?thesis using new by auto
  qed
  let ?nd = "nd\<lparr>tn_outbox := outbox_update rid (claim_row owner now x) (tn_outbox nd), tn_tasks := tn_tasks nd @ [Queued rid owner]\<rparr>"
  have e: "claim_task owner now x rid nd = ?nd"
    using r c by (simp add: claim_task_def claim_node_def claim_def)
  have keys: "(rid, owner) \<notin> set (map task_key (tn_tasks nd))" using other by (auto simp: task_key_def)
  have "outbox_ok g ?nd"
  proof (rule outbox_ok_change [OF ok, where f = "claim_row owner now x" and rid = rid and ts = "tn_tasks nd @ [Queued rid owner]"
        and w = "tn_worker nd"])
    show "row_ok (g rid) (claim_row owner now x r')" if "outbox_get (tn_outbox nd) rid = Some r'" for r'
      using that r rok c by (auto simp: row_ok_def claimable_def claimable_outbox_states_def)
    show "distinct (map task_key (tn_tasks nd @ [Queued rid owner]))"
      using keys ok by (simp add: outbox_ok_def task_key_def)
    show "(ob_owner (claim_row owner now x r') = Some (task_owner t) \<longrightarrow> snapshot_ok t (claim_row owner now x r')) \<and>
        (tn_worker nd = Some (task_owner t) \<longrightarrow>
           ob_owner (claim_row owner now x r') = Some (task_owner t) \<or> ob_status (claim_row owner now x r') = Cancelled)"
      if "t \<in> set (tn_tasks nd @ [Queued rid owner])" "task_record t = rid" for t r'
      using other [of t] that by (cases "t = Queued rid owner") (simp_all add: snapshot_ok_def, auto)
  qed (use r in auto)
  then show ?thesis by (simp add: e)
qed

text \<open>The task at \<open>i\<close> ends and releases its record with \<open>chg\<close>.\<close>

lemma finish_ok:
  assumes ok: "outbox_ok g nd" and i: "i < length (tn_tasks nd)"
    and key: "task_record (tn_tasks nd ! i) = rid" "task_owner (tn_tasks nd ! i) = owner"
    and id: "\<And>r. ob_id (chg r) = ob_id r"
    and chg: "\<And>r. outbox_get (tn_outbox nd) rid = Some r \<Longrightarrow> ob_owner r = Some owner \<Longrightarrow> row_ok (g rid) r \<Longrightarrow>
      snapshot_ok (tn_tasks nd ! i) r \<Longrightarrow> row_ok (g' rid) ((chg r)\<lparr>ob_owner := None, ob_claim_expires := None\<rparr>)"
    and g: "\<And>j. g j \<le> g' j"
  shows "outbox_ok g' (finish_delivery rid owner chg (nd\<lparr>tn_tasks := drop_nth i (tn_tasks nd)\<rparr>))"
proof -
  let ?t = "tn_tasks nd ! i"
  have t: "task_ok (tn_worker nd) (tn_outbox nd) ?t" using ok i by (simp add: outbox_ok_def)
  have dist: "distinct (map task_key (tn_tasks nd))" using ok by (simp add: outbox_ok_def)
  note drop = drop_nth_distinct [OF i dist]
  show ?thesis unfolding finish_delivery_def release_and_update_def
  proof (rule outbox_ok_change [OF ok, where f = "release_row owner chg" and rid = rid and ts = "drop_nth i (tn_tasks nd)"
        and w = "tn_worker nd"])
    show "row_ok (g' rid) (release_row owner chg r)" if r: "outbox_get (tn_outbox nd) rid = Some r" for r
    proof -
      have rok: "row_ok (g rid) r" using ok r by (simp add: outbox_ok_def)
      then have "row_ok (g' rid) r" using g [of rid] by (auto simp: row_ok_def)
      moreover have "snapshot_ok ?t r" if "ob_owner r = Some owner" using t r key that by (auto simp: task_ok_def)
      ultimately show ?thesis using chg [OF r _ rok] by (simp add: release_row_def)
    qed
    show "(ob_owner (release_row owner chg r) = Some (task_owner t) \<longrightarrow> snapshot_ok t (release_row owner chg r)) \<and>
        (tn_worker nd = Some (task_owner t) \<longrightarrow>
           ob_owner (release_row owner chg r) = Some (task_owner t) \<or> ob_status (release_row owner chg r) = Cancelled)"
      if t': "t \<in> set (drop_nth i (tn_tasks nd))" "task_record t = rid" and r: "outbox_get (tn_outbox nd) rid = Some r" for t r
    proof -
      have "task_key t \<noteq> task_key ?t" using drop(3) t'(1) by blast
      then have "task_owner t \<noteq> owner" using key t'(2) by (simp add: task_key_def)
      moreover have "task_ok (tn_worker nd) (tn_outbox nd) t" using ok drop(2) t'(1) by (auto simp: outbox_ok_def)
      moreover have "row_ok (g rid) r" using ok r by (simp add: outbox_ok_def)
      ultimately show ?thesis using r t'(2) by (auto simp: task_ok_def release_row_def row_ok_def)
    qed
    show "outbox_get (tn_outbox nd) rid \<noteq> None" using t key by (auto simp: task_ok_def)
  qed (use id g drop in \<open>auto simp: release_row_def\<close>)
qed

lemma drop_task_ok:
  "outbox_ok g nd \<Longrightarrow> i < length (tn_tasks nd) \<Longrightarrow> outbox_ok g (nd\<lparr>tn_tasks := drop_nth i (tn_tasks nd)\<rparr>)"
  using drop_nth_distinct [of i "tn_tasks nd" task_key] by (intro outbox_ok_tasks) (auto simp: outbox_ok_def)

end
