(* ===== verification/TransportLife.thy ===== *)
theory TransportLife
  imports TransportRun
begin

text \<open>
  The life of an outbox record under every interleaving of the operator, the worker, its restarts and the answers
  of peers: the invariant of \<open>TransportRun\<close> holds in every run, so attempts are bounded and what is
  acknowledged or cancelled stays as it is.
\<close>

section \<open>Deliveries\<close>

lemmas row_changes = reschedule_row_def fail_row_def dead_row_def acknowledge_row_def retry_row_def cancel_row_def

lemma begin_ok:
  assumes ok: "outbox_ok g nd" and i: "i < length (tn_tasks nd)" and t: "tn_tasks nd ! i = Queued rid owner"
    and g: "\<And>j. g j \<le> g' j" and missing: "tn_identity nd = None \<Longrightarrow> g rid + 1 \<le> g' rid"
  shows "outbox_ok g' (after_begin (deliver_begin rid owner now (nd\<lparr>tn_tasks := drop_nth i (tn_tasks nd)\<rparr>)))"
proof -
  let ?nd = "nd\<lparr>tn_tasks := drop_nth i (tn_tasks nd)\<rparr>"
  have fin: "outbox_ok g' (finish_delivery rid owner chg ?nd)"
    if "\<And>r. ob_id (chg r) = ob_id r"
      "\<And>r. ob_owner r = Some owner \<Longrightarrow> row_ok (g rid) r \<Longrightarrow> row_ok (g' rid) ((chg r)\<lparr>ob_owner := None, ob_claim_expires := None\<rparr>)" for chg
    using finish_ok [OF ok i, of rid owner chg g'] t g that by simp
  have failed: "outbox_ok g' (finish_delivery rid owner (fail_row e) ?nd)" for e
    by (rule fin) (use g [of rid] in \<open>auto simp: row_changes row_ok_def claimable_outbox_states_def\<close>)
  have put_back: "outbox_ok g' (finish_delivery rid owner (reschedule_row x e) ?nd)" if "tn_identity nd = None" for x e
    by (rule fin) (use missing [OF that] in \<open>auto simp: row_changes row_ok_def\<close>)
  have key: "task_ok (tn_worker nd) (tn_outbox nd) (Queued rid owner)" using ok i t by (auto simp: outbox_ok_def dest: nth_mem)
  have dropped: "outbox_ok g' ?nd" using outbox_ok_mono [OF drop_task_ok [OF ok i] g] .
  have sent: "outbox_ok g' (?nd\<lparr>tn_tasks := drop_nth i (tn_tasks nd) @ [Sent d]\<rparr>)"
    if "outbox_get (tn_outbox nd) rid = Some r" "dl_record d = rid" "dl_owner d = owner" "dl_attempts d = ob_attempts r"
      "dl_max_attempts d = ob_max_attempts r" "dl_message_id d = ob_message_id r" "dl_peer_id d = ob_peer_id r"
      "dl_envelope d = ob_envelope r" for d r
  proof -
    have dist: "distinct (map task_key (tn_tasks nd))" using ok by (simp add: outbox_ok_def)
    have same: "task_key (Sent d) = task_key (tn_tasks nd ! i)" using t that(2,3) by (simp add: task_key_def)
    have "task_key (Sent d) \<notin> task_key ` set (drop_nth i (tn_tasks nd))"
      unfolding same using drop_nth_distinct(3) [OF i dist] by (metis imageE)
    moreover have "task_ok (tn_worker nd) (tn_outbox nd) (Sent d)"
      using key that by (auto simp: task_ok_def snapshot_ok_def)
    ultimately show ?thesis using dropped by (auto simp: outbox_ok_def)
  qed
  show ?thesis
    using failed put_back dropped sent
    by (auto simp: deliver_begin_def after_begin_def Let_def split: option.split)
qed

lemma peers_ok [simp]: "outbox_ok g (nd\<lparr>tn_peers := ps\<rparr>) = outbox_ok g nd"
  by (rule outbox_ok_cong) simp_all

lemma finish_peers: "finish_delivery rid owner chg (nd\<lparr>tn_peers := ps\<rparr>) = (finish_delivery rid owner chg nd)\<lparr>tn_peers := ps\<rparr>"
  by (simp add: finish_delivery_def)

lemma answer_ok:
  assumes ok: "outbox_ok g nd" and i: "i < length (tn_tasks nd)" and t: "tn_tasks nd ! i = Sent d"
  shows "outbox_ok g (snd (deliver_end env cfg u now d out (nd\<lparr>tn_tasks := drop_nth i (tn_tasks nd)\<rparr>)))"
proof -
  let ?nd = "nd\<lparr>tn_tasks := drop_nth i (tn_tasks nd)\<rparr>"
  have fin: "outbox_ok g (finish_delivery (dl_record d) (dl_owner d) chg ?nd)"
    if "\<And>r. ob_id (chg r) = ob_id r"
      "\<And>r. ob_owner r = Some (dl_owner d) \<Longrightarrow> row_ok (g (dl_record d)) r \<Longrightarrow> dl_attempts d = ob_attempts r \<Longrightarrow>
        dl_max_attempts d = ob_max_attempts r \<Longrightarrow> row_ok (g (dl_record d)) ((chg r)\<lparr>ob_owner := None, ob_claim_expires := None\<rparr>)" for chg
    using finish_ok [OF ok i, of "dl_record d" "dl_owner d" chg g] t that by (simp add: snapshot_ok_def)
  have again: "outbox_ok g (finish_delivery (dl_record d) (dl_owner d) (\<lambda>r. (reschedule_row x e r)\<lparr>ob_http_status := s\<rparr>) ?nd)"
      "outbox_ok g (finish_delivery (dl_record d) (dl_owner d) (\<lambda>r. (reschedule_row x e r)\<lparr>ob_delivered_at := Some now\<rparr>) ?nd)"
    if "dl_attempts d < dl_max_attempts d" for x e s
    by (rule fin; use that in \<open>auto simp: row_changes row_ok_def\<close>)+
  have over: "outbox_ok g (finish_delivery (dl_record d) (dl_owner d) (\<lambda>r. (dead_row e r)\<lparr>ob_http_status := s\<rparr>) ?nd)"
      "outbox_ok g (finish_delivery (dl_record d) (dl_owner d) (\<lambda>r. (fail_row e r)\<lparr>ob_http_status := s\<rparr>) ?nd)"
      "outbox_ok g (finish_delivery (dl_record d) (dl_owner d) (\<lambda>r. (dead_row e r)\<lparr>ob_delivered_at := Some now\<rparr>) ?nd)"
      "outbox_ok g (finish_delivery (dl_record d) (dl_owner d) (acknowledge_row now j k) ?nd)" for e s j k
    by (rule fin; auto simp: row_changes row_ok_def claimable_outbox_states_def)+
  have dropped: "outbox_ok g ?nd" using drop_task_ok [OF ok i] .
  have err: "outbox_ok g (snd (handle_delivery_error cfg u now d e ?nd))" for e
    using again over dropped by (auto simp: handle_delivery_error_def finish_peers Let_def split: option.split)
  have ack: "outbox_ok g (snd (handle_ack_failure cfg u now d ?nd))"
    using again over dropped by (auto simp: handle_ack_failure_def finish_peers Let_def split: option.split)
  show ?thesis
    using err ack over dropped
    by (auto simp: deliver_end_def Let_def split: sum.split prod.split check_result.split)
qed

section \<open>The operator and the worker\<close>

lemma worker_task_free:
  assumes "outbox_ok g nd" "outbox_get (tn_outbox nd) rid = Some r" "ob_owner r = None" "ob_status r \<noteq> Cancelled"
    and "t \<in> set (tn_tasks nd)" "task_record t = rid"
  shows "tn_worker nd \<noteq> Some (task_owner t)"
  using assms by (auto simp: outbox_ok_def task_ok_def)

lemma retry_ok:
  assumes ok: "outbox_ok g nd" and g: "\<And>j. g j \<le> g' j" "g rid + 1 \<le> g' rid"
  shows "outbox_ok g' (snd (retry_message rid now nd))"
proof (cases "outbox_get (tn_outbox nd) rid")
  case None then show ?thesis using outbox_ok_mono [OF ok g(1)] by (simp add: retry_message_def)
next
  case (Some r)
  show ?thesis
  proof (cases "ob_status r = Failed \<or> ob_status r = Dead_letter")
    case False then show ?thesis using Some outbox_ok_mono [OF ok g(1)] by (simp add: retry_message_def)
  next
    case True
    have rok: "row_ok (g rid) r" using ok Some by (simp add: outbox_ok_def)
    then have free: "ob_owner r = None" using True by (auto simp: row_ok_def)
    have "outbox_ok g' (nd\<lparr>tn_outbox := outbox_update rid (retry_row now) (tn_outbox nd)\<rparr>)"
    proof (rule outbox_ok_change [OF ok, where f = "retry_row now" and rid = rid and ts = "tn_tasks nd" and w = "tn_worker nd"])
      show "row_ok (g' rid) (retry_row now r')" if "outbox_get (tn_outbox nd) rid = Some r'" for r'
        using that Some rok g(2) by (auto simp: row_ok_def retry_row_def)
      show "(ob_owner (retry_row now r') = Some (task_owner t) \<longrightarrow> snapshot_ok t (retry_row now r')) \<and>
          (tn_worker nd = Some (task_owner t) \<longrightarrow>
             ob_owner (retry_row now r') = Some (task_owner t) \<or> ob_status (retry_row now r') = Cancelled)"
        if "t \<in> set (tn_tasks nd)" "task_record t = rid" for t r'
        using worker_task_free [OF ok Some free _ that] True by (auto simp: retry_row_def)
    qed (use g ok Some in \<open>auto simp: retry_row_def outbox_ok_def\<close>)
    then show ?thesis using Some True by (auto simp: retry_message_def)
  qed
qed

lemma cancel_ok:
  assumes ok: "outbox_ok g nd"
  shows "outbox_ok g (snd (cancel_message rid nd))"
proof -
  have "outbox_ok g (nd\<lparr>tn_outbox := outbox_update rid cancel_row (tn_outbox nd)\<rparr>)" if r: "outbox_get (tn_outbox nd) rid = Some r" for r
    by (rule outbox_ok_change [OF ok, where f = cancel_row and rid = rid and ts = "tn_tasks nd" and w = "tn_worker nd"])
       (use ok r in \<open>auto simp: cancel_row_def outbox_ok_def row_ok_def claimable_outbox_states_def\<close>)
  then show ?thesis using ok by (auto simp: cancel_message_def split: option.split)
qed

lemma recover_row_ok: "row_ok g r \<Longrightarrow> g + 1 \<le> g' \<Longrightarrow> row_ok g' (recover_row now r)"
  by (auto simp: row_ok_def recover_row_def)

lemma recover_owner: "ob_owner (recover_row now r) = Some o' \<Longrightarrow> ob_owner r = Some o'"
  by (auto simp: recover_row_def split: if_splits)

lemma recover_snapshot [simp]: "snapshot_ok t (recover_row now r) = snapshot_ok t r"
  by (cases t) (simp_all add: snapshot_ok_def)

lemma recover_ok:
  assumes ok: "outbox_ok g nd" and g: "\<And>j. g j + 1 \<le> g' j"
    and w: "w \<notin> Some ` set (map task_owner ts)" and ts: "set ts \<subseteq> set (tn_tasks nd)" "distinct (map task_key ts)"
  shows "outbox_ok g' ((recover_node now nd)\<lparr>tn_worker := w, tn_tasks := ts\<rparr>)"
proof -
  have rows: "row_ok (g' j) r" if "outbox_get (recover_expired_claims now (tn_outbox nd)) j = Some r" for j r
    using that ok recover_row_ok [OF _ g [of j]] by (auto simp: outbox_get_recover outbox_ok_def)
  have tasks: "task_ok w (recover_expired_claims now (tn_outbox nd)) t" if t: "t \<in> set ts" for t
  proof -
    have "task_ok (tn_worker nd) (tn_outbox nd) t" using ok ts(1) t by (auto simp: outbox_ok_def)
    then obtain r where "outbox_get (tn_outbox nd) (task_record t) = Some r" "ob_owner r = Some (task_owner t) \<longrightarrow> snapshot_ok t r"
      by (auto simp: task_ok_def)
    moreover have "w \<noteq> Some (task_owner t)" using w t by auto
    ultimately show ?thesis using recover_owner [of now r] by (auto simp: task_ok_def outbox_get_recover)
  qed
  have ids: "map ob_id (recover_expired_claims now (tn_outbox nd)) = map ob_id (tn_outbox nd)"
    by (simp add: recover_expired_claims_def)
  show ?thesis using rows tasks ts ids ok by (simp add: outbox_ok_def recover_node_def)
qed

lemma filter_keys: "distinct (map k xs) \<Longrightarrow> distinct (map k (filter P xs))"
  by (rule distinct_map_filter)

lemma outbox_ok_worker:
  assumes "outbox_ok g nd" "w \<notin> Some ` set (map task_owner (tn_tasks nd))"
  shows "outbox_ok g (nd\<lparr>tn_worker := w\<rparr>)"
proof -
  have "task_ok w (tn_outbox nd) t" if t: "t \<in> set (tn_tasks nd)" for t
  proof -
    have "task_ok (tn_worker nd) (tn_outbox nd) t" using assms(1) t by (auto simp: outbox_ok_def)
    moreover have "w \<noteq> Some (task_owner t)" using assms(2) t by auto
    ultimately show ?thesis by (auto simp: task_ok_def)
  qed
  then show ?thesis using assms(1) by (simp add: outbox_ok_def)
qed

lemma start_ok:
  assumes ok: "outbox_ok g nd" and new: "owner \<notin> used_owners nd" and g: "\<And>j. g j + 1 \<le> g' j"
  shows "outbox_ok g' (worker_start cfg owner now nd)"
proof -
  have mono: "\<And>j. g j \<le> g' j" using g by (meson add_le_cancel_left order_trans zless_add1_eq less_imp_le)
  have fresh: "Some owner \<notin> Some ` set (map task_owner (tn_tasks nd))" using new by (auto simp: used_owners_def)
  have "outbox_ok g' ((recover_node now nd)\<lparr>tn_worker := Some owner, tn_tasks := tn_tasks nd\<rparr>)"
    by (rule recover_ok [OF ok g fresh]) (use ok in \<open>auto simp: outbox_ok_def\<close>)
  moreover have "(recover_node now nd)\<lparr>tn_worker := Some owner, tn_tasks := tn_tasks nd\<rparr> = recover_node now (nd\<lparr>tn_worker := Some owner\<rparr>)"
    by (simp add: recover_node_def)
  ultimately show ?thesis
    using outbox_ok_mono [OF ok mono] outbox_ok_mono [OF outbox_ok_worker [OF ok fresh] mono] by (simp add: worker_start_def)
qed

lemma shutdown_ok:
  assumes ok: "outbox_ok g nd" and g: "\<And>j. g j + 1 \<le> g' j"
  shows "outbox_ok g' (worker_shutdown now nd)"
proof -
  have mono: "\<And>j. g j \<le> g' j" using g by (meson add_le_cancel_left order_trans zless_add1_eq less_imp_le)
  have "outbox_ok g' ((recover_node now nd)\<lparr>tn_worker := None,
      tn_tasks := filter (\<lambda>t. Some (task_owner t) \<noteq> tn_worker nd) (tn_tasks nd)\<rparr>)"
    by (rule recover_ok [OF ok g]) (use ok filter_keys in \<open>auto simp: outbox_ok_def\<close>)
  then show ?thesis using outbox_ok_mono [OF ok mono] by (simp add: worker_shutdown_def)
qed

section \<open>Every run keeps the invariant\<close>

definition forgives :: "string \<Rightarrow> tevent \<Rightarrow> tnode \<Rightarrow> bool" where
  "forgives rid ev nd \<longleftrightarrow>
     (case ev of
        Ev_retry r _ \<Rightarrow> r = rid
      | Ev_start _ _ \<Rightarrow> True
      | Ev_shutdown _ \<Rightarrow> True
      | Ev_begin i _ \<Rightarrow> tn_identity nd = None \<and> task_record (tn_tasks nd ! i) = rid
      | Ev_send_now r _ _ \<Rightarrow> tn_identity nd = None \<and> r = rid
      | _ \<Rightarrow> False)"

definition count :: "(string \<Rightarrow> int) \<Rightarrow> tevent \<Rightarrow> tnode \<Rightarrow> string \<Rightarrow> int" where
  "count g ev nd rid = g rid + (if forgives rid ev nd then 1 else 0)"

lemma count_mono: "g j \<le> count g ev nd j"
  by (simp add: count_def)

lemma send_ok:
  assumes ok: "outbox_ok g nd" and new: "rid \<notin> ob_id ` set (tn_outbox nd)" and m: "1 \<le> tc_max_attempts cfg" and g: "\<And>j. 0 \<le> g j"
  shows "outbox_ok g (snd (create_outbound_message env cfg fv rid now q nd))"
proof -
  have "outbox_ok g (nd\<lparr>tn_outbox := tn_outbox nd @ [outbox_create_row now c]\<rparr>)"
    if c: "oc_id c = rid" "oc_max_attempts c = tc_max_attempts cfg" for c
  proof -
    have none: "outbox_get (tn_outbox nd) rid = None" using new by (simp add: tbl_get_None)
    have row: "row_ok (g rid) (outbox_create_row now c)" using m g [of rid] c by (simp add: row_ok_def outbox_create_row_def)
    have id: "ob_id (outbox_create_row now c) = rid" using c by (simp add: outbox_create_row_def)
    show ?thesis using ok none row id new
      by (auto simp: outbox_ok_def task_ok_def tbl_get_append split: option.splits)
  qed
  then show ?thesis using ok by (auto simp: create_outbound_message_def Let_def split: option.split)
qed

lemma poll_ok:
  assumes "outbox_ok g nd"
  shows "outbox_ok g (poll_deliveries cfg free now nd)"
proof -
  have "outbox_ok g (fold (claim_task owner now x) rids nd') \<and> tn_worker (fold (claim_task owner now x) rids nd') = Some owner"
    if "outbox_ok g nd'" "tn_worker nd' = Some owner" for owner x rids nd'
    using that
  proof (induction rids arbitrary: nd')
    case (Cons rid rids)
    have "tn_worker (claim_task owner now x rid nd') = Some owner"
      using Cons.prems(2) by (auto simp: claim_task_def claim_node_def split: prod.split)
    then show ?case using Cons claim_task_ok by simp
  qed simp
  then show ?thesis using assms by (auto simp: poll_deliveries_def split: option.split)
qed

lemma claim_task_taken:
  "fst (claim_node rid owner now x nd) \<Longrightarrow>
   claim_task owner now x rid nd = (snd (claim_node rid owner now x nd))\<lparr>tn_tasks := tn_tasks nd @ [Queued rid owner]\<rparr>"
  by (auto simp: claim_task_def claim_node_def split: prod.split)

lemma claim_node_other:
  "tn_tasks (snd (claim_node rid owner now x nd)) = tn_tasks nd" "tn_worker (snd (claim_node rid owner now x nd)) = tn_worker nd"
  "tn_identity (snd (claim_node rid owner now x nd)) = tn_identity nd"
  "\<not> fst (claim_node rid owner now x nd) \<Longrightarrow> snd (claim_node rid owner now x nd) = nd"
  by (auto simp: claim_node_def claim_def split: prod.split option.split)

text \<open>\<open>send_now\<close> is a claim followed at once by the beginning of the delivery.\<close>

lemma send_now_ok:
  assumes ok: "outbox_ok g nd" and new: "owner \<notin> used_owners nd" and g: "\<And>j. g j \<le> g' j"
    and missing: "tn_identity nd = None \<Longrightarrow> g rid + 1 \<le> g' rid"
  shows "outbox_ok g' (texec env cfg (Ev_send_now rid owner now) nd)"
proof (cases "lease_end cfg now")
  case None then show ?thesis using outbox_ok_mono [OF ok g] by (simp add: send_now_def)
next
  case (Some x)
  let ?c = "claim_node rid owner now x nd"
  show ?thesis
  proof (cases "fst ?c")
    case False then show ?thesis
      using Some outbox_ok_mono [OF ok g] claim_node_other(4) [OF False] by (simp add: send_now_def split_def)
  next
    case True
    let ?nd = "claim_task owner now x rid nd"
    have nd: "?nd = (snd ?c)\<lparr>tn_tasks := tn_tasks nd @ [Queued rid owner]\<rparr>" using claim_task_taken [OF True] .
    have "?nd\<lparr>tn_tasks := drop_nth (length (tn_tasks nd)) (tn_tasks ?nd)\<rparr> = snd ?c"
      using claim_node_other(1) [of rid owner now x nd] by (simp add: nd)
    moreover have "outbox_ok g' (after_begin (deliver_begin rid owner now (?nd\<lparr>tn_tasks := drop_nth (length (tn_tasks nd)) (tn_tasks ?nd)\<rparr>)))"
      by (rule begin_ok [OF claim_task_ok [OF ok disjI2 [OF new]] _ _ g])
         (use missing claim_node_other(3) [of rid owner now x nd] in \<open>simp_all add: nd\<close>)
    ultimately show ?thesis using Some True by (simp add: send_now_def split_def Let_def)
  qed
qed

text \<open>The events that leave the outbox and the deliveries alone.\<close>

definition side_event :: "tevent \<Rightarrow> bool" where
  "side_event ev \<longleftrightarrow>
     (case ev of Ev_send _ _ _ _ \<Rightarrow> False | Ev_poll _ _ \<Rightarrow> False | Ev_begin _ _ \<Rightarrow> False | Ev_answer _ _ _ _ \<Rightarrow> False
      | Ev_send_now _ _ _ \<Rightarrow> False | Ev_retry _ _ \<Rightarrow> False | Ev_cancel _ \<Rightarrow> False | Ev_start _ _ \<Rightarrow> False
      | Ev_shutdown _ \<Rightarrow> False | Ev_crash \<Rightarrow> False | _ \<Rightarrow> True)"

lemmas peer_operations = create_peer_def trust_peer_def revoke_peer_def set_peer_enabled_def update_peer_def
  change_peer_def test_peer_def refresh_manifest_def

lemma texec_quiet:
  assumes "side_event ev"
  shows "tn_outbox (texec env cfg ev nd) = tn_outbox nd \<and> tn_tasks (texec env cfg ev nd) = tn_tasks nd \<and>
    tn_worker (texec env cfg ev nd) = tn_worker nd"
  using assms
  by (cases ev)
     (auto simp: side_event_def peer_operations receive_message_def handle_inbound_def Let_def
        split: option.split sum.split prod.split check_result.split)

lemma texec_outbox_ok:
  assumes ok: "outbox_ok g nd" and ev: "possible ev nd" and m: "1 \<le> tc_max_attempts cfg" and g: "\<And>j. 0 \<le> g j"
  shows "outbox_ok (count g ev nd) (texec env cfg ev nd)"
proof -
  have mono: "outbox_ok (count g ev nd) nd'" if "outbox_ok g nd'" for nd'
    using that by (rule outbox_ok_mono) (rule count_mono)
  have same: "outbox_ok (count g ev nd) (texec env cfg ev nd)" if "side_event ev"
    using mono [OF ok] texec_quiet [OF that, of env cfg nd] outbox_ok_cong by blast
  show ?thesis
  proof (cases ev)
    case (Ev_send fv rid now q)
    then show ?thesis using ev mono [OF send_ok [OF ok _ m g, of rid env fv now q]] by (simp add: possible_def)
  next
    case (Ev_poll free now) then show ?thesis using mono [OF poll_ok [OF ok]] by simp
  next
    case (Ev_begin i now)
    then show ?thesis
    proof (cases "tn_tasks nd ! i")
      case (Queued rid owner)
      then show ?thesis using Ev_begin ev
        begin_ok [OF ok _ Queued, of "count g ev nd" now] by (simp add: possible_def count_def forgives_def)
    qed (use mono [OF ok] in simp)
  next
    case (Ev_answer i out u now)
    then show ?thesis using ev mono [OF answer_ok [OF ok]] mono [OF ok] by (auto simp: possible_def split: task.split)
  next
    case (Ev_send_now rid owner now)
    then show ?thesis using send_now_ok [OF ok, of owner "count g ev nd" rid env cfg now] ev
      by (simp add: possible_def count_def forgives_def del: texec.simps)
  next
    case (Ev_retry rid now)
    then show ?thesis using retry_ok [OF ok, of "count g ev nd" rid now] by (simp add: count_def forgives_def)
  next
    case (Ev_cancel rid) then show ?thesis using mono [OF cancel_ok [OF ok]] by simp
  next
    case (Ev_start owner now)
    then show ?thesis using start_ok [OF ok, of owner "count g ev nd" cfg now] ev by (simp add: possible_def count_def forgives_def)
  next
    case (Ev_shutdown now)
    then show ?thesis using shutdown_ok [OF ok, of "count g ev nd" now] by (simp add: count_def forgives_def)
  next
    case Ev_crash
    then show ?thesis using mono [OF ok] by (auto simp: outbox_ok_def)
  qed (use same in \<open>simp_all add: side_event_def\<close>)
qed

definition forgiven :: "(tevent \<times> tnode) list \<Rightarrow> string \<Rightarrow> int" where
  "forgiven tr rid = int (length (filter (\<lambda>(ev, nd). forgives rid ev nd) tr))"

lemma forgiven_snoc: "forgiven (tr @ [(ev, nd)]) = count (forgiven tr) ev nd"
  by (rule ext) (simp add: forgiven_def count_def)

lemma forgiven_nonneg: "0 \<le> forgiven tr rid"
  by (simp add: forgiven_def)

lemma trun_outbox_ok:
  assumes "trun env cfg nd0 tr nd" "new_node nd0" "1 \<le> tc_max_attempts cfg"
  shows "outbox_ok (forgiven tr) nd"
  using assms(1)
proof (induction rule: trun.induct)
  case trun_start
  then show ?case using assms(2) by (simp add: outbox_ok_def new_node_def)
next
  case (trun_step tr nd ev)
  then show ?case
    using texec_outbox_ok [OF trun_step.IH trun_step.hyps(2) assms(3) forgiven_nonneg] by (simp add: forgiven_snoc)
qed

section \<open>What is settled stays\<close>

definition settled :: "outbox_row \<Rightarrow> bool" where
  "settled r \<longleftrightarrow> ob_status r = Acknowledged \<or> ob_status r = Cancelled"

lemma settled_untouched:
  assumes "row_ok k r" "settled r"
  shows "\<not> claimable now r" "release_row owner chg r = r" "recover_row now r = r" "ob_owner r = None"
proof -
  have st: "ob_status r \<noteq> In_flight" "ob_status r \<notin> claimable_outbox_states"
    using assms(2) by (auto simp: settled_def claimable_outbox_states_def)
  then show "ob_owner r = None" using assms(1) by (auto simp: row_ok_def)
  then show "\<not> claimable now r" "release_row owner chg r = r" "recover_row now r = r"
    using st by (simp_all add: claimable_def release_row_def recover_row_def)
qed

text \<open>
  A record no delivery owns, in a state no worker claims, is left alone by every delivery.
\<close>

lemma frozen_finish:
  assumes "outbox_get (tn_outbox nd) rid = Some r" "j = rid \<longrightarrow> ob_owner r \<noteq> Some owner" "\<And>r. ob_id (chg r) = ob_id r"
  shows "outbox_get (tn_outbox (finish_delivery j owner chg nd)) rid = Some r"
  using assms by (cases "rid = j") (simp_all add: finish_delivery_def outbox_get_release release_row_def)

lemma frozen_claim:
  assumes "outbox_get (tn_outbox nd) rid = Some r" "ob_status r \<notin> claimable_outbox_states"
  shows "outbox_get (tn_outbox (snd (claim_node j owner now x nd))) rid = Some r"
    and "outbox_get (tn_outbox (claim_task owner now x j nd)) rid = Some r"
    and "fst (claim_node j owner now x nd) \<Longrightarrow> j \<noteq> rid"
  using assms
  by (cases "rid = j"; auto simp: claim_node_def claim_task_def split_def Let_def outbox_get_claim claim_taken claimable_def)+

lemma after_begin_outbox: "tn_outbox (after_begin b) = tn_outbox (snd b)"
  by (auto simp: after_begin_def split: prod.split begin_result.split)

lemma frozen_begin:
  assumes "outbox_get (tn_outbox nd) rid = Some r" "j = rid \<longrightarrow> ob_owner r \<noteq> Some owner"
  shows "outbox_get (tn_outbox (snd (deliver_begin j owner now nd))) rid = Some r"
  using assms(1) frozen_finish [OF assms] by (auto simp: deliver_begin_def row_changes split: option.split)

lemma frozen_end:
  assumes "outbox_get (tn_outbox nd) rid = Some r" "dl_record d = rid \<longrightarrow> ob_owner r \<noteq> Some (dl_owner d)"
  shows "outbox_get (tn_outbox (snd (deliver_end env cfg u now d out nd))) rid = Some r"
proof -
  note fin = frozen_finish [OF assms]
  have "outbox_get (tn_outbox (snd (handle_delivery_error cfg u now d e nd))) rid = Some r" for e
    using assms(1) fin by (auto simp: handle_delivery_error_def finish_peers Let_def row_changes split: option.split)
  moreover have "outbox_get (tn_outbox (snd (handle_ack_failure cfg u now d nd))) rid = Some r"
    using assms(1) fin by (auto simp: handle_ack_failure_def finish_peers Let_def row_changes split: option.split)
  ultimately show ?thesis using assms(1) fin
    by (auto simp: deliver_end_def Let_def row_changes split: sum.split prod.split check_result.split)
qed

lemma frozen_poll:
  assumes "outbox_get (tn_outbox nd) rid = Some r" "ob_status r \<notin> claimable_outbox_states"
  shows "outbox_get (tn_outbox (poll_deliveries cfg free now nd)) rid = Some r"
proof -
  have "outbox_get (tn_outbox (fold (claim_task owner now x) rids nd')) rid = Some r"
    if "outbox_get (tn_outbox nd') rid = Some r" for owner x rids nd'
    using that by (induction rids arbitrary: nd') (simp_all add: frozen_claim(2) [OF _ assms(2)])
  then show ?thesis using assms(1) by (auto simp: poll_deliveries_def split: option.split)
qed

definition unowned :: "string \<Rightarrow> outbox_row \<Rightarrow> tnode \<Rightarrow> bool" where
  "unowned rid r nd \<longleftrightarrow> (\<forall>t \<in> set (tn_tasks nd). task_record t = rid \<longrightarrow> ob_owner r \<noteq> Some (task_owner t))"

definition spares :: "tevent \<Rightarrow> string \<Rightarrow> outbox_row \<Rightarrow> bool" where
  "spares ev rid r \<longleftrightarrow>
     (case ev of
        Ev_retry j _ \<Rightarrow> j = rid \<longrightarrow> ob_status r \<noteq> Failed \<and> ob_status r \<noteq> Dead_letter
      | Ev_cancel j \<Rightarrow> j = rid \<longrightarrow> settled r
      | Ev_start _ now \<Rightarrow> recover_row now r = r
      | Ev_shutdown now \<Rightarrow> recover_row now r = r
      | _ \<Rightarrow> True)"

lemma texec_frozen:
  assumes r: "outbox_get (tn_outbox nd) rid = Some r" and nc: "ob_status r \<notin> claimable_outbox_states"
    and un: "unowned rid r nd" and sp: "spares ev rid r" and ev: "possible ev nd"
  shows "outbox_get (tn_outbox (texec env cfg ev nd)) rid = Some r"
proof (cases ev)
  case (Ev_send fv j now q)
  then show ?thesis using r by (auto simp: create_outbound_message_def Let_def tbl_get_append split: option.split)
next
  case (Ev_poll free now) then show ?thesis using frozen_poll [OF r nc] by simp
next
  case (Ev_begin i now)
  then have i: "tn_tasks nd ! i \<in> set (tn_tasks nd)" using ev by (simp add: possible_def)
  show ?thesis
  proof (cases "tn_tasks nd ! i")
    case (Queued j owner)
    then have "j = rid \<longrightarrow> ob_owner r \<noteq> Some owner" using un i by (auto simp: unowned_def)
    then show ?thesis using Ev_begin Queued frozen_begin [of "nd\<lparr>tn_tasks := drop_nth i (tn_tasks nd)\<rparr>"] r
      by (simp add: after_begin_outbox)
  qed (use Ev_begin r in simp)
next
  case (Ev_answer i out u now)
  then have i: "tn_tasks nd ! i \<in> set (tn_tasks nd)" using ev by (simp add: possible_def)
  show ?thesis
  proof (cases "tn_tasks nd ! i")
    case (Sent d)
    then have "dl_record d = rid \<longrightarrow> ob_owner r \<noteq> Some (dl_owner d)" using un i by (auto simp: unowned_def)
    then show ?thesis using Ev_answer Sent frozen_end [of "nd\<lparr>tn_tasks := drop_nth i (tn_tasks nd)\<rparr>"] r by simp
  qed (use Ev_answer r in simp)
next
  case (Ev_send_now j owner now)
  show ?thesis
  proof (cases "lease_end cfg now")
    case (Some x)
    let ?c = "claim_node j owner now x nd"
    have "outbox_get (tn_outbox (snd (deliver_begin j owner now (snd ?c)))) rid = Some r" if "fst ?c"
      using frozen_begin [OF frozen_claim(1) [OF r nc]] frozen_claim(3) [OF r nc that] by simp
    then show ?thesis using Ev_send_now Some frozen_claim(1) [OF r nc]
      by (simp add: send_now_def split_def after_begin_outbox Let_def)
  qed (use Ev_send_now r in \<open>simp add: send_now_def\<close>)
next
  case (Ev_retry j now)
  have "outbox_get (outbox_update j (retry_row now) (tn_outbox nd)) rid = Some r" if "j \<noteq> rid"
    using that r by (simp add: tbl_get_upd retry_row_def)
  then show ?thesis using Ev_retry r sp
    by (cases "j = rid") (auto simp: retry_message_def spares_def split: option.split)
next
  case (Ev_cancel j)
  have "outbox_get (outbox_update j cancel_row (tn_outbox nd)) rid = Some r" if "j \<noteq> rid"
    using that r by (simp add: tbl_get_upd cancel_row_def)
  then show ?thesis using Ev_cancel r sp
    by (cases "j = rid") (auto simp: cancel_message_def spares_def settled_def split: option.split)
next
  case (Ev_start owner now)
  then show ?thesis using r sp by (simp add: worker_start_def recover_node_def outbox_get_recover spares_def)
next
  case (Ev_shutdown now)
  then show ?thesis using r sp by (simp add: worker_shutdown_def recover_node_def outbox_get_recover spares_def)
next
  case Ev_crash then show ?thesis using r by simp
qed (use texec_quiet [of ev env cfg nd] r in \<open>simp_all add: side_event_def\<close>)

lemma texec_settled:
  assumes r: "outbox_get (tn_outbox nd) rid = Some r" and ok: "row_ok k r" and s: "settled r" and ev: "possible ev nd"
  shows "outbox_get (tn_outbox (texec env cfg ev nd)) rid = Some r"
proof (rule texec_frozen [OF r _ _ _ ev])
  show "ob_status r \<notin> claimable_outbox_states" using s by (auto simp: settled_def claimable_outbox_states_def)
  show "unowned rid r nd" using settled_untouched(4) [OF ok s] by (simp add: unowned_def)
  show "spares ev rid r" using settled_untouched(3) [OF ok s] s
    by (cases ev) (auto simp: spares_def settled_def)
qed

text \<open>A record that is not claimed gets no new delivery.\<close>

lemma claim_task_tasks:
  assumes "outbox_get (tn_outbox nd) rid = Some r" "ob_status r \<notin> claimable_outbox_states"
  shows "unowned rid r (claim_task owner now x j nd) = unowned rid r nd"
  using frozen_claim(3) [OF assms, of j owner now x] claim_node_other(1) [of j owner now x nd]
  by (auto simp: claim_task_def split_def Let_def unowned_def)

lemma unowned_sub: "set (tn_tasks nd') \<subseteq> set (tn_tasks nd) \<Longrightarrow> unowned rid r nd \<Longrightarrow> unowned rid r nd'"
  by (auto simp: unowned_def)

lemma drop_nth_sub: "set (drop_nth i xs) \<subseteq> set xs"
  by (auto simp: drop_nth_def dest: in_set_takeD in_set_dropD)

lemma finish_tasks [simp]: "tn_tasks (finish_delivery rid owner chg nd) = tn_tasks nd"
  by (simp add: finish_delivery_def)

lemma delivery_tasks [simp]:
  "tn_tasks (snd (deliver_begin rid owner now nd)) = tn_tasks nd"
  "tn_tasks (snd (handle_delivery_error cfg u now d e nd)) = tn_tasks nd"
  "tn_tasks (snd (handle_ack_failure cfg u now d nd)) = tn_tasks nd"
  by (auto simp: deliver_begin_def handle_delivery_error_def handle_ack_failure_def Let_def split: option.split)

lemma deliver_end_tasks [simp]: "tn_tasks (snd (deliver_end env cfg u now d out nd)) = tn_tasks nd"
  by (auto simp: deliver_end_def Let_def split: sum.split prod.split check_result.split)

lemma after_begin_tasks:
  "set (tn_tasks (after_begin (deliver_begin j owner now nd))) \<subseteq> set (tn_tasks nd) \<union>
     {Sent d | d. dl_record d = j \<and> dl_owner d = owner}"
  by (auto simp: after_begin_def deliver_begin_def split: option.split)

lemma after_begin_unowned:
  "unowned rid r nd \<Longrightarrow> j = rid \<longrightarrow> ob_owner r \<noteq> Some owner \<Longrightarrow> unowned rid r (after_begin (deliver_begin j owner now nd))"
  using after_begin_tasks [of j owner now nd] by (fastforce simp: unowned_def)

lemma texec_unowned:
  assumes r: "outbox_get (tn_outbox nd) rid = Some r" and nc: "ob_status r \<notin> claimable_outbox_states"
    and un: "unowned rid r nd" and ev: "possible ev nd"
  shows "unowned rid r (texec env cfg ev nd)"
proof (cases ev)
  case (Ev_send fv j now q)
  then show ?thesis using un by (auto simp: create_outbound_message_def Let_def unowned_def split: option.split)
next
  case (Ev_poll free now)
  have "unowned rid r (fold (claim_task owner now x) rids nd')"
    if "outbox_get (tn_outbox nd') rid = Some r" "unowned rid r nd'" for owner x rids nd'
    using that by (induction rids arbitrary: nd') (simp_all add: frozen_claim(2) [OF _ nc] claim_task_tasks [OF _ nc])
  then show ?thesis using Ev_poll r un by (auto simp: poll_deliveries_def split: option.split)
next
  case (Ev_begin i now)
  then have i: "tn_tasks nd ! i \<in> set (tn_tasks nd)" using ev by (simp add: possible_def)
  have less: "unowned rid r (nd\<lparr>tn_tasks := drop_nth i (tn_tasks nd)\<rparr>)"
    by (rule unowned_sub [OF _ un]) (simp add: drop_nth_sub)
  show ?thesis
  proof (cases "tn_tasks nd ! i")
    case (Queued j owner)
    then have "j = rid \<longrightarrow> ob_owner r \<noteq> Some owner" using un i by (auto simp: unowned_def)
    then show ?thesis using Ev_begin Queued after_begin_unowned [OF less] by simp
  qed (use Ev_begin un in simp)
next
  case (Ev_answer i out u now)
  then show ?thesis using un unowned_sub [OF _ un] drop_nth_sub [of i "tn_tasks nd"] by (cases "tn_tasks nd ! i") simp_all
next
  case (Ev_send_now j owner now)
  show ?thesis
  proof (cases "lease_end cfg now")
    case (Some x)
    let ?c = "claim_node j owner now x nd"
    have u: "unowned rid r (snd ?c)" using un claim_node_other(1) [of j owner now x nd] by (simp add: unowned_def)
    have "unowned rid r (after_begin (deliver_begin j owner now (snd ?c)))" if "fst ?c"
      using after_begin_unowned [OF u] frozen_claim(3) [OF r nc that] by simp
    then show ?thesis using Ev_send_now Some u by (simp add: send_now_def split_def Let_def)
  qed (use Ev_send_now un in \<open>simp add: send_now_def\<close>)
next
  case (Ev_retry j now) then show ?thesis using un by (auto simp: retry_message_def unowned_def split: option.split)
next
  case (Ev_cancel j) then show ?thesis using un by (auto simp: cancel_message_def unowned_def split: option.split)
next
  case (Ev_start owner now) then show ?thesis using un by (simp add: worker_start_def recover_node_def unowned_def)
next
  case (Ev_shutdown now) then show ?thesis using un by (simp add: worker_shutdown_def recover_node_def unowned_def)
next
  case Ev_crash then show ?thesis by (simp add: unowned_def)
qed (use texec_quiet [of ev env cfg nd] un in \<open>simp_all add: side_event_def unowned_def\<close>)

end
