(* ===== verification/TransportInbox.thy ===== *)
theory TransportInbox
  imports TransportLife
begin

text \<open>
  What enters the inbox and what may acknowledge a message: the conditions under which \<open>authenticate\<close> lets a
  body in, the single row per message, and the only event that settles a record as acknowledged.
\<close>

section \<open>Authentication\<close>

definition known_sender :: "transport_env \<Rightarrow> tnode \<Rightarrow> message_envelope \<Rightarrow> peer_row \<Rightarrow> bool" where
  "known_sender env nd e p \<longleftrightarrow>
     peer_by_node_id (tn_peers nd) (env_sender_node_id e) = Some p \<and> pr_trust p = Trusted \<and> pr_enabled p \<and>
     truthy (pr_public_key p) \<and> (truthy (pr_fingerprint p) \<longrightarrow> pr_fingerprint p = Some (env_sender_fingerprint e)) \<and>
     verify_signature_with (te_repr env) (te_verify env) (or_empty (pr_public_key p)) e = Some True"

definition may_enter :: "transport_env \<Rightarrow> transport_config \<Rightarrow> int \<Rightarrow> tnode \<Rightarrow> message_envelope \<Rightarrow> peer_row \<Rightarrow> bool" where
  "may_enter env cfg now nd e p \<longleftrightarrow>
     validate_recipient e (tc_node_id cfg) \<and> known_sender env nd e p \<and>
     validate_timing (te_fromiso env) e (tc_skew cfg) now = Inr () \<and>
     mesh_allowed (evaluate_mesh_ingress (tc_node_id cfg) (mesh_claim_of e) (mesh_views (tn_meshes nd)) None)"

lemma check_sender_Inr: "check_sender env (tn_peers nd) e = Inr p \<longleftrightarrow> known_sender env nd e p"
  by (auto simp: check_sender_def known_sender_def split: option.splits)

lemma enforce_mesh_Inr: "enforce_mesh cfg db e = Inr u \<longleftrightarrow>
  mesh_allowed (evaluate_mesh_ingress (tc_node_id cfg) (mesh_claim_of e) (mesh_views db) None)"
  by (simp add: enforce_mesh_def)

lemma authenticate_Inr:
  "authenticate env cfg acc now nd raw = Inr (e, p) \<longleftrightarrow>
     parse_envelope (te_repr env) (te_validate env) (tc_max_payload cfg) raw = Inr e \<and> acc (env_kind e) \<and> may_enter env cfg now nd e p"
  by (auto simp: authenticate_def may_enter_def rbind_Inr_iff check_sender_Inr enforce_mesh_Inr)

section \<open>Storing\<close>

lemma build_ack_total: "\<exists>a. build_ack fr ident uuid now mid st rid dup reason = Some a"
  by (auto simp: build_ack_def signed_object_def canonical_bytes_def json_opt_str_def split: option.split)

definition ack_of :: "transport_env \<Rightarrow> node_identity \<Rightarrow> inbound_fresh \<Rightarrow> string \<Rightarrow> inbox_row \<Rightarrow> bool \<Rightarrow> (string \<times> json) list" where
  "ack_of env ident fv mid r dup =
     the (build_ack (te_repr env) ident (if_ack_uuid fv) (if_now_text fv) mid (ib_ack_status r) (Some (ib_id r)) dup None)"

lemma store_and_ack_eq:
  "store_and_ack env ident fv now e p hash rows =
     (case inbox_by_message_id rows (env_message_id e) of
        None \<Rightarrow> let r = inbox_row_of fv now e p hash in (Stored (if_record fv) (ack_of env ident fv (env_message_id e) r False), rows @ [r])
      | Some r \<Rightarrow> if ib_hash r \<noteq> hash then (Denied TcIdCollision, rows)
                  else (Repeated (ack_of env ident fv (env_message_id e) r True), increment_duplicate (env_message_id e) rows))"
proof (cases "inbox_by_message_id rows (env_message_id e)")
  case None
  obtain a where "build_ack (te_repr env) ident (if_ack_uuid fv) (if_now_text fv) (env_message_id e) Accepted (Some (if_record fv)) False None = Some a"
    using build_ack_total by blast
  then show ?thesis using None by (simp add: store_and_ack_def ack_of_def inbox_row_of_def Let_def)
next
  case (Some r)
  obtain a where "build_ack (te_repr env) ident (if_ack_uuid fv) (if_now_text fv) (env_message_id e) (ib_ack_status r) (Some (ib_id r)) True None = Some a"
    using build_ack_total by blast
  then show ?thesis using Some by (simp add: store_and_ack_def ack_of_def Let_def)
qed

text \<open>The effect of one body on the inbox.\<close>

lemma handle_inbound_cases:
  obtains
    (denied) c where "handle_inbound env cfg fv now raw nd = (Denied c, nd)"
  | (repeated) e p ident r where "tn_identity nd = Some ident"
      "authenticate env cfg (\<lambda>k. k \<in> deliverable_kinds) now nd raw = Inr (e, p)"
      "inbox_by_message_id (tn_inbox nd) (env_message_id e) = Some r"
      "canonical_hash (te_repr env) (model_dump e) = Some (ib_hash r)"
      "handle_inbound env cfg fv now raw nd = (Repeated (ack_of env ident fv (env_message_id e) r True),
         nd\<lparr>tn_inbox := increment_duplicate (env_message_id e) (tn_inbox nd)\<rparr>)"
  | (stored) e p ident hash where "tn_identity nd = Some ident"
      "authenticate env cfg (\<lambda>k. k \<in> deliverable_kinds) now nd raw = Inr (e, p)"
      "inbox_by_message_id (tn_inbox nd) (env_message_id e) = None"
      "canonical_hash (te_repr env) (model_dump e) = Some hash"
      "handle_inbound env cfg fv now raw nd =
         (Stored (if_record fv) (ack_of env ident fv (env_message_id e) (inbox_row_of fv now e p hash) False),
          nd\<lparr>tn_inbox := tn_inbox nd @ [inbox_row_of fv now e p hash]\<rparr>)"
proof (cases "tn_identity nd")
  case None then show thesis by (intro denied [of TcIdentityMissing]) (simp add: handle_inbound_def)
next
  case (Some ident)
  show thesis
  proof (cases "authenticate env cfg (\<lambda>k. k \<in> deliverable_kinds) now nd raw")
    case (Inl c) then show thesis using Some by (intro denied [of c]) (simp add: handle_inbound_def)
  next
    case (Inr ep)
    obtain e p where ep: "ep = (e, p)" by fastforce
    show thesis
    proof (cases "canonical_hash (te_repr env) (model_dump e)")
      case None then show thesis using Some Inr ep by (intro denied [of TcPythonError]) (simp add: handle_inbound_def)
    next
      case h: (Some hash)
      have eq: "handle_inbound env cfg fv now raw nd =
          (let (res, rows) = store_and_ack env ident fv now e p hash (tn_inbox nd) in (res, nd\<lparr>tn_inbox := rows\<rparr>))"
        using Some Inr ep h by (simp add: handle_inbound_def)
      show thesis
      proof (cases "inbox_by_message_id (tn_inbox nd) (env_message_id e)")
        case None
        then show thesis using Some Inr ep h eq by (intro stored) (simp_all add: store_and_ack_eq Let_def)
      next
        case r: (Some r)
        show thesis
        proof (cases "ib_hash r = hash")
          case True then show thesis using Some Inr ep h eq r by (intro repeated) (simp_all add: store_and_ack_eq)
        next
          case False
          then show thesis using r eq by (intro denied [of TcIdCollision]) (simp add: store_and_ack_eq)
        qed
      qed
    qed
  qed
qed

section \<open>One row per message\<close>

definition new_record :: "transport_env \<Rightarrow> transport_config \<Rightarrow> tevent \<Rightarrow> tnode \<Rightarrow> string option" where
  "new_record env cfg ev nd =
     (case ev of
        Ev_receive fv now len (Some raw) \<Rightarrow>
          (if tc_max_payload cfg < len then None
           else case handle_inbound env cfg fv now raw nd of (Stored rid _, _) \<Rightarrow> Some rid | _ \<Rightarrow> None)
      | _ \<Rightarrow> None)"

definition inbox_ok :: "inbox_row list \<Rightarrow> bool" where
  "inbox_ok rows \<longleftrightarrow> distinct (map ib_message_id rows) \<and> distinct (map ib_id rows)"

definition same_message :: "inbox_row \<Rightarrow> inbox_row \<Rightarrow> bool" where
  "same_message r r' \<longleftrightarrow> r' = r\<lparr>ib_duplicates := ib_duplicates r'\<rparr> \<and> ib_duplicates r \<le> ib_duplicates r'"

lemma same_message_refl [simp]: "same_message r r"
  by (simp add: same_message_def)

lemma same_messageD: "same_message r r' \<Longrightarrow> ib_hash r' = ib_hash r \<and> ib_id r' = ib_id r \<and> ib_message_id r' = ib_message_id r"
  by (auto simp: same_message_def dest: arg_cong [where f = ib_hash] arg_cong [where f = ib_id] arg_cong [where f = ib_message_id])

lemma same_message_trans:
  assumes "same_message r s" "same_message s t"
  shows "same_message r t"
proof -
  have "t = s\<lparr>ib_duplicates := ib_duplicates t\<rparr>" "s = r\<lparr>ib_duplicates := ib_duplicates s\<rparr>"
    and le: "ib_duplicates r \<le> ib_duplicates t" using assms by (simp_all add: same_message_def)
  then have "t = r\<lparr>ib_duplicates := ib_duplicates s, ib_duplicates := ib_duplicates t\<rparr>" by metis
  then show ?thesis using le by (simp add: same_message_def)
qed

lemma increment_duplicate_keys [simp]:
  "map ib_message_id (increment_duplicate mid rows) = map ib_message_id rows"
  "map ib_id (increment_duplicate mid rows) = map ib_id rows"
  by (induction rows) (auto simp: increment_duplicate_def)

lemma increment_duplicate_same:
  "inbox_by_message_id rows m = Some r \<Longrightarrow> \<exists>r'. inbox_by_message_id (increment_duplicate mid rows) m = Some r' \<and> same_message r r'"
  by (auto simp: inbox_by_message_id_def increment_duplicate_def tbl_get_upd same_message_def)

text \<open>What one event does to the inbox.\<close>

lemma finish_inbox [simp]: "tn_inbox (finish_delivery rid owner chg nd) = tn_inbox nd"
  by (simp add: finish_delivery_def)

lemma delivery_inbox [simp]:
  "tn_inbox (snd (deliver_begin rid owner now nd)) = tn_inbox nd"
  "tn_inbox (snd (handle_delivery_error cfg u now d e nd)) = tn_inbox nd"
  "tn_inbox (snd (handle_ack_failure cfg u now d nd)) = tn_inbox nd"
  "tn_inbox (after_begin b) = tn_inbox (snd b)"
  by (auto simp: deliver_begin_def handle_delivery_error_def handle_ack_failure_def after_begin_def Let_def
        split: option.split prod.split begin_result.split)

lemma deliver_end_inbox [simp]: "tn_inbox (snd (deliver_end env cfg u now d out nd)) = tn_inbox nd"
  by (auto simp: deliver_end_def Let_def split: sum.split prod.split check_result.split)

lemma claim_inbox [simp]:
  "tn_inbox (claim_task owner now x rid nd) = tn_inbox nd" "tn_inbox (snd (claim_node rid owner now x nd)) = tn_inbox nd"
  by (auto simp: claim_task_def claim_node_def split_def Let_def)

lemma fold_claim_inbox [simp]: "tn_inbox (fold (claim_task owner now x) rids nd) = tn_inbox nd"
  by (induction rids arbitrary: nd) simp_all

lemma peer_operations_inbox [simp]:
  "tn_inbox (snd (create_peer pid q nd)) = tn_inbox nd" "tn_inbox (snd (trust_peer pid key fp nd)) = tn_inbox nd"
  "tn_inbox (snd (change_peer pid chg nd)) = tn_inbox nd" "tn_inbox (snd (test_peer env cfg p out now nd)) = tn_inbox nd"
  "tn_inbox (snd (refresh_manifest env cfg p out now nd)) = tn_inbox nd"
  by (auto simp: create_peer_def trust_peer_def change_peer_def test_peer_def refresh_manifest_def Let_def
        split: option.split sum.split prod.split check_result.split)

lemma outbox_operations_inbox [simp]:
  "tn_inbox (snd (create_outbound_message env cfg fv rid now q nd)) = tn_inbox nd"
  "tn_inbox (snd (retry_message rid now nd)) = tn_inbox nd" "tn_inbox (snd (cancel_message rid nd)) = tn_inbox nd"
  "tn_inbox (poll_deliveries cfg free now nd) = tn_inbox nd" "tn_inbox (worker_start cfg owner now nd) = tn_inbox nd"
  "tn_inbox (worker_shutdown now nd) = tn_inbox nd"
  by (auto simp: create_outbound_message_def retry_message_def cancel_message_def poll_deliveries_def worker_start_def
        worker_shutdown_def recover_node_def Let_def split: option.split)

lemma texec_inbox_other:
  assumes "\<And>fv now len body. ev \<noteq> Ev_receive fv now len body"
  shows "tn_inbox (texec env cfg ev nd) = tn_inbox nd"
proof (cases ev)
  case (Ev_begin i now) then show ?thesis by (cases "tn_tasks nd ! i") simp_all
next
  case (Ev_answer i out u now) then show ?thesis by (cases "tn_tasks nd ! i") simp_all
next
  case (Ev_send_now rid owner now)
  then show ?thesis by (auto simp: send_now_def split_def Let_def split: option.split)
qed (use assms in \<open>simp_all add: revoke_peer_def set_peer_enabled_def update_peer_def\<close>)

lemma texec_receive:
  "texec env cfg (Ev_receive fv now len body) nd =
     (if tc_max_payload cfg < len then nd
      else case body of None \<Rightarrow> nd | Some raw \<Rightarrow> snd (handle_inbound env cfg fv now raw nd))"
  by (auto simp: receive_message_def split_def Let_def split: option.split)

lemma texec_inbox:
  assumes ok: "inbox_ok (tn_inbox nd)" and ev: "possible ev nd"
  shows "map ib_id (tn_inbox (texec env cfg ev nd)) =
      map ib_id (tn_inbox nd) @ (case new_record env cfg ev nd of None \<Rightarrow> [] | Some rid \<Rightarrow> [rid])"
    and "inbox_ok (tn_inbox (texec env cfg ev nd))"
    and "inbox_by_message_id (tn_inbox nd) m = Some r \<Longrightarrow>
      \<exists>r'. inbox_by_message_id (tn_inbox (texec env cfg ev nd)) m = Some r' \<and> same_message r r'"
proof -
  have "map ib_id (tn_inbox (texec env cfg ev nd)) =
      map ib_id (tn_inbox nd) @ (case new_record env cfg ev nd of None \<Rightarrow> [] | Some rid \<Rightarrow> [rid]) \<and>
    inbox_ok (tn_inbox (texec env cfg ev nd)) \<and>
    (\<forall>m r. inbox_by_message_id (tn_inbox nd) m = Some r \<longrightarrow>
      (\<exists>r'. inbox_by_message_id (tn_inbox (texec env cfg ev nd)) m = Some r' \<and> same_message r r'))"
  proof (cases "\<exists>fv now len raw. ev = Ev_receive fv now len (Some raw) \<and> \<not> tc_max_payload cfg < len")
    case False
    then have "new_record env cfg ev nd = None" by (cases ev) (auto simp: new_record_def split: option.split)
    moreover have "tn_inbox (texec env cfg ev nd) = tn_inbox nd"
    proof (cases "\<exists>fv now len body. ev = Ev_receive fv now len body")
      case True then show ?thesis using False by (auto simp: texec_receive simp del: texec.simps split: option.split)
    next
      case False then show ?thesis using texec_inbox_other [of ev env cfg nd] by blast
    qed
    ultimately show ?thesis using ok by auto
  next
    case True
    then obtain fv now len raw where ev': "ev = Ev_receive fv now len (Some raw)" and len: "\<not> tc_max_payload cfg < len" by blast
    have nd': "texec env cfg ev nd = snd (handle_inbound env cfg fv now raw nd)"
      using len by (simp add: ev' texec_receive del: texec.simps)
    have new: "new_record env cfg ev nd = (case handle_inbound env cfg fv now raw nd of (Stored rid _, _) \<Rightarrow> Some rid | _ \<Rightarrow> None)"
      using len by (simp add: ev' new_record_def)
    have fresh: "if_record fv \<notin> ib_id ` set (tn_inbox nd)" using ev by (simp add: possible_def ev')
    show ?thesis
    proof (cases rule: handle_inbound_cases [of env cfg fv now raw nd])
      case (denied c) then show ?thesis using ok nd' new by simp
    next
      case (repeated e p ident r)
      then show ?thesis using ok nd' new increment_duplicate_same by (simp add: inbox_ok_def)
    next
      case (stored e p ident hash)
      have "env_message_id e \<notin> ib_message_id ` set (tn_inbox nd)"
        using stored(3) by (simp add: inbox_by_message_id_def tbl_get_None)
      then show ?thesis using stored(5) ok nd' new fresh
        by (auto simp: inbox_ok_def inbox_row_of_def inbox_by_message_id_def tbl_get_append)
    qed
  qed
  then show "map ib_id (tn_inbox (texec env cfg ev nd)) =
      map ib_id (tn_inbox nd) @ (case new_record env cfg ev nd of None \<Rightarrow> [] | Some rid \<Rightarrow> [rid])"
    "inbox_ok (tn_inbox (texec env cfg ev nd))"
    "inbox_by_message_id (tn_inbox nd) m = Some r \<Longrightarrow>
      \<exists>r'. inbox_by_message_id (tn_inbox (texec env cfg ev nd)) m = Some r' \<and> same_message r r'"
    by blast+
qed

end
