(* ===== verification/CanonicalForm.thy ===== *)
theory CanonicalForm
  imports TransportWire OtaSecurity
begin

text \<open>
  What a signature covers. \<open>canonical_bytes\<close> sorts the keys and drops the \<open>signature\<close> member, so two objects
  have the same signing input exactly when they have the same members otherwise: the canonical form can be read back.
  The only fact used of the float \<open>repr\<close> is that it writes a double as a numeral with a point or an exponent and
  never writes two doubles alike.
\<close>

section \<open>Reading tokens back\<close>

lemma json_read1_raw: "json_read1 (raw_escape c @ r) = Some (c, r)"
  by (simp add: raw_escape_def Let_def json_read1_escape)

lemma raw_str_unique: "raw_str s @ r = raw_str t @ q \<Longrightarrow> s = t \<and> r = q"
  using escapes_unique [OF json_read1_raw, of s r t q] by (simp add: raw_str_def)

definition num_char :: "char \<Rightarrow> bool" where
  "num_char c \<longleftrightarrow> is_digit c \<or> c \<in> set ''-+.e''"

definition float_numeral :: "string \<Rightarrow> bool" where
  "float_numeral s \<longleftrightarrow> list_all num_char s \<and> (CHR ''.'' \<in> set s \<or> CHR ''e'' \<in> set s)"

definition repr_faithful :: "(pyfloat \<Rightarrow> string) \<Rightarrow> bool" where
  "repr_faithful fr \<longleftrightarrow>
     (\<forall>q. is_double (Fin q) \<longrightarrow> float_numeral (fr (Fin q))) \<and>
     (\<forall>q p. is_double (Fin q) \<longrightarrow> is_double (Fin p) \<longrightarrow> fr (Fin q) = fr (Fin p) \<longrightarrow> q = p)"

definition ends :: "string \<Rightarrow> bool" where
  "ends r \<longleftrightarrow> r = [] \<or> hd r \<in> {CHR '','', CHR '']'', CHR ''}''}"

lemma num_char_tokens: "\<not> num_char c" if "c \<in> {CHR ''n'', CHR ''t'', CHR ''f'', CHR 0x22, CHR ''['', CHR ''{'', CHR '','', CHR '']'', CHR ''}''}"
  using that by (auto simp: num_char_def is_digit_def)

lemma ends_not_num: "ends r \<Longrightarrow> r = [] \<or> \<not> num_char (hd r)"
  using num_char_tokens by (auto simp: ends_def)

lemma int_repr_chars: "list_all (\<lambda>c. is_digit c \<or> c = CHR ''-'') (int_repr i) \<and> int_repr i \<noteq> []"
  using dec_digits_digits [of "nat i"] dec_digits_digits [of "nat (- i)"]
  by (auto simp: int_repr_def list_all_iff)

lemma num_prefix_unique:
  assumes "list_all num_char a" "list_all num_char b" "a @ r = b @ q" "ends r" "ends q"
  shows "a = b \<and> r = q"
proof -
  have stop: "takeWhile num_char (x @ y) = x" if "list_all num_char x" "ends y" for x y
    using that ends_not_num [OF that(2)] by (induction x) (cases y, auto simp: ends_def)
  from stop [of a r] stop [of b q] assms show ?thesis by auto
qed

section \<open>Well-formed values\<close>

text \<open>A value as \<open>json.loads\<close> gives it: keys once, floats doubles. \<open>normal\<close> forgets the order of members.\<close>

fun json_wf :: "json \<Rightarrow> bool" where
  "json_wf (JFloat x) = is_double x"
| "json_wf (JList xs) = list_all json_wf xs"
| "json_wf (JObj kvs) = (distinct (map fst kvs) \<and> list_all (\<lambda>(k, j). json_wf j) kvs)"
| "json_wf _ = True"

fun normal :: "json \<Rightarrow> json" where
  "normal (JList xs) = JList (map normal xs)"
| "normal (JObj kvs) = JObj (sort_key fst (map (\<lambda>(k, j). (k, normal j)) kvs))"
| "normal j = j"

lemma sort_key_map:
  fixes f :: "'b \<Rightarrow> 'c" and kvs :: "('a :: linorder \<times> 'b) list"
  shows "sort_key fst (map (\<lambda>(k, j). (k, f j)) kvs) = map (\<lambda>(k, j). (k, f j)) (sort_key fst kvs)"
proof -
  have ins: "insort_key fst (case x of (k, j) \<Rightarrow> (k, f j)) (map (\<lambda>(k, j). (k, f j)) ys) =
      map (\<lambda>(k, j). (k, f j)) (insort_key fst x ys)" for x and ys :: "('a \<times> 'b) list"
    by (induction ys) (auto split: prod.splits)
  show ?thesis by (induction kvs) (simp_all add: ins)
qed

definition member_text :: "(pyfloat \<Rightarrow> string) \<Rightarrow> string \<times> json \<Rightarrow> string" where
  "member_text fr m = raw_str (fst m) @ '':'' @ canonical_dumps fr (snd m)"

lemma canonical_dumps_obj:
  "canonical_dumps fr (JObj kvs) = ''{'' @ join_with '','' (map (member_text fr) (sort_key fst kvs)) @ ''}''"
  unfolding canonical_dumps.simps(3) sort_key_map by (simp add: member_text_def [abs_def] comp_def split_def)

lemma normal_obj: "normal (JObj kvs) = JObj (map (\<lambda>(k, j). (k, normal j)) (sort_key fst kvs))"
  by (simp add: sort_key_map)

declare canonical_dumps.simps(3) [simp del] normal.simps(2) [simp del]

section \<open>Unique reading\<close>

text \<open>A sequence of unit texts, each read in one way, between commas and a closing character.\<close>

lemma join_with_Cons: "join_with sep (x # xs) = x @ (if xs = [] then [] else sep @ join_with sep xs)"
  by (cases xs) simp_all

lemma sequence_unique:
  assumes unit: "\<And>a b r q. a \<in> set xs \<Longrightarrow> b \<in> set ys \<Longrightarrow> d a @ r = d b @ q \<Longrightarrow> ends r \<Longrightarrow> ends q \<Longrightarrow> nf a = nf b \<and> r = q"
    and start: "\<And>a. a \<in> set xs \<union> set ys \<Longrightarrow> d a \<noteq> [] \<and> \<not> ends (d a)"
    and close: "close = CHR '']'' \<or> close = CHR ''}''"
    and eq: "join_with '','' (map d xs) @ close # r = join_with '','' (map d ys) @ close # q"
  shows "map nf xs = map nf ys \<and> r = q"
  using unit start eq
proof (induction xs arbitrary: ys)
  case Nil
  show ?case
  proof (cases ys)
    case Nil then show ?thesis using Nil.prems(3) by simp
  next
    case (Cons b bs)
    then have "hd (d b) = close" using Nil.prems(2) [of b] Nil.prems(3)
      by (cases "d b") (auto simp: join_with_Cons)
    then show ?thesis using Nil.prems(2) [of b] Cons close by (auto simp: ends_def)
  qed
next
  case (Cons a as)
  show ?case
  proof (cases ys)
    case Nil
    then have "hd (d a) = close" using Cons.prems(2) [of a] Cons.prems(3)
      by (cases "d a") (auto simp: join_with_Cons)
    then show ?thesis using Cons.prems(2) [of a] close by (auto simp: ends_def)
  next
    case ys: (Cons b bs)
    define r' where "r' = (if as = [] then close # r else '','' @ join_with '','' (map d as) @ close # r)"
    define q' where "q' = (if bs = [] then close # q else '','' @ join_with '','' (map d bs) @ close # q)"
    have eq': "d a @ r' = d b @ q'" using Cons.prems(3) by (simp add: ys r'_def q'_def join_with_Cons split: if_splits)
    have "ends r'" "ends q'" using close by (auto simp: r'_def q'_def ends_def)
    then have u: "nf a = nf b" "r' = q'" using Cons.prems(1) [of a b r' q'] eq' ys by auto
    have "(as = []) = (bs = [])" using u(2) close by (auto simp: r'_def q'_def split: if_splits)
    then show ?thesis
    proof (cases "as = []")
      case True
      then show ?thesis using u \<open>(as = []) = (bs = [])\<close> by (simp add: ys r'_def q'_def)
    next
      case False
      then have "join_with '','' (map d as) @ close # r = join_with '','' (map d bs) @ close # q"
        using u(2) \<open>(as = []) = (bs = [])\<close> by (simp add: r'_def q'_def)
      then have "map nf as = map nf bs \<and> r = q"
        using Cons.IH [of bs] Cons.prems(1,2) ys by auto
      then show ?thesis using u(1) ys by simp
    qed
  qed
qed

lemma int_repr_num: "list_all num_char (int_repr i)"
  using int_repr_chars [of i] by (auto simp: list_all_iff num_char_def)

lemma int_repr_no_point: "CHR ''.'' \<notin> set (int_repr i) \<and> CHR ''e'' \<notin> set (int_repr i)"
  using int_repr_chars [of i] by (auto simp: list_all_iff is_digit_def)

lemma is_digit_num: "is_digit c \<Longrightarrow> num_char c"
  by (simp add: num_char_def)

text \<open>The first character tells the kind of a value.\<close>

fun kind_char :: "json \<Rightarrow> char \<Rightarrow> bool" where
  "kind_char JNull c = (c = CHR ''n'')"
| "kind_char (JBool b) c = (c = (if b then CHR ''t'' else CHR ''f''))"
| "kind_char (JInt _) c = num_char c"
| "kind_char (JFloat _) c = num_char c"
| "kind_char (JStr _) c = (c = CHR 0x22)"
| "kind_char (JList _) c = (c = CHR ''['')"
| "kind_char (JObj _) c = (c = CHR ''{'')"

lemma canonical_head:
  assumes "repr_faithful fr" "json_wf j" "all_finite j"
  shows "canonical_dumps fr j \<noteq> [] \<and> kind_char j (hd (canonical_dumps fr j))"
proof (cases j)
  case (JInt i)
  then show ?thesis using int_repr_chars [of i] int_repr_num [of i] by (cases "int_repr i") simp_all
next
  case (JFloat x)
  then obtain q where "x = Fin q" using assms(3) by (cases x) simp_all
  then have "float_numeral (fr (Fin q))" using assms(1,2) JFloat by (auto simp: repr_faithful_def)
  then show ?thesis using JFloat \<open>x = Fin q\<close> by (cases "fr (Fin q)") (auto simp: float_numeral_def)
qed (auto simp: raw_str_def canonical_dumps_obj)

lemma canonical_start: "repr_faithful fr \<Longrightarrow> json_wf j \<Longrightarrow> all_finite j \<Longrightarrow>
  canonical_dumps fr j \<noteq> [] \<and> \<not> ends (canonical_dumps fr j)"
  using canonical_head [of fr j] num_char_tokens by (cases j) (auto simp: ends_def split: if_splits)

lemma num_text:
  assumes "repr_faithful fr" "json_wf j" "all_finite j" "\<exists>i. j = JInt i \<or> (\<exists>x. j = JFloat x)"
  shows "list_all num_char (canonical_dumps fr j)"
  using assms int_repr_num by (cases j) (auto simp: repr_faithful_def float_numeral_def split: pyfloat.splits elim!: json_float.elims)

lemma canonical_unique:
  assumes fr: "repr_faithful fr"
  shows "json_wf a \<Longrightarrow> all_finite a \<Longrightarrow> json_wf b \<Longrightarrow> all_finite b \<Longrightarrow>
    canonical_dumps fr a @ r = canonical_dumps fr b @ q \<Longrightarrow> ends r \<Longrightarrow> ends q \<Longrightarrow> normal a = normal b \<and> r = q"
proof (induction a arbitrary: b r q)
  case (JList xs)
  have "hd (canonical_dumps fr b) = CHR ''[''" using JList.prems(5) canonical_head [OF fr JList.prems(3,4)]
    by (cases "canonical_dumps fr b") auto
  then obtain ys where b: "b = JList ys"
    using canonical_head [OF fr JList.prems(3,4)] num_char_tokens by (cases b) (auto split: if_splits)
  have "map normal xs = map normal ys \<and> r = q"
  proof (rule sequence_unique [where d = "canonical_dumps fr" and close = "CHR '']''"])
    show "normal a = normal b \<and> r = q"
      if "a \<in> set xs" "b \<in> set ys" "canonical_dumps fr a @ r = canonical_dumps fr b @ q" "ends r" "ends q" for a b r q
      using JList.IH [OF that(1)] that JList.prems by (auto simp: b list_all_iff)
    show "canonical_dumps fr a \<noteq> [] \<and> \<not> ends (canonical_dumps fr a)" if "a \<in> set xs \<union> set ys" for a
      using canonical_start [OF fr] that JList.prems by (auto simp: b list_all_iff)
  qed (use JList.prems(5) in \<open>simp_all add: b\<close>)
  then show ?case by (simp add: b)
next
  case (JObj xs)
  have "hd (canonical_dumps fr b) = CHR ''{''" using JObj.prems(5) canonical_head [OF fr JObj.prems(3,4)]
    by (cases "canonical_dumps fr b") (auto simp: canonical_dumps_obj)
  then obtain ys where b: "b = JObj ys"
    using canonical_head [OF fr JObj.prems(3,4)] num_char_tokens by (cases b) (auto split: if_splits)
  have "map (\<lambda>(k, j). (k, normal j)) (sort_key fst xs) = map (\<lambda>(k, j). (k, normal j)) (sort_key fst ys) \<and> r = q"
  proof (rule sequence_unique [where d = "member_text fr" and close = "CHR ''}''"])
    show "(case a of (k, j) \<Rightarrow> (k, normal j)) = (case b of (k, j) \<Rightarrow> (k, normal j)) \<and> r = q"
      if "a \<in> set (sort_key fst xs)" "b \<in> set (sort_key fst ys)" "member_text fr a @ r = member_text fr b @ q" "ends r" "ends q" for a b r q
    proof -
      obtain k j k' j' where p: "a = (k, j)" "b = (k', j')" by fastforce
      have "raw_str k @ '':'' @ canonical_dumps fr j @ r = raw_str k' @ '':'' @ canonical_dumps fr j' @ q"
        using that(3) by (simp add: p member_text_def)
      then have "k = k' \<and> '':'' @ canonical_dumps fr j @ r = '':'' @ canonical_dumps fr j' @ q" by (rule raw_str_unique)
      then have "k = k'" "canonical_dumps fr j @ r = canonical_dumps fr j' @ q" by simp_all
      moreover have "json_wf j" "all_finite j" "json_wf j'" "all_finite j'"
        using that(1,2) JObj.prems by (auto simp: p b list_all_iff)
      ultimately show ?thesis using JObj.IH [of "(k, j)" j j' r q] that by (simp add: p)
    qed
    show "member_text fr a \<noteq> [] \<and> \<not> ends (member_text fr a)" for a
      by (simp add: member_text_def raw_str_def ends_def)
  qed (use JObj.prems(5) in \<open>simp_all add: b canonical_dumps_obj\<close>)
  then show ?case by (simp add: b normal_obj)
next
  case (JStr s)
  have "hd (canonical_dumps fr b) = CHR 0x22" using JStr.prems(5) canonical_head [OF fr JStr.prems(3,4)]
    by (cases "canonical_dumps fr b") (auto simp: raw_str_def)
  then obtain t where b: "b = JStr t"
    using canonical_head [OF fr JStr.prems(3,4)] num_char_tokens by (cases b) (auto split: if_splits)
  then have "s = t \<and> r = q" using raw_str_unique [of s r t q] JStr.prems(5) by simp
  then show ?case by (simp add: b)
next
  case (JInt i)
  have "num_char (hd (canonical_dumps fr b))"
    using JInt.prems(5) canonical_head [OF fr JInt.prems(3,4)] int_repr_chars [of i] int_repr_num [of i]
    by (cases "canonical_dumps fr b"; cases "int_repr i") auto
  then have num: "(\<exists>k. b = JInt k) \<or> (\<exists>x. b = JFloat x)"
    using canonical_head [OF fr JInt.prems(3,4)] num_char_tokens by (cases b) (auto split: if_splits)
  have "int_repr i = canonical_dumps fr b \<and> r = q"
    using num_prefix_unique [OF int_repr_num num_text [OF fr JInt.prems(3,4)]] num JInt.prems(5-7) by auto
  then have same: "int_repr i = canonical_dumps fr b" "r = q" by simp_all
  have "\<not> (\<exists>x. b = JFloat x)"
  proof
    assume "\<exists>x. b = JFloat x"
    then obtain z where z: "b = JFloat (Fin z)" "is_double (Fin z)" using JInt.prems(3,4) by (auto split: pyfloat.splits)
    then have "float_numeral (int_repr i)" using fr same(1) by (simp add: repr_faithful_def)
    then show False using int_repr_no_point [of i] by (simp add: float_numeral_def)
  qed
  then obtain k where k: "b = JInt k" using num by blast
  then have "i = k" using int_repr_unique [of i "[]" k "[]"] same(1) by simp
  then show ?case using k same(2) by simp
next
  case (JFloat x)
  obtain p where x: "x = Fin p" using JFloat.prems(2) by (cases x) simp_all
  have fp: "float_numeral (fr (Fin p))" using fr JFloat.prems(1) by (auto simp: repr_faithful_def x)
  have "num_char (hd (canonical_dumps fr b))"
    using JFloat.prems(5) canonical_head [OF fr JFloat.prems(3,4)] canonical_head [OF fr JFloat.prems(1,2)]
    by (cases "canonical_dumps fr b"; cases "canonical_dumps fr (JFloat x)") auto
  then have num: "(\<exists>k. b = JInt k) \<or> (\<exists>x. b = JFloat x)"
    using canonical_head [OF fr JFloat.prems(3,4)] num_char_tokens by (cases b) (auto split: if_splits)
  have eq: "fr (Fin p) = canonical_dumps fr b \<and> r = q"
    using num_prefix_unique [OF num_text [OF fr JFloat.prems(1,2)] num_text [OF fr JFloat.prems(3,4)]] num JFloat.prems(5-7) x by auto
  then have "\<exists>z. b = JFloat (Fin z) \<and> is_double (Fin z)"
    using num int_repr_no_point fp JFloat.prems(3,4) by (auto simp: float_numeral_def split: pyfloat.splits)
  then show ?case using eq fr JFloat.prems(1) by (auto simp: x repr_faithful_def)
next
  case JNull
  have "hd (canonical_dumps fr b) = CHR ''n''" using JNull.prems(5) canonical_head [OF fr JNull.prems(3,4)]
    by (cases "canonical_dumps fr b") auto
  then have "b = JNull"
    using canonical_head [OF fr JNull.prems(3,4)] num_char_tokens by (cases b) (auto split: if_splits)
  then show ?case using JNull.prems(5) by simp
next
  case (JBool x)
  have "hd (canonical_dumps fr b) = (if x then CHR ''t'' else CHR ''f'')"
    using JBool.prems(5) canonical_head [OF fr JBool.prems(3,4)] by (cases "canonical_dumps fr b") (auto split: if_splits)
  then have "b = JBool x"
    using canonical_head [OF fr JBool.prems(3,4)] num_char_tokens by (cases b) (auto split: if_splits)
  then show ?case using JBool.prems(5) by simp
qed

section \<open>Signing inputs\<close>

definition unsigned :: "(string \<times> json) list \<Rightarrow> (string \<times> json) list" where
  "unsigned obj = filter (\<lambda>(k, v). k \<noteq> ''signature'') obj"

lemma canonical_bytes_unsigned:
  "canonical_bytes fr obj = (if all_finite (JObj (unsigned obj)) then Some (utf8 (canonical_dumps fr (JObj (unsigned obj)))) else None)"
  by (simp add: canonical_bytes_def unsigned_def Let_def)

lemma unsigned_wf: "json_wf (JObj obj) \<Longrightarrow> json_wf (JObj (unsigned obj))"
  by (auto simp: unsigned_def list_all_iff distinct_map_filter)

lemma sort_key_sorted [simp]: "sort_key f (sort_key f xs) = sort_key f xs"
  by (rule sort_key_id_if_sorted) simp

lemma canonical_normal: "canonical_dumps fr (normal j) = canonical_dumps fr j"
proof (induction j)
  case (JList xs)
  then have "map (canonical_dumps fr) (map normal xs) = map (canonical_dumps fr) xs" by simp
  then show ?case by (simp only: normal.simps canonical_dumps.simps)
next
  case (JObj kvs)
  have "map (member_text fr) (map (\<lambda>(k, j). (k, normal j)) (sort_key fst kvs)) = map (member_text fr) (sort_key fst kvs)"
    using JObj.IH by (auto simp: member_text_def)
  moreover have "sort_key fst (map (\<lambda>(k, j). (k, normal j)) (sort_key fst kvs)) = map (\<lambda>(k, j). (k, normal j)) (sort_key fst kvs)"
    by (simp only: sort_key_map sort_key_sorted)
  ultimately show ?case by (simp only: normal_obj canonical_dumps_obj)
qed simp_all

lemma signing_input_exact_aux:
  assumes "repr_faithful fr" "json_wf (JObj a)" "json_wf (JObj b)"
    and "canonical_bytes fr a = Some m" "canonical_bytes fr b = Some m'"
  shows "m = m' \<longleftrightarrow> normal (JObj (unsigned a)) = normal (JObj (unsigned b))"
proof
  assume "m = m'"
  then have "canonical_dumps fr (JObj (unsigned a)) = canonical_dumps fr (JObj (unsigned b))"
    using assms(4,5) utf8_inj by (auto simp: canonical_bytes_unsigned simp del: canonical_dumps.simps split: if_splits)
  then show "normal (JObj (unsigned a)) = normal (JObj (unsigned b))"
    using canonical_unique [OF assms(1) unsigned_wf [OF assms(2)] _ unsigned_wf [OF assms(3)], of "[]" "[]"] assms(4,5)
    by (auto simp: canonical_bytes_unsigned ends_def simp del: canonical_dumps.simps json_wf.simps split: if_splits)
next
  assume "normal (JObj (unsigned a)) = normal (JObj (unsigned b))"
  then have "canonical_dumps fr (JObj (unsigned a)) = canonical_dumps fr (JObj (unsigned b))"
    by (metis canonical_normal)
  then show "m = m'" using assms(4,5) by (auto simp: canonical_bytes_unsigned simp del: canonical_dumps.simps split: if_splits)
qed

text \<open>
  A signature covers every member and nothing else. Two objects have the same signing input exactly when they
  agree, up to the order of members at every level, on everything but \<open>signature\<close>.
\<close>

theorem signing_input_exact:
  assumes "repr_faithful fr" "json_wf (JObj a)" "json_wf (JObj b)"
    and "canonical_bytes fr a = Some m" "canonical_bytes fr b = Some m'"
  shows "m = m' \<longleftrightarrow> normal (JObj (unsigned a)) = normal (JObj (unsigned b))"
  using assms by (rule signing_input_exact_aux)

lemma map_of_sorted: "distinct (map fst kvs) \<Longrightarrow> map_of (sort_key fst kvs) k = map_of kvs k"
  by (subst map_of_inject_set [THEN iffD2, of "sort_key fst kvs" kvs]) (simp_all add: distinct_map)

lemma map_of_unsigned: "k \<noteq> ''signature'' \<Longrightarrow> map_of (unsigned obj) k = map_of obj k"
  by (induction obj) (auto simp: unsigned_def)

lemma normal_get:
  assumes "normal (JObj a) = normal (JObj b)" "json_wf (JObj a)" "json_wf (JObj b)"
  shows "map_option normal (map_of a k) = map_option normal (map_of b k)"
proof -
  have "map_of (map (\<lambda>(k, j). (k, normal j)) (sort_key fst xs)) k = map_option normal (map_of xs k)" if "json_wf (JObj xs)" for xs
    using that by (simp add: map_of_map map_of_sorted)
  then show ?thesis using assms by (metis json.inject(6) normal_obj)
qed

lemma normal_str: "normal j = JStr s \<longleftrightarrow> j = JStr s"
  by (cases j) (simp_all add: normal_obj)

text \<open>Objects with one signing input have the same text members.\<close>

lemma signed_text_member:
  assumes "repr_faithful fr" "json_wf (JObj a)" "json_wf (JObj b)"
    and "canonical_bytes fr a = Some m" "canonical_bytes fr b = Some m" "k \<noteq> ''signature''" "json_get k a = JStr s"
  shows "json_get k b = JStr s"
proof -
  have "normal (JObj (unsigned a)) = normal (JObj (unsigned b))"
    using signing_input_exact_aux [OF assms(1-5)] by simp
  then have "map_option normal (map_of a k) = map_option normal (map_of b k)"
    using normal_get [OF _ unsigned_wf [OF assms(2)] unsigned_wf [OF assms(3)]] map_of_unsigned [OF assms(6)] by metis
  moreover have "map_of a k = Some (JStr s)" using assms(7) by (simp add: json_get_def split: option.splits)
  ultimately obtain j where "map_of b k = Some j" "normal j = JStr s" by (cases "map_of b k") auto
  then show ?thesis by (simp add: json_get_def normal_str)
qed

end
