(* ===== verification/TransportGuarantees.thy ===== *)
theory TransportGuarantees
  imports TransportInbox CanonicalForm
begin

text \<open>
  What the transport guarantees, over every run of a node and over pairs of nodes: bounded attempts, settled records
  that stay settled, one inbox record per message, nothing stored without authentication, no pinned key replaced,
  and no acknowledgement without a stored message.
\<close>

lemma trun_append:
  assumes "trun env cfg nd1 tr2 nd2" "trun env cfg nd0 tr1 nd1"
  shows "trun env cfg nd0 (tr1 @ tr2) nd2"
  using assms
proof (induction rule: trun.induct)
  case (trun_step tr nd ev)
  then show ?case using trun.trun_step [of env cfg nd0 "tr1 @ tr" nd ev] by simp
qed simp

section \<open>Outbox records\<close>

text \<open>
  C30: deliveries are bounded. In every run of a node, from empty tables, under any answers and interleavings, a record has been
  attempted at most \<open>max_attempts\<close> times, and once more for each time an operator retried it, a worker started or
  stopped, or a delivery found the node without an identity; and a record waiting for another attempt is strictly
  below that bound.
\<close>

theorem attempts_bounded:
  assumes "trun env cfg nd0 tr nd" "new_node nd0" "1 \<le> tc_max_attempts cfg" "outbox_get (tn_outbox nd) rid = Some r"
  shows "ob_attempts r \<le> ob_max_attempts r + forgiven tr rid \<and>
    (ob_status r \<in> claimable_outbox_states \<longrightarrow> ob_attempts r < ob_max_attempts r + forgiven tr rid)"
  using trun_outbox_ok [OF assms(1-3)] assms(4) by (auto simp: outbox_ok_def row_ok_def)

lemma settled_run:
  assumes "trun env cfg nd tr' nd'" "trun env cfg nd0 tr nd" "new_node nd0" "1 \<le> tc_max_attempts cfg"
    and "outbox_get (tn_outbox nd) rid = Some r" "settled r"
  shows "outbox_get (tn_outbox nd') rid = Some r"
  using assms
proof (induction rule: trun.induct)
  case (trun_step tr' nd' ev)
  have "outbox_ok (forgiven (tr @ tr')) nd'"
    using trun_outbox_ok [OF trun_append [OF trun_step.hyps(1) trun_step.prems(1)] trun_step.prems(2,3)] .
  then have "row_ok (forgiven (tr @ tr') rid) r" using trun_step.IH [OF trun_step.prems] by (simp add: outbox_ok_def)
  then show ?case using texec_settled [OF trun_step.IH [OF trun_step.prems] _ trun_step.prems(5) trun_step.hyps(2)] by blast
qed simp

text \<open>
  C31: an acknowledged or cancelled message is never touched again: whatever the node does later, late answers,
  restarts, retries and recoveries included, the record stays as it is, so it is never sent again.
\<close>

theorem settled_forever:
  assumes "trun env cfg nd0 tr nd" "new_node nd0" "1 \<le> tc_max_attempts cfg"
    and "outbox_get (tn_outbox nd) rid = Some r" "ob_status r = Acknowledged \<or> ob_status r = Cancelled"
    and "trun env cfg nd tr' nd'"
  shows "outbox_get (tn_outbox nd') rid = Some r"
  using settled_run [OF assms(6,1-4)] assms(5) by (simp add: settled_def)

section \<open>Inbox records\<close>

lemma trun_inbox:
  assumes "trun env cfg nd0 tr nd" "new_node nd0"
  shows "inbox_ok (tn_inbox nd) \<and> map ib_id (tn_inbox nd) = List.map_filter (\<lambda>(ev, nd). new_record env cfg ev nd) tr"
  using assms
proof (induction rule: trun.induct)
  case trun_start
  then show ?case by (simp add: new_node_def inbox_ok_def List.map_filter_def)
next
  case (trun_step tr nd ev)
  have ok: "inbox_ok (tn_inbox nd)" using trun_step by blast
  show ?case
    using texec_inbox(1,2) [OF ok trun_step.hyps(2), of env cfg] trun_step.IH [OF trun_step.prems]
    by (auto simp: List.map_filter_def split: option.split)
qed

text \<open>
  C29: a message enters once. In every run the inbox has one record per message id, and the records are, in order,
  those whose storing was reported to the application: each exactly once, and a repeated delivery never.
\<close>

theorem inbox_exactly_once:
  assumes "trun env cfg nd0 tr nd" "new_node nd0"
  shows "distinct (map ib_message_id (tn_inbox nd)) \<and>
    map ib_id (tn_inbox nd) = List.map_filter (\<lambda>(ev, nd). new_record env cfg ev nd) tr \<and> distinct (map ib_id (tn_inbox nd))"
  using trun_inbox [OF assms] by (metis inbox_ok_def)

lemma inbox_persists:
  assumes "trun env cfg nd tr' nd'" "trun env cfg nd0 tr nd" "new_node nd0"
    and "inbox_by_message_id (tn_inbox nd) m = Some r"
  shows "\<exists>r'. inbox_by_message_id (tn_inbox nd') m = Some r' \<and> same_message r r'"
  using assms
proof (induction rule: trun.induct)
  case trun_start then show ?case by auto
next
  case (trun_step tr' nd' ev)
  obtain r' where r': "inbox_by_message_id (tn_inbox nd') m = Some r'" "same_message r r'"
    using trun_step.IH [OF trun_step.prems] by blast
  have "inbox_ok (tn_inbox nd')" using trun_inbox [OF trun_append [OF trun_step.hyps(1) trun_step.prems(1)] trun_step.prems(2)] by simp
  then obtain r'' where "inbox_by_message_id (tn_inbox (texec env cfg ev nd')) m = Some r''" "same_message r' r''"
    using texec_inbox(3) [OF _ trun_step.hyps(2) r'(1)] by blast
  then show ?case using same_message_trans [OF r'(2)] by blast
qed

text \<open>
  C27: nothing is acknowledged or stored that is not authentic. A body that is answered with an acknowledgement is a well-formed
  envelope of a kind that may be delivered, addressed to this node, signed under the key pinned for the enabled, trusted
  peer that has the sender's node id, within the accepted clock skew, allowed by the node's own meshes, and its
  record, under its message id and its content hash, is in the inbox when the answer leaves.
\<close>

theorem acknowledged_is_authentic:
  assumes "receive_message env cfg fv now len body nd = ((200, Some ack), nd')"
  shows "\<exists>raw e p r. body = Some raw \<and> len \<le> tc_max_payload cfg \<and>
    parse_envelope (te_repr env) (te_validate env) (tc_max_payload cfg) raw = Inr e \<and> env_kind e \<in> deliverable_kinds \<and>
    validate_recipient e (tc_node_id cfg) \<and>
    peer_by_node_id (tn_peers nd) (env_sender_node_id e) = Some p \<and> pr_trust p = Trusted \<and> pr_enabled p \<and>
    verify_signature_with (te_repr env) (te_verify env) (or_empty (pr_public_key p)) e = Some True \<and>
    validate_timing (te_fromiso env) e (tc_skew cfg) now = Inr () \<and>
    mesh_allowed (evaluate_mesh_ingress (tc_node_id cfg) (mesh_claim_of e) (mesh_views (tn_meshes nd)) None) \<and>
    inbox_by_message_id (tn_inbox nd') (env_message_id e) = Some r \<and>
    canonical_hash (te_repr env) (model_dump e) = Some (ib_hash r)"
proof -
  obtain raw where raw: "body = Some raw" "len \<le> tc_max_payload cfg"
    using assms by (auto simp: receive_message_def split: if_splits option.splits)
  then have eq: "(inbound_answer (fst (handle_inbound env cfg fv now raw nd)), snd (handle_inbound env cfg fv now raw nd)) = ((200, Some ack), nd')"
    using assms by (simp add: receive_message_def split_def Let_def)
  show ?thesis
  proof (cases rule: handle_inbound_cases [of env cfg fv now raw nd])
    case (denied c)
    then show ?thesis using eq by (simp add: inbound_answer_def)
  next
    case (repeated e p ident r)
    then have nd': "tn_inbox nd' = increment_duplicate (env_message_id e) (tn_inbox nd)" using eq by auto
    obtain r' where "inbox_by_message_id (tn_inbox nd') (env_message_id e) = Some r'" "same_message r r'"
      unfolding nd' using increment_duplicate_same [OF repeated(3)] by blast
    then show ?thesis using repeated(2,4) raw same_messageD [of r r']
      by (auto simp: authenticate_Inr may_enter_def known_sender_def)
  next
    case (stored e p ident hash)
    then have nd': "tn_inbox nd' = tn_inbox nd @ [inbox_row_of fv now e p hash]" using eq by auto
    have "inbox_by_message_id (tn_inbox nd') (env_message_id e) = Some (inbox_row_of fv now e p hash)"
      using stored(3) by (simp add: nd' inbox_by_message_id_def tbl_get_append inbox_row_of_def)
    then show ?thesis using stored(2,4) raw
      by (auto simp: authenticate_Inr may_enter_def known_sender_def inbox_row_of_def)
  qed
qed

section \<open>Pinned keys\<close>

lemma finish_tn_peers [simp]: "tn_peers (finish_delivery rid owner chg nd) = tn_peers nd"
  by (simp add: finish_delivery_def)

lemma after_begin_peers [simp]: "tn_peers (after_begin b) = tn_peers (snd b)"
  by (auto simp: after_begin_def split: prod.split begin_result.split)

lemma outbox_operations_peers [simp]:
  "tn_peers (snd (deliver_begin rid owner now nd)) = tn_peers nd"
  "tn_peers (snd (create_outbound_message env cfg fv rid now q nd)) = tn_peers nd"
  "tn_peers (snd (retry_message rid now nd)) = tn_peers nd" "tn_peers (snd (cancel_message rid nd)) = tn_peers nd"
  "tn_peers (worker_start cfg owner now nd) = tn_peers nd" "tn_peers (worker_shutdown now nd) = tn_peers nd"
  by (auto simp: deliver_begin_def create_outbound_message_def retry_message_def cancel_message_def worker_start_def
        worker_shutdown_def recover_node_def Let_def split: option.split)

lemma claim_peers [simp]:
  "tn_peers (claim_task owner now x rid nd) = tn_peers nd" "tn_peers (snd (claim_node rid owner now x nd)) = tn_peers nd"
  by (auto simp: claim_task_def claim_node_def split_def Let_def)

lemma fold_claim_peers [simp]: "tn_peers (fold (claim_task owner now x) rids nd) = tn_peers nd"
  by (induction rids arbitrary: nd) simp_all

definition keeps_key :: "string \<Rightarrow> peer_row list \<Rightarrow> peer_row list \<Rightarrow> bool" where
  "keeps_key pid ps ps' \<longleftrightarrow>
     (\<forall>p. peer_get ps pid = Some p \<longrightarrow>
        (\<exists>p'. peer_get ps' pid = Some p' \<and> pr_public_key p' = pr_public_key p \<and> pr_trust p' = pr_trust p))"

lemma keeps_key_refl [simp]: "keeps_key pid ps ps"
  by (simp add: keeps_key_def)

lemma keeps_key_update:
  assumes "\<And>p. pr_id (f p) = pr_id p" "\<And>p. pr_public_key (f p) = pr_public_key p" "\<And>p. pr_trust (f p) = pr_trust p"
  shows "keeps_key pid ps (peer_update j f ps)"
  using assms by (auto simp: keeps_key_def tbl_get_upd)

lemma keeps_key_record [simp]:
  "keeps_key pid ps (peer_record_success now j ps)" "keeps_key pid ps (peer_record_failure now j ps)"
  by (simp_all add: peer_record_success_def peer_record_failure_def keeps_key_update)

lemma keeps_key_end: "keeps_key pid (tn_peers nd) (tn_peers (snd (deliver_end env cfg u now d out nd)))"
  by (auto simp: deliver_end_def handle_delivery_error_def handle_ack_failure_def Let_def
        split: sum.split prod.split check_result.split option.split)

lemma keeps_key_patch: "keeps_key pid ps (peer_update j (patch_peer q) ps)"
  by (rule keeps_key_update) (simp_all add: patch_peer_def)

lemma texec_keeps_key:
  assumes "\<And>key fp. ev \<noteq> Ev_trust pid key fp" "ev \<noteq> Ev_revoke pid"
  shows "keeps_key pid (tn_peers nd) (tn_peers (texec env cfg ev nd))"
proof (cases ev)
  case (Ev_create_peer j q)
  then show ?thesis by (auto simp: create_peer_def keeps_key_def tbl_get_append split: option.split)
next
  case (Ev_trust j key fp)
  then have "j \<noteq> pid" using assms(1) by blast
  then show ?thesis using Ev_trust
    by (auto simp: trust_peer_def Let_def keeps_key_def tbl_get_upd pin_key_def split: option.split)
next
  case (Ev_revoke j)
  then have "j \<noteq> pid" using assms(2) by blast
  then show ?thesis using Ev_revoke
    by (auto simp: revoke_peer_def change_peer_def keeps_key_def tbl_get_upd split: option.split)
next
  case (Ev_enable j b)
  then show ?thesis by (auto simp: set_peer_enabled_def change_peer_def keeps_key_update split: option.split)
next
  case (Ev_patch j q)
  then show ?thesis by (auto simp: update_peer_def change_peer_def keeps_key_patch split: option.split)
next
  case (Ev_tested p out now) then show ?thesis by (auto simp: test_peer_def split: sum.split prod.split)
next
  case (Ev_manifest p out now)
  then show ?thesis
    by (auto simp: refresh_manifest_def Let_def keeps_key_update split: sum.split prod.split check_result.split)
next
  case (Ev_receive fv now len body)
  have "tn_peers (snd (handle_inbound env cfg fv now raw nd)) = tn_peers nd" for raw
    by (cases rule: handle_inbound_cases [of env cfg fv now raw nd]) simp_all
  then show ?thesis using Ev_receive by (auto simp: texec_receive simp del: texec.simps split: option.split)
next
  case (Ev_poll free now) then show ?thesis by (auto simp: poll_deliveries_def split: option.split)
next
  case (Ev_begin i now) then show ?thesis by (cases "tn_tasks nd ! i") simp_all
next
  case (Ev_answer i out u now)
  then show ?thesis using keeps_key_end [of pid "nd\<lparr>tn_tasks := drop_nth i (tn_tasks nd)\<rparr>"] by (cases "tn_tasks nd ! i") simp_all
next
  case (Ev_send_now rid owner now)
  then show ?thesis by (auto simp: send_now_def split_def Let_def split: option.split)
qed (use assms in simp_all)

text \<open>
  The key of a trusted peer is never replaced. Whatever happens next, refreshed manifests, patches and another
  trust request with another key included, the peer's row keeps its public key, and it stays trusted unless the operator
  revokes it.
\<close>

theorem pinned_key_stays:
  assumes "peer_get (tn_peers nd) pid = Some p" "pr_trust p = Trusted" "truthy (pr_public_key p)"
  shows "\<exists>p'. peer_get (tn_peers (texec env cfg ev nd)) pid = Some p' \<and> pr_public_key p' = pr_public_key p \<and>
    (pr_trust p' = Trusted \<or> ev = Ev_revoke pid)"
proof -
  consider (trust) key fp where "ev = Ev_trust pid key fp" | (revoke) "ev = Ev_revoke pid"
    | (other) "\<And>key fp. ev \<noteq> Ev_trust pid key fp" "ev \<noteq> Ev_revoke pid" by blast
  then show ?thesis
  proof cases
    case trust
    have same: "Some (or_empty (pr_public_key p)) = pr_public_key p" using assms(3) by (cases "pr_public_key p") (auto simp: truthy_def or_empty_def)
    then show ?thesis using trust assms
      by (auto simp: trust_peer_def Let_def tbl_get_upd pin_key_def split: option.split)
  next
    case revoke
    then show ?thesis using assms by (auto simp: revoke_peer_def change_peer_def tbl_get_upd)
  next
    case other
    then show ?thesis using texec_keeps_key [of ev pid nd env cfg] assms by (auto simp: keeps_key_def)
  qed
qed

section \<open>Backoff\<close>

text \<open>
  The backoff stays between its bounds. For a configuration in order, the delay before another attempt, computed in binary64,
  is at least the initial backoff and at most the maximum plus the whole jitter; it is undefined, an overflow of
  \<open>2 ** (attempt - 1)\<close>, only beyond 1024 attempts; and its deterministic part never shrinks from one attempt to the next.
\<close>

definition backoff_config :: "transport_config \<Rightarrow> bool" where
  "backoff_config cfg \<longleftrightarrow>
     (\<exists>i m j. tc_initial_backoff cfg = Fin i \<and> tc_max_backoff cfg = Fin m \<and> tc_jitter cfg = Fin j \<and>
        0 < i \<and> i \<le> m \<and> 0 \<le> j \<and> is_double (Fin i) \<and> is_double (Fin m) \<and> is_double (Fin j))"

lemma fmul_one: "is_double (Fin i) \<Longrightarrow> fmul (Fin i) (Fin 1) = Fin i"
  by (simp add: binary64_exact del: is_double.simps)

lemma scaled_mono: "0 < i \<Longrightarrow> k \<le> n \<Longrightarrow> fmul (Fin i) (Fin (2 ^ k)) \<le> fmul (Fin i) (Fin (2 ^ n))"
  by (rule fmul_mono) (simp_all add: less_imp_le)

lemma fmin_mono: "a \<le> a' \<Longrightarrow> b \<noteq> NaN \<Longrightarrow> fmin a b \<le> fmin a' b"
  by (cases a; cases a'; cases b) (auto simp: fmin_def)

lemma fmin_ge: "c \<le> a \<Longrightarrow> c \<le> b \<Longrightarrow> c \<le> fmin a b"
  by (simp add: fmin_def)

lemma backoff_base_bounds:
  assumes "backoff_config cfg" "backoff_base cfg attempt = Some b"
  shows "tc_initial_backoff cfg \<le> b \<and> b \<le> tc_max_backoff cfg \<and> is_double b \<and> b \<noteq> NaN"
proof -
  obtain i m where cfg: "tc_initial_backoff cfg = Fin i" "tc_max_backoff cfg = Fin m" "0 < i" "i \<le> m"
      "is_double (Fin i)" "is_double (Fin m)" using assms(1) by (auto simp: backoff_config_def simp del: is_double.simps)
  obtain n where b: "b = fmin (fmul (Fin i) (Fin (2 ^ n))) (Fin m)"
    using assms(2) cfg by (auto simp: backoff_base_def Let_def split: if_splits simp del: fmul.simps is_double.simps)
  have "Fin i \<le> fmul (Fin i) (Fin (2 ^ n))" using scaled_mono [OF cfg(3), of 0 n] fmul_one [OF cfg(5)] by simp
  then have ge: "Fin i \<le> b" using cfg(4) fmin_ge by (simp add: b del: fmul.simps)
  moreover have "b \<le> Fin m" using fmin_le [of "fmul (Fin i) (Fin (2 ^ n))" "Fin m"] by (simp add: b)
  moreover have "is_double b" unfolding b by (intro is_double_min_max fmul_double cfg)
  moreover have "b \<noteq> NaN" using fle_not_NaN [OF ge] by simp
  ultimately show ?thesis using ge by (simp add: cfg(1,2))
qed

theorem backoff_bounds:
  assumes "backoff_config cfg" "u = Fin v" "0 \<le> v" "v \<le> 1"
  shows "(backoff cfg u attempt = None \<longleftrightarrow> 1024 < attempt) \<and>
    (\<forall>d. backoff cfg u attempt = Some d \<longrightarrow>
       tc_initial_backoff cfg \<le> d \<and> d \<le> fadd (tc_max_backoff cfg) (tc_jitter cfg)) \<and>
    (\<forall>b b'. backoff_base cfg attempt = Some b \<longrightarrow> backoff_base cfg (attempt + 1) = Some b' \<longrightarrow> b \<le> b')"
proof (intro conjI allI impI)
  show "backoff cfg u attempt = None \<longleftrightarrow> 1024 < attempt" by (auto simp: backoff_def backoff_base_def Let_def)
next
  fix d assume "backoff cfg u attempt = Some d"
  then obtain b where b: "backoff_base cfg attempt = Some b"
    and d: "d = fadd b (fadd (Fin 0) (fmul (fsub (tc_jitter cfg) (Fin 0)) u))" by (auto simp: backoff_def)
  note base = backoff_base_bounds [OF assms(1) b]
  obtain j m where j: "tc_jitter cfg = Fin j" "0 \<le> j" "is_double (Fin j)" and m: "tc_max_backoff cfg = Fin m"
    using assms(1) by (auto simp: backoff_config_def simp del: is_double.simps)
  have sub: "fsub (Fin j) (Fin 0) = Fin j" using j(3) by (simp add: fsub_def binary64_exact del: is_double.simps)
  define w where "w = fmul (Fin j) u"
  have w0: "Fin 0 \<le> w" unfolding w_def by (rule fmul_nonneg) (use j assms(2,3) in simp_all)
  have wj: "w \<le> Fin j"
  proof -
    have "w \<le> fmul (Fin j) (Fin 1)" unfolding w_def by (rule fmul_mono) (use j assms(2-4) in simp_all)
    then show ?thesis using fmul_one [OF j(3)] by simp
  qed
  obtain z where z: "fadd (Fin 0) w = z" "z = w"
  proof -
    have "is_double w" by (simp add: w_def)
    then have "fadd (Fin 0) w = w" using w0 by (cases w) (simp_all add: binary64_exact)
    then show thesis using that by simp
  qed
  have dw: "d = fadd b w" using d j(1) sub z by (simp add: w_def)
  have fin: "fadd b w \<noteq> NaN" using base w0 wj m by (cases b; cases w) auto
  show "tc_initial_backoff cfg \<le> d" using base fadd_ge [of b w] w0 fin fle_trans by (metis dw)
  show "d \<le> fadd (tc_max_backoff cfg) (tc_jitter cfg)"
    unfolding dw by (rule fadd_mono) (use base wj fin j(1) m in auto)
next
  fix b b' assume b: "backoff_base cfg attempt = Some b" "backoff_base cfg (attempt + 1) = Some b'"
  obtain i m where cfg: "tc_initial_backoff cfg = Fin i" "tc_max_backoff cfg = Fin m" "0 < i"
    using assms(1) by (auto simp: backoff_config_def simp del: is_double.simps)
  then show "b \<le> b'" using b scaled_mono [OF cfg(3), of "nat (max 0 (attempt - 1))" "nat (max 0 attempt)"]
    by (auto simp: backoff_base_def Let_def split: if_splits simp del: fmul.simps intro!: fmin_mono)
qed

end
