(* ===== verification/TransportExchange.thy ===== *)
theory TransportExchange
  imports TransportGuarantees
begin

text \<open>
  Two nodes together: what an acknowledgement proves to the sender, that a delivery between two nodes that trust each
  other ends acknowledged, and two ways in which messages are held back.
\<close>

section \<open>Where an acknowledgement comes from\<close>

definition acked :: "tnode \<Rightarrow> string \<Rightarrow> bool" where
  "acked nd rid \<longleftrightarrow> (\<exists>r. outbox_get (tn_outbox nd) rid = Some r \<and> ob_status r = Acknowledged)"

lemma acked_finish:
  assumes "acked (finish_delivery j owner chg nd) rid" "\<And>r. ob_id (chg r) = ob_id r" "\<And>r. ob_status (chg r) \<noteq> Acknowledged"
  shows "acked nd rid"
  using assms by (auto simp: acked_def finish_delivery_def outbox_get_release release_row_def split: if_splits)

lemma acked_cong: "tn_outbox nd' = tn_outbox nd \<Longrightarrow> acked nd' rid = acked nd rid"
  by (simp add: acked_def)

lemma acked_other [simp]:
  "acked (nd\<lparr>tn_tasks := ts\<rparr>) rid = acked nd rid" "acked (nd\<lparr>tn_peers := ps\<rparr>) rid = acked nd rid"
  "acked (after_begin b) rid = acked (snd b) rid"
  by (simp_all add: acked_def after_begin_outbox)

lemma acked_claim:
  "acked (snd (claim_node j owner now x nd)) rid \<Longrightarrow> acked nd rid" "acked (claim_task owner now x j nd) rid \<Longrightarrow> acked nd rid"
  by (auto simp: acked_def claim_node_def claim_task_def split_def Let_def outbox_get_claim split: if_splits)

lemma acked_fold: "acked (fold (claim_task owner now x) rids nd) rid \<Longrightarrow> acked nd rid"
  by (induction rids arbitrary: nd) (simp, simp, blast dest: acked_claim(2))

lemma acked_poll: "acked (poll_deliveries cfg free now nd) rid \<Longrightarrow> acked nd rid"
  unfolding poll_deliveries_def by (cases "tn_worker nd"; cases "lease_end cfg now"; simp; erule acked_fold)

lemma acked_begin: "acked (snd (deliver_begin j owner now nd)) rid \<Longrightarrow> acked nd rid"
  using acked_finish [of j owner _ nd rid]
  by (auto simp: deliver_begin_def row_changes split: option.splits if_splits)

lemma acked_failures:
  "acked (snd (handle_delivery_error cfg u now d e nd)) rid \<Longrightarrow> acked nd rid"
  "acked (snd (handle_ack_failure cfg u now d nd)) rid \<Longrightarrow> acked nd rid"
  using acked_finish [of "dl_record d" "dl_owner d" _ nd rid]
  by (auto simp: handle_delivery_error_def handle_ack_failure_def Let_def finish_peers row_changes split: option.splits if_splits)

definition ack_checked :: "transport_env \<Rightarrow> transport_config \<Rightarrow> delivery \<Rightarrow> http_outcome \<Rightarrow> bool" where
  "ack_checked env cfg d out \<longleftrightarrow>
     (\<exists>status body j. peer_request env cfg (dl_peer d) out = Inr (status, body) \<and>
        verify_ack (te_repr env) (peer_verifies env (pr_public_key (dl_peer d))) (JObj body) (or_empty (pr_public_key (dl_peer d)))
          (dl_message_id d) (pr_expected_node_id (dl_peer d)) = Check_ok j)"

lemma acked_end:
  assumes "acked (snd (deliver_end env cfg u now d out nd)) rid" "\<not> acked nd rid"
  shows "dl_record d = rid \<and> ack_checked env cfg d out \<and>
    (\<exists>r. outbox_get (tn_outbox nd) rid = Some r \<and> ob_owner r = Some (dl_owner d))"
proof (cases "peer_request env cfg (dl_peer d) out")
  case (Inl e)
  then show ?thesis using assms acked_failures(1) by (simp add: deliver_end_def)
next
  case (Inr sb)
  obtain status body where sb: "sb = (status, body)" by fastforce
  let ?v = "verify_ack (te_repr env) (peer_verifies env (pr_public_key (dl_peer d))) (JObj body) (or_empty (pr_public_key (dl_peer d)))
          (dl_message_id d) (pr_expected_node_id (dl_peer d))"
  have eq: "deliver_end env cfg u now d out nd =
      (case ?v of Check_raises \<Rightarrow> (None, nd)
       | Check_ok _ \<Rightarrow>
           (let remote = json_get ''acknowledgement_id'' body
            in if owns nd (dl_record d) (dl_owner d) \<and> \<not> bindable remote then (None, nd)
               else let nd' = finish_delivery (dl_record d) (dl_owner d) (acknowledge_row now remote status) nd
                    in (Some Acknowledged, nd'\<lparr>tn_peers := peer_record_success now (dl_peer_id d) (tn_peers nd')\<rparr>))
       | _ \<Rightarrow> handle_ack_failure cfg u now d nd)" using Inr sb by (simp add: deliver_end_def)
  have ok: "\<exists>j. ?v = Check_ok j" using assms acked_failures(2) eq by (cases ?v) auto
  then have "acked (finish_delivery (dl_record d) (dl_owner d) (acknowledge_row now (json_get ''acknowledgement_id'' body) status) nd) rid"
    using assms eq by (auto simp: Let_def split: if_splits)
  then have "dl_record d = rid \<and> (\<exists>r. outbox_get (tn_outbox nd) rid = Some r \<and> ob_owner r = Some (dl_owner d))"
    using assms(2) by (auto simp: acked_def finish_delivery_def outbox_get_release release_row_def row_changes split: if_splits)
  then show ?thesis using ok Inr sb by (auto simp: ack_checked_def)
qed

lemma acked_texec:
  assumes "acked (texec env cfg ev nd) rid" "\<not> acked nd rid"
  shows "\<exists>i out u now d. ev = Ev_answer i out u now \<and> tn_tasks nd ! i = Sent d \<and> dl_record d = rid \<and>
    ack_checked env cfg d out \<and> (\<exists>r. outbox_get (tn_outbox nd) rid = Some r \<and> ob_owner r = Some (dl_owner d))"
proof (cases ev)
  case (Ev_send fv j now q)
  then show ?thesis using assms
    by (auto simp: acked_def create_outbound_message_def Let_def tbl_get_append outbox_create_row_def split: option.splits if_splits)
next
  case (Ev_poll free now)
  then show ?thesis using assms acked_poll [of cfg free now nd rid] by simp
next
  case (Ev_begin i now)
  show ?thesis
  proof (cases "tn_tasks nd ! i")
    case (Queued j owner)
    then show ?thesis using assms Ev_begin acked_begin [of j owner now "nd\<lparr>tn_tasks := drop_nth i (tn_tasks nd)\<rparr>" rid] by simp
  qed (use assms Ev_begin in simp)
next
  case (Ev_answer i out u now)
  show ?thesis
  proof (cases "tn_tasks nd ! i")
    case (Sent d)
    then have "acked (snd (deliver_end env cfg u now d out (nd\<lparr>tn_tasks := drop_nth i (tn_tasks nd)\<rparr>))) rid"
      using assms(1) Ev_answer by simp
    then show ?thesis using acked_end [of env cfg u now d out "nd\<lparr>tn_tasks := drop_nth i (tn_tasks nd)\<rparr>" rid] assms(2) Ev_answer Sent
      by simp
  qed (use assms Ev_answer in simp)
next
  case (Ev_send_now j owner now)
  show ?thesis
  proof (cases "lease_end cfg now")
    case (Some x)
    then show ?thesis using assms Ev_send_now acked_claim(1) [of j owner now x nd rid]
        acked_begin [of j owner now "snd (claim_node j owner now x nd)" rid]
      by (simp add: send_now_def split_def Let_def split: if_splits)
  qed (use assms Ev_send_now in \<open>simp add: send_now_def\<close>)
next
  case (Ev_retry j now)
  then show ?thesis using assms
    by (auto simp: acked_def retry_message_def tbl_get_upd retry_row_def split: option.splits if_splits)
next
  case (Ev_cancel j)
  then show ?thesis using assms
    by (auto simp: acked_def cancel_message_def tbl_get_upd cancel_row_def split: option.splits if_splits)
next
  case (Ev_start owner now)
  then show ?thesis using assms
    by (auto simp: acked_def worker_start_def recover_node_def outbox_get_recover recover_row_def split: if_splits)
next
  case (Ev_shutdown now)
  then show ?thesis using assms
    by (auto simp: acked_def worker_shutdown_def recover_node_def outbox_get_recover recover_row_def split: if_splits)
next
  case Ev_crash then show ?thesis using assms by (simp add: acked_def)
qed (use texec_quiet [of ev env cfg nd] assms in \<open>simp_all add: side_event_def acked_def\<close>)

section \<open>What it proves\<close>

definition acks_sent :: "transport_env \<Rightarrow> transport_config \<Rightarrow> (tevent \<times> tnode) list \<Rightarrow> (string \<times> json) list list" where
  "acks_sent env cfg tr =
     List.map_filter (\<lambda>(ev, nd).
       case ev of
         Ev_receive fv now len body \<Rightarrow> snd (fst (receive_message env cfg fv now len body nd))
       | _ \<Rightarrow> None) tr"

lemma ack_of_obj:
  "json_get ''original_message_id'' (ack_of env ident fv mid r dup) = JStr mid \<and> json_wf (JObj (ack_of env ident fv mid r dup))"
proof -
  obtain a where a: "build_ack (te_repr env) ident (if_ack_uuid fv) (if_now_text fv) mid (ib_ack_status r) (Some (ib_id r)) dup None = Some a"
    using build_ack_total by blast
  then have "json_get ''original_message_id'' a = JStr mid" "json_wf (JObj a)"
    by (auto simp: build_ack_def signed_object_def json_get_def json_opt_str_def)
  then show ?thesis by (simp add: ack_of_def a)
qed

lemma received_ack:
  assumes "snd (fst (receive_message env cfg fv now len body nd)) = Some a"
  shows "\<exists>mid r. json_get ''original_message_id'' a = JStr mid \<and> json_wf (JObj a) \<and>
    inbox_by_message_id (tn_inbox (snd (receive_message env cfg fv now len body nd))) mid = Some r"
proof -
  obtain raw where raw: "body = Some raw" "\<not> tc_max_payload cfg < len"
    using assms by (auto simp: receive_message_def split: if_splits option.splits)
  then have eq: "receive_message env cfg fv now len body nd =
      (inbound_answer (fst (handle_inbound env cfg fv now raw nd)), snd (handle_inbound env cfg fv now raw nd))"
    by (simp add: receive_message_def split_def Let_def)
  show ?thesis
  proof (cases rule: handle_inbound_cases [of env cfg fv now raw nd])
    case (denied c) then show ?thesis using assms eq by (simp add: inbound_answer_def)
  next
    case (repeated e p ident r)
    then have "a = ack_of env ident fv (env_message_id e) r True" using assms eq by (simp add: inbound_answer_def)
    then show ?thesis using ack_of_obj increment_duplicate_same [OF repeated(3), of "env_message_id e"] repeated(5) eq by auto
  next
    case (stored e p ident hash)
    then have "a = ack_of env ident fv (env_message_id e) (inbox_row_of fv now e p hash) False" using assms eq by (simp add: inbound_answer_def)
    moreover have "inbox_by_message_id (tn_inbox nd @ [inbox_row_of fv now e p hash]) (env_message_id e) = Some (inbox_row_of fv now e p hash)"
      using stored(3) by (simp add: inbox_by_message_id_def tbl_get_append inbox_row_of_def)
    ultimately show ?thesis using ack_of_obj stored(5) eq by auto
  qed
qed

text \<open>Every acknowledgement a node has sent names a message of its inbox.\<close>

lemma ack_sent_stored:
  assumes "trun env cfg nd0 tr nd" "new_node nd0" "a \<in> set (acks_sent env cfg tr)"
  shows "\<exists>mid r. json_get ''original_message_id'' a = JStr mid \<and> json_wf (JObj a) \<and> inbox_by_message_id (tn_inbox nd) mid = Some r"
  using assms
proof (induction rule: trun.induct)
  case trun_start then show ?case by (simp add: acks_sent_def List.map_filter_def)
next
  case (trun_step tr nd ev)
  have ok: "inbox_ok (tn_inbox nd)" using trun_inbox [OF trun_step.hyps(1) trun_step.prems(1)] by simp
  show ?case
  proof (cases "a \<in> set (acks_sent env cfg tr)")
    case True
    then show ?thesis using trun_step.IH [OF trun_step.prems(1)] texec_inbox(3) [OF ok trun_step.hyps(2)] by blast
  next
    case False
    then obtain fv now len body where ev: "ev = Ev_receive fv now len body"
      and a: "snd (fst (receive_message env cfg fv now len body nd)) = Some a"
      using trun_step.prems(2) by (cases ev) (auto simp: acks_sent_def List.map_filter_def split: if_splits)
    then show ?thesis using received_ack [OF a] by simp
  qed
qed

text \<open>
  The signature scheme cannot be forged: a signature that verifies under the key was made over the
  canonical bytes of one of these objects. A node signs acknowledgements, envelopes and manifests, and of these only an
  acknowledgement has an \<open>original_message_id\<close>.
\<close>

definition signs_only :: "transport_env \<Rightarrow> string \<Rightarrow> (string \<times> json) list set \<Rightarrow> bool" where
  "signs_only env key objs \<longleftrightarrow>
     (\<forall>m s. te_verify env key m s \<longrightarrow> (\<exists>obj \<in> objs. canonical_bytes (te_repr env) obj = Some m))"

definition other_objects :: "(string \<times> json) list set" where
  "other_objects = {obj. json_wf (JObj obj) \<and> ''original_message_id'' \<notin> set (map fst obj)}"

lemma envelopes_and_manifests_are_other:
  "''original_message_id'' \<notin> set (map fst (model_dump e))"
  "build_manifest fr ident software now expires name endpoint caps = Some man \<Longrightarrow> ''original_message_id'' \<notin> set (map fst man)"
  by (auto simp: model_dump_def build_manifest_def signed_object_def)

lemma ack_checked_names:
  assumes "ack_checked env cfg d out" "pr_public_key (dl_peer d) = Some key"
  shows "\<exists>status body m s. peer_request env cfg (dl_peer d) out = Inr (status, body) \<and>
    json_get ''original_message_id'' body = JStr (dl_message_id d) \<and> canonical_bytes (te_repr env) body = Some m \<and> te_verify env key m s"
proof -
  obtain status body j where req: "peer_request env cfg (dl_peer d) out = Inr (status, body)"
    and v: "verify_ack (te_repr env) (peer_verifies env (Some key)) (JObj body) key (dl_message_id d) (pr_expected_node_id (dl_peer d)) = Check_ok j"
    using assms by (auto simp: ack_checked_def or_empty_def)
  then show ?thesis using verify_ackD [OF v] by (auto simp: peer_verifies_def)
qed

lemma request_answer:
  assumes "peer_request env cfg p out = Inr (status, body)"
  shows "\<exists>len. out = Answer status len (Some (JObj body))"
  using assms
  by (auto simp: peer_request_def rbind_Inr_iff request_result_def split: http_outcome.splits if_splits option.splits json.splits)

lemma acknowledged_means_stored_aux:
  assumes run: "trun env cfg nd0 tr nd" "new_node nd0" "1 \<le> tc_max_attempts cfg" "possible ev nd"
    and before: "outbox_get (tn_outbox nd) rid = Some r" "ob_status r \<noteq> Acknowledged"
    and acked: "outbox_get (tn_outbox (texec env cfg ev nd)) rid = Some r'" "ob_status r' = Acknowledged"
    and peer: "trun env cfgB ndB0 trB ndB" "new_node ndB0"
    and key: "\<And>d. Sent d \<in> set (tn_tasks nd) \<Longrightarrow> dl_record d = rid \<Longrightarrow> pr_public_key (dl_peer d) = Some keyB"
    and unforged: "signs_only env keyB (set (acks_sent env cfgB trB) \<union> other_objects)"
    and wf: "\<And>i status len body u now. ev = Ev_answer i (Answer status len (Some body)) u now \<Longrightarrow> json_wf body"
    and fr: "repr_faithful (te_repr env)"
  shows "\<exists>b. inbox_by_message_id (tn_inbox ndB) (ob_message_id r) = Some b"
proof -
  have "acked (texec env cfg ev nd) rid" "\<not> acked nd rid" using before acked by (auto simp: acked_def)
  then obtain i out u now d where ev: "ev = Ev_answer i out u now" and d: "tn_tasks nd ! i = Sent d" "dl_record d = rid"
    and chk: "ack_checked env cfg d out" and own: "ob_owner r = Some (dl_owner d)"
    using acked_texec [of env cfg ev nd rid] before(1) by auto
  have i: "Sent d \<in> set (tn_tasks nd)" using run(4) ev d by (auto simp: possible_def dest: nth_mem)
  have "task_ok (tn_worker nd) (tn_outbox nd) (Sent d)" using trun_outbox_ok [OF run(1-3)] i by (simp add: outbox_ok_def)
  then have mid: "dl_message_id d = ob_message_id r" using before(1) own d(2) by (simp add: task_ok_def snapshot_ok_def)
  obtain status body m s where body: "peer_request env cfg (dl_peer d) out = Inr (status, body)"
      "json_get ''original_message_id'' body = JStr (ob_message_id r)" "canonical_bytes (te_repr env) body = Some m" "te_verify env keyB m s"
    using ack_checked_names [OF chk key [OF i d(2)]] mid by auto
  obtain obj where obj: "obj \<in> set (acks_sent env cfgB trB) \<union> other_objects" "canonical_bytes (te_repr env) obj = Some m"
    using unforged body(4) by (auto simp: signs_only_def)
  have wf_body: "json_wf (JObj body)" using wf ev request_answer [OF body(1)] by blast
  have wf_obj: "json_wf (JObj obj)" using obj(1) ack_sent_stored [OF peer] by (auto simp: other_objects_def)
  have named: "json_get ''original_message_id'' obj = JStr (ob_message_id r)"
    using signed_text_member [OF fr wf_body wf_obj body(3) obj(2) _ body(2)] by simp
  have "json_get ''original_message_id'' x = JNull" if "x \<in> other_objects" for x
    using that by (auto simp: other_objects_def json_get_def map_of_eq_None_iff split: option.split dest!: map_of_SomeD)
       (force simp: image_iff)
  then have "obj \<in> set (acks_sent env cfgB trB)" using obj(1) named by auto
  then obtain mid b where "json_get ''original_message_id'' obj = JStr mid" "inbox_by_message_id (tn_inbox ndB) mid = Some b"
    using ack_sent_stored [OF peer] by blast
  then show ?thesis using named by simp
qed


section \<open>Two nodes that trust each other\<close>

definition ready_to_send :: "transport_env \<Rightarrow> transport_config \<Rightarrow> tnode \<Rightarrow> string \<Rightarrow> int \<Rightarrow> outbox_row \<Rightarrow> peer_row \<Rightarrow> bool" where
  "ready_to_send env cfg nd rid now r p \<longleftrightarrow>
     tn_identity nd \<noteq> None \<and> outbox_get (tn_outbox nd) rid = Some r \<and> claimable now r \<and> \<not> lapsed now (ob_expires_at r) \<and>
     peer_get (tn_peers nd) (ob_peer_id r) = Some p \<and> pr_trust p \<noteq> Revoked \<and> pr_enabled p \<and> lease_end cfg now \<noteq> None \<and>
     (\<exists>url. validate_endpoint (te_urlparse env) (tc_allow_insecure_http cfg) (pr_endpoint_url p) = Inr url)"

definition sent_delivery :: "string \<Rightarrow> string \<Rightarrow> outbox_row \<Rightarrow> peer_row \<Rightarrow> delivery" where
  "sent_delivery rid owner r p =
     \<lparr>dl_record = rid, dl_owner = owner, dl_message_id = ob_message_id r, dl_peer_id = ob_peer_id r, dl_envelope = ob_envelope r,
      dl_attempts = ob_attempts r + 1, dl_max_attempts = ob_max_attempts r, dl_peer = p\<rparr>"

lemma send_now_sends:
  assumes "ready_to_send env cfg nd rid now r p"
  shows "\<exists>x. texec env cfg (Ev_send_now rid owner now) nd =
    nd\<lparr>tn_outbox := outbox_update rid (claim_row owner now x) (tn_outbox nd),
       tn_tasks := tn_tasks nd @ [Sent (sent_delivery rid owner r p)]\<rparr>"
proof -
  obtain x where x: "lease_end cfg now = Some x" using assms by (auto simp: ready_to_send_def)
  have c: "claim_node rid owner now x nd = (True, nd\<lparr>tn_outbox := outbox_update rid (claim_row owner now x) (tn_outbox nd)\<rparr>)"
    using assms by (simp add: ready_to_send_def claim_node_def claim_def)
  have "deliver_begin rid owner now (nd\<lparr>tn_outbox := outbox_update rid (claim_row owner now x) (tn_outbox nd)\<rparr>) =
      (Begin_sent (sent_delivery rid owner r p), nd\<lparr>tn_outbox := outbox_update rid (claim_row owner now x) (tn_outbox nd)\<rparr>)"
    using assms by (auto simp: ready_to_send_def deliver_begin_def tbl_get_upd sent_delivery_def split: option.split)
  then show ?thesis using x c by (intro exI [of _ x]) (simp add: send_now_def after_begin_def)
qed

lemma answered_acknowledges:
  assumes own: "outbox_get (tn_outbox nd) rid = Some r" "ob_owner r = Some owner"
    and i: "i < length (tn_tasks nd)" "tn_tasks nd ! i = Sent d" "dl_record d = rid" "dl_owner d = owner"
    and req: "peer_request env cfg (dl_peer d) out = Inr (status, body)"
    and v: "verify_ack (te_repr env) (peer_verifies env (pr_public_key (dl_peer d))) (JObj body)
      (or_empty (pr_public_key (dl_peer d))) (dl_message_id d) (pr_expected_node_id (dl_peer d)) = Check_ok j"
    and b: "bindable (json_get ''acknowledgement_id'' body)"
  shows "acked (texec env cfg (Ev_answer i out u now) nd) rid"
  using assms
  by (simp add: deliver_end_def Let_def acked_def finish_delivery_def outbox_get_release release_row_def acknowledge_row_def)

lemma handle_inbound_accepts:
  assumes "tn_identity nd = Some ident" "authenticate env cfg (\<lambda>k. k \<in> deliverable_kinds) now nd raw = Inr (e, p)"
    and "canonical_hash (te_repr env) (model_dump e) = Some h"
    and "\<forall>b. inbox_by_message_id (tn_inbox nd) (env_message_id e) = Some b \<longrightarrow> ib_hash b = h"
  shows "\<exists>b dup nd'. (handle_inbound env cfg fv now raw nd = (Stored (if_record fv) (ack_of env ident fv (env_message_id e) b dup), nd') \<or>
      handle_inbound env cfg fv now raw nd = (Repeated (ack_of env ident fv (env_message_id e) b dup), nd')) \<and>
    (\<exists>row. inbox_by_message_id (tn_inbox nd') (env_message_id e) = Some row \<and> ib_hash row = h)"
proof (cases "inbox_by_message_id (tn_inbox nd) (env_message_id e)")
  case None
  then show ?thesis using assms
    by (auto simp: handle_inbound_def store_and_ack_eq Let_def inbox_by_message_id_def tbl_get_append inbox_row_of_def)
next
  case (Some b)
  then have "ib_hash b = h" using assms(4) by blast
  obtain b' where "inbox_by_message_id (increment_duplicate (env_message_id e) (tn_inbox nd)) (env_message_id e) = Some b'" "same_message b b'"
    using increment_duplicate_same [OF Some] by blast
  then show ?thesis using assms Some \<open>ib_hash b = h\<close> same_messageD by (auto simp: handle_inbound_def store_and_ack_eq)
qed

lemma ack_of_verifies:
  assumes "\<And>m. te_verify env (ni_public_key ident) m (ni_sign ident m)" "\<And>m. ni_sign ident m \<noteq> []"
  shows "(\<exists>j. verify_ack (te_repr env) (peer_verifies env (Some (ni_public_key ident))) (JObj (ack_of env ident fv mid b dup))
      (ni_public_key ident) mid (Some (ni_node_id ident)) = Check_ok j) \<and>
    bindable (json_get ''acknowledgement_id'' (ack_of env ident fv mid b dup))"
proof -
  obtain a where a: "build_ack (te_repr env) ident (if_ack_uuid fv) (if_now_text fv) mid (ib_ack_status b) (Some (ib_id b)) dup None = Some a"
    using build_ack_total by blast
  have "json_get ''acknowledgement_id'' a = JStr (if_ack_uuid fv)"
    using a by (auto simp: build_ack_def signed_object_def json_get_def)
  then show ?thesis
    using built_ack_verifies [OF a, of "peer_verifies env (Some (ni_public_key ident))"] assms
    by (auto simp: ack_of_def a peer_verifies_def bindable_def)
qed

text \<open>
  C32: a message between two nodes that trust each other is acknowledged. If the record is due and its peer is not revoked, and the receiver,
  under the sender's pinned key, its clock, its meshes and its size limit, has no reason to refuse the envelope, and
  the request and its answer come through, then sending stores the message at the receiver, under its id and content hash, and
  the answer marks the sender's record acknowledged.
\<close>

theorem trusted_exchange_completes:
  assumes ready: "ready_to_send env cfgA ndA rid now r p"
    and env: "ob_envelope r = model_dump e" "ob_message_id r = env_message_id e" "canonical_hash (te_repr env) (model_dump e) = Some h"
    and accepted: "authenticate env cfgB (\<lambda>k. k \<in> deliverable_kinds) nowB ndB (JObj (model_dump e)) = Inr (e, pB)"
      "len \<le> tc_max_payload cfgB"
      "\<forall>b. inbox_by_message_id (tn_inbox ndB) (env_message_id e) = Some b \<longrightarrow> ib_hash b = h"
    and ident: "tn_identity ndB = Some identB" "\<And>m. te_verify env (ni_public_key identB) m (ni_sign identB m)" "\<And>m. ni_sign identB m \<noteq> []"
    and peer: "pr_public_key p = Some (ni_public_key identB)" "pr_expected_node_id p = Some (ni_node_id identB)"
    and small: "alen \<le> tc_max_response cfgA"
  shows "\<exists>ack ndB'. receive_message env cfgB fv nowB len (Some (JObj (ob_envelope r))) ndB = ((200, Some ack), ndB') \<and>
    (\<exists>b. inbox_by_message_id (tn_inbox ndB') (ob_message_id r) = Some b \<and> ib_hash b = h) \<and>
    (\<exists>r'. outbox_get (tn_outbox (texec env cfgA (Ev_answer (length (tn_tasks ndA)) (Answer 200 alen (Some (JObj ack))) u now')
        (texec env cfgA (Ev_send_now rid owner now) ndA))) rid = Some r' \<and> ob_status r' = Acknowledged)"
proof -
  obtain b dup ndB' where hb: "handle_inbound env cfgB fv nowB (JObj (model_dump e)) ndB =
        (Stored (if_record fv) (ack_of env identB fv (env_message_id e) b dup), ndB') \<or>
      handle_inbound env cfgB fv nowB (JObj (model_dump e)) ndB = (Repeated (ack_of env identB fv (env_message_id e) b dup), ndB')"
    and row: "\<exists>row. inbox_by_message_id (tn_inbox ndB') (env_message_id e) = Some row \<and> ib_hash row = h"
    using handle_inbound_accepts [OF ident(1) accepted(1) env(3) accepted(3), of fv] by blast
  let ?ack = "ack_of env identB fv (env_message_id e) b dup"
  have rec: "receive_message env cfgB fv nowB len (Some (JObj (ob_envelope r))) ndB = ((200, Some ?ack), ndB')"
    using hb accepted(2) env(1) by (auto simp: receive_message_def inbound_answer_def)
  let ?d = "sent_delivery rid owner r p"
  obtain x where sent: "texec env cfgA (Ev_send_now rid owner now) ndA =
      ndA\<lparr>tn_outbox := outbox_update rid (claim_row owner now x) (tn_outbox ndA), tn_tasks := tn_tasks ndA @ [Sent ?d]\<rparr>" (is "_ = ?ndA")
    using send_now_sends [OF ready] by blast
  obtain j where v: "verify_ack (te_repr env) (peer_verifies env (Some (ni_public_key identB))) (JObj ?ack)
      (ni_public_key identB) (env_message_id e) (Some (ni_node_id identB)) = Check_ok j"
    and bd: "bindable (json_get ''acknowledgement_id'' ?ack)" using ack_of_verifies [OF ident(2,3)] by blast
  have "acked (texec env cfgA (Ev_answer (length (tn_tasks ndA)) (Answer 200 alen (Some (JObj ?ack))) u now') ?ndA) rid"
  proof (rule answered_acknowledges [where d = ?d and owner = owner])
    show "outbox_get (tn_outbox ?ndA) rid = Some (claim_row owner now x r)"
      using ready by (simp add: ready_to_send_def tbl_get_upd)
    show "peer_request env cfgA (dl_peer ?d) (Answer 200 alen (Some (JObj ?ack))) = Inr (200, ?ack)"
      using ready small by (auto simp: ready_to_send_def peer_request_def sent_delivery_def request_result_def)
    show "verify_ack (te_repr env) (peer_verifies env (pr_public_key (dl_peer ?d))) (JObj ?ack) (or_empty (pr_public_key (dl_peer ?d)))
        (dl_message_id ?d) (pr_expected_node_id (dl_peer ?d)) = Check_ok j"
      using v peer env(2) by (simp add: sent_delivery_def or_empty_def)
  qed (use bd in \<open>simp_all add: sent_delivery_def\<close>)
  then show ?thesis using rec row env(2) by (auto simp: acked_def sent simp del: texec.simps)
qed

end
