(* ===== verification/TransportDemo.thy ===== *)
theory TransportDemo
  imports TransportExchange
begin

text \<open>
  Two nodes at work: a node \<open>na\<close> that sends one message to a node \<open>nb\<close>. The runs show that the hypotheses of the
  transport's guarantees are met and what the guarantees then say. Signatures are the text \<open>s\<close>, accepted as the
  parameter \<open>ver\<close> decides.
\<close>

section \<open>The two nodes\<close>

definition point_repr :: "pyfloat \<Rightarrow> string" where
  "point_repr x = (case x of Fin q \<Rightarrow> (case quotient_of q of (n, d) \<Rightarrow> int_repr n @ CHR ''.'' # int_repr d) | _ \<Rightarrow> [])"

lemma point_repr_faithful: "repr_faithful point_repr"
proof -
  have num: "float_numeral (point_repr (Fin q))" for q
    using int_repr_num by (cases "quotient_of q") (simp add: point_repr_def float_numeral_def num_char_def)
  have "q = p" if e: "point_repr (Fin q) = point_repr (Fin p)" for q p
  proof -
    obtain n d where q: "quotient_of q = (n, d)" by fastforce
    obtain m c where p: "quotient_of p = (m, c)" by fastforce
    have "int_repr n @ CHR ''.'' # int_repr d = int_repr m @ CHR ''.'' # int_repr c"
      using e by (simp add: point_repr_def q p)
    then have "n = m \<and> CHR ''.'' # int_repr d = CHR ''.'' # int_repr c"
      by (rule int_repr_unique) (simp_all add: is_digit_def)
    then have "n = m \<and> d = c" using int_repr_unique [of d "[]" c "[]"] by simp
    then show ?thesis using q p by (metis quotient_of_inject)
  qed
  with num show ?thesis by (simp add: repr_faithful_def)
qed

definition demo_msg :: message_envelope where
  "demo_msg = \<lparr>env_protocol = protocol_name, env_protocol_version = protocol_version_text, env_message_id = ''m1'',
     env_conversation_id = None, env_correlation_id = None, env_causation_id = None, env_reply_to_message_id = None,
     env_sender_node_id = ''na'', env_sender_fingerprint = ''fa'', env_recipient_node_id = Some ''nb'',
     env_recipient_agent_id = None, env_mesh_id = None, env_authority_id = None, env_kind = ''agent_message'',
     env_created_at = ''t'', env_expires_at = None, env_nonce = ''n'', env_mission_id = None, env_mission_run_id = None,
     env_mission_step_id = None, env_content_type = ''text/plain'', env_payload = [(''text'', JStr ''hi'')],
     env_signature = Some ''s''\<rparr>"

definition demo_transport :: "(string \<Rightarrow> bytes \<Rightarrow> string \<Rightarrow> bool) \<Rightarrow> transport_env" where
  "demo_transport ver = \<lparr>te_repr = point_repr, te_verify = ver, te_validate = (\<lambda>_. Some demo_msg), te_fromiso = (\<lambda>_. Some 1000),
     te_urlparse = (\<lambda>_. (''https'', ''b''))\<rparr>"

definition demo_settings :: "string \<Rightarrow> transport_config" where
  "demo_settings nid = \<lparr>tc_node_id = nid, tc_max_payload = 1000, tc_skew = Fin 300, tc_lease = Fin 30, tc_max_attempts = 1,
     tc_initial_backoff = Fin 1, tc_max_backoff = Fin 60, tc_jitter = Fin 1, tc_allow_insecure_http = False,
     tc_max_response = 1000, tc_recovery_enabled = True\<rparr>"

definition demo_node_identity :: "string \<Rightarrow> string \<Rightarrow> string \<Rightarrow> node_identity" where
  "demo_node_identity nid key fp = \<lparr>ni_node_id = nid, ni_node_name = nid, ni_public_key = key, ni_fingerprint = fp, ni_sign = (\<lambda>_. ''s'')\<rparr>"

definition demo_peer :: "string \<Rightarrow> string \<Rightarrow> string \<Rightarrow> peer_row" where
  "demo_peer pid nid key =
     (peer_create_row pid None \<lparr>pc_name = nid, pc_role = ''peer'', pc_endpoint_url = Some ''https://b'', pc_expected_node_id = Some nid,
        pc_public_key = Some key, pc_fingerprint = None, pc_transport = ''http'', pc_tls_verify = True, pc_metadata = []\<rparr>)\<lparr>pr_trust := Trusted\<rparr>"

definition demo_tnode :: "node_identity \<Rightarrow> peer_row \<Rightarrow> tnode" where
  "demo_tnode ident p = \<lparr>tn_peers = [p], tn_outbox = [], tn_inbox = [], tn_meshes = \<lparr>md_meshes = [], md_members = []\<rparr>,
     tn_identity = Some ident, tn_worker = None, tn_tasks = []\<rparr>"

definition node_a :: tnode where "node_a = demo_tnode (demo_node_identity ''na'' ''ka'' ''fa'') (demo_peer ''pb'' ''nb'' ''kb'')"
definition node_b :: tnode where "node_b = demo_tnode (demo_node_identity ''nb'' ''kb'' ''fb'') (demo_peer ''pa'' ''na'' ''ka'')"

lemma demo_new_nodes: "new_node node_a" "new_node node_b"
  by (simp_all add: new_node_def node_a_def node_b_def demo_tnode_def)

definition demo_send :: send_request where
  "demo_send = \<lparr>sq_peer_id = ''pb'', sq_subject = None, sq_text = Some ''hi'', sq_data = [], sq_content_type = ''text/plain'',
     sq_kind = ''agent_message'', sq_conversation_id = None, sq_correlation_id = None, sq_reply_to_message_id = None,
     sq_mission_id = None, sq_expires_in = None\<rparr>"

definition demo_values :: fresh_values where
  "demo_values = \<lparr>fv_uuid = ''m1'', fv_nonce = ''n'', fv_created_at = ''t'', fv_expiry = (\<lambda>_. None)\<rparr>"

definition demo_fresh :: "string \<Rightarrow> inbound_fresh" where
  "demo_fresh rid = \<lparr>if_record = rid, if_ack_id = ''x'', if_ack_uuid = ''k1'', if_now_text = ''t''\<rparr>"

section \<open>Sending\<close>

lemma canonical_finite: "all_finite (JObj obj) \<Longrightarrow> canonical_bytes fr obj \<noteq> None"
  by (auto simp: canonical_bytes_def Let_def list_all_iff)

lemma demo_msg_canonical: "canonical_bytes fr (model_dump demo_msg) \<noteq> None"
  by (rule canonical_finite) (simp add: model_dump_def demo_msg_def json_opt_str_def)

lemma demo_msg_built:
  "build_envelope point_repr (demo_node_identity ''na'' ''ka'' ''fa'') demo_values (outbound_request demo_send ''nb'') = Some demo_msg"
proof -
  let ?e = "demo_msg\<lparr>env_signature := None\<rparr>"
  obtain m where m: "canonical_bytes point_repr (model_dump ?e) = Some m"
    using demo_msg_canonical by (auto simp: canonical_bytes_signature)
  have "build_envelope point_repr (demo_node_identity ''na'' ''ka'' ''fa'') demo_values (outbound_request demo_send ''nb'')
      = sign_envelope point_repr (\<lambda>_. ''s'') ?e"
    by (simp add: build_envelope_def outbound_request_def demo_send_def demo_values_def demo_node_identity_def demo_msg_def
        outbound_body_def set_default_def truthy_def)
  also have "\<dots> = Some (?e\<lparr>env_signature := Some ''s''\<rparr>)" by (simp add: sign_envelope_def m)
  also have "\<dots> = Some demo_msg" by (simp add: demo_msg_def)
  finally show ?thesis .
qed

definition demo_record :: outbox_row where
  "demo_record = outbox_create_row 1000 \<lparr>oc_id = ''r1'', oc_message_id = ''m1'', oc_peer_id = ''pb'', oc_kind = ''agent_message'',
     oc_envelope = model_dump demo_msg, oc_hash = canonical_hash point_repr (model_dump demo_msg), oc_version = protocol_version_text,
     oc_conversation_id = None, oc_correlation_id = None, oc_reply_to_message_id = None, oc_mission_id = None,
     oc_expires_at = None, oc_max_attempts = 1\<rparr>"

definition sent_a :: tnode where "sent_a = node_a\<lparr>tn_outbox := [demo_record]\<rparr>"

lemma demo_sends: "texec (demo_transport ver) (demo_settings ''na'') (Ev_send demo_values ''r1'' 1000 demo_send) node_a = sent_a"
proof -
  have p: "peer_get (tn_peers node_a) (sq_peer_id demo_send) = Some (demo_peer ''pb'' ''nb'' ''kb'')"
    by (simp add: node_a_def demo_tnode_def demo_peer_def peer_create_row_def demo_send_def)
  have q: "pr_trust (demo_peer ''pb'' ''nb'' ''kb'') = Trusted" "pr_enabled (demo_peer ''pb'' ''nb'' ''kb'')"
      "pr_id (demo_peer ''pb'' ''nb'' ''kb'') = ''pb''" "pr_expected_node_id (demo_peer ''pb'' ''nb'' ''kb'') = Some ''nb''"
    by (simp_all add: demo_peer_def peer_create_row_def)
  have i: "tn_identity node_a = Some (demo_node_identity ''na'' ''ka'' ''fa'')" "tn_outbox node_a = []"
    by (simp_all add: node_a_def demo_tnode_def)
  show ?thesis
    by (simp add: create_outbound_message_def i p q demo_msg_built demo_transport_def truthy_def sent_a_def)
      (simp add: demo_record_def demo_send_def demo_settings_def demo_msg_def or_empty_def)
qed

lemma demo_ready: "ready_to_send (demo_transport ver) (demo_settings ''na'') sent_a ''r1'' 2000 demo_record (demo_peer ''pb'' ''nb'' ''kb'')"
proof -
  have "tc_lease (demo_settings ''na'') = Fin 30" by (simp add: demo_settings_def)
  moreover have "timedelta_us (Fin 30) = Some 30000000" by code_simp
  ultimately have "lease_end (demo_settings ''na'') 2000 \<noteq> None" by (simp add: lease_end_def)
  then show ?thesis
    by (simp add: ready_to_send_def sent_a_def node_a_def demo_tnode_def demo_record_def outbox_create_row_def claimable_def
        claimable_outbox_states_def past_due_def lapsed_def demo_peer_def peer_create_row_def demo_transport_def
        demo_settings_def validate_endpoint_def truthy_def)
qed

lemma demo_waiting:
  "\<exists>x. texec (demo_transport ver) (demo_settings ''na'') (Ev_send_now ''r1'' ''o1'' 2000) sent_a =
     sent_a\<lparr>tn_outbox := [claim_row ''o1'' 2000 x demo_record],
       tn_tasks := [Sent (sent_delivery ''r1'' ''o1'' demo_record (demo_peer ''pb'' ''nb'' ''kb''))]\<rparr>"
  using send_now_sends [OF demo_ready, of ver "''o1''"]
  by (simp add: sent_a_def node_a_def demo_tnode_def demo_record_def outbox_create_row_def del: texec.simps)

lemma demo_a_runs:
  "trun (demo_transport ver) (demo_settings ''na'') node_a [(Ev_send demo_values ''r1'' 1000 demo_send, node_a)] sent_a"
  "\<exists>nd. trun (demo_transport ver) (demo_settings ''na'') node_a
     [(Ev_send demo_values ''r1'' 1000 demo_send, node_a), (Ev_send_now ''r1'' ''o1'' 2000, sent_a)] nd \<and>
     nd = texec (demo_transport ver) (demo_settings ''na'') (Ev_send_now ''r1'' ''o1'' 2000) sent_a"
proof -
  have "possible (Ev_send demo_values ''r1'' 1000 demo_send) node_a"
    by (simp add: possible_def node_a_def demo_tnode_def)
  from trun_step [OF trun_start this, of "demo_transport ver" "demo_settings ''na''"]
  show one: "trun (demo_transport ver) (demo_settings ''na'') node_a [(Ev_send demo_values ''r1'' 1000 demo_send, node_a)] sent_a"
    by (simp add: demo_sends del: texec.simps)
  have "possible (Ev_send_now ''r1'' ''o1'' 2000) sent_a"
    by (simp add: possible_def used_owners_def sent_a_def node_a_def demo_tnode_def)
  from trun_step [OF one this] show "\<exists>nd. trun (demo_transport ver) (demo_settings ''na'') node_a
     [(Ev_send demo_values ''r1'' 1000 demo_send, node_a), (Ev_send_now ''r1'' ''o1'' 2000, sent_a)] nd \<and>
     nd = texec (demo_transport ver) (demo_settings ''na'') (Ev_send_now ''r1'' ''o1'' 2000) sent_a" by simp
qed

section \<open>Receiving\<close>

abbreviation peer_a :: peer_row where "peer_a \<equiv> demo_peer ''pa'' ''na'' ''ka''"
abbreviation identity_b :: node_identity where "identity_b \<equiv> demo_node_identity ''nb'' ''kb'' ''fb''"

definition accepts_a :: "(string \<Rightarrow> bytes \<Rightarrow> string \<Rightarrow> bool) \<Rightarrow> bool" where
  "accepts_a ver \<longleftrightarrow> (\<forall>m. ver ''ka'' m ''s'')"

lemma demo_authenticates:
  assumes "accepts_a ver" "tn_peers nd = [peer_a]" "tn_meshes nd = \<lparr>md_meshes = [], md_members = []\<rparr>"
  shows "authenticate (demo_transport ver) (demo_settings ''nb'') (\<lambda>k. k \<in> deliverable_kinds) 1000 nd (JObj (model_dump demo_msg))
    = Inr (demo_msg, peer_a)"
proof -
  obtain m where m: "canonical_bytes point_repr (model_dump demo_msg) = Some m" using demo_msg_canonical by auto
  have names: "json_get ''protocol'' (model_dump demo_msg) = JStr protocol_name"
    "json_get ''protocol_version'' (model_dump demo_msg) = JStr protocol_version_text"
    by (simp_all add: json_get_def model_dump_def demo_msg_def)
  have payload: "canonical_bytes point_repr [(''payload'', JObj (env_payload demo_msg))] = Some b \<Longrightarrow> length b \<le> 1000" for b
    by (auto simp: demo_msg_def canonical_bytes_def raw_str_def raw_escape_def json_escape_def utf8_def utf8_char_def)
  obtain b where b: "canonical_bytes point_repr [(''payload'', JObj (env_payload demo_msg))] = Some b"
    using canonical_finite [of "[(''payload'', JObj (env_payload demo_msg))]" point_repr] by (auto simp: demo_msg_def)
  have "truthy (env_signature demo_msg)" by (simp add: demo_msg_def truthy_def)
  then have parse: "parse_envelope point_repr (\<lambda>_. Some demo_msg) 1000 (JObj (model_dump demo_msg)) = Inr demo_msg"
    using payload [OF b] by (simp add: parse_envelope_def names supported_version_def b)
  have known: "peer_by_node_id [peer_a] ''na'' = Some peer_a" "pr_trust peer_a = Trusted" "pr_enabled peer_a"
    "pr_public_key peer_a = Some ''ka''" "pr_fingerprint peer_a = None"
    by (simp_all add: peer_by_node_id_def demo_peer_def peer_create_row_def)
  have fields: "env_sender_node_id demo_msg = ''na''" "env_signature demo_msg = Some ''s''" "env_kind demo_msg \<in> deliverable_kinds"
    "env_recipient_node_id demo_msg = Some ''nb''" "env_created_at demo_msg = ''t''" "env_expires_at demo_msg = None"
    by (simp_all add: demo_msg_def deliverable_kinds_def)
  have skew: "timedelta_us (Fin 300) = Some 300000000" by code_simp
  show ?thesis
    using assms(1) [unfolded accepts_a_def]
    by (simp add: authenticate_def lift_env_def demo_transport_def demo_settings_def parse fields check_sender_def assms(2,3) known
        verify_signature_with_def m truthy_def validate_recipient_def validate_timing_def parse_dt_def skew enforce_mesh_def
        evaluate_mesh_ingress_def mesh_views_def list_meshes_def mesh_allowed_def del: timedelta_us.simps)
qed

definition demo_hash :: string where "demo_hash = the (canonical_hash point_repr (model_dump demo_msg))"

lemma demo_msg_hash: "canonical_hash point_repr (model_dump demo_msg) = Some demo_hash"
  using demo_msg_canonical by (auto simp: demo_hash_def canonical_hash_def)

definition demo_entry :: inbox_row where
  "demo_entry = inbox_row_of (demo_fresh ''i1'') 1000 demo_msg peer_a demo_hash"

lemma demo_entry_simps:
  "ib_id demo_entry = ''i1''" "ib_message_id demo_entry = ''m1''" "ib_hash demo_entry = demo_hash" "ib_ack_status demo_entry = Accepted"
  by (simp_all add: demo_entry_def inbox_row_of_def demo_fresh_def demo_msg_def)

definition demo_ack :: "(string \<times> json) list" where
  "demo_ack = ack_of (demo_transport (\<lambda>_ _ _. False)) identity_b (demo_fresh ''i1'') ''m1'' demo_entry False"

definition arrived_b :: tnode where "arrived_b = node_b\<lparr>tn_inbox := [demo_entry]\<rparr>"

abbreviation demo_arrival :: "string \<Rightarrow> tevent" where
  "demo_arrival rid \<equiv> Ev_receive (demo_fresh rid) 1000 500 (Some (JObj (model_dump demo_msg)))"

lemma node_b_simps:
  "tn_peers node_b = [peer_a]" "tn_meshes node_b = \<lparr>md_meshes = [], md_members = []\<rparr>" "tn_identity node_b = Some identity_b"
  "tn_inbox node_b = []"
  by (simp_all add: node_b_def demo_tnode_def)

lemma demo_stored:
  assumes "accepts_a ver"
  shows "receive_message (demo_transport ver) (demo_settings ''nb'') (demo_fresh ''i1'') 1000 500 (Some (JObj (model_dump demo_msg))) node_b
    = ((200, Some demo_ack), arrived_b)"
proof -
  have env: "te_repr (demo_transport ver) = point_repr" for ver by (simp add: demo_transport_def)
  have ack: "ack_of (demo_transport ver) identity_b (demo_fresh ''i1'') ''m1'' demo_entry False = demo_ack"
    by (simp add: demo_ack_def ack_of_def env)
  have mid: "env_message_id demo_msg = ''m1''" by (simp add: demo_msg_def)
  have "handle_inbound (demo_transport ver) (demo_settings ''nb'') (demo_fresh ''i1'') 1000 (JObj (model_dump demo_msg)) node_b
      = (Stored ''i1'' demo_ack, arrived_b)"
    using demo_authenticates [OF assms node_b_simps(1,2)]
    by (simp add: handle_inbound_def node_b_simps env demo_msg_hash store_and_ack_eq mid inbox_by_message_id_def Let_def ack
        demo_entry_def [symmetric] arrived_b_def) (simp add: demo_fresh_def)
  then show ?thesis by (simp add: receive_message_def inbound_answer_def demo_settings_def)
qed

lemma demo_repeated:
  assumes "accepts_a ver"
  shows "\<exists>a. handle_inbound (demo_transport ver) (demo_settings ''nb'') (demo_fresh ''i2'') 1000 (JObj (model_dump demo_msg)) arrived_b
    = (Repeated a, arrived_b\<lparr>tn_inbox := increment_duplicate ''m1'' [demo_entry]\<rparr>)"
proof -
  have env: "te_repr (demo_transport ver) = point_repr" by (simp add: demo_transport_def)
  have b: "tn_peers arrived_b = [peer_a]" "tn_meshes arrived_b = \<lparr>md_meshes = [], md_members = []\<rparr>"
    "tn_identity arrived_b = Some identity_b" "tn_inbox arrived_b = [demo_entry]"
    by (simp_all add: arrived_b_def node_b_simps)
  have mid: "env_message_id demo_msg = ''m1''" by (simp add: demo_msg_def)
  have "inbox_by_message_id [demo_entry] ''m1'' = Some demo_entry" by (simp add: inbox_by_message_id_def demo_entry_simps)
  then show ?thesis using demo_authenticates [OF assms b(1,2)]
    by (simp add: handle_inbound_def b env demo_msg_hash store_and_ack_eq mid demo_entry_simps Let_def)
qed

lemma demo_b_runs:
  assumes "accepts_a ver"
  shows "trun (demo_transport ver) (demo_settings ''nb'') node_b [(demo_arrival ''i1'', node_b)] arrived_b"
    and "trun (demo_transport ver) (demo_settings ''nb'') node_b [(demo_arrival ''i1'', node_b), (demo_arrival ''i2'', arrived_b)]
      (arrived_b\<lparr>tn_inbox := increment_duplicate ''m1'' [demo_entry]\<rparr>)"
proof -
  have "possible (demo_arrival ''i1'') node_b" by (simp add: possible_def node_b_simps)
  from trun_step [OF trun_start this, of "demo_transport ver" "demo_settings ''nb''"]
  show one: "trun (demo_transport ver) (demo_settings ''nb'') node_b [(demo_arrival ''i1'', node_b)] arrived_b"
    by (simp add: demo_stored [OF assms])
  have p: "possible (demo_arrival ''i2'') arrived_b"
    by (simp add: possible_def arrived_b_def demo_entry_simps) (simp add: demo_fresh_def)
  obtain a where "handle_inbound (demo_transport ver) (demo_settings ''nb'') (demo_fresh ''i2'') 1000 (JObj (model_dump demo_msg)) arrived_b
      = (Repeated a, arrived_b\<lparr>tn_inbox := increment_duplicate ''m1'' [demo_entry]\<rparr>)" using demo_repeated [OF assms] by blast
  then have "texec (demo_transport ver) (demo_settings ''nb'') (demo_arrival ''i2'') arrived_b
      = arrived_b\<lparr>tn_inbox := increment_duplicate ''m1'' [demo_entry]\<rparr>"
    by (simp add: receive_message_def) (simp add: demo_settings_def)
  then show "trun (demo_transport ver) (demo_settings ''nb'') node_b [(demo_arrival ''i1'', node_b), (demo_arrival ''i2'', arrived_b)]
      (arrived_b\<lparr>tn_inbox := increment_duplicate ''m1'' [demo_entry]\<rparr>)"
    using trun_step [OF one p] by simp
qed

section \<open>What the guarantees say of them\<close>

abbreviation open_env :: transport_env where "open_env \<equiv> demo_transport (\<lambda>_ _ _. True)"

lemma open_accepts [simp]: "accepts_a (\<lambda>_ _ _. True)"
  by (simp add: accepts_a_def)

text \<open>The one attempt allowed times out.\<close>

theorem attempts_bounded_witness:
  "\<exists>tr nd r. trun open_env (demo_settings ''na'') node_a tr nd \<and> outbox_get (tn_outbox nd) ''r1'' = Some r \<and>
     ob_status r = Dead_letter \<and> ob_attempts r = 1 \<and> ob_max_attempts r = 1 \<and> forgiven tr ''r1'' = 0 \<and>
     ob_attempts r \<le> ob_max_attempts r + forgiven tr ''r1''"
proof -
  let ?cfg = "demo_settings ''na''"
  obtain nd where two: "trun open_env ?cfg node_a [(Ev_send demo_values ''r1'' 1000 demo_send, node_a), (Ev_send_now ''r1'' ''o1'' 2000, sent_a)] nd"
    and nd: "nd = texec open_env ?cfg (Ev_send_now ''r1'' ''o1'' 2000) sent_a" using demo_a_runs(2) by blast
  obtain x where w: "nd = sent_a\<lparr>tn_outbox := [claim_row ''o1'' 2000 x demo_record],
       tn_tasks := [Sent (sent_delivery ''r1'' ''o1'' demo_record (demo_peer ''pb'' ''nb'' ''kb''))]\<rparr>"
    using demo_waiting nd by metis
  let ?ev = "Ev_answer 0 Timed_out (Fin 0) 3000"
  let ?tr = "[(Ev_send demo_values ''r1'' 1000 demo_send, node_a), (Ev_send_now ''r1'' ''o1'' 2000, sent_a), (?ev, nd)]"
  have "possible ?ev nd" by (simp add: possible_def w)
  from trun_step [OF two this] have run: "trun open_env ?cfg node_a ?tr (texec open_env ?cfg ?ev nd)" by simp
  have req: "peer_request open_env ?cfg (demo_peer ''pb'' ''nb'' ''kb'') Timed_out = Inl (transient TcTimeout)"
    by (simp add: peer_request_def validate_endpoint_def demo_peer_def peer_create_row_def demo_transport_def truthy_def request_result_def)
  have row: "ob_id demo_record = ''r1''" "ob_attempts demo_record = 0" "ob_max_attempts demo_record = 1"
    by (simp_all add: demo_record_def outbox_create_row_def)
  have after: "\<exists>r. outbox_get (tn_outbox (texec open_env ?cfg ?ev nd)) ''r1'' = Some r \<and> ob_status r = Dead_letter \<and>
      ob_attempts r = 1 \<and> ob_max_attempts r = 1"
    using req by (simp add: w drop_nth_def deliver_end_def sent_delivery_def handle_delivery_error_def transient_def row finish_delivery_def
        outbox_get_release dead_row_def release_row_def Let_def)
  have "tn_identity node_a \<noteq> None" "tn_identity sent_a \<noteq> None"
    by (simp_all add: sent_a_def node_a_def demo_tnode_def)
  then have "forgiven ?tr ''r1'' = 0" by (simp add: forgiven_def forgives_def)
  moreover from after obtain r where r: "outbox_get (tn_outbox (texec open_env ?cfg ?ev nd)) ''r1'' = Some r" "ob_status r = Dead_letter"
      "ob_attempts r = 1" "ob_max_attempts r = 1" by blast
  moreover have "1 \<le> tc_max_attempts ?cfg" by (simp add: demo_settings_def)
  note attempts_bounded [OF run demo_new_nodes(1) this r(1)]
  ultimately show ?thesis using run by (intro exI [of _ ?tr] exI [of _ "texec open_env ?cfg ?ev nd"] exI [of _ r]) simp
qed

text \<open>A cancelled message is neither retried nor sent.\<close>

theorem settled_forever_witness:
  "outbox_get (tn_outbox (texec open_env (demo_settings ''na'') (Ev_send_now ''r1'' ''o1'' 2000)
      (texec open_env (demo_settings ''na'') (Ev_retry ''r1'' 1500) (texec open_env (demo_settings ''na'') (Ev_cancel ''r1'') sent_a)))) ''r1''
    = Some (cancel_row demo_record) \<and> ob_status (cancel_row demo_record) = Cancelled"
proof -
  let ?cfg = "demo_settings ''na''" and ?cancelled = "texec open_env (demo_settings ''na'') (Ev_cancel ''r1'') sent_a"
  let ?retried = "texec open_env ?cfg (Ev_retry ''r1'' 1500) ?cancelled"
  have c: "?cancelled = sent_a\<lparr>tn_outbox := [cancel_row demo_record]\<rparr>"
    by (simp add: cancel_message_def sent_a_def demo_record_def outbox_create_row_def)
  have row: "outbox_get (tn_outbox ?cancelled) ''r1'' = Some (cancel_row demo_record)" "ob_status (cancel_row demo_record) = Cancelled"
    unfolding c by (simp_all add: cancel_row_def demo_record_def outbox_create_row_def)
  have "possible (Ev_cancel ''r1'') sent_a" by (simp add: possible_def)
  note run = trun_step [OF demo_a_runs(1) this]
  have "possible (Ev_retry ''r1'' 1500) ?cancelled" by (simp add: possible_def)
  note r1 = trun_step [OF trun_start this, of open_env ?cfg]
  have "tn_tasks ?retried = [] \<and> tn_worker ?retried = None"
    unfolding c by (simp add: retry_message_def sent_a_def node_a_def demo_tnode_def cancel_row_def demo_record_def outbox_create_row_def)
  then have "possible (Ev_send_now ''r1'' ''o1'' 2000) ?retried" by (simp add: possible_def used_owners_def del: texec.simps)
  note later = trun_step [OF r1 this]
  have "1 \<le> tc_max_attempts ?cfg" by (simp add: demo_settings_def)
  from settled_forever [OF run demo_new_nodes(1) this row(1) _ later] row(2) show ?thesis by blast
qed

text \<open>The message arrives twice and enters once.\<close>

theorem inbox_exactly_once_witness:
  "\<exists>nd. trun open_env (demo_settings ''nb'') node_b [(demo_arrival ''i1'', node_b), (demo_arrival ''i2'', arrived_b)] nd \<and>
     map ib_id (tn_inbox nd) = [''i1''] \<and> new_record open_env (demo_settings ''nb'') (demo_arrival ''i1'') node_b = Some ''i1'' \<and>
     new_record open_env (demo_settings ''nb'') (demo_arrival ''i2'') arrived_b = None"
proof -
  let ?nd = "arrived_b\<lparr>tn_inbox := increment_duplicate ''m1'' [demo_entry]\<rparr>" and ?cfg = "demo_settings ''nb''"
  note run = demo_b_runs(2) [OF open_accepts]
  have ids: "map ib_id (tn_inbox ?nd) = [''i1'']" by (simp add: increment_duplicate_def demo_entry_simps)
  obtain a where "handle_inbound open_env ?cfg (demo_fresh ''i2'') 1000 (JObj (model_dump demo_msg)) arrived_b = (Repeated a, ?nd)"
    using demo_repeated [OF open_accepts] by blast
  then have again: "new_record open_env ?cfg (demo_arrival ''i2'') arrived_b = None" by (simp add: new_record_def)
  have only: "x = Some ''i1''" if "[''i1''] = List.map_filter (\<lambda>(ev, nd). f ev nd) [(e, n), (e', n')]" "f e n = x" "f e' n' = None"
    for f :: "tevent \<Rightarrow> tnode \<Rightarrow> string option" and e e' n n' x
    using that by (cases x) (simp_all add: List.map_filter_def)
  have "map ib_id (tn_inbox ?nd) = List.map_filter (\<lambda>(ev, nd). new_record open_env ?cfg ev nd)
      [(demo_arrival ''i1'', node_b), (demo_arrival ''i2'', arrived_b)]"
    using inbox_exactly_once [OF run demo_new_nodes(2)] by (rule conjunct1 [OF conjunct2])
  then have "new_record open_env ?cfg (demo_arrival ''i1'') node_b = Some ''i1''"
    using only [of "new_record open_env ?cfg" "demo_arrival ''i1''" node_b "demo_arrival ''i2''" arrived_b, OF _ refl again]
    by (simp only: ids)
  with run ids again show ?thesis by (intro exI [of _ ?nd] conjI)
qed

theorem acknowledged_is_authentic_witness:
  "\<exists>ack nd' e p r. receive_message open_env (demo_settings ''nb'') (demo_fresh ''i1'') 1000 500 (Some (JObj (model_dump demo_msg))) node_b
      = ((200, Some ack), nd') \<and> peer_by_node_id (tn_peers node_b) (env_sender_node_id e) = Some p \<and> pr_trust p = Trusted \<and>
     verify_signature_with point_repr (\<lambda>_ _ _. True) (or_empty (pr_public_key p)) e = Some True \<and>
     inbox_by_message_id (tn_inbox nd') (env_message_id e) = Some r \<and> canonical_hash point_repr (model_dump e) = Some (ib_hash r)"
  using acknowledged_is_authentic [OF demo_stored [OF open_accepts]] demo_stored [OF open_accepts]
  by (auto simp: demo_transport_def)

text \<open>Key \<open>kb\<close> signs the acknowledgement and nothing else.\<close>

definition strict_verify :: "string \<Rightarrow> bytes \<Rightarrow> string \<Rightarrow> bool" where
  "strict_verify k m s \<longleftrightarrow> k = ''ka'' \<or> k = ''kb'' \<and> canonical_bytes point_repr demo_ack = Some m"

abbreviation strict_env :: transport_env where "strict_env \<equiv> demo_transport strict_verify"

lemma strict_accepts: "accepts_a strict_verify"
  by (simp add: accepts_a_def strict_verify_def)

lemma verify_ack_transfer:
  assumes "verify_ack fr ver (JObj ack) key mid nid = Check_ok j" "\<And>m s. canonical_bytes fr ack = Some m \<Longrightarrow> ver' key m s"
  shows "verify_ack fr ver' (JObj ack) key mid nid = Check_ok j"
  using assms by (auto simp: verify_ack_def check_signature_def split: if_splits option.splits)

lemma demo_ack_verifies:
  "\<exists>j. verify_ack point_repr (peer_verifies strict_env (Some ''kb'')) (JObj demo_ack) ''kb'' ''m1'' (Some ''nb'') = Check_ok j"
  "bindable (json_get ''acknowledgement_id'' demo_ack)"
proof -
  have e: "ack_of open_env identity_b (demo_fresh ''i1'') ''m1'' demo_entry False = demo_ack"
    by (simp add: demo_ack_def ack_of_def demo_transport_def)
  have i: "ni_public_key identity_b = ''kb''" "ni_node_id identity_b = ''nb''" "ni_sign identity_b = (\<lambda>_. ''s'')"
    by (simp_all add: demo_node_identity_def)
  have r: "te_repr open_env = point_repr" "te_verify open_env = (\<lambda>_ _ _. True)" "te_verify strict_env = strict_verify"
    by (simp_all add: demo_transport_def)
  have v: "(\<exists>j. verify_ack point_repr (peer_verifies open_env (Some ''kb'')) (JObj demo_ack) ''kb'' ''m1'' (Some ''nb'') = Check_ok j) \<and>
      bindable (json_get ''acknowledgement_id'' demo_ack)"
    using ack_of_verifies [of open_env identity_b "demo_fresh ''i1''" "''m1''" demo_entry False] by (simp add: e i r)
  then show "\<exists>j. verify_ack point_repr (peer_verifies strict_env (Some ''kb'')) (JObj demo_ack) ''kb'' ''m1'' (Some ''nb'') = Check_ok j"
    using verify_ack_transfer [of point_repr "peer_verifies open_env (Some ''kb'')" demo_ack "''kb''" "''m1''" "Some ''nb''" _
        "peer_verifies strict_env (Some ''kb'')"]
    by (auto simp: peer_verifies_def r strict_verify_def)
  show "bindable (json_get ''acknowledgement_id'' demo_ack)" using v by simp
qed


theorem trusted_exchange_completes_witness:
  "\<exists>ack nd' b r'. receive_message open_env (demo_settings ''nb'') (demo_fresh ''i1'') 1000 500 (Some (JObj (ob_envelope demo_record))) node_b
      = ((200, Some ack), nd') \<and> inbox_by_message_id (tn_inbox nd') ''m1'' = Some b \<and> ib_hash b = demo_hash \<and>
     outbox_get (tn_outbox (texec open_env (demo_settings ''na'') (Ev_answer 0 (Answer 200 500 (Some (JObj ack))) (Fin 0) 3000)
        (texec open_env (demo_settings ''na'') (Ev_send_now ''r1'' ''o1'' 2000) sent_a))) ''r1'' = Some r' \<and> ob_status r' = Acknowledged"
proof -
  have row: "ob_envelope demo_record = model_dump demo_msg" "ob_message_id demo_record = env_message_id demo_msg" "env_message_id demo_msg = ''m1''"
    by (simp_all add: demo_record_def outbox_create_row_def demo_msg_def)
  have hash: "canonical_hash (te_repr open_env) (model_dump demo_msg) = Some demo_hash" using demo_msg_hash by (simp add: demo_transport_def)
  have none: "\<forall>b. inbox_by_message_id (tn_inbox node_b) (env_message_id demo_msg) = Some b \<longrightarrow> ib_hash b = demo_hash"
    by (simp add: node_b_simps inbox_by_message_id_def)
  have ident: "te_verify open_env (ni_public_key identity_b) m (ni_sign identity_b m)" "ni_sign identity_b m \<noteq> []" for m
    by (simp_all add: demo_transport_def demo_node_identity_def)
  have peer: "pr_public_key (demo_peer ''pb'' ''nb'' ''kb'') = Some (ni_public_key identity_b)"
    "pr_expected_node_id (demo_peer ''pb'' ''nb'' ''kb'') = Some (ni_node_id identity_b)"
    by (simp_all add: demo_peer_def peer_create_row_def demo_node_identity_def)
  have sizes: "(500::nat) \<le> tc_max_payload (demo_settings ''nb'')" "(500::nat) \<le> tc_max_response (demo_settings ''na'')"
    by (simp_all add: demo_settings_def)
  have none_sent: "length (tn_tasks sent_a) = 0" by (simp add: sent_a_def node_a_def demo_tnode_def)
  show ?thesis
    using trusted_exchange_completes [OF demo_ready row(1,2) hash demo_authenticates [OF open_accepts node_b_simps(1,2)] sizes(1) none
      node_b_simps(3) ident peer sizes(2), of "demo_fresh ''i1''" "Fin 0" 3000 "''o1''"]
    unfolding row(2,3) none_sent by blast
qed

end
