(* ===== verification/Spec2Isabelle.thy ===== *)
theory Spec2Isabelle
  imports Flowgraph Fec SimExchange TxPolicy Selection MacLive HwGuarantees MissionRestart FleetGuarantees FleetCatalog
    TransportDemo
begin

text \<open>
  A verification of the decision logic of Aithernet, the software-radio node under
  \<open>aithernet/src/aithernet\<close>, and of the vehicle mesh FleetGraph that uses it as its radio.
  Paths below are relative to \<open>aithernet/src/aithernet\<close> unless they start with \<open>fleetgraph/\<close>.

  \<^bold>\<open>The parts and how they interact.\<close> A mission is driven by the worker, which leases its run in the
  database and calls the engine, one iteration after the other; the engine asks the coordinator
  for one decision, executes at most one route and spends the run's budgets. A route may lease a
  radio, transmit under the authorization gates, or send a message to a peer. A message travels as
  a signed envelope. Over HTTP the transport keeps it in an outbox, delivers it with bounded attempts and settles it
  by a signed acknowledgement; the receiver authenticates it, asks the mesh guard and stores it once. Over
  the air it is sealed for its peer, cut into frames, coded against bit errors and repeated until
  acknowledged; on a shared channel the MAC protocol schedules the frames. In FleetGraph each vehicle is such a
  radio node: every tick the engine moves the vehicles, computes which links deliver, spreads sightings of
  hazards along chains of links, and brakes the vehicles that know of one.

  \<^bold>\<open>Theories, source files and what the lemmas show.\<close>
  \<^item> \<open>Prelude\<close>, \<open>Bytes\<close>, \<open>PyFloat\<close>, \<open>Binary64\<close>, \<open>Json\<close>, \<open>Sha256\<close>: results with errors, keyed tables and the locale
    of a keyed store, Python strings; bytes; floats as exact values with infinities and NaN; binary64 arithmetic,
    every operation rounded to nearest even; \<open>json.dumps\<close> with its injectivity;
    SHA-256 and HMAC as computed by \<open>hashlib\<close>.
  \<^item> \<open>Frame\<close> (\<open>transport/ota/frame.py\<close>), \<open>Fec\<close> (\<open>fec.py\<close>): framing round trips, detection of every
    single-byte corruption, reassembly; correction of one bit error per block.
  \<^item> \<open>Profiles\<close> (\<open>profiles.py\<close>), \<open>Flowgraph\<close> (\<open>flowgraph.py\<close>): the modem registry keeps only valid profiles
    usable; generated flowgraphs and their validation.
  \<^item> \<open>Arq\<close> (\<open>reliability.py\<close>), \<open>Envelope\<close> (\<open>transport/envelope.py\<close>, \<open>canonical.py\<close>), \<open>OtaSecurity\<close> (\<open>security.py\<close>),
    \<open>SimLink\<close> and \<open>SimExchange\<close> (\<open>simulated_rf.py\<close>, \<open>interface.py\<close>): retries bounded for every frame, no replay,
    delivery means the payload arrived, the exchange refines sending the envelope.
  \<^item> \<open>TxPolicy\<close> (\<open>authorization.py\<close>, \<open>tx_control.py\<close>, \<open>executor.py\<close>), \<open>Selection\<close> (\<open>selection.py\<close>): no radiation without
    the operator's permission and within all of its limits, approvals bound to one plan, no silent downgrade of the transport.
  \<^item> \<open>MacFrame\<close>, \<open>MacLink\<close>, \<open>MacLive\<close> (\<open>mac.py\<close>): authenticated MAC frames; the transfer follows its state
    machine within its bounds, and delivers on a clear medium.
  \<^item> \<open>HwDevice\<close>, \<open>HwLease\<close>, \<open>HwExclusion\<close>, \<open>HwGuarantees\<close> (\<open>hardware/leases.py\<close>, the lease part of
    \<open>state/repositories.py\<close>): every interleaving of lease operations refines a readers-writer lock per device, and a lease
    is granted only if the device's capabilities and its mode rules allow it.
  \<^item> \<open>FailureClass\<close> (\<open>missions/failure_classification.py\<close>, \<open>requirements.py\<close>), \<open>MissionCore\<close> (\<open>lifecycle.py\<close>,
    \<open>budgets.py\<close>, \<open>coordinator/contracts.py\<close>), \<open>MissionStore\<close> (the mission part of \<open>state/repositories.py\<close>),
    \<open>MissionEngine\<close> (\<open>missions/engine.py\<close>), \<open>MissionWorker\<close> (\<open>missions/worker.py\<close>): the data and operations.
    \<open>MissionSafety\<close> relates what an operation may change, \<open>MissionRecovery\<close> what recovery after a restart does and
    keeps, \<open>MissionGuarantees\<close> proves the invariants of every sequence of operations, \<open>MissionOutcomes\<close> the outcomes
    of an iteration and the end of the run task, \<open>MissionRestart\<close> starting twice.
    Below, failure classification and the engine are put together.
  \<^item> \<open>MeshGuard\<close> (\<open>mesh/__init__.py\<close>), \<open>TransportWire\<close> (\<open>transport/ack.py\<close>, \<open>manifest.py\<close>, \<open>identity.py\<close>,
    \<open>http_transport.py\<close>, \<open>errors.py\<close>), \<open>TransportStore\<close> (peers, outbox and inbox of \<open>state/repositories.py\<close>),
    \<open>TransportService\<close> (\<open>transport/service.py\<close>, \<open>worker.py\<close>, \<open>api/agent_transport.py\<close>), \<open>TransportRun\<close> (a node as a step
    relation over all of these operations): the data and operations. \<open>TransportLife\<close> follows an outbox record through every
    run, \<open>TransportInbox\<close> what may enter the inbox, \<open>CanonicalForm\<close> reads the signed bytes back,
    \<open>TransportGuarantees\<close> and \<open>TransportExchange\<close> hold the guarantees for one node and for two, \<open>TransportDemo\<close>
    a message between two nodes.
  \<^item> Under \<open>fleetgraph/fleetgraph\<close>: \<open>FleetScenario\<close> and \<open>FleetCatalog\<close> (\<open>scenario.py\<close>, \<open>grid.py\<close>), \<open>FleetWorld\<close>
    (\<open>world.py\<close>), \<open>FleetRadio\<close> (\<open>radio.py\<close>), \<open>FleetSearch\<close> and \<open>FleetEngine\<close> (\<open>engine.py\<close>, \<open>events.py\<close>): scenario
    and path resolution, geometry, the link budget, and a whole run with one definition per phase of a tick.
    \<open>FleetLog\<close> and \<open>FleetMotion\<close> are the invariants of the event stream and of the motion; \<open>FleetGuarantees\<close>
    shows that warnings trace to sightings, that none is withheld, that nobody brakes unaware, and the bounds of the
    motion.

  \<^bold>\<open>Conventions.\<close> State is passed explicitly; a database is a record of tables in creation order; a raised
  exception is an \<open>Inl\<close> value; instants are whole microseconds. Each \<open>await\<close> of the mission engine may run
  other tasks: it ends in \<open>ou_yield\<close>, an arbitrary step that keeps usage and terminal states (\<open>outside_ok\<close>), so
  iterations and recovery follow one another and do not overlap. In the transport one process owns the tables: an
  operation is one step up to the request it makes and one step from the answer on, and the steps of all deliveries
  interleave. Floats are exact values and are computed in binary64 where the code computes with
  them; signed zeros are not told apart, and keys of sorted lists are not NaN. Texts for people, measured latencies
  and events that no operation reads are left out.

  \<^bold>\<open>Bounds and fuel.\<close> Loops of the source are structural recursions over the list they traverse, or over the range
  of their counter. \<open>run_loop\<close> of the worker takes fuel; one more than the configured iteration limit is proved to be
  enough. Breadth-first search recurses with a measure on
  the unvisited vehicles; its walk back along the parents takes their number as fuel, which the shortest-chain property
  shows to suffice.

  \<^bold>\<open>Parameters.\<close> ChaCha20-Poly1305, Ed25519 and pydantic are third-party packages; the random nonces and
  identifiers, the clock, the radio's signal chain, the coordinator's model, the executed route, the answers of peers,
  the float \<open>repr\<close>, \<open>fromisoformat\<close>, \<open>urlparse\<close> and the C library's \<open>log10\<close>, \<open>sqrt\<close> and trigonometric
  functions are arguments of the definitions that use them, with what is relied on as named hypotheses.

  \<^bold>\<open>Not modelled.\<close> The floating-point modem and channel (\<open>modem.py\<close>, \<open>channel.py\<close>), the contention simulation of
  \<open>mac.py\<close>, the command line, the HTTP routes apart from the transport's, provisioning, the provider clients, the data
  platform, artifact transfer, the peer conversations, the hosted services, the dashboards and FleetGraph's web API: they
  are input and output, glue or numerics around the logic above.
\<close>

section \<open>Failure classification and the engine together\<close>

text \<open>A run that a blocking handler ended with the outcome blocked, and its mission, are blocked for the reason given.\<close>

lemma block_run_sets:
  assumes "outside_ok ou" "mission_get \<sigma> mid \<noteq> None" "run_get \<sigma> rid = Some r"
    and "block_run ou rid mid why d evs \<sigma> = (\<sigma>', Inr oc)"
  obtains \<sigma>b rb mb r' where "\<sigma>' = fold (\<lambda>ty. emit ou ty mid) evs \<sigma>b"
    "run_get \<sigma>b rid = Some rb" "rn_status rb = MsBlocked" "rn_blocked_reason rb = Some why"
    "mission_get \<sigma>b mid = Some mb" "ms_status mb = MsBlocked"
    "run_get \<sigma>' rid = Some r'" "rn_status r' = MsBlocked"
proof -
  let ?f = "\<lambda>r. r\<lparr>rn_blocked_reason := Some why\<rparr>"
  let ?\<sigma>p = "persist_control_step ou mid rid ''blocked'' StBlocked (Some why) d \<sigma>"
  obtain \<sigma>b where b: "apply_transition rid mid MsBlocked ?f ?\<sigma>p = (\<sigma>b, Inr ())"
      "\<sigma>' = fold (\<lambda>ty. emit ou ty mid) evs \<sigma>b"
    using assms(4) by (auto simp: block_run_def split: prod.splits sum.splits)
  obtain rp where rp: "run_get ?\<sigma>p rid = Some rp" using keeps_get [OF keeps_control_step assms(3)] by blast
  obtain mp where mp: "mission_get \<sigma> mid = Some mp"
    using assms(2) by auto
  have \<sigma>b: "\<sigma>b = update_run rid (\<lambda>r. (?f r)\<lparr>rn_status := MsBlocked\<rparr>) (update_status mid MsBlocked ?\<sigma>p)"
    using b(1) by (simp add: apply_transition_def rp mp split: sum.splits)
  have rb: "run_get \<sigma>b rid = Some (touch (nd_clock ?\<sigma>p) ((?f rp)\<lparr>rn_status := MsBlocked\<rparr>))"
    unfolding \<sigma>b by (simp add: get_update_run rp)
  have mb: "mission_get \<sigma>b mid = Some (mp\<lparr>ms_status := MsBlocked\<rparr>)"
    unfolding \<sigma>b by (simp add: update_status_def tbl_get_upd mp)
  from keeps_get [OF keeps_emits [OF assms(1)] rb] b(2) obtain r' where
    "run_get \<sigma>' rid = Some r'" "rn_status r' = MsBlocked" by (auto simp: mono_status_def touch_def)
  with that b(2) rb mb show ?thesis by (simp add: touch_def)
qed

definition block_note :: "outside \<Rightarrow> failure_exc \<Rightarrow> string \<Rightarrow> step_note" where
  "block_note ou exc err =
     (if classify_failure (Some exc) err = Quota then NoteQuota (ou_short ou err)
      else NotePermanent (category (Some exc) err) (ou_short ou err))"

text \<open>
  C26: A coordinator failure whose text is classified as permanent, or as an exhausted quota, blocks
  the mission after that one attempt. The iteration ends blocked: the transition leaves the run and
  its mission in the state blocked with the reason recorded, one event is announced, and the run is
  still blocked when the iteration returns, whatever other tasks did meanwhile; or the transition was rejected, because the
  run or the mission had left the active state while the coordinator was awaited. It counts one iteration, no
  coordinator call, no consecutive failure and no route action.
\<close>

theorem permanent_failure_blocks_once:
  assumes "outside_ok ou" "run_get \<sigma> rid = Some r" "admitted ou r = Some b"
    and "\<sigma>1 = start_iteration ou rid r \<sigma>" "mission_get \<sigma>1 (rn_mission r) \<noteq> None"
    and "ou_coordinator ou (rn_mission r) \<sigma>1 = (CoordinatorFailed exc err, \<sigma>2)"
    and "mission_get \<sigma>2 (rn_mission r) \<noteq> None" and "classify_failure (Some exc) err \<noteq> Transient"
  shows "(case snd (run_iteration ou rid \<sigma>) of
      Inl e \<Rightarrow> \<exists>t. e = TransitionRejected t
    | Inr oc \<Rightarrow> oc = OcBlocked
        \<and> (\<exists>\<sigma>b rb mb. fst (run_iteration ou rid \<sigma>) = emit ou ''mission.blocked'' (rn_mission r) \<sigma>b
             \<and> run_get \<sigma>b rid = Some rb \<and> rn_status rb = MsBlocked
             \<and> rn_blocked_reason rb = Some (block_note ou exc err)
             \<and> mission_get \<sigma>b (rn_mission r) = Some mb \<and> ms_status mb = MsBlocked)
        \<and> (\<exists>r'. run_get (fst (run_iteration ou rid \<sigma>)) rid = Some r' \<and> rn_status r' = MsBlocked))
    \<and> (\<exists>r'. run_get (fst (run_iteration ou rid \<sigma>)) rid = Some r'
        \<and> usage_of r' = (usage_of r)\<lparr>us_iterations := rn_iterations r + 1\<rparr>)"
proof -
  let ?mid = "rn_mission r" and ?evs = "[''mission.blocked'']"
  obtain r1 where r1: "run_get \<sigma>1 rid = Some r1" "usage_of r1 = (usage_of r)\<lparr>us_iterations := rn_iterations r + 1\<rparr>"
    unfolding assms(4) by (rule start_iteration_run [OF assms(1,2)])
  have it: "run_iteration ou rid \<sigma> = block_run ou rid ?mid (block_note ou exc err) None ?evs \<sigma>2"
    using run_iteration_admitted [OF assms(2,3,4)] assms(5,6,8) r1(1)
    by (auto simp: decide_def handle_coordinator_failure_def handle_permanent_block_def handle_quota_block_def
        block_note_def classify_failure_def Let_def split: disposition.split)
  have k: "keeps \<sigma>1 \<sigma>2" using outside_okD(3) [OF assms(1), of \<sigma>1 ?mid] assms(6) by simp
  from keeps_get [OF this r1(1)] obtain r2 where r2: "run_get \<sigma>2 rid = Some r2" by blast
  from keeps_get [OF keeps_trans [OF k keeps_block_run [OF assms(1)]] r1(1)]
  have usage: "\<exists>r'. run_get (fst (run_iteration ou rid \<sigma>)) rid = Some r'
      \<and> usage_of r' = (usage_of r)\<lparr>us_iterations := rn_iterations r + 1\<rparr>"
    unfolding it r1(2) [symmetric] by blast
  show ?thesis
  proof (cases "snd (run_iteration ou rid \<sigma>)")
    case (Inl e)
    then have "\<exists>t. e = TransitionRejected t"
      using block_run_result [of ou rid ?mid "block_note ou exc err" None ?evs \<sigma>2] by (simp add: it)
    with Inl usage show ?thesis by simp
  next
    case (Inr oc)
    then have run: "block_run ou rid ?mid (block_note ou exc err) None ?evs \<sigma>2 = (fst (run_iteration ou rid \<sigma>), Inr oc)"
      by (simp add: it prod_eq_iff)
    obtain \<sigma>b rb mb r' where "fst (run_iteration ou rid \<sigma>) = fold (\<lambda>ty. emit ou ty ?mid) ?evs \<sigma>b"
      "run_get \<sigma>b rid = Some rb" "rn_status rb = MsBlocked" "rn_blocked_reason rb = Some (block_note ou exc err)"
      "mission_get \<sigma>b ?mid = Some mb" "ms_status mb = MsBlocked"
      "run_get (fst (run_iteration ou rid \<sigma>)) rid = Some r'" "rn_status r' = MsBlocked"
      by (rule block_run_sets [OF assms(1,7) r2 run])
    moreover have "oc = OcBlocked"
      using block_run_outcome [of ou rid ?mid "block_note ou exc err" None ?evs \<sigma>2] run by simp
    ultimately show ?thesis using Inr usage by auto
  qed
qed

definition refused_outside :: outside where
  "refused_outside = demo_outside\<lparr>ou_coordinator :=
     (\<lambda>_ \<sigma>. (CoordinatorFailed \<lparr>exc_configuration = False, exc_timeout = False, exc_message = ''401 Unauthorized''\<rparr> ''401 Unauthorized'', \<sigma>))\<rparr>"

lemma refused_run:
  "case run_get demo_started ''u'' of None \<Rightarrow> False | Some r \<Rightarrow> rn_mission r = ''m'' \<and> rn_failures r = 0
     \<and> admitted refused_outside r \<noteq> None \<and> mission_get (start_iteration refused_outside ''u'' r demo_started) ''m'' \<noteq> None"
  "classify_failure (Some \<lparr>exc_configuration = False, exc_timeout = False, exc_message = ''401 Unauthorized''\<rparr>) ''401 Unauthorized'' \<noteq> Transient"
  "is_ok (snd (run_iteration refused_outside ''u'' demo_started))"
  by code_simp+

theorem permanent_failure_blocks_once_witness:
  "snd (run_iteration refused_outside ''u'' demo_started) = Inr OcBlocked
   \<and> (\<exists>r. run_get (fst (run_iteration refused_outside ''u'' demo_started)) ''u'' = Some r
        \<and> rn_status r = MsBlocked \<and> rn_failures r = 0)"
proof -
  obtain r b where r: "run_get demo_started ''u'' = Some r" "rn_mission r = ''m''" "rn_failures r = 0"
      "admitted refused_outside r = Some b" "mission_get (start_iteration refused_outside ''u'' r demo_started) ''m'' \<noteq> None"
    using refused_run(1) by (auto split: option.splits)
  have ok: "outside_ok refused_outside" by (simp add: outside_ok_def refused_outside_def demo_outside_def)
  have c: "ou_coordinator refused_outside mid \<sigma> = (CoordinatorFailed
      \<lparr>exc_configuration = False, exc_timeout = False, exc_message = ''401 Unauthorized''\<rparr> ''401 Unauthorized'', \<sigma>)" for mid \<sigma>
    by (simp add: refused_outside_def)
  note p = permanent_failure_blocks_once [OF ok r(1,4) refl _ c _ refused_run(2), unfolded r(2), OF r(5) r(5)]
  obtain oc where oc: "snd (run_iteration refused_outside ''u'' demo_started) = Inr oc"
    using refused_run(3) by (cases "snd (run_iteration refused_outside ''u'' demo_started)") (auto simp: is_ok_def)
  from p obtain r' where r': "run_get (fst (run_iteration refused_outside ''u'' demo_started)) ''u'' = Some r'"
      "usage_of r' = (usage_of r)\<lparr>us_iterations := rn_iterations r + 1\<rparr>" by blast
  have "us_failures (usage_of r') = 0" unfolding r'(2) using r(3) by simp
  then show ?thesis using p r'(1) unfolding oc by auto
qed

end
